(* ===== verification/Prelude.thy ===== *)
theory Prelude
  imports Complex_Main "HOL-Library.List_Lexorder" "HOL-Library.Char_ord"
begin

text \<open>
  Shared vocabulary of the development: the error values and the result type of code that
  throws, the traversal combinators the components use in place of JavaScript loops and
  \<open>reduce\<close>, decimal printing of integers (\<open>String\<close>, \<open>padStart\<close>), and
  the fact collections every component extends.

  Error messages are the source's, with the accents left out (the theories are ASCII).
\<close>

named_theorems key_simps \<open>day keys as civil day numbers\<close>
named_theorems dec_simps \<open>decimal arithmetic that stays within its precision\<close>
named_theorems res_simps \<open>the result monad\<close>

section \<open>Errors and results\<close>

datatype error =
    RangeError string
  | PlainError string
  | DomainError string string
  | BadRequest string
  | Conflict string
  | NotFound string
  | ServiceUnavailable string

type_synonym 'a res = "error + 'a"

definition res_bind :: "'a res \<Rightarrow> ('a \<Rightarrow> 'b res) \<Rightarrow> 'b res" where
  "res_bind m f = (case m of Inl e \<Rightarrow> Inl e | Inr x \<Rightarrow> f x)"

definition res_when :: "bool \<Rightarrow> error \<Rightarrow> 'b res \<Rightarrow> 'b res" where
  "res_when c e k = (if c then Inl e else k)"

fun res_mapM :: "('a \<Rightarrow> 'b res) \<Rightarrow> 'a list \<Rightarrow> 'b list res" where
  "res_mapM f [] = Inr []"
| "res_mapM f (x # xs) = res_bind (f x) (\<lambda>y. res_bind (res_mapM f xs) (\<lambda>ys. Inr (y # ys)))"

fun res_fold :: "('s \<Rightarrow> 'a \<Rightarrow> 's res) \<Rightarrow> 's \<Rightarrow> 'a list \<Rightarrow> 's res" where
  "res_fold f s [] = Inr s"
| "res_fold f s (x # xs) = res_bind (f s x) (\<lambda>s'. res_fold f s' xs)"

text \<open>\<open>Array.some\<close> with a predicate that may throw: stops at the first hit or error.\<close>

fun res_some :: "('a \<Rightarrow> bool res) \<Rightarrow> 'a list \<Rightarrow> bool res" where
  "res_some p [] = Inr False"
| "res_some p (x # xs) = res_bind (p x) (\<lambda>b. if b then Inr True else res_some p xs)"

lemma res_bind_Inr [simp, res_simps]: "res_bind (Inr x) f = f x"
  by (simp add: res_bind_def)

lemma res_bind_Inl [simp, res_simps]: "res_bind (Inl e) f = Inl e"
  by (simp add: res_bind_def)

lemma res_bind_eq_Inr: "res_bind m f = Inr y \<longleftrightarrow> (\<exists>x. m = Inr x \<and> f x = Inr y)"
  by (cases m) auto

lemma res_bind_assoc: "res_bind (res_bind m f) g = res_bind m (\<lambda>x. res_bind (f x) g)"
  by (cases m) auto

lemma res_bind_cong [fundef_cong]:
  "m = m' \<Longrightarrow> (\<And>x. m' = Inr x \<Longrightarrow> f x = f' x) \<Longrightarrow> res_bind m f = res_bind m' f'"
  by (cases m') auto

lemma res_when_simps [simp, res_simps]:
  "res_when True e k = Inl e" "res_when False e k = k"
  by (simp_all add: res_when_def)

lemma res_when_eq_Inr [simp]: "res_when c e k = Inr y \<longleftrightarrow> \<not> c \<and> k = Inr y"
  by (simp add: res_when_def)

lemma res_mapM_all_ok: "(\<And>x. x \<in> set xs \<Longrightarrow> f x = Inr (g x)) \<Longrightarrow> res_mapM f xs = Inr (map g xs)"
  by (induction xs) auto

lemma res_mapM_length: "res_mapM f xs = Inr ys \<Longrightarrow> length ys = length xs"
  by (induction xs arbitrary: ys) (auto simp: res_bind_eq_Inr)

lemma res_fold_all_ok:
  "(\<And>s x. x \<in> set xs \<Longrightarrow> f s x = Inr (g s x)) \<Longrightarrow> res_fold f s xs = Inr (foldl g s xs)"
  by (induction xs arbitrary: s) auto

lemma res_fold_append:
  "res_fold f s (xs @ ys) = res_bind (res_fold f s xs) (\<lambda>t. res_fold f t ys)"
  by (induction xs arbitrary: s) (auto simp: res_bind_assoc)

lemma res_fold_invariant:
  assumes "res_fold f s xs = Inr t" and "P s"
    and "\<And>s x s'. x \<in> set xs \<Longrightarrow> P s \<Longrightarrow> f s x = Inr s' \<Longrightarrow> P s'"
  shows "P t"
  using assms by (induction xs arbitrary: s) (auto simp: res_bind_eq_Inr)

lemma res_some_all_ok:
  "(\<And>x. x \<in> set xs \<Longrightarrow> p x = Inr (q x)) \<Longrightarrow> res_some p xs = Inr (\<exists>x \<in> set xs. q x)"
  by (induction xs) auto

section \<open>JavaScript values\<close>

text \<open>
  What a request body can hold (\<open>unknown\<close> in the source): \<open>undefined\<close> for an absent field and
  the JSON values. JavaScript numbers are modelled by the rational they print as.
\<close>

datatype js =
    JUndefined
  | JNull
  | JBool bool
  | JNumber rat
  | JString string
  | JArray "js list"
  | JObject "(string \<times> js) list"

definition js_field :: "(string \<times> js) list \<Rightarrow> string \<Rightarrow> js" where
  "js_field ob name = (case map_of ob name of None \<Rightarrow> JUndefined | Some v \<Rightarrow> v)"

section \<open>Loops over days and months\<close>

text \<open>
  \<open>upto_list lo hi\<close> is the list of the integers from \<open>lo\<close> to \<open>hi\<close>; it is what the counting
  loops \<open>for (k = lo; k <= hi; k += 1)\<close> of the source range over.
\<close>

lemma upto_split: "lo \<le> hi \<Longrightarrow> [lo..hi] = lo # [lo + 1..hi]" for lo hi :: int
  by (rule upto_rec1)

lemma length_filter_upto: "length (filter P [lo..hi]) = card {n \<in> {lo..hi}. P n}" for lo hi :: int
  by (metis (no_types, lifting) Collect_cong distinct_card distinct_filter distinct_upto
      set_filter set_upto)

section \<open>Printing integers\<close>

definition digit_char :: "nat \<Rightarrow> char" where
  "digit_char d = char_of (48 + d)"

definition is_digit :: "char \<Rightarrow> bool" where
  "is_digit c \<longleftrightarrow> CHR ''0'' \<le> c \<and> c \<le> CHR ''9''"

definition digit_val :: "char \<Rightarrow> int" where
  "digit_val c = int (of_char c) - 48"

text \<open>\<open>String(n)\<close> for an integer: decimal digits, most significant first.\<close>

fun nat_digits :: "nat \<Rightarrow> string" where
  "nat_digits n = (if n < 10 then [digit_char n] else nat_digits (n div 10) @ [digit_char (n mod 10)])"

declare nat_digits.simps [simp del]

definition int_to_string :: "int \<Rightarrow> string" where
  "int_to_string n = (if n < 0 then CHR ''-'' # nat_digits (nat (- n)) else nat_digits (nat n))"

definition pad_start :: "nat \<Rightarrow> char \<Rightarrow> string \<Rightarrow> string" where
  "pad_start w c s = replicate (w - length s) c @ s"

text \<open>\<open>Number(s)\<close> on a string of digits.\<close>

definition digits_val :: "string \<Rightarrow> int" where
  "digits_val s = foldl (\<lambda>n c. 10 * n + digit_val c) 0 s"

lemma of_char_digit [simp]: "d < 10 \<Longrightarrow> of_char (digit_char d) = (48 + d :: nat)"
  by (simp add: digit_char_def)

lemma digit_char_less: "d < 10 \<Longrightarrow> e < 10 \<Longrightarrow> digit_char d < digit_char e \<longleftrightarrow> d < e"
  by (simp add: less_char_def)

lemma digit_char_inject: "d < 10 \<Longrightarrow> e < 10 \<Longrightarrow> digit_char d = digit_char e \<longleftrightarrow> d = e"
  by (metis add_left_cancel of_char_digit)

lemma digit_char_0: "digit_char 0 = CHR ''0''"
  by code_simp

lemma is_digit_iff: "is_digit c \<longleftrightarrow> (\<exists>d < 10. c = digit_char d)"
proof
  assume "is_digit c"
  then have c: "48 \<le> (of_char c :: nat)" "(of_char c :: nat) \<le> 57"
    by (simp_all add: is_digit_def less_eq_char_def)
  then have "c = digit_char (of_char c - 48)"
    by (simp add: digit_char_def)
  with c show "\<exists>d < 10. c = digit_char d"
    by (intro exI [of _ "of_char c - 48"]) auto
next
  assume "\<exists>d < 10. c = digit_char d"
  then show "is_digit c"
    by (auto simp: is_digit_def less_eq_char_def)
qed

lemma digit_val_char [simp]: "d < 10 \<Longrightarrow> digit_val (digit_char d) = int d"
  by (simp add: digit_val_def)

lemma digit_char_not_dash [simp]: "d < 10 \<Longrightarrow> digit_char d \<noteq> CHR ''-''"
proof
  assume "d < 10" "digit_char d = CHR ''-''"
  then have "(of_char (digit_char d) :: nat) = of_char (CHR ''-'')" by simp
  with \<open>d < 10\<close> show False by simp
qed

lemma nat_digits_small: "n < 10 \<Longrightarrow> nat_digits n = [digit_char n]"
  by (simp add: nat_digits.simps [of n])

lemma nat_digits_step:
  "10 \<le> n \<Longrightarrow> nat_digits n = nat_digits (n div 10) @ [digit_char (n mod 10)]"
  by (simp add: nat_digits.simps [of n])

lemma nat_digits_2: "10 \<le> n \<Longrightarrow> n < 100 \<Longrightarrow> nat_digits n = [digit_char (n div 10), digit_char (n mod 10)]"
  by (subst nat_digits_step) (auto simp: nat_digits_small)

lemma nat_digits_4:
  assumes "1000 \<le> n" "n < 10000"
  shows "nat_digits n = [digit_char (n div 1000), digit_char (n div 100 mod 10),
    digit_char (n div 10 mod 10), digit_char (n mod 10)]"
proof -
  have "nat_digits (n div 100) = [digit_char (n div 100 div 10), digit_char (n div 100 mod 10)]"
    using assms by (intro nat_digits_2) auto
  moreover have "nat_digits (n div 10) = nat_digits (n div 100) @ [digit_char (n div 10 mod 10)]"
    using assms by (subst nat_digits_step) (auto simp: div_mult2_eq [symmetric])
  moreover have "nat_digits n = nat_digits (n div 10) @ [digit_char (n mod 10)]"
    using assms by (subst nat_digits_step) auto
  ultimately show ?thesis
    by (simp add: div_mult2_eq [symmetric])
qed

lemma div_bounds: "0 < k \<Longrightarrow> k * (x div k) \<le> x \<and> x < k * (x div k) + k" for x k :: int
  using mult_div_mod_eq [of k x] pos_mod_sign [of k x] pos_mod_bound [of k x] by linarith

lemma div_step:
  fixes x k :: int
  assumes "1 < k"
  shows "x div k = (x - 1) div k + (if x mod k = 0 then 1 else 0)"
proof (cases "x mod k = 0")
  case True
  then have "x - 1 = k * (x div k - 1) + (k - 1)"
    using mult_div_mod_eq [of k x] by (simp add: algebra_simps)
  moreover have "0 \<le> k - 1" "k - 1 < k"
    using assms by simp_all
  ultimately have "(x - 1) div k = x div k - 1"
    by (rule int_div_pos_eq)
  with True show ?thesis by simp
next
  case False
  have "x - 1 = k * (x div k) + (x mod k - 1)"
    using mult_div_mod_eq [of k x] by simp
  moreover have "0 \<le> x mod k - 1" "x mod k - 1 < k"
    using False assms pos_mod_sign [of k x] pos_mod_bound [of k x] by linarith+
  ultimately have "(x - 1) div k = x div k"
    by (rule int_div_pos_eq)
  with False show ?thesis by simp
qed

lemma less_by_div_mod:
  fixes v w k :: int
  assumes "0 < k"
  shows "v < w \<longleftrightarrow> v div k < w div k \<or> v div k = w div k \<and> v mod k < w mod k"
proof -
  have split: "v = k * (v div k) + v mod k" "w = k * (w div k) + w mod k"
    by simp_all
  consider "v div k < w div k" | "v div k = w div k" | "w div k < v div k"
    by linarith
  then show ?thesis
  proof cases
    case 1
    with assms have "\<not> w \<le> v" by (meson leD zdiv_mono1)
    with 1 show ?thesis by auto
  next
    case 2
    from 2 have "k * (v div k) = k * (w div k)" by simp
    with split have "v < w \<longleftrightarrow> v mod k < w mod k" by linarith
    with 2 show ?thesis by auto
  next
    case 3
    with assms have "\<not> v \<le> w" by (meson leD zdiv_mono1)
    with 3 show ?thesis by auto
  qed
qed

lemma eq_by_div_mod: "v = w \<longleftrightarrow> v div k = w div k \<and> v mod k = w mod k" for v w k :: int
  by (metis mult_div_mod_eq)

text \<open>
  A number of exactly \<open>w\<close> digits, most significant first: the printed form of every field of
  a day key, and the form on which the lexicographic order of strings is the numeric order.
\<close>

definition fixed2 :: "int \<Rightarrow> string" where
  "fixed2 v = [digit_char (nat (v div 10)), digit_char (nat (v mod 10))]"

definition fixed4 :: "int \<Rightarrow> string" where
  "fixed4 v = fixed2 (v div 100) @ fixed2 (v mod 100)"

lemma length_fixed [simp]: "length (fixed2 v) = 2" "length (fixed4 v) = 4"
  by (simp_all add: fixed2_def fixed4_def)

lemma pad_fixed2: "0 \<le> v \<Longrightarrow> v < 100 \<Longrightarrow> pad_start 2 (CHR ''0'') (int_to_string v) = fixed2 v"
proof (cases "v < 10")
  case True
  assume "0 \<le> v" "v < 100"
  with True have "v div 10 = 0" "v mod 10 = v" "nat v < 10" by auto
  with \<open>0 \<le> v\<close> show ?thesis
    by (simp add: int_to_string_def fixed2_def pad_start_def nat_digits_small digit_char_0)
next
  case False
  assume "0 \<le> v" "v < 100"
  with False have "nat_digits (nat v) = [digit_char (nat v div 10), digit_char (nat v mod 10)]"
    by (intro nat_digits_2) auto
  with \<open>0 \<le> v\<close> show ?thesis
    by (simp add: int_to_string_def fixed2_def pad_start_def nat_div_distrib nat_mod_distrib)
qed

lemma int_to_string_4: "1000 \<le> v \<Longrightarrow> v < 10000 \<Longrightarrow> int_to_string v = fixed4 v"
proof -
  assume v: "1000 \<le> v" "v < 10000"
  define n where "n = nat v"
  with v have n: "v = int n" "1000 \<le> n" "n < 10000" by auto
  have "n div 100 div 10 = n div 1000"
    by (simp add: div_mult2_eq [symmetric])
  moreover have "n mod 100 div 10 = n div 10 mod 10"
    using mod_mult2_eq [of n 10 10] by simp
  moreover have "n mod 100 mod 10 = n mod 10"
    by (simp add: mod_mod_cancel)
  moreover have "fixed4 (int n) = [digit_char (n div 100 div 10), digit_char (n div 100 mod 10),
      digit_char (n mod 100 div 10), digit_char (n mod 100 mod 10)]"
    by (simp add: fixed4_def fixed2_def nat_div_distrib nat_mod_distrib)
  ultimately show ?thesis
    using nat_digits_4 [OF n(2,3)] n by (simp add: int_to_string_def)
qed

lemma pad_fixed4: "1000 \<le> v \<Longrightarrow> v < 10000 \<Longrightarrow> pad_start 4 (CHR ''0'') (int_to_string v) = fixed4 v"
  by (simp add: int_to_string_4 pad_start_def)

lemma fixed2_less:
  assumes "0 \<le> v" "v < 100" "0 \<le> w" "w < 100"
  shows "fixed2 v @ xs < fixed2 w @ ys \<longleftrightarrow> v < w \<or> v = w \<and> xs < ys"
proof -
  have b: "nat (v div 10) < 10" "nat (w div 10) < 10" "nat (v mod 10) < 10" "nat (w mod 10) < 10"
    using assms by auto
  have "fixed2 v @ xs < fixed2 w @ ys \<longleftrightarrow>
      nat (v div 10) < nat (w div 10) \<or> nat (v div 10) = nat (w div 10) \<and>
        (nat (v mod 10) < nat (w mod 10) \<or> nat (v mod 10) = nat (w mod 10) \<and> xs < ys)"
    by (simp only: fixed2_def append.simps Cons_less_Cons digit_char_less [OF b(1) b(2)]
        digit_char_inject [OF b(1) b(2)] digit_char_less [OF b(3) b(4)] digit_char_inject [OF b(3) b(4)])
  moreover have "nat (v div 10) < nat (w div 10) \<longleftrightarrow> v div 10 < w div 10"
    "nat (v div 10) = nat (w div 10) \<longleftrightarrow> v div 10 = w div 10"
    "nat (v mod 10) < nat (w mod 10) \<longleftrightarrow> v mod 10 < w mod 10"
    "nat (v mod 10) = nat (w mod 10) \<longleftrightarrow> v mod 10 = w mod 10"
    using assms by (auto simp: nat_less_eq_zless pos_imp_zdiv_nonneg_iff eq_nat_nat_iff)
  ultimately show ?thesis
    using less_by_div_mod [of 10 v w] eq_by_div_mod [of v w 10] by auto
qed

lemma fixed4_less:
  assumes "0 \<le> v" "v < 10000" "0 \<le> w" "w < 10000"
  shows "fixed4 v @ xs < fixed4 w @ ys \<longleftrightarrow> v < w \<or> v = w \<and> xs < ys"
proof -
  have b: "0 \<le> v div 100" "v div 100 < 100" "0 \<le> w div 100" "w div 100 < 100"
      "0 \<le> v mod 100" "v mod 100 < 100" "0 \<le> w mod 100" "w mod 100 < 100"
    using assms by auto
  have "fixed4 v @ xs < fixed4 w @ ys \<longleftrightarrow> v div 100 < w div 100 \<or> v div 100 = w div 100 \<and>
      (v mod 100 < w mod 100 \<or> v mod 100 = w mod 100 \<and> xs < ys)"
    by (simp only: fixed4_def append_assoc fixed2_less [OF b(1-4)] fixed2_less [OF b(5-8)])
  then show ?thesis
    using less_by_div_mod [of 100 v w] eq_by_div_mod [of v w 100] by auto
qed

lemma digits_val_fixed2: "0 \<le> v \<Longrightarrow> v < 100 \<Longrightarrow> digits_val (fixed2 v) = v"
proof -
  assume v: "0 \<le> v" "v < 100"
  define n where "n = nat v"
  with v have n: "v = int n" "n < 100" by auto
  have "fixed2 (int n) = [digit_char (n div 10), digit_char (n mod 10)]"
    by (simp add: fixed2_def nat_div_distrib nat_mod_distrib)
  moreover have "n div 10 < 10" "n mod 10 < 10" using n by auto
  ultimately have "digits_val (fixed2 v) = 10 * int (n div 10) + int (n mod 10)"
    using n(1) by (simp add: digits_val_def del: of_nat_div of_nat_mod)
  also have "\<dots> = int n"
    by (metis mult_div_mod_eq of_nat_add of_nat_mult of_nat_numeral)
  finally show ?thesis
    using n by simp
qed

lemma digits_val_append: "digits_val (xs @ ys) = digits_val xs * 10 ^ length ys + digits_val ys"
proof -
  have "foldl (\<lambda>n c. 10 * n + digit_val c) a ys = a * 10 ^ length ys + digits_val ys" for a
  proof (induction ys rule: rev_induct)
    case (snoc y ys)
    then show ?case by (simp add: digits_val_def algebra_simps)
  qed (simp add: digits_val_def)
  from this [of "digits_val xs"] show ?thesis by (simp add: digits_val_def [of "xs @ ys"] digits_val_def [of xs])
qed

lemma digits_val_fixed4:
  assumes "0 \<le> v" "v < 10000"
  shows "digits_val (fixed4 v) = v"
proof -
  have "digits_val (fixed2 (v div 100)) = v div 100" "digits_val (fixed2 (v mod 100)) = v mod 100"
    using assms by (auto intro!: digits_val_fixed2)
  then show ?thesis by (simp add: fixed4_def digits_val_append)
qed

lemma fixed2_of_digits: "is_digit a \<Longrightarrow> is_digit b \<Longrightarrow> fixed2 (digits_val [a, b]) = [a, b]"
proof -
  assume "is_digit a" "is_digit b"
  then obtain d e where d: "d < 10" "a = digit_char d" and e: "e < 10" "b = digit_char e"
    by (auto simp: is_digit_iff)
  then have "digits_val [a, b] = int (10 * d + e)"
    by (simp add: digits_val_def)
  moreover have "nat (int (10 * d + e) div 10) = d"
    using e by linarith
  moreover have "nat (int (10 * d + e) mod 10) = e"
    using e by (simp add: nat_mod_distrib)
  ultimately show ?thesis
    using d e by (simp add: fixed2_def)
qed

end
