(* ===== verification/JS_Date.thy ===== *)
theory JS_Date
  imports Prelude
begin

text \<open>
  The part of the language's \<open>Date\<close> the program uses. A \<open>Date\<close> is its time value: the number
  of milliseconds since 1970-01-01T00:00Z, here an \<open>int\<close> (the program only builds valid
  dates). The calendar is ECMAScript's proleptic Gregorian one: \<open>days_before_year\<close> is the
  specification's \<open>DayFromYear\<close>, \<open>year_of_day\<close> its \<open>YearFromTime\<close>, and \<open>date_UTC\<close> is
  \<open>Date.UTC\<close> with its carry of months into years and its reading of the years 0 to 99 as
  1900 to 1999. The lemmas show that taking a day apart and putting it together are inverse.
\<close>

type_synonym instant = int

abbreviation ms_per_day :: int where
  "ms_per_day \<equiv> 86400000"

section \<open>The calendar\<close>

definition is_leap :: "int \<Rightarrow> bool" where
  "is_leap y \<longleftrightarrow> y mod 4 = 0 \<and> (y mod 100 \<noteq> 0 \<or> y mod 400 = 0)"

definition days_before_year :: "int \<Rightarrow> int" where
  "days_before_year y =
     365 * (y - 1970) + (y - 1969) div 4 - (y - 1901) div 100 + (y - 1601) div 400"

definition year_of_day :: "int \<Rightarrow> int" where
  "year_of_day n =
     (let e = 1970 + (400 * n) div 146097 in
      if n < days_before_year e then e - 1
      else if days_before_year (e + 1) \<le> n then e + 1 else e)"

text \<open>Days of the year before month \<open>m\<close> (0 is January), from March on one more in a leap year.\<close>

definition days_before_month :: "bool \<Rightarrow> int \<Rightarrow> int" where
  "days_before_month leap m =
     (if m \<le> 0 then 0 else if m = 1 then 31
      else (if m = 2 then 59 else if m = 3 then 90 else if m = 4 then 120 else if m = 5 then 151
        else if m = 6 then 181 else if m = 7 then 212 else if m = 8 then 243 else if m = 9 then 273
        else if m = 10 then 304 else if m = 11 then 334 else 365) + (if leap then 1 else 0))"

definition month_of_yday :: "bool \<Rightarrow> int \<Rightarrow> int" where
  "month_of_yday leap d =
     (let l = (if leap then 1 else 0) in
      if d < 31 then 0 else if d < 59 + l then 1 else if d < 90 + l then 2
      else if d < 120 + l then 3 else if d < 151 + l then 4 else if d < 181 + l then 5
      else if d < 212 + l then 6 else if d < 243 + l then 7 else if d < 273 + l then 8
      else if d < 304 + l then 9 else if d < 334 + l then 10 else 11)"

definition days_in_month :: "int \<Rightarrow> int \<Rightarrow> int" where
  "days_in_month y m = days_before_month (is_leap y) (m + 1) - days_before_month (is_leap y) m"

text \<open>A civil date: year, month index (0 to 11) and day of the month.\<close>

datatype civil = Civil (c_year: int) (c_month: int) (c_day: int)

definition days_of_civil :: "civil \<Rightarrow> int" where
  "days_of_civil c =
     days_before_year (c_year c) + days_before_month (is_leap (c_year c)) (c_month c) + c_day c - 1"

definition civil_of_day :: "int \<Rightarrow> civil" where
  "civil_of_day n =
     (let y = year_of_day n; d = n - days_before_year y; m = month_of_yday (is_leap y) d in
      Civil y m (d - days_before_month (is_leap y) m + 1))"

definition valid_civil :: "civil \<Rightarrow> bool" where
  "valid_civil c \<longleftrightarrow>
     0 \<le> c_month c \<and> c_month c \<le> 11 \<and> 1 \<le> c_day c \<and> c_day c \<le> days_in_month (c_year c) (c_month c)"

section \<open>Date objects\<close>

definition day_of :: "instant \<Rightarrow> int" where
  "day_of t = t div ms_per_day"

definition getUTCFullYear :: "instant \<Rightarrow> int" where
  "getUTCFullYear t = c_year (civil_of_day (day_of t))"

definition getUTCMonth :: "instant \<Rightarrow> int" where
  "getUTCMonth t = c_month (civil_of_day (day_of t))"

definition getUTCDate :: "instant \<Rightarrow> int" where
  "getUTCDate t = c_day (civil_of_day (day_of t))"

text \<open>0 is Sunday; 1970-01-01 was a Thursday.\<close>

definition getUTCDay :: "instant \<Rightarrow> int" where
  "getUTCDay t = (day_of t + 4) mod 7"

definition date_UTC :: "int \<Rightarrow> int \<Rightarrow> int \<Rightarrow> int \<Rightarrow> instant" where
  "date_UTC year month d hours =
     (let yr = (if 0 \<le> year \<and> year \<le> 99 then 1900 + year else year);
          ym = yr + month div 12; mn = month mod 12 in
      (days_before_year ym + days_before_month (is_leap ym) mn + d - 1) * ms_per_day
        + hours * 3600000)"

section \<open>Lemmas\<close>

lemma div_step_shift:
  fixes y c k :: int
  assumes "1 < k"
  shows "(y - c * k) div k = (y - c * k - 1) div k + (if y mod k = 0 then 1 else 0)"
proof -
  have "(y - c * k) mod k = y mod k"
    by (metis diff_add_cancel mod_mult_self1)
  with div_step [OF assms, of "y - c * k"] show ?thesis by (simp only:)
qed

lemma days_before_year_Suc:
  "days_before_year (y + 1) = days_before_year y + (if is_leap y then 366 else 365)"
proof -
  have "(y - 1968) div 4 = (y - 1969) div 4 + (if y mod 4 = 0 then 1 else 0)"
    using div_step_shift [of 4 y 492] by (simp add: algebra_simps)
  moreover have "(y - 1900) div 100 = (y - 1901) div 100 + (if y mod 100 = 0 then 1 else 0)"
    using div_step_shift [of 100 y 19] by (simp add: algebra_simps)
  moreover have "(y - 1600) div 400 = (y - 1601) div 400 + (if y mod 400 = 0 then 1 else 0)"
    using div_step_shift [of 400 y 4] by (simp add: algebra_simps)
  moreover have "y mod 400 = 0 \<longrightarrow> y mod 100 = 0" "y mod 100 = 0 \<longrightarrow> y mod 4 = 0"
    using mod_mod_cancel [of 100 400 y] mod_mod_cancel [of 4 100 y] by auto
  moreover have "days_before_year (y + 1) = 365 * (y - 1970) + 365 + (y - 1968) div 4
      - (y - 1900) div 100 + (y - 1600) div 400"
    by (simp add: days_before_year_def algebra_simps)
  moreover have "days_before_year y = 365 * (y - 1970) + (y - 1969) div 4
      - (y - 1901) div 100 + (y - 1601) div 400"
    by (rule days_before_year_def)
  ultimately show ?thesis
    unfolding is_leap_def by presburger
qed

lemma year_estimate:
  fixes q n a b c :: int
  assumes "146097 * q \<le> 400 * n" "4 * a \<le> q" "q - 31 \<le> 100 * b" "400 * c \<le> q + 368"
  shows "365 * q - 365 + a - b + c \<le> n"
  using assms by linarith

lemma year_estimate':
  fixes q n a b c :: int
  assumes "400 * n < 146097 * q + 146097" "q \<le> 4 * a" "100 * b \<le> q + 71" "q - 28 \<le> 400 * c"
  shows "n < 365 * q + 730 + a - b + c"
  using assms by linarith

lemma year_of_day_bounds:
  "days_before_year (year_of_day n) \<le> n \<and> n < days_before_year (year_of_day n + 1)"
proof -
  define q where "q = (400 * n) div 146097"
  have q: "146097 * q \<le> 400 * n" "400 * n < 146097 * q + 146097"
    unfolding q_def using div_bounds [of 146097 "400 * n"] by auto
  have "365 * q - 365 + q div 4 - (q + 68) div 100 + (q + 368) div 400 \<le> n"
  proof (rule year_estimate [OF q(1)])
    show "4 * (q div 4) \<le> q" using div_bounds [of 4 q] by simp
    show "q - 31 \<le> 100 * ((q + 68) div 100)" using div_bounds [of 100 "q + 68"] by simp
    show "400 * ((q + 368) div 400) \<le> q + 368" using div_bounds [of 400 "q + 368"] by simp
  qed
  then have lo: "days_before_year (1970 + q - 1) \<le> n"
    by (simp add: days_before_year_def algebra_simps)
  have "n < 365 * q + 730 + (q + 3) div 4 - (q + 71) div 100 + (q + 371) div 400"
  proof (rule year_estimate' [OF q(2)])
    show "q \<le> 4 * ((q + 3) div 4)" using div_bounds [of 4 "q + 3"] by simp
    show "100 * ((q + 71) div 100) \<le> q + 71" using div_bounds [of 100 "q + 71"] by simp
    show "q - 28 \<le> 400 * ((q + 371) div 400)" using div_bounds [of 400 "q + 371"] by simp
  qed
  then have "n < days_before_year (1970 + q + 1 + 1)"
    by (simp add: days_before_year_def algebra_simps)
  with lo show ?thesis
    unfolding year_of_day_def Let_def q_def [symmetric] by auto
qed

lemma days_before_year_mono: "x \<le> y \<Longrightarrow> days_before_year x \<le> days_before_year y"
proof (induction y rule: int_ge_induct [where k = x])
  case (step i)
  then show ?case by (simp add: days_before_year_Suc)
qed simp_all

lemma year_of_day_unique:
  assumes "days_before_year y \<le> n" "n < days_before_year (y + 1)"
  shows "year_of_day n = y"
proof -
  let ?z = "year_of_day n"
  have z: "days_before_year ?z \<le> n" "n < days_before_year (?z + 1)"
    using year_of_day_bounds by auto
  have "\<not> ?z + 1 \<le> y" using days_before_year_mono [of "?z + 1" y] assms z by linarith
  moreover have "\<not> y + 1 \<le> ?z" using days_before_year_mono [of "y + 1" ?z] assms z by linarith
  ultimately show ?thesis by linarith
qed

lemma month_cases:
  assumes "0 \<le> (m::int)" "m \<le> 11"
  obtains "m = 0" | "m = 1" | "m = 2" | "m = 3" | "m = 4" | "m = 5" | "m = 6" | "m = 7"
    | "m = 8" | "m = 9" | "m = 10" | "m = 11"
proof -
  have "m = 0 \<or> m = 1 \<or> m = 2 \<or> m = 3 \<or> m = 4 \<or> m = 5 \<or> m = 6 \<or> m = 7 \<or> m = 8 \<or> m = 9
    \<or> m = 10 \<or> m = 11"
    using assms by presburger
  then show ?thesis using that by blast
qed

lemma days_in_month_range: "0 \<le> m \<Longrightarrow> m \<le> 11 \<Longrightarrow> 28 \<le> days_in_month y m \<and> days_in_month y m \<le> 31"
  by (erule (1) month_cases) (auto simp: days_in_month_def days_before_month_def)

lemma days_before_month_range:
  "0 \<le> m \<Longrightarrow> m \<le> 11 \<Longrightarrow>
    0 \<le> days_before_month l m \<and> days_before_month l (m + 1) \<le> (if l then 366 else 365)"
  by (erule (1) month_cases) (auto simp: days_before_month_def)

lemma month_of_yday_range: "0 \<le> month_of_yday l d \<and> month_of_yday l d \<le> 11"
  by (auto simp: month_of_yday_def Let_def)

lemma month_of_yday_split:
  assumes "0 \<le> d" "d < (if l then 366 else 365)"
  shows "days_before_month l (month_of_yday l d) \<le> d"
    and "d < days_before_month l (month_of_yday l d + 1)"
proof -
  have "days_before_month l (month_of_yday l d) \<le> d \<and> d < days_before_month l (month_of_yday l d + 1)"
    unfolding month_of_yday_def Let_def using assms
    by (cases l) (simp_all add: days_before_month_def split: if_split)
  then show "days_before_month l (month_of_yday l d) \<le> d"
    and "d < days_before_month l (month_of_yday l d + 1)"
    by simp_all
qed

lemma month_of_yday_join:
  assumes "0 \<le> m" "m \<le> 11" "days_before_month l m \<le> d" "d < days_before_month l (m + 1)"
  shows "month_of_yday l d = m"
proof (cases rule: month_cases [OF assms(1,2)])
qed (insert assms(3,4), auto simp: month_of_yday_def days_before_month_def Let_def split: if_splits)

lemma valid_civil_of_day: "valid_civil (civil_of_day n)"
proof -
  let ?y = "year_of_day n"
  let ?d = "n - days_before_year ?y"
  have "0 \<le> ?d" "?d < (if is_leap ?y then 366 else 365)"
    using year_of_day_bounds [of n] days_before_year_Suc [of ?y] by auto
  from month_of_yday_split [OF this] month_of_yday_range [of "is_leap ?y" ?d] show ?thesis
    by (auto simp: valid_civil_def civil_of_day_def Let_def days_in_month_def)
qed

lemma days_of_civil_of_day [simp]: "days_of_civil (civil_of_day n) = n"
  by (simp add: days_of_civil_def civil_of_day_def Let_def)

lemma civil_of_days_of_civil:
  assumes "valid_civil c"
  shows "civil_of_day (days_of_civil c) = c"
proof -
  let ?y = "c_year c" and ?l = "is_leap (c_year c)" and ?m = "c_month c"
  define d where "d = days_before_month ?l ?m + c_day c - 1"
  have c: "0 \<le> ?m" "?m \<le> 11" "1 \<le> c_day c"
    "c_day c \<le> days_before_month ?l (?m + 1) - days_before_month ?l ?m"
    using assms by (auto simp: valid_civil_def days_in_month_def)
  have n: "days_of_civil c = days_before_year ?y + d"
    by (simp add: days_of_civil_def d_def)
  have d: "days_before_month ?l ?m \<le> d" "d < days_before_month ?l (?m + 1)"
    using c by (auto simp: d_def)
  with days_before_month_range [OF c(1,2), of ?l] have "0 \<le> d" "d < (if ?l then 366 else 365)"
    by auto
  then have "year_of_day (days_before_year ?y + d) = ?y"
    by (intro year_of_day_unique) (auto simp: days_before_year_Suc)
  with month_of_yday_join [OF c(1,2) d] have "civil_of_day (days_of_civil c)
      = Civil ?y ?m (d - days_before_month ?l ?m + 1)"
    by (simp add: civil_of_day_def n Let_def)
  then show ?thesis
    by (simp add: d_def)
qed

section \<open>The order of civil dates\<close>

instantiation civil :: linorder
begin

definition less_eq_civil :: "civil \<Rightarrow> civil \<Rightarrow> bool" where
  "c \<le> d \<longleftrightarrow> c_year c < c_year d \<or> c_year c = c_year d \<and>
     (c_month c < c_month d \<or> c_month c = c_month d \<and> c_day c \<le> c_day d)"

definition less_civil :: "civil \<Rightarrow> civil \<Rightarrow> bool" where
  "c < d \<longleftrightarrow> c_year c < c_year d \<or> c_year c = c_year d \<and>
     (c_month c < c_month d \<or> c_month c = c_month d \<and> c_day c < c_day d)"

instance
  by standard (auto simp: less_eq_civil_def less_civil_def civil.expand)

end

lemma days_before_month_mono:
  assumes "0 \<le> m" "m < m'" "m' \<le> 12"
  shows "days_before_month l (m + 1) \<le> days_before_month l m'"
proof -
  have grow: "days_before_month l i \<le> days_before_month l (i + 1)" if "0 \<le> i" "i \<le> 11" for i
    using that by (rule month_cases) (auto simp: days_before_month_def)
  have "m + 1 \<le> m'" using assms by simp
  then show ?thesis using assms(3)
  proof (induction m' rule: int_ge_induct)
    case (step i)
    then show ?case using assms(1) grow [of i] by simp
  qed simp
qed

lemma days_of_civil_year:
  assumes "valid_civil c"
  shows "days_before_year (c_year c) \<le> days_of_civil c"
    and "days_of_civil c < days_before_year (c_year c + 1)"
proof -
  have "days_before_month (is_leap (c_year c)) (c_month c + 1) \<le> (if is_leap (c_year c) then 366 else 365)"
    "0 \<le> days_before_month (is_leap (c_year c)) (c_month c)"
    using assms days_before_month_range by (auto simp: valid_civil_def)
  with assms show "days_before_year (c_year c) \<le> days_of_civil c"
    and "days_of_civil c < days_before_year (c_year c + 1)"
    by (auto simp: valid_civil_def days_of_civil_def days_in_month_def days_before_year_Suc)
qed

lemma days_of_civil_strict_mono:
  assumes "valid_civil c" "valid_civil d" "c < d"
  shows "days_of_civil c < days_of_civil d"
proof -
  consider (year) "c_year c + 1 \<le> c_year d"
    | (month) "c_year c = c_year d" "c_month c < c_month d"
    | (day) "c_year c = c_year d" "c_month c = c_month d" "c_day c < c_day d"
    using assms(3) by (auto simp: less_civil_def)
  then show ?thesis
  proof cases
    case year
    with days_before_year_mono [OF year] days_of_civil_year assms(1,2) show ?thesis
      by fastforce
  next
    case month
    with assms(1,2) have "days_before_month (is_leap (c_year c)) (c_month c + 1)
        \<le> days_before_month (is_leap (c_year c)) (c_month d)"
      by (intro days_before_month_mono) (auto simp: valid_civil_def)
    with month assms(1,2) show ?thesis
      by (auto simp: valid_civil_def days_of_civil_def days_in_month_def)
  next
    case day
    then show ?thesis by (simp add: days_of_civil_def)
  qed
qed

lemma civil_of_day_less: "civil_of_day a < civil_of_day b \<longleftrightarrow> a < b"
proof -
  have "civil_of_day x < civil_of_day y \<Longrightarrow> x < y" for x y
    using days_of_civil_strict_mono [OF valid_civil_of_day [of x] valid_civil_of_day [of y]] by simp
  from this [of a b] this [of b a] show ?thesis
    by (metis days_of_civil_of_day less_asym not_less_iff_gr_or_eq)
qed

lemma civil_of_day_inject: "civil_of_day a = civil_of_day b \<longleftrightarrow> a = b"
  by (metis days_of_civil_of_day)

end
