(* ===== verification/Civil_Date.thy ===== *)
theory Civil_Date
  imports JS_Date
begin

text \<open>
  \<open>backend/src/lib/civil-date.ts\<close>: day keys (\<open>YYYY-MM-DD\<close> strings), the two storage
  conventions of date-only values and the arithmetic on them. The functions compute on strings
  exactly as the source does (string comparison, slicing, a strict parser); the lemmas show
  that on the days \<open>1000-01-01\<close> to \<open>9999-12-31\<close> (\<open>ok_day\<close>) a key is a civil day number:
  printing is strictly monotone, the parser inverts it, and every operation is integer
  arithmetic on the number. All later theories reason with these facts (\<open>key_simps\<close>).

  The time zone database is not part of the repository: \<open>sp t\<close> is the UTC offset of
  America/Sao_Paulo at the instant \<open>t\<close>, in milliseconds, a parameter of every function that
  reads a local day. What the code relies on (local days and UTC days agree at noon UTC) is
  the locale \<open>sao_paulo_offset\<close>.
\<close>

type_synonym day_key = string
type_synonym tz_offset = "instant \<Rightarrow> int"

datatype date_convention = Noon | Midnight

section \<open>Definitions\<close>

definition pad :: "int \<Rightarrow> nat \<Rightarrow> string" where
  "pad value width = pad_start width (CHR ''0'') (int_to_string value)"

definition formatDayKey :: "int \<Rightarrow> int \<Rightarrow> int \<Rightarrow> day_key" where
  "formatDayKey year monthIndex day =
     pad year 4 @ ''-'' @ pad (monthIndex + 1) 2 @ ''-'' @ pad day 2"

definition lastDayOfMonth :: "int \<Rightarrow> int \<Rightarrow> int" where
  "lastDayOfMonth year monthIndex = getUTCDate (date_UTC year (monthIndex + 1) 0 0)"

definition clampDayToMonth :: "int \<Rightarrow> int \<Rightarrow> int \<Rightarrow> int" where
  "clampDayToMonth year monthIndex day = min (max day 1) (lastDayOfMonth year monthIndex)"

text \<open>\<open>/^(\d{4})-(\d{2})-(\d{2})$/\<close>, with its three groups.\<close>

definition match_day_key :: "string \<Rightarrow> (string \<times> string \<times> string) option" where
  "match_day_key s =
     (if length s = 10 \<and> list_all is_digit (take 4 s) \<and> s ! 4 = CHR ''-''
         \<and> list_all is_digit (take 2 (drop 5 s)) \<and> s ! 7 = CHR ''-'' \<and> list_all is_digit (drop 8 s)
      then Some (take 4 s, take 2 (drop 5 s), drop 8 s) else None)"

definition parseDayKey :: "string \<Rightarrow> civil option" where
  "parseDayKey value =
     (case match_day_key value of
        None \<Rightarrow> None
      | Some (g1, g2, g3) \<Rightarrow>
          (let year = digits_val g1; monthIndex = digits_val g2 - 1; day = digits_val g3 in
           if monthIndex < 0 \<or> monthIndex > 11 \<or> day < 1 then None
           else if day > lastDayOfMonth year monthIndex then None
           else Some (Civil year monthIndex day)))"

text \<open>The same on an \<open>unknown\<close> value: only strings are parsed.\<close>

definition parseDayKey_unknown :: "js \<Rightarrow> civil option" where
  "parseDayKey_unknown value = (case value of JString s \<Rightarrow> parseDayKey s | _ \<Rightarrow> None)"

definition isValidDayKey :: "js \<Rightarrow> bool" where
  "isValidDayKey value \<longleftrightarrow> parseDayKey_unknown value \<noteq> None"

definition invalid_day_key :: "string \<Rightarrow> error" where
  "invalid_day_key k = RangeError (''Invalid day key: '' @ k)"

definition dayKeyToDate :: "day_key \<Rightarrow> date_convention \<Rightarrow> instant res" where
  "dayKeyToDate k convention =
     (case parseDayKey k of
        None \<Rightarrow> Inl (invalid_day_key k)
      | Some p \<Rightarrow> Inr (date_UTC (c_year p) (c_month p) (c_day p)
                        (case convention of Noon \<Rightarrow> 12 | Midnight \<Rightarrow> 0)))"

definition parseCivilDate :: "js \<Rightarrow> date_convention \<Rightarrow> instant option res" where
  "parseCivilDate value convention =
     (case value of
        JString s \<Rightarrow> (if parseDayKey s = None then Inr None
                      else res_bind (dayKeyToDate s convention) (\<lambda>d. Inr (Some d)))
      | _ \<Rightarrow> Inr None)"

definition dayKeyOfDate :: "instant \<Rightarrow> day_key" where
  "dayKeyOfDate date = formatDayKey (getUTCFullYear date) (getUTCMonth date) (getUTCDate date)"

text \<open>\<open>Intl.DateTimeFormat('en-CA')\<close> prints the year without padding.\<close>

definition dayKeyInSaoPaulo :: "tz_offset \<Rightarrow> instant \<Rightarrow> day_key" where
  "dayKeyInSaoPaulo sp t =
     (let l = t + sp t in
      int_to_string (getUTCFullYear l) @ ''-'' @ pad (getUTCMonth l + 1) 2 @ ''-''
        @ pad (getUTCDate l) 2)"

definition todayKeyInSaoPaulo :: "tz_offset \<Rightarrow> instant \<Rightarrow> day_key" where
  "todayKeyInSaoPaulo sp now = dayKeyInSaoPaulo sp now"

definition todayInSaoPaulo :: "tz_offset \<Rightarrow> instant \<Rightarrow> instant res" where
  "todayInSaoPaulo sp now = dayKeyToDate (dayKeyInSaoPaulo sp now) Noon"

definition compareDayKeys :: "day_key \<Rightarrow> day_key \<Rightarrow> int" where
  "compareDayKeys a b = (if a < b then -1 else if a > b then 1 else 0)"

definition dayNumber :: "day_key \<Rightarrow> int res" where
  "dayNumber k =
     (case parseDayKey k of
        None \<Rightarrow> Inl (invalid_day_key k)
      | Some p \<Rightarrow> Inr (round (of_int (date_UTC (c_year p) (c_month p) (c_day p) 0)
                              / (of_int ms_per_day :: rat))))"

definition dayKeyFromNumber :: "int \<Rightarrow> day_key" where
  "dayKeyFromNumber dayNum = dayKeyOfDate (dayNum * ms_per_day)"

definition addDaysToKey :: "day_key \<Rightarrow> int \<Rightarrow> day_key res" where
  "addDaysToKey k days = res_bind (dayNumber k) (\<lambda>n. Inr (dayKeyFromNumber (n + days)))"

definition diffDays :: "day_key \<Rightarrow> day_key \<Rightarrow> int res" where
  "diffDays a b = res_bind (dayNumber a) (\<lambda>x. res_bind (dayNumber b) (\<lambda>y. Inr (x - y)))"

definition addDays :: "instant \<Rightarrow> int \<Rightarrow> instant" where
  "addDays date days = date + days * ms_per_day"

definition weekdayOfKey :: "day_key \<Rightarrow> int res" where
  "weekdayOfKey k = res_bind (dayNumber k) (\<lambda>n. Inr (getUTCDay (n * ms_per_day)))"

definition monthKey :: "day_key \<Rightarrow> string" where
  "monthKey k = take 7 k"

definition monthKey_of_date :: "instant \<Rightarrow> string" where
  "monthKey_of_date date = take 7 (dayKeyOfDate date)"

record month_bounds =
  mb_startKey :: day_key
  mb_endKey :: day_key
  mb_start :: instant
  mb_end :: instant
  mb_lastDay :: int

definition monthBounds :: "int \<Rightarrow> int \<Rightarrow> month_bounds res" where
  "monthBounds year monthIndex =
     (let lastDay = lastDayOfMonth year monthIndex;
          startKey = formatDayKey year monthIndex 1;
          endKey = formatDayKey year monthIndex lastDay in
      res_bind (dayKeyToDate startKey Noon) (\<lambda>start.
      res_bind (dayKeyToDate endKey Noon) (\<lambda>end.
      Inr \<lparr>mb_startKey = startKey, mb_endKey = endKey, mb_start = start, mb_end = end,
           mb_lastDay = lastDay\<rparr>)))"

definition addMonthsClamped :: "day_key \<Rightarrow> int \<Rightarrow> day_key res" where
  "addMonthsClamped k months =
     (case parseDayKey k of
        None \<Rightarrow> Inl (invalid_day_key k)
      | Some p \<Rightarrow>
          (let total = c_year p * 12 + c_month p + months;
               year = total div 12;
               monthIndex = total - year * 12 in
           Inr (formatDayKey year monthIndex (clampDayToMonth year monthIndex (c_day p)))))"

section \<open>Days with a four-digit year\<close>

text \<open>The days from 1000-01-01 to 9999-12-31.\<close>

definition ok_day :: "int \<Rightarrow> bool" where
  "ok_day n \<longleftrightarrow> - 354285 \<le> n \<and> n \<le> 2932896"

definition ok_civil :: "civil \<Rightarrow> bool" where
  "ok_civil c \<longleftrightarrow> valid_civil c \<and> 1000 \<le> c_year c \<and> c_year c \<le> 9999"

abbreviation key :: "int \<Rightarrow> day_key" where
  "key n \<equiv> dayKeyFromNumber n"

abbreviation noon :: "int \<Rightarrow> instant" where
  "noon n \<equiv> n * ms_per_day + 43200000"

lemma days_before_year_1000 [simp]: "days_before_year 1000 = - 354285"
  by (simp add: days_before_year_def)

lemma days_before_year_10000 [simp]: "days_before_year 10000 = 2932897"
  by (simp add: days_before_year_def)

lemma ok_day_iff_year: "ok_day n \<longleftrightarrow> 1000 \<le> c_year (civil_of_day n) \<and> c_year (civil_of_day n) \<le> 9999"
proof -
  let ?y = "c_year (civil_of_day n)"
  have y: "days_before_year ?y \<le> n" "n < days_before_year (?y + 1)"
    using year_of_day_bounds by (auto simp: civil_of_day_def Let_def)
  have "?y + 1 \<le> 1000 \<Longrightarrow> n < - 354285"
    using days_before_year_mono [of "?y + 1" 1000] y by simp
  moreover have "1000 \<le> ?y \<Longrightarrow> - 354285 \<le> n"
    using days_before_year_mono [of 1000 ?y] y by simp
  moreover have "10000 \<le> ?y \<Longrightarrow> 2932897 \<le> n"
    using days_before_year_mono [of 10000 ?y] y by simp
  moreover have "?y + 1 \<le> 10000 \<Longrightarrow> n < 2932897"
    using days_before_year_mono [of "?y + 1" 10000] y by simp
  ultimately show ?thesis unfolding ok_day_def by linarith
qed

lemma ok_civil_of_day: "ok_day n \<Longrightarrow> ok_civil (civil_of_day n)"
  using ok_day_iff_year valid_civil_of_day by (simp add: ok_civil_def)

lemma ok_day_of_civil: "ok_civil c \<Longrightarrow> ok_day (days_of_civil c)"
  by (simp add: ok_civil_def ok_day_iff_year civil_of_days_of_civil)

lemma day_of_add [simp]: "0 \<le> h \<Longrightarrow> h < ms_per_day \<Longrightarrow> day_of (n * ms_per_day + h) = n"
  unfolding day_of_def by (intro int_div_pos_eq [of _ _ n h]) (auto simp: mult.commute)

lemma day_of_start [simp]: "day_of (n * ms_per_day) = n"
  using day_of_add [of 0 n] by simp

lemma valid_civil_bounds:
  assumes "valid_civil c"
  shows "0 \<le> c_month c" "c_month c \<le> 11" "1 \<le> c_day c" "c_day c \<le> 31"
  using assms days_in_month_range [of "c_month c" "c_year c"] by (auto simp: valid_civil_def)

lemma formatDayKey_fixed:
  assumes "ok_civil c"
  shows "formatDayKey (c_year c) (c_month c) (c_day c)
    = fixed4 (c_year c) @ ''-'' @ fixed2 (c_month c + 1) @ ''-'' @ fixed2 (c_day c)"
proof -
  have "valid_civil c" "1000 \<le> c_year c" "c_year c < 10000" using assms by (auto simp: ok_civil_def)
  with valid_civil_bounds [of c] show ?thesis
    by (simp add: formatDayKey_def pad_def pad_fixed2 pad_fixed4)
qed

lemma key_civil: "key n = formatDayKey (c_year (civil_of_day n)) (c_month (civil_of_day n)) (c_day (civil_of_day n))"
  by (simp add: dayKeyFromNumber_def dayKeyOfDate_def getUTCFullYear_def getUTCMonth_def getUTCDate_def)

lemma formatDayKey_key [key_simps]:
  assumes "ok_civil (Civil y m d)"
  shows "formatDayKey y m d = key (days_of_civil (Civil y m d))"
  using assms by (simp add: key_civil civil_of_days_of_civil ok_civil_def)

lemma formatDayKey_less:
  assumes "ok_civil c" "ok_civil d"
  shows "formatDayKey (c_year c) (c_month c) (c_day c) < formatDayKey (c_year d) (c_month d) (c_day d)
    \<longleftrightarrow> c < d"
proof -
  have c: "0 \<le> c_year c" "c_year c < 10000" "0 \<le> c_month c + 1" "c_month c + 1 < 100"
      "0 \<le> c_day c" "c_day c < 100"
    using assms(1) valid_civil_bounds [of c] by (auto simp: ok_civil_def)
  have d: "0 \<le> c_year d" "c_year d < 10000" "0 \<le> c_month d + 1" "c_month d + 1 < 100"
      "0 \<le> c_day d" "c_day d < 100"
    using assms(2) valid_civil_bounds [of d] by (auto simp: ok_civil_def)
  have "fixed2 (c_day c) < fixed2 (c_day d) \<longleftrightarrow> c_day c < c_day d"
    using fixed2_less [OF c(5,6) d(5,6), of "[]" "[]"] by simp
  then show ?thesis
    by (simp add: formatDayKey_fixed assms fixed4_less [OF c(1,2) d(1,2)] fixed2_less [OF c(3,4) d(3,4)]
        less_civil_def) auto
qed

text \<open>The order of keys (as strings) is the order of the days.\<close>

lemma key_less [key_simps]: "ok_day a \<Longrightarrow> ok_day b \<Longrightarrow> key a < key b \<longleftrightarrow> a < b"
  by (simp add: key_civil formatDayKey_less ok_civil_of_day civil_of_day_less)

lemma key_le [key_simps]: "ok_day a \<Longrightarrow> ok_day b \<Longrightarrow> key a \<le> key b \<longleftrightarrow> a \<le> b"
  by (simp add: key_less linorder_not_less [symmetric])

lemma key_eq [key_simps]: "ok_day a \<Longrightarrow> ok_day b \<Longrightarrow> key a = key b \<longleftrightarrow> a = b"
  by (metis key_less less_irrefl linorder_neqE)

lemma compareDayKeys_key [key_simps]:
  "ok_day a \<Longrightarrow> ok_day b \<Longrightarrow> compareDayKeys (key a) (key b) = (if a < b then -1 else if a > b then 1 else 0)"
  by (simp add: compareDayKeys_def key_less)

lemma compareDayKeys_signs [key_simps]:
  assumes "ok_day a" "ok_day b"
  shows "compareDayKeys (key a) (key b) > 0 \<longleftrightarrow> b < a" "compareDayKeys (key a) (key b) \<ge> 0 \<longleftrightarrow> b \<le> a"
    "compareDayKeys (key a) (key b) < 0 \<longleftrightarrow> a < b" "compareDayKeys (key a) (key b) \<le> 0 \<longleftrightarrow> a \<le> b"
  using assms by (auto simp: compareDayKeys_key)

section \<open>Date.UTC and the length of a month\<close>

lemma date_UTC_civil:
  assumes "valid_civil (Civil y m d)" "100 \<le> y"
  shows "date_UTC y m d h = days_of_civil (Civil y m d) * ms_per_day + h * 3600000"
proof -
  have "m div 12 = 0" "m mod 12 = m"
    using valid_civil_bounds [OF assms(1)] by (auto simp: zdiv_eq_0_iff)
  with assms(2) show ?thesis by (simp add: date_UTC_def days_of_civil_def Let_def)
qed

lemma last_day_UTC:
  assumes "100 \<le> y" "0 \<le> m" "m \<le> 11"
  shows "date_UTC y (m + 1) 0 h = days_of_civil (Civil y m (days_in_month y m)) * ms_per_day + h * 3600000"
proof (cases "m = 11")
  case True
  have "days_before_month (is_leap y) 11 + days_in_month y 11 = (if is_leap y then 366 else 365)"
    by (simp add: days_in_month_def days_before_month_def)
  with True assms show ?thesis
    by (simp add: date_UTC_def days_of_civil_def days_before_year_Suc days_before_month_def Let_def)
next
  case False
  then have "(m + 1) div 12 = 0" "(m + 1) mod 12 = m + 1"
    using assms by (auto simp: zdiv_eq_0_iff)
  with assms show ?thesis
    by (simp add: date_UTC_def days_of_civil_def days_in_month_def Let_def)
qed

lemma lastDayOfMonth_eq:
  assumes "100 \<le> y" "0 \<le> m" "m \<le> 11"
  shows "lastDayOfMonth y m = days_in_month y m"
proof -
  let ?c = "Civil y m (days_in_month y m)"
  have "valid_civil ?c"
    using assms days_in_month_range [of m y] by (simp add: valid_civil_def)
  moreover have "date_UTC y (m + 1) 0 0 = days_of_civil ?c * ms_per_day"
    using last_day_UTC [OF assms, of 0] by simp
  ultimately show ?thesis
    by (simp add: lastDayOfMonth_def getUTCDate_def civil_of_days_of_civil)
qed

lemma clampDayToMonth_valid:
  assumes "100 \<le> y" "0 \<le> m" "m \<le> 11"
  shows "valid_civil (Civil y m (clampDayToMonth y m d))"
  using assms days_in_month_range [of m y]
  by (auto simp: valid_civil_def clampDayToMonth_def lastDayOfMonth_eq)

section \<open>The parser inverts printing\<close>

lemma match_day_key_fixed:
  assumes "ok_civil c"
  shows "match_day_key (fixed4 (c_year c) @ ''-'' @ fixed2 (c_month c + 1) @ ''-'' @ fixed2 (c_day c))
    = Some (fixed4 (c_year c), fixed2 (c_month c + 1), fixed2 (c_day c))"
proof -
  have dig: "list_all is_digit (fixed2 v)" if "0 \<le> v" "v < 100" for v
  proof -
    have "nat (v div 10) < 10" "nat (v mod 10) < 10" using that by auto
    then show ?thesis by (auto simp: fixed2_def is_digit_iff)
  qed
  have "list_all is_digit (fixed4 (c_year c))" "list_all is_digit (fixed2 (c_month c + 1))"
    "list_all is_digit (fixed2 (c_day c))"
    using assms valid_civil_bounds [of c] by (auto simp: ok_civil_def fixed4_def intro!: dig)
  then show ?thesis
    by (simp add: match_day_key_def nth_append)
qed

lemma parse_formatDayKey:
  assumes "ok_civil c"
  shows "parseDayKey (formatDayKey (c_year c) (c_month c) (c_day c)) = Some c"
proof -
  have c: "valid_civil c" "1000 \<le> c_year c" "c_year c < 10000" using assms by (auto simp: ok_civil_def)
  note b = valid_civil_bounds [OF c(1)]
  have "digits_val (fixed4 (c_year c)) = c_year c" "digits_val (fixed2 (c_month c + 1)) = c_month c + 1"
    "digits_val (fixed2 (c_day c)) = c_day c"
    using b c by (auto intro!: digits_val_fixed2 digits_val_fixed4)
  moreover have "lastDayOfMonth (c_year c) (c_month c) = days_in_month (c_year c) (c_month c)"
    using b c by (intro lastDayOfMonth_eq) auto
  ultimately show ?thesis
    unfolding parseDayKey_def formatDayKey_fixed [OF assms] match_day_key_fixed [OF assms]
    using b c(1) by (simp add: Let_def valid_civil_def)
qed

lemma parseDayKey_key [key_simps]: "ok_day n \<Longrightarrow> parseDayKey (key n) = Some (civil_of_day n)"
  by (simp add: key_civil parse_formatDayKey ok_civil_of_day)

lemma dayNumber_key [key_simps]: "ok_day n \<Longrightarrow> dayNumber (key n) = Inr n"
proof -
  assume n: "ok_day n"
  let ?c = "civil_of_day n"
  have "date_UTC (c_year ?c) (c_month ?c) (c_day ?c) 0 = n * ms_per_day"
    using ok_civil_of_day [OF n] date_UTC_civil [of "c_year ?c" "c_month ?c" "c_day ?c" 0]
    by (simp add: ok_civil_def)
  then show ?thesis
    using n by (simp add: dayNumber_def parseDayKey_key)
qed

lemma dayKeyToDate_noon [key_simps]: "ok_day n \<Longrightarrow> dayKeyToDate (key n) Noon = Inr (noon n)"
  using ok_civil_of_day [of n] date_UTC_civil [of "c_year (civil_of_day n)" "c_month (civil_of_day n)" "c_day (civil_of_day n)" 12]
  by (simp add: dayKeyToDate_def parseDayKey_key ok_civil_def)

lemma dayKeyToDate_midnight [key_simps]: "ok_day n \<Longrightarrow> dayKeyToDate (key n) Midnight = Inr (n * ms_per_day)"
  using ok_civil_of_day [of n] date_UTC_civil [of "c_year (civil_of_day n)" "c_month (civil_of_day n)" "c_day (civil_of_day n)" 0]
  by (simp add: dayKeyToDate_def parseDayKey_key ok_civil_def)

lemma dayKeyOfDate_day [key_simps]: "dayKeyOfDate t = key (day_of t)"
  by (simp add: key_civil dayKeyOfDate_def getUTCFullYear_def getUTCMonth_def getUTCDate_def)

lemma addDaysToKey_key [key_simps]: "ok_day n \<Longrightarrow> addDaysToKey (key n) d = Inr (key (n + d))"
  by (simp add: addDaysToKey_def dayNumber_key)

lemma diffDays_key [key_simps]: "ok_day a \<Longrightarrow> ok_day b \<Longrightarrow> diffDays (key a) (key b) = Inr (a - b)"
  by (simp add: diffDays_def dayNumber_key)

lemma weekdayOfKey_key [key_simps]: "ok_day n \<Longrightarrow> weekdayOfKey (key n) = Inr ((n + 4) mod 7)"
  by (simp add: weekdayOfKey_def dayNumber_key getUTCDay_def)

lemma dayKeyInSaoPaulo_key:
  assumes "ok_day (day_of (t + sp t))"
  shows "dayKeyInSaoPaulo sp t = key (day_of (t + sp t))"
proof -
  let ?c = "civil_of_day (day_of (t + sp t))"
  have "1000 \<le> c_year ?c" "c_year ?c < 10000"
    using assms by (auto simp: ok_day_iff_year)
  then show ?thesis
    by (simp add: dayKeyInSaoPaulo_def key_civil formatDayKey_def getUTCFullYear_def getUTCMonth_def
        getUTCDate_def Let_def pad_def [of _ 4] pad_start_def int_to_string_4)
qed

section \<open>What the parser accepts\<close>

lemma list_all_digits_2:
  assumes "length s = 2" "list_all is_digit s"
  shows "fixed2 (digits_val s) = s" "0 \<le> digits_val s" "digits_val s < 100"
proof -
  obtain a b where s: "s = [a, b]"
    using assms(1) by (metis (no_types, lifting) One_nat_def Suc_1 length_0_conv length_Suc_conv)
  with assms(2) have ab: "is_digit a" "is_digit b" by auto
  then show "fixed2 (digits_val s) = s" by (simp add: s fixed2_of_digits)
  from ab obtain d e where "d < 10" "a = digit_char d" "e < 10" "b = digit_char e"
    by (auto simp: is_digit_iff)
  then show "0 \<le> digits_val s" "digits_val s < 100"
    by (simp_all add: s digits_val_def)
qed

lemma list_all_digits_4:
  assumes "length s = 4" "list_all is_digit s"
  shows "fixed4 (digits_val s) = s" "0 \<le> digits_val s" "digits_val s < 10000"
proof -
  have h: "length (take 2 s) = 2" "length (drop 2 s) = 2"
    "list_all is_digit (take 2 s)" "list_all is_digit (drop 2 s)"
    using assms by (auto simp: list_all_iff dest: in_set_takeD in_set_dropD)
  note lo = list_all_digits_2 [OF h(2,4)] and hi = list_all_digits_2 [OF h(1,3)]
  have v: "digits_val s = digits_val (take 2 s) * 100 + digits_val (drop 2 s)"
    using digits_val_append [of "take 2 s" "drop 2 s"] h by simp
  then have "digits_val s div 100 = digits_val (take 2 s)" "digits_val s mod 100 = digits_val (drop 2 s)"
    using lo hi by (auto simp: div_add1_eq zdiv_eq_0_iff)
  then show "fixed4 (digits_val s) = s"
    using lo hi by (simp add: fixed4_def)
  show "0 \<le> digits_val s" "digits_val s < 10000"
    using v lo hi by auto
qed

lemma match_day_key_split:
  assumes "match_day_key s = Some (g1, g2, g3)"
  shows "s = g1 @ ''-'' @ g2 @ ''-'' @ g3"
    and "length g1 = 4" "list_all is_digit g1" "length g2 = 2" "list_all is_digit g2"
    and "length g3 = 2" "list_all is_digit g3"
proof -
  have m: "length s = 10" "s ! 4 = CHR ''-''" "s ! 7 = CHR ''-''"
    "g1 = take 4 s" "g2 = take 2 (drop 5 s)" "g3 = drop 8 s"
    "list_all is_digit g1" "list_all is_digit g2" "list_all is_digit g3"
    using assms by (auto simp: match_day_key_def split: if_splits)
  then show "length g1 = 4" "list_all is_digit g1" "length g2 = 2" "list_all is_digit g2"
    "length g3 = 2" "list_all is_digit g3"
    by auto
  have "s = take 4 s @ s ! 4 # drop (Suc 4) s"
    using m(1) by (intro id_take_nth_drop) simp
  moreover have "drop 5 s = take 2 (drop 5 s) @ drop 5 s ! 2 # drop (Suc 2) (drop 5 s)"
    using m(1) by (intro id_take_nth_drop) simp
  ultimately show "s = g1 @ ''-'' @ g2 @ ''-'' @ g3"
    using m by (simp add: add.commute)
qed

lemma parseDayKey_sound:
  assumes "parseDayKey s = Some c" "1000 \<le> c_year c"
  shows "ok_civil c" "s = formatDayKey (c_year c) (c_month c) (c_day c)"
proof -
  obtain g1 g2 g3 where g: "match_day_key s = Some (g1, g2, g3)"
    "c = Civil (digits_val g1) (digits_val g2 - 1) (digits_val g3)"
    "\<not> digits_val g2 - 1 < 0" "\<not> digits_val g2 - 1 > 11" "\<not> digits_val g3 < 1"
    "\<not> digits_val g3 > lastDayOfMonth (digits_val g1) (digits_val g2 - 1)"
    using assms(1) by (auto simp: parseDayKey_def Let_def split: option.splits if_splits)
  note s = match_day_key_split [OF g(1)]
  note v1 = list_all_digits_4 [OF s(2,3)] and v2 = list_all_digits_2 [OF s(4,5)]
    and v3 = list_all_digits_2 [OF s(6,7)]
  have "lastDayOfMonth (digits_val g1) (digits_val g2 - 1)
      = days_in_month (digits_val g1) (digits_val g2 - 1)"
    using assms(2) g(2-4) by (intro lastDayOfMonth_eq) auto
  with g v1 assms(2) show ok: "ok_civil c"
    by (auto simp: ok_civil_def valid_civil_def)
  from formatDayKey_fixed [OF ok] show "s = formatDayKey (c_year c) (c_month c) (c_day c)"
    using s(1) v1 v2 v3 g(2) by simp
qed

lemma parseDayKey_key_of:
  assumes "parseDayKey s = Some c" "1000 \<le> c_year c"
  obtains n where "ok_day n" "s = key n" "c = civil_of_day n"
proof -
  have c: "ok_civil c" "s = formatDayKey (c_year c) (c_month c) (c_day c)"
    using parseDayKey_sound [OF assms] by auto
  then have "s = key (days_of_civil c)" "civil_of_day (days_of_civil c) = c"
    by (auto simp: key_civil ok_civil_def civil_of_days_of_civil)
  with c(1) show thesis
    by (intro that [of "days_of_civil c"]) (auto simp: ok_day_of_civil)
qed

section \<open>Local days\<close>

text \<open>
  What the code relies on of the time zone: its offset is less than twelve hours, so the local
  day at noon UTC is the UTC day.
\<close>

locale sao_paulo_offset =
  fixes sp :: tz_offset
  assumes offset_range: "- 43200000 \<le> sp t \<and> sp t < 43200000"
begin

lemma day_of_noon: "day_of (noon n + sp (noon n)) = n"
proof -
  have "0 \<le> 43200000 + sp (noon n)" "43200000 + sp (noon n) < ms_per_day"
    using offset_range [of "noon n"] by auto
  from day_of_add [OF this, of n] show ?thesis by (simp add: add.assoc)
qed

lemma local_noon: "ok_day n \<Longrightarrow> dayKeyInSaoPaulo sp (noon n) = key n"
  using day_of_noon [of n] dayKeyInSaoPaulo_key [of "noon n" sp] by simp

lemma local_day_near: "day_of (t + sp t) \<in> {day_of t - 1 .. day_of t + 1}"
proof -
  have t: "ms_per_day * day_of t \<le> t" "t < ms_per_day * day_of t + ms_per_day"
    using div_bounds [of ms_per_day t] by (auto simp: day_of_def)
  have l: "ms_per_day * day_of (t + sp t) \<le> t + sp t"
      "t + sp t < ms_per_day * day_of (t + sp t) + ms_per_day"
    using div_bounds [of ms_per_day "t + sp t"] by (auto simp: day_of_def)
  from t l offset_range [of t] have "ms_per_day * day_of (t + sp t) < ms_per_day * (day_of t + 2)"
    "ms_per_day * (day_of t - 2) < ms_per_day * day_of (t + sp t)"
    by (simp_all add: algebra_simps)
  then have "day_of (t + sp t) < day_of t + 2" "day_of t - 2 < day_of (t + sp t)"
    by (simp_all only: mult_less_cancel_left_pos zero_less_numeral)
  then show ?thesis by simp
qed

end

text \<open>Brazil's legal time since 2019: three hours behind UTC, no daylight saving.\<close>

definition sao_paulo_standard :: tz_offset where
  "sao_paulo_standard t = - 10800000"

interpretation standard: sao_paulo_offset sao_paulo_standard
  by unfold_locales (simp add: sao_paulo_standard_def)

section \<open>Properties\<close>

text \<open>C35. The strict parser and the printer are inverse: a string parses to a civil date with a
  four-digit year exactly when the date exists in the calendar and the string is its key, so
  2026-02-30 and every other spelling are rejected.\<close>

theorem parse_exactly_printed_dates:
  "(parseDayKey s = Some c \<and> 1000 \<le> c_year c) \<longleftrightarrow>
   (valid_civil c \<and> 1000 \<le> c_year c \<and> c_year c \<le> 9999 \<and>
    s = formatDayKey (c_year c) (c_month c) (c_day c))"
  using parseDayKey_sound [of s c] parse_formatDayKey [of c] by (auto simp: ok_civil_def)

text \<open>Comparing two day keys as strings compares the civil dates they name.\<close>

theorem compare_keys_is_calendar_order:
  assumes "parseDayKey a = Some c" "1000 \<le> c_year c" "parseDayKey b = Some d" "1000 \<le> c_year d"
  shows "compareDayKeys a b = (if c < d then -1 else if d < c then 1 else 0)"
  using parseDayKey_sound [OF assms(1,2)] parseDayKey_sound [OF assms(3,4)]
  by (simp add: compareDayKeys_def formatDayKey_less)

theorem compare_keys_is_calendar_order_witness:
  "compareDayKeys ''2026-09-30'' ''2026-10-01'' = -1"
proof -
  have "parseDayKey ''2026-09-30'' = Some (Civil 2026 8 30)"
    "parseDayKey ''2026-10-01'' = Some (Civil 2026 9 1)"
    by code_simp+
  from compare_keys_is_calendar_order [OF this(1) _ this(2)] show ?thesis
    by (simp add: less_civil_def)
qed

text \<open>A date-only value stored at noon UTC reads back as the same day in UTC and in
  Sao Paulo, whatever the offset below twelve hours.\<close>

theorem noon_dates_keep_their_day:
  assumes "sao_paulo_offset sp" "parseDayKey s = Some c" "1000 \<le> c_year c"
  shows "\<exists>t. dayKeyToDate s Noon = Inr t \<and> dayKeyOfDate t = s \<and> dayKeyInSaoPaulo sp t = s"
proof -
  obtain n where "ok_day n" "s = key n"
    using parseDayKey_key_of [OF assms(2,3)] by blast
  with sao_paulo_offset.local_noon [OF assms(1)] show ?thesis
    by (simp add: key_simps)
qed

theorem noon_dates_keep_their_day_witness:
  "\<exists>t. dayKeyToDate ''2024-02-29'' Noon = Inr t \<and> dayKeyOfDate t = ''2024-02-29'' \<and>
    dayKeyInSaoPaulo sao_paulo_standard t = ''2024-02-29''"
proof -
  have "parseDayKey ''2024-02-29'' = Some (Civil 2024 1 29)"
    by code_simp
  from noon_dates_keep_their_day [OF standard.sao_paulo_offset_axioms this] show ?thesis
    by simp
qed

text \<open>Adding days to a key and taking the difference of the keys are inverse, and the result
  is a key the parser accepts, as long as the year keeps four digits.\<close>

theorem add_days_then_diff:
  assumes "parseDayKey s = Some c" "1000 \<le> c_year c" "ok_day (days_of_civil c + d)"
  shows "\<exists>s'. addDaysToKey s d = Inr s' \<and> diffDays s' s = Inr d \<and>
    parseDayKey s' = Some (civil_of_day (days_of_civil c + d))"
proof -
  obtain n where "ok_day n" "s = key n" "c = civil_of_day n"
    using parseDayKey_key_of [OF assms(1,2)] by blast
  with assms(3) show ?thesis by (simp add: key_simps)
qed

theorem add_days_then_diff_witness:
  "\<exists>s'. addDaysToKey ''2025-12-31'' 60 = Inr s' \<and> diffDays s' ''2025-12-31'' = Inr 60"
proof -
  have "parseDayKey ''2025-12-31'' = Some (Civil 2025 11 31)"
    "ok_day (days_of_civil (Civil 2025 11 31) + 60)"
    by code_simp+
  from add_days_then_diff [OF this(1) _ this(2)] show ?thesis by auto
qed

text \<open>Adding months keeps the day of the month, clamped to the length of the target month
  (31 January plus one month is 28 or 29 February), and lands exactly that many months later.\<close>

theorem add_months_clamps:
  assumes "parseDayKey s = Some c" "1000 \<le> c_year c"
    and y: "y = (c_year c * 12 + c_month c + months) div 12"
    and m: "m = (c_year c * 12 + c_month c + months) mod 12"
    and "1000 \<le> y" "y \<le> 9999"
  shows "\<exists>s'. addMonthsClamped s months = Inr s' \<and>
    parseDayKey s' = Some (Civil y m (min (c_day c) (days_in_month y m)))"
proof -
  have c: "valid_civil c" using parseDayKey_sound [OF assms(1,2)] by (simp add: ok_civil_def)
  have mr: "0 \<le> m" "m \<le> 11" using m pos_mod_bound [of 12] by auto
  have day: "clampDayToMonth y m (c_day c) = min (c_day c) (days_in_month y m)"
    using valid_civil_bounds [OF c] mr assms(5) by (simp add: clampDayToMonth_def lastDayOfMonth_eq)
  have "c_year c * 12 + c_month c + months - y * 12 = m"
    using y m by (simp add: minus_div_mult_eq_mod)
  then have "addMonthsClamped s months = Inr (formatDayKey y m (min (c_day c) (days_in_month y m)))"
    by (simp add: addMonthsClamped_def assms(1) y [symmetric] day Let_def)
  moreover have "ok_civil (Civil y m (min (c_day c) (days_in_month y m)))"
    using clampDayToMonth_valid [of y m "c_day c"] mr assms(5,6) by (simp add: ok_civil_def day)
  ultimately show ?thesis
    using parse_formatDayKey [of "Civil y m (min (c_day c) (days_in_month y m))"] by simp
qed

theorem add_months_clamps_witness:
  "\<exists>s'. addMonthsClamped ''2024-01-31'' 1 = Inr s' \<and> parseDayKey s' = Some (Civil 2024 1 29)"
proof -
  have "parseDayKey ''2024-01-31'' = Some (Civil 2024 0 31)" "days_in_month 2024 1 = 29"
    by code_simp+
  from add_months_clamps [OF this(1), of 2024 1 1] this(2) show ?thesis by simp
qed

text \<open>The parser accepts years below 100, but \<open>Date.UTC\<close> reads them as 1900 to 1999: such a
  key does not survive the round trip through a date.\<close>

theorem two_digit_years_are_misread:
  "parseDayKey ''0050-02-01'' = Some (Civil 50 1 1) \<and>
   (\<exists>t. dayKeyToDate ''0050-02-01'' Noon = Inr t \<and> dayKeyOfDate t = ''1950-02-01'')"
proof
  show "parseDayKey ''0050-02-01'' = Some (Civil 50 1 1)" by code_simp
  have "dayKeyToDate ''0050-02-01'' Noon = Inr (noon (-7274))" by code_simp
  moreover have "dayKeyOfDate (noon (-7274)) = ''1950-02-01''" by code_simp
  ultimately show "\<exists>t. dayKeyToDate ''0050-02-01'' Noon = Inr t \<and> dayKeyOfDate t = ''1950-02-01''"
    by blast
qed

end
