(* ===== verification/Months.thy ===== *)
theory Months
  imports Civil_Date
begin

text \<open>
  Walking over months. Several loops of the program step a pair of year and month index with
  \<open>month += 1; if (month > 11) { month = 0; year += 1; }\<close> and look at one day of each
  month, clamped to its length (a closing day, a due day, a debit day). Here a month is
  numbered by \<open>12 * year + month\<close>; \<open>due_on d M\<close> is the day of month \<open>M\<close> such a loop looks at, and
  \<open>month_idx n\<close> the month of a day. The lemmas make every such loop a walk over an interval
  of integers.
\<close>

definition next_month :: "int \<times> int \<Rightarrow> int \<times> int" where
  "next_month ym = (if snd ym + 1 > 11 then (fst ym + 1, 0) else (fst ym, snd ym + 1))"

definition month_idx :: "int \<Rightarrow> int" where
  "month_idx n = 12 * c_year (civil_of_day n) + c_month (civil_of_day n)"

definition due_on :: "int \<Rightarrow> int \<Rightarrow> int" where
  "due_on d M = days_of_civil (Civil (M div 12) (M mod 12) (clampDayToMonth (M div 12) (M mod 12) d))"

text \<open>The days on which a rule for day \<open>d\<close> falls: the \<open>d\<close>-th, or the last day of a shorter month.\<close>

definition is_due_day :: "int \<Rightarrow> int \<Rightarrow> bool" where
  "is_due_day d n \<longleftrightarrow>
     c_day (civil_of_day n) = min (max d 1) (days_in_month (c_year (civil_of_day n)) (c_month (civil_of_day n)))"

text \<open>Months of the years 1000 to 9999.\<close>

definition ok_month :: "int \<Rightarrow> bool" where
  "ok_month M \<longleftrightarrow> 12000 \<le> M \<and> M < 120000"

lemma month_split:
  "0 \<le> m \<Longrightarrow> m \<le> 11 \<Longrightarrow> (12 * y + m) div 12 = y \<and> (12 * y + m) mod 12 = m" for y m :: int
  by presburger

lemma month_join: "12 * (M div 12) + M mod 12 = M" for M :: int
  by simp

lemma month_mod_range: "0 \<le> M mod 12 \<and> M mod 12 \<le> 11" for M :: int
  using pos_mod_bound [of 12 M] pos_mod_sign [of 12 M] by auto

lemma next_month_idx: "next_month (M div 12, M mod 12) = ((M + 1) div 12, (M + 1) mod 12)"
proof (cases "M mod 12 = 11")
  case True
  then have "M + 1 = 12 * (M div 12 + 1) + 0" using month_join [of M] by (simp add: distrib_left)
  from int_div_pos_eq [OF this] int_mod_pos_eq [OF this]
  have "(M + 1) div 12 = M div 12 + 1" "(M + 1) mod 12 = 0" by simp_all
  with True show ?thesis by (simp add: next_month_def)
next
  case False
  then have "M + 1 = 12 * (M div 12) + (M mod 12 + 1)" "0 \<le> M mod 12 + 1" "M mod 12 + 1 < 12"
    using month_join [of M] month_mod_range [of M] by linarith+
  from int_div_pos_eq [OF this] int_mod_pos_eq [OF this]
  have "(M + 1) div 12 = M div 12" "(M + 1) mod 12 = M mod 12 + 1" by simp_all
  with \<open>M mod 12 + 1 < 12\<close> show ?thesis by (simp add: next_month_def)
qed

lemma month_le_iff:
  assumes "0 \<le> m" "m \<le> 11" "0 \<le> m'" "m' \<le> 11"
  shows "y < y' \<or> y = y' \<and> m \<le> m' \<longleftrightarrow> 12 * y + m \<le> 12 * y' + (m' :: int)"
  using assms by linarith

lemma month_idx_split:
  "month_idx n div 12 = c_year (civil_of_day n)" "month_idx n mod 12 = c_month (civil_of_day n)"
  using month_split valid_civil_bounds [OF valid_civil_of_day [of n]] by (simp_all add: month_idx_def)

lemma month_idx_mono: "a \<le> b \<Longrightarrow> month_idx a \<le> month_idx b"
proof -
  assume "a \<le> b"
  then have "civil_of_day a \<le> civil_of_day b"
    by (metis civil_of_day_less linorder_not_less)
  then show ?thesis
    using valid_civil_bounds [OF valid_civil_of_day [of a]] valid_civil_bounds [OF valid_civil_of_day [of b]]
    by (auto simp: month_idx_def less_eq_civil_def)
qed

lemma ok_month_idx: "ok_day n \<Longrightarrow> ok_month (month_idx n)"
  using valid_civil_bounds [OF valid_civil_of_day [of n]]
  by (simp add: ok_month_def month_idx_def ok_day_iff_year)

lemma ok_monthD: "ok_month M \<Longrightarrow> 1000 \<le> M div 12 \<and> M div 12 \<le> 9999"
  by (auto simp: ok_month_def)

lemma due_on_civil:
  assumes "ok_month M"
  shows "civil_of_day (due_on d M)
      = Civil (M div 12) (M mod 12) (min (max d 1) (days_in_month (M div 12) (M mod 12)))"
    and "ok_day (due_on d M)" "month_idx (due_on d M) = M"
proof -
  let ?c = "Civil (M div 12) (M mod 12) (clampDayToMonth (M div 12) (M mod 12) d)"
  have y: "1000 \<le> M div 12" "M div 12 \<le> 9999" using ok_monthD [OF assms] by auto
  with month_mod_range [of M] have v: "valid_civil ?c"
    by (intro clampDayToMonth_valid) auto
  have clamp: "clampDayToMonth (M div 12) (M mod 12) d = min (max d 1) (days_in_month (M div 12) (M mod 12))"
    using y month_mod_range [of M] by (simp add: clampDayToMonth_def lastDayOfMonth_eq)
  show "civil_of_day (due_on d M)
      = Civil (M div 12) (M mod 12) (min (max d 1) (days_in_month (M div 12) (M mod 12)))"
    using civil_of_days_of_civil [OF v] by (simp add: due_on_def clamp)
  then show "month_idx (due_on d M) = M" by (simp add: month_idx_def)
  show "ok_day (due_on d M)"
    using v y ok_day_of_civil [of ?c] by (simp add: due_on_def ok_civil_def)
qed

lemma formatDayKey_due_on [key_simps]:
  assumes "ok_month M"
  shows "formatDayKey (M div 12) (M mod 12) (clampDayToMonth (M div 12) (M mod 12) d) = key (due_on d M)"
proof -
  have "1000 \<le> M div 12" "M div 12 \<le> 9999" using ok_monthD [OF assms] by auto
  with month_mod_range [of M] have "ok_civil (Civil (M div 12) (M mod 12) (clampDayToMonth (M div 12) (M mod 12) d))"
    by (simp add: ok_civil_def clampDayToMonth_valid)
  from formatDayKey_key [OF this] show ?thesis by (simp add: due_on_def)
qed

lemma due_on_before: "ok_month M \<Longrightarrow> M < month_idx n \<Longrightarrow> due_on d M < n"
  using month_idx_mono [of n "due_on d M"] due_on_civil(3) [of M d] by linarith

lemma due_on_after: "ok_month M \<Longrightarrow> month_idx n < M \<Longrightarrow> n < due_on d M"
  using month_idx_mono [of "due_on d M" n] due_on_civil(3) [of M d] by linarith

lemma due_on_less: "ok_month M \<Longrightarrow> ok_month M' \<Longrightarrow> M < M' \<Longrightarrow> due_on d M < due_on d M'"
  using due_on_before [of M "due_on d M'" d] due_on_civil(3) [of M' d] by simp

lemma due_on_eq: "ok_month M \<Longrightarrow> ok_month M' \<Longrightarrow> due_on d M = due_on d M' \<longleftrightarrow> M = M'"
  by (metis due_on_civil(3))

lemma is_due_day_iff:
  assumes "ok_month (month_idx n)"
  shows "is_due_day d n \<longleftrightarrow> n = due_on d (month_idx n)"
proof
  assume "is_due_day d n"
  then have "civil_of_day n = civil_of_day (due_on d (month_idx n))"
    by (simp add: due_on_civil [OF assms] is_due_day_def month_idx_split civil.expand)
  then show "n = due_on d (month_idx n)" by (simp add: civil_of_day_inject)
next
  assume n: "n = due_on d (month_idx n)"
  have "c_day (civil_of_day (due_on d (month_idx n)))
      = min (max d 1) (days_in_month (c_year (civil_of_day n)) (c_month (civil_of_day n)))"
    by (simp add: due_on_civil(1) [OF assms] month_idx_split)
  with n show "is_due_day d n" by (simp add: is_due_day_def)
qed

lemma is_due_day_due_on: "ok_month M \<Longrightarrow> is_due_day d (due_on d M)"
  by (subst is_due_day_iff) (simp_all add: due_on_civil)

text \<open>The due days of an interval are the due days of its months.\<close>

lemma due_days_as_months:
  assumes "ok_day lo" "ok_day hi" "lo \<le> hi"
  shows "{n. lo \<le> n \<and> n \<le> hi \<and> is_due_day d n}
    = due_on d ` {M \<in> {month_idx lo..month_idx hi}. lo \<le> due_on d M \<and> due_on d M \<le> hi}"
proof -
  have ok: "ok_month M" if "month_idx lo \<le> M" "M \<le> month_idx hi" for M
    using that ok_month_idx [OF assms(1)] ok_month_idx [OF assms(2)] by (simp add: ok_month_def)
  show ?thesis
  proof (intro equalityI subsetI)
    fix n assume "n \<in> {n. lo \<le> n \<and> n \<le> hi \<and> is_due_day d n}"
    then have n: "lo \<le> n" "n \<le> hi" "is_due_day d n" by auto
    then have "month_idx lo \<le> month_idx n" "month_idx n \<le> month_idx hi"
      by (auto intro: month_idx_mono)
    with n is_due_day_iff [OF ok] show "n \<in> due_on d `
        {M \<in> {month_idx lo..month_idx hi}. lo \<le> due_on d M \<and> due_on d M \<le> hi}"
      by (intro image_eqI [of _ _ "month_idx n"]) auto
  next
    fix n assume "n \<in> due_on d ` {M \<in> {month_idx lo..month_idx hi}. lo \<le> due_on d M \<and> due_on d M \<le> hi}"
    then show "n \<in> {n. lo \<le> n \<and> n \<le> hi \<and> is_due_day d n}"
      using ok is_due_day_due_on by auto
  qed
qed

lemma inj_on_due_on: "(\<And>M. M \<in> A \<Longrightarrow> ok_month M) \<Longrightarrow> inj_on (due_on d) A"
  by (auto simp: inj_on_def due_on_eq)

end
