(* ===== verification/Billing_Calendar.thy ===== *)
theory Billing_Calendar
  imports Months
begin

text \<open>
  \<open>backend/src/lib/billing/calendar.ts\<close> and \<open>cycle-window.ts\<close>: the closing days of a card and
  the billing window that is open today. The two searches are bounded by 1200 months in the
  source; the lemmas show that the bound never cuts a search short when the days involved are
  at most a hundred years apart. Both functions are stated as what they compute: the closing
  days of an interval, in order; and the first closing day not before a given day.
\<close>

section \<open>calendar.ts\<close>

definition closingDayKeyInMonth :: "int \<Rightarrow> int \<Rightarrow> int \<Rightarrow> day_key" where
  "closingDayKeyInMonth year monthIndex closingDay =
     formatDayKey year monthIndex (clampDayToMonth year monthIndex closingDay)"

fun split_on :: "char \<Rightarrow> string \<Rightarrow> string list" where
  "split_on c [] = [[]]"
| "split_on c (x # xs) =
     (if x = c then [] # split_on c xs
      else (case split_on c xs of [] \<Rightarrow> [[x]] | p # ps \<Rightarrow> (x # p) # ps))"

text \<open>A part a destructuring does not find prints as \<open>undefined\<close>.\<close>

definition part_at :: "string list \<Rightarrow> nat \<Rightarrow> string" where
  "part_at parts i = (if i < length parts then parts ! i else ''undefined'')"

definition formatPtBrDayKey :: "day_key \<Rightarrow> string" where
  "formatPtBrDayKey dayKey =
     (let parts = split_on (CHR ''-'') dayKey in
      part_at parts 2 @ ''/'' @ part_at parts 1 @ ''/'' @ part_at parts 0)"

fun list_closing_loop :: "nat \<Rightarrow> int \<times> int \<Rightarrow> int \<Rightarrow> day_key \<Rightarrow> day_key \<Rightarrow> day_key list" where
  "list_closing_loop 0 ym closingDay afterKey untilKey = []"
| "list_closing_loop (Suc i) ym closingDay afterKey untilKey =
     (let candidate = closingDayKeyInMonth (fst ym) (snd ym) closingDay in
      if compareDayKeys candidate untilKey > 0 then []
      else (if compareDayKeys candidate afterKey > 0 then [candidate] else [])
           @ list_closing_loop i (next_month ym) closingDay afterKey untilKey)"

definition listClosingDayKeys :: "int \<Rightarrow> day_key \<Rightarrow> day_key \<Rightarrow> day_key list res" where
  "listClosingDayKeys closingDay afterKey untilKey =
     (case parseDayKey afterKey of
        None \<Rightarrow> Inl (invalid_day_key afterKey)
      | Some start \<Rightarrow>
          Inr (list_closing_loop 1200 (c_year start, c_month start) closingDay afterKey untilKey))"

definition listDueClosingDates :: "int \<Rightarrow> instant \<Rightarrow> instant \<Rightarrow> instant list res" where
  "listDueClosingDates closingDay after until =
     res_bind (listClosingDayKeys closingDay (dayKeyOfDate after) (dayKeyOfDate until))
       (res_mapM (\<lambda>k. dayKeyToDate k Noon))"

fun next_closing_loop :: "nat \<Rightarrow> int \<times> int \<Rightarrow> int \<Rightarrow> day_key \<Rightarrow> day_key \<Rightarrow> day_key res" where
  "next_closing_loop 0 ym closingDay afterKey notBeforeKey = Inl (RangeError ''No closing date found'')"
| "next_closing_loop (Suc i) ym closingDay afterKey notBeforeKey =
     (let candidate = closingDayKeyInMonth (fst ym) (snd ym) closingDay in
      if compareDayKeys candidate afterKey > 0 \<and> compareDayKeys candidate notBeforeKey \<ge> 0
      then Inr candidate
      else next_closing_loop i (next_month ym) closingDay afterKey notBeforeKey)"

definition nextClosingOnOrAfter :: "int \<Rightarrow> day_key \<Rightarrow> day_key \<Rightarrow> day_key res" where
  "nextClosingOnOrAfter closingDay afterKey notBeforeKey =
     (case parseDayKey afterKey of
        None \<Rightarrow> Inl (invalid_day_key afterKey)
      | Some start \<Rightarrow>
          next_closing_loop 1200 (c_year start, c_month start) closingDay afterKey notBeforeKey)"

section \<open>cycle-window.ts\<close>

record cycle_card =
  card_closingDay :: int
  card_createdAt :: instant
  card_lastInvoicedOn :: "instant option"
  card_minimumNextClosingOn :: "instant option"

record cycle_window =
  w_periodStartKey :: day_key
  w_closingKey :: day_key
  w_includePeriodStart :: bool

definition periodStartKey_of :: "tz_offset \<Rightarrow> 'a cycle_card_scheme \<Rightarrow> day_key" where
  "periodStartKey_of sp crd =
     (case card_lastInvoicedOn crd of
        Some d \<Rightarrow> dayKeyOfDate d
      | None \<Rightarrow> dayKeyInSaoPaulo sp (card_createdAt crd))"

definition currentCycleWindow :: "tz_offset \<Rightarrow> 'a cycle_card_scheme \<Rightarrow> day_key \<Rightarrow> cycle_window res" where
  "currentCycleWindow sp crd todayKey =
     (let periodStartKey = periodStartKey_of sp crd;
          minimumKey = (case card_minimumNextClosingOn crd of
                          Some d \<Rightarrow> dayKeyOfDate d | None \<Rightarrow> todayKey) in
      res_bind (nextClosingOnOrAfter (card_closingDay crd) periodStartKey
                  (if minimumKey > todayKey then minimumKey else todayKey)) (\<lambda>closingKey.
      Inr \<lparr>w_periodStartKey = periodStartKey, w_closingKey = closingKey,
           w_includePeriodStart = (card_lastInvoicedOn crd = None)\<rparr>))"

section \<open>The loops walk over months\<close>

lemma closingDayKey_due [key_simps]:
  "ok_month M \<Longrightarrow> closingDayKeyInMonth (M div 12) (M mod 12) cd = key (due_on cd M)"
  by (simp add: closingDayKeyInMonth_def formatDayKey_due_on)

lemma parse_month [key_simps]:
  "(c_year (civil_of_day n), c_month (civil_of_day n)) = (month_idx n div 12, month_idx n mod 12)"
  by (simp add: month_idx_split)

lemma list_closing_loop_spec:
  assumes "ok_day a" "ok_day u" "ok_month M" "ok_month (month_idx u + 1)"
    and "month_idx u + 1 - M < int fuel"
  shows "list_closing_loop fuel (M div 12, M mod 12) cd (key a) (key u)
    = map key (filter (\<lambda>n. a < n \<and> n \<le> u) (map (due_on cd) [M..month_idx u]))"
  using assms(3,5)
proof (induction fuel arbitrary: M)
  case (Suc i)
  have d: "ok_day (due_on cd M)" using due_on_civil(2) [OF Suc.prems(1)] .
  show ?case
  proof (cases "due_on cd M > u")
    case True
    have "\<not> due_on cd M' \<le> u" if "M \<le> M'" "M' \<le> month_idx u" for M'
    proof -
      have "ok_month M'" using that Suc.prems(1) assms(4) by (auto simp: ok_month_def)
      with due_on_less [OF Suc.prems(1) this, of cd] that True show ?thesis by (cases "M = M'") auto
    qed
    then have "filter (\<lambda>n. a < n \<and> n \<le> u) (map (due_on cd) [M..month_idx u]) = []"
      by (auto simp: filter_empty_conv)
    with True d assms(1,2) show ?thesis
      by (simp add: closingDayKey_due [OF Suc.prems(1)] compareDayKeys_signs)
  next
    case False
    then have le: "M \<le> month_idx u"
      using due_on_after [OF Suc.prems(1), of u cd] by linarith
    then have "ok_month (M + 1)" using Suc.prems(1) assms(4) by (auto simp: ok_month_def)
    from Suc.IH [OF this] Suc.prems(2)
    have "list_closing_loop i ((M + 1) div 12, (M + 1) mod 12) cd (key a) (key u)
        = map key (filter (\<lambda>n. a < n \<and> n \<le> u) (map (due_on cd) [M + 1..month_idx u]))"
      by simp
    with False d assms(1,2) le show ?thesis
      by (simp add: closingDayKey_due [OF Suc.prems(1)] compareDayKeys_signs next_month_idx
          upto_split del: upto.simps)
  qed
qed simp

lemma next_closing_loop_spec:
  assumes "ok_day a" "ok_day b" "ok_month M" "ok_month (month_idx (max a b) + 1)"
    and "M \<le> month_idx (max a b) + 1" "month_idx (max a b) + 1 - M < int fuel"
  shows "\<exists>M'. M \<le> M' \<and> ok_month M' \<and>
    next_closing_loop fuel (M div 12, M mod 12) cd (key a) (key b) = Inr (key (due_on cd M')) \<and>
    a < due_on cd M' \<and> b \<le> due_on cd M' \<and>
    (\<forall>N. M \<le> N \<and> N < M' \<longrightarrow> \<not> (a < due_on cd N \<and> b \<le> due_on cd N))"
  using assms(3,5,6)
proof (induction fuel arbitrary: M)
  case (Suc i)
  have d: "ok_day (due_on cd M)" using due_on_civil(2) [OF Suc.prems(1)] .
  show ?case
  proof (cases "a < due_on cd M \<and> b \<le> due_on cd M")
    case True
    with d assms(1,2) Suc.prems(1) show ?thesis
      by (intro exI [of _ M]) (simp add: closingDayKey_due compareDayKeys_signs)
  next
    case False
    then have "due_on cd M \<le> max a b" by linarith
    then have le: "M \<le> month_idx (max a b)"
      using due_on_after [OF Suc.prems(1), of "max a b" cd] by linarith
    then have "ok_month (M + 1)" using Suc.prems(1) assms(4) by (auto simp: ok_month_def)
    from Suc.IH [OF this] le Suc.prems(3) obtain M' where
      M': "M + 1 \<le> M'" "ok_month M'"
        "next_closing_loop i ((M + 1) div 12, (M + 1) mod 12) cd (key a) (key b) = Inr (key (due_on cd M'))"
        "a < due_on cd M'" "b \<le> due_on cd M'"
        "\<forall>N. M + 1 \<le> N \<and> N < M' \<longrightarrow> \<not> (a < due_on cd N \<and> b \<le> due_on cd N)"
      by auto
    have "next_closing_loop (Suc i) (M div 12, M mod 12) cd (key a) (key b) = Inr (key (due_on cd M'))"
      using False d assms(1,2) M'(3)
      by (auto simp: closingDayKey_due [OF Suc.prems(1)] compareDayKeys_signs next_month_idx)
    moreover have "\<not> (a < due_on cd N \<and> b \<le> due_on cd N)" if "M \<le> N" "N < M'" for N
      using M'(6) False that by (cases "N = M") auto
    ultimately show ?thesis using M' by (intro exI [of _ M']) auto
  qed
qed simp

lemma listClosingDayKeys_eq:
  assumes "ok_day a" "ok_day u" "ok_month (month_idx u + 1)" "month_idx u < month_idx a + 1199"
  shows "listClosingDayKeys cd (key a) (key u)
    = Inr (map key (filter (\<lambda>n. a < n \<and> n \<le> u) (map (due_on cd) [month_idx a..month_idx u])))"
  using list_closing_loop_spec [OF assms(1,2) ok_month_idx [OF assms(1)] assms(3), of 1200 cd] assms
  by (simp add: listClosingDayKeys_def parseDayKey_key month_idx_split del: list_closing_loop.simps)

definition closing_days :: "int \<Rightarrow> int \<Rightarrow> int \<Rightarrow> int list" where
  "closing_days cd a u = filter (\<lambda>n. a < n \<and> n \<le> u) (map (due_on cd) [month_idx a..month_idx u])"

lemma set_closing_days:
  assumes "ok_day a" "ok_day u"
  shows "set (closing_days cd a u) = {n. a < n \<and> n \<le> u \<and> is_due_day cd n}"
proof -
  have ok: "ok_month M" if "M \<in> {month_idx a..month_idx u}" for M
    using that ok_month_idx [OF assms(1)] ok_month_idx [OF assms(2)] by (simp add: ok_month_def)
  show ?thesis
  proof (intro equalityI subsetI)
    fix n assume "n \<in> set (closing_days cd a u)"
    with ok show "n \<in> {n. a < n \<and> n \<le> u \<and> is_due_day cd n}"
      by (auto simp: closing_days_def is_due_day_due_on)
  next
    fix n assume "n \<in> {n. a < n \<and> n \<le> u \<and> is_due_day cd n}"
    then have n: "a < n" "n \<le> u" "is_due_day cd n" "month_idx n \<in> {month_idx a..month_idx u}"
      by (auto intro: month_idx_mono)
    then have "n = due_on cd (month_idx n)" using is_due_day_iff [OF ok] by blast
    with n show "n \<in> set (closing_days cd a u)" by (auto simp: closing_days_def)
  qed
qed

lemma sorted_closing_days:
  assumes "ok_day a" "ok_day u"
  shows "sorted_wrt (<) (closing_days cd a u)"
proof -
  have ok: "ok_month M" if "month_idx a \<le> M" "M \<le> month_idx u" for M
    using that ok_month_idx [OF assms(1)] ok_month_idx [OF assms(2)] by (simp add: ok_month_def)
  have "sorted_wrt (\<lambda>M N. due_on cd M < due_on cd N) [month_idx a..month_idx u]"
    by (rule sorted_wrt_mono_rel [of _ "(<)"]) (auto intro!: due_on_less ok)
  then show ?thesis
    unfolding closing_days_def by (intro sorted_wrt_filter) (simp add: sorted_wrt_map)
qed

lemmas listClosingDayKeys_days = listClosingDayKeys_eq [folded closing_days_def]

lemma nextClosingOnOrAfter_spec:
  assumes "ok_day a" "ok_day b" "ok_month (month_idx (max a b) + 1)"
    and "month_idx (max a b) < month_idx a + 1199"
  shows "\<exists>n. ok_day n \<and> nextClosingOnOrAfter cd (key a) (key b) = Inr (key n) \<and>
    is_due_day cd n \<and> a < n \<and> b \<le> n \<and> (\<forall>n'. a < n' \<and> b \<le> n' \<and> is_due_day cd n' \<longrightarrow> n \<le> n')"
proof -
  let ?M = "month_idx a"
  have "?M \<le> month_idx (max a b)" by (intro month_idx_mono) simp
  with next_closing_loop_spec [OF assms(1,2) ok_month_idx [OF assms(1)] assms(3), of 1200 cd] assms(4)
  obtain M' where M': "?M \<le> M'" "ok_month M'"
      "next_closing_loop 1200 (?M div 12, ?M mod 12) cd (key a) (key b) = Inr (key (due_on cd M'))"
      "a < due_on cd M'" "b \<le> due_on cd M'"
      "\<forall>N. ?M \<le> N \<and> N < M' \<longrightarrow> \<not> (a < due_on cd N \<and> b \<le> due_on cd N)"
    by (auto simp del: next_closing_loop.simps)
  have least: "due_on cd M' \<le> n'" if n': "a < n'" "b \<le> n'" "is_due_day cd n'" for n'
  proof (rule ccontr)
    assume less: "\<not> due_on cd M' \<le> n'"
    then have idx: "month_idx n' \<le> M'"
      using month_idx_mono [of n' "due_on cd M'"] due_on_civil(3) [OF M'(2), of cd] by simp
    have "?M \<le> month_idx n'" using n'(1) by (intro month_idx_mono) simp
    with idx have "ok_month (month_idx n')"
      using M'(2) ok_month_idx [OF assms(1)] by (simp add: ok_month_def)
    then have eq: "n' = due_on cd (month_idx n')" using n'(3) by (simp add: is_due_day_iff)
    with less idx have "month_idx n' < M'" by (cases "month_idx n' = M'") auto
    with M'(6) \<open>?M \<le> month_idx n'\<close> eq n' show False by metis
  qed
  have "nextClosingOnOrAfter cd (key a) (key b) = Inr (key (due_on cd M'))"
    using M'(3) assms(1)
    by (simp add: nextClosingOnOrAfter_def parseDayKey_key month_idx_split del: next_closing_loop.simps)
  with M' least is_due_day_due_on [OF M'(2)] due_on_civil(2) [OF M'(2)] show ?thesis
    by (intro exI [of _ "due_on cd M'"]) auto
qed

section \<open>Properties\<close>

lemma ok_month_succ: "ok_civil c \<Longrightarrow> c_year c \<le> 9998 \<Longrightarrow> ok_month (month_idx (days_of_civil c) + 1)"
  using valid_civil_bounds [of c]
  by (simp add: ok_month_def month_idx_def ok_civil_def civil_of_days_of_civil)

lemma month_idx_of_civil: "valid_civil c \<Longrightarrow> month_idx (days_of_civil c) = 12 * c_year c + c_month c"
  by (simp add: month_idx_def civil_of_days_of_civil)

lemma parseDayKey_civilD:
  assumes "parseDayKey s = Some c" "1000 \<le> c_year c"
  shows "ok_civil c" "s = key (days_of_civil c)" "ok_day (days_of_civil c)"
  using parseDayKey_sound [OF assms] formatDayKey_key [of "c_year c" "c_month c" "c_day c"]
  by (simp_all add: ok_day_of_civil)

text \<open>The list of closings is exactly the closing days after one day and up to another, in
  increasing order, each once: the day of the card's closing in every month, or the last day
  of a shorter month. The search bound of 1200 months loses none within a century.\<close>

theorem closing_days_are_complete:
  assumes "parseDayKey afterKey = Some a" "1000 \<le> c_year a"
    and "parseDayKey untilKey = Some u" "1000 \<le> c_year u" "c_year u \<le> 9998"
    and "c_year u < c_year a + 99"
  shows "\<exists>ns. listClosingDayKeys closingDay afterKey untilKey = Inr (map dayKeyFromNumber ns)
    \<and> sorted_wrt (<) ns
    \<and> set ns = {n. days_of_civil a < n \<and> n \<le> days_of_civil u \<and> is_due_day closingDay n}"
proof -
  note a = parseDayKey_civilD [OF assms(1,2)] and u = parseDayKey_civilD [OF assms(3,4)]
  have "ok_month (month_idx (days_of_civil u) + 1)"
    "month_idx (days_of_civil u) < month_idx (days_of_civil a) + 1199"
    using ok_month_succ [OF u(1) assms(5)] a(1) u(1) assms(6)
      valid_civil_bounds [of a] valid_civil_bounds [of u]
    by (auto simp: month_idx_of_civil ok_civil_def)
  from listClosingDayKeys_days [OF a(3) u(3) this] set_closing_days [OF a(3) u(3)]
    sorted_closing_days [OF a(3) u(3)] a(2) u(2)
  show ?thesis by (intro exI [of _ "closing_days closingDay (days_of_civil a) (days_of_civil u)"]) simp
qed

theorem closing_days_are_complete_witness:
  "(\<exists>ns. listClosingDayKeys 31 ''2026-01-31'' ''2026-04-30'' = Inr (map dayKeyFromNumber ns)
    \<and> sorted_wrt (<) ns) \<and>
   listClosingDayKeys 31 ''2026-01-31'' ''2026-04-30''
    = Inr [''2026-02-28'', ''2026-03-31'', ''2026-04-30'']"
proof
  have "parseDayKey ''2026-01-31'' = Some (Civil 2026 0 31)"
    "parseDayKey ''2026-04-30'' = Some (Civil 2026 3 30)"
    by code_simp+
  from closing_days_are_complete [OF this(1) _ this(2)]
  show "\<exists>ns. listClosingDayKeys 31 ''2026-01-31'' ''2026-04-30'' = Inr (map dayKeyFromNumber ns)
    \<and> sorted_wrt (<) ns"
    by fastforce
  show "listClosingDayKeys 31 ''2026-01-31'' ''2026-04-30''
    = Inr [''2026-02-28'', ''2026-03-31'', ''2026-04-30'']"
    by code_simp
qed

text \<open>The open window of a card ends at the first closing day that is after the last
  invoiced day, not before today and not before the minimum set by a closing-day change.\<close>

theorem open_window_is_next_closing:
  assumes "periodStartKey_of sp crd = ps" "parseDayKey ps = Some p" "1000 \<le> c_year p"
    and "card_minimumNextClosingOn crd = None" "parseDayKey todayKey = Some t" "1000 \<le> c_year t"
    and "c_year p \<le> c_year t" "c_year t < c_year p + 99" "c_year p \<le> 9998" "c_year t \<le> 9998"
  shows "\<exists>w n. currentCycleWindow sp crd todayKey = Inr w \<and> w_periodStartKey w = ps
    \<and> w_includePeriodStart w = (card_lastInvoicedOn crd = None)
    \<and> w_closingKey w = dayKeyFromNumber n \<and> is_due_day (card_closingDay crd) n
    \<and> days_of_civil p < n \<and> days_of_civil t \<le> n
    \<and> (\<forall>n'. days_of_civil p < n' \<and> days_of_civil t \<le> n' \<and> is_due_day (card_closingDay crd) n' \<longrightarrow> n \<le> n')"
proof -
  note p = parseDayKey_civilD [OF assms(2,3)] and t = parseDayKey_civilD [OF assms(5,6)]
  have m: "month_idx (max (days_of_civil p) (days_of_civil t)) < month_idx (days_of_civil p) + 1199"
    "ok_month (month_idx (max (days_of_civil p) (days_of_civil t)) + 1)"
    using ok_month_succ [OF p(1) assms(9)] ok_month_succ [OF t(1) assms(10)] p(1) t(1) assms(7,8)
      valid_civil_bounds [of p] valid_civil_bounds [of t]
    by (auto simp: month_idx_of_civil ok_civil_def max_def)
  from nextClosingOnOrAfter_spec [OF p(3) t(3) m(2,1), of "card_closingDay crd"]
  show ?thesis
    using assms(1,4) p(2) t(2) by (auto simp: currentCycleWindow_def Let_def)
qed

theorem open_window_is_next_closing_witness:
  "let crd = \<lparr>card_closingDay = 31, card_createdAt = 0, card_lastInvoicedOn = Some (noon 20512),
       card_minimumNextClosingOn = None\<rparr> in
   \<exists>w. currentCycleWindow sao_paulo_standard crd ''2026-03-15'' = Inr w \<and>
     w_periodStartKey w = ''2026-02-28'' \<and> \<not> w_includePeriodStart w \<and> w_closingKey w = ''2026-03-31''"
proof -
  let ?crd = "\<lparr>card_closingDay = 31, card_createdAt = 0, card_lastInvoicedOn = Some (noon 20512),
       card_minimumNextClosingOn = None\<rparr>"
  have h: "periodStartKey_of sao_paulo_standard ?crd = ''2026-02-28''"
    "parseDayKey ''2026-02-28'' = Some (Civil 2026 1 28)"
    "parseDayKey ''2026-03-15'' = Some (Civil 2026 2 15)"
    by code_simp+
  from open_window_is_next_closing [OF h(1,2) _ _ h(3)]
  have "\<exists>w. currentCycleWindow sao_paulo_standard ?crd ''2026-03-15'' = Inr w \<and>
     w_periodStartKey w = ''2026-02-28'' \<and> \<not> w_includePeriodStart w"
    by fastforce
  moreover have "currentCycleWindow sao_paulo_standard ?crd ''2026-03-15''
      = Inr \<lparr>w_periodStartKey = ''2026-02-28'', w_closingKey = ''2026-03-31'', w_includePeriodStart = False\<rparr>"
    by code_simp
  ultimately show ?thesis by simp
qed

end
