(* ===== verification/Money.thy ===== *)
theory Money
  imports Civil_Date
begin

text \<open>
  \<open>backend/src/lib/money.ts\<close> and \<open>decimal.ts\<close>: cent-exact money on decimal.js.

  The decimal library (\<open>Prisma.Decimal\<close>) is not part of the repository. Its arithmetic is the
  record \<open>decimal_lib\<close>, the first argument of every function that computes with decimals; the
  values are rationals. What the code relies on is the locale \<open>decimal_arith\<close>, from the
  library's documentation: \<open>plus\<close>, \<open>minus\<close>, \<open>mul\<close>, \<open>div\<close> are correctly rounded to 20 significant
  digits, so a result never crosses a number of at most 20 digits (and is exact when the true
  result is such a number), and \<open>toDecimalPlaces\<close> rounds to a number of places. \<open>decimal_js\<close>
  is an executable arithmetic of that kind, on which the laws are proved.

  JavaScript numbers that hold money are modelled by the decimal they print as
  (\<open>new Decimal(0.1)\<close> is 0.1); \<open>toNumber\<close> and \<open>Number(decimal)\<close> are then the identity.
\<close>

section \<open>The decimal library\<close>

datatype rounding = ROUND_HALF_UP | ROUND_DOWN

record decimal_lib =
  dec_plus :: "rat \<Rightarrow> rat \<Rightarrow> rat"
  dec_minus :: "rat \<Rightarrow> rat \<Rightarrow> rat"
  dec_mul :: "rat \<Rightarrow> rat \<Rightarrow> rat"
  dec_div :: "rat \<Rightarrow> rat \<Rightarrow> rat"
  dec_places :: "nat \<Rightarrow> rounding \<Rightarrow> rat \<Rightarrow> rat"

text \<open>Nearest integer, ties away from zero; and truncation towards zero.\<close>

definition half_up_int :: "rat \<Rightarrow> int" where
  "half_up_int x = (if 0 \<le> x then \<lfloor>x + 1/2\<rfloor> else - \<lfloor>- x + 1/2\<rfloor>)"

definition down_int :: "rat \<Rightarrow> int" where
  "down_int x = (if 0 \<le> x then \<lfloor>x\<rfloor> else - \<lfloor>- x\<rfloor>)"

definition at_places :: "(rat \<Rightarrow> int) \<Rightarrow> nat \<Rightarrow> rat \<Rightarrow> rat" where
  "at_places f n x = of_int (f (x * 10 ^ n)) / 10 ^ n"

definition round_places :: "rounding \<Rightarrow> nat \<Rightarrow> rat \<Rightarrow> rat" where
  "round_places r = at_places (case r of ROUND_HALF_UP \<Rightarrow> half_up_int | ROUND_DOWN \<Rightarrow> down_int)"

text \<open>Numbers of at most 20 significant digits (and no positive exponent).\<close>

definition fits20 :: "rat \<Rightarrow> bool" where
  "fits20 x \<longleftrightarrow> (\<exists>m k. x = of_int m / 10 ^ k \<and> \<bar>m\<bar> < 10 ^ 20)"

text \<open>\<open>r\<close> is a rounding of \<open>x\<close> that does not cross a number of at most 20 digits.\<close>

definition no_crossing :: "rat \<Rightarrow> rat \<Rightarrow> bool" where
  "no_crossing x r \<longleftrightarrow> (\<forall>z. fits20 z \<longrightarrow> (x \<le> z \<longrightarrow> r \<le> z) \<and> (z \<le> x \<longrightarrow> z \<le> r))"

text \<open>Multiples of \<open>10 ^ - k\<close>; \<open>cents\<close> are the amounts the ledger stores.\<close>

definition on_grid :: "nat \<Rightarrow> rat \<Rightarrow> bool" where
  "on_grid k x \<longleftrightarrow> of_int \<lfloor>x * 10 ^ k\<rfloor> = x * 10 ^ k"

abbreviation cents :: "rat \<Rightarrow> bool" where
  "cents \<equiv> on_grid 2"

lemma on_grid_iff: "on_grid k x \<longleftrightarrow> (\<exists>m. x = of_int m / 10 ^ k)"
proof
  assume "on_grid k x"
  then have "x = of_int \<lfloor>x * 10 ^ k\<rfloor> / 10 ^ k"
    by (simp only: on_grid_def) (simp only: nonzero_mult_div_cancel_right power_not_zero zero_neq_numeral not_False_eq_True)
  then show "\<exists>m. x = of_int m / 10 ^ k" by blast
next
  assume "\<exists>m. x = of_int m / 10 ^ k"
  then show "on_grid k x" by (auto simp: on_grid_def)
qed

lemma on_gridE:
  assumes "on_grid k x"
  obtains m where "x = of_int m / 10 ^ k"
  using assms by (auto simp: on_grid_iff)

lemma on_grid_of_int [simp]: "on_grid k (of_int m / 10 ^ k)"
  by (auto simp: on_grid_iff)

lemma on_grid_0 [simp]: "on_grid k 0"
  by (simp add: on_grid_def)

lemma on_grid_plus: "on_grid k x \<Longrightarrow> on_grid k y \<Longrightarrow> on_grid k (x + y)"
  by (metis add_divide_distrib of_int_add on_grid_iff)

lemma on_grid_minus: "on_grid k x \<Longrightarrow> on_grid k y \<Longrightarrow> on_grid k (x - y)"
  by (metis diff_divide_distrib of_int_diff on_grid_iff)

lemma on_grid_uminus: "on_grid k x \<Longrightarrow> on_grid k (- x)"
  using on_grid_minus [of k 0 x] by simp

lemma on_grid_mono: "on_grid k x \<Longrightarrow> k \<le> l \<Longrightarrow> on_grid l x"
proof -
  assume "on_grid k x" "k \<le> l"
  then obtain m where "x = of_int m / 10 ^ k" by (auto simp: on_grid_iff)
  moreover have "(10::rat) ^ l = 10 ^ k * 10 ^ (l - k)"
    using \<open>k \<le> l\<close> by (simp flip: power_add)
  ultimately have "x = of_int (m * 10 ^ (l - k)) / 10 ^ l" by simp
  then show ?thesis unfolding on_grid_iff by blast
qed

lemma on_grid_mult_of_nat: "on_grid k x \<Longrightarrow> on_grid k (x * of_nat n)"
  by (metis of_int_mult of_int_of_nat_eq on_grid_iff times_divide_eq_left)

lemma on_grid_sum_list: "(\<And>x. x \<in> set xs \<Longrightarrow> on_grid k x) \<Longrightarrow> on_grid k (sum_list xs)"
  by (induction xs) (auto intro: on_grid_plus)

lemma grid_fits20: "on_grid k x \<Longrightarrow> \<bar>x\<bar> * 10 ^ k < 10 ^ 20 \<Longrightarrow> fits20 x"
proof -
  assume "on_grid k x" "\<bar>x\<bar> * 10 ^ k < 10 ^ 20"
  then obtain m where m: "x = of_int m / 10 ^ k" by (auto simp: on_grid_iff)
  with \<open>\<bar>x\<bar> * 10 ^ k < 10 ^ 20\<close> have "of_int \<bar>m\<bar> < (10 ^ 20 :: rat)" by simp
  then have "of_int \<bar>m\<bar> < (of_int (10 ^ 20) :: rat)" by simp
  then have "\<bar>m\<bar> < 10 ^ 20" by (simp only: of_int_less_iff)
  with m show "fits20 x" by (auto simp: fits20_def)
qed

lemma cents_fits20 [dec_simps]: "cents x \<Longrightarrow> \<bar>x\<bar> < 10 ^ 18 \<Longrightarrow> fits20 x"
  by (rule grid_fits20 [of 2]) simp_all

lemma fits20_0 [simp]: "fits20 0"
  by (rule grid_fits20 [of 0]) simp_all

section \<open>Rounding to places\<close>

lemma half_up_int_of_int [simp]: "half_up_int (of_int m) = m"
proof -
  have "\<lfloor>of_int m + (1/2::rat)\<rfloor> = m" for m by (simp add: floor_eq_iff)
  from this [of m] this [of "- m"] show ?thesis by (simp add: half_up_int_def)
qed

lemma half_up_int_mono: "x \<le> y \<Longrightarrow> half_up_int x \<le> half_up_int y"
proof -
  assume xy: "x \<le> y"
  have nn: "0 \<le> \<lfloor>z + 1/2\<rfloor>" if "0 \<le> z" for z :: rat using that by simp
  show ?thesis
  proof (cases "0 \<le> x \<or> y < 0")
    case True
    with xy show ?thesis by (auto simp: half_up_int_def intro!: floor_mono)
  next
    case False
    then have "half_up_int x \<le> 0" "0 \<le> half_up_int y"
      using nn [of "- x"] nn [of y] by (simp_all add: half_up_int_def)
    then show ?thesis by linarith
  qed
qed

lemma half_up_int_near: "\<bar>of_int (half_up_int x) - x\<bar> \<le> 1/2"
proof -
  have "\<bar>of_int \<lfloor>z + 1/2\<rfloor> - z\<bar> \<le> 1/2" for z :: rat by linarith
  note near = this
  show ?thesis
  proof (cases "0 \<le> x")
    case True
    with near [of x] show ?thesis by (simp add: half_up_int_def)
  next
    case False
    then have "\<bar>of_int (half_up_int x) - x\<bar> = \<bar>- (of_int \<lfloor>- x + 1/2\<rfloor> - - x)\<bar>"
      by (simp add: half_up_int_def)
    also have "\<dots> \<le> 1/2" using near [of "- x"] by (simp only: abs_minus_cancel)
    finally show ?thesis .
  qed
qed

lemma down_int_of_int [simp]: "down_int (of_int m) = m"
  by (simp add: down_int_def)

lemma down_int_nonneg: "0 \<le> x \<Longrightarrow> down_int x = \<lfloor>x\<rfloor>"
  by (simp add: down_int_def)

lemma at_places_grid [simp]: "on_grid n (at_places f n x)"
  by (simp add: at_places_def)

lemma at_places_fixed:
  assumes "on_grid n x" "\<And>m. f (of_int m) = m"
  shows "at_places f n x = x"
proof -
  obtain m where "x = of_int m / 10 ^ n" using assms(1) by (auto simp: on_grid_iff)
  then show ?thesis by (simp add: at_places_def assms(2))
qed

lemma half_up_places_mono: "x \<le> y \<Longrightarrow> at_places half_up_int n x \<le> at_places half_up_int n y"
  unfolding at_places_def by (intro divide_right_mono) (simp_all add: half_up_int_mono)

lemma half_up_places_near: "\<bar>at_places half_up_int n x - x\<bar> \<le> 1/2 / 10 ^ n"
proof -
  have "at_places half_up_int n x - x = (of_int (half_up_int (x * 10 ^ n)) - x * 10 ^ n) / 10 ^ n"
    by (simp add: at_places_def diff_divide_distrib)
  then show ?thesis
    using divide_right_mono [OF half_up_int_near [of "x * 10 ^ n"], of "10 ^ n"] by simp
qed

lemma down_places_nonneg:
  assumes "0 \<le> x"
  shows "0 \<le> at_places down_int n x" "at_places down_int n x \<le> x" "x < at_places down_int n x + 1 / 10 ^ n"
proof -
  have f: "at_places down_int n x = of_int \<lfloor>x * 10 ^ n\<rfloor> / 10 ^ n"
    using assms by (simp add: at_places_def down_int_nonneg)
  show "0 \<le> at_places down_int n x" using assms by (simp add: f)
  have "of_int \<lfloor>x * 10 ^ n\<rfloor> \<le> x * 10 ^ n" by simp
  then show "at_places down_int n x \<le> x" by (simp add: f divide_le_eq)
  have "x * 10 ^ n < of_int \<lfloor>x * 10 ^ n\<rfloor> + 1" using floor_correct [of "x * 10 ^ n"] by simp
  then have "x < (of_int \<lfloor>x * 10 ^ n\<rfloor> + 1) / 10 ^ n" by (simp add: less_divide_eq)
  then show "x < at_places down_int n x + 1 / 10 ^ n" by (simp add: f add_divide_distrib)
qed

section \<open>The laws of decimal arithmetic\<close>

locale decimal_arith =
  fixes D :: decimal_lib
  assumes plus_rounded: "no_crossing (a + b) (dec_plus D a b)"
    and minus_rounded: "no_crossing (a - b) (dec_minus D a b)"
    and mul_rounded: "no_crossing (a * b) (dec_mul D a b)"
    and div_rounded: "b \<noteq> 0 \<Longrightarrow> no_crossing (a / b) (dec_div D a b)"
    and places: "dec_places D n r x = round_places r n x"
begin

lemma no_crossing_exact: "no_crossing x r \<Longrightarrow> fits20 x \<Longrightarrow> r = x"
  unfolding no_crossing_def by (meson order_antisym order_refl)

lemma no_crossing_nonneg: "no_crossing x r \<Longrightarrow> 0 \<le> x \<Longrightarrow> 0 \<le> r"
  by (simp add: no_crossing_def)

lemma no_crossing_le: "no_crossing x r \<Longrightarrow> fits20 z \<Longrightarrow> x \<le> z \<Longrightarrow> r \<le> z"
  by (simp add: no_crossing_def)

lemma plus_exact: "fits20 (a + b) \<Longrightarrow> dec_plus D a b = a + b"
  by (rule no_crossing_exact [OF plus_rounded])

lemma minus_exact: "fits20 (a - b) \<Longrightarrow> dec_minus D a b = a - b"
  by (rule no_crossing_exact [OF minus_rounded])

lemma mul_exact: "fits20 (a * b) \<Longrightarrow> dec_mul D a b = a * b"
  by (rule no_crossing_exact [OF mul_rounded])

lemma div_exact: "b \<noteq> 0 \<Longrightarrow> fits20 (a / b) \<Longrightarrow> dec_div D a b = a / b"
  by (rule no_crossing_exact [OF div_rounded])

lemma mul_nonneg: "0 \<le> a \<Longrightarrow> 0 \<le> b \<Longrightarrow> 0 \<le> dec_mul D a b"
  by (rule no_crossing_nonneg [OF mul_rounded]) simp

lemma div_nonneg: "0 \<le> a \<Longrightarrow> 0 < b \<Longrightarrow> 0 \<le> dec_div D a b"
  by (rule no_crossing_nonneg [OF div_rounded]) simp_all

lemma mul_le: "fits20 z \<Longrightarrow> a * b \<le> z \<Longrightarrow> dec_mul D a b \<le> z"
  by (rule no_crossing_le [OF mul_rounded])

lemma div_le: "fits20 z \<Longrightarrow> b \<noteq> 0 \<Longrightarrow> a / b \<le> z \<Longrightarrow> dec_div D a b \<le> z"
  by (rule no_crossing_le [OF div_rounded])

lemma plus_cents: "cents a \<Longrightarrow> cents b \<Longrightarrow> \<bar>a + b\<bar> < 10 ^ 18 \<Longrightarrow> dec_plus D a b = a + b"
  by (intro plus_exact cents_fits20 on_grid_plus)

lemma minus_cents: "cents a \<Longrightarrow> cents b \<Longrightarrow> \<bar>a - b\<bar> < 10 ^ 18 \<Longrightarrow> dec_minus D a b = a - b"
  by (intro minus_exact cents_fits20 on_grid_minus)

lemma plus_zero: "fits20 a \<Longrightarrow> dec_plus D 0 a = a"
  by (simp add: plus_exact)

text \<open>A sum of amounts on one grid is exact as long as the magnitudes stay below the precision.\<close>

lemma foldl_plus_exact:
  assumes "\<And>x. x \<in> set xs \<Longrightarrow> on_grid k x" "on_grid k a"
    and "(\<bar>a\<bar> + sum_list (map abs xs)) * 10 ^ k < 10 ^ 20"
  shows "foldl (dec_plus D) a xs = a + sum_list xs"
  using assms
proof (induction xs arbitrary: a)
  case (Cons x xs)
  have tail: "0 \<le> sum_list (map abs xs)" by (rule sum_list_nonneg) auto
  have g: "on_grid k (a + x)" using Cons.prems(1,2) by (auto intro: on_grid_plus)
  have "(\<bar>a + x\<bar> + sum_list (map abs xs)) * 10 ^ k
      \<le> (\<bar>a\<bar> + sum_list (map abs (x # xs))) * 10 ^ k"
    by (intro mult_right_mono) (auto intro: abs_triangle_ineq)
  with Cons.prems(3) have b: "(\<bar>a + x\<bar> + sum_list (map abs xs)) * 10 ^ k < 10 ^ 20"
    by linarith
  have "\<bar>a + x\<bar> * 10 ^ k \<le> (\<bar>a + x\<bar> + sum_list (map abs xs)) * 10 ^ k"
    using tail by (intro mult_right_mono) auto
  with b have "fits20 (a + x)" by (intro grid_fits20 [OF g]) linarith
  then have "foldl (dec_plus D) a (x # xs) = foldl (dec_plus D) (a + x) xs"
    by (simp add: plus_exact)
  also have "\<dots> = a + x + sum_list xs"
    using Cons.IH [OF _ g b] Cons.prems(1) by simp
  finally show ?case by (simp add: add.assoc)
qed simp

lemma foldl_plus_nonneg: "(\<And>x. x \<in> set xs \<Longrightarrow> 0 \<le> x) \<Longrightarrow> 0 \<le> a \<Longrightarrow> 0 \<le> foldl (dec_plus D) a xs"
proof (induction xs arbitrary: a)
  case (Cons x xs)
  have "0 \<le> dec_plus D a x"
    using Cons.prems by (intro no_crossing_nonneg [OF plus_rounded]) simp
  with Cons show ?case by simp
qed simp

end

section \<open>An executable arithmetic of 20 digits\<close>

lemma lt_power10: "of_nat k < (10::rat) ^ k"
proof -
  have "k < 10 ^ k" by (rule power_gt_expt) simp
  then have "of_nat k < (of_nat (10 ^ k) :: rat)" by (simp only: of_nat_less_iff)
  then show ?thesis by simp
qed

text \<open>The least \<open>k\<close> from which \<open>x\<close> scaled by \<open>10 ^ k\<close> has 20 digits.\<close>

function scale_up :: "rat \<Rightarrow> nat \<Rightarrow> nat" where
  "scale_up x k = (if x = 0 \<or> 10 ^ 19 \<le> \<bar>x\<bar> * 10 ^ k then k else scale_up x (Suc k))"
  by pat_completeness auto
termination
proof (relation "measure (\<lambda>(x, k). nat \<lceil>10 ^ 19 / \<bar>x\<bar>\<rceil> - k)", goal_cases)
  case (2 x k)
  then have x: "0 < \<bar>x\<bar>" "\<bar>x\<bar> * 10 ^ k < 10 ^ 19" by auto
  have "\<bar>x\<bar> * of_nat k \<le> \<bar>x\<bar> * 10 ^ k"
    by (intro mult_left_mono less_imp_le [OF lt_power10]) simp
  also note x(2)
  finally have "of_nat k < 10 ^ 19 / \<bar>x\<bar>" using x(1) by (simp add: less_divide_eq mult.commute)
  then have "int k < \<lceil>10 ^ 19 / \<bar>x\<bar>\<rceil>" by (simp add: less_ceiling_iff)
  then show ?case by simp
qed simp

function scale_down :: "rat \<Rightarrow> nat \<Rightarrow> nat" where
  "scale_down x j = (if \<bar>x\<bar> < 10 ^ (20 + j) then j else scale_down x (Suc j))"
  by pat_completeness auto
termination
proof (relation "measure (\<lambda>(x, j). nat \<lceil>\<bar>x\<bar>\<rceil> - j)", goal_cases)
  case (2 x j)
  have "of_nat j < (10::rat) ^ j" by (rule lt_power10)
  also have "\<dots> \<le> 10 ^ (20 + j)" by (rule power_increasing) simp_all
  also have "\<dots> \<le> \<bar>x\<bar>" using 2 by simp
  finally have "int j < \<lceil>\<bar>x\<bar>\<rceil>" by (simp add: less_ceiling_iff)
  then show ?case by simp
qed simp

declare scale_up.simps [simp del] scale_down.simps [simp del]

definition round_sig20 :: "rat \<Rightarrow> rat" where
  "round_sig20 x =
     (if x = 0 then 0
      else if \<bar>x\<bar> < 10 ^ 20 then at_places half_up_int (scale_up x 0) x
      else (let j = scale_down x 0 in of_int (half_up_int (x / 10 ^ j)) * 10 ^ j))"

definition decimal_js :: decimal_lib where
  "decimal_js = \<lparr>dec_plus = \<lambda>a b. round_sig20 (a + b), dec_minus = \<lambda>a b. round_sig20 (a - b),
     dec_mul = \<lambda>a b. round_sig20 (a * b), dec_div = \<lambda>a b. round_sig20 (a / b),
     dec_places = \<lambda>n r. round_places r n\<rparr>"

lemma scale_up_spec: "x \<noteq> 0 \<Longrightarrow> 10 ^ 19 \<le> \<bar>x\<bar> * 10 ^ scale_up x k"
proof (induction x k rule: scale_up.induct)
  case (1 x k)
  then show ?case by (cases "10 ^ 19 \<le> \<bar>x\<bar> * 10 ^ k") (simp_all add: scale_up.simps [of x k])
qed

lemma scale_down_spec: "10 ^ (20 + j) \<le> \<bar>x\<bar> \<Longrightarrow> 10 ^ (19 + scale_down x j) \<le> \<bar>x\<bar>"
proof (induction x j rule: scale_down.induct)
  case (1 x j)
  have step: "scale_down x j = scale_down x (Suc j)"
    using "1.prems" by (subst scale_down.simps) simp
  show ?case
  proof (cases "10 ^ (20 + Suc j) \<le> \<bar>x\<bar>")
    case True
    with 1 step show ?thesis by simp
  next
    case False
    then have "scale_down x (Suc j) = Suc j" by (subst scale_down.simps) simp
    with "1.prems" step show ?thesis by simp
  qed
qed

lemma scale_down_ge: "j \<le> scale_down x j"
proof (induction x j rule: scale_down.induct)
  case (1 x j)
  then show ?case by (cases "\<bar>x\<bar> < 10 ^ (20 + j)") (auto simp: scale_down.simps [of x j])
qed

lemma half_up_ge: "of_int m \<le> x \<Longrightarrow> m \<le> half_up_int x"
  using half_up_int_mono [of "of_int m" x] by simp

lemma half_up_le: "x \<le> of_int m \<Longrightarrow> half_up_int x \<le> m"
  using half_up_int_mono [of x "of_int m"] by simp

text \<open>A number of at most 20 digits that is not on the grid of \<open>x\<close>'s 20 digits is smaller.\<close>

lemma fits20_grid_or_small:
  assumes "fits20 z"
  shows "on_grid k z \<or> \<bar>z\<bar> * 10 ^ k < 10 ^ 19"
proof -
  obtain m l where z: "z = of_int m / 10 ^ l" "\<bar>m\<bar> < 10 ^ 20"
    using assms by (auto simp: fits20_def)
  show ?thesis
  proof (cases "l \<le> k")
    case True
    with on_grid_mono [OF _ True] z(1) show ?thesis by simp
  next
    case False
    have m: "of_int \<bar>m\<bar> < (10 ^ 20 :: rat)"
      using z(2) by (metis of_int_less_iff of_int_numeral of_int_power)
    have "(10::rat) ^ l = 10 ^ k * 10 ^ (l - k)" using False by (simp flip: power_add)
    then have "\<bar>z\<bar> * 10 ^ k = of_int \<bar>m\<bar> / 10 ^ (l - k)" by (simp add: z(1))
    also have "\<dots> \<le> of_int \<bar>m\<bar> / 10"
      using False power_increasing [of 1 "l - k" "10::rat"] by (intro divide_left_mono) auto
    also have "\<dots> < 10 ^ 19" using m by simp
    finally show ?thesis by simp
  qed
qed

lemma on_grid_scaled: "on_grid k z \<Longrightarrow> \<exists>m. z * 10 ^ k = of_int m"
  by (auto simp: on_grid_iff)

lemma no_crossing_places:
  assumes "x \<noteq> 0" "10 ^ 19 \<le> \<bar>x\<bar> * 10 ^ k"
  shows "no_crossing x (at_places half_up_int k x)"
  unfolding no_crossing_def
proof (intro allI impI)
  fix z assume z: "fits20 z"
  have p: "(0::rat) < 10 ^ k" by simp
  define h where "h = half_up_int (x * 10 ^ k)"
  have goal: "(at_places half_up_int k x \<le> z \<longleftrightarrow> of_int h \<le> z * 10 ^ k)"
    "(z \<le> at_places half_up_int k x \<longleftrightarrow> z * 10 ^ k \<le> of_int h)"
    by (simp_all add: at_places_def h_def divide_le_eq le_divide_eq)
  have lo: "10 ^ 19 \<le> h" if "0 \<le> x"
    using half_up_ge [of "10 ^ 19" "x * 10 ^ k"] assms(2) that by (simp add: h_def)
  have hi: "h \<le> - (10 ^ 19)" if "x < 0"
    using half_up_le [of "x * 10 ^ k" "- (10 ^ 19)"] assms(2) that by (simp add: h_def)
  have lo': "(10 ^ 19 :: rat) \<le> of_int h" if "0 \<le> x"
    using lo [OF that] by (metis of_int_le_iff of_int_numeral of_int_power)
  have hi': "of_int h \<le> - (10 ^ 19 :: rat)" if "x < 0"
    using hi [OF that] by (metis of_int_le_iff of_int_minus of_int_numeral of_int_power)
  show "(x \<le> z \<longrightarrow> at_places half_up_int k x \<le> z) \<and> (z \<le> x \<longrightarrow> z \<le> at_places half_up_int k x)"
  proof (cases "on_grid k z")
    case True
    then obtain m where m: "z * 10 ^ k = of_int m" using on_grid_scaled by blast
    have "x \<le> z \<Longrightarrow> h \<le> m" "z \<le> x \<Longrightarrow> m \<le> h"
      unfolding h_def using p by (auto intro!: half_up_le half_up_ge simp: m [symmetric])
    with goal m show ?thesis by simp
  next
    case False
    then have small: "\<bar>z\<bar> * 10 ^ k < 10 ^ 19" using fits20_grid_or_small [OF z, of k] by simp
    then have "\<bar>z * 10 ^ k\<bar> < 10 ^ 19" by (simp add: abs_mult)
    then have zb: "z * 10 ^ k < 10 ^ 19" "- (10 ^ 19) < z * 10 ^ k" by linarith+
    show ?thesis
    proof (cases "0 \<le> x")
      case True
      then have "10 ^ 19 \<le> x * 10 ^ k" using assms(2) by simp
      with zb have "z * 10 ^ k < x * 10 ^ k" by linarith
      then have "z < x" by (simp only: mult_less_cancel_right_pos [OF p])
      with goal(2) lo' [OF True] zb show ?thesis by simp
    next
      case False
      then have "x * 10 ^ k \<le> - (10 ^ 19)" using assms(2) by simp
      with zb have "x * 10 ^ k < z * 10 ^ k" by linarith
      then have "x < z" by (simp only: mult_less_cancel_right_pos [OF p])
      with goal(1) hi' False zb show ?thesis by simp
    qed
  qed
qed

lemma no_crossing_big:
  assumes "10 ^ 20 \<le> \<bar>x\<bar>" "10 ^ (19 + j) \<le> \<bar>x\<bar>" "1 \<le> j"
  shows "no_crossing x (of_int (half_up_int (x / 10 ^ j)) * 10 ^ j)"
  unfolding no_crossing_def
proof (intro allI impI)
  fix z assume "fits20 z"
  then obtain m l where zm: "z = of_int m / 10 ^ l" "\<bar>m\<bar> < 10 ^ 20" by (auto simp: fits20_def)
  have "of_int \<bar>m\<bar> < (10 ^ 20 :: rat)"
    using zm(2) by (metis of_int_less_iff of_int_numeral of_int_power)
  moreover have "\<bar>z\<bar> \<le> of_int \<bar>m\<bar>" by (simp add: zm(1) divide_le_eq mult_left_le_one_le mult_le_cancel_left1)
  ultimately have z: "z < 10 ^ 20" "- (10 ^ 20) < z" by linarith+
  define h where "h = half_up_int (x / 10 ^ j)"
  have pj: "(10::rat) ^ 20 \<le> 10 ^ 19 * 10 ^ j"
    using power_increasing [of 20 "19 + j" "10::rat"] assms(3) by (simp add: power_add)
  show "(x \<le> z \<longrightarrow> of_int (half_up_int (x / 10 ^ j)) * 10 ^ j \<le> z) \<and>
      (z \<le> x \<longrightarrow> z \<le> of_int (half_up_int (x / 10 ^ j)) * 10 ^ j)"
  proof (cases "0 \<le> x")
    case True
    have "10 ^ 19 \<le> h" unfolding h_def
      using assms(2) True by (intro half_up_ge) (simp add: le_divide_eq power_add)
    then have "(10 ^ 19 :: rat) \<le> of_int h" by (metis of_int_le_iff of_int_numeral of_int_power)
    then have "(10 ^ 19 :: rat) * 10 ^ j \<le> of_int h * 10 ^ j" by (intro mult_right_mono) simp_all
    with pj z have "z \<le> of_int h * 10 ^ j" by linarith
    moreover have "z < x" using z True assms(1) by linarith
    ultimately show ?thesis unfolding h_def [symmetric] by simp
  next
    case False
    have "h \<le> - (10 ^ 19)" unfolding h_def
      using assms(2) False by (intro half_up_le) (simp add: divide_le_eq power_add)
    then have "of_int h \<le> (- (10 ^ 19) :: rat)"
      by (metis of_int_le_iff of_int_minus of_int_numeral of_int_power)
    then have "of_int h * 10 ^ j \<le> - (10 ^ 19 :: rat) * 10 ^ j" by (intro mult_right_mono) simp_all
    with pj z have "of_int h * 10 ^ j \<le> z" by linarith
    moreover have "x < z" using z False assms(1) by linarith
    ultimately show ?thesis unfolding h_def [symmetric] by simp
  qed
qed

lemma round_sig20_no_crossing: "no_crossing x (round_sig20 x)"
proof -
  consider "x = 0" | "x \<noteq> 0" "\<bar>x\<bar> < 10 ^ 20" | "10 ^ 20 \<le> \<bar>x\<bar>" by linarith
  then show ?thesis
  proof cases
    case 2
    with no_crossing_places [OF 2(1) scale_up_spec [OF 2(1), of 0]] show ?thesis
      by (simp add: round_sig20_def)
  next
    case 3
    let ?j = "scale_down x 0"
    have "?j \<noteq> 0"
    proof
      assume "?j = 0"
      with 3 scale_down.simps [of x 0] have "scale_down x (Suc 0) = 0" by simp
      moreover have "Suc 0 \<le> scale_down x (Suc 0)" by (rule scale_down_ge)
      ultimately show False by simp
    qed
    with no_crossing_big [OF 3 scale_down_spec [of 0 x]] 3
    have "no_crossing x (of_int (half_up_int (x / 10 ^ ?j)) * 10 ^ ?j)" by simp
    moreover have "x \<noteq> 0" "\<not> \<bar>x\<bar> < 10 ^ 20" using 3 by auto
    ultimately show ?thesis
      unfolding round_sig20_def by (simp only: Let_def if_False)
  qed (simp add: no_crossing_def round_sig20_def)
qed

interpretation js_decimal: decimal_arith decimal_js
  by unfold_locales (simp_all add: decimal_js_def round_sig20_no_crossing)

section \<open>money.ts and decimal.ts\<close>

definition toMoney :: "decimal_lib \<Rightarrow> rat \<Rightarrow> rat" where
  "toMoney D v = dec_places D 2 ROUND_HALF_UP v"

definition sumMoney :: "decimal_lib \<Rightarrow> rat list \<Rightarrow> rat" where
  "sumMoney D values = toMoney D (foldl (dec_plus D) 0 values)"

text \<open>The loop of \<open>allocateByPercent\<close>: every part but the last, then the remainder.\<close>

fun allocate_loop :: "decimal_lib \<Rightarrow> rat \<Rightarrow> rat \<Rightarrow> rat list \<Rightarrow> rat list" where
  "allocate_loop D exactTotal allocated [] = []"
| "allocate_loop D exactTotal allocated [p] = [dec_minus D exactTotal allocated]"
| "allocate_loop D exactTotal allocated (p # q # ps) =
     (let part = toMoney D (dec_div D (dec_mul D exactTotal p) 100) in
      part # allocate_loop D exactTotal (dec_plus D allocated part) (q # ps))"

definition allocateByPercent :: "decimal_lib \<Rightarrow> rat \<Rightarrow> rat list \<Rightarrow> rat list" where
  "allocateByPercent D amount percents = allocate_loop D (toMoney D amount) 0 percents"

definition dateOnlyUtc :: "instant \<Rightarrow> instant" where
  "dateOnlyUtc date = date_UTC (getUTCFullYear date) (getUTCMonth date) (getUTCDate date) 12"

definition dateKey :: "instant \<Rightarrow> day_key" where
  "dateKey value = dayKeyOfDate (dateOnlyUtc value)"

context decimal_arith
begin

lemma toMoney_eq: "toMoney D x = at_places half_up_int 2 x"
  by (simp add: toMoney_def places round_places_def)

lemma toMoney_cents [simp]: "cents (toMoney D x)"
  by (simp add: toMoney_eq)

lemma toMoney_id: "cents x \<Longrightarrow> toMoney D x = x"
  by (simp add: toMoney_eq at_places_fixed)

lemma toMoney_mono: "x \<le> y \<Longrightarrow> toMoney D x \<le> toMoney D y"
  by (simp add: toMoney_eq half_up_places_mono)

lemma toMoney_near: "\<bar>toMoney D x - x\<bar> \<le> 1 / 200"
  using half_up_places_near [of 2 x] by (simp add: toMoney_eq)

lemma toMoney_nonneg: "0 \<le> x \<Longrightarrow> 0 \<le> toMoney D x"
  using toMoney_mono [of 0 x] by (simp add: toMoney_id)

lemma percent_part_bounds:
  assumes "cents t" "0 \<le> t" "t < 10 ^ 16" "0 \<le> p" "p \<le> 100"
  shows "0 \<le> toMoney D (dec_div D (dec_mul D t p) 100)"
    and "toMoney D (dec_div D (dec_mul D t p) 100) \<le> t"
proof -
  have "on_grid 2 (t * of_nat 100)" using assms(1) by (rule on_grid_mult_of_nat)
  then have f: "fits20 (t * 100)" using assms(2,3) by (intro cents_fits20) simp_all
  have m: "0 \<le> dec_mul D t p" "dec_mul D t p \<le> t * 100"
    using assms by (auto intro!: mul_nonneg mul_le [OF f] mult_left_mono)
  have "fits20 t" using assms(1-3) by (intro cents_fits20) simp_all
  then have "dec_div D (dec_mul D t p) 100 \<le> t" using m(2) by (intro div_le) simp_all
  then show "toMoney D (dec_div D (dec_mul D t p) 100) \<le> t"
    using toMoney_mono [of _ t] toMoney_id [OF assms(1)] by fastforce
  show "0 \<le> toMoney D (dec_div D (dec_mul D t p) 100)"
    using m(1) by (intro toMoney_nonneg div_nonneg) simp_all
qed

lemma allocate_loop_sum:
  assumes "cents t" "0 \<le> t" "t < 10 ^ 16" "\<And>p. p \<in> set ps \<Longrightarrow> 0 \<le> p \<and> p \<le> 100"
    and "cents a" "0 \<le> a" "a + t * of_nat (length ps) < 10 ^ 17" "ps \<noteq> []"
  shows "a + sum_list (allocate_loop D t a ps) = t \<and> list_all cents (allocate_loop D t a ps)
    \<and> list_all (\<lambda>x. 0 \<le> x) (butlast (allocate_loop D t a ps))
    \<and> length (allocate_loop D t a ps) = length ps"
  using assms(4-8)
proof (induction ps arbitrary: a rule: induct_list012)
  case (2 p)
  then have "dec_minus D t a = t - a"
    using assms(1-3) by (intro minus_cents) auto
  with 2 assms(1) show ?case by (auto intro: on_grid_minus)
next
  case (3 p q ps)
  define part where "part = toMoney D (dec_div D (dec_mul D t p) 100)"
  have part: "0 \<le> part" "part \<le> t" "cents part"
    using percent_part_bounds [OF assms(1-3), of p] 3(3) by (auto simp: part_def)
  have "0 \<le> t * of_nat (length (q # ps))" using assms(2) by simp
  then have "a + part < 10 ^ 17" using 3(6) part(2) by (simp add: algebra_simps)
  then have plus: "dec_plus D a part = a + part"
    using 3(4,5) part by (intro plus_cents) auto
  have "cents (a + part)" "0 \<le> a + part" using 3(4,5) part by (auto intro: on_grid_plus)
  moreover have "a + part + t * of_nat (length (q # ps)) < 10 ^ 17"
    using 3(6) part(2) by (simp add: algebra_simps)
  ultimately have IH: "a + part + sum_list (allocate_loop D t (a + part) (q # ps)) = t \<and>
      list_all cents (allocate_loop D t (a + part) (q # ps)) \<and>
      list_all (\<lambda>x. 0 \<le> x) (butlast (allocate_loop D t (a + part) (q # ps))) \<and>
      length (allocate_loop D t (a + part) (q # ps)) = length (q # ps)"
    using 3(3) by (intro 3(2)) auto
  then have "allocate_loop D t (a + part) (q # ps) \<noteq> []" by auto
  with IH part show ?case
    by (simp add: plus part_def [symmetric] Let_def add.assoc)
qed simp

lemma allocation_sum:
  assumes "0 \<le> amount" "amount \<le> 9999999999.99"
    and "percents \<noteq> []" "length percents \<le> 100000" "\<forall>p \<in> set percents. 0 \<le> p \<and> p \<le> 100"
  shows "sum_list (allocateByPercent D amount percents) = toMoney D amount
    \<and> list_all cents (allocateByPercent D amount percents)
    \<and> list_all (\<lambda>x. 0 \<le> x) (butlast (allocateByPercent D amount percents))
    \<and> length (allocateByPercent D amount percents) = length percents"
proof -
  let ?t = "toMoney D amount"
  have "amount < 10000000000" using assms(2) by simp
  with toMoney_near [of amount] have "?t < 10000000001" by linarith
  then have "?t < 10 ^ 11" by simp
  with toMoney_nonneg [OF assms(1)] toMoney_cents [of amount]
  have t: "cents ?t" "0 \<le> ?t" "?t < 10 ^ 11" by auto
  have "?t * of_nat (length percents) \<le> 10 ^ 11 * 100000"
    using t assms(4) by (intro mult_mono) simp_all
  then show ?thesis
    using allocate_loop_sum [OF t(1,2), of percents 0] t assms(3,5)
    by (simp add: allocateByPercent_def)
qed

end

lemma dateOnlyUtc_noon: "ok_day (day_of t) \<Longrightarrow> dateOnlyUtc t = noon (day_of t)"
  using ok_civil_of_day [of "day_of t"]
    date_UTC_civil [of "c_year (civil_of_day (day_of t))" "c_month (civil_of_day (day_of t))"
      "c_day (civil_of_day (day_of t))" 12]
  by (simp add: dateOnlyUtc_def getUTCFullYear_def getUTCMonth_def getUTCDate_def ok_civil_def)

lemma dateKey_key [key_simps]: "ok_day (day_of t) \<Longrightarrow> dateKey t = key (day_of t)"
  by (simp add: dateKey_def dateOnlyUtc_noon dayKeyOfDate_day)

section \<open>Properties\<close>

text \<open>Splitting an amount by percentages loses no cent: the parts are whole cents, one per
  percentage, all but the last are not negative, and they add up to the amount rounded to
  cents, although every product and quotient on the way is rounded to 20 digits.\<close>

theorem allocation_is_cent_exact:
  assumes "decimal_arith D" "0 \<le> amount" "amount \<le> 9999999999.99"
    and "percents \<noteq> []" "length percents \<le> 100000" "\<forall>p \<in> set percents. 0 \<le> p \<and> p \<le> 100"
  shows "sum_list (allocateByPercent D amount percents) = toMoney D amount
    \<and> list_all cents (allocateByPercent D amount percents)
    \<and> list_all (\<lambda>x. 0 \<le> x) (butlast (allocateByPercent D amount percents))
    \<and> length (allocateByPercent D amount percents) = length percents"
  using decimal_arith.allocation_sum [OF assms] .

theorem allocation_is_cent_exact_witness:
  "sum_list (allocateByPercent decimal_js 19.99 [50, 50]) = toMoney decimal_js 19.99 \<and>
   allocateByPercent decimal_js 19.99 [50, 50] = [10, 9.99]"
proof
  show "sum_list (allocateByPercent decimal_js 19.99 [50, 50]) = toMoney decimal_js 19.99"
    using allocation_is_cent_exact [OF js_decimal.decimal_arith_axioms, of "19.99" "[50, 50]"] by simp
  show "allocateByPercent decimal_js 19.99 [50, 50] = [10, 9.99]"
    by code_simp
qed

text \<open>Summing stored amounts is exact: the rounding to cents at the end and the 20-digit
  rounding of every addition change nothing.\<close>

theorem sumMoney_exact:
  assumes "decimal_arith D" "\<forall>v \<in> set vs. cents v" "sum_list (map abs vs) < 10 ^ 18"
  shows "sumMoney D vs = sum_list vs"
proof -
  have "foldl (dec_plus D) 0 vs = sum_list vs"
    using decimal_arith.foldl_plus_exact [OF assms(1), of vs 2 0] assms(2,3) by simp
  moreover have "cents (sum_list vs)"
    using assms(2) by (auto intro: on_grid_sum_list)
  ultimately show ?thesis
    by (simp add: sumMoney_def decimal_arith.toMoney_id [OF assms(1)])
qed

theorem sumMoney_exact_witness: "sumMoney decimal_js [0.1, 0.2, -0.05] = 0.25"
proof -
  have "\<forall>v \<in> set [0.1, 0.2, -0.05]. cents v" by code_simp
  from sumMoney_exact [OF js_decimal.decimal_arith_axioms this] show ?thesis by simp
qed

end
