(* ===== verification/Charges.thy ===== *)
theory Charges
  imports Billing_Calendar Money "HOL-Library.Product_Lexorder"
begin

text \<open>
  \<open>backend/src/lib/billing/charges.ts\<close>: how often an expense charges a card in a billing window
  and how much. An occurrence is a civil day; the counting functions work on day keys and the
  theory \<open>Charge_Days\<close> shows that they count the days of an abstract set.

  Amounts that the source may hold as decimals, strings or numbers are rationals. A \<open>kind\<close> and
  a \<open>frequency\<close> are strings, as in the source's structural types; an identifier that may be
  null is an option, and JavaScript's truthiness test on it is \<open>truthy\<close>.
\<close>

record billable_split =
  bs_kind :: string
  bs_cardId :: "string option"
  bs_amount :: rat

record obligation_version =
  ov_sequence :: int
  ov_effectiveMonth :: string
  ov_amount :: rat
  ov_cardId :: "string option"
  ov_splits :: "billable_split list"

record billable_expense =
  be_amount :: rat
  be_cardId :: "string option"
  be_isInvoice :: bool
  be_frequency :: string
  be_dueDay :: "int option"
  be_startsAt :: "instant option"
  be_endsAt :: "instant option"
  be_occurredAt :: "instant option"
  be_createdAt :: instant
  be_archivedAt :: "instant option"
  be_splits :: "billable_split list"
  be_obligationVersions :: "obligation_version list"

datatype split_target = TCard string | TPix | TCash

definition truthy :: "string option \<Rightarrow> bool" where
  "truthy v \<longleftrightarrow> (case v of None \<Rightarrow> False | Some s \<Rightarrow> s \<noteq> [])"

section \<open>The split-share rule\<close>

definition sum_amounts :: "decimal_lib \<Rightarrow> billable_split list \<Rightarrow> rat" where
  "sum_amounts D splits = foldl (\<lambda>acc split. dec_plus D acc (bs_amount split)) 0 splits"

definition splitShareFor :: "decimal_lib \<Rightarrow> 'a billable_expense_scheme \<Rightarrow> split_target \<Rightarrow> rat" where
  "splitShareFor D expense target =
     (let splits = be_splits expense in
      case target of
        TCard cardId \<Rightarrow>
          (let cardSplits = filter (\<lambda>s. bs_kind s = ''card'' \<and> bs_cardId s = Some cardId) splits in
           if cardSplits \<noteq> [] then sum_amounts D cardSplits
           else if be_cardId expense = Some cardId then be_amount expense else 0)
      | _ \<Rightarrow>
          (if splits \<noteq> [] then sum_amounts D (filter (\<lambda>s. bs_kind s = ''pix'') splits)
           else if truthy (be_cardId expense) then 0
           else be_amount expense))"

section \<open>Occurrences\<close>

definition maxChargesPerCycle :: "string \<Rightarrow> int" where
  "maxChargesPerCycle frequency =
     (if frequency = ''unica'' then 1 else if frequency = ''mensal'' then 1
      else if frequency = ''semanal'' then 5 else 1)"

definition recurringStartKey :: "tz_offset \<Rightarrow> 'a billable_expense_scheme \<Rightarrow> day_key" where
  "recurringStartKey sp expense =
     (case be_startsAt expense of
        Some d \<Rightarrow> dayKeyOfDate d
      | None \<Rightarrow> dayKeyInSaoPaulo sp (be_createdAt expense))"

definition oneOffKey :: "tz_offset \<Rightarrow> 'a billable_expense_scheme \<Rightarrow> day_key" where
  "oneOffKey sp expense =
     dayKeyInSaoPaulo sp (case be_occurredAt expense of Some d \<Rightarrow> d | None \<Rightarrow> be_createdAt expense)"

definition countWeeklyOccurrences :: "day_key \<Rightarrow> day_key \<Rightarrow> day_key \<Rightarrow> int res" where
  "countWeeklyOccurrences anchorKey loKey hiKey =
     (let first = (if compareDayKeys loKey anchorKey \<ge> 0 then loKey else anchorKey) in
      if compareDayKeys first hiKey > 0 then Inr 0
      else
        res_bind (weekdayOfKey anchorKey) (\<lambda>wa.
        res_bind (weekdayOfKey first) (\<lambda>wf.
        res_bind (addDaysToKey first ((wa - wf + 7) mod 7)) (\<lambda>firstOccurrence.
        if compareDayKeys firstOccurrence hiKey > 0 then Inr 0
        else res_bind (diffDays hiKey firstOccurrence) (\<lambda>d. Inr (d div 7 + 1))))))"

text \<open>The month loop, from \<open>(year, month)\<close> through the month of \<open>hi\<close>.\<close>

function count_monthly_loop ::
    "int \<times> int \<Rightarrow> int \<times> int \<Rightarrow> int \<Rightarrow> day_key \<Rightarrow> day_key \<Rightarrow> int \<Rightarrow> int" where
  "count_monthly_loop (year, month) (hiYear, hiMonth) day effectiveLo hiKey count =
     (if year < hiYear \<or> year = hiYear \<and> month \<le> hiMonth then
        let occurrence = formatDayKey year month (clampDayToMonth year month day);
            count' = (if compareDayKeys occurrence effectiveLo \<ge> 0 \<and> compareDayKeys occurrence hiKey \<le> 0
                      then count + 1 else count) in
        count_monthly_loop (next_month (year, month)) (hiYear, hiMonth) day effectiveLo hiKey count'
      else count)"
  by pat_completeness auto
termination
  by (relation "measures [\<lambda>((y, m), (hy, hm), _). nat (hy + 1 - y), \<lambda>((y, m), _). nat (12 - m)]")
    (auto simp: next_month_def)

declare count_monthly_loop.simps [simp del]

definition countMonthlyOccurrences :: "day_key \<Rightarrow> day_key \<Rightarrow> day_key \<Rightarrow> int option \<Rightarrow> int" where
  "countMonthlyOccurrences anchorKey loKey hiKey dueDay =
     (let effectiveLo = (if compareDayKeys loKey anchorKey \<ge> 0 then loKey else anchorKey) in
      case (parseDayKey anchorKey, parseDayKey effectiveLo, parseDayKey hiKey) of
        (Some anchor, Some lo, Some hi) \<Rightarrow>
          (let day = (case dueDay of
                        Some d \<Rightarrow> (if d \<ge> 1 \<and> d \<le> 31 then d else c_day anchor)
                      | None \<Rightarrow> c_day anchor) in
           if compareDayKeys effectiveLo hiKey > 0 then 0
           else count_monthly_loop (c_year lo, c_month lo) (c_year hi, c_month hi) day effectiveLo hiKey 0)
      | _ \<Rightarrow> 0)"

definition window_lower :: "cycle_window \<Rightarrow> day_key res" where
  "window_lower window =
     (if w_includePeriodStart window then Inr (w_periodStartKey window)
      else addDaysToKey (w_periodStartKey window) 1)"

definition min_key :: "day_key \<Rightarrow> day_key \<Rightarrow> day_key" where
  "min_key k hi = (if compareDayKeys k hi < 0 then k else hi)"

text \<open>Recurring charges stop at \<open>endsAt\<close> and at the archive day.\<close>

definition recurring_upper :: "tz_offset \<Rightarrow> 'a billable_expense_scheme \<Rightarrow> day_key \<Rightarrow> day_key" where
  "recurring_upper sp expense closingKey =
     (let hi = closingKey;
          hi = (case be_endsAt expense of Some d \<Rightarrow> min_key (dayKeyOfDate d) hi | None \<Rightarrow> hi) in
      case be_archivedAt expense of Some d \<Rightarrow> min_key (dayKeyInSaoPaulo sp d) hi | None \<Rightarrow> hi)"

definition chargeOccurrences :: "tz_offset \<Rightarrow> 'a billable_expense_scheme \<Rightarrow> cycle_window \<Rightarrow> int res" where
  "chargeOccurrences sp expense window =
     (if be_isInvoice expense then Inr 0
      else res_bind (window_lower window) (\<lambda>lowerInclusive.
        let closingKey = w_closingKey window in
        if be_frequency expense = ''unica'' then
          (let k = oneOffKey sp expense in
           Inr (if compareDayKeys k lowerInclusive \<ge> 0 \<and> compareDayKeys k closingKey \<le> 0 then 1 else 0))
        else
          (let startKey = recurringStartKey sp expense;
               hi = recurring_upper sp expense closingKey in
           if compareDayKeys lowerInclusive hi > 0 then Inr 0
           else if be_frequency expense = ''semanal'' then countWeeklyOccurrences startKey lowerInclusive hi
           else Inr (countMonthlyOccurrences startKey lowerInclusive hi (be_dueDay expense)))))"

section \<open>Worst case per cycle\<close>

definition worst_weekly :: "day_key \<Rightarrow> day_key \<Rightarrow> int res" where
  "worst_weekly lo hi =
     res_fold (\<lambda>worst i. res_bind (addDaysToKey lo (- i)) (\<lambda>anchor.
                 res_bind (countWeeklyOccurrences anchor lo hi) (\<lambda>c. Inr (max worst c))))
       0 [0..6]"

definition worst_monthly :: "day_key \<Rightarrow> day_key \<Rightarrow> int" where
  "worst_monthly lo hi =
     (case parseDayKey lo of
        None \<Rightarrow> 0
      | Some loDate \<Rightarrow>
          foldl (\<lambda>worst day. max worst
                   (countMonthlyOccurrences (formatDayKey (c_year loDate - 1) 0 day) lo hi None))
            0 [1..31])"

definition worstCaseChargesInWindow :: "string \<Rightarrow> cycle_window \<Rightarrow> int res" where
  "worstCaseChargesInWindow frequency window =
     (if frequency = ''unica'' then Inr 1
      else res_bind (window_lower window) (\<lambda>lo.
        let hi = w_closingKey window in
        if compareDayKeys lo hi > 0 then Inr 0
        else if frequency = ''semanal'' then worst_weekly lo hi
        else if frequency = ''mensal'' then Inr (worst_monthly lo hi)
        else Inr 1))"

record max_charges_per_cycle =
  mc_unica :: int
  mc_mensal :: int
  mc_semanal :: int

definition maxChargesForWindow :: "cycle_window \<Rightarrow> max_charges_per_cycle res" where
  "maxChargesForWindow window =
     res_bind (worstCaseChargesInWindow ''mensal'' window) (\<lambda>m.
     res_bind (worstCaseChargesInWindow ''semanal'' window) (\<lambda>s.
     Inr \<lparr>mc_unica = 1, mc_mensal = max 1 m, mc_semanal = max 5 s\<rparr>))"

section \<open>Amounts\<close>

text \<open>\<open>{ ...expense, ...version }\<close>: the expense under the terms of one version.\<close>

definition with_terms :: "'a billable_expense_scheme \<Rightarrow> obligation_version \<Rightarrow> 'a billable_expense_scheme" where
  "with_terms expense version = expense\<lparr>be_amount := ov_amount version,
     be_cardId := ov_cardId version, be_splits := ov_splits version\<rparr>"

text \<open>The version in force in a month: of those effective by then, the one with the highest
  sequence number (the sort of the source is stable).\<close>

definition active_version :: "obligation_version list \<Rightarrow> string \<Rightarrow> obligation_version option" where
  "active_version versions month =
     (case sort_key (\<lambda>v. - ov_sequence v) (filter (\<lambda>v. ov_effectiveMonth v \<le> month) versions) of
        [] \<Rightarrow> None
      | v # _ \<Rightarrow> Some v)"

definition first_of_next_month :: "string \<Rightarrow> day_key" where
  "first_of_next_month month =
     (let parts = split_on (CHR ''-'') month;
          year = digits_val (part_at parts 0); monthNumber = digits_val (part_at parts 1) in
      if monthNumber = 12 then pad (year + 1) 4 @ ''-01-01''
      else pad year 4 @ ''-'' @ pad (monthNumber + 1) 2 @ ''-01'')"

text \<open>
  The loop over the calendar months of a window. Its fuel is the number of months from the
  cursor to the closing plus two, one more than the iterations a window of real days takes.
\<close>

definition months_between :: "day_key \<Rightarrow> day_key \<Rightarrow> nat" where
  "months_between lo hi =
     (case (parseDayKey lo, parseDayKey hi) of
        (Some a, Some b) \<Rightarrow> nat (12 * c_year b + c_month b - (12 * c_year a + c_month a)) + 2
      | _ \<Rightarrow> 2)"

fun versioned_loop ::
    "decimal_lib \<Rightarrow> tz_offset \<Rightarrow> nat \<Rightarrow> 'a billable_expense_scheme \<Rightarrow> string \<Rightarrow> day_key \<Rightarrow> day_key \<Rightarrow> rat \<Rightarrow> rat res"
where
  "versioned_loop D sp 0 expense cardId closingKey cursor acc = Inl (PlainError ''out of fuel'')"
| "versioned_loop D sp (Suc i) expense cardId closingKey cursor acc =
     (if compareDayKeys cursor closingKey \<le> 0 then
        let month = take 7 cursor in
        res_bind (addDaysToKey (first_of_next_month month) (-1)) (\<lambda>monthEnd.
        let hi = (if compareDayKeys monthEnd closingKey < 0 then monthEnd else closingKey) in
        res_bind
          (case active_version (be_obligationVersions expense) month of
             None \<Rightarrow> Inr acc
           | Some active \<Rightarrow>
               res_bind (addDaysToKey cursor (-1)) (\<lambda>before.
               res_bind (chargeOccurrences sp (with_terms expense active)
                   \<lparr>w_periodStartKey = before, w_closingKey = hi, w_includePeriodStart = False\<rparr>)
                 (\<lambda>occurrences.
               Inr (if occurrences \<noteq> 0
                    then dec_plus D acc (dec_mul D
                           (splitShareFor D (with_terms expense active) (TCard cardId)) (of_int occurrences))
                    else acc))))
          (\<lambda>total'.
        res_bind (addDaysToKey hi 1) (\<lambda>cursor'.
        versioned_loop D sp i expense cardId closingKey cursor' total')))
      else Inr acc)"

definition chargeAmountDecimal ::
    "decimal_lib \<Rightarrow> tz_offset \<Rightarrow> 'a billable_expense_scheme \<Rightarrow> string \<Rightarrow> cycle_window \<Rightarrow> rat res" where
  "chargeAmountDecimal D sp expense cardId window =
     (if be_frequency expense \<noteq> ''unica'' \<and> be_obligationVersions expense \<noteq> [] then
        res_bind (window_lower window) (\<lambda>lo.
        versioned_loop D sp (months_between lo (w_closingKey window)) expense cardId
          (w_closingKey window) lo 0)
      else
        res_bind (chargeOccurrences sp expense window) (\<lambda>occurrences.
        Inr (if occurrences \<le> 0 then 0
             else dec_mul D (splitShareFor D expense (TCard cardId)) (of_int occurrences))))"

definition chargesTotalDecimal ::
    "decimal_lib \<Rightarrow> tz_offset \<Rightarrow> 'a billable_expense_scheme list \<Rightarrow> string \<Rightarrow> cycle_window \<Rightarrow> rat res" where
  "chargesTotalDecimal D sp expenses cardId window =
     res_fold (\<lambda>acc expense. res_bind (chargeAmountDecimal D sp expense cardId window)
                 (\<lambda>a. Inr (dec_plus D acc a))) 0 expenses"

definition windowFromDates :: "instant \<Rightarrow> instant \<Rightarrow> bool \<Rightarrow> cycle_window" where
  "windowFromDates closingOn periodStart includePeriodStart =
     \<lparr>w_periodStartKey = dayKeyOfDate periodStart, w_closingKey = dayKeyOfDate closingOn,
      w_includePeriodStart = includePeriodStart\<rparr>"

definition chargeAmountForClosing ::
    "decimal_lib \<Rightarrow> tz_offset \<Rightarrow> 'a billable_expense_scheme \<Rightarrow> string \<Rightarrow> instant \<Rightarrow> instant \<Rightarrow> bool \<Rightarrow> rat res" where
  "chargeAmountForClosing D sp expense cardId closingOn periodStart includePeriodStart =
     chargeAmountDecimal D sp expense cardId (windowFromDates closingOn periodStart includePeriodStart)"

definition chargesTotalForClosing ::
    "decimal_lib \<Rightarrow> tz_offset \<Rightarrow> 'a billable_expense_scheme list \<Rightarrow> string \<Rightarrow> instant \<Rightarrow> instant \<Rightarrow> bool \<Rightarrow> rat res" where
  "chargesTotalForClosing D sp expenses cardId closingOn periodStart includePeriodStart =
     chargesTotalDecimal D sp expenses cardId (windowFromDates closingOn periodStart includePeriodStart)"

section \<open>One-offs outside their cycle\<close>

definition preCreationOneOffsDecimal ::
    "decimal_lib \<Rightarrow> tz_offset \<Rightarrow> 'a billable_expense_scheme list \<Rightarrow> string \<Rightarrow> instant \<Rightarrow> rat" where
  "preCreationOneOffsDecimal D sp expenses cardId cardCreatedAt =
     (let createdKey = dayKeyInSaoPaulo sp cardCreatedAt in
      foldl (\<lambda>acc expense.
          if be_isInvoice expense \<or> be_frequency expense \<noteq> ''unica''
             \<or> compareDayKeys (oneOffKey sp expense) createdKey \<ge> 0 then acc
          else dec_plus D acc (splitShareFor D expense (TCard cardId)))
        0 expenses)"

definition lateOneOffsDecimal ::
    "decimal_lib \<Rightarrow> tz_offset \<Rightarrow> 'a billable_expense_scheme list \<Rightarrow> string \<Rightarrow> instant \<Rightarrow> instant \<Rightarrow> rat" where
  "lateOneOffsDecimal D sp expenses cardId closedThrough processedAt =
     (let closedThroughKey = dayKeyOfDate closedThrough in
      foldl (\<lambda>acc expense.
          if be_isInvoice expense \<or> be_frequency expense \<noteq> ''unica'' \<or> be_createdAt expense \<le> processedAt
          then acc
          else if compareDayKeys (oneOffKey sp expense) closedThroughKey > 0 then acc
          else dec_plus D acc (splitShareFor D expense (TCard cardId)))
        0 expenses)"

section \<open>Future charges of a card\<close>

definition max_key :: "day_key \<Rightarrow> day_key \<Rightarrow> day_key" where
  "max_key a b = (if a < b then b else a)"

text \<open>The versions that can charge from a day on: the one in force then and every later one.\<close>

definition relevant_versions :: "'a billable_expense_scheme \<Rightarrow> day_key \<Rightarrow> obligation_version list" where
  "relevant_versions expense firstFutureKey =
     (let versions = (if be_obligationVersions expense \<noteq> [] then be_obligationVersions expense
            else [\<lparr>ov_sequence = 1, ov_effectiveMonth = ''0000-01'', ov_amount = be_amount expense,
                   ov_cardId = be_cardId expense, ov_splits = be_splits expense\<rparr>]);
          ordered = sort_key (\<lambda>v. (ov_effectiveMonth v, ov_sequence v)) versions;
          month = take 7 firstFutureKey;
          current = filter (\<lambda>v. ov_effectiveMonth v \<le> month) ordered in
      (if current = [] then [] else [last current]) @ filter (\<lambda>v. ov_effectiveMonth v > month) ordered)"

fun future_charge_in ::
    "decimal_lib \<Rightarrow> tz_offset \<Rightarrow> 'a billable_expense_scheme \<Rightarrow> string \<Rightarrow> day_key \<Rightarrow> obligation_version list \<Rightarrow> bool res"
where
  "future_charge_in D sp expense cardId firstFutureKey [] = Inr False"
| "future_charge_in D sp expense cardId firstFutureKey (version # rest) =
     (let start = max_key (max_key firstFutureKey (recurringStartKey sp expense))
                    (ov_effectiveMonth version @ ''-01'') in
      res_bind (case rest of
                  next # _ \<Rightarrow> addDaysToKey (ov_effectiveMonth next @ ''-01'') (-1)
                | [] \<Rightarrow> addDaysToKey start 31) (\<lambda>end0.
      let end1 = (case be_endsAt expense of
                    Some d \<Rightarrow> (if dayKeyOfDate d < end0 then dayKeyOfDate d else end0) | None \<Rightarrow> end0);
          terms = with_terms expense version in
      res_bind
        (if end1 < start then Inr False
         else if splitShareFor D terms (TCard cardId) > 0 then
           res_bind (chargeOccurrences sp terms
               \<lparr>w_periodStartKey = start, w_closingKey = end1, w_includePeriodStart = True\<rparr>)
             (\<lambda>n. Inr (n > 0))
         else Inr False)
        (\<lambda>hit. if hit then Inr True
               else future_charge_in D sp expense cardId firstFutureKey rest)))"

definition hasFutureRecurringCardCharge ::
    "decimal_lib \<Rightarrow> tz_offset \<Rightarrow> 'a billable_expense_scheme \<Rightarrow> string \<Rightarrow> day_key \<Rightarrow> bool res" where
  "hasFutureRecurringCardCharge D sp expense cardId firstFutureKey =
     (if be_isInvoice expense \<or> be_frequency expense = ''unica'' \<or> be_archivedAt expense \<noteq> None then Inr False
      else if (case be_endsAt expense of Some d \<Rightarrow> dayKeyOfDate d < firstFutureKey | None \<Rightarrow> False)
      then Inr False
      else future_charge_in D sp expense cardId firstFutureKey (relevant_versions expense firstFutureKey))"

end
