(* ===== verification/Charge_Days.thy ===== *)
theory Charge_Days
  imports Charges
begin

text \<open>
  What the counting functions of \<open>charges.ts\<close> count. A recurrence is a set of days: the weekly
  one has the days a multiple of seven after its anchor, the monthly one the due day of every
  month. The interface \<open>occurrence_rule\<close> says that a counting function returns the size of such
  a set within an interval; the weekly and the monthly counters implement it, and the lemmas
  about adjacent windows are proved once for both. \<open>charge_day\<close> is the abstract specification of
  \<open>chargeOccurrences\<close>: the days on which an expense charges.
\<close>

section \<open>Counting the days of a rule\<close>

text \<open>Days with room for the four weeks and more that the code looks ahead.\<close>

definition roomy :: "int \<Rightarrow> bool" where
  "roomy n \<longleftrightarrow> ok_day n \<and> ok_day (n - 40) \<and> ok_day (n + 40)"

lemma roomy_ok [simp]: "roomy n \<Longrightarrow> ok_day n"
  by (simp add: roomy_def)

lemma ok_day_between: "ok_day a \<Longrightarrow> ok_day b \<Longrightarrow> a \<le> n \<Longrightarrow> n \<le> b \<Longrightarrow> ok_day n"
  by (simp add: ok_day_def)

lemma roomy_near: "roomy n \<Longrightarrow> n - 40 \<le> m \<Longrightarrow> m \<le> n + 40 \<Longrightarrow> ok_day m"
  by (meson ok_day_between roomy_def)

definition days_of :: "(int \<Rightarrow> bool) \<Rightarrow> int \<Rightarrow> int \<Rightarrow> int set" where
  "days_of P lo hi = {n. lo \<le> n \<and> n \<le> hi \<and> P n}"

lemma finite_days_of [simp]: "finite (days_of P lo hi)"
  by (rule finite_subset [of _ "{lo..hi}"]) (auto simp: days_of_def)

lemma days_of_empty: "hi < lo \<Longrightarrow> days_of P lo hi = {}"
  by (auto simp: days_of_def)

lemma card_days_of_split:
  assumes "lo \<le> mid + 1" "mid \<le> hi"
  shows "card (days_of P lo hi) = card (days_of P lo mid) + card (days_of P (mid + 1) hi)"
proof -
  have "days_of P lo hi = days_of P lo mid \<union> days_of P (mid + 1) hi"
    using assms by (auto simp: days_of_def)
  moreover have "days_of P lo mid \<inter> days_of P (mid + 1) hi = {}"
    by (auto simp: days_of_def)
  ultimately show ?thesis by (simp add: card_Un_disjoint)
qed

lemma card_days_of_mono:
  "lo' \<le> lo \<Longrightarrow> hi \<le> hi' \<Longrightarrow> card (days_of P lo hi) \<le> card (days_of P lo' hi')"
  by (intro card_mono finite_days_of) (auto simp: days_of_def)

lemma card_days_of_subset:
  "(\<And>n. lo \<le> n \<Longrightarrow> n \<le> hi \<Longrightarrow> P n \<Longrightarrow> Q n) \<Longrightarrow> card (days_of P lo hi) \<le> card (days_of Q lo hi)"
  by (intro card_mono finite_days_of) (auto simp: days_of_def)

lemma days_of_cong: "(\<And>n. lo \<le> n \<Longrightarrow> n \<le> hi \<Longrightarrow> P n = Q n) \<Longrightarrow> days_of P lo hi = days_of Q lo hi"
  by (auto simp: days_of_def)

locale occurrence_rule =
  fixes count :: "day_key \<Rightarrow> day_key \<Rightarrow> day_key \<Rightarrow> int res"
    and falls :: "int \<Rightarrow> int \<Rightarrow> bool"
  assumes count_days: "ok_day a \<Longrightarrow> ok_day lo \<Longrightarrow> roomy hi \<Longrightarrow>
    count (key a) (key lo) (key hi) = Inr (int (card (days_of (\<lambda>n. a \<le> n \<and> falls a n) lo hi)))"
begin

text \<open>Two adjacent windows count what their union counts.\<close>

lemma adjacent_windows:
  assumes "ok_day a" "ok_day lo" "roomy mid" "roomy hi" "lo \<le> mid + 1" "mid \<le> hi"
  shows "\<exists>x y. count (key a) (key lo) (key mid) = Inr x \<and> count (key a) (key (mid + 1)) (key hi) = Inr y
    \<and> count (key a) (key lo) (key hi) = Inr (x + y)"
proof -
  have "ok_day (mid + 1)" using roomy_near [OF assms(3)] by simp
  then show ?thesis
    using assms card_days_of_split [OF assms(5,6), of "\<lambda>n. a \<le> n \<and> falls a n"]
    by (simp add: count_days)
qed

lemma nothing_before_anchor:
  assumes "ok_day a" "ok_day lo" "roomy hi" "hi < a"
  shows "count (key a) (key lo) (key hi) = Inr 0"
proof -
  have "days_of (\<lambda>n. a \<le> n \<and> falls a n) lo hi = {}"
    using assms(4) by (auto simp: days_of_def)
  with assms show ?thesis by (simp add: count_days)
qed

lemma only_from_anchor:
  assumes "ok_day a" "ok_day lo" "roomy hi"
  shows "count (key a) (key lo) (key hi) = count (key a) (key (max lo a)) (key hi)"
proof -
  have "days_of (\<lambda>n. a \<le> n \<and> falls a n) lo hi = days_of (\<lambda>n. a \<le> n \<and> falls a n) (max lo a) hi"
    by (auto simp: days_of_def)
  with assms show ?thesis by (simp add: count_days max_def)
qed

end

section \<open>The weekly counter\<close>

definition weekly_falls :: "int \<Rightarrow> int \<Rightarrow> bool" where
  "weekly_falls a n \<longleftrightarrow> (n - a) mod 7 = 0"

lemma arithmetic_days_card:
  fixes f h :: int
  assumes "f \<le> h"
  shows "card (days_of (\<lambda>n. (n - f) mod 7 = 0) f h) = nat ((h - f) div 7 + 1)"
proof -
  have "days_of (\<lambda>n. (n - f) mod 7 = 0) f h = (\<lambda>k. f + 7 * k) ` {0..(h - f) div 7}"
  proof (intro equalityI subsetI)
    fix n assume "n \<in> days_of (\<lambda>n. (n - f) mod 7 = 0) f h"
    then have n: "f \<le> n" "n \<le> h" "(n - f) mod 7 = 0" by (auto simp: days_of_def)
    then have "n = f + 7 * ((n - f) div 7)" using mult_div_mod_eq [of 7 "n - f"] by simp
    moreover have "(n - f) div 7 \<in> {0..(h - f) div 7}"
      using n by (auto intro: zdiv_mono1)
    ultimately show "n \<in> (\<lambda>k. f + 7 * k) ` {0..(h - f) div 7}" by blast
  next
    fix n assume "n \<in> (\<lambda>k. f + 7 * k) ` {0..(h - f) div 7}"
    then obtain k where k: "n = f + 7 * k" "0 \<le> k" "k \<le> (h - f) div 7" by auto
    then have "7 * k \<le> 7 * ((h - f) div 7)" by simp
    with div_bounds [of 7 "h - f"] have "7 * k \<le> h - f" by linarith
    with k show "n \<in> days_of (\<lambda>n. (n - f) mod 7 = 0) f h" by (simp add: days_of_def)
  qed
  moreover have "inj_on (\<lambda>k. f + 7 * k) {0..(h - f) div 7}" by (auto simp: inj_on_def)
  ultimately show ?thesis
    using assms by (simp add: card_image)
qed

text \<open>The first day on or after \<open>f\<close> with the weekday of \<open>a\<close>.\<close>

lemma weekday_gap:
  fixes a f :: int
  defines "g \<equiv> ((a + 4) mod 7 - (f + 4) mod 7 + 7) mod 7"
  shows "0 \<le> g" "g < 7" "(f + g - a) mod 7 = 0" "\<And>n. f \<le> n \<Longrightarrow> (n - a) mod 7 = 0 \<Longrightarrow> f + g \<le> n"
proof -
  show g: "0 \<le> g" "g < 7" by (simp_all add: g_def)
  have "g mod 7 = (a - f) mod 7"
    unfolding g_def by (simp add: mod_diff_eq)
  then show c: "(f + g - a) mod 7 = 0"
    by (metis add_diff_eq diff_diff_eq2 diff_self mod_0 mod_diff_cong add.commute)
  fix n assume n: "f \<le> n" "(n - a) mod 7 = 0"
  show "f + g \<le> n"
  proof (rule ccontr)
    assume "\<not> f + g \<le> n"
    with n(1) g have d: "0 < f + g - n" "f + g - n < 7" by auto
    have "f + g - n = (f + g - a) - (n - a)" by simp
    then have "(f + g - n) mod 7 = ((f + g - a) - (n - a)) mod 7" by (rule arg_cong)
    also have "\<dots> = 0" using c n(2) by (metis diff_self mod_0 mod_diff_cong)
    finally show False using d by simp
  qed
qed

lemma weekly_count:
  assumes "ok_day a" "ok_day lo" "roomy hi"
  shows "countWeeklyOccurrences (key a) (key lo) (key hi)
    = Inr (int (card (days_of (\<lambda>n. a \<le> n \<and> weekly_falls a n) lo hi)))"
proof -
  define f where "f = max lo a"
  define g where "g = ((a + 4) mod 7 - (f + 4) mod 7 + 7) mod 7"
  note gap = weekday_gap [where a = a and f = f, folded g_def]
  have f: "ok_day f" using assms by (simp add: f_def max_def)
  have first: "(if compareDayKeys (key lo) (key a) \<ge> 0 then key lo else key a) = key f"
    using assms by (simp add: compareDayKeys_signs f_def max_def)
  have days: "days_of (\<lambda>n. a \<le> n \<and> weekly_falls a n) lo hi = days_of (\<lambda>n. (n - (f + g)) mod 7 = 0) (f + g) hi"
  proof -
    have eq: "(n - a) mod 7 = 0 \<longleftrightarrow> (n - (f + g)) mod 7 = 0" for n
    proof -
      have "(n - a) mod 7 = ((n - (f + g)) + (f + g - a)) mod 7" by simp
      also have "\<dots> = ((n - (f + g)) mod 7 + (f + g - a) mod 7) mod 7" by (rule mod_add_eq [symmetric])
      also have "\<dots> = (n - (f + g)) mod 7" unfolding gap(3) by simp
      finally show ?thesis by simp
    qed
    have "f \<le> n \<longleftrightarrow> lo \<le> n \<and> a \<le> n" for n by (simp add: f_def)
    with gap(1,4) eq show ?thesis
      by (fastforce simp: days_of_def weekly_falls_def)
  qed
  show ?thesis
  proof (cases "f > hi")
    case True
    then have "days_of (\<lambda>n. (n - (f + g)) mod 7 = 0) (f + g) hi = {}"
      using gap(1) by (intro days_of_empty) simp
    with True f assms show ?thesis
      unfolding countWeeklyOccurrences_def first days by (simp add: compareDayKeys_signs)
  next
    case False
    then have fg: "ok_day (f + g)"
      using roomy_near [OF assms(3), of "hi + 40"] f gap(1,2) by (simp add: ok_day_def)
    have "countWeeklyOccurrences (key a) (key lo) (key hi)
        = (if f + g > hi then Inr 0 else Inr ((hi - (f + g)) div 7 + 1))"
    proof -
      have le: "\<not> compareDayKeys (key f) (key hi) > 0"
        using False f assms(3) by (simp add: compareDayKeys_signs)
      have gt: "compareDayKeys (key (f + g)) (key hi) > 0 \<longleftrightarrow> f + g > hi"
        using fg assms(3) by (simp add: compareDayKeys_signs)
      show ?thesis
        unfolding countWeeklyOccurrences_def first Let_def
        by (simp only: le gt if_False res_bind_Inr weekdayOfKey_key [OF assms(1)] weekdayOfKey_key [OF f]
            g_def [symmetric] addDaysToKey_key [OF f] diffDays_key [OF roomy_ok [OF assms(3)] fg])
    qed
    moreover have "int (card (days_of (\<lambda>n. (n - (f + g)) mod 7 = 0) (f + g) hi))
        = (if f + g > hi then 0 else (hi - (f + g)) div 7 + 1)"
    proof (cases "f + g > hi")
      case False
      then have "0 \<le> (hi - (f + g)) div 7" by (simp add: pos_imp_zdiv_nonneg_iff)
      with False arithmetic_days_card [of "f + g" hi] show ?thesis by simp
    qed (simp add: days_of_empty)
    ultimately show ?thesis unfolding days by simp
  qed
qed

interpretation weekly: occurrence_rule countWeeklyOccurrences weekly_falls
  by unfold_locales (rule weekly_count)

section \<open>The monthly counter\<close>

text \<open>The day of the month a monthly charge falls on: the due day, or the day of its anchor.\<close>

definition monthly_day :: "int option \<Rightarrow> int \<Rightarrow> int" where
  "monthly_day dueDay a =
     (case dueDay of Some d \<Rightarrow> (if d \<ge> 1 \<and> d \<le> 31 then d else c_day (civil_of_day a))
      | None \<Rightarrow> c_day (civil_of_day a))"

definition monthly_falls :: "int option \<Rightarrow> int \<Rightarrow> int \<Rightarrow> bool" where
  "monthly_falls dueDay a n \<longleftrightarrow> is_due_day (monthly_day dueDay a) n"

lemma month_order: "M div 12 < H div 12 \<or> M div 12 = H div 12 \<and> M mod 12 \<le> H mod 12 \<longleftrightarrow> M \<le> H"
  for M H :: int
  using month_le_iff [of "M mod 12" "H mod 12" "M div 12" "H div 12"] month_mod_range by simp

lemma count_monthly_stop:
  assumes "H < M"
  shows "count_monthly_loop (M div 12, M mod 12) (H div 12, H mod 12) d lo hi c = c"
  using month_order [of M H] assms by (subst count_monthly_loop.simps) auto

lemma count_monthly_step:
  assumes "M \<le> H" "ok_month M" "ok_day lo" "ok_day hi"
  shows "count_monthly_loop (M div 12, M mod 12) (H div 12, H mod 12) d (key lo) (key hi) c
    = count_monthly_loop ((M + 1) div 12, (M + 1) mod 12) (H div 12, H mod 12) d (key lo) (key hi)
        (if lo \<le> due_on d M \<and> due_on d M \<le> hi then c + 1 else c)"
  using assms month_order [of M H]
  by (subst count_monthly_loop.simps)
    (simp add: formatDayKey_due_on compareDayKeys_signs due_on_civil(2) next_month_idx Let_def)

lemma count_monthly_loop_spec:
  assumes "ok_day lo" "ok_day hi" "ok_month M" "ok_month H"
  shows "count_monthly_loop (M div 12, M mod 12) (H div 12, H mod 12) d (key lo) (key hi) c
    = c + int (card {N \<in> {M..H}. lo \<le> due_on d N \<and> due_on d N \<le> hi})"
  using assms(3)
proof (induction "nat (H + 1 - M)" arbitrary: M c)
  case 0
  then show ?case by (simp add: count_monthly_stop)
next
  case (Suc k)
  then have le: "M \<le> H" by linarith
  have IH: "count_monthly_loop ((M + 1) div 12, (M + 1) mod 12) (H div 12, H mod 12) d (key lo) (key hi) c'
      = c' + int (card {N \<in> {M + 1..H}. lo \<le> due_on d N \<and> due_on d N \<le> hi})" for c'
  proof (cases "M < H")
    case True
    with Suc assms(4) show ?thesis by (simp add: ok_month_def)
  qed (use le in \<open>simp add: count_monthly_stop\<close>)
  have set: "{N \<in> {M..H}. lo \<le> due_on d N \<and> due_on d N \<le> hi}
      = (if lo \<le> due_on d M \<and> due_on d M \<le> hi then {M} else {})
        \<union> {N \<in> {M + 1..H}. lo \<le> due_on d N \<and> due_on d N \<le> hi}"
  proof -
    have "{M..H} = insert M {M + 1..H}" using le by auto
    then show ?thesis by auto
  qed
  have "int (card {N \<in> {M..H}. lo \<le> due_on d N \<and> due_on d N \<le> hi})
      = (if lo \<le> due_on d M \<and> due_on d M \<le> hi then 1 else 0)
        + int (card {N \<in> {M + 1..H}. lo \<le> due_on d N \<and> due_on d N \<le> hi})"
  proof -
    have "finite {N \<in> {M + 1..H}. lo \<le> due_on d N \<and> due_on d N \<le> hi}"
      by (rule finite_subset [of _ "{M + 1..H}"]) auto
    from card_Un_disjoint [OF _ this] show ?thesis unfolding set by auto
  qed
  with IH show ?case
    by (simp add: count_monthly_step [OF le Suc.prems assms(1,2)])
qed

lemma card_due_days:
  assumes "ok_day lo" "ok_day hi" "lo \<le> hi"
  shows "card (days_of (is_due_day d) lo hi)
    = card {M \<in> {month_idx lo..month_idx hi}. lo \<le> due_on d M \<and> due_on d M \<le> hi}"
proof -
  have "days_of (is_due_day d) lo hi
      = due_on d ` {M \<in> {month_idx lo..month_idx hi}. lo \<le> due_on d M \<and> due_on d M \<le> hi}"
    using due_days_as_months [OF assms, of d] by (simp add: days_of_def)
  moreover have "inj_on (due_on d) {M \<in> {month_idx lo..month_idx hi}. lo \<le> due_on d M \<and> due_on d M \<le> hi}"
    using ok_month_idx [OF assms(1)] ok_month_idx [OF assms(2)]
    by (intro inj_on_due_on) (auto simp: ok_month_def)
  ultimately show ?thesis by (simp add: card_image)
qed

lemma monthly_count:
  assumes "ok_day a" "ok_day lo" "ok_day hi"
  shows "countMonthlyOccurrences (key a) (key lo) (key hi) dueDay
    = int (card (days_of (\<lambda>n. a \<le> n \<and> monthly_falls dueDay a n) lo hi))"
proof -
  define f where "f = max lo a"
  have f: "ok_day f" using assms by (simp add: f_def max_def)
  have first: "(if compareDayKeys (key lo) (key a) \<ge> 0 then key lo else key a) = key f"
    using assms by (simp add: compareDayKeys_signs f_def max_def)
  have days: "days_of (\<lambda>n. a \<le> n \<and> monthly_falls dueDay a n) lo hi
      = days_of (is_due_day (monthly_day dueDay a)) f hi"
    by (auto simp: days_of_def monthly_falls_def f_def)
  have "countMonthlyOccurrences (key a) (key lo) (key hi) dueDay
      = (if f > hi then 0 else count_monthly_loop (month_idx f div 12, month_idx f mod 12)
           (month_idx hi div 12, month_idx hi mod 12) (monthly_day dueDay a) (key f) (key hi) 0)"
    using assms f unfolding countMonthlyOccurrences_def first
    by (simp add: Let_def parseDayKey_key compareDayKeys_signs month_idx_split monthly_day_def)
  then show ?thesis
    unfolding days
    using f assms(3) count_monthly_loop_spec [OF f assms(3) ok_month_idx [OF f] ok_month_idx [OF assms(3)]]
    by (cases "f > hi") (simp_all add: days_of_empty card_due_days)
qed

interpretation monthly: occurrence_rule "\<lambda>a lo hi. Inr (countMonthlyOccurrences a lo hi dueDay)"
  "monthly_falls dueDay" for dueDay
  by unfold_locales (simp add: monthly_count)

section \<open>The days an expense charges\<close>

definition local_day :: "tz_offset \<Rightarrow> instant \<Rightarrow> int" where
  "local_day sp t = day_of (t + sp t)"

definition start_day :: "tz_offset \<Rightarrow> 'a billable_expense_scheme \<Rightarrow> int" where
  "start_day sp e = (case be_startsAt e of Some d \<Rightarrow> day_of d | None \<Rightarrow> local_day sp (be_createdAt e))"

definition one_off_day :: "tz_offset \<Rightarrow> 'a billable_expense_scheme \<Rightarrow> int" where
  "one_off_day sp e = local_day sp (case be_occurredAt e of Some d \<Rightarrow> d | None \<Rightarrow> be_createdAt e)"

definition within_life :: "tz_offset \<Rightarrow> 'a billable_expense_scheme \<Rightarrow> int \<Rightarrow> bool" where
  "within_life sp e n \<longleftrightarrow> start_day sp e \<le> n
     \<and> (case be_endsAt e of Some d \<Rightarrow> n \<le> day_of d | None \<Rightarrow> True)
     \<and> (case be_archivedAt e of Some d \<Rightarrow> n \<le> local_day sp d | None \<Rightarrow> True)"

definition charge_day :: "tz_offset \<Rightarrow> 'a billable_expense_scheme \<Rightarrow> int \<Rightarrow> bool" where
  "charge_day sp e n \<longleftrightarrow> \<not> be_isInvoice e \<and>
     (if be_frequency e = ''unica'' then n = one_off_day sp e
      else within_life sp e n \<and>
        (if be_frequency e = ''semanal'' then weekly_falls (start_day sp e) n
         else monthly_falls (be_dueDay e) (start_day sp e) n))"

text \<open>An expense whose dates are in the years the day keys can hold.\<close>

definition ok_expense :: "tz_offset \<Rightarrow> 'a billable_expense_scheme \<Rightarrow> bool" where
  "ok_expense sp e \<longleftrightarrow> ok_day (start_day sp e) \<and> ok_day (one_off_day sp e)
     \<and> (case be_endsAt e of Some d \<Rightarrow> roomy (day_of d) | None \<Rightarrow> True)
     \<and> (case be_archivedAt e of Some d \<Rightarrow> roomy (local_day sp d) | None \<Rightarrow> True)"

definition window_of :: "int \<Rightarrow> int \<Rightarrow> bool \<Rightarrow> cycle_window" where
  "window_of p c incl = \<lparr>w_periodStartKey = key p, w_closingKey = key c, w_includePeriodStart = incl\<rparr>"

definition first_day :: "int \<Rightarrow> bool \<Rightarrow> int" where
  "first_day p incl = (if incl then p else p + 1)"

definition upper_day :: "tz_offset \<Rightarrow> 'a billable_expense_scheme \<Rightarrow> int \<Rightarrow> int" where
  "upper_day sp e c =
     (let hi = (case be_endsAt e of Some d \<Rightarrow> min (day_of d) c | None \<Rightarrow> c) in
      case be_archivedAt e of Some d \<Rightarrow> min (local_day sp d) hi | None \<Rightarrow> hi)"

lemma window_lower_key: "ok_day p \<Longrightarrow> window_lower (window_of p c incl) = Inr (key (first_day p incl))"
  by (simp add: window_lower_def window_of_def first_day_def addDaysToKey_key)

lemma recurringStartKey_day: "ok_expense sp e \<Longrightarrow> recurringStartKey sp e = key (start_day sp e)"
  by (cases "be_startsAt e")
    (simp_all add: recurringStartKey_def start_day_def ok_expense_def local_day_def
      dayKeyOfDate_day dayKeyInSaoPaulo_key)

lemma oneOffKey_day: "ok_expense sp e \<Longrightarrow> oneOffKey sp e = key (one_off_day sp e)"
  by (simp add: oneOffKey_def one_off_day_def ok_expense_def local_day_def dayKeyInSaoPaulo_key)

lemma min_key_min: "ok_day a \<Longrightarrow> ok_day b \<Longrightarrow> min_key (key a) (key b) = key (min a b)"
  by (simp add: min_key_def compareDayKeys_signs min_def)

lemma upper_day_roomy: "ok_expense sp e \<Longrightarrow> roomy c \<Longrightarrow> roomy (upper_day sp e c)"
  by (auto simp: upper_day_def ok_expense_def Let_def min_def split: option.splits)

lemma recurring_upper_key:
  assumes "ok_expense sp e" "roomy c"
  shows "recurring_upper sp e (key c) = key (upper_day sp e c)"
proof (cases "be_endsAt e"; cases "be_archivedAt e")
  fix d d' assume "be_endsAt e = Some d" "be_archivedAt e = Some d'"
  moreover from this assms have "ok_day (min (day_of d) c)" by (auto simp: ok_expense_def min_def)
  ultimately show ?thesis
    using assms by (simp add: recurring_upper_def upper_day_def ok_expense_def dayKeyOfDate_day
        dayKeyInSaoPaulo_key local_day_def min_key_min Let_def)
qed (use assms in \<open>simp_all add: recurring_upper_def upper_day_def ok_expense_def dayKeyOfDate_day
        dayKeyInSaoPaulo_key local_day_def min_key_min Let_def\<close>)

lemma upper_day_bound:
  "n \<le> upper_day sp e c \<longleftrightarrow> n \<le> c \<and> (case be_endsAt e of Some d \<Rightarrow> n \<le> day_of d | None \<Rightarrow> True)
     \<and> (case be_archivedAt e of Some d \<Rightarrow> n \<le> local_day sp d | None \<Rightarrow> True)"
  by (auto simp: upper_day_def Let_def split: option.splits)

lemma charge_days_recurring:
  assumes "be_frequency e \<noteq> ''unica''" "\<not> be_isInvoice e"
  shows "days_of (charge_day sp e) lo c = days_of (\<lambda>n. start_day sp e \<le> n \<and>
    (if be_frequency e = ''semanal'' then weekly_falls (start_day sp e) n
     else monthly_falls (be_dueDay e) (start_day sp e) n)) lo (upper_day sp e c)"
  using assms by (auto simp: days_of_def charge_day_def within_life_def upper_day_bound)

lemma charge_occurrences_days:
  assumes "ok_expense sp e" "ok_day p" "ok_day (first_day p incl)" "roomy c"
  shows "chargeOccurrences sp e (window_of p c incl)
    = Inr (int (card (days_of (charge_day sp e) (first_day p incl) c)))"
proof -
  note lower = window_lower_key [OF assms(2), of c incl]
  have w: "w_closingKey (window_of p c incl) = key c" by (simp add: window_of_def)
  have s: "ok_day (start_day sp e)" "ok_day (one_off_day sp e)"
    using assms(1) by (simp_all add: ok_expense_def)
  note u = upper_day_roomy [OF assms(1,4)]
  consider "be_isInvoice e" | "\<not> be_isInvoice e" "be_frequency e = ''unica''"
    | "\<not> be_isInvoice e" "be_frequency e \<noteq> ''unica''" by blast
  then show ?thesis
  proof cases
    case 1
    then have "days_of (charge_day sp e) (first_day p incl) c = {}"
      by (auto simp: days_of_def charge_day_def)
    with 1 show ?thesis by (simp add: chargeOccurrences_def)
  next
    case 2
    then have "days_of (charge_day sp e) (first_day p incl) c
        = (if first_day p incl \<le> one_off_day sp e \<and> one_off_day sp e \<le> c then {one_off_day sp e} else {})"
      by (auto simp: days_of_def charge_day_def)
    with 2 s assms(3,4) show ?thesis
      by (simp add: chargeOccurrences_def lower w oneOffKey_day [OF assms(1)] compareDayKeys_signs)
  next
    case 3
    with s u assms(3,4) show ?thesis
      by (simp add: chargeOccurrences_def lower w recurringStartKey_day [OF assms(1)]
          recurring_upper_key [OF assms(1,4)] compareDayKeys_signs charge_days_recurring
          days_of_empty weekly_count monthly_count Let_def)
  qed
qed

section \<open>The worst case\<close>

lemma foldl_max_ge:
  fixes g :: "'a \<Rightarrow> int"
  shows "(x \<in> set xs \<longrightarrow> g x \<le> foldl (\<lambda>w i. max w (g i)) a xs) \<and> a \<le> foldl (\<lambda>w i. max w (g i)) a xs"
proof (induction xs arbitrary: a)
  case (Cons y ys)
  from this [of "max a (g y)"] show ?case by auto
qed simp

lemma worst_weekly_bound:
  assumes "ok_day lo" "ok_day (lo - 6)" "roomy hi"
  shows "\<exists>m. worst_weekly (key lo) (key hi) = Inr m \<and>
    (\<forall>a. int (card (days_of (\<lambda>n. a \<le> n \<and> weekly_falls a n) lo hi)) \<le> m)"
proof -
  define g where "g i = int (card (days_of (\<lambda>n. lo - i \<le> n \<and> weekly_falls (lo - i) n) lo hi))" for i
  have "worst_weekly (key lo) (key hi) = Inr (foldl (\<lambda>w i. max w (g i)) 0 [0..6])"
    unfolding worst_weekly_def
  proof (rule res_fold_all_ok)
    fix s i :: int assume "i \<in> set [0..6]"
    then have "ok_day (lo - i)" using assms(1,2) by (auto simp: ok_day_def)
    with assms show "res_bind (addDaysToKey (key lo) (- i)) (\<lambda>anchor.
        res_bind (countWeeklyOccurrences anchor (key lo) (key hi)) (\<lambda>c. Inr (max s c))) = Inr (max s (g i))"
      by (simp add: addDaysToKey_key weekly_count g_def)
  qed
  moreover have "int (card (days_of (\<lambda>n. a \<le> n \<and> weekly_falls a n) lo hi))
      \<le> foldl (\<lambda>w i. max w (g i)) 0 [0..6]" for a
  proof -
    define i where "i = (lo - a) mod 7"
    have i: "i \<in> set [0..6]" using pos_mod_bound [of 7 "lo - a"] by (simp add: i_def)
    have "weekly_falls (lo - i) n \<longleftrightarrow> weekly_falls a n" for n
    proof -
      have "(n - (lo - i)) mod 7 = ((n - a) - (lo - a) + i) mod 7" by (simp add: algebra_simps)
      also have "\<dots> = (n - a) mod 7"
        unfolding i_def by (metis diff_add_cancel mod_add_right_eq)
      finally show ?thesis by (simp add: weekly_falls_def)
    qed
    then have "card (days_of (\<lambda>n. a \<le> n \<and> weekly_falls a n) lo hi)
        \<le> card (days_of (\<lambda>n. lo - i \<le> n \<and> weekly_falls (lo - i) n) lo hi)"
      using i by (intro card_days_of_subset) auto
    with foldl_max_ge [of i "[0..6]" g 0] i show ?thesis by (simp add: g_def)
  qed
  ultimately show ?thesis by blast
qed

lemma january_anchor:
  assumes "ok_day lo" "1001 \<le> c_year (civil_of_day lo)" "1 \<le> d" "d \<le> 31"
  defines "a \<equiv> days_of_civil (Civil (c_year (civil_of_day lo) - 1) 0 d)"
  shows "formatDayKey (c_year (civil_of_day lo) - 1) 0 d = key a" "ok_day a" "a < lo"
    "c_day (civil_of_day a) = d"
proof -
  let ?c = "Civil (c_year (civil_of_day lo) - 1) 0 d"
  have v: "valid_civil ?c" using assms(3,4) by (simp add: valid_civil_def days_in_month_def days_before_month_def)
  have ok: "ok_civil ?c" using v assms(1,2) ok_civil_of_day [OF assms(1)] by (simp add: ok_civil_def)
  then show "formatDayKey (c_year (civil_of_day lo) - 1) 0 d = key a" "ok_day a"
    using formatDayKey_key [of "c_year (civil_of_day lo) - 1" 0 d] ok_day_of_civil [OF ok]
    by (simp_all add: a_def)
  have c: "civil_of_day a = ?c" using v by (simp add: a_def civil_of_days_of_civil)
  then show "c_day (civil_of_day a) = d" by simp
  have "civil_of_day a < civil_of_day lo" unfolding c by (simp add: less_civil_def)
  then show "a < lo" by (simp add: civil_of_day_less)
qed

lemma worst_monthly_bound:
  assumes "ok_day lo" "1001 \<le> c_year (civil_of_day lo)" "ok_day hi"
  shows "int (card (days_of (\<lambda>n. a \<le> n \<and> monthly_falls dueDay a n) lo hi)) \<le> worst_monthly (key lo) (key hi)"
proof -
  define d where "d = monthly_day dueDay a"
  define g where "g day = countMonthlyOccurrences (formatDayKey (c_year (civil_of_day lo) - 1) 0 day)
    (key lo) (key hi) None" for day
  have d: "1 \<le> d" "d \<le> 31"
    using valid_civil_bounds [OF valid_civil_of_day [of a]]
    by (auto simp: d_def monthly_day_def split: option.splits)
  note j = january_anchor [OF assms(1,2) d]
  let ?a = "days_of_civil (Civil (c_year (civil_of_day lo) - 1) 0 d)"
  have "card (days_of (\<lambda>n. a \<le> n \<and> monthly_falls dueDay a n) lo hi)
      \<le> card (days_of (\<lambda>n. ?a \<le> n \<and> monthly_falls None ?a n) lo hi)"
    using j by (intro card_days_of_subset) (auto simp: monthly_falls_def d_def monthly_day_def)
  then have "int (card (days_of (\<lambda>n. a \<le> n \<and> monthly_falls dueDay a n) lo hi)) \<le> g d"
    by (simp add: g_def j(1) monthly_count [OF j(2) assms(1,3)])
  also have "\<dots> \<le> worst_monthly (key lo) (key hi)"
    using foldl_max_ge [of d "[1..31]" g 0] d
    by (simp add: worst_monthly_def parseDayKey_key [OF assms(1)] g_def del: upto.simps)
  finally show ?thesis .
qed

section \<open>Properties\<close>

definition gym :: billable_expense where
  "gym = \<lparr>be_amount = 99.9, be_cardId = Some ''card-1'', be_isInvoice = False,
     be_frequency = ''mensal'', be_dueDay = Some 31, be_startsAt = Some (noon 20454),
     be_endsAt = None, be_occurredAt = None, be_createdAt = noon 20450, be_archivedAt = None,
     be_splits = [], be_obligationVersions = []\<rparr>"

lemma gym_ok: "ok_expense sao_paulo_standard gym"
  by code_simp

text \<open>C36. The number of charges of an expense in a billing window is the number of the days in
  the window on which the expense charges: its one-off day, the days a multiple of seven after
  its start, or its due day (clamped to the month) from its start to its end and archive day.\<close>

theorem charge_occurrences_count_days:
  assumes "ok_expense sp e" "ok_day p" "ok_day (first_day p incl)" "roomy c"
  shows "chargeOccurrences sp e (window_of p c incl)
    = Inr (int (card {n. first_day p incl \<le> n \<and> n \<le> c \<and> charge_day sp e n}))"
  using charge_occurrences_days [OF assms] by (simp add: days_of_def)

theorem charge_occurrences_count_days_witness:
  "chargeOccurrences sao_paulo_standard gym (window_of 20483 20542 False)
    = Inr (int (card {n. 20484 \<le> n \<and> n \<le> 20542 \<and> charge_day sao_paulo_standard gym n})) \<and>
   charge_day sao_paulo_standard gym 20484 \<and> charge_day sao_paulo_standard gym 20512"
proof -
  have "ok_day 20483" "ok_day (first_day 20483 False)" "roomy 20542" by code_simp+
  from charge_occurrences_count_days [OF gym_ok this]
  have "chargeOccurrences sao_paulo_standard gym (window_of 20483 20542 False)
    = Inr (int (card {n. 20484 \<le> n \<and> n \<le> 20542 \<and> charge_day sao_paulo_standard gym n}))"
    by (simp add: first_day_def)
  moreover have "charge_day sao_paulo_standard gym 20484" "charge_day sao_paulo_standard gym 20512"
    by code_simp+
  ultimately show ?thesis by blast
qed

text \<open>No charge is billed twice and none is lost between two invoices: the charges of two
  consecutive windows add up to the charges of the window that joins them.\<close>

theorem consecutive_windows_bill_once:
  assumes "ok_expense sp e" "ok_day p" "ok_day (first_day p incl)" "roomy m" "roomy c"
    and "first_day p incl \<le> m + 1" "m \<le> c"
  shows "\<exists>x y. chargeOccurrences sp e (window_of p m incl) = Inr x
    \<and> chargeOccurrences sp e (window_of m c False) = Inr y
    \<and> chargeOccurrences sp e (window_of p c incl) = Inr (x + y)"
proof -
  have "ok_day (first_day m False)" using roomy_near [OF assms(4), of "m + 1"] by (simp add: first_day_def)
  moreover have "first_day m False = m + 1" by (simp add: first_day_def)
  ultimately show ?thesis
    using assms card_days_of_split [OF assms(6,7), of "charge_day sp e"]
    by (simp add: charge_occurrences_days)
qed

theorem consecutive_windows_bill_once_witness:
  "\<exists>x y. chargeOccurrences sao_paulo_standard gym (window_of 20483 20512 True) = Inr x
    \<and> chargeOccurrences sao_paulo_standard gym (window_of 20512 20542 False) = Inr y
    \<and> chargeOccurrences sao_paulo_standard gym (window_of 20483 20542 True) = Inr (x + y)"
proof -
  have "ok_day 20483" "ok_day (first_day 20483 True)" "roomy 20512" "roomy 20542" by code_simp+
  from consecutive_windows_bill_once [OF gym_ok this] show ?thesis
    by (simp add: first_day_def)
qed

lemma worst_case_bound:
  assumes "ok_expense sp e" "ok_day p" "ok_day (first_day p incl)" "ok_day (first_day p incl - 6)"
    and "1001 \<le> c_year (civil_of_day (first_day p incl))" "roomy c" "first_day p incl \<le> c"
    and "be_frequency e \<in> {''unica'', ''mensal'', ''semanal''}"
  shows "\<exists>m. worstCaseChargesInWindow (be_frequency e) (window_of p c incl) = Inr m
    \<and> int (card (days_of (charge_day sp e) (first_day p incl) c)) \<le> m"
proof -
  let ?f = "first_day p incl"
  note lower = window_lower_key [OF assms(2), of c incl]
  have w: "w_closingKey (window_of p c incl) = key c" by (simp add: window_of_def)
  have le: "\<not> compareDayKeys (key ?f) (key c) > 0"
    using assms(3,6,7) by (simp add: compareDayKeys_signs)
  consider "be_frequency e = ''unica''" | "be_frequency e = ''mensal''" | "be_frequency e = ''semanal''"
    using assms(8) by blast
  then show ?thesis
  proof cases
    case 1
    then have "days_of (charge_day sp e) ?f c \<subseteq> {one_off_day sp e}"
      by (auto simp: days_of_def charge_day_def)
    then have "card (days_of (charge_day sp e) ?f c) \<le> 1"
      using card_mono [of "{one_off_day sp e}"] by fastforce
    with 1 show ?thesis by (simp add: worstCaseChargesInWindow_def)
  next
    case 2
    have "card (days_of (charge_day sp e) ?f c)
        \<le> card (days_of (\<lambda>n. start_day sp e \<le> n \<and> monthly_falls (be_dueDay e) (start_day sp e) n) ?f c)"
      using 2 by (intro card_days_of_subset) (auto simp: charge_day_def within_life_def)
    with worst_monthly_bound [OF assms(3,5) roomy_ok [OF assms(6)]] 2 le show ?thesis
      by (simp add: worstCaseChargesInWindow_def lower w) (meson dual_order.trans of_nat_mono)
  next
    case 3
    have "card (days_of (charge_day sp e) ?f c)
        \<le> card (days_of (\<lambda>n. start_day sp e \<le> n \<and> weekly_falls (start_day sp e) n) ?f c)"
      using 3 by (intro card_days_of_subset) (auto simp: charge_day_def within_life_def)
    with worst_weekly_bound [OF assms(3,4,6)] 3 le show ?thesis
      by (simp add: worstCaseChargesInWindow_def lower w) (meson dual_order.trans of_nat_mono)
  qed
qed

text \<open>The worst case that the card limit check reserves for a window is never too small:
  no expense of that frequency, whatever its weekday, due day or start, charges more often in
  the window.\<close>

theorem worst_case_is_enough:
  assumes "ok_expense sp e" "ok_day p" "ok_day (first_day p incl)" "ok_day (first_day p incl - 6)"
    and "1001 \<le> c_year (civil_of_day (first_day p incl))" "roomy c" "first_day p incl \<le> c"
    and "be_frequency e \<in> {''unica'', ''mensal'', ''semanal''}"
  shows "\<exists>n m. chargeOccurrences sp e (window_of p c incl) = Inr n
    \<and> worstCaseChargesInWindow (be_frequency e) (window_of p c incl) = Inr m \<and> n \<le> m"
  using charge_occurrences_days [OF assms(1-3,6)] worst_case_bound [OF assms] by auto

theorem worst_case_is_enough_witness:
  "\<exists>n m. chargeOccurrences sao_paulo_standard gym (window_of 20483 20542 True) = Inr n
    \<and> worstCaseChargesInWindow ''mensal'' (window_of 20483 20542 True) = Inr m \<and> n \<le> m"
proof -
  have "ok_day 20483" "ok_day (first_day 20483 True)" "ok_day (first_day 20483 True - 6)"
    "1001 \<le> c_year (civil_of_day (first_day 20483 True))" "roomy 20542"
    by code_simp+
  from worst_case_is_enough [OF gym_ok this] show ?thesis
    by (simp add: first_day_def gym_def)
qed

end
