(* ===== verification/Month_Keys.thy ===== *)
theory Month_Keys
  imports Billing_Calendar
begin

text \<open>
  Month strings (\<open>YYYY-MM\<close>), the first seven characters of a day key: the program compares
  them, appends \<open>-01\<close> to them and takes them apart again. They are the months of the theory
  \<open>Months\<close>, printed; string order is the order of the months.
\<close>

definition month_key :: "int \<Rightarrow> string" where
  "month_key M = fixed4 (M div 12) @ ''-'' @ fixed2 (M mod 12 + 1)"

lemma month_fields:
  assumes "ok_month M"
  shows "0 \<le> M div 12" "M div 12 < 10000" "0 \<le> M mod 12 + 1" "M mod 12 + 1 < 100"
  using ok_monthD [OF assms] month_mod_range [of M] by auto

lemma key_month [key_simps]:
  assumes "ok_day n"
  shows "key n = month_key (month_idx n) @ ''-'' @ fixed2 (c_day (civil_of_day n))"
  using formatDayKey_fixed [OF ok_civil_of_day [OF assms]]
  by (simp add: key_civil month_key_def month_idx_split)

lemma length_month_key [simp]: "length (month_key M) = 7"
  by (simp add: month_key_def)

lemma take_key [key_simps]: "ok_day n \<Longrightarrow> take 7 (key n) = month_key (month_idx n)"
  by (simp add: key_month)

lemma month_key_less [key_simps]:
  assumes "ok_month M" "ok_month N"
  shows "month_key M < month_key N \<longleftrightarrow> M < N"
proof -
  note m = month_fields [OF assms(1)] and n = month_fields [OF assms(2)]
  have "fixed2 (M mod 12 + 1) < fixed2 (N mod 12 + 1) \<longleftrightarrow> M mod 12 + 1 < N mod 12 + 1"
    using fixed2_less [OF m(3,4) n(3,4), of "[]" "[]"] by simp
  then show ?thesis
    using less_by_div_mod [of 12 M N] by (auto simp: month_key_def fixed4_less [OF m(1,2) n(1,2)])
qed

lemma month_key_le [key_simps]:
  "ok_month M \<Longrightarrow> ok_month N \<Longrightarrow> month_key M \<le> month_key N \<longleftrightarrow> M \<le> N"
  by (simp add: month_key_less linorder_not_less [symmetric])

lemma month_key_eq [key_simps]:
  "ok_month M \<Longrightarrow> ok_month N \<Longrightarrow> month_key M = month_key N \<longleftrightarrow> M = N"
  by (metis month_key_less less_irrefl linorder_neqE)

lemma month_key_day_1 [key_simps]: "ok_month M \<Longrightarrow> month_key M @ ''-01'' = key (due_on 1 M)"
proof -
  assume M: "ok_month M"
  have "c_day (civil_of_day (due_on 1 M)) = 1"
    using days_in_month_range [of "M mod 12" "M div 12"] month_mod_range [of M]
    by (simp add: due_on_civil(1) [OF M])
  moreover have "fixed2 1 = ''01''" by code_simp
  ultimately show ?thesis
    by (simp add: key_month due_on_civil [OF M])
qed

lemma due_on_1_le:
  assumes "ok_day n"
  shows "due_on 1 (month_idx n) \<le> n"
proof -
  note M = ok_month_idx [OF assms]
  have "\<not> civil_of_day n < civil_of_day (due_on 1 (month_idx n))"
    using valid_civil_bounds [OF valid_civil_of_day [of n]]
    by (auto simp: less_civil_def due_on_civil(1) [OF M] month_idx_split)
  then show ?thesis by (simp add: civil_of_day_less)
qed

lemma month_of_day:
  assumes "due_on 1 M \<le> n" "n < due_on 1 (M + 1)" "ok_month M" "ok_month (M + 1)"
  shows "month_idx n = M"
proof -
  have n: "ok_day n"
    using assms due_on_civil(2) [OF assms(3), of 1] due_on_civil(2) [OF assms(4), of 1]
    by (simp add: ok_day_def)
  have "M \<le> month_idx n" using month_idx_mono [OF assms(1)] by (simp add: due_on_civil(3) assms(3))
  moreover have "\<not> M + 1 \<le> month_idx n"
  proof
    assume le: "M + 1 \<le> month_idx n"
    then have "due_on 1 (M + 1) \<le> due_on 1 (month_idx n)"
      using due_on_less [OF assms(4) ok_month_idx [OF n], of 1] by (cases "M + 1 = month_idx n") auto
    with due_on_1_le [OF n] assms(2) show False by simp
  qed
  ultimately show ?thesis by simp
qed

lemma before_next_month: "ok_month (month_idx n + 1) \<Longrightarrow> n < due_on 1 (month_idx n + 1)"
  by (rule due_on_after) simp_all

text \<open>Taking a month string apart.\<close>

lemma split_on_no_sep: "c \<notin> set xs \<Longrightarrow> split_on c xs = [xs]"
  by (induction xs) auto

lemma split_on_append: "c \<notin> set xs \<Longrightarrow> split_on c (xs @ c # ys) = xs # split_on c ys"
  by (induction xs) auto

lemma digits_no_dash: "0 \<le> v \<Longrightarrow> v < 100 \<Longrightarrow> CHR ''-'' \<notin> set (fixed2 v)"
proof -
  assume "0 \<le> v" "v < 100"
  then have "nat (v div 10) < 10" "nat (v mod 10) < 10" by auto
  from this [THEN digit_char_not_dash] show ?thesis by (metis fixed2_def list.set_intros(1) set_ConsD empty_iff empty_set)
qed

lemma digits4_no_dash: "0 \<le> v \<Longrightarrow> v < 10000 \<Longrightarrow> CHR ''-'' \<notin> set (fixed4 v)"
  using digits_no_dash [of "v div 100"] digits_no_dash [of "v mod 100"] by (auto simp: fixed4_def)

lemma split_month_key:
  assumes "ok_month M"
  shows "split_on (CHR ''-'') (month_key M) = [fixed4 (M div 12), fixed2 (M mod 12 + 1)]"
  using month_fields [OF assms]
  by (simp add: month_key_def split_on_append split_on_no_sep digits_no_dash digits4_no_dash)

lemma month_key_parts:
  assumes "ok_month M"
  shows "digits_val (part_at (split_on (CHR ''-'') (month_key M)) 0) = M div 12"
    "digits_val (part_at (split_on (CHR ''-'') (month_key M)) 1) = M mod 12 + 1"
  using month_fields [OF assms]
  by (simp_all add: split_month_key [OF assms] part_at_def digits_val_fixed2 digits_val_fixed4)

lemma pad_month:
  assumes "ok_month M"
  shows "pad (M div 12) 4 @ ''-'' @ pad (M mod 12 + 1) 2 = month_key M"
  using month_fields [OF assms] ok_monthD [OF assms]
  by (simp add: pad_def month_key_def pad_fixed4 pad_fixed2)

end
