(* ===== verification/Charge_Amounts.thy ===== *)
theory Charge_Amounts
  imports Charge_Days Month_Keys
begin

text \<open>
  How much an expense charges a card. Under the precision the database keeps (whole cents, ten
  integer digits) the decimal arithmetic is exact: the amount of a window is the sum, over the
  days on which the expense charges, of the card's share under the terms in force in that
  month. The loop of \<open>chargeAmountDecimal\<close> over the months of a window is shown to compute this
  sum and never to run out of its fuel.
\<close>

section \<open>Shares\<close>

definition stored_amount :: "rat \<Rightarrow> bool" where
  "stored_amount a \<longleftrightarrow> cents a \<and> 0 \<le> a \<and> a \<le> 9999999999.99"

definition stored_splits :: "billable_split list \<Rightarrow> bool" where
  "stored_splits splits \<longleftrightarrow> length splits \<le> 100 \<and> list_all (\<lambda>s. stored_amount (bs_amount s)) splits"

definition split_total :: "(billable_split \<Rightarrow> bool) \<Rightarrow> billable_split list \<Rightarrow> rat" where
  "split_total P splits = sum_list (map bs_amount (filter P splits))"

lemma stored_splits_filter: "stored_splits splits \<Longrightarrow> stored_splits (filter P splits)"
  using length_filter_le [of P splits] by (auto simp: stored_splits_def list_all_iff simp del: length_filter_le)

lemma stored_splits_sum:
  assumes "stored_splits splits"
  shows "cents (sum_list (map bs_amount splits))" "0 \<le> sum_list (map bs_amount splits)"
    "sum_list (map bs_amount splits) \<le> 10 ^ 12"
proof -
  have a: "cents a \<and> 0 \<le> a \<and> a \<le> 10 ^ 10" if "a \<in> set (map bs_amount splits)" for a
    using assms that by (auto simp: stored_splits_def stored_amount_def list_all_iff)
  then show "cents (sum_list (map bs_amount splits))" by (intro on_grid_sum_list) blast
  show "0 \<le> sum_list (map bs_amount splits)" using a by (intro sum_list_nonneg) blast
  have "sum_list xs \<le> of_nat (length xs) * 10 ^ 10" if "\<forall>a \<in> set xs. a \<le> 10 ^ 10" for xs :: "rat list"
    using that by (induction xs) (auto simp: algebra_simps)
  from this [of "map bs_amount splits"] a
  have "sum_list (map bs_amount splits) \<le> of_nat (length splits) * 10 ^ 10" by simp
  also have "\<dots> \<le> 100 * 10 ^ 10"
    using assms by (intro mult_right_mono) (simp_all add: stored_splits_def)
  finally show "sum_list (map bs_amount splits) \<le> 10 ^ 12" by simp
qed

context decimal_arith
begin

lemma sum_amounts_exact:
  assumes "stored_splits splits"
  shows "sum_amounts D splits = sum_list (map bs_amount splits)"
proof -
  have fold: "foldl (\<lambda>acc s. dec_plus D acc (bs_amount s)) a splits = foldl (dec_plus D) a (map bs_amount splits)"
    for a by (induction splits arbitrary: a) auto
  have nonneg: "\<forall>a \<in> set (map bs_amount splits). 0 \<le> a \<and> cents a"
    using assms by (auto simp: stored_splits_def stored_amount_def list_all_iff)
  then have "map abs (map bs_amount splits) = map bs_amount splits"
    by (intro map_idI) auto
  then have "sum_list (map abs (map bs_amount splits)) \<le> 10 ^ 12"
    using stored_splits_sum(3) [OF assms] by (simp only:)
  then have "foldl (dec_plus D) 0 (map bs_amount splits) = 0 + sum_list (map bs_amount splits)"
    using nonneg by (intro foldl_plus_exact [of _ 2]) auto
  then show ?thesis by (simp add: sum_amounts_def fold)
qed

lemma card_share_exact:
  assumes "stored_splits (be_splits e)"
  shows "splitShareFor D e (TCard cid) =
    (if \<exists>s \<in> set (be_splits e). bs_kind s = ''card'' \<and> bs_cardId s = Some cid
     then split_total (\<lambda>s. bs_kind s = ''card'' \<and> bs_cardId s = Some cid) (be_splits e)
     else if be_cardId e = Some cid then be_amount e else 0)"
  using sum_amounts_exact [OF stored_splits_filter [OF assms]]
  by (auto simp: splitShareFor_def Let_def split_total_def filter_empty_conv)

lemma card_share_bounds:
  assumes "stored_splits (be_splits e)" "stored_amount (be_amount e)"
  shows "cents (splitShareFor D e (TCard cid))" "0 \<le> splitShareFor D e (TCard cid)"
    "splitShareFor D e (TCard cid) \<le> 10 ^ 12"
  using assms(2) stored_splits_sum [OF stored_splits_filter [OF assms(1)]]
  unfolding card_share_exact [OF assms(1)] by (auto simp: split_total_def stored_amount_def)

lemma pix_share_exact:
  assumes "stored_splits (be_splits e)"
  shows "splitShareFor D e TPix =
    (if be_splits e \<noteq> [] then split_total (\<lambda>s. bs_kind s = ''pix'') (be_splits e)
     else if truthy (be_cardId e) then 0 else be_amount e)"
  using sum_amounts_exact [OF stored_splits_filter [OF assms]]
  by (simp add: splitShareFor_def Let_def split_total_def)

text \<open>A share charged a number of times.\<close>

lemma mul_count_exact:
  assumes "cents a" "0 \<le> a" "a \<le> 10 ^ 12" "n \<le> 100000"
  shows "dec_mul D a (of_nat n) = a * of_nat n"
proof -
  have "a * of_nat n \<le> 10 ^ 12 * 100000"
    using assms by (intro mult_mono) simp_all
  then have "\<bar>a * of_nat n\<bar> < 10 ^ 18" using assms(2) by simp
  with on_grid_mult_of_nat [OF assms(1)] show ?thesis by (intro mul_exact cents_fits20)
qed

end

section \<open>The loop over the months of a window\<close>

definition version_share ::
    "decimal_lib \<Rightarrow> 'a billable_expense_scheme \<Rightarrow> string \<Rightarrow> int \<Rightarrow> rat" where
  "version_share D e cid M =
     (case active_version (be_obligationVersions e) (month_key M) of
        None \<Rightarrow> 0
      | Some v \<Rightarrow> splitShareFor D (with_terms e v) (TCard cid))"

definition stored_version :: "obligation_version \<Rightarrow> bool" where
  "stored_version v \<longleftrightarrow> stored_amount (ov_amount v) \<and> stored_splits (ov_splits v)"

lemma active_version_in:
  "active_version vs m = Some v \<Longrightarrow> v \<in> set vs \<and> ov_effectiveMonth v \<le> m"
proof -
  assume a: "active_version vs m = Some v"
  let ?l = "sort_key (\<lambda>v. - ov_sequence v) (filter (\<lambda>v. ov_effectiveMonth v \<le> m) vs)"
  have "v \<in> set ?l" using a unfolding active_version_def by (cases ?l) auto
  then show ?thesis by simp
qed

lemma active_version_max:
  assumes "active_version vs m = Some v" "v' \<in> set vs" "ov_effectiveMonth v' \<le> m"
  shows "ov_sequence v' \<le> ov_sequence v"
proof -
  let ?l = "sort_key (\<lambda>v. - ov_sequence v) (filter (\<lambda>v. ov_effectiveMonth v \<le> m) vs)"
  have "v' \<in> set ?l" using assms(2,3) by simp
  moreover have "sorted (map (\<lambda>v. - ov_sequence v) ?l)" by simp
  moreover have "\<exists>ys. ?l = v # ys" using assms(1) unfolding active_version_def by (cases ?l) auto
  ultimately show ?thesis by (metis (no_types, lifting) add.inverse_inverse le_minus_iff
      list.simps(9) minus_minus neg_le_iff_le order_refl set_ConsD sorted_simps(2) imageI list.set_map)
qed

lemma active_version_None: "active_version vs m = None \<longleftrightarrow> (\<forall>v \<in> set vs. \<not> ov_effectiveMonth v \<le> m)"
proof -
  let ?l = "sort_key (\<lambda>v. - ov_sequence v) (filter (\<lambda>v. ov_effectiveMonth v \<le> m) vs)"
  have "active_version vs m = None \<longleftrightarrow> ?l = []"
    unfolding active_version_def by (cases ?l) simp_all
  also have "\<dots> \<longleftrightarrow> filter (\<lambda>v. ov_effectiveMonth v \<le> m) vs = []"
    by (metis length_0_conv length_sort)
  finally show ?thesis by (auto simp: filter_empty_conv)
qed

lemma with_terms_sel [simp]:
  "be_isInvoice (with_terms e v) = be_isInvoice e" "be_frequency (with_terms e v) = be_frequency e"
  "be_dueDay (with_terms e v) = be_dueDay e" "be_amount (with_terms e v) = ov_amount v"
  "be_cardId (with_terms e v) = ov_cardId v" "be_splits (with_terms e v) = ov_splits v"
  by (simp_all add: with_terms_def)

lemma with_terms_dates [simp]:
  "start_day sp (with_terms e v) = start_day sp e" "one_off_day sp (with_terms e v) = one_off_day sp e"
  by (cases "be_startsAt e"; simp add: with_terms_def start_day_def)
    (cases "be_occurredAt e"; simp add: with_terms_def one_off_day_def)

lemma with_terms_life [simp]: "within_life sp (with_terms e v) = within_life sp e"
  unfolding within_life_def with_terms_dates by (simp add: with_terms_def)

lemma with_terms_days [simp]:
  "charge_day sp (with_terms e v) = charge_day sp e"
  "ok_expense sp (with_terms e v) = ok_expense sp e"
  unfolding charge_day_def ok_expense_def with_terms_dates with_terms_life with_terms_sel
  by (simp_all add: with_terms_def)

lemma first_of_next_month_key:
  assumes "ok_month M" "ok_month (M + 1)"
  shows "first_of_next_month (month_key M) = key (due_on 1 (M + 1))"
proof -
  note parts = month_key_parts [OF assms(1), unfolded One_nat_def]
  have nxt: "((M + 1) div 12, (M + 1) mod 12) = (if M mod 12 + 1 > 11 then (M div 12 + 1, 0) else (M div 12, M mod 12 + 1))"
    unfolding next_month_idx [of M, symmetric] next_month_def by simp
  have one: "pad 1 2 = ''01''" by code_simp
  show ?thesis
  proof (cases "M mod 12 = 11")
    case True
    with nxt have n: "(M + 1) div 12 = M div 12 + 1" "(M + 1) mod 12 = 0" by simp_all
    from pad_month [OF assms(2)] have "pad (M div 12 + 1) 4 @ ''-01'' = month_key (M + 1)"
      by (simp add: n one)
    then have "pad (M div 12 + 1) 4 @ ''-01-01'' = month_key (M + 1) @ ''-01''"
      by (metis append_Cons append_Nil append_assoc)
    with True month_key_day_1 [OF assms(2)] show ?thesis
      by (simp add: first_of_next_month_def parts)
  next
    case False
    with nxt month_mod_range [of M] have n: "(M + 1) div 12 = M div 12" "(M + 1) mod 12 = M mod 12 + 1"
      by (simp_all split: if_splits)
    have two: "2 + M mod 12 = M mod 12 + 1 + 1" by simp
    have "pad (M div 12) 4 @ ''-'' @ pad (2 + M mod 12) 2 = month_key (M + 1)"
      using pad_month [OF assms(2), unfolded n] by (simp only: two)
    moreover have "M mod 12 + 1 \<noteq> 12" using False by simp
    ultimately show ?thesis
      using month_key_day_1 [OF assms(2), symmetric]
      by (simp add: first_of_next_month_def parts)
  qed
qed

text \<open>The part of a window that lies in the month of its first day.\<close>

definition month_piece :: "int \<Rightarrow> int \<Rightarrow> int" where
  "month_piece cur c = min (due_on 1 (month_idx cur + 1) - 1) c"

lemma month_piece:
  assumes "ok_day cur" "ok_month (month_idx cur + 1)" "cur \<le> c"
  shows "cur \<le> month_piece cur c" "month_piece cur c \<le> c"
    "\<And>n. cur \<le> n \<Longrightarrow> n \<le> month_piece cur c \<Longrightarrow> month_idx n = month_idx cur"
    "month_piece cur c < c \<Longrightarrow> month_idx (month_piece cur c + 1) = month_idx cur + 1"
proof -
  show "cur \<le> month_piece cur c" "month_piece cur c \<le> c"
    using before_next_month [OF assms(2)] assms(3) by (auto simp: month_piece_def)
  fix n assume "cur \<le> n" "n \<le> month_piece cur c"
  then show "month_idx n = month_idx cur"
    using due_on_1_le [OF assms(1)] ok_month_idx [OF assms(1)] assms(2)
    by (intro month_of_day) (auto simp: month_piece_def)
next
  assume "month_piece cur c < c"
  then show "month_idx (month_piece cur c + 1) = month_idx cur + 1"
    by (simp add: month_piece_def min_def due_on_civil(3) [OF assms(2)] split: if_splits)
qed

definition share_on :: "decimal_lib \<Rightarrow> 'a billable_expense_scheme \<Rightarrow> string \<Rightarrow> int \<Rightarrow> rat" where
  "share_on D e cid n = version_share D e cid (month_idx n)"

lemma sum_share_split:
  assumes "cur \<le> mid" "mid \<le> c"
  shows "(\<Sum>n \<in> days_of P cur c. f n) = (\<Sum>n \<in> days_of P cur mid. f n) + (\<Sum>n \<in> days_of P (mid + 1) c. f n)"
proof -
  have "days_of P cur c = days_of P cur mid \<union> days_of P (mid + 1) c"
    using assms by (auto simp: days_of_def)
  moreover have "days_of P cur mid \<inter> days_of P (mid + 1) c = {}" by (auto simp: days_of_def)
  ultimately show ?thesis by (simp add: sum.union_disjoint)
qed

lemma card_days_of_le: "lo \<le> hi + 1 \<Longrightarrow> int (card (days_of P lo hi)) \<le> hi - lo + 1"
  using card_mono [of "{lo..hi}" "days_of P lo hi"] by (fastforce simp: days_of_def)

text \<open>The worst case of a window is at most one charge a day.\<close>

lemma foldl_max_le:
  fixes g :: "'a \<Rightarrow> int"
  shows "\<forall>x \<in> set xs. g x \<le> b \<Longrightarrow> a \<le> b \<Longrightarrow> foldl (\<lambda>w i. max w (g i)) a xs \<le> b"
  by (induction xs arbitrary: a) auto

lemma worst_weekly_le:
  assumes "ok_day lo" "ok_day (lo - 6)" "roomy hi" "lo \<le> hi"
  shows "\<exists>m. worst_weekly (key lo) (key hi) = Inr m \<and> m \<le> hi - lo + 1"
proof -
  define g where "g i = int (card (days_of (\<lambda>n. lo - i \<le> n \<and> weekly_falls (lo - i) n) lo hi))" for i
  have "worst_weekly (key lo) (key hi) = Inr (foldl (\<lambda>w i. max w (g i)) 0 [0..6])"
    unfolding worst_weekly_def
  proof (rule res_fold_all_ok)
    fix s i :: int assume "i \<in> set [0..6]"
    then have "ok_day (lo - i)" using assms(1,2) by (auto simp: ok_day_def)
    with assms show "res_bind (addDaysToKey (key lo) (- i)) (\<lambda>anchor.
        res_bind (countWeeklyOccurrences anchor (key lo) (key hi)) (\<lambda>c. Inr (max s c))) = Inr (max s (g i))"
      by (simp add: addDaysToKey_key weekly_count g_def)
  qed
  moreover have "foldl (\<lambda>w i. max w (g i)) 0 [0..6] \<le> hi - lo + 1"
    using card_days_of_le assms(4) by (intro foldl_max_le) (auto simp: g_def)
  ultimately show ?thesis by blast
qed

lemma worst_monthly_le:
  assumes "ok_day lo" "1001 \<le> c_year (civil_of_day lo)" "ok_day hi" "lo \<le> hi"
  shows "worst_monthly (key lo) (key hi) \<le> hi - lo + 1"
proof -
  have "countMonthlyOccurrences (formatDayKey (c_year (civil_of_day lo) - 1) 0 d) (key lo) (key hi) None \<le> hi - lo + 1"
    if "d \<in> set [1..31]" for d
  proof -
    from that have d: "1 \<le> d" "d \<le> 31" by auto
    note j = january_anchor [OF assms(1,2) d]
    show ?thesis unfolding j(1) monthly_count [OF j(2) assms(1,3)] using assms(4) by (intro card_days_of_le) simp
  qed
  then show ?thesis
    unfolding worst_monthly_def parseDayKey_key [OF assms(1)] option.case using assms(4)
    by (intro foldl_max_le) (auto simp del: upto.simps)
qed

context decimal_arith
begin

lemma version_share_bounds:
  assumes "list_all stored_version (be_obligationVersions e)"
  shows "cents (version_share D e cid M)" "0 \<le> version_share D e cid M" "version_share D e cid M \<le> 10 ^ 12"
proof -
  have b: "cents (splitShareFor D (with_terms e v) (TCard cid)) \<and>
      0 \<le> splitShareFor D (with_terms e v) (TCard cid) \<and>
      splitShareFor D (with_terms e v) (TCard cid) \<le> 10 ^ 12"
    if "active_version (be_obligationVersions e) m = Some v" for v m
    using card_share_bounds [of "with_terms e v" cid] assms active_version_in [OF that]
    by (auto simp: stored_version_def list_all_iff)
  show "cents (version_share D e cid M)" "0 \<le> version_share D e cid M" "version_share D e cid M \<le> 10 ^ 12"
    using b by (auto simp: version_share_def split: option.split)
qed

text \<open>What one iteration adds for the charges of its piece.\<close>

lemma version_step:
  assumes "ok_expense sp e" "list_all stored_version (be_obligationVersions e)"
    and "ok_day cur" "ok_day (cur - 1)" "roomy hi" "cur \<le> hi" "hi - cur < 100000"
    and "\<And>n. cur \<le> n \<Longrightarrow> n \<le> hi \<Longrightarrow> month_idx n = month_idx cur"
    and "cents acc" "0 \<le> acc" "acc < 10 ^ 17"
  shows "(case active_version (be_obligationVersions e) (month_key (month_idx cur)) of
       None \<Rightarrow> Inr acc
     | Some active \<Rightarrow>
         res_bind (addDaysToKey (key cur) (-1)) (\<lambda>before.
         res_bind (chargeOccurrences sp (with_terms e active)
             \<lparr>w_periodStartKey = before, w_closingKey = key hi, w_includePeriodStart = False\<rparr>)
           (\<lambda>occurrences.
         Inr (if occurrences \<noteq> 0
              then dec_plus D acc (dec_mul D (splitShareFor D (with_terms e active) (TCard cid)) (of_int occurrences))
              else acc))))
    = Inr (acc + (\<Sum>n \<in> days_of (charge_day sp e) cur hi. share_on D e cid n))"
proof -
  have "(\<Sum>n \<in> days_of (charge_day sp e) cur hi. share_on D e cid n)
      = (\<Sum>n \<in> days_of (charge_day sp e) cur hi. version_share D e cid (month_idx cur))"
  proof (rule sum.cong [OF refl])
    fix n assume "n \<in> days_of (charge_day sp e) cur hi"
    then have "month_idx n = month_idx cur" by (intro assms(8)) (auto simp: days_of_def)
    then show "share_on D e cid n = version_share D e cid (month_idx cur)" by (simp add: share_on_def)
  qed
  then have sum: "(\<Sum>n \<in> days_of (charge_day sp e) cur hi. share_on D e cid n)
      = of_nat (card (days_of (charge_day sp e) cur hi)) * version_share D e cid (month_idx cur)"
    by simp
  show ?thesis
  proof (cases "active_version (be_obligationVersions e) (month_key (month_idx cur))")
    case None
    then have "version_share D e cid (month_idx cur) = 0" by (simp add: version_share_def)
    with None show ?thesis unfolding sum by simp
  next
    case (Some v)
    then have vs: "version_share D e cid (month_idx cur) = splitShareFor D (with_terms e v) (TCard cid)"
      by (simp add: version_share_def)
    note b = version_share_bounds [OF assms(2), of cid "month_idx cur", unfolded vs]
    let ?k = "card (days_of (charge_day sp e) cur hi)" and ?s = "splitShareFor D (with_terms e v) (TCard cid)"
    have occ: "chargeOccurrences sp (with_terms e v)
        \<lparr>w_periodStartKey = key (cur - 1), w_closingKey = key hi, w_includePeriodStart = False\<rparr> = Inr (int ?k)"
      using charge_occurrences_days [of sp "with_terms e v" "cur - 1" False hi] assms(1,3-5)
      by (simp add: window_of_def first_day_def)
    have k: "?k \<le> 100000"
      using card_days_of_le [of cur hi "charge_day sp e"] assms(6,7) by simp
    have "?s * of_nat ?k \<le> 10 ^ 12 * 100000" using b k by (intro mult_mono) simp_all
    then have "acc + ?s * of_nat ?k < 10 ^ 18" using assms(11) by simp
    moreover have "cents (?s * of_nat ?k)" "0 \<le> ?s * of_nat ?k"
      using b by (simp_all add: on_grid_mult_of_nat)
    ultimately have "dec_plus D acc (dec_mul D ?s (of_nat ?k)) = acc + ?s * of_nat ?k"
      using assms(9,10) by (simp add: mul_count_exact [OF b k] plus_cents)
    with Some occ assms(3) show ?thesis
      unfolding sum vs by (simp add: addDaysToKey_key mult.commute)
  qed
qed

lemma versioned_loop_spec:
  assumes "ok_expense sp e" "list_all stored_version (be_obligationVersions e)"
    and "ok_day (lo - 40)" "roomy c" "ok_month (month_idx c + 1)" "c - lo < 50000"
    and "lo \<le> cur" "cur \<le> c + 1" "cents acc" "0 \<le> acc" "acc \<le> 10 ^ 12 * of_int (cur - lo)"
    and "0 < fuel" "cur \<le> c \<Longrightarrow> month_idx c - month_idx cur + 1 < int fuel"
  shows "versioned_loop D sp fuel e cid (key c) (key cur) acc
    = Inr (acc + (\<Sum>n \<in> days_of (charge_day sp e) cur c. share_on D e cid n))"
  using assms(7-)
proof (induction fuel arbitrary: cur acc)
  case (Suc i)
  have ok: "ok_day cur" "ok_day (cur - 1)" "ok_day (cur - 40)"
    using Suc.prems(1,2) assms(3,4) by (auto simp: roomy_def ok_day_def)
  show ?case
  proof (cases "cur \<le> c")
    case False
    with ok assms(4) show ?thesis by (simp add: compareDayKeys_signs days_of_empty)
  next
    case True
    have nm: "ok_month (month_idx cur + 1)"
      using ok_month_idx [OF ok(1)] assms(5) month_idx_mono [OF True] by (simp add: ok_month_def)
    define hi where "hi = month_piece cur c"
    note piece = month_piece [OF ok(1) nm True, folded hi_def]
    have hi: "roomy hi" "ok_day (hi + 1)"
      using piece(1,2) ok(3) assms(4) by (auto simp: roomy_def ok_day_def)
    have end': "addDaysToKey (first_of_next_month (month_key (month_idx cur))) (-1)
        = Inr (key (due_on 1 (month_idx cur + 1) - 1))"
      using first_of_next_month_key [OF ok_month_idx [OF ok(1)] nm] due_on_civil(2) [OF nm]
      by (simp add: addDaysToKey_key)
    have me: "ok_day (due_on 1 (month_idx cur + 1) - 1)"
      using due_on_civil(2) [OF nm, of 1] before_next_month [OF nm] ok by (auto simp: ok_day_def)
    have pick: "(if compareDayKeys (key (due_on 1 (month_idx cur + 1) - 1)) (key c) < 0
        then key (due_on 1 (month_idx cur + 1) - 1) else key c) = key hi"
      using me assms(4) by (auto simp: compareDayKeys_signs hi_def month_piece_def min_def)
    let ?S = "\<Sum>n \<in> days_of (charge_day sp e) cur hi. share_on D e cid n"
    have "acc \<le> 10 ^ 12 * 50001" using Suc.prems(2,5) assms(6)
      by (auto elim!: order_trans simp: algebra_simps)
    then have acc: "acc < 10 ^ 17" by simp
    note step = version_step [OF assms(1,2) ok(1,2) hi(1) piece(1) _ piece(3) Suc.prems(3,4) acc, of cid]
    have S: "cents ?S" "0 \<le> ?S" "?S \<le> 10 ^ 12 * of_int (hi - cur + 1)"
    proof -
      note b = version_share_bounds [OF assms(2), of cid]
      show "cents ?S" unfolding share_on_def using b(1)
        by (induction rule: infinite_finite_induct) (auto intro: on_grid_plus)
      show "0 \<le> ?S" unfolding share_on_def using b(2) by (intro sum_nonneg) simp
      have "?S \<le> of_nat (card (days_of (charge_day sp e) cur hi)) * 10 ^ 12"
        unfolding share_on_def using b(3) by (intro sum_bounded_above) simp
      also have "\<dots> \<le> of_int (hi - cur + 1) * 10 ^ 12"
      proof (rule mult_right_mono)
        show "of_nat (card (days_of (charge_day sp e) cur hi)) \<le> (of_int (hi - cur + 1) :: rat)"
          using card_days_of_le [of cur hi "charge_day sp e"] piece(1)
          by (metis of_int_le_iff of_int_of_nat_eq add_increasing2 order_trans zero_le_one)
      qed simp
      finally show "?S \<le> 10 ^ 12 * of_int (hi - cur + 1)" by (simp add: mult.commute)
    qed
    have "versioned_loop D sp i e cid (key c) (key (hi + 1)) (acc + ?S)
        = Inr (acc + ?S + (\<Sum>n \<in> days_of (charge_day sp e) (hi + 1) c. share_on D e cid n))"
    proof (rule Suc.IH)
      show "lo \<le> hi + 1" "hi + 1 \<le> c + 1" using piece(1,2) Suc.prems(1) by auto
      show "cents (acc + ?S)" "0 \<le> acc + ?S" using S Suc.prems(3,4) by (auto intro: on_grid_plus)
      show "acc + ?S \<le> 10 ^ 12 * of_int (hi + 1 - lo)" using S(3) Suc.prems(5) by (simp add: algebra_simps)
      show "0 < i" using Suc.prems(7) [OF True] month_idx_mono [OF True] by simp
      show "month_idx c - month_idx (hi + 1) + 1 < int i" if "hi + 1 \<le> c"
        using Suc.prems(7) [OF True] piece(4) that by simp
    qed
    moreover have "hi - cur < 100000" using piece(1,2) Suc.prems(1) assms(6) by linarith
    note step = step [OF this]
    have "compareDayKeys (key cur) (key c) \<le> 0"
      using True ok(1) assms(4) by (simp add: compareDayKeys_signs)
    then have "versioned_loop D sp (Suc i) e cid (key c) (key cur) acc
        = versioned_loop D sp i e cid (key c) (key (hi + 1)) (acc + ?S)"
      by (simp only: versioned_loop.simps Let_def if_True end' pick take_key [OF ok(1)] step
          res_bind_Inr addDaysToKey_key [OF roomy_ok [OF hi(1)]])
    ultimately show ?thesis
      using sum_share_split [OF piece(1,2), where P = "charge_day sp e" and f = "share_on D e cid"]
      by (simp add: add.assoc)
  qed
qed simp

end

section \<open>The amount of a window\<close>

text \<open>What the charge of day \<open>n\<close> costs the card: its share under the version in force in the
  month of \<open>n\<close>, or under the expense itself for one-offs and expenses without versions.\<close>

definition day_amount :: "decimal_lib \<Rightarrow> 'a billable_expense_scheme \<Rightarrow> string \<Rightarrow> int \<Rightarrow> rat" where
  "day_amount D e cid n =
     (if be_frequency e \<noteq> ''unica'' \<and> be_obligationVersions e \<noteq> [] then share_on D e cid n
      else splitShareFor D e (TCard cid))"

text \<open>Data as the database stores it.\<close>

definition stored_expense :: "'a billable_expense_scheme \<Rightarrow> bool" where
  "stored_expense e \<longleftrightarrow> stored_amount (be_amount e) \<and> stored_splits (be_splits e)
     \<and> list_all stored_version (be_obligationVersions e)"

definition ok_window :: "int \<Rightarrow> int \<Rightarrow> bool \<Rightarrow> bool" where
  "ok_window p c incl \<longleftrightarrow> ok_day (p - 40) \<and> roomy c \<and> first_day p incl \<le> c + 1 \<and> c - p < 40000
     \<and> ok_month (month_idx c + 1)"

lemma ok_windowD:
  assumes "ok_window p c incl"
  shows "ok_day p" "ok_day (first_day p incl)" "ok_day (first_day p incl - 40)" "roomy c"
    "ok_month (month_idx c + 1)" "c - first_day p incl < 50000" "first_day p incl \<le> c + 1"
  using assms by (auto simp: ok_window_def roomy_def ok_day_def first_day_def split: if_splits)

lemma max_charges_le:
  assumes "ok_window p c incl" "first_day p incl \<le> c" "1001 \<le> c_year (civil_of_day (first_day p incl))"
  shows "\<exists>mc. maxChargesForWindow (window_of p c incl) = Inr mc \<and> mc_unica mc = 1
    \<and> mc_mensal mc \<le> c - p + 1 \<and> mc_semanal mc \<le> max 5 (c - p + 1) \<and> 1 \<le> mc_mensal mc"
proof -
  let ?f = "first_day p incl"
  have ok: "ok_day p" "ok_day ?f" "ok_day (?f - 6)" "roomy c" "p \<le> ?f"
    using assms(1) by (auto simp: ok_window_def roomy_def ok_day_def first_day_def split: if_splits)
  have le: "\<not> compareDayKeys (key ?f) (key c) > 0" using assms(2) ok by (simp add: compareDayKeys_signs)
  have ck: "w_closingKey (window_of p c incl) = key c" by (simp add: window_of_def)
  from worst_weekly_le [OF ok(2-4) assms(2)] obtain m where m: "worst_weekly (key ?f) (key c) = Inr m" "m \<le> c - ?f + 1"
    by blast
  have w: "worst_monthly (key ?f) (key c) \<le> c - ?f + 1"
    using worst_monthly_le [OF ok(2) assms(3) roomy_ok [OF ok(4)] assms(2)] .
  have "maxChargesForWindow (window_of p c incl)
      = Inr \<lparr>mc_unica = 1, mc_mensal = max 1 (worst_monthly (key ?f) (key c)), mc_semanal = max 5 m\<rparr>"
    using le m(1) by (simp add: maxChargesForWindow_def worstCaseChargesInWindow_def window_lower_key [OF ok(1)] ck Let_def)
  then show ?thesis using m w ok(5) assms(2) by auto
qed

lemma months_between_key:
  "ok_day lo \<Longrightarrow> ok_day c \<Longrightarrow> months_between (key lo) (key c) = nat (month_idx c - month_idx lo) + 2"
  by (simp add: months_between_def parseDayKey_key month_idx_def)

context decimal_arith
begin

lemma charge_amount_sum:
  assumes "ok_expense sp e" "stored_expense e" "ok_window p c incl"
  shows "chargeAmountDecimal D sp e cid (window_of p c incl)
    = Inr (\<Sum>n \<in> days_of (charge_day sp e) (first_day p incl) c. day_amount D e cid n)"
proof -
  note w = ok_windowD [OF assms(3)]
  let ?f = "first_day p incl"
  have ck: "w_closingKey (window_of p c incl) = key c" by (simp add: window_of_def)
  show ?thesis
  proof (cases "be_frequency e \<noteq> ''unica'' \<and> be_obligationVersions e \<noteq> []")
    case True
    have "versioned_loop D sp (nat (month_idx c - month_idx ?f) + 2) e cid (key c) (key ?f) 0
        = Inr (0 + (\<Sum>n \<in> days_of (charge_day sp e) ?f c. share_on D e cid n))"
      using assms(2) w by (intro versioned_loop_spec [OF assms(1), of ?f]) (auto simp: stored_expense_def)
    with True show ?thesis
      using w by (simp add: chargeAmountDecimal_def window_lower_key ck months_between_key day_amount_def)
  next
    case False
    let ?k = "card (days_of (charge_day sp e) ?f c)"
    have b: "stored_splits (be_splits e)" "stored_amount (be_amount e)"
      using assms(2) by (auto simp: stored_expense_def)
    have "?k \<le> 100000" using card_days_of_le [OF w(7), of "charge_day sp e"] w(6) by simp
    note exact = mul_count_exact [OF card_share_bounds [OF b] this, of cid]
    have sum: "(\<Sum>n \<in> days_of (charge_day sp e) ?f c. day_amount D e cid n)
        = splitShareFor D e (TCard cid) * of_nat ?k"
      using False by (auto simp: day_amount_def mult.commute)
    from False show ?thesis
      unfolding sum using charge_occurrences_days [OF assms(1) w(1,2,4)] exact
      by (auto simp: chargeAmountDecimal_def)
  qed
qed

end

section \<open>Properties\<close>

text \<open>C2. The amount an expense puts on a card in a billing window is the sum, over the days on
  which it charges, of the card's share of the terms in force in the month of that day: a change
  of terms affects the months from its effective month on and no other. The month loop
  terminates and no cent is lost to decimal rounding.\<close>

theorem charge_amount_is_sum_of_days:
  assumes "decimal_arith D" "ok_expense sp e" "stored_expense e" "ok_window p c incl"
  shows "chargeAmountDecimal D sp e cid (window_of p c incl)
    = Inr (\<Sum>n \<in> {n. first_day p incl \<le> n \<and> n \<le> c \<and> charge_day sp e n}. day_amount D e cid n)"
  using decimal_arith.charge_amount_sum [OF assms] by (simp add: days_of_def)

definition rising_rent :: billable_expense where
  "rising_rent = gym\<lparr>be_obligationVersions := [
     \<lparr>ov_sequence = 1, ov_effectiveMonth = ''2026-01'', ov_amount = 1000, ov_cardId = Some ''card-1'', ov_splits = []\<rparr>,
     \<lparr>ov_sequence = 2, ov_effectiveMonth = ''2026-03'', ov_amount = 1200.5, ov_cardId = Some ''card-1'', ov_splits = []\<rparr>]\<rparr>"

lemma rising_rent_ok: "ok_expense sao_paulo_standard rising_rent" "stored_expense rising_rent"
  by code_simp+

theorem charge_amount_is_sum_of_days_witness:
  "chargeAmountDecimal decimal_js sao_paulo_standard rising_rent ''card-1'' (window_of 20483 20542 False)
    = Inr (\<Sum>n \<in> {n. 20484 \<le> n \<and> n \<le> 20542 \<and> charge_day sao_paulo_standard rising_rent n}.
        day_amount decimal_js rising_rent ''card-1'' n)"
proof -
  have "ok_window 20483 20542 False" by code_simp
  from charge_amount_is_sum_of_days [OF js_decimal.decimal_arith_axioms rising_rent_ok this]
  show ?thesis by (simp add: first_day_def)
qed

text \<open>C37. Splitting a stretch of time into two consecutive billing windows moves no money: the
  amounts of the two windows add up to the amount of the whole.\<close>

theorem consecutive_amounts_add_up:
  assumes "decimal_arith D" "ok_expense sp e" "stored_expense e"
    and "ok_window p m incl" "ok_window m c False" "ok_window p c incl" "m \<le> c"
  shows "\<exists>a b. chargeAmountDecimal D sp e cid (window_of p m incl) = Inr a
    \<and> chargeAmountDecimal D sp e cid (window_of m c False) = Inr b
    \<and> chargeAmountDecimal D sp e cid (window_of p c incl) = Inr (a + b)"
proof (cases "first_day p incl \<le> m")
  case True
  have "first_day m False = m + 1" by (simp add: first_day_def)
  then show ?thesis
    using decimal_arith.charge_amount_sum [OF assms(1-3)] assms(4-6)
      sum_share_split [OF True assms(7), where P = "charge_day sp e" and f = "day_amount D e cid"]
    by simp
next
  case False
  then have eq: "first_day p incl = m + 1" "first_day m False = m + 1"
    using ok_windowD(7) [OF assms(4)] by (simp_all add: first_day_def)
  then have "days_of (charge_day sp e) (first_day p incl) m = {}" by (simp add: days_of_empty)
  then show ?thesis
    using decimal_arith.charge_amount_sum [OF assms(1-3)] assms(4-6) eq by simp
qed

theorem consecutive_amounts_add_up_witness:
  "\<exists>a b. chargeAmountDecimal decimal_js sao_paulo_standard rising_rent ''card-1'' (window_of 20483 20512 True) = Inr a
    \<and> chargeAmountDecimal decimal_js sao_paulo_standard rising_rent ''card-1'' (window_of 20512 20542 False) = Inr b
    \<and> chargeAmountDecimal decimal_js sao_paulo_standard rising_rent ''card-1'' (window_of 20483 20542 True) = Inr (a + b)"
proof -
  have "ok_window 20483 20512 True" "ok_window 20512 20542 False" "ok_window 20483 20542 True"
    by code_simp+
  from consecutive_amounts_add_up [OF js_decimal.decimal_arith_axioms rising_rent_ok this]
  show ?thesis by simp
qed

text \<open>The shares of one occurrence conserve its amount: over the cards that appear in its
  splits and the PIX part, the shares add up to the sum of the splits, so every split is counted
  for exactly one target.\<close>

theorem split_shares_conserve_amount:
  assumes "decimal_arith D" "stored_splits (be_splits e)" "be_splits e \<noteq> []"
    and "\<forall>s \<in> set (be_splits e). bs_kind s = ''pix'' \<or> bs_kind s = ''card'' \<and> bs_cardId s \<noteq> None"
  shows "(\<Sum>cid \<in> (the \<circ> bs_cardId) ` {s \<in> set (be_splits e). bs_kind s = ''card''}. splitShareFor D e (TCard cid))
      + splitShareFor D e TPix
    = sum_list (map bs_amount (be_splits e))"
proof -
  let ?cards = "\<lambda>ss. (the \<circ> bs_cardId) ` {s \<in> set ss. bs_kind s = ''card''}"
  let ?on = "\<lambda>cid s. bs_kind s = ''card'' \<and> bs_cardId s = Some cid"
  have pix: "splitShareFor D e TPix = split_total (\<lambda>s. bs_kind s = ''pix'') (be_splits e)"
    using decimal_arith.pix_share_exact [OF assms(1,2)] assms(3) by simp
  have "splitShareFor D e (TCard cid) = split_total (?on cid) (be_splits e)"
    if "cid \<in> ?cards (be_splits e)" for cid
    using decimal_arith.card_share_exact [OF assms(1,2), of cid] that assms(4) by auto
  then have cards: "(\<Sum>cid \<in> ?cards (be_splits e). splitShareFor D e (TCard cid))
      = (\<Sum>cid \<in> ?cards (be_splits e). split_total (?on cid) (be_splits e))"
    by (intro sum.cong) auto
  have "(\<Sum>cid \<in> C. split_total (?on cid) ss) + split_total (\<lambda>s. bs_kind s = ''pix'') ss
      = sum_list (map bs_amount ss)"
    if "finite C" "?cards ss \<subseteq> C" "\<forall>s \<in> set ss. bs_kind s = ''pix'' \<or> bs_kind s = ''card'' \<and> bs_cardId s \<noteq> None"
    for C ss
    using that(2,3)
  proof (induction ss)
    case (Cons s ss)
    have IH: "(\<Sum>cid \<in> C. split_total (?on cid) ss) + split_total (\<lambda>s. bs_kind s = ''pix'') ss
        = sum_list (map bs_amount ss)" using Cons by fastforce
    show ?case
    proof (cases "bs_kind s = ''pix''")
      case True
      with IH show ?thesis by (simp add: split_total_def)
    next
      case False
      with Cons.prems(2) obtain cid where c: "bs_kind s = ''card''" "bs_cardId s = Some cid" by auto
      have "split_total (?on k) (s # ss) = (if k = cid then bs_amount s else 0) + split_total (?on k) ss" for k
        using c by (auto simp: split_total_def)
      moreover have "cid \<in> C" using Cons.prems(1) c by force
      ultimately have "(\<Sum>k \<in> C. split_total (?on k) (s # ss)) = bs_amount s + (\<Sum>k \<in> C. split_total (?on k) ss)"
        using that(1) by (simp add: sum.distrib)
      with IH c show ?thesis by (simp add: split_total_def)
    qed
  qed (simp add: split_total_def)
  from this [OF _ order_refl assms(4)] cards pix show ?thesis by simp
qed

theorem split_shares_conserve_amount_witness:
  "let e = gym\<lparr>be_splits := [\<lparr>bs_kind = ''card'', bs_cardId = Some ''a'', bs_amount = 30\<rparr>,
         \<lparr>bs_kind = ''pix'', bs_cardId = None, bs_amount = 20.5\<rparr>,
         \<lparr>bs_kind = ''card'', bs_cardId = Some ''b'', bs_amount = 49.4\<rparr>]\<rparr> in
   splitShareFor decimal_js e (TCard ''a'') + splitShareFor decimal_js e (TCard ''b'')
     + splitShareFor decimal_js e TPix = 99.9"
proof -
  let ?e = "gym\<lparr>be_splits := [\<lparr>bs_kind = ''card'', bs_cardId = Some ''a'', bs_amount = 30\<rparr>,
         \<lparr>bs_kind = ''pix'', bs_cardId = None, bs_amount = 20.5\<rparr>,
         \<lparr>bs_kind = ''card'', bs_cardId = Some ''b'', bs_amount = 49.4\<rparr>]\<rparr>"
  have h: "stored_splits (be_splits ?e)" by code_simp
  have "(the \<circ> bs_cardId) ` {s \<in> set (be_splits ?e). bs_kind s = ''card''} = {''a'', ''b''}"
    unfolding set_filter [symmetric] by simp
  with split_shares_conserve_amount [OF js_decimal.decimal_arith_axioms h] show ?thesis
    by (simp add: Let_def)
qed

end
