(* ===== verification/Plan.thy ===== *)
theory Plan
  imports Charge_Amounts
begin

text \<open>
  \<open>backend/src/lib/billing/plan.ts\<close> and \<open>guard.ts\<close>: the pure planner of card invoices. Starting
  from what a card has been invoiced through, the loop looks for the next closing up to the
  cutoff, bills the cycle, applies a pending change of the closing day, and goes on from there.

  The state of the loop is the record \<open>plan_state\<close>, its body \<open>plan_step\<close>. A field that a
  \<open>CardUpdate\<close> may leave out is an option; where its value may be null, an option of an option.
  The middle dot of the notes is written as a hyphen.
\<close>

record billing_card = cycle_card +
  bc_id :: string
  bc_pendingClosingDay :: "int option"
  bc_pendingClosingDaySetAt :: "instant option"
  bc_lastBillingProcessedAt :: "instant option"

record planned_invoice =
  pi_closingOn :: instant
  pi_periodStart :: instant
  pi_amount :: rat
  pi_notes :: string

record card_update =
  cu_lastInvoicedOn :: instant
  cu_lastBillingProcessedAt :: instant
  cu_closingDay :: "int option"
  cu_pendingClosingDay :: "int option option"
  cu_pendingClosingDaySetAt :: "instant option option"
  cu_minimumNextClosingOn :: "instant option option"

definition MIN_CYCLE_DAYS_AFTER_CLOSING_CHANGE :: int where
  "MIN_CYCLE_DAYS_AFTER_CLOSING_CHANGE = 28"

record plan_state =
  pl_invoices :: "planned_invoice list"
  pl_periodStartKey :: day_key
  pl_lastBillingProcessedAt :: "instant option"
  pl_hasClosedCycle :: bool
  pl_closingDay :: int
  pl_pendingClosingDay :: "int option"
  pl_includePeriodStart :: bool
  pl_minimumNextClosingKey :: "day_key option"
  pl_update :: "card_update option"

definition plan_start :: "tz_offset \<Rightarrow> 'a billing_card_scheme \<Rightarrow> plan_state" where
  "plan_start sp crd = \<lparr>
     pl_invoices = [],
     pl_periodStartKey = periodStartKey_of sp crd,
     pl_lastBillingProcessedAt = bc_lastBillingProcessedAt crd,
     pl_hasClosedCycle = (card_lastInvoicedOn crd \<noteq> None),
     pl_closingDay = card_closingDay crd,
     pl_pendingClosingDay = bc_pendingClosingDay crd,
     pl_includePeriodStart = (card_lastInvoicedOn crd = None),
     pl_minimumNextClosingKey = map_option dayKeyOfDate (card_minimumNextClosingOn crd),
     pl_update = None\<rparr>"

definition reaches :: "day_key option \<Rightarrow> day_key \<Rightarrow> bool" where
  "reaches minimum k \<longleftrightarrow> (case minimum of None \<Rightarrow> True | Some m \<Rightarrow> compareDayKeys k m \<ge> 0)"

definition find_closing :: "plan_state \<Rightarrow> day_key \<Rightarrow> day_key option res" where
  "find_closing st cutoffKey =
     res_bind (listClosingDayKeys (pl_closingDay st) (pl_periodStartKey st) cutoffKey)
       (\<lambda>ks. Inr (find (reaches (pl_minimumNextClosingKey st)) ks))"

definition late_adjustment ::
    "decimal_lib \<Rightarrow> tz_offset \<Rightarrow> billable_expense list \<Rightarrow> string \<Rightarrow> plan_state \<Rightarrow> rat res" where
  "late_adjustment D sp expenses cardId st =
     (case pl_lastBillingProcessedAt st of
        Some processed \<Rightarrow>
          (if pl_hasClosedCycle st then
             res_bind (dayKeyToDate (pl_periodStartKey st) Noon) (\<lambda>closedThrough.
             Inr (lateOneOffsDecimal D sp expenses cardId closedThrough processed))
           else Inr 0)
      | None \<Rightarrow> Inr 0)"

definition first_close_adjustment ::
    "decimal_lib \<Rightarrow> tz_offset \<Rightarrow> billable_expense list \<Rightarrow> 'a billing_card_scheme \<Rightarrow> plan_state \<Rightarrow> rat" where
  "first_close_adjustment D sp expenses crd st =
     (if \<not> pl_hasClosedCycle st then preCreationOneOffsDecimal D sp expenses (bc_id crd) (card_createdAt crd)
      else 0)"

definition invoice_notes :: "day_key \<Rightarrow> rat \<Rightarrow> rat \<Rightarrow> string" where
  "invoice_notes closingKey lateAdjustment firstCloseAdjustment =
     ''Fechamento '' @ formatPtBrDayKey closingKey @
     (if lateAdjustment > 0
      then '' - inclui compras retroativas informadas apos o fechamento anterior''
      else if firstCloseAdjustment > 0 then '' - inclui compras anteriores a criacao do cartao''
      else '''')"

definition bill_cycle ::
    "decimal_lib \<Rightarrow> tz_offset \<Rightarrow> 'a billing_card_scheme \<Rightarrow> billable_expense list \<Rightarrow> plan_state \<Rightarrow> day_key
     \<Rightarrow> planned_invoice list res" where
  "bill_cycle D sp crd expenses st closingKey =
     res_bind (chargesTotalDecimal D sp expenses (bc_id crd)
         \<lparr>w_periodStartKey = pl_periodStartKey st, w_closingKey = closingKey,
          w_includePeriodStart = pl_includePeriodStart st\<rparr>) (\<lambda>cycleAmount.
     res_bind (late_adjustment D sp expenses (bc_id crd) st) (\<lambda>lateAdjustment.
     let firstCloseAdjustment = first_close_adjustment D sp expenses crd st;
         amount = toMoney D (dec_plus D (dec_plus D cycleAmount lateAdjustment) firstCloseAdjustment) in
     if amount > 0 then
       res_bind (dayKeyToDate closingKey Noon) (\<lambda>closingOn.
       res_bind (dayKeyToDate (pl_periodStartKey st) Noon) (\<lambda>periodStart.
       Inr (pl_invoices st @ [\<lparr>pi_closingOn = closingOn, pi_periodStart = periodStart, pi_amount = amount,
              pi_notes = invoice_notes closingKey lateAdjustment firstCloseAdjustment\<rparr>])))
     else Inr (pl_invoices st)))"

text \<open>The pending closing day and the minimum for the next closing, after closing at a key.\<close>

definition close_terms :: "day_key option \<Rightarrow> plan_state \<Rightarrow> day_key \<Rightarrow> card_update \<Rightarrow> plan_state res" where
  "close_terms pendingSetKey st closingKey nxt =
     (case pl_pendingClosingDay st of
        Some pending \<Rightarrow>
          (if (case pendingSetKey of None \<Rightarrow> True | Some k \<Rightarrow> compareDayKeys closingKey k \<ge> 0) then
             res_bind (addDaysToKey closingKey MIN_CYCLE_DAYS_AFTER_CLOSING_CHANGE) (\<lambda>minimumKey.
             res_bind (dayKeyToDate minimumKey Noon) (\<lambda>minimumOn.
             Inr (st\<lparr>pl_closingDay := pending, pl_pendingClosingDay := None,
                    pl_minimumNextClosingKey := Some minimumKey,
                    pl_update := Some (nxt\<lparr>cu_closingDay := Some pending, cu_pendingClosingDay := Some None,
                      cu_pendingClosingDaySetAt := Some None,
                      cu_minimumNextClosingOn := Some (Some minimumOn)\<rparr>)\<rparr>)))
           else if pl_minimumNextClosingKey st \<noteq> None \<and> reaches (pl_minimumNextClosingKey st) closingKey
           then Inr (st\<lparr>pl_minimumNextClosingKey := None,
                       pl_update := Some (nxt\<lparr>cu_minimumNextClosingOn := Some None\<rparr>)\<rparr>)
           else Inr (st\<lparr>pl_update := Some nxt\<rparr>))
      | None \<Rightarrow>
          (if pl_minimumNextClosingKey st \<noteq> None \<and> reaches (pl_minimumNextClosingKey st) closingKey
           then Inr (st\<lparr>pl_minimumNextClosingKey := None,
                       pl_update := Some (nxt\<lparr>cu_minimumNextClosingOn := Some None\<rparr>)\<rparr>)
           else Inr (st\<lparr>pl_update := Some nxt\<rparr>)))"

definition next_update :: "card_update option \<Rightarrow> instant \<Rightarrow> instant \<Rightarrow> card_update" where
  "next_update update closingOn now =
     (case update of
        Some u \<Rightarrow> u\<lparr>cu_lastInvoicedOn := closingOn, cu_lastBillingProcessedAt := now\<rparr>
      | None \<Rightarrow> \<lparr>cu_lastInvoicedOn = closingOn, cu_lastBillingProcessedAt = now, cu_closingDay = None,
          cu_pendingClosingDay = None, cu_pendingClosingDaySetAt = None, cu_minimumNextClosingOn = None\<rparr>)"

definition plan_step ::
    "decimal_lib \<Rightarrow> tz_offset \<Rightarrow> 'a billing_card_scheme \<Rightarrow> billable_expense list \<Rightarrow> instant \<Rightarrow> plan_state
     \<Rightarrow> day_key \<Rightarrow> plan_state res" where
  "plan_step D sp crd expenses now st closingKey =
     res_bind (bill_cycle D sp crd expenses st closingKey) (\<lambda>invoices.
     res_bind (dayKeyToDate closingKey Noon) (\<lambda>closingOn.
     res_bind (close_terms (map_option (dayKeyInSaoPaulo sp) (bc_pendingClosingDaySetAt crd)) st closingKey
                (next_update (pl_update st) closingOn now)) (\<lambda>st'.
     Inr (st'\<lparr>pl_invoices := invoices, pl_lastBillingProcessedAt := Some now, pl_hasClosedCycle := True,
             pl_periodStartKey := closingKey, pl_includePeriodStart := False\<rparr>))))"

fun plan_loop ::
    "nat \<Rightarrow> decimal_lib \<Rightarrow> tz_offset \<Rightarrow> 'a billing_card_scheme \<Rightarrow> billable_expense list \<Rightarrow> day_key \<Rightarrow> instant
     \<Rightarrow> plan_state \<Rightarrow> plan_state res" where
  "plan_loop 0 D sp crd expenses cutoffKey now st = Inl (PlainError ''out of fuel'')"
| "plan_loop (Suc i) D sp crd expenses cutoffKey now st =
     res_bind (find_closing st cutoffKey) (\<lambda>closing.
     case closing of
       None \<Rightarrow> Inr st
     | Some closingKey \<Rightarrow>
         res_bind (plan_step D sp crd expenses now st closingKey)
           (plan_loop i D sp crd expenses cutoffKey now))"

text \<open>
  Every iteration moves the period start to a later closing, at least one day on, and none past
  the cutoff: the days between them and one bound the iterations.
\<close>

definition plan_fuel :: "day_key \<Rightarrow> day_key \<Rightarrow> nat" where
  "plan_fuel startKey cutoffKey =
     (case diffDays cutoffKey startKey of Inl e \<Rightarrow> 1 | Inr d \<Rightarrow> nat d + 1)"

definition planCardBilling ::
    "decimal_lib \<Rightarrow> tz_offset \<Rightarrow> 'a billing_card_scheme \<Rightarrow> billable_expense list \<Rightarrow> instant \<Rightarrow> instant
     \<Rightarrow> (planned_invoice list \<times> card_update option) res" where
  "planCardBilling D sp crd expenses cutoff now =
     (let cutoffKey = dayKeyOfDate cutoff; start = plan_start sp crd in
      res_bind (plan_loop (plan_fuel (pl_periodStartKey start) cutoffKey) D sp crd expenses cutoffKey now start)
        (\<lambda>st. Inr (pl_invoices st, pl_update st)))"

section \<open>guard.ts\<close>

definition cardsWithUnclosedBilling ::
    "decimal_lib \<Rightarrow> tz_offset \<Rightarrow> 'a billing_card_scheme list \<Rightarrow> instant \<Rightarrow> string list res" where
  "cardsWithUnclosedBilling D sp cards now =
     res_bind (addDaysToKey (todayKeyInSaoPaulo sp now) (-1)) (\<lambda>yesterday.
     res_bind (dayKeyToDate yesterday Noon) (\<lambda>cutoff.
     res_bind (res_mapM (\<lambda>crd. res_bind (planCardBilling D sp crd [] cutoff now)
                           (\<lambda>(invoices, update). Inr (crd, update \<noteq> None))) cards) (\<lambda>planned.
     Inr (map (bc_id \<circ> fst) (filter snd planned)))))"

section \<open>What a cycle is billed\<close>

text \<open>The expenses a plan is computed from, as the database stores them.\<close>

definition ok_expenses :: "tz_offset \<Rightarrow> billable_expense list \<Rightarrow> bool" where
  "ok_expenses sp es \<longleftrightarrow> length es \<le> 10000 \<and> list_all (\<lambda>e. ok_expense sp e \<and> stored_expense e) es"

text \<open>All charges of the card on the days from \<open>lo\<close> to \<open>hi\<close>.\<close>

definition charged :: "decimal_lib \<Rightarrow> tz_offset \<Rightarrow> billable_expense list \<Rightarrow> string \<Rightarrow> int \<Rightarrow> int \<Rightarrow> rat" where
  "charged D sp es cid lo hi =
     (\<Sum>e \<leftarrow> es. \<Sum>n \<in> days_of (charge_day sp e) lo hi. day_amount D e cid n)"

definition late_one_off :: "tz_offset \<Rightarrow> int \<Rightarrow> instant \<Rightarrow> billable_expense \<Rightarrow> bool" where
  "late_one_off sp closedThrough processed e \<longleftrightarrow> \<not> be_isInvoice e \<and> be_frequency e = ''unica''
     \<and> processed < be_createdAt e \<and> one_off_day sp e \<le> closedThrough"

definition early_one_off :: "tz_offset \<Rightarrow> int \<Rightarrow> billable_expense \<Rightarrow> bool" where
  "early_one_off sp created e \<longleftrightarrow> \<not> be_isInvoice e \<and> be_frequency e = ''unica''
     \<and> one_off_day sp e < created"

definition share_total :: "decimal_lib \<Rightarrow> (billable_expense \<Rightarrow> bool) \<Rightarrow> billable_expense list \<Rightarrow> string \<Rightarrow> rat" where
  "share_total D P es cid = (\<Sum>e \<leftarrow> filter P es. splitShareFor D e (TCard cid))"

lemma foldl_skip:
  "foldl (\<lambda>acc e. if skip e then acc else f acc (g e)) a es = foldl f a (map g (filter (\<lambda>e. \<not> skip e) es))"
  by (induction es arbitrary: a) auto

context decimal_arith
begin

lemma day_amount_bounds:
  assumes "stored_expense e"
  shows "cents (day_amount D e cid n)" "0 \<le> day_amount D e cid n"
  using assms version_share_bounds [of e cid "month_idx n"] card_share_bounds [of e cid]
  by (auto simp: day_amount_def share_on_def stored_expense_def)

lemma charged_cents: "ok_expenses sp es \<Longrightarrow> cents (charged D sp es cid lo hi)"
proof -
  assume ok: "ok_expenses sp es"
  have "cents (sum (day_amount D e cid) A)" if "e \<in> set es" for e A
    using day_amount_bounds(1) [of e] ok that
    by (induction rule: infinite_finite_induct) (auto intro: on_grid_plus simp: ok_expenses_def list_all_iff)
  then show ?thesis unfolding charged_def by (intro on_grid_sum_list) auto
qed

lemma charged_mono:
  assumes "ok_expenses sp es" "lo' \<le> lo" "hi \<le> hi'"
  shows "charged D sp es cid lo hi \<le> charged D sp es cid lo' hi'"
  unfolding charged_def
proof (rule sum_list_mono)
  fix e assume "e \<in> set es"
  with assms(1) have "stored_expense e" by (auto simp: ok_expenses_def list_all_iff)
  then show "sum (day_amount D e cid) (days_of (charge_day sp e) lo hi)
      \<le> sum (day_amount D e cid) (days_of (charge_day sp e) lo' hi')"
    using assms(2,3) day_amount_bounds(2) [of e cid] by (intro sum_mono2 finite_days_of) (auto simp: days_of_def)
qed

lemma charged_nonneg: "ok_expenses sp es \<Longrightarrow> 0 \<le> charged D sp es cid lo hi"
  using day_amount_bounds(2) unfolding charged_def
  by (intro sum_list_nonneg) (auto intro!: sum_nonneg simp: ok_expenses_def list_all_iff)

lemma charged_split:
  "lo \<le> mid \<Longrightarrow> mid \<le> hi \<Longrightarrow>
    charged D sp es cid lo hi = charged D sp es cid lo mid + charged D sp es cid (mid + 1) hi"
  by (simp only: charged_def sum_list_addf [symmetric] sum_share_split [where cur = lo and mid = mid and c = hi])

lemma charges_total:
  assumes "ok_expenses sp es" "ok_window p c incl" "charged D sp es cid (first_day p incl) c < 10 ^ 17"
  shows "chargesTotalDecimal D sp es cid (window_of p c incl) = Inr (charged D sp es cid (first_day p incl) c)"
proof -
  define A :: "billable_expense \<Rightarrow> rat" where "A e = (\<Sum>n \<in> days_of (charge_day sp e) (first_day p incl) c. day_amount D e cid n)" for e
  have e: "ok_expense sp e" "stored_expense e" if "e \<in> set es" for e
    using assms(1) that by (auto simp: ok_expenses_def list_all_iff)
  have "chargesTotalDecimal D sp es cid (window_of p c incl)
      = Inr (foldl (\<lambda>acc e. dec_plus D acc (A e)) 0 es)"
    unfolding chargesTotalDecimal_def
    using e by (intro res_fold_all_ok) (simp add: A_def charge_amount_sum [OF _ _ assms(2)])
  also have "foldl (\<lambda>acc e. dec_plus D acc (A e)) 0 es = foldl (dec_plus D) 0 (map A es)"
    by (simp add: foldl_map)
  also have "\<dots> = 0 + sum_list (map A es)"
  proof (rule foldl_plus_exact [of _ 2])
    have n: "0 \<le> A e" "cents (A e)" if "e \<in> set es" for e
      using charged_nonneg [of sp "[e]" cid "first_day p incl" c] e [OF that]
        charged_cents [of sp "[e]" cid "first_day p incl" c]
      by (simp_all add: charged_def ok_expenses_def A_def)
    then show "\<And>x. x \<in> set (map A es) \<Longrightarrow> cents x" by auto
    have "sum_list (map abs (map A es)) = sum_list (map A es)"
      using n(1) by (simp add: comp_def cong: map_cong)
    with assms(3) show "(\<bar>0\<bar> + sum_list (map abs (map A es))) * 10 ^ 2 < 10 ^ 20"
      by (simp add: charged_def A_def [abs_def])
  qed simp
  finally show ?thesis by (simp add: charged_def A_def [abs_def])
qed

lemma share_total_bounds:
  assumes "ok_expenses sp es"
  shows "cents (share_total D P es cid)" "0 \<le> share_total D P es cid" "share_total D P es cid \<le> 10 ^ 16"
    and "foldl (dec_plus D) 0 (map (\<lambda>e. splitShareFor D e (TCard cid)) (filter P es)) = share_total D P es cid"
proof -
  let ?xs = "map (\<lambda>e. splitShareFor D e (TCard cid)) (filter P es)"
  have b: "cents x \<and> 0 \<le> x \<and> x \<le> 10 ^ 12" if "x \<in> set ?xs" for x
  proof -
    from that obtain e where e: "e \<in> set es" "x = splitShareFor D e (TCard cid)" by auto
    with assms have "stored_splits (be_splits e)" "stored_amount (be_amount e)"
      by (auto simp: ok_expenses_def stored_expense_def list_all_iff)
    from card_share_bounds [OF this, of cid] e(2) show ?thesis by simp
  qed
  have sum: "sum_list ?xs = share_total D P es cid" by (simp add: share_total_def)
  show "cents (share_total D P es cid)" unfolding sum [symmetric] using b by (intro on_grid_sum_list) blast
  show "0 \<le> share_total D P es cid" unfolding sum [symmetric] using b by (intro sum_list_nonneg) blast
  have "sum_list ys \<le> of_nat (length ys) * 10 ^ 12" if "\<forall>y \<in> set ys. y \<le> 10 ^ 12" for ys :: "rat list"
    using that by (induction ys) (auto simp: algebra_simps)
  with b have "share_total D P es cid \<le> of_nat (length ?xs) * 10 ^ 12" unfolding sum [symmetric] by blast
  also have "\<dots> \<le> 10000 * 10 ^ 12"
    using assms length_filter_le [of P es] by (intro mult_right_mono) (simp_all add: ok_expenses_def del: length_filter_le)
  finally show le: "share_total D P es cid \<le> 10 ^ 16" by simp
  have "map abs ?xs = ?xs" using b by (intro map_idI) auto
  then have "sum_list (map abs ?xs) = share_total D P es cid" by (simp only: sum)
  with le b have "foldl (dec_plus D) 0 ?xs = 0 + sum_list ?xs"
    by (intro foldl_plus_exact [of _ 2]) auto
  with sum show "foldl (dec_plus D) 0 ?xs = share_total D P es cid" by simp
qed

lemma late_one_offs:
  assumes "ok_expenses sp es" "ok_day s"
  shows "lateOneOffsDecimal D sp es cid (noon s) processed
    = share_total D (late_one_off sp s processed) es cid"
proof -
  define skip :: "billable_expense \<Rightarrow> bool" where "skip e \<longleftrightarrow> be_isInvoice e \<or> be_frequency e \<noteq> ''unica'' \<or> be_createdAt e \<le> processed
    \<or> compareDayKeys (oneOffKey sp e) (dayKeyOfDate (noon s)) > 0" for e
  have "compareDayKeys (oneOffKey sp e) (key s) > 0 \<longleftrightarrow> one_off_day sp e > s" if "e \<in> set es" for e
    using assms that oneOffKey_day [of sp e]
    by (auto simp: ok_expenses_def list_all_iff compareDayKeys_signs ok_expense_def)
  then have "filter (\<lambda>e. \<not> skip e) es = filter (late_one_off sp s processed) es"
    by (intro filter_cong) (auto simp: skip_def late_one_off_def dayKeyOfDate_day)
  moreover have "lateOneOffsDecimal D sp es cid (noon s) processed
      = foldl (\<lambda>acc e. if skip e then acc else dec_plus D acc (splitShareFor D e (TCard cid))) 0 es"
    unfolding lateOneOffsDecimal_def Let_def skip_def
    by (rule arg_cong [where f = "\<lambda>f. foldl f 0 es"]) (auto simp: fun_eq_iff)
  ultimately show ?thesis
    using share_total_bounds(4) [OF assms(1), of cid "late_one_off sp s processed"]
      foldl_skip [of skip "dec_plus D" "\<lambda>e. splitShareFor D e (TCard cid)" 0 es]
    by simp
qed

lemma early_one_offs:
  assumes "ok_expenses sp es" "ok_day (local_day sp created)"
  shows "preCreationOneOffsDecimal D sp es cid created
    = share_total D (early_one_off sp (local_day sp created)) es cid"
proof -
  define skip :: "billable_expense \<Rightarrow> bool" where "skip e \<longleftrightarrow> be_isInvoice e \<or> be_frequency e \<noteq> ''unica''
    \<or> compareDayKeys (oneOffKey sp e) (dayKeyInSaoPaulo sp created) \<ge> 0" for e
  have "compareDayKeys (oneOffKey sp e) (dayKeyInSaoPaulo sp created) \<ge> 0 \<longleftrightarrow>
      local_day sp created \<le> one_off_day sp e" if "e \<in> set es" for e
    using assms that oneOffKey_day [of sp e] dayKeyInSaoPaulo_key [of created sp]
    by (auto simp: ok_expenses_def list_all_iff compareDayKeys_signs ok_expense_def local_day_def)
  then have "filter (\<lambda>e. \<not> skip e) es = filter (early_one_off sp (local_day sp created)) es"
    by (intro filter_cong) (auto simp: skip_def early_one_off_def)
  moreover have "preCreationOneOffsDecimal D sp es cid created
      = foldl (\<lambda>acc e. if skip e then acc else dec_plus D acc (splitShareFor D e (TCard cid))) 0 es"
    unfolding preCreationOneOffsDecimal_def Let_def skip_def
    by (rule arg_cong [where f = "\<lambda>f. foldl f 0 es"]) (auto simp: fun_eq_iff)
  ultimately show ?thesis
    using share_total_bounds(4) [OF assms(1), of cid "early_one_off sp (local_day sp created)"]
      foldl_skip [of skip "dec_plus D" "\<lambda>e. splitShareFor D e (TCard cid)" 0 es]
    by simp
qed

end

end
