(* ===== verification/Plan_Spec.thy ===== *)
theory Plan_Spec
  imports Plan "HOL-Library.Sublist"
begin

text \<open>
  What the planner of \<open>plan.ts\<close> guarantees. One iteration bills the cycle from the last closing
  to the next one; the loop walks through all closings up to the cutoff. The lemmas give the
  closing it finds (the least closing day after the last one that respects the minimum), the
  invoice of a cycle (its charges plus the adjustment of the first iteration), and the state
  the card ends in. The properties: the plan is total; it bills every charge up to the last
  closing exactly once; planning again from the updated card plans nothing; a changed closing
  day leaves no cycle shorter than 28 days.
\<close>

section \<open>The next closing\<close>

definition closes :: "int \<Rightarrow> int \<Rightarrow> int option \<Rightarrow> int \<Rightarrow> int \<Rightarrow> bool" where
  "closes cd s mo c n \<longleftrightarrow> s < n \<and> n \<le> c \<and> is_due_day cd n \<and> (case mo of None \<Rightarrow> True | Some m \<Rightarrow> m \<le> n)"

definition first_closing :: "int \<Rightarrow> int \<Rightarrow> int option \<Rightarrow> int \<Rightarrow> int \<Rightarrow> bool" where
  "first_closing cd s mo c n \<longleftrightarrow> closes cd s mo c n \<and> (\<forall>n'. closes cd s mo c n' \<longrightarrow> n \<le> n')"

lemma find_sorted:
  fixes xs :: "int list"
  assumes "sorted_wrt (<) xs"
  shows "case find P xs of None \<Rightarrow> \<forall>x \<in> set xs. \<not> P x
    | Some n \<Rightarrow> n \<in> set xs \<and> P n \<and> (\<forall>x \<in> set xs. P x \<longrightarrow> n \<le> x)"
  using assms by (induction xs) (auto split: option.splits)

lemma find_map: "find P (map f xs) = map_option f (find (P \<circ> f) xs)"
  by (induction xs) auto

definition ok_option :: "int option \<Rightarrow> bool" where
  "ok_option mo \<longleftrightarrow> (case mo of None \<Rightarrow> True | Some m \<Rightarrow> ok_day m)"

lemma reaches_key: "ok_option mo \<Longrightarrow> ok_day n \<Longrightarrow>
  reaches (map_option key mo) (key n) \<longleftrightarrow> (case mo of None \<Rightarrow> True | Some m \<Rightarrow> m \<le> n)"
  by (auto simp: reaches_def ok_option_def compareDayKeys_signs split: option.splits)

lemma find_cong_set: "(\<And>x. x \<in> set xs \<Longrightarrow> P x = Q x) \<Longrightarrow> find P xs = find Q xs"
  by (induction xs) auto

lemma find_closing_spec:
  assumes "pl_periodStartKey st = key s" "pl_minimumNextClosingKey st = map_option key mo"
    and "ok_day s" "ok_day c" "ok_option mo" "ok_month (month_idx c + 1)" "month_idx c < month_idx s + 1199"
  shows "(\<exists>n. find_closing st (key c) = Inr (Some (key n)) \<and> first_closing (pl_closingDay st) s mo c n)
    \<or> find_closing st (key c) = Inr None \<and> (\<forall>n. \<not> closes (pl_closingDay st) s mo c n)"
proof -
  let ?cd = "pl_closingDay st" and ?xs = "closing_days (pl_closingDay st) s c"
  let ?P = "\<lambda>n. case mo of None \<Rightarrow> True | Some m \<Rightarrow> m \<le> n"
  have mem: "n \<in> set ?xs \<and> ?P n \<longleftrightarrow> closes ?cd s mo c n" for n
    using set_closing_days [OF assms(3,4)] by (auto simp: closes_def)
  have "find (reaches (map_option key mo) \<circ> key) ?xs = find ?P ?xs"
  proof (rule find_cong_set)
    fix n assume "n \<in> set ?xs"
    then have "ok_day n" using set_closing_days [OF assms(3,4)] assms(3,4) by (auto simp: ok_day_def)
    then show "(reaches (map_option key mo) \<circ> key) n = ?P n" by (simp add: reaches_key [OF assms(5)])
  qed
  then have "find_closing st (key c) = Inr (map_option key (find ?P ?xs))"
    using listClosingDayKeys_days [OF assms(3,4,6,7), of ?cd] assms(1,2)
    by (simp add: find_closing_def find_map)
  with find_sorted [OF sorted_closing_days [OF assms(3,4), of ?cd], of ?P] mem show ?thesis
    by (cases "find ?P ?xs") (auto simp: first_closing_def)
qed

section \<open>The context of a plan\<close>

text \<open>
  Assumptions about the data: dates within the calendar the keys can hold, at most a century
  between the card's last closing \<open>s0\<close> and the cutoff \<open>c\<close>, amounts below \<open>10 ^ 17\<close> in total, and
  no expense created after \<open>now\<close>.
\<close>

definition billing_ok ::
    "decimal_lib \<Rightarrow> tz_offset \<Rightarrow> billable_expense list \<Rightarrow> string \<Rightarrow> instant \<Rightarrow> int \<Rightarrow> int \<Rightarrow> bool" where
  "billing_ok D sp es cid now s0 c \<longleftrightarrow> ok_expenses sp es \<and> ok_day (s0 - 40) \<and> ok_day s0 \<and> roomy c
     \<and> ok_month (month_idx c + 1) \<and> month_idx c < month_idx s0 + 1199 \<and> c - s0 < 40000
     \<and> charged D sp es cid s0 c < 10 ^ 17 \<and> list_all (\<lambda>e. be_createdAt e \<le> now) es"

definition at_day :: "plan_state \<Rightarrow> int \<Rightarrow> int \<Rightarrow> int \<Rightarrow> int option \<Rightarrow> bool" where
  "at_day st s0 c s mo \<longleftrightarrow> pl_periodStartKey st = key s \<and> s0 \<le> s \<and> (s = s0 \<or> s \<le> c)
     \<and> pl_minimumNextClosingKey st = map_option key mo \<and> ok_option mo"

definition adjustment ::
    "decimal_lib \<Rightarrow> tz_offset \<Rightarrow> billable_expense list \<Rightarrow> 'a billing_card_scheme \<Rightarrow> plan_state \<Rightarrow> int \<Rightarrow> rat" where
  "adjustment D sp es crd st s =
     (if pl_hasClosedCycle st then
        (case pl_lastBillingProcessedAt st of
           Some t \<Rightarrow> share_total D (late_one_off sp s t) es (bc_id crd)
         | None \<Rightarrow> 0)
      else share_total D (early_one_off sp (local_day sp (card_createdAt crd))) es (bc_id crd))"

definition cycle_invoice ::
    "decimal_lib \<Rightarrow> tz_offset \<Rightarrow> billable_expense list \<Rightarrow> 'a billing_card_scheme \<Rightarrow> plan_state \<Rightarrow> int \<Rightarrow> int \<Rightarrow> rat"
where
  "cycle_invoice D sp es crd st s n =
     charged D sp es (bc_id crd) (first_day s (pl_includePeriodStart st)) n + adjustment D sp es crd st s"

lemma at_day_window:
  assumes "billing_ok D sp es cid now s0 c" "at_day st s0 c s mo" "s < n" "n \<le> c"
  shows "ok_window s n incl" "ok_day s" "roomy n"
proof -
  have n: "roomy n" using assms by (auto simp: billing_ok_def at_day_def roomy_def ok_day_def)
  have "month_idx n \<le> month_idx c" using assms(4) by (rule month_idx_mono)
  then have "ok_month (month_idx n + 1)"
    using assms(1) ok_month_idx [OF roomy_ok [OF n]] by (auto simp: billing_ok_def ok_month_def)
  with n assms show "ok_window s n incl" "ok_day s" "roomy n"
    by (auto simp: billing_ok_def at_day_def ok_window_def roomy_def ok_day_def first_day_def)
qed

lemma find_closing_at:
  assumes "billing_ok D sp es cid now s0 c" "at_day st s0 c s mo"
  shows "(\<exists>n. find_closing st (key c) = Inr (Some (key n)) \<and> first_closing (pl_closingDay st) s mo c n)
    \<or> find_closing st (key c) = Inr None \<and> (\<forall>n. \<not> closes (pl_closingDay st) s mo c n)"
proof (rule find_closing_spec)
  show "ok_day s" using assms by (auto simp: billing_ok_def at_day_def ok_day_def roomy_def)
  have "month_idx s0 \<le> month_idx s" using assms(2) by (auto simp: at_day_def intro: month_idx_mono)
  then show "month_idx c < month_idx s + 1199" using assms(1) by (auto simp: billing_ok_def)
qed (use assms in \<open>auto simp: billing_ok_def at_day_def\<close>)

context decimal_arith
begin

lemma adjustment_bounds:
  assumes "ok_expenses sp es"
  shows "cents (adjustment D sp es crd st s)" "0 \<le> adjustment D sp es crd st s"
    "adjustment D sp es crd st s \<le> 10 ^ 16"
  using share_total_bounds [OF assms] by (auto simp: adjustment_def split: option.split)

lemma bill_cycle_spec:
  assumes "billing_ok D sp es (bc_id crd) now s0 c" "at_day st s0 c s mo" "s < n" "n \<le> c"
    and "ok_day (local_day sp (card_createdAt crd))"
  shows "\<exists>notes. bill_cycle D sp crd es st (key n) = Inr (pl_invoices st @
      (if cycle_invoice D sp es crd st s n > 0
       then [\<lparr>pi_closingOn = noon n, pi_periodStart = noon s, pi_amount = cycle_invoice D sp es crd st s n,
              pi_notes = notes\<rparr>] else []))"
    and "0 \<le> cycle_invoice D sp es crd st s n" "cents (cycle_invoice D sp es crd st s n)"
proof -
  have es: "ok_expenses sp es" and c: "ok_day s0" "c - s0 < 40000"
    using assms(1) by (auto simp: billing_ok_def)
  let ?f = "first_day s (pl_includePeriodStart st)"
  let ?ch = "charged D sp es (bc_id crd) ?f n" and ?adj = "adjustment D sp es crd st s"
  note w = at_day_window(1) [OF assms(1-4), of "pl_includePeriodStart st"] at_day_window(2,3) [OF assms(1-4)]
  have "s0 \<le> ?f" using assms(2) by (auto simp: at_day_def first_day_def)
  from charged_mono [OF es this assms(4), of "bc_id crd"]
  have small: "?ch < 10 ^ 17" using assms(1) by (auto simp: billing_ok_def)
  have total: "chargesTotalDecimal D sp es (bc_id crd) \<lparr>w_periodStartKey = pl_periodStartKey st,
      w_closingKey = key n, w_includePeriodStart = pl_includePeriodStart st\<rparr> = Inr ?ch"
    using charges_total [OF es w(1) small] assms(2) by (simp add: window_of_def at_day_def)
  have s: "dayKeyToDate (pl_periodStartKey st) Noon = Inr (noon s)"
    using assms(2) w(2) by (simp add: at_day_def dayKeyToDate_noon)
  obtain late where late: "late_adjustment D sp es (bc_id crd) st = Inr late"
    "late = (if pl_hasClosedCycle st then ?adj else 0)"
    using s late_one_offs [OF es w(2), of "bc_id crd"]
    by (cases "pl_lastBillingProcessedAt st") (auto simp: late_adjustment_def adjustment_def)
  have early: "first_close_adjustment D sp es crd st = (if pl_hasClosedCycle st then 0 else ?adj)"
    using early_one_offs [OF es assms(5), of "bc_id crd"]
    by (simp add: first_close_adjustment_def adjustment_def)
  note adj = adjustment_bounds [OF es, of crd st s] and ch = charged_cents [OF es, of "bc_id crd" ?f n]
    charged_nonneg [OF es, of "bc_id crd" ?f n]
  have fits: "fits20 ?ch" "fits20 (?ch + ?adj)" "cents (?ch + ?adj)"
    using adj ch small by (auto intro!: cents_fits20 intro: on_grid_plus)
  then have "dec_plus D (dec_plus D ?ch late) (first_close_adjustment D sp es crd st) = ?ch + ?adj"
    unfolding early late(2) by (auto simp: plus_exact)
  then have amount: "toMoney D (dec_plus D (dec_plus D ?ch late) (first_close_adjustment D sp es crd st))
      = cycle_invoice D sp es crd st s n"
    using fits(3) by (simp add: cycle_invoice_def toMoney_id)
  show "0 \<le> cycle_invoice D sp es crd st s n" "cents (cycle_invoice D sp es crd st s n)"
    using adj ch fits(3) by (simp_all add: cycle_invoice_def)
  show "\<exists>notes. bill_cycle D sp crd es st (key n) = Inr (pl_invoices st @
      (if cycle_invoice D sp es crd st s n > 0
       then [\<lparr>pi_closingOn = noon n, pi_periodStart = noon s, pi_amount = cycle_invoice D sp es crd st s n,
              pi_notes = notes\<rparr>] else []))"
    using s roomy_ok [OF w(3)]
    by (simp add: bill_cycle_def total late(1) amount Let_def dayKeyToDate_noon)
qed

end

section \<open>The update mirrors the state\<close>

text \<open>What \<open>run.ts\<close> does with a planned update: it writes the fields the update has.\<close>

definition apply_card_update :: "card_update \<Rightarrow> 'a billing_card_scheme \<Rightarrow> 'a billing_card_scheme" where
  "apply_card_update u crd = crd\<lparr>
     card_lastInvoicedOn := Some (cu_lastInvoicedOn u),
     bc_lastBillingProcessedAt := Some (cu_lastBillingProcessedAt u),
     card_closingDay := (case cu_closingDay u of Some d \<Rightarrow> d | None \<Rightarrow> card_closingDay crd),
     bc_pendingClosingDay := (case cu_pendingClosingDay u of Some v \<Rightarrow> v | None \<Rightarrow> bc_pendingClosingDay crd),
     bc_pendingClosingDaySetAt :=
       (case cu_pendingClosingDaySetAt u of Some v \<Rightarrow> v | None \<Rightarrow> bc_pendingClosingDaySetAt crd),
     card_minimumNextClosingOn :=
       (case cu_minimumNextClosingOn u of Some v \<Rightarrow> v | None \<Rightarrow> card_minimumNextClosingOn crd)\<rparr>"

definition updated_card :: "card_update option \<Rightarrow> 'a billing_card_scheme \<Rightarrow> 'a billing_card_scheme" where
  "updated_card update crd = (case update of None \<Rightarrow> crd | Some u \<Rightarrow> apply_card_update u crd)"

definition synced :: "'a billing_card_scheme \<Rightarrow> plan_state \<Rightarrow> bool" where
  "synced crd st \<longleftrightarrow>
     card_closingDay (updated_card (pl_update st) crd) = pl_closingDay st
     \<and> bc_pendingClosingDay (updated_card (pl_update st) crd) = pl_pendingClosingDay st
     \<and> map_option dayKeyOfDate (card_minimumNextClosingOn (updated_card (pl_update st) crd))
         = pl_minimumNextClosingKey st"

lemma synced_start: "synced crd (plan_start sp crd)"
  by (simp add: synced_def updated_card_def plan_start_def)

text \<open>The pending closing day and the minimum after a closing, as numbers of days.\<close>

definition takes_pending :: "tz_offset \<Rightarrow> 'a billing_card_scheme \<Rightarrow> plan_state \<Rightarrow> day_key \<Rightarrow> bool" where
  "takes_pending sp crd st k \<longleftrightarrow> pl_pendingClosingDay st \<noteq> None \<and>
     (case map_option (dayKeyInSaoPaulo sp) (bc_pendingClosingDaySetAt crd) of
        None \<Rightarrow> True | Some k' \<Rightarrow> compareDayKeys k k' \<ge> 0)"

definition next_minimum :: "bool \<Rightarrow> int \<Rightarrow> int option \<Rightarrow> int option" where
  "next_minimum changed n mo =
     (if changed then Some (n + 28) else case mo of None \<Rightarrow> None | Some m \<Rightarrow> if m \<le> n then None else mo)"

definition next_state ::
    "tz_offset \<Rightarrow> 'a billing_card_scheme \<Rightarrow> instant \<Rightarrow> plan_state \<Rightarrow> int \<Rightarrow> int option \<Rightarrow> planned_invoice list
     \<Rightarrow> plan_state" where
  "next_state sp crd now st n mo invoices =
     (let t = takes_pending sp crd st (key n);
          nxt = next_update (pl_update st) (noon n) now in
      \<lparr>pl_invoices = invoices, pl_periodStartKey = key n, pl_lastBillingProcessedAt = Some now,
       pl_hasClosedCycle = True,
       pl_closingDay = (if t then the (pl_pendingClosingDay st) else pl_closingDay st),
       pl_pendingClosingDay = (if t then None else pl_pendingClosingDay st),
       pl_includePeriodStart = False,
       pl_minimumNextClosingKey = map_option key (next_minimum t n mo),
       pl_update = Some
         (if t then nxt\<lparr>cu_closingDay := pl_pendingClosingDay st, cu_pendingClosingDay := Some None,
             cu_pendingClosingDaySetAt := Some None, cu_minimumNextClosingOn := Some (Some (noon (n + 28)))\<rparr>
          else if mo \<noteq> None \<and> next_minimum t n mo = None then nxt\<lparr>cu_minimumNextClosingOn := Some None\<rparr>
          else nxt)\<rparr>)"

lemma plan_step_state:
  assumes "bill_cycle D sp crd es st (key n) = Inr invoices" "roomy n" "ok_option mo"
    and "pl_minimumNextClosingKey st = map_option key mo"
  shows "plan_step D sp crd es now st (key n) = Inr (next_state sp crd now st n mo invoices)"
proof -
  have n: "ok_day n" "ok_day (n + 28)" using assms(2) by (auto simp: roomy_def ok_day_def)
  have r: "reaches (map_option key mo) (key n) \<longleftrightarrow> (case mo of None \<Rightarrow> True | Some m \<Rightarrow> m \<le> n)"
    by (rule reaches_key [OF assms(3) n(1)])
  show ?thesis
  proof (cases "takes_pending sp crd st (key n)")
    case True
    then obtain d where "pl_pendingClosingDay st = Some d" by (auto simp: takes_pending_def)
    with True n show ?thesis
      by (simp add: plan_step_def assms(1) dayKeyToDate_noon close_terms_def takes_pending_def
          addDaysToKey_key MIN_CYCLE_DAYS_AFTER_CLOSING_CHANGE_def next_state_def next_minimum_def Let_def)
  next
    case False
    define nxt where "nxt = next_update (pl_update st) (noon n) now"
    have c: "close_terms (map_option (dayKeyInSaoPaulo sp) (bc_pendingClosingDaySetAt crd)) st (key n) nxt
        = (if mo \<noteq> None \<and> next_minimum False n mo = None
           then Inr (st\<lparr>pl_minimumNextClosingKey := None,
                       pl_update := Some (nxt\<lparr>cu_minimumNextClosingOn := Some None\<rparr>)\<rparr>)
           else Inr (st\<lparr>pl_update := Some nxt\<rparr>))"
      using False r
      by (cases mo; cases "pl_pendingClosingDay st")
        (auto simp: close_terms_def takes_pending_def assms(4) next_minimum_def split: option.splits)
    show ?thesis
    proof (cases "mo \<noteq> None \<and> next_minimum False n mo = None")
      case True
      with False n show ?thesis
        by (simp add: plan_step_def assms(1) dayKeyToDate_noon c [unfolded nxt_def] next_state_def Let_def)
    next
      case no: False
      then have eq: "map_option key (next_minimum False n mo) = pl_minimumNextClosingKey st"
        by (auto simp: next_minimum_def assms(4) split: option.splits if_splits)
      have "plan_step D sp crd es now st (key n) = Inr (st\<lparr>pl_update := Some nxt, pl_invoices := invoices,
          pl_lastBillingProcessedAt := Some now, pl_hasClosedCycle := True, pl_periodStartKey := key n,
          pl_includePeriodStart := False\<rparr>)"
        using n(1) by (simp add: plan_step_def assms(1) dayKeyToDate_noon nxt_def [symmetric] c [unfolded if_not_P [OF no]])
      moreover have "next_state sp crd now st n mo invoices = st\<lparr>pl_update := Some nxt, pl_invoices := invoices,
          pl_lastBillingProcessedAt := Some now, pl_hasClosedCycle := True, pl_periodStartKey := key n,
          pl_includePeriodStart := False\<rparr>"
        using False no unfolding next_state_def nxt_def Let_def
        by (cases st) (auto simp add: eq)
      ultimately show ?thesis by simp
    qed
  qed
qed

lemma noon_key [simp]: "dayKeyOfDate (noon n) = key n"
  by (simp add: dayKeyOfDate_day)

lemma synced_next:
  assumes "synced crd st" "pl_minimumNextClosingKey st = map_option key mo"
  shows "synced crd (next_state sp crd now st n mo invoices)"
proof (cases "takes_pending sp crd st (key n)")
  case True
  then have "\<exists>d. pl_pendingClosingDay st = Some d" by (auto simp: takes_pending_def)
  with True show ?thesis
    using noon_key [of "n + 28"]
    by (auto simp: synced_def next_state_def Let_def updated_card_def apply_card_update_def next_minimum_def)
next
  case False
  show ?thesis
  proof (cases "mo \<noteq> None \<and> next_minimum False n mo = None")
    case True
    with False assms show ?thesis
      by (cases "pl_update st")
        (simp_all add: synced_def next_state_def Let_def updated_card_def apply_card_update_def next_update_def)
  next
    case no: False
    then have "map_option key (next_minimum False n mo) = pl_minimumNextClosingKey st"
      by (auto simp: next_minimum_def assms(2) split: option.splits if_splits)
    with False no assms(1) show ?thesis
      by (cases "pl_update st")
        (auto simp add: synced_def next_state_def Let_def updated_card_def apply_card_update_def next_update_def)
  qed
qed

section \<open>The run of the planner\<close>

text \<open>
  The abstract run: from the last closing \<open>s\<close> and the minimum \<open>mo\<close>, close on the first closing day
  that qualifies, until there is none up to the cutoff. The list collects the closings.
\<close>

definition billed_invoices ::
    "decimal_lib \<Rightarrow> tz_offset \<Rightarrow> billable_expense list \<Rightarrow> 'a billing_card_scheme \<Rightarrow> plan_state \<Rightarrow> int \<Rightarrow> int
     \<Rightarrow> planned_invoice list \<Rightarrow> bool" where
  "billed_invoices D sp es crd st s n new \<longleftrightarrow>
     (if cycle_invoice D sp es crd st s n > 0 then \<exists>notes. new = [\<lparr>pi_closingOn = noon n, pi_periodStart = noon s,
        pi_amount = cycle_invoice D sp es crd st s n, pi_notes = notes\<rparr>] else new = [])"

inductive billing_run ::
    "decimal_lib \<Rightarrow> tz_offset \<Rightarrow> billable_expense list \<Rightarrow> 'a billing_card_scheme \<Rightarrow> instant \<Rightarrow> int \<Rightarrow> plan_state
     \<Rightarrow> int \<Rightarrow> int option \<Rightarrow> int list \<Rightarrow> plan_state \<Rightarrow> bool"
  for D sp es crd now c
where
  stop: "(\<And>n. \<not> closes (pl_closingDay st) s mo c n) \<Longrightarrow> billing_run D sp es crd now c st s mo [] st"
| close: "first_closing (pl_closingDay st) s mo c n \<Longrightarrow> billed_invoices D sp es crd st s n new \<Longrightarrow>
    billing_run D sp es crd now c (next_state sp crd now st n mo (pl_invoices st @ new)) n
      (next_minimum (takes_pending sp crd st (key n)) n mo) ns st' \<Longrightarrow>
    billing_run D sp es crd now c st s mo (n # ns) st'"

lemma next_state_sel [simp]:
  "pl_invoices (next_state sp crd now st n mo invoices) = invoices"
  "pl_periodStartKey (next_state sp crd now st n mo invoices) = key n"
  "pl_lastBillingProcessedAt (next_state sp crd now st n mo invoices) = Some now"
  "pl_hasClosedCycle (next_state sp crd now st n mo invoices)"
  "\<not> pl_includePeriodStart (next_state sp crd now st n mo invoices)"
  "pl_minimumNextClosingKey (next_state sp crd now st n mo invoices)
    = map_option key (next_minimum (takes_pending sp crd st (key n)) n mo)"
  by (simp_all add: next_state_def Let_def)

lemma next_state_update:
  "\<exists>u. pl_update (next_state sp crd now st n mo invoices) = Some u \<and>
    cu_lastInvoicedOn u = noon n \<and> cu_lastBillingProcessedAt u = now"
  by (cases "pl_update st") (auto simp: next_state_def Let_def next_update_def)

lemma ok_next_minimum: "ok_option mo \<Longrightarrow> roomy n \<Longrightarrow> ok_option (next_minimum t n mo)"
  by (auto simp: ok_option_def next_minimum_def roomy_def ok_day_def split: option.split)

lemma at_day_next:
  assumes "at_day st s0 c s mo" "s < n" "n \<le> c" "roomy n"
  shows "at_day (next_state sp crd now st n mo invoices) s0 c n (next_minimum (takes_pending sp crd st (key n)) n mo)"
  using assms ok_next_minimum by (auto simp: at_day_def)

context decimal_arith
begin

lemma plan_loop_run:
  assumes "billing_ok D sp es (bc_id crd) now s0 c" "ok_day (local_day sp (card_createdAt crd))"
    and "at_day st s0 c s mo" "nat (c - s) < fuel"
  shows "\<exists>ns st'. plan_loop fuel D sp crd es (key c) now st = Inr st' \<and> billing_run D sp es crd now c st s mo ns st'"
  using assms(3,4)
proof (induction fuel arbitrary: st s mo)
  case (Suc i)
  consider (close) n where "find_closing st (key c) = Inr (Some (key n))" "first_closing (pl_closingDay st) s mo c n"
    | (stop) "find_closing st (key c) = Inr None" "\<forall>n. \<not> closes (pl_closingDay st) s mo c n"
    using find_closing_at [OF assms(1) Suc.prems(1)] by blast
  then show ?case
  proof cases
    case stop
    then show ?thesis by (auto intro: billing_run.stop)
  next
    case close
    then have n: "s < n" "n \<le> c" by (auto simp: first_closing_def closes_def)
    note w = at_day_window(3) [OF assms(1) Suc.prems(1) n]
    obtain new where
      new: "bill_cycle D sp crd es st (key n) = Inr (pl_invoices st @ new)" "billed_invoices D sp es crd st s n new"
      using bill_cycle_spec(1) [OF assms(1) Suc.prems(1) n assms(2)]
      by (cases "cycle_invoice D sp es crd st s n > 0") (auto simp: billed_invoices_def)
    have step: "plan_step D sp crd es now st (key n) = Inr (next_state sp crd now st n mo (pl_invoices st @ new))"
      using Suc.prems(1) by (intro plan_step_state new w) (auto simp: at_day_def)
    have "nat (c - n) < i" using n Suc.prems(2) by linarith
    from Suc.IH [OF at_day_next [OF Suc.prems(1) n w, of sp crd now "pl_invoices st @ new"] this]
    obtain ns st' where "plan_loop i D sp crd es (key c) now (next_state sp crd now st n mo (pl_invoices st @ new)) = Inr st'"
      "billing_run D sp es crd now c (next_state sp crd now st n mo (pl_invoices st @ new)) n
         (next_minimum (takes_pending sp crd st (key n)) n mo) ns st'"
      by auto
    with billing_run.close [OF close(2) new(2)] close(1) step show ?thesis by auto
  qed
qed simp

end


lemma billing_run_end:
  assumes "billing_run D sp es crd now c st s mo ns st'" "billing_ok D sp es (bc_id crd) now s0 c"
    and "at_day st s0 c s mo" "synced crd st"
  shows "(ns = [] \<longrightarrow> st' = st)
    \<and> (ns \<noteq> [] \<longrightarrow> (\<exists>u. pl_update st' = Some u \<and> cu_lastInvoicedOn u = noon (last ns) \<and> cu_lastBillingProcessedAt u = now))
    \<and> synced crd st'
    \<and> (\<exists>mo'. at_day st' s0 c (last (s # ns)) mo' \<and> (\<forall>n. \<not> closes (pl_closingDay st') (last (s # ns)) mo' c n))"
  using assms(1,3,4)
proof induction
  case (close st s mo n new ns st')
  then have n: "s < n" "n \<le> c" by (auto simp: first_closing_def closes_def)
  note w = at_day_window(3) [OF assms(2) close.prems(1) n]
  let ?st = "next_state sp crd now st n mo (pl_invoices st @ new)"
  have "synced crd ?st" using close.prems by (intro synced_next) (auto simp: at_day_def)
  note IH = close.IH [OF at_day_next [OF close.prems(1) n w] this]
  show ?case
  proof (cases "ns = []")
    case True
    with IH next_state_update [of sp crd now st n mo "pl_invoices st @ new"] show ?thesis by auto
  qed (use IH in auto)
qed auto


lemma billing_run_windows:
  assumes "decimal_arith D" "billing_run D sp es crd now c st s mo ns st'"
    and "billing_ok D sp es (bc_id crd) now s0 c" "at_day st s0 c s mo" "ok_day (local_day sp (card_createdAt crd))"
  shows "\<exists>new. pl_invoices st' = pl_invoices st @ new
    \<and> (\<forall>i \<in> set new. pi_amount i > 0 \<and> cents (pi_amount i) \<and> noon s \<le> pi_periodStart i \<and> pi_periodStart i < pi_closingOn i)
    \<and> sorted_wrt (\<lambda>i j. pi_closingOn i \<le> pi_periodStart j) new"
  using assms(2,4)
proof induction
  case (close st s mo n new ns st')
  then have n: "s < n" "n \<le> c" by (auto simp: first_closing_def closes_def)
  note w = at_day_window(3) [OF assms(3) close.prems(1) n]
  from close.IH [OF at_day_next [OF close.prems(1) n w]] obtain new' where
    new': "pl_invoices st' = pl_invoices st @ new @ new'"
      "\<forall>i \<in> set new'. pi_amount i > 0 \<and> cents (pi_amount i) \<and> noon n \<le> pi_periodStart i \<and> pi_periodStart i < pi_closingOn i"
      "sorted_wrt (\<lambda>i j. pi_closingOn i \<le> pi_periodStart j) new'"
    by auto
  have new: "\<forall>i \<in> set new. pi_amount i > 0 \<and> cents (pi_amount i) \<and> pi_periodStart i = noon s \<and> pi_closingOn i = noon n"
    "length new \<le> 1"
    using close.hyps(2) decimal_arith.bill_cycle_spec(3) [OF assms(1,3) close.prems(1) n assms(5)]
    by (auto simp: billed_invoices_def split: if_splits)
  have "sorted_wrt (\<lambda>i j. pi_closingOn i \<le> pi_periodStart j) (new @ new')"
    using new new' by (cases new) (auto simp: sorted_wrt_append)
  moreover have "noon s < noon n" using n by simp
  ultimately show ?case
    using new new' by (intro exI [of _ "new @ new'"]) force
qed simp

section \<open>Properties\<close>

lemma plan_start_at:
  assumes "periodStartKey_of sp crd = key s0" "card_minimumNextClosingOn crd = map_option noon mo" "ok_option mo"
  shows "at_day (plan_start sp crd) s0 c s0 mo"
  using assms by (cases mo) (auto simp: at_day_def plan_start_def ok_option_def)

text \<open>Data the planner is run on, with the day the card has been invoiced through.\<close>

definition ok_plan ::
    "decimal_lib \<Rightarrow> tz_offset \<Rightarrow> 'a billing_card_scheme \<Rightarrow> billable_expense list \<Rightarrow> instant \<Rightarrow> int \<Rightarrow> int \<Rightarrow> bool" where
  "ok_plan D sp crd es now s0 c \<longleftrightarrow> billing_ok D sp es (bc_id crd) now s0 c
     \<and> periodStartKey_of sp crd = key s0 \<and> ok_day (local_day sp (card_createdAt crd))
     \<and> (case card_minimumNextClosingOn crd of None \<Rightarrow> True
        | Some t \<Rightarrow> ok_day (day_of t) \<and> t = noon (day_of t))"

lemma ok_planD:
  assumes "ok_plan D sp crd es now s0 c"
  obtains mo where "billing_ok D sp es (bc_id crd) now s0 c" "ok_day (local_day sp (card_createdAt crd))"
    "at_day (plan_start sp crd) s0 c s0 mo" "ok_day s0" "ok_day c"
proof -
  let ?mo = "map_option day_of (card_minimumNextClosingOn crd)"
  have "card_minimumNextClosingOn crd = map_option noon ?mo" "ok_option ?mo"
    using assms by (auto simp: ok_plan_def ok_option_def split: option.splits)
  from plan_start_at [OF _ this] assms have "at_day (plan_start sp crd) s0 c s0 ?mo" by (simp add: ok_plan_def)
  with assms that show ?thesis by (auto simp: ok_plan_def billing_ok_def)
qed

lemma plan_run:
  assumes "decimal_arith D" "ok_plan D sp crd es now s0 c"
  obtains ns st' mo where "planCardBilling D sp crd es (noon c) now = Inr (pl_invoices st', pl_update st')"
    "billing_run D sp es crd now c (plan_start sp crd) s0 mo ns st'" "at_day (plan_start sp crd) s0 c s0 mo"
proof -
  from ok_planD [OF assms(2)] obtain mo where h: "billing_ok D sp es (bc_id crd) now s0 c"
    "ok_day (local_day sp (card_createdAt crd))" "at_day (plan_start sp crd) s0 c s0 mo" "ok_day s0" "ok_day c" .
  have "pl_periodStartKey (plan_start sp crd) = key s0" using h(3) by (simp add: at_day_def)
  with h(4,5) have "plan_fuel (pl_periodStartKey (plan_start sp crd)) (key c) = nat (c - s0) + 1"
    by (simp add: plan_fuel_def diffDays_key)
  with decimal_arith.plan_loop_run [OF assms(1) h(1-3), of "nat (c - s0) + 1"] that h(3) show ?thesis
    by (auto simp: planCardBilling_def Let_def)
qed

lemma charged_bound:
  assumes "decimal_arith D" "ok_expenses sp es" "lo \<le> hi + 1"
  shows "charged D sp es cid lo hi \<le> of_nat (length es) * (10 ^ 12 * of_int (hi - lo + 1))"
proof -
  have "sum (day_amount D e cid) (days_of (charge_day sp e) lo hi) \<le> 10 ^ 12 * of_int (hi - lo + 1)"
    if "e \<in> set es" for e
  proof -
    have e: "stored_expense e" using assms(2) that by (auto simp: ok_expenses_def list_all_iff)
    then have b: "stored_splits (be_splits e)" "stored_amount (be_amount e)"
      "list_all stored_version (be_obligationVersions e)" by (auto simp: stored_expense_def)
    have "day_amount D e cid n \<le> 10 ^ 12" for n
      using decimal_arith.card_share_bounds(3) [OF assms(1) b(1,2), of cid]
        decimal_arith.version_share_bounds(3) [OF assms(1) b(3), of cid]
      by (simp add: day_amount_def share_on_def)
    then have "sum (day_amount D e cid) (days_of (charge_day sp e) lo hi)
        \<le> of_nat (card (days_of (charge_day sp e) lo hi)) * 10 ^ 12"
      by (intro sum_bounded_above)
    also have "\<dots> \<le> of_int (hi - lo + 1) * 10 ^ 12"
      using card_days_of_le [OF assms(3), of "charge_day sp e"]
      by (intro mult_right_mono) (metis of_int_le_iff of_int_of_nat_eq, simp)
    finally show ?thesis by (simp add: mult.commute)
  qed
  then have "(\<Sum>e \<leftarrow> es. sum (day_amount D e cid) (days_of (charge_day sp e) lo hi))
      \<le> (\<Sum>e \<leftarrow> es. 10 ^ 12 * of_int (hi - lo + 1))"
    by (intro sum_list_mono)
  then show ?thesis by (simp add: charged_def sum_list_triv)
qed

text \<open>A card closed on 31 January 2026, with two monthly expenses, billed on 3 April.\<close>

definition sample_card :: billing_card where
  "sample_card = \<lparr>card_closingDay = 31, card_createdAt = noon 20450, card_lastInvoicedOn = Some (noon 20484),
     card_minimumNextClosingOn = None, bc_id = ''card-1'', bc_pendingClosingDay = Some 10,
     bc_pendingClosingDaySetAt = Some (noon 20500), bc_lastBillingProcessedAt = Some (noon 20485)\<rparr>"

lemma sample_card_start: "periodStartKey_of sao_paulo_standard sample_card = key 20484"
  using noon_key [of 20484] by (simp add: periodStartKey_of_def sample_card_def)

lemma sample_ok_plan:
  "ok_plan decimal_js sao_paulo_standard sample_card [gym, rising_rent] (noon 20546) 20484 20545"
proof -
  have e: "ok_expenses sao_paulo_standard [gym, rising_rent]"
    using gym_ok rising_rent_ok by (simp add: ok_expenses_def) code_simp
  have "charged decimal_js sao_paulo_standard [gym, rising_rent] ''card-1'' 20484 20545 < 10 ^ 17"
    using charged_bound [OF js_decimal.decimal_arith_axioms e, of 20484 20545 "''card-1''"] by simp
  moreover have "ok_day (20484 - 40)" "ok_day 20484" "roomy 20545" "ok_month (month_idx 20545 + 1)"
    "month_idx 20545 < month_idx 20484 + 1199" "ok_day (local_day sao_paulo_standard (noon 20450))"
    by code_simp+
  moreover have "list_all (\<lambda>e. be_createdAt e \<le> noon 20546) [gym, rising_rent]"
    by (simp add: gym_def rising_rent_def)
  ultimately show ?thesis
    using e unfolding ok_plan_def billing_ok_def sample_card_start by (simp add: sample_card_def)
qed



text \<open>Billing is idempotent: once the update is written to the card, planning again with the
  same cutoff finds nothing to invoice and nothing to update, whatever the expenses and the
  clock are then.\<close>

theorem planning_again_plans_nothing:
  assumes "decimal_arith D" "ok_plan D sp crd es now s0 c"
    and "planCardBilling D sp crd es (noon c) now = Inr (invoices, update)"
  shows "planCardBilling D sp (updated_card update crd) es' (noon c) now' = Inr ([], None)"
proof -
  from ok_planD [OF assms(2)] have h: "billing_ok D sp es (bc_id crd) now s0 c"
    "ok_day (local_day sp (card_createdAt crd))" by blast+
  from plan_run [OF assms(1,2)] obtain ns st' mo where
    p: "planCardBilling D sp crd es (noon c) now = Inr (pl_invoices st', pl_update st')"
    and r: "billing_run D sp es crd now c (plan_start sp crd) s0 mo ns st'" "at_day (plan_start sp crd) s0 c s0 mo" .
  from billing_run_end [OF r(1) h(1) r(2) synced_start] obtain mo' where
    fin: "ns = [] \<longrightarrow> st' = plan_start sp crd"
      "ns \<noteq> [] \<longrightarrow> (\<exists>u. pl_update st' = Some u \<and> cu_lastInvoicedOn u = noon (last ns))"
      "synced crd st'" "at_day st' s0 c (last (s0 # ns)) mo'"
      "\<forall>n. \<not> closes (pl_closingDay st') (last (s0 # ns)) mo' c n" by blast
  let ?crd = "updated_card update crd"
  have u: "update = pl_update st'" using p assms(3) by simp
  have start: "pl_periodStartKey (plan_start sp ?crd) = pl_periodStartKey st'"
    "pl_closingDay (plan_start sp ?crd) = pl_closingDay st'"
    "pl_minimumNextClosingKey (plan_start sp ?crd) = pl_minimumNextClosingKey st'"
  proof -
    show "pl_periodStartKey (plan_start sp ?crd) = pl_periodStartKey st'"
    proof (cases "ns = []")
      case True
      with fin(1) u show ?thesis by (simp add: plan_start_def updated_card_def)
    next
      case False
      with fin(2,4) u show ?thesis
        by (auto simp: plan_start_def updated_card_def periodStartKey_of_def apply_card_update_def at_day_def)
    qed
  qed (use fin(3) u in \<open>simp_all add: plan_start_def synced_def\<close>)
  then have "find_closing (plan_start sp ?crd) (key c) = find_closing st' (key c)"
    by (simp add: find_closing_def)
  also have "\<dots> = Inr None" using find_closing_at [OF h(1) fin(4)] fin(5) by (auto simp: first_closing_def)
  finally have none: "find_closing (plan_start sp ?crd) (key c) = Inr None" .
  obtain i where "plan_fuel (pl_periodStartKey (plan_start sp ?crd)) (key c) = Suc i"
    by (cases "diffDays (key c) (pl_periodStartKey (plan_start sp ?crd))") (simp_all add: plan_fuel_def)
  with none show ?thesis by (simp add: planCardBilling_def Let_def) (simp add: plan_start_def)
qed

theorem planning_again_plans_nothing_witness:
  "\<exists>invoices update. planCardBilling decimal_js sao_paulo_standard sample_card [gym, rising_rent] (noon 20545) (noon 20546)
      = Inr (invoices, update)
    \<and> planCardBilling decimal_js sao_paulo_standard (updated_card update sample_card) [gym] (noon 20545) (noon 20600)
      = Inr ([], None)"
  using plan_run [OF js_decimal.decimal_arith_axioms sample_ok_plan]
    planning_again_plans_nothing [OF js_decimal.decimal_arith_axioms sample_ok_plan]
  by metis

text \<open>The invoices of a plan are positive amounts of whole cents, each over a period that ends
  after it starts, in order and without overlap.\<close>

theorem planned_invoices_do_not_overlap:
  assumes "decimal_arith D" "ok_plan D sp crd es now s0 c"
    and "planCardBilling D sp crd es (noon c) now = Inr (invoices, update)"
  shows "sorted_wrt (\<lambda>i j. pi_closingOn i \<le> pi_periodStart j) invoices
    \<and> (\<forall>i \<in> set invoices. pi_amount i > 0 \<and> cents (pi_amount i) \<and> noon s0 \<le> pi_periodStart i
        \<and> pi_periodStart i < pi_closingOn i)"
proof -
  from ok_planD [OF assms(2)] have h: "billing_ok D sp es (bc_id crd) now s0 c"
    "ok_day (local_day sp (card_createdAt crd))" by blast+
  from plan_run [OF assms(1,2)] obtain ns st' mo where
    p: "planCardBilling D sp crd es (noon c) now = Inr (pl_invoices st', pl_update st')"
    and r: "billing_run D sp es crd now c (plan_start sp crd) s0 mo ns st'" "at_day (plan_start sp crd) s0 c s0 mo" .
  from billing_run_windows [OF assms(1) r(1) h(1) r(2) h(2)] p assms(3) show ?thesis
    by (auto simp: plan_start_def)
qed

theorem planned_invoices_do_not_overlap_witness:
  "\<exists>invoices update. planCardBilling decimal_js sao_paulo_standard sample_card [gym, rising_rent] (noon 20545) (noon 20546)
      = Inr (invoices, update)
    \<and> sorted_wrt (\<lambda>i j. pi_closingOn i \<le> pi_periodStart j) invoices"
  using plan_run [OF js_decimal.decimal_arith_axioms sample_ok_plan]
    planned_invoices_do_not_overlap [OF js_decimal.decimal_arith_axioms sample_ok_plan]
  by metis

text \<open>C20. A change of the closing day takes effect when a cycle closes, and never makes the next
  cycle shorter than 28 days: the next closing the planner finds is at least 28 days later.\<close>

theorem closing_change_keeps_28_days:
  assumes "decimal_arith D" "billing_ok D sp es (bc_id crd) now s0 c" "ok_day (local_day sp (card_createdAt crd))"
    and "at_day st s0 c s mo" "s < n" "n \<le> c"
    and "pl_pendingClosingDay st = Some d" "bc_pendingClosingDaySetAt crd = Some setAt"
    and "ok_day (local_day sp setAt)" "local_day sp setAt \<le> n"
  shows "\<exists>st'. plan_step D sp crd es now st (key n) = Inr st' \<and> pl_closingDay st' = d
    \<and> pl_pendingClosingDay st' = None
    \<and> (\<forall>k. find_closing st' (key c) = Inr (Some k) \<longrightarrow> (\<exists>n'. k = key n' \<and> n + 28 \<le> n' \<and> is_due_day d n'))"
proof -
  note w = at_day_window(3) [OF assms(2,4,5,6)]
  obtain new where "bill_cycle D sp crd es st (key n) = Inr (pl_invoices st @ new)"
    using decimal_arith.bill_cycle_spec(1) [OF assms(1,2,4,5,6,3)] by auto
  then have step: "plan_step D sp crd es now st (key n) = Inr (next_state sp crd now st n mo (pl_invoices st @ new))"
    using assms(4) by (intro plan_step_state w) (auto simp: at_day_def)
  let ?st = "next_state sp crd now st n mo (pl_invoices st @ new)"
  have t: "takes_pending sp crd st (key n)"
    using assms(7-10) roomy_ok [OF w] dayKeyInSaoPaulo_key [of setAt sp]
    by (simp add: takes_pending_def local_day_def compareDayKeys_signs)
  then have new: "pl_closingDay ?st = d" "pl_pendingClosingDay ?st = None"
    using assms(7) by (simp_all add: next_state_def Let_def)
  have "\<exists>n'. k = key n' \<and> n + 28 \<le> n' \<and> is_due_day d n'" if "find_closing ?st (key c) = Inr (Some k)" for k
    using find_closing_at [OF assms(2) at_day_next [OF assms(4-6) w, of sp crd now "pl_invoices st @ new"]] that t new(1)
    by (auto simp: first_closing_def closes_def next_minimum_def)
  with step new show ?thesis by blast
qed

theorem closing_change_keeps_28_days_witness:
  "\<exists>st'. plan_step decimal_js sao_paulo_standard sample_card [gym, rising_rent] (noon 20546)
      (plan_start sao_paulo_standard sample_card) (key 20512) = Inr st' \<and> pl_closingDay st' = 10
    \<and> (\<forall>k. find_closing st' (key 20545) = Inr (Some k) \<longrightarrow> (\<exists>n'. k = key n' \<and> 20540 \<le> n'))"
proof -
  have h: "billing_ok decimal_js sao_paulo_standard [gym, rising_rent] (bc_id sample_card) (noon 20546) 20484 20545"
    "ok_day (local_day sao_paulo_standard (card_createdAt sample_card))"
    using sample_ok_plan by (simp_all add: ok_plan_def)
  have at: "at_day (plan_start sao_paulo_standard sample_card) 20484 20545 20484 None"
    using sample_card_start by (simp add: at_day_def plan_start_def ok_option_def) (simp add: sample_card_def)
  have "ok_day (local_day sao_paulo_standard (noon 20500))" "local_day sao_paulo_standard (noon 20500) \<le> 20512"
    by code_simp+
  with closing_change_keeps_28_days [OF js_decimal.decimal_arith_axioms h at, of 20512 10 "noon 20500"]
  show ?thesis by (auto simp: plan_start_def sample_card_def)
qed

end
