(* ===== verification/JS_Values.thy ===== *)
theory JS_Values
  imports Prelude
begin

text \<open>
  The conversions of JavaScript values that the program uses on request bodies: truthiness,
  \<open>String(x)\<close>, \<open>Number(x)\<close>, \<open>trim\<close>, and the decimal text that money is written in. A number is the
  rational it prints as; \<open>js_to_number\<close> is \<open>None\<close> for \<open>NaN\<close> and the infinities. \<open>double\<close> is the
  nearest IEEE double of a rational, for the few places where the program subtracts and compares
  floating-point numbers.
\<close>

section \<open>Decimal text\<close>

text \<open>\<open>/^\d+(?:\.\d{1,2})?$/\<close>\<close>

definition is_decimal_text :: "string \<Rightarrow> bool" where
  "is_decimal_text s \<longleftrightarrow>
     (let whole = takeWhile is_digit s; rest = dropWhile is_digit s in
      whole \<noteq> [] \<and> (rest = [] \<or>
        hd rest = CHR ''.'' \<and> list_all is_digit (tl rest) \<and> (length (tl rest) = 1 \<or> length (tl rest) = 2)))"

definition decimal_text_val :: "string \<Rightarrow> rat" where
  "decimal_text_val s =
     (let whole = takeWhile is_digit s; frac = tl (dropWhile is_digit s) in
      if dropWhile is_digit s = [] then of_int (digits_val whole)
      else of_int (digits_val (whole @ frac)) / 10 ^ length frac)"

text \<open>\<open>String(d)\<close> of a decimal with at most two places: no trailing zeros.\<close>

definition decimal_text :: "rat \<Rightarrow> string" where
  "decimal_text a =
     (let c = nat \<lfloor>a * 100\<rfloor>; whole = nat_digits (c div 100); d = c mod 100 in
      if d = 0 then whole
      else if d mod 10 = 0 then whole @ ''.'' @ [digit_char (d div 10)]
      else whole @ ''.'' @ [digit_char (d div 10), digit_char (d mod 10)])"

text \<open>\<open>toFixed(2)\<close> of a number of whole cents.\<close>

definition fixed2_text :: "rat \<Rightarrow> string" where
  "fixed2_text a =
     (let c = nat \<lfloor>\<bar>a\<bar> * 100\<rfloor> in
      (if a < 0 then ''-'' else []) @ nat_digits (c div 100) @ ''.''
        @ [digit_char (c mod 100 div 10), digit_char (c mod 10)])"

text \<open>\<open>Math.round(Number(x) * 100)\<close>, on the exact value.\<close>

definition round_cents :: "rat \<Rightarrow> int" where
  "round_cents x = \<lfloor>x * 100 + 1/2\<rfloor>"

definition comma_text :: "string \<Rightarrow> string" where
  "comma_text s = takeWhile (\<lambda>c. c \<noteq> CHR ''.'') s @
     (case dropWhile (\<lambda>c. c \<noteq> CHR ''.'') s of [] \<Rightarrow> [] | c # rest \<Rightarrow> CHR '','' # rest)"

section \<open>Truthiness and text\<close>

definition js_truthy :: "js \<Rightarrow> bool" where
  "js_truthy v = (case v of
     JUndefined \<Rightarrow> False | JNull \<Rightarrow> False | JBool b \<Rightarrow> b | JNumber r \<Rightarrow> r \<noteq> 0 | JString s \<Rightarrow> s \<noteq> []
   | JArray xs \<Rightarrow> True | JObject fs \<Rightarrow> True)"

text \<open>\<open>x == null\<close>.\<close>

definition js_nullish :: "js \<Rightarrow> bool" where
  "js_nullish v \<longleftrightarrow> v = JUndefined \<or> v = JNull"

fun fraction_digits :: "nat \<Rightarrow> rat \<Rightarrow> string" where
  "fraction_digits 0 r = []"
| "fraction_digits (Suc i) r =
     (if r = 0 then [] else digit_char (nat \<lfloor>r * 10\<rfloor>) # fraction_digits i (r * 10 - of_int \<lfloor>r * 10\<rfloor>))"

text \<open>Up to 25 places, more than a double prints.\<close>

definition plain_number_text :: "rat \<Rightarrow> string" where
  "plain_number_text r =
     (let whole = \<lfloor>r\<rfloor>; frac = fraction_digits 25 (r - of_int \<lfloor>r\<rfloor>) in
      int_to_string whole @ (if frac = [] then [] else CHR ''.'' # frac))"

definition number_text :: "rat \<Rightarrow> string" where
  "number_text r =
     (let a = \<bar>r\<bar>; sign = (if r < 0 then ''-'' else []) in
      if a = 0 then ''0''
      else if a < 1 / 10 ^ 6 then
        (case find (\<lambda>e. 1 \<le> a * 10 ^ e) [7..<325] of
           Some e \<Rightarrow> sign @ plain_number_text (a * 10 ^ e) @ ''e-'' @ nat_digits e | None \<Rightarrow> ''0'')
      else if a < 10 ^ 21 then sign @ plain_number_text a
      else
        (case find (\<lambda>e. a < 10 ^ (e + 1)) [21..<309] of
           Some e \<Rightarrow> sign @ plain_number_text (a / 10 ^ e) @ ''e+'' @ nat_digits e | None \<Rightarrow> sign @ ''Infinity''))"

fun join_with :: "string \<Rightarrow> string list \<Rightarrow> string" where
  "join_with sep [] = []"
| "join_with sep [x] = x"
| "join_with sep (x # y # ys) = x @ sep @ join_with sep (y # ys)"

text \<open>\<open>String(x)\<close>; in a joined array \<open>undefined\<close> and \<open>null\<close> are empty.\<close>

fun js_to_string :: "js \<Rightarrow> string" where
  "js_to_string JUndefined = ''undefined''"
| "js_to_string JNull = ''null''"
| "js_to_string (JBool b) = (if b then ''true'' else ''false'')"
| "js_to_string (JNumber r) = number_text r"
| "js_to_string (JString s) = s"
| "js_to_string (JArray xs) = join_with '','' (map (\<lambda>x. if js_nullish x then [] else js_to_string x) xs)"
| "js_to_string (JObject fs) = ''[object Object]''"

section \<open>Numbers\<close>

definition is_space :: "char \<Rightarrow> bool" where
  "is_space c \<longleftrightarrow> (of_char c :: nat) \<in> {9, 10, 11, 12, 13, 32, 160}"

definition trim :: "string \<Rightarrow> string" where
  "trim s = rev (dropWhile is_space (rev (dropWhile is_space s)))"

definition split_sign :: "string \<Rightarrow> rat \<times> string" where
  "split_sign s = (case s of
     c # rest \<Rightarrow> (if c = CHR ''-'' then (-1, rest) else if c = CHR ''+'' then (1, rest) else (1, s))
   | [] \<Rightarrow> (1, s))"

text \<open>Digits, an optional fraction, an optional exponent; at least one digit before the exponent.\<close>

definition decimal_literal :: "string \<Rightarrow> rat option" where
  "decimal_literal s =
     (let whole = takeWhile is_digit s; r1 = dropWhile is_digit s;
          dotted = (r1 \<noteq> [] \<and> hd r1 = CHR ''.'');
          frac = (if dotted then takeWhile is_digit (tl r1) else []);
          r2 = (if dotted then dropWhile is_digit (tl r1) else r1);
          mantissa = of_int (digits_val (whole @ frac)) / 10 ^ length frac in
      if whole = [] \<and> frac = [] then None
      else if r2 = [] then Some mantissa
      else if hd r2 = CHR ''e'' \<or> hd r2 = CHR ''E'' then
        (let (sign, digits) = split_sign (tl r2) in
         if digits = [] \<or> \<not> list_all is_digit digits then None
         else if sign < 0 then Some (mantissa / 10 ^ nat (digits_val digits))
         else Some (mantissa * 10 ^ nat (digits_val digits)))
      else None)"

definition radix_digit :: "char \<Rightarrow> int" where
  "radix_digit c =
     (if is_digit c then digit_val c
      else if CHR ''a'' \<le> c \<and> c \<le> CHR ''f'' then int (of_char c) - 87
      else if CHR ''A'' \<le> c \<and> c \<le> CHR ''F'' then int (of_char c) - 55
      else 99)"

definition radix_literal :: "int \<Rightarrow> string \<Rightarrow> rat option" where
  "radix_literal base s =
     (if s = [] \<or> \<not> list_all (\<lambda>c. radix_digit c < base) s then None
      else Some (of_int (foldl (\<lambda>n c. n * base + radix_digit c) 0 s)))"

definition string_to_number :: "string \<Rightarrow> rat option" where
  "string_to_number s0 =
     (let s = trim s0; prefix = take 2 s; digits = drop 2 s in
      if s = [] then Some 0
      else if prefix = ''0x'' \<or> prefix = ''0X'' then radix_literal 16 digits
      else if prefix = ''0o'' \<or> prefix = ''0O'' then radix_literal 8 digits
      else if prefix = ''0b'' \<or> prefix = ''0B'' then radix_literal 2 digits
      else (let (sign, rest) = split_sign s in map_option (\<lambda>r. sign * r) (decimal_literal rest)))"

definition js_to_number :: "js \<Rightarrow> rat option" where
  "js_to_number v = (case v of
     JUndefined \<Rightarrow> None | JNull \<Rightarrow> Some 0 | JBool b \<Rightarrow> Some (if b then 1 else 0) | JNumber r \<Rightarrow> Some r
   | JString s \<Rightarrow> string_to_number s | JArray xs \<Rightarrow> string_to_number (js_to_string v) | JObject fs \<Rightarrow> None)"

section \<open>Doubles\<close>

definition half_even_int :: "rat \<Rightarrow> int" where
  "half_even_int x =
     (let f = \<lfloor>x\<rfloor>; d = x - of_int f in
      if d < 1/2 then f else if d > 1/2 then f + 1 else if even f then f else f + 1)"

text \<open>How often to double a number, or halve it, to bring it to 53 bits before the point.\<close>

fun doublings :: "nat \<Rightarrow> rat \<Rightarrow> nat \<Rightarrow> nat" where
  "doublings 0 a e = e"
| "doublings (Suc i) a e = (if 2 ^ 52 \<le> a then e else doublings i (2 * a) (e + 1))"

fun halvings :: "nat \<Rightarrow> rat \<Rightarrow> nat \<Rightarrow> nat" where
  "halvings 0 a e = e"
| "halvings (Suc i) a e = (if a < 2 ^ 53 then e else halvings i (a / 2) (e + 1))"

text \<open>The nearest number with 53 significant bits (the exponent range is that of normal doubles).\<close>

definition double :: "rat \<Rightarrow> rat" where
  "double x =
     (let up = doublings 1074 \<bar>x\<bar> 0; down = halvings 971 \<bar>x\<bar> 0 in
      if x = 0 then 0
      else if up > 0 then of_int (half_even_int (x * 2 ^ up)) / 2 ^ up
      else of_int (half_even_int (x / 2 ^ down)) * 2 ^ down)"

end
