(* ===== verification/Obligations.thy ===== *)
theory Obligations
  imports Charge_Amounts JS_Values
begin

text \<open>
  \<open>backend/src/lib/billing/obligation-versions.ts\<close> and \<open>retroactive-recurring.ts\<close>: the immutable
  versions of a recurring expense, stored as JSON snapshots, and the guards against rewriting
  charges that were already invoiced.

  The persisted splits are an unknown JSON value; parsing them either gives back the splits or
  fails. \<open>String(decimal)\<close> is modelled for the two-place decimals the columns hold;
  \<open>Math.round(Number(x) * 100)\<close> on the exact value.
\<close>

section \<open>obligation-versions.ts\<close>

record snapshot_split =
  ss_kind :: string
  ss_cardId :: "string option"
  ss_amount :: rat
  ss_percent :: rat

record version_row =
  vr_sequence :: int
  vr_effectiveMonth :: string
  vr_amount :: rat
  vr_cardId :: "string option"
  vr_splits :: js

definition js_nullable :: "string option \<Rightarrow> js" where
  "js_nullable v = (case v of None \<Rightarrow> JNull | Some s \<Rightarrow> JString s)"

definition obligationSplitSnapshot :: "snapshot_split list \<Rightarrow> js" where
  "obligationSplitSnapshot splits = JArray (map (\<lambda>split. JObject
     [(''kind'', JString (ss_kind split)), (''cardId'', js_nullable (ss_cardId split)),
      (''amount'', JString (decimal_text (ss_amount split))),
      (''percent'', JString (decimal_text (ss_percent split)))]) splits)"

definition is_decimal_field :: "js \<Rightarrow> bool" where
  "is_decimal_field v = (case v of JString s \<Rightarrow> is_decimal_text s | _ \<Rightarrow> False)"

definition isSplit :: "js \<Rightarrow> bool" where
  "isSplit value =
     (case value of
        JObject split \<Rightarrow>
          ((js_field split ''kind'' = JString ''card'' \<and>
              (case js_field split ''cardId'' of JString s \<Rightarrow> s \<noteq> [] | _ \<Rightarrow> False)
            \<or> js_field split ''kind'' = JString ''pix'' \<and> js_field split ''cardId'' = JNull)
           \<and> is_decimal_field (js_field split ''amount'') \<and> is_decimal_field (js_field split ''percent''))
      | _ \<Rightarrow> False)"

definition js_text :: "js \<Rightarrow> string" where
  "js_text v = (case v of JString s \<Rightarrow> s | _ \<Rightarrow> [])"

definition split_of_json :: "js \<Rightarrow> billable_split" where
  "split_of_json value =
     (case value of
        JObject split \<Rightarrow> \<lparr>bs_kind = js_text (js_field split ''kind''),
          bs_cardId = (case js_field split ''cardId'' of JString s \<Rightarrow> Some s | _ \<Rightarrow> None),
          bs_amount = decimal_text_val (js_text (js_field split ''amount''))\<rparr>
      | _ \<Rightarrow> \<lparr>bs_kind = [], bs_cardId = None, bs_amount = 0\<rparr>)"

text \<open>\<open>/^\d{4}-(0[1-9]|1[0-2])$/\<close>\<close>

definition is_month_text :: "string \<Rightarrow> bool" where
  "is_month_text s \<longleftrightarrow> length s = 7 \<and> list_all is_digit (take 4 s) \<and> s ! 4 = CHR ''-''
     \<and> (s ! 5 = CHR ''0'' \<and> CHR ''1'' \<le> s ! 6 \<and> s ! 6 \<le> CHR ''9''
        \<or> s ! 5 = CHR ''1'' \<and> CHR ''0'' \<le> s ! 6 \<and> s ! 6 \<le> CHR ''2'')"

definition MAX_SAFE_INTEGER :: int where
  "MAX_SAFE_INTEGER = 9007199254740991"

definition invalid_version :: error where
  "invalid_version = PlainError ''Invalid persisted expense obligation version''"

definition parse_version_row :: "version_row \<Rightarrow> obligation_version res" where
  "parse_version_row row =
     (case vr_splits row of
        JArray items \<Rightarrow>
          res_when (\<not> is_month_text (vr_effectiveMonth row) \<or> \<bar>vr_sequence row\<bar> > MAX_SAFE_INTEGER
                    \<or> vr_sequence row < 1 \<or> \<not> list_all isSplit items) invalid_version
            (let splits = map split_of_json items;
                 sumCents = (\<Sum>split \<leftarrow> splits. round_cents (bs_amount split)) in
             res_when (splits \<noteq> [] \<and> sumCents \<noteq> round_cents (vr_amount row))
               (PlainError ''Persisted expense obligation splits do not match amount'')
               (Inr \<lparr>ov_sequence = vr_sequence row, ov_effectiveMonth = vr_effectiveMonth row,
                     ov_amount = vr_amount row, ov_cardId = vr_cardId row, ov_splits = splits\<rparr>))
      | _ \<Rightarrow> Inl invalid_version)"

definition parseObligationVersions :: "version_row list \<Rightarrow> obligation_version list res" where
  "parseObligationVersions rows = res_mapM parse_version_row rows"

definition legacyBaselineMonth :: "tz_offset \<Rightarrow> instant option \<Rightarrow> instant \<Rightarrow> string" where
  "legacyBaselineMonth sp startsAt createdAt =
     take 7 (case startsAt of Some d \<Rightarrow> dayKeyOfDate d | None \<Rightarrow> dayKeyInSaoPaulo sp createdAt)"

definition scheduleMovesEarlier :: "instant option \<Rightarrow> instant option \<Rightarrow> bool" where
  "scheduleMovesEarlier previous nxt =
     (case (previous, nxt) of (Some p, Some n) \<Rightarrow> n < p | _ \<Rightarrow> False)"

section \<open>retroactive-recurring.ts\<close>

definition hasRetroactiveClosedCardCharge ::
    "tz_offset \<Rightarrow> instant \<Rightarrow> instant option \<Rightarrow> string \<Rightarrow> rat \<Rightarrow> instant option \<Rightarrow> instant option \<Rightarrow> int option \<Rightarrow> bool res"
where
  "hasRetroactiveClosedCardCharge sp cardCreatedAt lastInvoicedOn frequency amount startsAt endsAt dueDay =
     (case lastInvoicedOn of
        None \<Rightarrow> Inr False
      | Some invoiced \<Rightarrow>
          (let periodStartKey = dayKeyInSaoPaulo sp cardCreatedAt; closingKey = dayKeyOfDate invoiced in
           if periodStartKey > closingKey then Inr False
           else
             res_bind (chargeOccurrences sp
                 \<lparr>be_amount = amount, be_cardId = None, be_isInvoice = False, be_frequency = frequency,
                  be_dueDay = dueDay, be_startsAt = startsAt, be_endsAt = endsAt, be_occurredAt = None,
                  be_createdAt = cardCreatedAt, be_archivedAt = None, be_splits = [],
                  be_obligationVersions = []\<rparr>
                 \<lparr>w_periodStartKey = periodStartKey, w_closingKey = closingKey, w_includePeriodStart = True\<rparr>)
               (\<lambda>n. Inr (n > 0))))"

record invoiced_card =
  ic_id :: string
  ic_lastInvoicedOn :: "instant option"
  ic_createdAt :: "instant option"

definition effective_terms :: "string \<Rightarrow> 'a billable_expense_scheme \<Rightarrow> 'a billable_expense_scheme" where
  "effective_terms effectiveMonth expense =
     (case active_version (be_obligationVersions expense) effectiveMonth of
        Some active \<Rightarrow> with_terms expense active
      | None \<Rightarrow> expense)"

definition month_end_key :: "string \<Rightarrow> day_key" where
  "month_end_key effectiveMonth =
     (let parts = split_on (CHR ''-'') effectiveMonth in
      dayKeyOfDate (date_UTC (digits_val (part_at parts 0)) (digits_val (part_at parts 1)) 0 12))"

definition min_key_str :: "day_key \<Rightarrow> day_key \<Rightarrow> day_key" where
  "min_key_str a b = (if b < a then b else a)"

text \<open>The day-by-day comparison of two projections over a closed history.\<close>

function footprint_differs ::
    "decimal_lib \<Rightarrow> tz_offset \<Rightarrow> 'a billable_expense_scheme \<Rightarrow> 'b billable_expense_scheme \<Rightarrow> string \<Rightarrow> nat
     \<Rightarrow> day_key \<Rightarrow> day_key \<Rightarrow> bool res" where
  "footprint_differs D sp before after cardId fuel day closedThrough =
     (if compareDayKeys day closedThrough \<le> 0 then
        (case fuel of
           0 \<Rightarrow> Inl (PlainError ''out of fuel'')
         | Suc i \<Rightarrow>
             (let daily = \<lparr>w_periodStartKey = day, w_closingKey = day, w_includePeriodStart = True\<rparr> in
              res_bind (chargeAmountDecimal D sp before cardId daily) (\<lambda>prior.
              res_bind (chargeAmountDecimal D sp after cardId daily) (\<lambda>proposed.
              if (prior > 0) \<noteq> (proposed > 0) then Inr True
              else res_bind (addDaysToKey day 1) (\<lambda>day'.
                   footprint_differs D sp before after cardId i day' closedThrough)))))
      else Inr False)"
  by pat_completeness auto
termination
  by (relation "measure (\<lambda>(D, sp, before, after, cardId, fuel, day, closedThrough). fuel)") auto

declare footprint_differs.simps [simp del]

text \<open>Whether the change of allocation touches a charge that a closed cycle has billed.\<close>

definition allocation_settled ::
    "decimal_lib \<Rightarrow> tz_offset \<Rightarrow> billable_expense \<Rightarrow> billable_expense \<Rightarrow> string \<Rightarrow> string \<Rightarrow> day_key \<Rightarrow> day_key \<Rightarrow> bool res"
where
  "allocation_settled D sp before after effectiveMonth cardId historyStart closedThrough =
     (let monthStart = effectiveMonth @ ''-01''; monthEnd = month_end_key effectiveMonth;
          oldTerms = effective_terms effectiveMonth before; newTerms = effective_terms effectiveMonth after;
          oldShare = splitShareFor D oldTerms (TCard cardId); newShare = splitShareFor D newTerms (TCard cardId);
          allocationChanged = (dec_mul D oldShare (be_amount newTerms) \<noteq> dec_mul D newShare (be_amount oldTerms)) in
      if allocationChanged \<and> compareDayKeys closedThrough monthStart \<ge> 0 then
        (let closingKey = (if compareDayKeys closedThrough monthEnd < 0 then closedThrough else monthEnd);
             cycleStart = (if compareDayKeys historyStart monthStart > 0 then historyStart else monthStart);
             window = \<lparr>w_periodStartKey = cycleStart, w_closingKey = closingKey, w_includePeriodStart = True\<rparr> in
         if compareDayKeys cycleStart closingKey \<le> 0 then
           res_bind (chargeAmountDecimal D sp before cardId window) (\<lambda>priorClosed.
           res_bind (chargeAmountDecimal D sp after cardId window) (\<lambda>proposedClosed.
           Inr (priorClosed > 0 \<or> proposedClosed > 0)))
         else Inr False)
      else Inr False)"

definition calendar_changed :: "billable_expense \<Rightarrow> billable_expense \<Rightarrow> bool" where
  "calendar_changed before after \<longleftrightarrow> be_frequency before \<noteq> be_frequency after
     \<or> be_dueDay before \<noteq> be_dueDay after
     \<or> map_option dayKeyOfDate (be_startsAt before) \<noteq> map_option dayKeyOfDate (be_startsAt after)"

definition schedule_changed :: "billable_expense \<Rightarrow> billable_expense \<Rightarrow> bool" where
  "schedule_changed before after \<longleftrightarrow> calendar_changed before after
     \<or> map_option dayKeyOfDate (be_endsAt before) \<noteq> map_option dayKeyOfDate (be_endsAt after)"

text \<open>Whether the change of schedule touches the closed history of a card.\<close>

definition schedule_settled ::
    "decimal_lib \<Rightarrow> tz_offset \<Rightarrow> billable_expense \<Rightarrow> billable_expense \<Rightarrow> string \<Rightarrow> day_key \<Rightarrow> day_key \<Rightarrow> bool res"
where
  "schedule_settled D sp before after cardId historyStart closedThrough =
     (if schedule_changed before after then
        (let window = \<lparr>w_periodStartKey = historyStart, w_closingKey = closedThrough, w_includePeriodStart = True\<rparr> in
         res_bind (chargeAmountDecimal D sp before cardId window) (\<lambda>previousClosed.
         res_bind (chargeAmountDecimal D sp after cardId window) (\<lambda>proposedClosed.
         if calendar_changed before after then
           (if previousClosed \<le> 0 \<and> proposedClosed \<le> 0 then Inr False
            else
              res_bind (diffDays closedThrough historyStart) (\<lambda>d.
              if d > 10000 then Inr True
              else footprint_differs D sp before after cardId (nat d + 1) historyStart closedThrough))
         else Inr (previousClosed \<noteq> proposedClosed))))
      else Inr False)"

definition hasSettledRecurringMutation ::
    "decimal_lib \<Rightarrow> tz_offset \<Rightarrow> billable_expense \<Rightarrow> billable_expense \<Rightarrow> invoiced_card list \<Rightarrow> string \<Rightarrow> bool res" where
  "hasSettledRecurringMutation D sp before after cards effectiveMonth =
     (let earliestStart = min_key_str (recurringStartKey sp before) (recurringStartKey sp after) in
      res_some (\<lambda>crd.
        case ic_lastInvoicedOn crd of
          None \<Rightarrow> Inr False
        | Some invoiced \<Rightarrow>
            (let closedThrough = dayKeyOfDate invoiced;
                 historyStart = (case ic_createdAt crd of
                    Some created \<Rightarrow> max_key (dayKeyInSaoPaulo sp created) earliestStart
                  | None \<Rightarrow> earliestStart) in
             if compareDayKeys historyStart closedThrough > 0 then Inr False
             else
               res_bind (allocation_settled D sp before after effectiveMonth (ic_id crd) historyStart closedThrough)
                 (\<lambda>hit. if hit then Inr True
                        else schedule_settled D sp before after (ic_id crd) historyStart closedThrough)))
        cards)"

section \<open>Decimal text round trip\<close>

lemma is_digit_char [simp]: "d < 10 \<Longrightarrow> is_digit (digit_char d)"
  by (auto simp: is_digit_iff)

lemma nat_digits_props: "list_all is_digit (nat_digits n) \<and> nat_digits n \<noteq> [] \<and> digits_val (nat_digits n) = int n"
proof (induction n rule: nat_digits.induct)
  case (1 n)
  show ?case
  proof (cases "n < 10")
    case True
    then show ?thesis by (simp add: nat_digits_small digits_val_def)
  next
    case False
    with 1 have IH: "list_all is_digit (nat_digits (n div 10))" "digits_val (nat_digits (n div 10)) = int (n div 10)"
      by auto
    have "digits_val [digit_char (n mod 10)] = int (n mod 10)" by (simp add: digits_val_def del: of_nat_mod)
    moreover have "int (n div 10) * 10 + int (n mod 10) = int n"
      by (metis div_mult_mod_eq of_nat_add of_nat_mult of_nat_numeral)
    ultimately show ?thesis
      using False IH by (simp add: nat_digits_step digits_val_append del: of_nat_div of_nat_mod)
  qed
qed

lemma take_digits:
  assumes "list_all is_digit xs"
  shows "takeWhile is_digit (xs @ CHR ''.'' # ys) = xs" "dropWhile is_digit (xs @ CHR ''.'' # ys) = CHR ''.'' # ys"
    "takeWhile is_digit xs = xs" "dropWhile is_digit xs = []"
proof -
  have dot: "\<not> is_digit (CHR ''.'')" by code_simp
  from assms show "takeWhile is_digit (xs @ CHR ''.'' # ys) = xs" "dropWhile is_digit (xs @ CHR ''.'' # ys) = CHR ''.'' # ys"
    "takeWhile is_digit xs = xs" "dropWhile is_digit xs = []"
    by (induction xs) (auto simp: dot)
qed

lemma stored_amount_cents:
  assumes "stored_amount a"
  obtains c where "a = of_nat c / 100"
proof -
  from assms obtain m where m: "a = of_int m / 10 ^ 2" by (auto simp: stored_amount_def on_grid_iff)
  with assms have "0 \<le> m" by (simp add: stored_amount_def)
  with m that [of "nat m"] show ?thesis by simp
qed

lemma decimal_text_round_trip:
  assumes "stored_amount a"
  shows "is_decimal_text (decimal_text a)" "decimal_text_val (decimal_text a) = a"
proof -
  from stored_amount_cents [OF assms] obtain c where a: "a = of_nat c / 100" .
  then have c: "nat \<lfloor>a * 100\<rfloor> = c" by simp
  define w d where "w = nat_digits (c div 100)" and "d = c mod 100"
  have w: "list_all is_digit w" "w \<noteq> []" "digits_val w = int (c div 100)"
    using nat_digits_props [of "c div 100"] by (simp_all add: w_def)
  have cd: "c = 100 * (c div 100) + d" "d < 100" by (simp_all add: d_def)
  have dt: "decimal_text a = (if d = 0 then w else if d mod 10 = 0 then w @ CHR ''.'' # [digit_char (d div 10)]
      else w @ CHR ''.'' # [digit_char (d div 10), digit_char (d mod 10)])"
    by (simp add: decimal_text_def c w_def d_def Let_def)
  have plain: "is_decimal_text w" "decimal_text_val w = of_nat (c div 100)"
    using w by (simp_all add: is_decimal_text_def decimal_text_val_def take_digits)
  have frac: "is_decimal_text (w @ CHR ''.'' # xs)"
    "decimal_text_val (w @ CHR ''.'' # xs) = of_int (digits_val (w @ xs)) / 10 ^ length xs"
    if "list_all is_digit xs" "length xs = 1 \<or> length xs = 2" for xs
    using w that by (auto simp: is_decimal_text_def decimal_text_val_def take_digits)
  have rc: "of_nat c = (100 * of_nat (c div 100) + of_nat d :: rat)"
    by (metis cd(1) of_nat_add of_nat_mult of_nat_numeral)
  consider "d = 0" | "d \<noteq> 0" "d mod 10 = 0" | "d mod 10 \<noteq> 0" by auto
  then have "is_decimal_text (decimal_text a) \<and> decimal_text_val (decimal_text a) = a"
  proof cases
    case 1
    with rc plain dt show ?thesis by (simp add: a)
  next
    case 2
    then obtain e where e: "d = 10 * e" "e < 10" using cd(2) by auto
    have "digits_val (w @ [digit_char e]) = int (c div 100) * 10 + int e"
      using e(2) by (simp add: digits_val_append w(3)) (simp add: digits_val_def)
    then have "decimal_text_val (w @ CHR ''.'' # [digit_char e]) = a"
      using frac(2) [of "[digit_char e]"] e rc by (simp add: a field_simps)
    then show ?thesis using frac(1) [of "[digit_char e]"] dt 2 e by simp
  next
    case 3
    define e f where "e = d div 10" and "f = d mod 10"
    have ef: "d = 10 * e + f" "e < 10" "f < 10" using cd(2) by (auto simp: e_def f_def)
    have "digits_val (w @ [digit_char e, digit_char f]) = int (c div 100) * 100 + (10 * int e + int f)"
      using ef by (simp add: digits_val_append w(3)) (simp add: digits_val_def)
    then have "decimal_text_val (w @ CHR ''.'' # [digit_char e, digit_char f]) = a"
      using frac(2) [of "[digit_char e, digit_char f]"] ef rc by (simp add: a field_simps)
    moreover have "decimal_text a = w @ CHR ''.'' # [digit_char e, digit_char f]"
      using dt 3 by (auto simp: e_def f_def)
    ultimately show ?thesis using frac(1) [of "[digit_char e, digit_char f]"] ef by simp
  qed
  then show "is_decimal_text (decimal_text a)" "decimal_text_val (decimal_text a) = a" by auto
qed

lemma round_cents_exact: "cents a \<Longrightarrow> of_int (round_cents a) = a * 100"
proof -
  assume "cents a"
  then obtain m where "a = of_int m / 100" by (auto simp: on_grid_iff)
  moreover have "\<lfloor>of_int m + (1/2::rat)\<rfloor> = m" by (simp add: floor_eq_iff)
  ultimately show ?thesis by (simp add: round_cents_def)
qed

lemma sum_round_cents:
  "list_all (\<lambda>s. stored_amount (f s)) xs \<Longrightarrow> of_int (\<Sum>s \<leftarrow> xs. round_cents (f s)) = (\<Sum>s \<leftarrow> xs. f s) * 100"
  by (induction xs) (auto simp: round_cents_exact stored_amount_def algebra_simps)

text \<open>The splits a version keeps: kind, card and amount of every split.\<close>

definition ok_snapshot :: "snapshot_split \<Rightarrow> bool" where
  "ok_snapshot s \<longleftrightarrow> stored_amount (ss_amount s) \<and> stored_amount (ss_percent s)
     \<and> (ss_kind s = ''card'' \<and> (case ss_cardId s of Some c \<Rightarrow> c \<noteq> [] | None \<Rightarrow> False)
        \<or> ss_kind s = ''pix'' \<and> ss_cardId s = None)"

definition billable_of_snapshot :: "snapshot_split \<Rightarrow> billable_split" where
  "billable_of_snapshot s = \<lparr>bs_kind = ss_kind s, bs_cardId = ss_cardId s, bs_amount = ss_amount s\<rparr>"

lemma snapshot_item:
  assumes "ok_snapshot s"
  defines "j \<equiv> JObject [(''kind'', JString (ss_kind s)), (''cardId'', js_nullable (ss_cardId s)),
      (''amount'', JString (decimal_text (ss_amount s))), (''percent'', JString (decimal_text (ss_percent s)))]"
  shows "isSplit j" "split_of_json j = billable_of_snapshot s"
  using assms(1) decimal_text_round_trip [of "ss_amount s"] decimal_text_round_trip [of "ss_percent s"]
  by (auto simp: j_def isSplit_def split_of_json_def js_field_def is_decimal_field_def js_text_def
      js_nullable_def billable_of_snapshot_def ok_snapshot_def split: option.splits)

lemma snapshot_parsed:
  assumes "list_all ok_snapshot splits" "vr_splits row = obligationSplitSnapshot splits"
    and "is_month_text (vr_effectiveMonth row)" "1 \<le> vr_sequence row" "vr_sequence row \<le> MAX_SAFE_INTEGER"
    and "cents (vr_amount row)" "splits = [] \<or> (\<Sum>s \<leftarrow> splits. ss_amount s) = vr_amount row"
  shows "parseObligationVersions [row]
    = Inr [\<lparr>ov_sequence = vr_sequence row, ov_effectiveMonth = vr_effectiveMonth row, ov_amount = vr_amount row,
            ov_cardId = vr_cardId row, ov_splits = map billable_of_snapshot splits\<rparr>]"
proof -
  let ?j = "\<lambda>s. JObject [(''kind'', JString (ss_kind s)), (''cardId'', js_nullable (ss_cardId s)),
      (''amount'', JString (decimal_text (ss_amount s))), (''percent'', JString (decimal_text (ss_percent s)))]"
  have items: "list_all isSplit (map ?j splits)" "map split_of_json (map ?j splits) = map billable_of_snapshot splits"
    using assms(1) snapshot_item by (auto simp: list_all_iff)
  have "round_cents (vr_amount row) = (\<Sum>s \<leftarrow> map billable_of_snapshot splits. round_cents (bs_amount s))"
    if "splits \<noteq> []"
  proof -
    have "list_all (\<lambda>s. stored_amount (bs_amount s)) (map billable_of_snapshot splits)"
      using assms(1) by (auto simp: list_all_iff ok_snapshot_def billable_of_snapshot_def)
    from sum_round_cents [OF this]
    have "of_int (\<Sum>s \<leftarrow> map billable_of_snapshot splits. round_cents (bs_amount s)) = (vr_amount row) * 100"
      using assms(7) that by (simp add: billable_of_snapshot_def comp_def)
    then show ?thesis using round_cents_exact [OF assms(6)] by (metis of_int_eq_iff)
  qed
  moreover have "parse_version_row row =
      res_when (\<not> is_month_text (vr_effectiveMonth row) \<or> \<bar>vr_sequence row\<bar> > MAX_SAFE_INTEGER
                    \<or> vr_sequence row < 1 \<or> \<not> list_all isSplit (map ?j splits)) invalid_version
       (res_when (map split_of_json (map ?j splits) \<noteq> []
          \<and> (\<Sum>s \<leftarrow> map split_of_json (map ?j splits). round_cents (bs_amount s)) \<noteq> round_cents (vr_amount row))
         (PlainError ''Persisted expense obligation splits do not match amount'')
         (Inr \<lparr>ov_sequence = vr_sequence row, ov_effectiveMonth = vr_effectiveMonth row, ov_amount = vr_amount row,
            ov_cardId = vr_cardId row, ov_splits = map split_of_json (map ?j splits)\<rparr>))"
    by (simp only: parse_version_row_def assms(2) obligationSplitSnapshot_def js.case Let_def)
  ultimately have "parse_version_row row = Inr \<lparr>ov_sequence = vr_sequence row,
      ov_effectiveMonth = vr_effectiveMonth row, ov_amount = vr_amount row, ov_cardId = vr_cardId row,
      ov_splits = map billable_of_snapshot splits\<rparr>"
    using assms(3-5) items(1) unfolding items(2) by (cases "splits = []") simp_all
  then show ?thesis by (simp add: parseObligationVersions_def)
qed

text \<open>C38. A version snapshot survives the database: parsing the JSON snapshot of the splits gives
  back every split with its kind, its card and its exact cents, and the version is accepted when
  the splits add up to its amount.\<close>

theorem snapshot_round_trip:
  assumes "list_all ok_snapshot splits" "vr_splits row = obligationSplitSnapshot splits"
    and "is_month_text (vr_effectiveMonth row)" "1 \<le> vr_sequence row" "vr_sequence row \<le> MAX_SAFE_INTEGER"
    and "cents (vr_amount row)" "splits = [] \<or> (\<Sum>s \<leftarrow> splits. ss_amount s) = vr_amount row"
  shows "parseObligationVersions [row]
    = Inr [\<lparr>ov_sequence = vr_sequence row, ov_effectiveMonth = vr_effectiveMonth row, ov_amount = vr_amount row,
            ov_cardId = vr_cardId row, ov_splits = map billable_of_snapshot splits\<rparr>]"
  using assms by (rule snapshot_parsed)

theorem snapshot_round_trip_witness:
  "parseObligationVersions [\<lparr>vr_sequence = 1, vr_effectiveMonth = ''2026-03'', vr_amount = 100.5, vr_cardId = None,
     vr_splits = obligationSplitSnapshot
       [\<lparr>ss_kind = ''card'', ss_cardId = Some ''a'', ss_amount = 60.3, ss_percent = 60\<rparr>,
        \<lparr>ss_kind = ''pix'', ss_cardId = None, ss_amount = 40.2, ss_percent = 40\<rparr>]\<rparr>]
   = Inr [\<lparr>ov_sequence = 1, ov_effectiveMonth = ''2026-03'', ov_amount = 100.5, ov_cardId = None,
       ov_splits = [\<lparr>bs_kind = ''card'', bs_cardId = Some ''a'', bs_amount = 60.3\<rparr>,
         \<lparr>bs_kind = ''pix'', bs_cardId = None, bs_amount = 40.2\<rparr>]\<rparr>]"
proof -
  have "list_all ok_snapshot [\<lparr>ss_kind = ''card'', ss_cardId = Some ''a'', ss_amount = 60.3, ss_percent = 60\<rparr>,
        \<lparr>ss_kind = ''pix'', ss_cardId = None, ss_amount = 40.2, ss_percent = 40\<rparr>]"
    "is_month_text ''2026-03''" "cents 100.5"
    by code_simp+
  from snapshot_round_trip [OF this(1), of "\<lparr>vr_sequence = 1, vr_effectiveMonth = ''2026-03'', vr_amount = 100.5,
     vr_cardId = None, vr_splits = _\<rparr>"] this(2,3)
  show ?thesis by (simp add: billable_of_snapshot_def MAX_SAFE_INTEGER_def)
qed

text \<open>Corrupt history never reaches billing: whatever the stored JSON, a version that is parsed
  has a positive sequence, an effective month, card splits with a card and PIX splits without,
  and splits that add up to its amount to the cent; everything else is an error.\<close>

theorem parsed_versions_are_sound:
  assumes "parseObligationVersions rows = Inr versions" "v \<in> set versions"
  shows "is_month_text (ov_effectiveMonth v) \<and> 1 \<le> ov_sequence v
    \<and> (\<forall>s \<in> set (ov_splits v). bs_kind s = ''card'' \<and> bs_cardId s \<noteq> None \<or> bs_kind s = ''pix'' \<and> bs_cardId s = None)
    \<and> (ov_splits v = [] \<or> (\<Sum>s \<leftarrow> ov_splits v. round_cents (bs_amount s)) = round_cents (ov_amount v))"
proof -
  have "\<exists>row. parse_version_row row = Inr v"
    using assms unfolding parseObligationVersions_def
    by (induction rows arbitrary: versions) (auto simp: res_bind_eq_Inr)
  then obtain row where r1: "parse_version_row row = Inr v" ..
  then have "\<exists>items. vr_splits row = JArray items"
    by (cases "vr_splits row") (simp_all add: parse_version_row_def)
  with r1 obtain items where r: "parse_version_row row = Inr v" "vr_splits row = JArray items" by blast
  then have v: "is_month_text (vr_effectiveMonth row)" "1 \<le> vr_sequence row" "list_all isSplit items"
    "map split_of_json items = [] \<or>
      (\<Sum>s \<leftarrow> map split_of_json items. round_cents (bs_amount s)) = round_cents (vr_amount row)"
    "v = \<lparr>ov_sequence = vr_sequence row, ov_effectiveMonth = vr_effectiveMonth row, ov_amount = vr_amount row,
       ov_cardId = vr_cardId row, ov_splits = map split_of_json items\<rparr>"
    by (auto simp: parse_version_row_def Let_def)
  have "bs_kind (split_of_json j) = ''card'' \<and> bs_cardId (split_of_json j) \<noteq> None
      \<or> bs_kind (split_of_json j) = ''pix'' \<and> bs_cardId (split_of_json j) = None" if "isSplit j" for j
    using that by (auto simp: isSplit_def split_of_json_def js_text_def split: js.splits)
  with v show ?thesis by (auto simp: list_all_iff)
qed

theorem parsed_versions_are_sound_witness:
  "parseObligationVersions [\<lparr>vr_sequence = 1, vr_effectiveMonth = ''2026-13'', vr_amount = 5, vr_cardId = None,
     vr_splits = JArray []\<rparr>] = Inl invalid_version \<and>
   (\<exists>v. parseObligationVersions [\<lparr>vr_sequence = 2, vr_effectiveMonth = ''2026-12'', vr_amount = 5, vr_cardId = None,
     vr_splits = JArray []\<rparr>] = Inr [v] \<and> is_month_text (ov_effectiveMonth v))"
proof -
  have "parseObligationVersions [\<lparr>vr_sequence = 2, vr_effectiveMonth = ''2026-12'', vr_amount = 5, vr_cardId = None,
     vr_splits = JArray []\<rparr>] = Inr [\<lparr>ov_sequence = 2, ov_effectiveMonth = ''2026-12'', ov_amount = 5,
       ov_cardId = None, ov_splits = []\<rparr>]"
    by code_simp
  moreover from parsed_versions_are_sound [OF this] have "is_month_text ''2026-12''" by simp
  moreover have "parseObligationVersions [\<lparr>vr_sequence = 1, vr_effectiveMonth = ''2026-13'', vr_amount = 5,
     vr_cardId = None, vr_splits = JArray []\<rparr>] = Inl invalid_version"
    by code_simp
  ultimately show ?thesis by simp
qed

section \<open>Closed history\<close>

definition positive_on :: "decimal_lib \<Rightarrow> tz_offset \<Rightarrow> 'a billable_expense_scheme \<Rightarrow> string \<Rightarrow> int \<Rightarrow> bool" where
  "positive_on D sp e cid n \<longleftrightarrow> charge_day sp e n \<and> 0 < day_amount D e cid n"

lemma ok_window_day:
  assumes "ok_window h t True" "h \<le> n" "n \<le> t"
  shows "ok_window n n True" "ok_day n"
proof -
  have "month_idx n \<le> month_idx t" using assms(3) by (rule month_idx_mono)
  moreover have "ok_day n" using assms by (auto simp: ok_window_def roomy_def ok_day_def)
  ultimately show "ok_window n n True" "ok_day n"
    using assms ok_month_idx [of n] by (auto simp: ok_window_def roomy_def ok_day_def first_day_def ok_month_def)
qed

context decimal_arith
begin

lemma daily_amount:
  assumes "ok_expense sp e" "stored_expense e" "ok_window n n True"
  shows "\<exists>a. chargeAmountDecimal D sp e cid (window_of n n True) = Inr a \<and> (0 < a \<longleftrightarrow> positive_on D sp e cid n)"
proof -
  have "days_of (charge_day sp e) n n = (if charge_day sp e n then {n} else {})" by (auto simp: days_of_def)
  then show ?thesis
    using charge_amount_sum [OF assms] by (auto simp: first_day_def positive_on_def)
qed

lemma footprint_spec:
  assumes "ok_expense sp e" "stored_expense e" "ok_expense sp e'" "stored_expense e'" "ok_window h t True"
    and "h \<le> lo" "nat (t + 1 - lo) \<le> fuel" "lo \<le> t + 1"
  shows "footprint_differs D sp e e' cid fuel (key lo) (key t)
    = Inr (\<exists>n \<in> {lo..t}. positive_on D sp e cid n \<noteq> positive_on D sp e' cid n)"
  using assms(6-)
proof (induction fuel arbitrary: lo)
  case 0
  then have "lo = t + 1" by simp
  moreover have "ok_day t" "ok_day (t + 1)" using assms(5) by (auto simp: ok_window_def roomy_def ok_day_def)
  ultimately show ?case by (subst footprint_differs.simps) (simp add: compareDayKeys_signs)
next
  case (Suc i)
  have t: "ok_day t" "ok_day (t + 1)" using assms(5) by (auto simp: ok_window_def roomy_def ok_day_def)
  show ?case
  proof (cases "lo \<le> t")
    case False
    with Suc.prems have "lo = t + 1" by simp
    with t show ?thesis by (subst footprint_differs.simps) (simp add: compareDayKeys_signs)
  next
    case True
    note w = ok_window_day [OF assms(5) Suc.prems(1) True]
    from daily_amount [OF assms(1,2) w(1), of cid] daily_amount [OF assms(3,4) w(1), of cid] obtain a b where
      ab: "chargeAmountDecimal D sp e cid (window_of lo lo True) = Inr a" "0 < a \<longleftrightarrow> positive_on D sp e cid lo"
      "chargeAmountDecimal D sp e' cid (window_of lo lo True) = Inr b" "0 < b \<longleftrightarrow> positive_on D sp e' cid lo"
      by blast
    have IH: "footprint_differs D sp e e' cid i (key (lo + 1)) (key t)
        = Inr (\<exists>n \<in> {lo + 1..t}. positive_on D sp e cid n \<noteq> positive_on D sp e' cid n)"
      using Suc.prems True by (intro Suc.IH) auto
    have split: "{lo..t} = insert lo {lo + 1..t}" using True by auto
    have "footprint_differs D sp e e' cid (Suc i) (key lo) (key t)
        = (if (0 < a) \<noteq> (0 < b) then Inr True else footprint_differs D sp e e' cid i (key (lo + 1)) (key t))"
      using True w(2) t ab(1,3)
      by (subst footprint_differs.simps) (simp add: compareDayKeys_signs addDaysToKey_key window_of_def Let_def)
    then show ?thesis unfolding IH ab(2,4) split by simp
  qed
qed

lemma no_total_no_charge:
  assumes "ok_expense sp e" "stored_expense e" "ok_window h t True"
    and "chargeAmountDecimal D sp e cid (window_of h t True) = Inr a" "a \<le> 0" "h \<le> n" "n \<le> t"
  shows "\<not> positive_on D sp e cid n"
proof
  assume p: "positive_on D sp e cid n"
  have nonneg: "0 \<le> day_amount D e cid m" for m
    using assms(2) version_share_bounds [of e cid "month_idx m"] card_share_bounds [of e cid]
    by (auto simp: day_amount_def share_on_def stored_expense_def)
  have "n \<in> days_of (charge_day sp e) h t" using p assms(6,7) by (auto simp: days_of_def positive_on_def)
  then have "day_amount D e cid n \<le> (\<Sum>m \<in> days_of (charge_day sp e) h t. day_amount D e cid m)"
    using nonneg by (intro member_le_sum) auto
  moreover have "a = (\<Sum>m \<in> days_of (charge_day sp e) h t. day_amount D e cid m)"
    using charge_amount_sum [OF assms(1-3)] assms(4) by (simp add: first_day_def)
  ultimately show False using p assms(5) by (simp add: positive_on_def)
qed

end

lemma res_some_False: "res_some p xs = Inr False \<Longrightarrow> x \<in> set xs \<Longrightarrow> p x = Inr False"
  by (induction xs) (auto simp: res_bind_eq_Inr split: if_splits)

lemma min_key_str_key: "ok_day a \<Longrightarrow> ok_day b \<Longrightarrow> min_key_str (key a) (key b) = key (min a b)"
  by (simp add: min_key_str_def key_less min_def)

lemma max_key_key: "ok_day a \<Longrightarrow> ok_day b \<Longrightarrow> max_key (key a) (key b) = key (max a b)"
  by (auto simp: max_key_def key_less max_def)

text \<open>The first day of the history a card has of either expense.\<close>

definition history_start :: "tz_offset \<Rightarrow> billable_expense \<Rightarrow> billable_expense \<Rightarrow> invoiced_card \<Rightarrow> int" where
  "history_start sp before after crd =
     (let earliest = min (start_day sp before) (start_day sp after) in
      case ic_createdAt crd of Some created \<Rightarrow> max (local_day sp created) earliest | None \<Rightarrow> earliest)"

lemma history_start_key:
  assumes "ok_expense sp before" "ok_expense sp after" "\<forall>t. ic_createdAt crd = Some t \<longrightarrow> ok_day (local_day sp t)"
  shows "(case ic_createdAt crd of
       Some created \<Rightarrow> max_key (dayKeyInSaoPaulo sp created)
         (min_key_str (recurringStartKey sp before) (recurringStartKey sp after))
     | None \<Rightarrow> min_key_str (recurringStartKey sp before) (recurringStartKey sp after)) = key (history_start sp before after crd)"
    "ok_day (history_start sp before after crd)"
proof -
  have s: "ok_day (start_day sp before)" "ok_day (start_day sp after)"
    using assms(1,2) by (simp_all add: ok_expense_def)
  then show "(case ic_createdAt crd of
       Some created \<Rightarrow> max_key (dayKeyInSaoPaulo sp created)
         (min_key_str (recurringStartKey sp before) (recurringStartKey sp after))
     | None \<Rightarrow> min_key_str (recurringStartKey sp before) (recurringStartKey sp after)) = key (history_start sp before after crd)"
    using assms(3) dayKeyInSaoPaulo_key [of _ sp]
    by (auto simp: recurringStartKey_day [OF assms(1)] recurringStartKey_day [OF assms(2)] min_key_str_key
        max_key_key history_start_def local_day_def min_def split: option.split)
  show "ok_day (history_start sp before after crd)"
    using s assms(3) by (auto simp: history_start_def Let_def min_def max_def split: option.split)
qed

lemma settled_days:
  assumes "decimal_arith D" "hasSettledRecurringMutation D sp before after cards effectiveMonth = Inr False"
    and "calendar_changed before after" "crd \<in> set cards" "ic_lastInvoicedOn crd = Some invoiced"
    and "ok_expense sp before" "stored_expense before" "ok_expense sp after" "stored_expense after"
    and "\<forall>t. ic_createdAt crd = Some t \<longrightarrow> ok_day (local_day sp t)"
    and "ok_window (history_start sp before after crd) (day_of invoiced) True"
    and "history_start sp before after crd \<le> n" "n \<le> day_of invoiced"
  shows "positive_on D sp before (ic_id crd) n \<longleftrightarrow> positive_on D sp after (ic_id crd) n"
proof -
  let ?h = "history_start sp before after crd" and ?t = "day_of invoiced" and ?cid = "ic_id crd"
  note h = history_start_key(1) [OF assms(6,8,10)]
  note ok = ok_windowD(1,4) [OF assms(11)]
  have le: "\<not> compareDayKeys (key ?h) (key ?t) > 0"
    using assms(12,13) ok by (simp add: compareDayKeys_signs)
  from res_some_False [OF assms(2) [unfolded hasSettledRecurringMutation_def Let_def] assms(4)] le
  have "schedule_settled D sp before after ?cid (key ?h) (key ?t) = Inr False"
    unfolding assms(5) option.case h dayKeyOfDate_day by (auto simp: res_bind_eq_Inr split: if_splits)
  moreover have "schedule_changed before after" using assms(3) by (simp add: schedule_changed_def)
  moreover obtain a b where ab: "chargeAmountDecimal D sp before ?cid (window_of ?h ?t True) = Inr a"
    "chargeAmountDecimal D sp after ?cid (window_of ?h ?t True) = Inr b"
    using decimal_arith.charge_amount_sum [OF assms(1) assms(6,7,11)]
      decimal_arith.charge_amount_sum [OF assms(1) assms(8,9,11)] by blast
  ultimately have cases: "a \<le> 0 \<and> b \<le> 0
      \<or> footprint_differs D sp before after ?cid (nat (?t - ?h) + 1) (key ?h) (key ?t) = Inr False"
    using assms(3) ok diffDays_key [of ?t ?h]
    by (auto simp: schedule_settled_def window_of_def Let_def split: if_splits)
  then show ?thesis
  proof
    assume "a \<le> 0 \<and> b \<le> 0"
    then show ?thesis
      using decimal_arith.no_total_no_charge [OF assms(1) assms(6,7,11) ab(1) _ assms(12,13)]
        decimal_arith.no_total_no_charge [OF assms(1) assms(8,9,11) ab(2) _ assms(12,13)] by simp
  next
    assume "footprint_differs D sp before after ?cid (nat (?t - ?h) + 1) (key ?h) (key ?t) = Inr False"
    moreover have "nat (?t + 1 - ?h) \<le> nat (?t - ?h) + 1" "?h \<le> ?t + 1" using assms(12,13) by simp_all
    ultimately show ?thesis
      using decimal_arith.footprint_spec [OF assms(1) assms(6-9,11) order_refl, of "nat (?t - ?h) + 1" ?cid]
        assms(12,13) by auto
  qed
qed

text \<open>The guard against rewriting settled charges is sound: when it lets a change of schedule
  pass, then on every day that a card has already been invoiced for, the expense charges the card
  after the change exactly when it did before.\<close>

theorem settled_days_are_kept:
  assumes "decimal_arith D" "hasSettledRecurringMutation D sp before after cards effectiveMonth = Inr False"
    and "calendar_changed before after" "crd \<in> set cards" "ic_lastInvoicedOn crd = Some invoiced"
    and "ok_expense sp before" "stored_expense before" "ok_expense sp after" "stored_expense after"
    and "\<forall>t. ic_createdAt crd = Some t \<longrightarrow> ok_day (local_day sp t)"
    and "ok_window (history_start sp before after crd) (day_of invoiced) True"
    and "history_start sp before after crd \<le> n" "n \<le> day_of invoiced"
  shows "positive_on D sp before (ic_id crd) n \<longleftrightarrow> positive_on D sp after (ic_id crd) n"
  using assms by (rule settled_days)

definition gym_moved :: billable_expense where
  "gym_moved = gym\<lparr>be_dueDay := Some 30\<rparr>"

theorem settled_days_are_kept_witness:
  "let crd = \<lparr>ic_id = ''card-2'', ic_lastInvoicedOn = Some (noon 20470), ic_createdAt = Some (noon 20460)\<rparr> in
   hasSettledRecurringMutation decimal_js sao_paulo_standard gym gym_moved [crd] ''2026-03'' = Inr False \<and>
   positive_on decimal_js sao_paulo_standard gym ''card-2'' 20465
     = positive_on decimal_js sao_paulo_standard gym_moved ''card-2'' 20465"
proof -
  let ?crd = "\<lparr>ic_id = ''card-2'', ic_lastInvoicedOn = Some (noon 20470), ic_createdAt = Some (noon 20460)\<rparr>"
  have ok: "ok_expense sao_paulo_standard gym_moved" "stored_expense gym" "stored_expense gym_moved"
    "calendar_changed gym gym_moved"
    by code_simp+
  have w: "ok_window (history_start sao_paulo_standard gym gym_moved ?crd) (day_of (noon 20470)) True"
    "history_start sao_paulo_standard gym gym_moved ?crd \<le> 20465"
    "20465 \<le> day_of (noon 20470)" "ok_day (local_day sao_paulo_standard (noon 20460))"
    by code_simp+
  have zero: "splitShareFor decimal_js gym (TCard ''card-2'') = 0" "splitShareFor decimal_js gym_moved (TCard ''card-2'') = 0"
    by (simp_all add: splitShareFor_def gym_def gym_moved_def)
  have nov: "be_obligationVersions gym = []" "be_obligationVersions gym_moved = []"
    by (simp_all add: gym_def gym_moved_def)
  have win: "ok_window 20460 20470 True" by code_simp
  have amounts: "chargeAmountDecimal decimal_js sao_paulo_standard gym ''card-2'' (window_of 20460 20470 True) = Inr 0"
    "chargeAmountDecimal decimal_js sao_paulo_standard gym_moved ''card-2'' (window_of 20460 20470 True) = Inr 0"
    using js_decimal.charge_amount_sum [OF gym_ok ok(2) win, of "''card-2''"]
      js_decimal.charge_amount_sum [OF ok(1,3) win, of "''card-2''"]
    by (simp_all add: day_amount_def zero nov)
  have keys: "recurringStartKey sao_paulo_standard gym = key 20454" "recurringStartKey sao_paulo_standard gym_moved = key 20454"
    "dayKeyInSaoPaulo sao_paulo_standard (noon 20460) = key 20460" "dayKeyOfDate (noon 20470) = key 20470"
  proof -
    have k: "dayKeyOfDate (noon n) = key n" for n by (simp add: dayKeyOfDate_day)
    have "be_startsAt gym = Some (noon 20454)" "be_startsAt gym_moved = Some (noon 20454)"
      by (simp_all add: gym_def gym_moved_def)
    then show "recurringStartKey sao_paulo_standard gym = key 20454" "recurringStartKey sao_paulo_standard gym_moved = key 20454"
      by (simp_all only: recurringStartKey_def option.case k)
    have "ok_day 20460" by code_simp
    then show "dayKeyInSaoPaulo sao_paulo_standard (noon 20460) = key 20460" by (rule standard.local_noon)
    show "dayKeyOfDate (noon 20470) = key 20470" by (rule k)
  qed
  have days: "ok_day 20454" "ok_day 20460" "ok_day 20470" by code_simp+
  have terms: "effective_terms m gym = gym" "effective_terms m gym_moved = gym_moved" for m
    by (simp_all add: effective_terms_def active_version_def gym_def gym_moved_def)
  have mul: "dec_mul decimal_js 0 a = 0" for a
    using js_decimal.mul_exact [of 0 a] by simp
  have no: "hasSettledRecurringMutation decimal_js sao_paulo_standard gym gym_moved [?crd] ''2026-03'' = Inr False"
    using amounts days
    by (simp only: hasSettledRecurringMutation_def keys min_key_str_key max_key_key invoiced_card.select_convs
          option.case res_some.simps Let_def min.idem allocation_settled_def terms zero mul refl)
      (simp add: max_def compareDayKeys_signs schedule_settled_def window_of_def)
  have "positive_on decimal_js sao_paulo_standard gym (ic_id ?crd) 20465
      = positive_on decimal_js sao_paulo_standard gym_moved (ic_id ?crd) 20465"
    by (rule settled_days_are_kept [OF js_decimal.decimal_arith_axioms no ok(4) _ _ gym_ok ok(2,1,3) _ w(1-3)])
      (use w(4) in simp_all)
  with no show ?thesis by (simp add: Let_def)
qed

section \<open>The guard always answers\<close>

lemma month_end_key_due:
  assumes "ok_month M"
  shows "month_end_key (month_key M) = key (due_on 31 M)"
proof -
  have y: "100 \<le> M div 12" using ok_monthD [OF assms] by auto
  have "clampDayToMonth (M div 12) (M mod 12) 31 = days_in_month (M div 12) (M mod 12)"
    using days_in_month_range [of "M mod 12" "M div 12"] month_mod_range [of M] y
    by (simp add: clampDayToMonth_def lastDayOfMonth_eq)
  then have "date_UTC (M div 12) (M mod 12 + 1) 0 12 = noon (due_on 31 M)"
    using last_day_UTC [of "M div 12" "M mod 12" 12] y month_mod_range [of M] by (simp add: due_on_def)
  then show ?thesis
    unfolding month_end_key_def Let_def month_key_parts [OF assms] by (simp add: dayKeyOfDate_day)
qed

lemma ok_window_inside:
  assumes "ok_window h t True" "h \<le> a" "a \<le> b" "b \<le> t"
  shows "ok_window a b True"
proof -
  have "month_idx b \<le> month_idx t" using assms(4) by (rule month_idx_mono)
  moreover have "ok_day b" using assms by (auto simp: ok_window_def roomy_def ok_day_def)
  ultimately show ?thesis
    using assms ok_month_idx [of b] by (auto simp: ok_window_def roomy_def ok_day_def first_day_def ok_month_def)
qed

lemma res_some_total: "(\<And>x. x \<in> set xs \<Longrightarrow> \<exists>b. p x = Inr b) \<Longrightarrow> \<exists>b. res_some p xs = Inr b"
proof (induction xs)
  case (Cons x xs)
  then obtain b c where "p x = Inr b" "res_some p xs = Inr c" by fastforce
  then show ?case by (cases b) auto
qed (rule exI [of _ False], simp)

context decimal_arith
begin

lemma allocation_answers:
  assumes "ok_expense sp e" "stored_expense e" "ok_expense sp e'" "stored_expense e'" "ok_window h t True" "h \<le> t" "ok_month M"
  shows "\<exists>b. allocation_settled D sp e e' (month_key M) cid (key h) (key t) = Inr b"
proof -
  note ok = ok_windowD(1,4) [OF assms(5)] due_on_civil(2) [OF assms(7), of 1] due_on_civil(2) [OF assms(7), of 31]
  let ?a = "max h (due_on 1 M)" and ?b = "min t (due_on 31 M)"
  have keys: "(if compareDayKeys (key t) (key (due_on 31 M)) < 0 then key t else key (due_on 31 M)) = key ?b"
    "(if compareDayKeys (key h) (key (due_on 1 M)) > 0 then key h else key (due_on 1 M)) = key ?a"
    using ok by (auto simp: compareDayKeys_signs min_def max_def)
  have "\<exists>x y. chargeAmountDecimal D sp e cid (window_of ?a ?b True) = Inr x \<and> chargeAmountDecimal D sp e' cid (window_of ?a ?b True) = Inr y"
    if "?a \<le> ?b"
  proof -
    have "ok_window ?a ?b True" using that by (intro ok_window_inside [OF assms(5)]) auto
    then show ?thesis using charge_amount_sum [OF assms(1,2)] charge_amount_sum [OF assms(3,4)] by blast
  qed
  moreover have "ok_day ?a" "ok_day ?b" using ok by (simp_all add: max_def min_def)
  ultimately show ?thesis
    unfolding allocation_settled_def Let_def month_end_key_due [OF assms(7)] month_key_day_1 [OF assms(7)] keys window_of_def
    by (auto simp: compareDayKeys_signs)
qed

lemma schedule_answers:
  assumes "ok_expense sp e" "stored_expense e" "ok_expense sp e'" "stored_expense e'" "ok_window h t True" "h \<le> t"
  shows "\<exists>b. schedule_settled D sp e e' cid (key h) (key t) = Inr b"
proof -
  obtain x y where "chargeAmountDecimal D sp e cid (window_of h t True) = Inr x" "chargeAmountDecimal D sp e' cid (window_of h t True) = Inr y"
    using charge_amount_sum [OF assms(1,2,5)] charge_amount_sum [OF assms(3,4,5)] by blast
  moreover have "diffDays (key t) (key h) = Inr (t - h)" using ok_windowD(1,4) [OF assms(5)] by (simp add: diffDays_key)
  moreover have "\<exists>b. footprint_differs D sp e e' cid (nat (t - h) + 1) (key h) (key t) = Inr b"
    using footprint_spec [OF assms(1-5) order_refl, of "nat (t - h) + 1" cid] assms(6) by auto
  ultimately show ?thesis by (auto simp: schedule_settled_def window_of_def Let_def)
qed

end

text \<open>C25. The guard against rewriting settled charges always answers: for stored expenses and cards with a
  closed history of ordinary days, the comparison of two projections of an expense ends, its day-by-day
  loop takes at most one step for every day of the history, and no date on its way is rejected.\<close>

theorem settled_check_answers:
  assumes "decimal_arith D" "ok_expense sp before" "stored_expense before" "ok_expense sp after" "stored_expense after" "ok_month M"
    and "\<forall>crd \<in> set cards. (\<forall>t. ic_createdAt crd = Some t \<longrightarrow> ok_day (local_day sp t))
      \<and> (\<forall>t. ic_lastInvoicedOn crd = Some t \<longrightarrow> ok_day (day_of t)
           \<and> (history_start sp before after crd \<le> day_of t \<longrightarrow> ok_window (history_start sp before after crd) (day_of t) True))"
  shows "\<exists>b. hasSettledRecurringMutation D sp before after cards (month_key M) = Inr b"
proof -
  have h: "(case ic_createdAt crd of
       Some created \<Rightarrow> max_key (dayKeyInSaoPaulo sp created)
         (min_key_str (recurringStartKey sp before) (recurringStartKey sp after))
     | None \<Rightarrow> min_key_str (recurringStartKey sp before) (recurringStartKey sp after)) = key (history_start sp before after crd)"
    "ok_day (history_start sp before after crd)" if "crd \<in> set cards" for crd
    using history_start_key [OF assms(2,4), of crd] assms(7) that by blast+
  show ?thesis
    unfolding hasSettledRecurringMutation_def Let_def
  proof (rule res_some_total, goal_cases)
    case (1 crd)
    let ?h = "history_start sp before after crd"
    show ?case
    proof (cases "ic_lastInvoicedOn crd")
      case (Some t)
      show ?thesis
      proof (cases "?h \<le> day_of t")
        case True
        then have w: "ok_window ?h (day_of t) True" using assms(7) 1 Some by blast
        obtain a b where "allocation_settled D sp before after (month_key M) (ic_id crd) (key ?h) (key (day_of t)) = Inr a"
          "schedule_settled D sp before after (ic_id crd) (key ?h) (key (day_of t)) = Inr b"
          using decimal_arith.allocation_answers [OF assms(1-5) w True assms(6)]
            decimal_arith.schedule_answers [OF assms(1-5) w True] by metis
        then show ?thesis unfolding Some option.case h(1) [OF 1] dayKeyOfDate_day by auto
      next
        case False
        have "ok_day (day_of t)" using assms(7) 1 Some by blast
        then have "compareDayKeys (key ?h) (key (day_of t)) > 0" using h(2) [OF 1] False by (simp add: compareDayKeys_signs)
        then show ?thesis unfolding Some option.case h(1) [OF 1] dayKeyOfDate_day by auto
      qed
    qed (rule exI [of _ False], simp)
  qed
qed

theorem settled_check_answers_witness:
  "\<exists>b. hasSettledRecurringMutation decimal_js sao_paulo_standard gym gym_moved
     [\<lparr>ic_id = ''card-1'', ic_lastInvoicedOn = Some (noon 20470), ic_createdAt = Some (noon 20460)\<rparr>] (month_key 24314) = Inr b"
proof -
  let ?crd = "\<lparr>ic_id = ''card-1'', ic_lastInvoicedOn = Some (noon 20470), ic_createdAt = Some (noon 20460)\<rparr>"
  have "ok_expense sao_paulo_standard gym_moved" "stored_expense gym" "stored_expense gym_moved" "ok_month 24314"
    "ok_window (history_start sao_paulo_standard gym gym_moved ?crd) (day_of (noon 20470)) True"
    "ok_day (day_of (noon 20470))" "ok_day (local_day sao_paulo_standard (noon 20460))"
    by code_simp+
  then show ?thesis
    by (intro settled_check_answers [OF js_decimal.decimal_arith_axioms gym_ok]) simp_all
qed

end
