(* ===== verification/Billing_Run.thy ===== *)
theory Billing_Run
  imports Plan_Spec Obligations
begin

text \<open>
  \<open>backend/src/lib/billing/run.ts\<close>, the loader of \<open>obligation-versions.ts\<close> and \<open>serialize.ts\<close>: the
  database part of card billing. The tables are lists of rows; a query is a filter in the order
  of the table, an update replaces the rows with the id. The transaction holds the user's write
  lock, so the run is one step on the tables, and an error leaves them as they were (the result
  is then the error alone). Identifiers that the database generates are the argument \<open>newId\<close>,
  by the number of rows in the table.
\<close>

section \<open>Rows\<close>

record card_row = billing_card +
  cr_userId :: string
  cr_name :: string
  cr_limit :: "rat option"
  cr_archivedAt :: "instant option"
  cr_expiresAt :: "instant option"

record expense_payment =
  ep_id :: string
  ep_month :: string
  ep_amount :: rat
  ep_paidAt :: instant

text \<open>
  The split rows and the stored obligation versions of an expense are the fields \<open>er_splits\<close> and
  \<open>er_versions\<close>; the billing fields \<open>be_splits\<close> and \<open>be_obligationVersions\<close> are filled by loading.
\<close>

record expense_row = billable_expense +
  er_id :: string
  er_userId :: string
  er_name :: string
  er_category :: string
  er_customTagId :: "string option"
  er_paidForMonth :: "string option"
  er_paidAt :: "instant option"
  er_notes :: "string option"
  er_billingPeriodStart :: "instant option"
  er_billingPeriodEnd :: "instant option"
  er_voidedAt :: "instant option"
  er_systemOrigin :: string
  er_splits :: "snapshot_split list"
  er_versions :: "version_row list"
  er_payments :: "expense_payment list"
  er_updatedAt :: instant

record billing_db =
  db_cards :: "card_row list"
  db_expenses :: "expense_row list"

section \<open>Loading\<close>

definition billable_row :: "expense_row \<Rightarrow> billable_expense res" where
  "billable_row row =
     res_bind (parseObligationVersions (sort_key vr_sequence (er_versions row))) (\<lambda>versions.
     Inr (billable_expense.truncate (row\<lparr>be_splits := map billable_of_snapshot (er_splits row), be_obligationVersions := versions\<rparr>)))"

definition loadBillableExpensesForCards :: "expense_row list \<Rightarrow> string \<Rightarrow> billable_expense list res" where
  "loadBillableExpensesForCards expenses userId =
     res_mapM billable_row (filter (\<lambda>r. er_userId r = userId \<and> \<not> be_isInvoice r) expenses)"

section \<open>run.ts\<close>

definition invoice_row :: "decimal_lib \<Rightarrow> (nat \<Rightarrow> string) \<Rightarrow> instant \<Rightarrow> string \<Rightarrow> card_row \<Rightarrow> planned_invoice \<Rightarrow> nat \<Rightarrow> expense_row" where
  "invoice_row D newId now userId crd invoice i = \<lparr>
     be_amount = dec_places D 2 ROUND_HALF_UP (pi_amount invoice),
     be_cardId = Some (bc_id crd), be_isInvoice = True, be_frequency = ''unica'', be_dueDay = None,
     be_startsAt = None, be_endsAt = None, be_occurredAt = Some (pi_closingOn invoice),
     be_createdAt = now, be_archivedAt = None, be_splits = [], be_obligationVersions = [],
     er_id = newId i, er_userId = userId, er_name = ''Fatura do cartao '' @ cr_name crd, er_category = ''outro'',
     er_customTagId = None, er_paidForMonth = None, er_paidAt = None, er_notes = Some (pi_notes invoice),
     er_billingPeriodStart = Some (pi_periodStart invoice), er_billingPeriodEnd = Some (pi_closingOn invoice),
     er_voidedAt = None, er_systemOrigin = ''manual'', er_splits = [], er_versions = [], er_payments = [],
     er_updatedAt = now\<rparr>"

definition update_card_row :: "string \<Rightarrow> card_update \<Rightarrow> card_row list \<Rightarrow> card_row list" where
  "update_card_row cardId u rows = map (\<lambda>r. if bc_id r = cardId then apply_card_update u r else r) rows"

text \<open>One card: its plan, the rows of its invoices, its update.\<close>

definition bill_card ::
    "decimal_lib \<Rightarrow> tz_offset \<Rightarrow> billable_expense list \<Rightarrow> instant \<Rightarrow> instant
     \<Rightarrow> card_row list \<times> (card_row \<times> planned_invoice) list \<Rightarrow> card_row
     \<Rightarrow> (card_row list \<times> (card_row \<times> planned_invoice) list) res" where
  "bill_card D sp billable cutoff now acc crd =
     res_bind (planCardBilling D sp crd billable cutoff now) (\<lambda>(invoices, update).
     Inr (case update of None \<Rightarrow> fst acc | Some u \<Rightarrow> update_card_row (bc_id crd) u (fst acc),
          snd acc @ map (\<lambda>i. (crd, i)) invoices))"

definition processUserCardBilling ::
    "decimal_lib \<Rightarrow> tz_offset \<Rightarrow> (nat \<Rightarrow> string) \<Rightarrow> string \<Rightarrow> instant \<Rightarrow> billing_db \<Rightarrow> (billing_db \<times> nat) res" where
  "processUserCardBilling D sp newId userId now db =
     res_bind (addDaysToKey (todayKeyInSaoPaulo sp now) (-1)) (\<lambda>yesterday.
     res_bind (dayKeyToDate yesterday Noon) (\<lambda>cutoff.
     res_bind (loadBillableExpensesForCards (db_expenses db) userId) (\<lambda>billable.
     res_bind (res_fold (bill_card D sp billable cutoff now) (db_cards db, [])
                 (filter (\<lambda>c. cr_userId c = userId \<and> cr_archivedAt c = None) (db_cards db)))
       (\<lambda>(cards, invoices).
     let n = length (db_expenses db);
         rows = map (\<lambda>(i, crd, invoice). invoice_row D newId now userId crd invoice (n + i))
                  (enumerate 0 invoices) in
     Inr (db\<lparr>db_cards := cards, db_expenses := db_expenses db @ rows\<rparr>, length invoices)))))"

section \<open>serialize.ts\<close>

record serialized_card =
  sc_id :: string
  sc_name :: string
  sc_limit :: "rat option"
  sc_closingDay :: int
  sc_pendingClosingDay :: "int option"
  sc_archivedAt :: "instant option"
  sc_expiresAt :: "instant option"
  sc_lastInvoicedOn :: "instant option"
  sc_lastBillingProcessedAt :: "instant option"
  sc_createdAt :: instant
  sc_committed :: rat
  sc_available :: "rat option"
  sc_maxChargesPerCycle :: max_charges_per_cycle
  sc_expired :: bool

definition serializeCard ::
    "decimal_lib \<Rightarrow> tz_offset \<Rightarrow> instant \<Rightarrow> card_row \<Rightarrow> rat \<Rightarrow> serialized_card res" where
  "serializeCard D sp now crd committedAmount =
     (let committed = (if cr_archivedAt crd \<noteq> None then 0 else toMoney D committedAmount) in
      res_bind (currentCycleWindow sp crd (todayKeyInSaoPaulo sp now)) (\<lambda>window.
      res_bind (maxChargesForWindow window) (\<lambda>maxCharges.
      Inr \<lparr>sc_id = bc_id crd, sc_name = cr_name crd, sc_limit = cr_limit crd, sc_closingDay = card_closingDay crd,
           sc_pendingClosingDay = bc_pendingClosingDay crd, sc_archivedAt = cr_archivedAt crd,
           sc_expiresAt = cr_expiresAt crd, sc_lastInvoicedOn = card_lastInvoicedOn crd,
           sc_lastBillingProcessedAt = bc_lastBillingProcessedAt crd, sc_createdAt = card_createdAt crd,
           sc_committed = committed,
           sc_available = map_option (\<lambda>l. toMoney D (dec_minus D l committed)) (cr_limit crd),
           sc_maxChargesPerCycle = maxCharges,
           sc_expired = (case cr_expiresAt crd of Some t \<Rightarrow> t < now | None \<Rightarrow> False)\<rparr>)))"

section \<open>What a run does to the tables\<close>

lemma update_card_id [simp]: "bc_id (apply_card_update u r) = bc_id r"
  by (simp add: apply_card_update_def)

lemma update_card_keeps [simp]:
  "cr_userId (apply_card_update u r) = cr_userId r" "cr_archivedAt (apply_card_update u r) = cr_archivedAt r"
  by (simp_all add: apply_card_update_def)

lemma updated_card_keeps [simp]:
  "cr_userId (updated_card u r) = cr_userId r" "cr_archivedAt (updated_card u r) = cr_archivedAt r"
  "bc_id (updated_card u r) = bc_id r"
  by (simp_all add: updated_card_def split: option.split)

definition planned_update ::
    "decimal_lib \<Rightarrow> tz_offset \<Rightarrow> billable_expense list \<Rightarrow> instant \<Rightarrow> instant \<Rightarrow> card_row \<Rightarrow> card_update option" where
  "planned_update D sp billable cutoff now crd =
     (case planCardBilling D sp crd billable cutoff now of Inr (invoices, u) \<Rightarrow> u | Inl e \<Rightarrow> None)"

lemma bill_cards_rows:
  assumes "\<forall>c \<in> set cs. \<exists>r. planCardBilling D sp c billable cutoff now = Inr r" "distinct (map bc_id cs)"
  shows "\<exists>invs. res_fold (bill_card D sp billable cutoff now) (rows, acc) cs =
    Inr (map (\<lambda>r. case find (\<lambda>c. bc_id c = bc_id r) cs of
           Some c \<Rightarrow> updated_card (planned_update D sp billable cutoff now c) r | None \<Rightarrow> r) rows, acc @ invs)"
  using assms
proof (induction cs arbitrary: rows acc)
  case (Cons c cs)
  from Cons.prems(1) obtain invoices u where p: "planCardBilling D sp c billable cutoff now = Inr (invoices, u)"
    by auto
  let ?upd = "\<lambda>r. if bc_id r = bc_id c then updated_card u r else r"
  have step: "bill_card D sp billable cutoff now (rows, acc) c = Inr (map ?upd rows, acc @ map (\<lambda>i. (c, i)) invoices)"
    by (cases u) (auto simp: bill_card_def p update_card_row_def updated_card_def map_idI)
  have pu: "planned_update D sp billable cutoff now c = u" by (simp add: planned_update_def p)
  from Cons.IH [of "map ?upd rows" "acc @ map (\<lambda>i. (c, i)) invoices"] Cons.prems obtain invs where
    IH: "res_fold (bill_card D sp billable cutoff now) (map ?upd rows, acc @ map (\<lambda>i. (c, i)) invoices) cs =
      Inr (map (\<lambda>r. case find (\<lambda>c. bc_id c = bc_id r) cs of
           Some c \<Rightarrow> updated_card (planned_update D sp billable cutoff now c) r | None \<Rightarrow> r) (map ?upd rows),
           acc @ map (\<lambda>i. (c, i)) invoices @ invs)"
    by auto
  have none: "find (\<lambda>c'. bc_id c' = bc_id c) cs = None"
    using Cons.prems(2) by (auto simp: find_None_iff) (metis imageI)
  have "(case find (\<lambda>c. bc_id c = bc_id (?upd r)) cs of
           Some c \<Rightarrow> updated_card (planned_update D sp billable cutoff now c) (?upd r) | None \<Rightarrow> ?upd r)
      = (case find (\<lambda>c. bc_id c = bc_id r) (c # cs) of
           Some c \<Rightarrow> updated_card (planned_update D sp billable cutoff now c) r | None \<Rightarrow> r)" for r :: card_row
    using none by (auto simp: pu)
  then show ?case using step IH by (auto simp: comp_def)
qed simp

definition selected :: "string \<Rightarrow> card_row list \<Rightarrow> card_row list" where
  "selected userId rows = filter (\<lambda>c. cr_userId c = userId \<and> cr_archivedAt c = None) rows"

text \<open>The rows after a run: every selected card has its planned update.\<close>

definition billed_cards ::
    "decimal_lib \<Rightarrow> tz_offset \<Rightarrow> billable_expense list \<Rightarrow> instant \<Rightarrow> instant \<Rightarrow> string \<Rightarrow> card_row list \<Rightarrow> card_row list" where
  "billed_cards D sp billable cutoff now userId rows =
     map (\<lambda>r. if cr_userId r = userId \<and> cr_archivedAt r = None
              then updated_card (planned_update D sp billable cutoff now r) r else r) rows"

lemma find_selected:
  assumes "distinct (map bc_id rows)" "r \<in> set rows"
  shows "find (\<lambda>c. bc_id c = bc_id r) (selected u rows)
    = (if cr_userId r = u \<and> cr_archivedAt r = None then Some r else None)"
proof -
  have only: "c = r" if "c \<in> set rows" "bc_id c = bc_id r" for c
    using assms that by (auto simp: distinct_map inj_on_def)
  show ?thesis
  proof (cases "cr_userId r = u \<and> cr_archivedAt r = None")
    case True
    then have "find (\<lambda>c. bc_id c = bc_id r) (selected u rows) \<noteq> None"
      using assms(2) by (auto simp: find_None_iff selected_def)
    then obtain c where "find (\<lambda>c. bc_id c = bc_id r) (selected u rows) = Some c" by blast
    moreover from this have "c \<in> set rows" "bc_id c = bc_id r" by (auto simp: find_Some_iff selected_def dest!: nth_mem)
    ultimately show ?thesis using only True by simp
  next
    case False
    then show ?thesis using only by (auto simp: find_None_iff selected_def)
  qed
qed

lemma bill_selected:
  assumes "\<forall>c \<in> set (selected u rows). \<exists>r. planCardBilling D sp c billable cutoff now = Inr r"
    and "distinct (map bc_id rows)"
  shows "\<exists>invs. res_fold (bill_card D sp billable cutoff now) (rows, []) (selected u rows)
    = Inr (billed_cards D sp billable cutoff now u rows, invs)"
proof -
  have "distinct (map bc_id (selected u rows))"
    using assms(2) by (auto simp: selected_def distinct_map inj_on_def)
  from bill_cards_rows [OF assms(1) this, of rows "[]"] obtain invs where
    "res_fold (bill_card D sp billable cutoff now) (rows, []) (selected u rows) =
    Inr (map (\<lambda>r. case find (\<lambda>c. bc_id c = bc_id r) (selected u rows) of
           Some c \<Rightarrow> updated_card (planned_update D sp billable cutoff now c) r | None \<Rightarrow> r) rows, invs)"
    by auto
  moreover have "map (\<lambda>r. case find (\<lambda>c. bc_id c = bc_id r) (selected u rows) of
           Some c \<Rightarrow> updated_card (planned_update D sp billable cutoff now c) r | None \<Rightarrow> r) rows
      = billed_cards D sp billable cutoff now u rows"
    unfolding billed_cards_def by (rule map_cong [OF refl]) (simp add: find_selected [OF assms(2)])
  ultimately show ?thesis by simp
qed

lemma bill_nothing:
  "\<forall>c \<in> set cs. planCardBilling D sp c billable cutoff now = Inr ([], None) \<Longrightarrow>
    res_fold (bill_card D sp billable cutoff now) acc cs = Inr acc"
  by (induction cs arbitrary: acc) (auto simp: bill_card_def)

lemma load_ignores_invoices:
  "list_all be_isInvoice rows \<Longrightarrow>
    loadBillableExpensesForCards (expenses @ rows) userId = loadBillableExpensesForCards expenses userId"
  by (simp add: loadBillableExpensesForCards_def list_all_iff filter_empty_conv [THEN iffD2])

section \<open>Properties\<close>

text \<open>Tables a run accepts: distinct card ids, and data every card of the user can be planned on.\<close>

definition ok_run :: "decimal_lib \<Rightarrow> tz_offset \<Rightarrow> string \<Rightarrow> instant \<Rightarrow> int \<Rightarrow> billing_db \<Rightarrow> bool" where
  "ok_run D sp userId now c db \<longleftrightarrow> distinct (map bc_id (db_cards db))
     \<and> local_day sp now = c + 1 \<and> ok_day c \<and> ok_day (c + 1)
     \<and> (\<exists>billable. loadBillableExpensesForCards (db_expenses db) userId = Inr billable \<and>
        (\<forall>crd \<in> set (selected userId (db_cards db)). \<exists>s0. ok_plan D sp crd billable now s0 c))"

lemma cutoff_of_now:
  assumes "local_day sp now = c + 1" "ok_day c" "ok_day (c + 1)"
  shows "addDaysToKey (todayKeyInSaoPaulo sp now) (-1) = Inr (key c)" "dayKeyToDate (key c) Noon = Inr (noon c)"
proof -
  have "todayKeyInSaoPaulo sp now = key (c + 1)"
    using dayKeyInSaoPaulo_key [of now sp] assms by (simp add: todayKeyInSaoPaulo_def local_day_def)
  then show "addDaysToKey (todayKeyInSaoPaulo sp now) (-1) = Inr (key c)" "dayKeyToDate (key c) Noon = Inr (noon c)"
    using assms by (simp_all add: addDaysToKey_key dayKeyToDate_noon)
qed

text \<open>C19. A billing run writes only what it bills: it appends invoices of the user and leaves every
  other expense row and every card of other users and every archived card as it was. Running it
  again on the same local day, at whatever time, creates no further invoice and changes nothing.\<close>

theorem billing_run_is_idempotent:
  assumes "decimal_arith D" "ok_run D sp userId now c db" "local_day sp now' = c + 1"
  shows "\<exists>db' n rows. processUserCardBilling D sp newId userId now db = Inr (db', n)
    \<and> db_expenses db' = db_expenses db @ rows \<and> length rows = n
    \<and> (\<forall>row \<in> set rows. be_isInvoice row \<and> er_userId row = userId)
    \<and> (\<forall>crd \<in> set (db_cards db). cr_userId crd \<noteq> userId \<or> cr_archivedAt crd \<noteq> None \<longrightarrow> crd \<in> set (db_cards db'))
    \<and> processUserCardBilling D sp newId userId now' db' = Inr (db', 0)"
proof -
  from assms(2) obtain billable where b: "loadBillableExpensesForCards (db_expenses db) userId = Inr billable"
    "\<forall>crd \<in> set (selected userId (db_cards db)). \<exists>s0. ok_plan D sp crd billable now s0 c"
    and ids: "distinct (map bc_id (db_cards db))" and now: "local_day sp now = c + 1" "ok_day c" "ok_day (c + 1)"
    by (auto simp: ok_run_def)
  have plan: "\<exists>r. planCardBilling D sp crd billable (noon c) now = Inr r \<and>
      planCardBilling D sp (updated_card (snd r) crd) billable (noon c) now' = Inr ([], None)"
    if "crd \<in> set (selected userId (db_cards db))" for crd
  proof -
    from b(2) that obtain s0 where "ok_plan D sp crd billable now s0 c" by blast
    from plan_run [OF assms(1) this] planning_again_plans_nothing [OF assms(1) this] show ?thesis
      by (metis snd_conv)
  qed
  let ?cards = "billed_cards D sp billable (noon c) now userId (db_cards db)"
  obtain invs where fold: "res_fold (bill_card D sp billable (noon c) now) (db_cards db, []) (selected userId (db_cards db))
      = Inr (?cards, invs)"
    using bill_selected [OF _ ids] plan by blast
  define rows where "rows = map (\<lambda>(i, crd, invoice). invoice_row D newId now userId crd invoice (length (db_expenses db) + i))
      (enumerate 0 invs)"
  define db' where "db' = db\<lparr>db_cards := ?cards, db_expenses := db_expenses db @ rows\<rparr>"
  have run: "processUserCardBilling D sp newId userId now db = Inr (db', length invs)"
    using fold by (simp add: processUserCardBilling_def cutoff_of_now [OF now] b(1) selected_def rows_def db'_def Let_def)
  have rows: "\<forall>row \<in> set rows. be_isInvoice row \<and> er_userId row = userId" "length rows = length invs"
    by (auto simp: rows_def invoice_row_def)
  have no_plan: "\<forall>crd \<in> set (selected userId ?cards). planCardBilling D sp crd billable (noon c) now' = Inr ([], None)"
  proof
    fix crd assume "crd \<in> set (selected userId ?cards)"
    then obtain r where r: "r \<in> set (selected userId (db_cards db))"
      "crd = updated_card (planned_update D sp billable (noon c) now r) r"
      by (auto simp: selected_def billed_cards_def split: if_splits)
    from plan [OF r(1)] r(2) show "planCardBilling D sp crd billable (noon c) now' = Inr ([], None)"
      by (auto simp: planned_update_def)
  qed
  have "res_fold (bill_card D sp billable (noon c) now') (?cards, []) (selected userId ?cards) = Inr (?cards, [])"
    using no_plan by (rule bill_nothing)
  then have "processUserCardBilling D sp newId userId now' db' = Inr (db', 0)"
    using load_ignores_invoices [of rows "db_expenses db" userId] rows(1) b(1)
    by (simp add: processUserCardBilling_def cutoff_of_now [OF assms(3) now(2,3)] db'_def selected_def list_all_iff Let_def)
  moreover have "\<forall>crd \<in> set (db_cards db). cr_userId crd \<noteq> userId \<or> cr_archivedAt crd \<noteq> None \<longrightarrow> crd \<in> set (db_cards db')"
    by (auto simp: db'_def billed_cards_def image_iff)
  ultimately show ?thesis using run rows by (auto simp: db'_def)
qed

definition sample_db :: billing_db where
  "sample_db = \<lparr>db_cards = [billing_card.extend sample_card \<lparr>cr_userId = ''ana'', cr_name = ''Visa'', cr_limit = None,
       cr_archivedAt = None, cr_expiresAt = None\<rparr>], db_expenses = []\<rparr>"

theorem billing_run_is_idempotent_witness:
  "\<exists>db' n. processUserCardBilling decimal_js sao_paulo_standard nat_digits ''ana'' (noon 20546) sample_db = Inr (db', n)
    \<and> processUserCardBilling decimal_js sao_paulo_standard nat_digits ''ana'' (noon 20546 + 3600000) db' = Inr (db', 0)"
proof -
  let ?crd = "hd (db_cards sample_db)"
  have "charged decimal_js sao_paulo_standard [] ''card-1'' 20484 20545 = 0" by (simp add: charged_def)
  moreover have "ok_day (20484 - 40)" "ok_day 20484" "roomy 20545" "ok_month (month_idx 20545 + 1)"
    "month_idx 20545 < month_idx 20484 + 1199" "ok_day (local_day sao_paulo_standard (noon 20450))"
    by code_simp+
  moreover have "periodStartKey_of sao_paulo_standard ?crd = key 20484"
    using noon_key [of 20484] by (simp add: periodStartKey_of_def sample_db_def sample_card_def billing_card.extend_def)
  ultimately have plan: "ok_plan decimal_js sao_paulo_standard ?crd [] (noon 20546) 20484 20545"
    unfolding ok_plan_def billing_ok_def
    by (simp add: ok_expenses_def sample_db_def sample_card_def billing_card.extend_def)
  have "local_day sao_paulo_standard (noon 20546) = 20545 + 1" "ok_day 20545" "ok_day (20545 + 1)"
    "local_day sao_paulo_standard (noon 20546 + 3600000) = 20545 + 1"
    by code_simp+
  moreover from this plan have "ok_run decimal_js sao_paulo_standard ''ana'' (noon 20546) 20545 sample_db"
    unfolding ok_run_def by (auto simp: sample_db_def loadBillableExpensesForCards_def selected_def)
  ultimately show ?thesis
    using billing_run_is_idempotent [OF js_decimal.decimal_arith_axioms, of sao_paulo_standard "''ana''" "noon 20546"
      20545 sample_db "noon 20546 + 3600000" nat_digits] by blast
qed

end
