(* ===== verification/Splits.thy ===== *)
theory Splits
  imports Billing_Run
begin

text \<open>
  \<open>backend/src/lib/split-allocation.ts\<close> and \<open>expense-splits.ts\<close>: how an expense is divided over
  cards and PIX, and the card limits. A \<open>Map\<close> from card ids is a function to options. Numbers
  that hold percentages are the decimals they print as; the one floating-point subtraction
  (an isolated card must be 100%) is rounded to doubles.
\<close>

section \<open>split-allocation.ts\<close>

datatype split_input = CardSplit string rat | PixSplit rat

record resolved_split =
  rs_kind :: string
  rs_cardId :: "string option"
  rs_percent :: rat
  rs_amount :: rat

record split_part =
  sp_kind :: string
  sp_cardId :: "string option"
  sp_percent :: rat

definition split_error :: "string \<Rightarrow> error" where
  "split_error m = DomainError ''EXPENSE_SPLIT_INVALID'' m"

definition allocateSplitAmounts :: "decimal_lib \<Rightarrow> rat \<Rightarrow> split_part list \<Rightarrow> resolved_split list" where
  "allocateSplitAmounts D amount parts =
     (let amounts = (if parts = [] then [] else allocateByPercent D amount (map sp_percent parts)) in
      map (\<lambda>(part, a). \<lparr>rs_kind = sp_kind part, rs_cardId = sp_cardId part,
             rs_percent = toMoney D (sp_percent part), rs_amount = a\<rparr>) (zip parts amounts))"

definition normalize_split :: "js \<Rightarrow> split_input res" where
  "normalize_split raw =
     (case raw of
        JObject item \<Rightarrow>
          (case js_to_number (js_field item ''percent'') of
             None \<Rightarrow> Inl (split_error ''Percentual invalido (use valores > 0)'')
           | Some percent \<Rightarrow>
               res_when (percent \<le> 0 \<or> percent > 100) (split_error ''Percentual invalido (use valores > 0)'')
                 (if js_field item ''kind'' = JString ''pix'' then Inr (PixSplit percent)
                  else if js_field item ''kind'' = JString ''card'' \<or> js_truthy (js_field item ''cardId'') then
                    (let cid = (case js_field item ''cardId'' of JString s \<Rightarrow> trim s | _ \<Rightarrow> []) in
                     res_when (cid = []) (split_error ''Cartao obrigatorio no split'') (Inr (CardSplit cid percent)))
                  else Inl (split_error ''Split deve ser cartao ou PIX'')))
      | JArray xs \<Rightarrow> Inl (split_error ''Percentual invalido (use valores > 0)'')
      | _ \<Rightarrow> Inl (split_error ''Splits invalidos''))"

definition normalizeSplitInputs :: "js \<Rightarrow> js \<Rightarrow> split_input list option res" where
  "normalizeSplitInputs splits cardId =
     (case splits of
        JUndefined \<Rightarrow> Inr (if js_truthy cardId then Some [CardSplit (js_to_string cardId) 100] else None)
      | JNull \<Rightarrow> Inr (Some [])
      | JArray xs \<Rightarrow> res_bind (res_mapM normalize_split xs) (\<lambda>inputs. Inr (Some inputs))
      | _ \<Rightarrow> Inl (split_error ''Splits invalidos''))"

fun input_percent :: "split_input \<Rightarrow> rat" where
  "input_percent (CardSplit c p) = p"
| "input_percent (PixSplit p) = p"

fun is_pix :: "split_input \<Rightarrow> bool" where
  "is_pix (CardSplit c p) = False"
| "is_pix (PixSplit p) = True"

fun input_card :: "split_input \<Rightarrow> string option" where
  "input_card (CardSplit c p) = Some c"
| "input_card (PixSplit p) = None"

definition validateSplitShape :: "decimal_lib \<Rightarrow> split_input list \<Rightarrow> unit res" where
  "validateSplitShape D inputs =
     (let percentSum = foldl (\<lambda>acc i. dec_plus D acc (input_percent i)) 0 inputs;
          pixCount = length (filter is_pix inputs);
          cardInputs = filter (\<lambda>i. \<not> is_pix i) inputs in
      if inputs = [] then Inr ()
      else res_when (length inputs > 2) (split_error ''No maximo 2 partes no split'')
          (res_when (\<bar>dec_minus D percentSum 100\<bar> > 0.01) (split_error ''A soma dos percentuais deve ser 100%'')
          (res_when (pixCount > 1) (split_error ''So e permitido um split PIX'')
          (res_when (pixCount = 1 \<and> length inputs = 1) (split_error ''PIX 100% nao usa split - deixe sem cartao'')
          (res_when (pixCount = 1 \<and> length cardInputs \<noteq> 1) (split_error ''Combine 1 cartao + PIX'')
          (if pixCount = 0 \<and> length cardInputs = 1 \<and> length inputs = 1 then
             res_when (\<bar>double (double (input_percent (cardInputs ! 0)) - 100)\<bar> > double 0.01)
               (split_error ''Um cartao isolado deve ser 100%'') (Inr ())
           else if pixCount = 0 \<and> length cardInputs = 2 then
             res_when (input_card (cardInputs ! 0) = input_card (cardInputs ! 1))
               (split_error ''Escolha dois cartoes diferentes'') (Inr ())
           else
             res_when (pixCount = 0 \<and> length cardInputs \<noteq> 1 \<and> length cardInputs \<noteq> 2)
               (split_error ''Splits de cartao invalidos'') (Inr ())))))))"

definition charges_field :: "max_charges_per_cycle \<Rightarrow> string \<Rightarrow> int" where
  "charges_field m frequency =
     (if frequency = ''unica'' then mc_unica m
      else if frequency = ''mensal'' then mc_mensal m
      else if frequency = ''semanal'' then mc_semanal m
      else 1)"

definition limit_error :: "string \<Rightarrow> rat \<Rightarrow> error" where
  "limit_error name available = split_error (''Limite insuficiente no cartao '' @ name @ '' (disponivel R$ ''
     @ comma_text (fixed2_text available) @ '')'')"

definition assert_split_limit ::
    "decimal_lib \<Rightarrow> (string \<Rightarrow> card_row option) \<Rightarrow> (string \<Rightarrow> rat option) \<Rightarrow> string
     \<Rightarrow> (string \<Rightarrow> cycle_window option) \<Rightarrow> resolved_split \<Rightarrow> unit res" where
  "assert_split_limit D cards committedByCard frequency windows split =
     (case (rs_kind split = ''card'', rs_cardId split) of
        (True, Some cid) \<Rightarrow>
          (if cid = [] then Inr ()
           else case cards cid of
             None \<Rightarrow> Inr ()
           | Some crd \<Rightarrow>
               (case cr_limit crd of
                  None \<Rightarrow> Inr ()
                | Some limit \<Rightarrow>
                    res_bind (case windows cid of
                        Some window \<Rightarrow> res_bind (maxChargesForWindow window) (\<lambda>m. Inr (charges_field m frequency))
                      | None \<Rightarrow> Inr (maxChargesPerCycle frequency)) (\<lambda>charges.
                    let committed = (case committedByCard cid of Some c \<Rightarrow> c | None \<Rightarrow> 0);
                        available = toMoney D (dec_minus D limit committed);
                        candidate = dec_mul D (rs_amount split) (of_int charges) in
                    res_when (candidate > available) (limit_error (cr_name crd) available) (Inr ()))))
      | _ \<Rightarrow> Inr ())"

definition assertCardLimits ::
    "decimal_lib \<Rightarrow> (string \<Rightarrow> card_row option) \<Rightarrow> resolved_split list \<Rightarrow> (string \<Rightarrow> rat option) \<Rightarrow> string
     \<Rightarrow> (string \<Rightarrow> cycle_window option) \<Rightarrow> unit res" where
  "assertCardLimits D cards resolved committedByCard frequency windows =
     res_fold (\<lambda>u split. assert_split_limit D cards committedByCard frequency windows split) () resolved"

definition denormalizedCardId :: "resolved_split list \<Rightarrow> string option" where
  "denormalizedCardId resolved =
     (let cardSplits = filter (\<lambda>s. rs_kind s = ''card'') resolved in
      if length cardSplits = 1 \<and> length resolved = 1 then rs_cardId (cardSplits ! 0) else None)"

section \<open>expense-splits.ts\<close>

definition assertCardsForSplits ::
    "instant \<Rightarrow> string \<Rightarrow> split_input list \<Rightarrow> billing_db \<Rightarrow> (string \<Rightarrow> card_row option) res" where
  "assertCardsForSplits now userId inputs db =
     (let cardIds = remdups (map (the \<circ> input_card) (filter (\<lambda>i. \<not> is_pix i) inputs));
          cards = filter (\<lambda>c. cr_userId c = userId \<and> cr_archivedAt c = None \<and> bc_id c \<in> set cardIds) (db_cards db) in
      if cardIds = [] then Inr Map.empty
      else res_when (length cards \<noteq> length cardIds) (split_error ''Cartao invalido'')
        (case find (\<lambda>c. case cr_expiresAt c of Some t \<Rightarrow> t < now | None \<Rightarrow> False) cards of
           Some c \<Rightarrow> Inl (split_error (''Cartao vencido ('' @ cr_name c @ ''). Renove a validade no Perfil.''))
         | None \<Rightarrow> Inr (map_of (map (\<lambda>c. (bc_id c, c)) cards))))"

text \<open>What is committed on one card in its open window.\<close>

definition committed_on_card ::
    "decimal_lib \<Rightarrow> tz_offset \<Rightarrow> billable_expense list \<Rightarrow> day_key \<Rightarrow> card_row \<Rightarrow> (string \<times> rat) res" where
  "committed_on_card D sp billable todayKey crd =
     res_bind (currentCycleWindow sp crd todayKey) (\<lambda>window.
     res_bind (chargesTotalDecimal D sp billable (bc_id crd) window) (\<lambda>cycleAmount.
     case (card_lastInvoicedOn crd, bc_lastBillingProcessedAt crd) of
       (Some invoiced, Some processed) \<Rightarrow>
         res_bind (dayKeyToDate (w_periodStartKey window) Noon) (\<lambda>closedThrough.
         Inr (bc_id crd,
           dec_plus D cycleAmount (lateOneOffsDecimal D sp billable (bc_id crd) closedThrough processed)))
     | _ \<Rightarrow> Inr (bc_id crd, cycleAmount)))"

definition getCommittedByCard ::
    "decimal_lib \<Rightarrow> tz_offset \<Rightarrow> string \<Rightarrow> string option \<Rightarrow> instant \<Rightarrow> billing_db \<Rightarrow> (string \<Rightarrow> rat option) res" where
  "getCommittedByCard D sp userId excludeExpenseId asOf db =
     (let cards = filter (\<lambda>c. cr_userId c = userId \<and> cr_archivedAt c = None) (db_cards db);
          expenses = filter (\<lambda>r. er_userId r = userId \<and> \<not> be_isInvoice r \<and> er_systemOrigin r = ''manual''
            \<and> (truthy excludeExpenseId \<longrightarrow> Some (er_id r) \<noteq> excludeExpenseId)) (db_expenses db) in
      res_bind (res_mapM billable_row expenses) (\<lambda>billable.
      res_bind (res_mapM (committed_on_card D sp billable (todayKeyInSaoPaulo sp asOf)) cards) (\<lambda>pairs.
      Inr (map_of (rev pairs)))))"

definition assert_projected_limit ::
    "decimal_lib \<Rightarrow> tz_offset \<Rightarrow> (string \<Rightarrow> rat option) \<Rightarrow> billable_expense \<Rightarrow> day_key \<Rightarrow> card_row \<Rightarrow> unit res" where
  "assert_projected_limit D sp otherCommittedByCard prospective todayKey crd =
     (case cr_limit crd of
        None \<Rightarrow> Inr ()
      | Some limit \<Rightarrow>
          res_bind (currentCycleWindow sp crd todayKey) (\<lambda>window.
          res_bind (chargeAmountDecimal D sp prospective (bc_id crd) window) (\<lambda>projected.
          if projected \<le> 0 then Inr ()
          else
            (let available = dec_minus D limit
                   (case otherCommittedByCard (bc_id crd) of Some c \<Rightarrow> c | None \<Rightarrow> 0) in
             res_when (projected > available)
               (limit_error (cr_name crd) (dec_places D 2 ROUND_HALF_UP available)) (Inr ())))))"

definition assertProspectiveVersionedCardLimits ::
    "decimal_lib \<Rightarrow> tz_offset \<Rightarrow> card_row list \<Rightarrow> (string \<Rightarrow> rat option) \<Rightarrow> billable_expense \<Rightarrow> instant \<Rightarrow> unit res" where
  "assertProspectiveVersionedCardLimits D sp cards otherCommittedByCard prospective asOf =
     (let todayKey = todayKeyInSaoPaulo sp asOf in
      res_fold (\<lambda>u crd. assert_projected_limit D sp otherCommittedByCard prospective todayKey crd) () cards)"

definition part_of_input :: "split_input \<Rightarrow> split_part" where
  "part_of_input i = (case i of
     PixSplit p \<Rightarrow> \<lparr>sp_kind = ''pix'', sp_cardId = None, sp_percent = p\<rparr>
   | CardSplit c p \<Rightarrow> \<lparr>sp_kind = ''card'', sp_cardId = Some c, sp_percent = p\<rparr>)"

text \<open>The current window of every card of a map.\<close>

definition card_windows ::
    "tz_offset \<Rightarrow> day_key \<Rightarrow> split_input list \<Rightarrow> (string \<Rightarrow> card_row option) \<Rightarrow> (string \<times> cycle_window) list res" where
  "card_windows sp todayKey inputs cards =
     res_mapM (\<lambda>(cid, crd). res_bind (currentCycleWindow sp crd todayKey) (\<lambda>w. Inr (cid, w)))
       (List.map_filter (\<lambda>cid. map_option (\<lambda>crd. (cid, crd)) (cards cid))
          (remdups (map (the \<circ> input_card) (filter (\<lambda>i. \<not> is_pix i) inputs))))"

definition resolveAndValidateSplits ::
    "decimal_lib \<Rightarrow> tz_offset \<Rightarrow> instant \<Rightarrow> string \<Rightarrow> rat \<Rightarrow> js \<Rightarrow> js \<Rightarrow> string \<Rightarrow> string option \<Rightarrow> bool
     \<Rightarrow> billing_db \<Rightarrow> resolved_split list res" where
  "resolveAndValidateSplits D sp now userId totalAmount splits cardId frequency excludeExpenseId validateLimits db =
     res_bind (normalizeSplitInputs splits cardId) (\<lambda>normalized.
     case normalized of
       None \<Rightarrow> Inr []
     | Some inputs \<Rightarrow>
         res_bind (validateSplitShape D inputs) (\<lambda>u.
         res_bind (assertCardsForSplits now userId inputs db) (\<lambda>cards.
         let resolved = allocateSplitAmounts D totalAmount (map part_of_input inputs) in
         if validateLimits then
           res_bind (getCommittedByCard D sp userId excludeExpenseId now db) (\<lambda>committedByCard.
           res_bind (card_windows sp (todayKeyInSaoPaulo sp now) inputs cards) (\<lambda>windows.
           res_bind (assertCardLimits D cards resolved committedByCard frequency (map_of windows)) (\<lambda>u.
           Inr resolved)))
         else Inr resolved)))"

section \<open>Shapes and shares\<close>

lemma normalized_percents:
  assumes "normalizeSplitInputs splits cardId = Inr (Some inputs)"
  shows "\<forall>i \<in> set inputs. 0 < input_percent i \<and> input_percent i \<le> 100"
proof -
  have one: "0 < input_percent i \<and> input_percent i \<le> 100" if "normalize_split raw = Inr i" for raw i
    using that
    by (auto simp: normalize_split_def Let_def split: js.splits option.splits if_splits)
  have all: "\<forall>i \<in> set ys. 0 < input_percent i \<and> input_percent i \<le> 100" if "res_mapM normalize_split xs = Inr ys" for xs ys
    using that one by (induction xs arbitrary: ys) (auto simp: res_bind_eq_Inr)
  show ?thesis
    using assms all
    by (auto simp: normalizeSplitInputs_def res_bind_eq_Inr split: js.splits if_splits)
qed

lemma shape_length: "validateSplitShape D inputs = Inr () \<Longrightarrow> length inputs \<le> 2"
  by (cases "inputs = []") (auto simp: validateSplitShape_def Let_def)

lemma allocateSplitAmounts_fields:
  assumes "length (allocateByPercent D amount (map sp_percent parts)) = length parts" "parts \<noteq> []"
  shows "map rs_amount (allocateSplitAmounts D amount parts) = allocateByPercent D amount (map sp_percent parts)"
    "map rs_kind (allocateSplitAmounts D amount parts) = map sp_kind parts"
    "map rs_cardId (allocateSplitAmounts D amount parts) = map sp_cardId parts"
  using assms by (auto simp: allocateSplitAmounts_def Let_def intro!: nth_equalityI)

context decimal_arith
begin

text \<open>With two parts even the last one, the remainder, is not negative.\<close>

lemma two_parts_nonneg:
  assumes "0 \<le> amount" "amount \<le> 9999999999.99" "length ps \<le> 2" "\<forall>p \<in> set ps. 0 \<le> p \<and> p \<le> 100"
  shows "\<forall>a \<in> set (allocateByPercent D amount ps). 0 \<le> a"
proof -
  let ?t = "toMoney D amount"
  have "?t < 10 ^ 16"
  proof -
    have "amount < 10000000000" using assms(2) by simp
    with toMoney_near [of amount] have "?t < 10000000001" by linarith
    then show ?thesis by simp
  qed
  note t = toMoney_cents [of amount] toMoney_nonneg [OF assms(1)] this
  consider "ps = []" | p where "ps = [p]" | p q where "ps = [p, q]"
    using assms(3) by (cases ps; cases "tl ps"; cases "tl (tl ps)") auto
  then show ?thesis
  proof cases
    case 1
    then show ?thesis by (simp add: allocateByPercent_def)
  next
    case 2
    have "dec_minus D ?t 0 = ?t - 0" using t by (intro minus_cents) simp_all
    with 2 t show ?thesis by (simp add: allocateByPercent_def)
  next
    case 3
    define part where "part = toMoney D (dec_div D (dec_mul D ?t p) 100)"
    have part: "0 \<le> part" "part \<le> ?t" "cents part"
      using percent_part_bounds [OF t, of p] 3 assms(4) by (auto simp: part_def)
    have "dec_plus D 0 part = 0 + part" using part t by (intro plus_cents) simp_all
    moreover have "dec_minus D ?t part = ?t - part" using part t by (intro minus_cents) simp_all
    ultimately show ?thesis
      using 3 part by (simp add: allocateByPercent_def part_def [symmetric] Let_def)
  qed
qed

text \<open>A product that is rounded to 20 digits does not hide an excess of a cent.\<close>

lemma mul_le_cents:
  assumes "dec_mul D a b \<le> z" "cents (a * b)" "cents z" "\<bar>z\<bar> < 10 ^ 17"
  shows "a * b \<le> z"
proof (rule ccontr)
  assume "\<not> a * b \<le> z"
  obtain m k where m: "a * b = of_int m / 100" "z = of_int k / 100"
    using assms(2,3) by (auto simp: on_grid_iff)
  with \<open>\<not> a * b \<le> z\<close> have "(of_int k :: rat) < of_int m" by simp
  then have "k + 1 \<le> m" by simp
  then have "(of_int (k + 1) :: rat) \<le> of_int m" by (simp only: of_int_le_iff)
  then have le: "z + 1 / 100 \<le> a * b" by (simp add: m add_divide_distrib)
  have "cents (z + 1 / 100)" using assms(3) on_grid_of_int [of 2 1] by (auto intro: on_grid_plus)
  then have "fits20 (z + 1 / 100)" using assms(4) by (intro cents_fits20) auto
  with mul_rounded [of a b] le have "z + 1 / 100 \<le> dec_mul D a b" by (simp add: no_crossing_def)
  with assms(1) show False by simp
qed

end

lemma resolved_parts:
  assumes "decimal_arith D" "0 \<le> amount" "amount \<le> 9999999999.99"
    and "resolveAndValidateSplits D sp now userId amount splits cardId frequency exclude limits db = Inr resolved"
    and "resolved \<noteq> []"
  obtains inputs where "normalizeSplitInputs splits cardId = Inr (Some inputs)" "validateSplitShape D inputs = Inr ()"
    "resolved = allocateSplitAmounts D amount (map part_of_input inputs)" "inputs \<noteq> []"
    "(\<Sum>s \<leftarrow> resolved. rs_amount s) = toMoney D amount" "\<forall>s \<in> set resolved. cents (rs_amount s) \<and> 0 \<le> rs_amount s"
    "map rs_kind resolved = map (sp_kind \<circ> part_of_input) inputs" "map rs_cardId resolved = map (sp_cardId \<circ> part_of_input) inputs"
proof -
  from assms(4,5) obtain inputs where i: "normalizeSplitInputs splits cardId = Inr (Some inputs)"
    "validateSplitShape D inputs = Inr ()" "resolved = allocateSplitAmounts D amount (map part_of_input inputs)"
    by (auto simp: resolveAndValidateSplits_def res_bind_eq_Inr Let_def split: option.splits if_splits)
  let ?ps = "map sp_percent (map part_of_input inputs)"
  have ps: "?ps = map input_percent inputs"
    by (auto simp: part_of_input_def split: split_input.splits)
  have ne: "inputs \<noteq> []" using i(3) assms(5) by (auto simp: allocateSplitAmounts_def)
  have range: "\<forall>p \<in> set ?ps. 0 \<le> p \<and> p \<le> 100"
    unfolding ps using normalized_percents [OF i(1)] by (auto simp: less_imp_le)
  have len: "length ?ps \<le> 2" using shape_length [OF i(2)] by simp
  have a: "sum_list (allocateByPercent D amount ?ps) = toMoney D amount"
    "list_all cents (allocateByPercent D amount ?ps)" "length (allocateByPercent D amount ?ps) = length ?ps"
    using decimal_arith.allocation_sum [OF assms(1,2,3) _ _ range] ne len by auto
  have map: "map rs_amount resolved = allocateByPercent D amount ?ps"
    unfolding i(3) using ne a(3) by (intro allocateSplitAmounts_fields) auto
  then have "set (map rs_amount resolved) = set (allocateByPercent D amount ?ps)" by simp
  with decimal_arith.two_parts_nonneg [OF assms(1,2,3) len range] a(2)
  have "\<forall>s \<in> set resolved. cents (rs_amount s) \<and> 0 \<le> rs_amount s"
    by (auto simp: list_all_iff simp del: map_map)
  moreover have "map rs_kind resolved = map (sp_kind \<circ> part_of_input) inputs" "map rs_cardId resolved = map (sp_cardId \<circ> part_of_input) inputs"
    using ne a(3) allocateSplitAmounts_fields(2,3) [of D amount "map part_of_input inputs"] by (simp_all add: i(3))
  moreover have "(\<Sum>s \<leftarrow> resolved. rs_amount s) = toMoney D amount" using map a(1) by simp
  ultimately show ?thesis using that [OF i(1,2,3) ne] by blast
qed

section \<open>Properties\<close>

text \<open>Only four shapes of a split are accepted: no split, one card, two different cards, or one
  card and PIX.\<close>

theorem accepted_split_shapes:
  assumes "validateSplitShape D inputs = Inr ()"
  shows "inputs = [] \<or> (\<exists>c p. inputs = [CardSplit c p])
    \<or> (\<exists>c d p q. inputs = [CardSplit c p, CardSplit d q] \<and> c \<noteq> d)
    \<or> (\<exists>c p q. inputs = [CardSplit c p, PixSplit q] \<or> inputs = [PixSplit q, CardSplit c p])"
proof -
  consider "inputs = []" | x where "inputs = [x]" | x y where "inputs = [x, y]"
    using shape_length [OF assms] by (cases inputs; cases "tl inputs"; cases "tl (tl inputs)") auto
  then show ?thesis
  proof cases
    case 2
    with assms show ?thesis by (cases x) (auto simp: validateSplitShape_def Let_def)
  next
    case 3
    with assms show ?thesis by (cases x; cases y) (auto simp: validateSplitShape_def Let_def)
  qed simp
qed

theorem accepted_split_shapes_witness:
  "validateSplitShape decimal_js [CardSplit ''a'' 60, PixSplit 40] = Inr () \<and>
   (\<exists>c p q. [CardSplit ''a'' 60, PixSplit 40] = [CardSplit c p, PixSplit q]) \<and>
   validateSplitShape decimal_js [CardSplit ''a'' 60, CardSplit ''a'' 40]
     = Inl (split_error ''Escolha dois cartoes diferentes'')"
proof -
  have ok: "validateSplitShape decimal_js [CardSplit ''a'' 60, PixSplit 40] = Inr ()" by code_simp
  from accepted_split_shapes [OF this] have "\<exists>c p q. [CardSplit ''a'' 60, PixSplit 40] = [CardSplit c p, PixSplit q]"
    by auto
  moreover have "validateSplitShape decimal_js [CardSplit ''a'' 60, CardSplit ''a'' 40]
      = Inl (split_error ''Escolha dois cartoes diferentes'')"
    by code_simp
  ultimately show ?thesis using ok by simp
qed

text \<open>C39. Splitting an expense creates and loses no cent, whatever the request: the resolved parts
  are whole cents, none negative, and add up to the amount.\<close>

theorem resolved_splits_conserve_amount:
  assumes "decimal_arith D" "0 \<le> amount" "amount \<le> 9999999999.99"
    and "resolveAndValidateSplits D sp now userId amount splits cardId frequency exclude limits db = Inr resolved"
    and "resolved \<noteq> []"
  shows "(\<Sum>s \<leftarrow> resolved. rs_amount s) = toMoney D amount
    \<and> (\<forall>s \<in> set resolved. cents (rs_amount s) \<and> 0 \<le> rs_amount s)"
proof -
  from resolved_parts [OF assms] have "(\<Sum>s \<leftarrow> resolved. rs_amount s) = toMoney D amount"
    "\<forall>s \<in> set resolved. cents (rs_amount s) \<and> 0 \<le> rs_amount s"
    by blast+
  then show ?thesis by simp
qed

theorem resolved_splits_conserve_amount_witness:
  "\<exists>resolved. resolveAndValidateSplits decimal_js sao_paulo_standard 0 ''ana'' (1999/100)
      (JArray [JObject [(''kind'', JString ''card''), (''cardId'', JString ''card-1''), (''percent'', JNumber 60)],
               JObject [(''kind'', JString ''pix''), (''percent'', JNumber 40)]])
      JUndefined ''mensal'' None False sample_db = Inr resolved
    \<and> (\<Sum>s \<leftarrow> resolved. rs_amount s) = 1999/100"
proof -
  let ?r = "[\<lparr>rs_kind = ''card'', rs_cardId = Some ''card-1'', rs_percent = 60, rs_amount = 1199/100\<rparr>,
    \<lparr>rs_kind = ''pix'', rs_cardId = None, rs_percent = 40, rs_amount = 8\<rparr>]"
  have run: "resolveAndValidateSplits decimal_js sao_paulo_standard 0 ''ana'' (1999/100)
      (JArray [JObject [(''kind'', JString ''card''), (''cardId'', JString ''card-1''), (''percent'', JNumber 60)],
               JObject [(''kind'', JString ''pix''), (''percent'', JNumber 40)]])
      JUndefined ''mensal'' None False sample_db = Inr ?r"
    by code_simp
  have "toMoney decimal_js (1999/100) = 1999/100" by code_simp
  with resolved_splits_conserve_amount [OF js_decimal.decimal_arith_axioms _ _ run] have "(\<Sum>s \<leftarrow> ?r. rs_amount s) = 1999/100"
    by simp
  with run show ?thesis by blast
qed

lemma charges_field_bound:
  assumes "maxChargesForWindow (window_of p c incl) = Inr mc" "ok_expense sp e" "ok_window p c incl"
    and "first_day p incl \<le> c" "1001 \<le> c_year (civil_of_day (first_day p incl))"
    and "be_frequency e \<in> {''unica'', ''mensal'', ''semanal''}"
  shows "int (card (days_of (charge_day sp e) (first_day p incl) c)) \<le> charges_field mc (be_frequency e)"
proof -
  note w = ok_windowD [OF assms(3)]
  have "ok_day (first_day p incl - 6)" using w(2,3) by (simp add: ok_day_def)
  from worst_case_bound [OF assms(2) w(1,2) this assms(5) w(4) assms(4,6)] obtain m where
    m: "worstCaseChargesInWindow (be_frequency e) (window_of p c incl) = Inr m"
      "int (card (days_of (charge_day sp e) (first_day p incl) c)) \<le> m" by blast
  from assms(6) consider "be_frequency e = ''unica''" | "be_frequency e = ''mensal''" | "be_frequency e = ''semanal''"
    by blast
  then have "m \<le> charges_field mc (be_frequency e)"
  proof cases
    case 1
    then show ?thesis
      using assms(1) m(1)
      by (auto simp: maxChargesForWindow_def res_bind_eq_Inr charges_field_def worstCaseChargesInWindow_def)
  next
    case 2
    then show ?thesis
      using assms(1) m(1) by (auto simp: maxChargesForWindow_def res_bind_eq_Inr charges_field_def)
  next
    case 3
    then show ?thesis
      using assms(1) m(1) by (auto simp: maxChargesForWindow_def res_bind_eq_Inr charges_field_def)
  qed
  with m(2) show ?thesis by simp
qed

text \<open>C21. An expense that passes the card limit check fits the card: with the part of the split on
  the card, whatever its start, weekday or due day, the amount it charges in the card's open
  window together with what is already committed stays within the limit.\<close>

theorem accepted_expense_fits_card_limit:
  assumes "decimal_arith D" "assertCardLimits D cards resolved committedByCard (be_frequency e) windows = Inr ()"
    and "s \<in> set resolved" "rs_kind s = ''card''" "rs_cardId s = Some cid" "cid \<noteq> []"
    and "cards cid = Some crd" "cr_limit crd = Some limit" "stored_amount limit"
    and "committedByCard cid = Some committed" "cents committed" "0 \<le> committed" "committed < 10 ^ 16"
    and "windows cid = Some (window_of p c incl)" "ok_window p c incl" "first_day p incl \<le> c"
    and "1001 \<le> c_year (civil_of_day (first_day p incl))"
    and "ok_expense sp e" "stored_expense e" "be_obligationVersions e = []"
    and "be_frequency e \<in> {''unica'', ''mensal'', ''semanal''}" "splitShareFor D e (TCard cid) = rs_amount s"
  shows "\<exists>a. chargeAmountDecimal D sp e cid (window_of p c incl) = Inr a \<and> committed + a \<le> limit"
proof -
  from assms(2) have "assert_split_limit D cards committedByCard (be_frequency e) windows s = Inr ()"
    using assms(3) unfolding assertCardLimits_def
    by (induction resolved) (auto simp: res_bind_eq_Inr)
  then have check: "res_bind (maxChargesForWindow (window_of p c incl)) (\<lambda>mc.
      res_when (dec_mul D (rs_amount s) (of_int (charges_field mc (be_frequency e)))
          > toMoney D (dec_minus D limit committed))
        (limit_error (cr_name crd) (toMoney D (dec_minus D limit committed))) (Inr ())) = Inr ()"
    using assms(4-8,10,14) by (cases "maxChargesForWindow (window_of p c incl)") (simp_all add: assert_split_limit_def Let_def)
  then obtain mc where mc: "maxChargesForWindow (window_of p c incl) = Inr mc"
    "\<not> dec_mul D (rs_amount s) (of_int (charges_field mc (be_frequency e))) > toMoney D (dec_minus D limit committed)"
    by (auto simp: res_bind_eq_Inr)
  let ?k = "charges_field mc (be_frequency e)"
    and ?n = "card (days_of (charge_day sp e) (first_day p incl) c)"
  have n: "int ?n \<le> ?k" by (rule charges_field_bound [OF mc(1) assms(18,15,16,17,21)])
  have b: "cents (rs_amount s)" "0 \<le> rs_amount s"
    using decimal_arith.card_share_bounds [OF assms(1), of e cid] assms(19,22) by (auto simp: stored_expense_def)
  have lim: "cents (limit - committed)" "\<bar>limit - committed\<bar> < 10 ^ 17"
    using assms(9,11-13) by (auto simp: stored_amount_def intro: on_grid_minus)
  then have "dec_minus D limit committed = limit - committed"
    using assms(9,11) by (intro decimal_arith.minus_cents [OF assms(1)]) (auto simp: stored_amount_def)
  then have avail: "toMoney D (dec_minus D limit committed) = limit - committed"
    using decimal_arith.toMoney_id [OF assms(1) lim(1)] by simp
  from n obtain j where j: "?k = int j" by (metis int_nat_eq int_eq_iff order_trans of_nat_0_le_iff)
  then have c: "cents (rs_amount s * of_int ?k)" using on_grid_mult_of_nat [OF b(1), of j] by simp
  have "dec_mul D (rs_amount s) (of_int ?k) \<le> limit - committed" using mc(2) unfolding avail by simp
  from decimal_arith.mul_le_cents [OF assms(1) this c lim(1) lim(2)]
  have "rs_amount s * of_int ?k \<le> limit - committed" .
  moreover have "rs_amount s * of_nat ?n \<le> rs_amount s * of_int ?k"
    using n b(2) unfolding j by (intro mult_left_mono) simp_all
  moreover have "chargeAmountDecimal D sp e cid (window_of p c incl) = Inr (rs_amount s * of_nat ?n)"
    using decimal_arith.charge_amount_sum [OF assms(1,18,19,15), of cid] assms(20,22)
    by (simp add: day_amount_def mult.commute)
  ultimately show ?thesis by auto
qed

theorem accepted_expense_fits_card_limit_witness:
  "\<exists>a. chargeAmountDecimal decimal_js sao_paulo_standard gym ''card-1'' (window_of 20483 20512 True) = Inr a
    \<and> 500 + a \<le> 100000"
proof -
  let ?crd = "(hd (db_cards sample_db))\<lparr>cr_limit := Some 100000\<rparr>"
  let ?s = "\<lparr>rs_kind = ''card'', rs_cardId = Some ''card-1'', rs_percent = 100, rs_amount = 99.9\<rparr>"
  let ?w = "window_of 20483 20512 True"
  have w: "ok_window 20483 20512 True" "first_day 20483 True \<le> 20512"
    "1001 \<le> c_year (civil_of_day (first_day 20483 True))" "stored_amount 100000" "cents 500" "stored_expense gym"
    by code_simp+
  from max_charges_le [OF w(1-3)] obtain mc where
    mc: "maxChargesForWindow ?w = Inr mc" "mc_mensal mc \<le> 30" "1 \<le> mc_mensal mc" by auto
  have "cents (99.9 * 30)" "fits20 (99.9 * 30)" by (code_simp, rule grid_fits20 [of 2]) (code_simp, simp)
  have "99.9 * of_int (mc_mensal mc) \<le> (99.9 * 30 :: rat)" using mc(2) by simp
  then have "dec_mul decimal_js 99.9 (of_int (mc_mensal mc)) \<le> 99.9 * 30"
    by (rule js_decimal.mul_le [OF \<open>fits20 (99.9 * 30)\<close>])
  moreover have "toMoney decimal_js (dec_minus decimal_js 100000 500) = 99500" by code_simp
  ultimately have "assertCardLimits decimal_js [''card-1'' \<mapsto> ?crd] [?s] [''card-1'' \<mapsto> 500] (be_frequency gym)
      [''card-1'' \<mapsto> ?w] = Inr ()"
    using mc(1) by (simp add: assertCardLimits_def assert_split_limit_def gym_def charges_field_def Let_def)
  moreover have "splitShareFor decimal_js gym (TCard ''card-1'') = rs_amount ?s"
    by (simp add: splitShareFor_def gym_def)
  moreover have "be_obligationVersions gym = []" "be_frequency gym \<in> {''unica'', ''mensal'', ''semanal''}"
    by (simp_all add: gym_def)
  ultimately show ?thesis
    using accepted_expense_fits_card_limit [OF js_decimal.decimal_arith_axioms, of "[''card-1'' \<mapsto> ?crd]" "[?s]"
      "[''card-1'' \<mapsto> 500]" gym "[''card-1'' \<mapsto> ?w]" ?s "''card-1''" ?crd 100000 500 20483 20512 True sao_paulo_standard]
      w gym_ok by simp
qed

end
