(* ===== verification/Piggy_Ledger.thy ===== *)
theory Piggy_Ledger
  imports Splits
begin

text \<open>
  \<open>backend/src/lib/piggy/ledger.ts\<close> and \<open>activation.ts\<close>: the rows of a piggy bank's ledger, its
  balance, and the instants from which automatic debits and interest count. A ledger row carries
  only what its reader uses; \<open>interest_tx\<close> and \<open>piggy_tx\<close> extend it as the source's types do.
\<close>

section \<open>Ledger rows\<close>

record ledger_entry =
  le_type :: string
  le_amount :: rat

record interest_tx = ledger_entry +
  it_date :: instant
  it_interestKey :: "string option"
  it_resultingBalance :: "rat option"

datatype correction_origin = Debited | NotDebited

record piggy_tx = interest_tx +
  pt_id :: string
  pt_piggyBankId :: string
  pt_userId :: string
  pt_source :: string
  pt_expenseId :: "string option"
  pt_entryId :: "string option"
  pt_note :: "string option"
  pt_correctionOrigin :: "correction_origin option"
  pt_cdiRate :: "rat option"
  pt_cdiPercent :: "rat option"
  pt_baseBalance :: "rat option"
  pt_createdAt :: instant

record piggy_bank =
  pb_id :: string
  pb_userId :: string
  pb_name :: string
  pb_goalAmount :: "rat option"
  pb_targetDate :: "instant option"
  pb_monthlyGoal :: rat
  pb_autoDebit :: bool
  pb_autoDebitDay :: int
  pb_autoDebitEnabledAt :: "instant option"
  pb_isEmergency :: bool
  pb_yieldEnabled :: bool
  pb_cdiPercent :: rat
  pb_interestAccruedThrough :: "instant option"
  pb_archivedAt :: "instant option"
  pb_completedAt :: "instant option"
  pb_createdAt :: instant

definition piggy_error :: "string \<Rightarrow> error" where
  "piggy_error code = DomainError code code"

section \<open>ledger.ts\<close>

definition signedAmount :: "string \<Rightarrow> rat \<Rightarrow> rat" where
  "signedAmount type amount = (if type = ''withdraw'' then - amount else amount)"

definition balanceDecimalFromTransactions :: "decimal_lib \<Rightarrow> 'a ledger_entry_scheme list \<Rightarrow> rat" where
  "balanceDecimalFromTransactions D transactions =
     foldl (\<lambda>balance t. dec_plus D balance (signedAmount (le_type t) (le_amount t))) 0 transactions"

fun prefix_sums :: "decimal_lib \<Rightarrow> rat \<Rightarrow> 'a ledger_entry_scheme list \<Rightarrow> rat list" where
  "prefix_sums D balance [] = []"
| "prefix_sums D balance (t # ts) =
     (let balance' = dec_plus D balance (signedAmount (le_type t) (le_amount t)) in
      balance' # prefix_sums D balance' ts)"

definition balancePrefixSums :: "decimal_lib \<Rightarrow> 'a ledger_entry_scheme list \<Rightarrow> rat list" where
  "balancePrefixSums D transactions = prefix_sums D 0 transactions"

section \<open>activation.ts\<close>

definition nextAutoDebitEnabledAt :: "piggy_bank \<Rightarrow> bool \<Rightarrow> instant \<Rightarrow> instant option" where
  "nextAutoDebitEnabledAt existing autoDebit now =
     (if \<not> autoDebit then None
      else if pb_autoDebit existing then pb_autoDebitEnabledAt existing else Some now)"

definition autoDebitEnabledAtAfterGoalReopened ::
    "bool \<Rightarrow> bool \<Rightarrow> instant option \<Rightarrow> instant \<Rightarrow> instant option" where
  "autoDebitEnabledAtAfterGoalReopened wasCompleted nowBelowGoal previousEnabledAt reopenedAt =
     (if wasCompleted \<and> nowBelowGoal then Some reopenedAt else previousEnabledAt)"

definition interestAccruedThroughOnActivation ::
    "tz_offset \<Rightarrow> bool \<Rightarrow> bool \<Rightarrow> instant \<Rightarrow> instant option res" where
  "interestAccruedThroughOnActivation sp wasYielding willYield now =
     (if wasYielding \<or> \<not> willYield then Inr None
      else res_bind (addDaysToKey (todayKeyInSaoPaulo sp now) (-1)) (\<lambda>yesterday.
           res_bind (dayKeyToDate yesterday Noon) (\<lambda>d. Inr (Some d))))"

section \<open>The balance\<close>

text \<open>
  The balance as a plain sum of signed amounts. The rows hold whole cents; as long as the moved
  amounts stay below \<open>10 ^ 11\<close> every running total is exact.
\<close>

definition signed :: "'a ledger_entry_scheme \<Rightarrow> rat" where
  "signed t = signedAmount (le_type t) (le_amount t)"

definition ledger_sum :: "'a ledger_entry_scheme list \<Rightarrow> rat" where
  "ledger_sum ts = (\<Sum>t \<leftarrow> ts. signed t)"

definition ok_ledger :: "'a ledger_entry_scheme list \<Rightarrow> bool" where
  "ok_ledger ts \<longleftrightarrow> list_all (\<lambda>t. cents (le_amount t) \<and> 0 \<le> le_amount t) ts
     \<and> (\<Sum>t \<leftarrow> ts. le_amount t) < 10 ^ 11"

lemma signed_cents: "cents (le_amount t) \<Longrightarrow> cents (signed t)"
  by (simp add: signed_def signedAmount_def on_grid_uminus)

lemma abs_signed: "0 \<le> le_amount t \<Longrightarrow> \<bar>signed t\<bar> = le_amount t"
  by (simp add: signed_def signedAmount_def)

lemma ledger_sum_simps [simp]:
  "ledger_sum [] = 0" "ledger_sum (t # ts) = signed t + ledger_sum ts"
  "ledger_sum (ts @ us) = ledger_sum ts + ledger_sum us"
  by (simp_all add: ledger_sum_def)

lemma ledger_sum_cents: "list_all (\<lambda>t. cents (le_amount t)) ts \<Longrightarrow> cents (ledger_sum ts)"
  by (induction ts) (auto intro!: on_grid_plus signed_cents)

lemma ledger_sum_abs:
  "list_all (\<lambda>t. 0 \<le> le_amount t) ts \<Longrightarrow> \<bar>ledger_sum ts\<bar> \<le> (\<Sum>t \<leftarrow> ts. le_amount t)"
proof (induction ts)
  case (Cons t ts)
  then have "\<bar>signed t\<bar> = le_amount t" "\<bar>ledger_sum ts\<bar> \<le> (\<Sum>t \<leftarrow> ts. le_amount t)"
    by (simp_all add: abs_signed)
  then show ?case using abs_triangle_ineq [of "signed t" "ledger_sum ts"] by simp
qed simp

lemma ok_ledgerD:
  assumes "ok_ledger ts"
  shows "cents (ledger_sum ts)" "\<bar>ledger_sum ts\<bar> < 10 ^ 11"
proof -
  have l: "list_all (\<lambda>t. cents (le_amount t)) ts" "list_all (\<lambda>t. 0 \<le> le_amount t) ts"
    using assms by (auto simp: ok_ledger_def list_all_iff)
  show "cents (ledger_sum ts)" by (rule ledger_sum_cents [OF l(1)])
  show "\<bar>ledger_sum ts\<bar> < 10 ^ 11"
    using ledger_sum_abs [OF l(2)] assms by (simp add: ok_ledger_def)
qed

lemma sum_list_nonneg_sublist:
  fixes f :: "'a \<Rightarrow> rat"
  assumes "\<And>x. x \<in> set (xs @ ys) \<Longrightarrow> 0 \<le> f x"
  shows "(\<Sum>x \<leftarrow> xs. f x) \<le> (\<Sum>x \<leftarrow> xs @ ys. f x)"
  using sum_list_nonneg [of "map f ys"] assms by auto

lemma ok_ledger_append: "ok_ledger (ts @ us) \<Longrightarrow> ok_ledger ts"
  using sum_list_nonneg_sublist [of ts us le_amount]
  by (auto simp: ok_ledger_def list_all_iff)

lemma ok_ledger_filter: "ok_ledger ts \<Longrightarrow> ok_ledger (filter P ts)"
proof -
  assume ok: "ok_ledger ts"
  then have "(\<Sum>t \<leftarrow> filter P ts. le_amount t) \<le> (\<Sum>t \<leftarrow> ts. le_amount t)"
    by (induction ts) (auto simp: ok_ledger_def list_all_iff)
  with ok show ?thesis by (auto simp: ok_ledger_def list_all_iff)
qed

context decimal_arith
begin

lemma prefix_sums_exact:
  assumes "list_all (\<lambda>t. cents (le_amount t) \<and> 0 \<le> le_amount t) ts" "cents b"
    and "\<bar>b\<bar> + (\<Sum>t \<leftarrow> ts. le_amount t) < 10 ^ 18"
  shows "prefix_sums D b ts = map (\<lambda>i. b + ledger_sum (take (Suc i) ts)) [0..<length ts]"
  using assms
proof (induction ts arbitrary: b)
  case (Cons t ts)
  have a: "\<bar>signed t\<bar> = le_amount t" and c: "cents (signed t)"
    using Cons.prems(1) by (simp_all add: abs_signed signed_cents)
  have nn: "0 \<le> (\<Sum>t \<leftarrow> ts. le_amount t)"
    using Cons.prems(1) by (intro sum_list_nonneg) (auto simp: list_all_iff)
  have lt: "\<bar>b + signed t\<bar> + (\<Sum>t \<leftarrow> ts. le_amount t) < 10 ^ 18"
    using a Cons.prems(3) abs_triangle_ineq [of b "signed t"] by simp
  then have p: "dec_plus D b (signed t) = b + signed t"
    using nn by (intro plus_cents [OF Cons.prems(2) c]) linarith
  have "prefix_sums D (b + signed t) ts = map (\<lambda>i. b + signed t + ledger_sum (take (Suc i) ts)) [0..<length ts]"
    using Cons.prems(1,2) c lt by (intro Cons.IH) (auto intro: on_grid_plus)
  moreover have "[0..<Suc (length ts)] = 0 # map Suc [0..<length ts]"
    by (simp only: map_Suc_upt upt_conv_Cons [OF zero_less_Suc])
  ultimately show ?case using p by (simp add: Let_def signed_def [symmetric] add.assoc del: upt_Suc)
qed simp

lemma balancePrefixSums_exact:
  assumes "ok_ledger ts"
  shows "balancePrefixSums D ts = map (\<lambda>i. ledger_sum (take (Suc i) ts)) [0..<length ts]"
  using assms prefix_sums_exact [of ts 0] by (simp add: balancePrefixSums_def ok_ledger_def)

lemma balance_exact:
  assumes "ok_ledger ts"
  shows "balanceDecimalFromTransactions D ts = ledger_sum ts"
proof -
  have l: "list_all (\<lambda>t. cents (le_amount t)) ts" "list_all (\<lambda>t. 0 \<le> le_amount t) ts"
    using assms by (auto simp: ok_ledger_def list_all_iff)
  have "(\<Sum>t \<leftarrow> ts. \<bar>signed t\<bar>) = (\<Sum>t \<leftarrow> ts. le_amount t)"
    using l(2) by (induction ts) (simp_all add: abs_signed)
  then have "foldl (dec_plus D) 0 (map signed ts) = 0 + sum_list (map signed ts)"
    using assms l(1) by (intro foldl_plus_exact [of _ 2]) (auto simp: ok_ledger_def list_all_iff signed_cents comp_def)
  then show ?thesis
    by (simp add: balanceDecimalFromTransactions_def ledger_sum_def signed_def [symmetric] foldl_map)
qed

end

end
