(* ===== verification/Piggy_Auto_Debit.thy ===== *)
theory Piggy_Auto_Debit
  imports Piggy_Ledger
begin

text \<open>
  \<open>backend/src/lib/piggy/auto-debit.ts\<close>: the monthly cycles of automatic debits. A cycle is due on
  the bank's debit day, clamped to the month; the theory shows that the cycles listed for a bank
  are its due days since it was created and the debit was switched on, at most the last sixty.
\<close>

record auto_debit_cycle =
  ac_dueOn :: instant
  ac_monthStart :: instant
  ac_monthEnd :: instant

definition MAX_AUTO_DEBIT_CATCH_UP_CYCLES :: nat where
  "MAX_AUTO_DEBIT_CATCH_UP_CYCLES = 60"

definition cycleForMonth ::
    "int \<times> int \<Rightarrow> day_key \<Rightarrow> day_key \<Rightarrow> int \<Rightarrow> day_key option \<Rightarrow> auto_debit_cycle option res" where
  "cycleForMonth ym todayKey createdKey autoDebitDay enabledKey =
     res_bind (monthBounds (fst ym) (snd ym)) (\<lambda>bounds.
     let dueKey = formatDayKey (fst ym) (snd ym)
                    (clampDayToMonth (fst ym) (snd ym) (if autoDebitDay = 0 then 1 else autoDebitDay)) in
     if todayKey < dueKey \<or> createdKey \<ge> dueKey then Inr None
     else if (case enabledKey of None \<Rightarrow> False | Some k \<Rightarrow> k \<noteq> [] \<and> k > dueKey) then Inr None
     else res_bind (dayKeyToDate dueKey Noon) (\<lambda>dueOn.
          Inr (Some \<lparr>ac_dueOn = dueOn, ac_monthStart = mb_start bounds, ac_monthEnd = mb_end bounds\<rparr>)))"

text \<open>\<open>parseDayKey(k)!\<close>: reading a field of the \<open>null\<close> of an invalid key throws.\<close>

definition parsed_key :: "day_key \<Rightarrow> civil res" where
  "parsed_key k = (case parseDayKey k of None \<Rightarrow> Inl (PlainError ''null key'') | Some c \<Rightarrow> Inr c)"

definition currentAutoDebitCycle ::
    "tz_offset \<Rightarrow> instant \<Rightarrow> instant \<Rightarrow> int \<Rightarrow> instant option \<Rightarrow> auto_debit_cycle option res" where
  "currentAutoDebitCycle sp now createdAt autoDebitDay autoDebitEnabledAt =
     (let todayKey = todayKeyInSaoPaulo sp now in
      res_bind (parsed_key todayKey) (\<lambda>today.
      cycleForMonth (c_year today, c_month today) todayKey (dayKeyInSaoPaulo sp createdAt) autoDebitDay
        (map_option (dayKeyInSaoPaulo sp) autoDebitEnabledAt)))"

function due_cycles_loop ::
    "int \<times> int \<Rightarrow> int \<times> int \<Rightarrow> day_key \<Rightarrow> day_key \<Rightarrow> int \<Rightarrow> day_key option \<Rightarrow> auto_debit_cycle list res" where
  "due_cycles_loop (year, month) (toYear, toMonth) todayKey createdKey autoDebitDay enabledKey =
     (if year < toYear \<or> year = toYear \<and> month \<le> toMonth then
        res_bind (cycleForMonth (year, month) todayKey createdKey autoDebitDay enabledKey) (\<lambda>cycle.
        res_bind (due_cycles_loop (next_month (year, month)) (toYear, toMonth) todayKey createdKey autoDebitDay enabledKey)
          (\<lambda>rest. Inr ((case cycle of None \<Rightarrow> [] | Some c \<Rightarrow> [c]) @ rest)))
      else Inr [])"
  by pat_completeness auto
termination
  by (relation "measures [\<lambda>((y, m), (hy, hm), _). nat (hy + 1 - y), \<lambda>((y, m), _). nat (12 - m)]")
    (auto simp: next_month_def)

declare due_cycles_loop.simps [simp del]

definition listDueAutoDebitCycles ::
    "tz_offset \<Rightarrow> instant \<Rightarrow> instant \<Rightarrow> int \<Rightarrow> instant option \<Rightarrow> auto_debit_cycle list res" where
  "listDueAutoDebitCycles sp now createdAt autoDebitDay autoDebitEnabledAt =
     (let todayKey = todayKeyInSaoPaulo sp now;
          createdKey = dayKeyInSaoPaulo sp createdAt;
          enabledKey = map_option (dayKeyInSaoPaulo sp) autoDebitEnabledAt;
          startKey = (case enabledKey of
                        None \<Rightarrow> createdKey
                      | Some k \<Rightarrow> if k \<noteq> [] \<and> k > createdKey then k else createdKey) in
      res_bind (parsed_key todayKey) (\<lambda>today.
      res_bind (parsed_key startKey) (\<lambda>created.
      res_bind (due_cycles_loop (c_year created, c_month created) (c_year today, c_month today)
                  todayKey createdKey autoDebitDay enabledKey) (\<lambda>cycles.
      Inr (drop (length cycles - MAX_AUTO_DEBIT_CATCH_UP_CYCLES) cycles)))))"

definition isScheduledAutoDebitCycleStillDue ::
    "tz_offset \<Rightarrow> auto_debit_cycle \<Rightarrow> instant \<Rightarrow> piggy_bank \<Rightarrow> bool res" where
  "isScheduledAutoDebitCycleStillDue sp cycle now bank =
     (case parseDayKey (dayKeyInSaoPaulo sp (ac_dueOn cycle)) of
        None \<Rightarrow> Inr False
      | Some due \<Rightarrow>
          res_bind (cycleForMonth (c_year due, c_month due) (todayKeyInSaoPaulo sp now)
                      (dayKeyInSaoPaulo sp (pb_createdAt bank)) (pb_autoDebitDay bank)
                      (map_option (dayKeyInSaoPaulo sp) (pb_autoDebitEnabledAt bank))) (\<lambda>current.
          Inr (current = Some cycle)))"

definition hasAutoDebitInCycle :: "tz_offset \<Rightarrow> piggy_tx list \<Rightarrow> auto_debit_cycle option \<Rightarrow> bool" where
  "hasAutoDebitInCycle sp transactions cycle =
     (case cycle of
        None \<Rightarrow> False
      | Some c \<Rightarrow>
          (let startKey = dayKeyInSaoPaulo sp (ac_monthStart c);
               endKey = dayKeyInSaoPaulo sp (ac_monthEnd c) in
           list_ex (\<lambda>t. le_type t = ''deposit'' \<and> pt_source t = ''auto_debit''
             \<and> startKey \<le> dayKeyInSaoPaulo sp (it_date t) \<and> dayKeyInSaoPaulo sp (it_date t) \<le> endKey) transactions))"

section \<open>Cycles as days\<close>

lemma monthBounds_due [key_simps]:
  assumes "ok_month M"
  shows "monthBounds (M div 12) (M mod 12) = Inr \<lparr>mb_startKey = key (due_on 1 M), mb_endKey = key (due_on 31 M),
    mb_start = noon (due_on 1 M), mb_end = noon (due_on 31 M), mb_lastDay = lastDayOfMonth (M div 12) (M mod 12)\<rparr>"
proof -
  have y: "1000 \<le> M div 12" "M div 12 \<le> 9999" using ok_monthD [OF assms] by auto
  have dim: "28 \<le> days_in_month (M div 12) (M mod 12)" "days_in_month (M div 12) (M mod 12) \<le> 31"
    using days_in_month_range month_mod_range [of M] by auto
  have "clampDayToMonth (M div 12) (M mod 12) 1 = 1" "clampDayToMonth (M div 12) (M mod 12) 31 = lastDayOfMonth (M div 12) (M mod 12)"
    using dim y month_mod_range [of M] by (simp_all add: clampDayToMonth_def lastDayOfMonth_eq)
  with formatDayKey_due_on [OF assms, of 1] formatDayKey_due_on [OF assms, of 31]
  have k: "formatDayKey (M div 12) (M mod 12) 1 = key (due_on 1 M)"
    "formatDayKey (M div 12) (M mod 12) (lastDayOfMonth (M div 12) (M mod 12)) = key (due_on 31 M)" by simp_all
  show ?thesis
    using due_on_civil(2) [OF assms] by (simp add: monthBounds_def Let_def k dayKeyToDate_noon)
qed

lemma due_on_0: "due_on 0 M = due_on 1 M"
  by (simp add: due_on_def clampDayToMonth_def)

text \<open>The cycle that is due on a day.\<close>

definition cycle_of :: "int \<Rightarrow> auto_debit_cycle" where
  "cycle_of n = \<lparr>ac_dueOn = noon n, ac_monthStart = noon (due_on 1 (month_idx n)), ac_monthEnd = noon (due_on 31 (month_idx n))\<rparr>"

definition due_since :: "int \<Rightarrow> int option \<Rightarrow> int \<Rightarrow> int \<Rightarrow> bool" where
  "due_since created enabled today n \<longleftrightarrow> created < n \<and> n \<le> today \<and> (\<forall>e. enabled = Some e \<longrightarrow> e \<le> n)"

lemma key_not_empty: "ok_day n \<Longrightarrow> key n \<noteq> []"
  using parseDayKey_key [of n] by (auto simp: parseDayKey_def match_day_key_def)

lemma cycleForMonth_eq:
  assumes "ok_month M" "ok_day today" "ok_day created" "\<And>e. enabled = Some e \<Longrightarrow> ok_day e"
  shows "cycleForMonth (M div 12, M mod 12) (key today) (key created) d (map_option key enabled)
    = Inr (if due_since created enabled today (due_on d M) then Some (cycle_of (due_on d M)) else None)"
proof -
  let ?d = "if d = 0 then 1 else d"
  have due: "due_on ?d M = due_on d M" using due_on_0 by simp
  note k = formatDayKey_due_on [OF assms(1), of ?d, unfolded due]
  have ok: "ok_day (due_on d M)" by (rule due_on_civil(2) [OF assms(1)])
  have late: "(case map_option key enabled of None \<Rightarrow> False | Some k \<Rightarrow> k \<noteq> [] \<and> k > key (due_on d M))
      \<longleftrightarrow> (\<exists>e. enabled = Some e \<and> due_on d M < e)"
    using assms(4) ok by (cases enabled) (simp_all add: key_less key_not_empty)
  show ?thesis
    unfolding cycleForMonth_def fst_conv snd_conv monthBounds_due [OF assms(1)] res_bind_Inr k Let_def late
    using assms(2,3) ok due_on_civil(3) [OF assms(1), of d]
    by (auto simp: key_less key_le dayKeyToDate_noon due_since_def cycle_of_def not_le)
qed

lemma month_guard: "M div 12 < T div 12 \<or> M div 12 = T div 12 \<and> M mod 12 \<le> T mod 12 \<longleftrightarrow> M \<le> T" for M T :: int
  using month_le_iff [of "M mod 12" "T mod 12" "M div 12" "T div 12"] month_mod_range by simp

lemma due_cycles_loop_eq:
  assumes "ok_day today" "ok_day created" "\<And>e. enabled = Some e \<Longrightarrow> ok_day e" "ok_month M"
  shows "due_cycles_loop (M div 12, M mod 12) (month_idx today div 12, month_idx today mod 12)
      (key today) (key created) d (map_option key enabled)
    = Inr (map cycle_of (filter (due_since created enabled today) (map (due_on d) [M..month_idx today])))"
  using assms(4)
proof (induction "nat (month_idx today + 1 - M)" arbitrary: M)
  case 0
  then have "\<not> M \<le> month_idx today" "[M..month_idx today] = []" by simp_all
  then show ?case by (subst due_cycles_loop.simps) (simp only: month_guard if_False list.map filter.simps)
next
  case (Suc i)
  then have le: "M \<le> month_idx today" by simp
  have rest: "due_cycles_loop ((M + 1) div 12, (M + 1) mod 12) (month_idx today div 12, month_idx today mod 12)
      (key today) (key created) d (map_option key enabled)
    = Inr (map cycle_of (filter (due_since created enabled today) (map (due_on d) [M + 1..month_idx today])))"
  proof (cases "M + 1 \<le> month_idx today")
    case True
    then have "ok_month (M + 1)" using Suc.prems ok_month_idx [OF assms(1)] by (simp add: ok_month_def)
    with Suc.hyps show ?thesis by simp
  next
    case False
    then have "[M + 1..month_idx today] = []" by simp
    with False show ?thesis by (subst due_cycles_loop.simps) (simp only: month_guard if_False list.map filter.simps)
  qed
  show ?case
    by (subst due_cycles_loop.simps)
      (simp add: month_guard le cycleForMonth_eq [OF Suc.prems assms(1-3)] next_month_idx rest upto_split [OF le] del: upto.simps)
qed

lemma local_key [key_simps]: "ok_day (local_day sp t) \<Longrightarrow> dayKeyInSaoPaulo sp t = key (local_day sp t)"
  by (simp add: local_day_def dayKeyInSaoPaulo_key)

lemma today_key [key_simps]: "ok_day (local_day sp t) \<Longrightarrow> todayKeyInSaoPaulo sp t = key (local_day sp t)"
  by (simp add: todayKeyInSaoPaulo_def local_key)

text \<open>The cycle of a due day spans its month.\<close>

lemma month_span:
  assumes "ok_month M" "ok_day n"
  shows "due_on 1 M \<le> n \<and> n \<le> due_on 31 M \<longleftrightarrow> month_idx n = M"
proof
  assume "due_on 1 M \<le> n \<and> n \<le> due_on 31 M"
  then have "month_idx (due_on 1 M) \<le> month_idx n" "month_idx n \<le> month_idx (due_on 31 M)"
    by (auto intro: month_idx_mono)
  then show "month_idx n = M" by (simp add: due_on_civil(3) [OF assms(1)])
next
  assume m: "month_idx n = M"
  have first: "due_on 1 M \<le> n" using due_on_1_le [OF assms(2)] by (simp add: m)
  have "n \<le> due_on 31 M"
  proof (rule ccontr)
    assume "\<not> n \<le> due_on 31 M"
    then have "civil_of_day (due_on 31 M) < civil_of_day n" by (simp add: civil_of_day_less)
    moreover have "c_day (civil_of_day n) \<le> days_in_month (M div 12) (M mod 12)" "c_day (civil_of_day n) \<le> 31"
      using valid_civil_of_day [of n] days_in_month_range [of "M mod 12" "M div 12"] month_mod_range [of M]
      by (auto simp: valid_civil_def m [symmetric] month_idx_split)
    moreover have "M div 12 = c_year (civil_of_day n)" "M mod 12 = c_month (civil_of_day n)"
      by (simp_all only: m [symmetric] month_idx_split)
    moreover note due_on_civil(1) [OF assms(1), of 31]
    ultimately show False by (auto simp: less_civil_def min_def split: if_splits)
  qed
  with first show "due_on 1 M \<le> n \<and> n \<le> due_on 31 M" by simp
qed

lemma hasAutoDebitInCycle_iff:
  assumes "sao_paulo_offset sp" "ok_month M" "\<And>t. t \<in> set ts \<Longrightarrow> \<exists>k. ok_day k \<and> it_date t = noon k"
  shows "hasAutoDebitInCycle sp ts (Some (cycle_of (due_on d M))) \<longleftrightarrow>
    (\<exists>t \<in> set ts. \<exists>k. le_type t = ''deposit'' \<and> pt_source t = ''auto_debit'' \<and> it_date t = noon k \<and> month_idx k = M)"
proof -
  note due = due_on_civil(2,3) [OF assms(2)]
  have ends: "dayKeyInSaoPaulo sp (noon (due_on j M)) = key (due_on j M)" for j
    by (rule sao_paulo_offset.local_noon [OF assms(1) due(1)])
  have "key (due_on 1 M) \<le> dayKeyInSaoPaulo sp (it_date t) \<and> dayKeyInSaoPaulo sp (it_date t) \<le> key (due_on 31 M)
      \<longleftrightarrow> (\<exists>k. it_date t = noon k \<and> month_idx k = M)" if t: "t \<in> set ts" for t
  proof -
    obtain k where k: "ok_day k" "it_date t = noon k" using assms(3) [OF t] by blast
    have "dayKeyInSaoPaulo sp (it_date t) = key k" unfolding k(2) by (rule sao_paulo_offset.local_noon [OF assms(1) k(1)])
    with month_span [OF assms(2) k(1)] k due(1) show ?thesis by (simp add: key_le)
  qed
  then show ?thesis
    by (auto simp: hasAutoDebitInCycle_def cycle_of_def due(2) ends list_ex_iff Let_def)
qed

section \<open>Properties\<close>

lemma listDueAutoDebitCycles_days:
  assumes "ok_day (local_day sp now)" "ok_day (local_day sp createdAt)"
    and "\<And>e. autoDebitEnabledAt = Some e \<Longrightarrow> ok_day (local_day sp e)"
  shows "\<exists>days. listDueAutoDebitCycles sp now createdAt autoDebitDay autoDebitEnabledAt
        = Inr (map cycle_of (drop (length days - 60) days))
    \<and> sorted_wrt (<) days
    \<and> set days = {n. is_due_day autoDebitDay n
        \<and> due_since (local_day sp createdAt) (map_option (local_day sp) autoDebitEnabledAt) (local_day sp now) n}"
proof -
  define created where "created = local_day sp createdAt"
  define today where "today = local_day sp now"
  define enabled where "enabled = map_option (local_day sp) autoDebitEnabledAt"
  define s where "s = (case enabled of None \<Rightarrow> created | Some e \<Rightarrow> max e created)"
  have ok: "ok_day today" "ok_day created" "\<And>e. enabled = Some e \<Longrightarrow> ok_day e" "ok_day s"
    using assms by (auto simp: today_def created_def enabled_def s_def max_def split: option.split)
  let ?days = "filter (due_since created enabled today) (map (due_on autoDebitDay) [month_idx s..month_idx today])"
  have okM: "ok_month M" if "month_idx s \<le> M" "M \<le> month_idx today" for M
    using that ok_month_idx [OF ok(1)] ok_month_idx [OF ok(4)] by (simp add: ok_month_def)
  have enabledKey: "map_option (dayKeyInSaoPaulo sp) autoDebitEnabledAt = map_option key enabled"
    using assms(3) by (cases autoDebitEnabledAt) (simp_all add: enabled_def local_key)
  have start: "(case map_option key enabled of None \<Rightarrow> key created
      | Some k \<Rightarrow> if k \<noteq> [] \<and> k > key created then k else key created) = key s"
    using ok by (cases enabled) (auto simp: s_def key_less key_not_empty max_def)
  have "listDueAutoDebitCycles sp now createdAt autoDebitDay autoDebitEnabledAt
      = Inr (map cycle_of (drop (length ?days - 60) ?days))"
    unfolding listDueAutoDebitCycles_def Let_def enabledKey today_key [OF assms(1)] local_key [OF assms(2)]
      created_def [symmetric] today_def [symmetric] start parsed_key_def parseDayKey_key [OF ok(1)] parseDayKey_key [OF ok(4)]
      option.case res_bind_Inr
    using due_cycles_loop_eq [where enabled = enabled and d = autoDebitDay, OF ok(1,2) ok(3) ok_month_idx [OF ok(4)]]
    by (simp add: month_idx_split MAX_AUTO_DEBIT_CATCH_UP_CYCLES_def drop_map)
  moreover have "sorted_wrt (<) ?days"
  proof (rule sorted_wrt_filter)
    have "sorted_wrt (\<lambda>M N. due_on autoDebitDay M < due_on autoDebitDay N) [month_idx s..month_idx today]"
      by (rule sorted_wrt_mono_rel [of _ "(<)"]) (auto intro!: due_on_less okM)
    then show "sorted_wrt (<) (map (due_on autoDebitDay) [month_idx s..month_idx today])"
      by (simp add: sorted_wrt_map)
  qed
  moreover have "set ?days = {n. is_due_day autoDebitDay n \<and> due_since created enabled today n}"
  proof (intro equalityI subsetI)
    fix n
    assume "n \<in> set ?days"
    then show "n \<in> {n. is_due_day autoDebitDay n \<and> due_since created enabled today n}"
      using okM is_due_day_due_on by auto
  next
    fix n
    assume "n \<in> {n. is_due_day autoDebitDay n \<and> due_since created enabled today n}"
    then have n: "is_due_day autoDebitDay n" "due_since created enabled today n" by auto
    then have "s \<le> n" "n \<le> today" by (auto simp: due_since_def s_def split: option.split)
    then have M: "month_idx s \<le> month_idx n" "month_idx n \<le> month_idx today" by (auto intro: month_idx_mono)
    then have "n = due_on autoDebitDay (month_idx n)" using n(1) is_due_day_iff [OF okM] by blast
    with M n(2) show "n \<in> set ?days" by (auto intro!: image_eqI [of _ _ "month_idx n"])
  qed
  ultimately show ?thesis unfolding created_def today_def enabled_def by blast
qed

text \<open>C40. The cycles listed for a bank are exactly its due days, clamped to the month, from the day after
  it was created (or the day automatic debits were switched on) through today: none is missed,
  none is listed twice, none lies before the activation, and at most the last sixty are returned.\<close>

theorem due_cycles_are_due_days:
  assumes "ok_day (local_day sp now)" "ok_day (local_day sp createdAt)"
    and "\<And>e. autoDebitEnabledAt = Some e \<Longrightarrow> ok_day (local_day sp e)"
  shows "\<exists>days. listDueAutoDebitCycles sp now createdAt autoDebitDay autoDebitEnabledAt
        = Inr (map cycle_of (drop (length days - 60) days))
    \<and> sorted_wrt (<) days
    \<and> set days = {n. is_due_day autoDebitDay n
        \<and> due_since (local_day sp createdAt) (map_option (local_day sp) autoDebitEnabledAt) (local_day sp now) n}"
  by (rule listDueAutoDebitCycles_days [OF assms])

theorem due_cycles_are_due_days_witness:
  "\<exists>days. listDueAutoDebitCycles sao_paulo_standard (noon 20520) (noon 20457) 31 (Some (noon 20480))
      = Inr (map cycle_of (drop (length days - 60) days))
    \<and> set days = {n. is_due_day 31 n \<and> due_since 20457 (Some 20480) 20520 n}"
proof -
  have days: "local_day sao_paulo_standard (noon 20520) = 20520" "local_day sao_paulo_standard (noon 20457) = 20457"
    "local_day sao_paulo_standard (noon 20480) = 20480" "ok_day 20520" "ok_day 20457" "ok_day 20480"
    by code_simp+
  then show ?thesis
    using due_cycles_are_due_days [of sao_paulo_standard "noon 20520" "noon 20457" "Some (noon 20480)" 31] by auto
qed

end
