(* ===== verification/Requests.thy ===== *)
theory Requests
  imports Splits
begin

text \<open>
  The parsers of request fields: \<open>backend/src/lib/validate.ts\<close>, \<open>lib/abnt2.ts\<close>,
  \<open>http/parsers.ts\<close> and \<open>http/request.ts\<close>. A field is a \<open>js\<close> value; \<open>undefined | null | value\<close> results are
  an option of an option, whose \<open>None\<close> is \<open>undefined\<close>. Strings are Latin-1, as characters have eight bits:
  of the characters \<open>abnt2.ts\<close> keeps all have such a code. Client errors (400, 404, 409, 503) are the
  constructors \<open>BadRequest\<close>, \<open>NotFound\<close>, \<open>Conflict\<close>, \<open>ServiceUnavailable\<close>.
\<close>

section \<open>abnt2.ts\<close>

definition abnt2_symbols :: string where
  "abnt2_symbols = ''!@#$%&*()_+=-[]{}~^?;:.,/|<>'' @ map char_of [34 :: nat, 39, 92, 96, 168, 180, 176, 186, 170, 167, 162, 163, 172]"

definition is_abnt2 :: "char \<Rightarrow> bool" where
  "is_abnt2 c \<longleftrightarrow>
     (let n = of_char c :: nat in
      65 \<le> n \<and> n \<le> 90 \<or> 97 \<le> n \<and> n \<le> 122 \<or> 48 \<le> n \<and> n \<le> 57
      \<or> 192 \<le> n \<and> n \<le> 214 \<or> 216 \<le> n \<and> n \<le> 246 \<or> 248 \<le> n \<and> n \<le> 255
      \<or> is_space c \<or> c \<in> set abnt2_symbols)"

definition sanitizeAbnt2 :: "string \<Rightarrow> string" where
  "sanitizeAbnt2 value = filter is_abnt2 value"

definition isAbnt2Text :: "string \<Rightarrow> bool" where
  "isAbnt2Text value \<longleftrightarrow> value = sanitizeAbnt2 value"

definition parseAbnt2Text :: "js \<Rightarrow> nat option \<Rightarrow> bool \<Rightarrow> string option" where
  "parseAbnt2Text value maxLength required =
     (case value of
        JString s \<Rightarrow>
          (let trimmed = trim (sanitizeAbnt2 s);
               parsed = (case maxLength of None \<Rightarrow> trimmed | Some n \<Rightarrow> take n trimmed) in
           if required \<and> parsed = [] then None else Some parsed)
      | _ \<Rightarrow> None)"

section \<open>validate.ts\<close>

definition MAX_MONEY_AMOUNT :: rat where
  "MAX_MONEY_AMOUNT = 9999999999.99"

definition parseMoneyAmount :: "js \<Rightarrow> bool \<Rightarrow> rat option" where
  "parseMoneyAmount value allowZero =
     (let raw = (case value of JNumber r \<Rightarrow> number_text r | JString s \<Rightarrow> trim s | _ \<Rightarrow> []) in
      if \<not> is_decimal_text raw then None
      else if length (dropWhile (\<lambda>c. c = CHR ''0'') (takeWhile (\<lambda>c. c \<noteq> CHR ''.'') raw)) > 10 then None
      else
        (case string_to_number raw of
           None \<Rightarrow> None
         | Some amount \<Rightarrow>
             if amount > MAX_MONEY_AMOUNT \<or> (if allowZero then amount < 0 else amount \<le> 0) then None
             else Some amount))"

definition parsePositiveAmount :: "js \<Rightarrow> rat option" where
  "parsePositiveAmount value = parseMoneyAmount value False"

definition positiveAmountError :: "js \<Rightarrow> string" where
  "positiveAmountError value =
     (case js_to_number value of
        Some amount \<Rightarrow>
          if amount > MAX_MONEY_AMOUNT then ''Valor maximo e R$ 9.999.999.999,99''
          else ''Valor deve ser positivo e ter no maximo duas casas decimais''
      | None \<Rightarrow> ''Valor deve ser positivo e ter no maximo duas casas decimais'')"

text \<open>\<open>{ value, error }\<close>.\<close>

definition parseOptionalCardLimit :: "js \<Rightarrow> rat option option \<times> string option" where
  "parseOptionalCardLimit value =
     (if value = JUndefined then (None, None)
      else if value = JNull \<or> value = JString [] then (Some None, None)
      else (case parsePositiveAmount value of
              None \<Rightarrow> (Some None, Some (positiveAmountError value))
            | Some limit \<Rightarrow> (Some (Some limit), None)))"

definition isValidExpenseCategory :: "js \<Rightarrow> bool" where
  "isValidExpenseCategory value \<longleftrightarrow>
     value \<in> {JString ''assinatura'', JString ''parcela'', JString ''divida'', JString ''outro'', JString ''cofrinho'',
       JString ''investimento''}"

definition isValidEntryType :: "js \<Rightarrow> bool" where
  "isValidEntryType value \<longleftrightarrow> value \<in> {JString ''salario'', JString ''freelance'', JString ''outro''}"

definition isValidFrequency :: "js \<Rightarrow> bool" where
  "isValidFrequency value \<longleftrightarrow> value \<in> {JString ''mensal'', JString ''semanal'', JString ''unica''}"

definition parseUniqueDate :: "js \<Rightarrow> instant option res" where
  "parseUniqueDate value = parseCivilDate value Noon"

section \<open>parsers.ts\<close>

definition is_integer :: "rat \<Rightarrow> bool" where
  "is_integer r \<longleftrightarrow> of_int \<lfloor>r\<rfloor> = r"

definition parseDayOfMonth :: "js \<Rightarrow> string \<Rightarrow> int option option res" where
  "parseDayOfMonth value message =
     (if value = JUndefined then Inr None
      else if value = JNull \<or> value = JString [] then Inr (Some None)
      else
        (let day = (case value of
               JNumber r \<Rightarrow> Some r
             | JString s \<Rightarrow> (if list_all is_digit (trim s) \<and> (length (trim s) = 1 \<or> length (trim s) = 2)
                            then string_to_number s else None)
             | _ \<Rightarrow> None) in
         case day of
           None \<Rightarrow> Inl (BadRequest message)
         | Some d \<Rightarrow> res_when (\<not> is_integer d \<or> d < 1 \<or> d > 31) (BadRequest message) (Inr (Some (Some \<lfloor>d\<rfloor>)))))"

text \<open>
  \<open>parseIsoDate\<close> checks that \<open>Date.UTC\<close> gives the fields back; it is written out as in the source
  (midnight UTC).
\<close>

definition parseIsoDate :: "js \<Rightarrow> instant option" where
  "parseIsoDate value =
     (case value of
        JString s \<Rightarrow>
          (case match_day_key s of
             None \<Rightarrow> None
           | Some (y, m, d) \<Rightarrow>
               (let year = digits_val y; month = digits_val m; day = digits_val d;
                    date = date_UTC year (month - 1) day 0 in
                if getUTCFullYear date \<noteq> year \<or> getUTCMonth date \<noteq> month - 1 \<or> getUTCDate date \<noteq> day then None
                else Some date))
      | _ \<Rightarrow> None)"

definition parseOptionalIsoDate :: "js \<Rightarrow> string \<Rightarrow> instant option option res" where
  "parseOptionalIsoDate value message =
     (if value = JUndefined then Inr None
      else if value = JNull \<or> value = JString [] then Inr (Some None)
      else (case parseIsoDate value of
              None \<Rightarrow> Inl (BadRequest message)
            | Some date \<Rightarrow> Inr (Some (Some date))))"

text \<open>\<open>/^\d{4}-(0[1-9]|1[0-2])$/\<close>\<close>

definition is_month_key :: "string \<Rightarrow> bool" where
  "is_month_key s \<longleftrightarrow> length s = 7 \<and> list_all is_digit (take 4 s) \<and> s ! 4 = CHR ''-''
     \<and> drop 5 s \<in> {''01'', ''02'', ''03'', ''04'', ''05'', ''06'', ''07'', ''08'', ''09'', ''10'', ''11'', ''12''}"

definition parseMonthKey :: "js \<Rightarrow> string option" where
  "parseMonthKey value = (case value of JString s \<Rightarrow> (if is_month_key s then Some s else None) | _ \<Rightarrow> None)"

definition parseRequiredText :: "js \<Rightarrow> nat \<Rightarrow> string \<Rightarrow> string res" where
  "parseRequiredText value maxLength message =
     (case parseAbnt2Text value (Some maxLength) True of
        None \<Rightarrow> Inl (BadRequest message)
      | Some t \<Rightarrow> res_when (t = []) (BadRequest message) (Inr t))"

definition parseAmount :: "js \<Rightarrow> bool \<Rightarrow> string option \<Rightarrow> rat res" where
  "parseAmount value allowZero message =
     (case parseMoneyAmount value allowZero of
        None \<Rightarrow> Inl (BadRequest (case message of None \<Rightarrow> positiveAmountError value | Some m \<Rightarrow> m))
      | Some amount \<Rightarrow> Inr amount)"

definition parseOneOf :: "js \<Rightarrow> string list \<Rightarrow> string \<Rightarrow> string res" where
  "parseOneOf value allowed message =
     (case value of JString s \<Rightarrow> (if s \<in> set allowed then Inr s else Inl (BadRequest message))
      | _ \<Rightarrow> Inl (BadRequest message))"

definition parseOptionalId :: "js \<Rightarrow> string \<Rightarrow> string option option res" where
  "parseOptionalId value message =
     (if value = JUndefined then Inr None
      else if value = JNull \<or> value = JString [] then Inr (Some None)
      else (case value of JString s \<Rightarrow> Inr (Some (Some s)) | _ \<Rightarrow> Inl (BadRequest message)))"

section \<open>request.ts\<close>

text \<open>The JSON body; \<open>undefined\<close> when none was sent.\<close>

definition bodyOf :: "js \<Rightarrow> (string \<times> js) list res" where
  "bodyOf body =
     (case body of
        JUndefined \<Rightarrow> Inr [] | JNull \<Rightarrow> Inr [] | JObject fs \<Rightarrow> Inr fs
      | _ \<Rightarrow> Inl (BadRequest ''Corpo da requisicao invalido''))"

definition parseBoolean :: "js \<Rightarrow> string \<Rightarrow> bool option res" where
  "parseBoolean value field =
     (if js_nullish value then Inr None
      else if value = JBool True \<or> value = JString ''true'' then Inr (Some True)
      else if value = JBool False \<or> value = JString ''false'' then Inr (Some False)
      else Inl (BadRequest (''Campo '' @ field @ '' deve ser booleano'')))"

definition parseOptionalNote :: "js \<Rightarrow> nat \<Rightarrow> string option res" where
  "parseOptionalNote value maxLength =
     (if js_nullish value then Inr None
      else (case value of
              JString s \<Rightarrow> (case parseAbnt2Text value (Some maxLength) False of
                              None \<Rightarrow> Inr None
                            | Some t \<Rightarrow> Inr (if t = [] then None else Some t))
            | _ \<Rightarrow> Inl (BadRequest ''Observacao invalida'')))"

definition parsePatchNote :: "js \<Rightarrow> nat \<Rightarrow> string option option res" where
  "parsePatchNote value maxLength =
     (if value = JUndefined then Inr None
      else res_bind (parseOptionalNote value maxLength) (\<lambda>n. Inr (Some n)))"

definition isAsset :: "string \<Rightarrow> bool" where
  "isAsset value \<longleftrightarrow> value = ''BTC'' \<or> value = ''USD''"

section \<open>Money amounts\<close>

lemma digit_not_space: "is_digit c \<Longrightarrow> \<not> is_space c"
  by (auto simp: is_digit_iff is_space_def digit_char_def)

lemma trim_id:
  assumes "s \<noteq> []" "\<not> is_space (hd s)" "\<not> is_space (last s)"
  shows "trim s = s"
proof -
  have "dropWhile is_space s = s" using assms(1,2) by (cases s) auto
  moreover have "dropWhile is_space (rev s) = rev s"
    using assms(1,3) by (cases s rule: rev_cases) auto
  ultimately show ?thesis by (simp add: trim_def)
qed

lemma decimal_text_cases:
  assumes "is_decimal_text s"
  obtains w f where "w \<noteq> []" "list_all is_digit w" "list_all is_digit f" "length f \<le> 2"
    "s = w @ (if f = [] then [] else CHR ''.'' # f)" "takeWhile is_digit s = w"
    "dropWhile is_digit s = (if f = [] then [] else CHR ''.'' # f)"
proof -
  define w r where "w = takeWhile is_digit s" and "r = dropWhile is_digit s"
  have s: "s = w @ r" by (simp add: w_def r_def)
  have w: "w \<noteq> []" "list_all is_digit w"
    using assms by (auto simp: is_decimal_text_def Let_def w_def list_all_iff dest: set_takeWhileD)
  show thesis
  proof (cases "r = []")
    case True
    with w s show ?thesis by (intro that [of w "[]"]) (simp_all add: w_def [symmetric] r_def [symmetric] list_all_iff)
  next
    case False
    then have "hd r = CHR ''.''" "list_all is_digit (tl r)" "length (tl r) = 1 \<or> length (tl r) = 2"
      using assms by (auto simp: is_decimal_text_def Let_def r_def [symmetric])
    moreover from this(1) False have "r = CHR ''.'' # tl r" by (cases r) auto
    moreover have "tl r \<noteq> []" using calculation(3) by (cases "tl r") (auto simp del: length_tl)
    ultimately have r: "(if tl r = [] then [] else CHR ''.'' # tl r) = r" "list_all is_digit (tl r)" "length (tl r) \<le> 2"
      by (simp_all del: length_tl) auto
    show ?thesis
      by (rule that [of w "tl r", OF w r(2,3)]) (simp_all only: r(1) w_def [symmetric] r_def [symmetric] s [symmetric])
  qed
qed

lemma decimal_text_number:
  assumes "is_decimal_text s"
  shows "string_to_number s = Some (decimal_text_val s)"
proof -
  obtain w f where s: "w \<noteq> []" "list_all is_digit w" "list_all is_digit f" "length f \<le> 2"
    "s = w @ (if f = [] then [] else CHR ''.'' # f)" "takeWhile is_digit s = w"
    "dropWhile is_digit s = (if f = [] then [] else CHR ''.'' # f)"
    using assms by (rule decimal_text_cases)
  obtain c cs where c: "w = c # cs" "is_digit c" using s(1,2) by (cases w) auto
  have "is_digit (last s)"
    using s(1-3) by (auto simp: s(5) list_all_iff)
  then have trim: "trim s = s"
    using c s(5) by (intro trim_id) (auto simp: digit_not_space)
  have digit_ne: "is_digit e \<Longrightarrow> e \<noteq> CHR ''x'' \<and> e \<noteq> CHR ''X'' \<and> e \<noteq> CHR ''o'' \<and> e \<noteq> CHR ''O'' \<and> e \<noteq> CHR ''b'' \<and> e \<noteq> CHR ''B''
      \<and> e \<noteq> CHR ''-'' \<and> e \<noteq> CHR ''+''" for e
    by (auto simp: is_digit_def)
  have pre: "take 2 s \<notin> {''0x'', ''0X'', ''0o'', ''0O'', ''0b'', ''0B''}"
    using s(2) c digit_ne by (cases cs) (auto simp: s(5) list_all_iff)
  have sign: "split_sign s = (1, s)"
    using c digit_ne [OF c(2)] by (simp add: s(5) split_sign_def)
  have tf: "takeWhile is_digit f = f" "dropWhile is_digit f = []" using take_digits(3,4) [OF s(3)] .
  have lit: "decimal_literal s = Some (decimal_text_val s)"
  proof (cases "f = []")
    case True
    then have "dropWhile is_digit s = []" using s(7) by simp
    then show ?thesis using s(1) unfolding decimal_literal_def decimal_text_val_def s(6) by simp
  next
    case False
    then have "dropWhile is_digit s = CHR ''.'' # f" using s(7) by simp
    then show ?thesis using s(1) unfolding decimal_literal_def decimal_text_val_def s(6) by (simp add: tf)
  qed
  have "s \<noteq> []" using s(1,5) by simp
  then show ?thesis
    using pre by (simp add: string_to_number_def trim Let_def sign lit)
qed

lemma digit_val_nonneg: "is_digit c \<Longrightarrow> 0 \<le> digit_val c"
  by (auto simp: is_digit_iff)

lemma digits_val_nonneg: "list_all is_digit s \<Longrightarrow> 0 \<le> digits_val s"
proof -
  have "0 \<le> n \<Longrightarrow> list_all is_digit s \<Longrightarrow> 0 \<le> foldl (\<lambda>n c. 10 * n + digit_val c) n s" for n
  proof (induction s arbitrary: n)
    case (Cons c s)
    then show ?case using digit_val_nonneg [of c] by simp
  qed simp
  then show "list_all is_digit s \<Longrightarrow> 0 \<le> digits_val s" by (simp add: digits_val_def)
qed

lemma decimal_text_val_cents:
  assumes "is_decimal_text s"
  shows "cents (decimal_text_val s)" "0 \<le> decimal_text_val s"
proof -
  obtain w f where s: "w \<noteq> []" "list_all is_digit w" "list_all is_digit f" "length f \<le> 2"
    "s = w @ (if f = [] then [] else CHR ''.'' # f)" "takeWhile is_digit s = w"
    "dropWhile is_digit s = (if f = [] then [] else CHR ''.'' # f)"
    using assms by (rule decimal_text_cases)
  have val: "decimal_text_val s = of_int (digits_val (w @ f)) / 10 ^ length f"
    by (simp add: decimal_text_val_def s(6,7) Let_def)
  show "0 \<le> decimal_text_val s"
    using digits_val_nonneg [of "w @ f"] s(2,3) by (simp add: val)
  have "on_grid (length f) (decimal_text_val s)" by (simp add: val)
  then show "cents (decimal_text_val s)" using s(4) by (rule on_grid_mono)
qed

lemma parseMoneyAmount_sound:
  assumes "parseMoneyAmount value allowZero = Some a"
  shows "cents a \<and> 0 \<le> a \<and> a \<le> MAX_MONEY_AMOUNT \<and> (allowZero \<or> 0 < a)"
proof -
  define raw where "raw = (case value of JNumber r \<Rightarrow> number_text r | JString s \<Rightarrow> trim s | _ \<Rightarrow> [])"
  have raw: "is_decimal_text raw" using assms by (simp add: parseMoneyAmount_def raw_def [symmetric] Let_def split: if_splits)
  with assms have "a = decimal_text_val raw" "a \<le> MAX_MONEY_AMOUNT" "allowZero \<or> 0 < a"
    by (auto simp: parseMoneyAmount_def raw_def [symmetric] Let_def decimal_text_number split: if_splits)
  with decimal_text_val_cents [OF raw] show ?thesis by simp
qed

lemma length_nat_digits: "n < 10 ^ Suc k \<Longrightarrow> length (nat_digits n) \<le> Suc k"
proof (induction k arbitrary: n)
  case (Suc k)
  show ?case
  proof (cases "n < 10")
    case False
    have "n div 10 < 10 ^ Suc k" using Suc.prems by (simp add: less_mult_imp_div_less mult.commute)
    with Suc.IH [of "n div 10"] False show ?thesis by (simp add: nat_digits_step)
  qed (simp add: nat_digits_small)
qed (simp add: nat_digits_small)

lemma length_dropWhile_le: "length (dropWhile P xs) \<le> length xs"
  by (induction xs) auto

lemma takeWhile_cong_prefix: "list_all P w \<Longrightarrow> (\<And>c. P c \<Longrightarrow> c \<noteq> x) \<Longrightarrow> takeWhile (\<lambda>c. c \<noteq> x) (w @ (if f = [] then [] else x # f)) = w"
  by (induction w) auto

text \<open>The amounts that pass the parser are exactly the amounts the ledger can store: positive
  multiples of a cent of at most 9,999,999,999.99, whatever the request sends; and each of them is
  accepted in its own decimal form.\<close>

theorem accepted_amounts_are_stored_amounts:
  "(\<exists>value. parsePositiveAmount value = Some a) \<longleftrightarrow> stored_amount a \<and> 0 < a"
proof
  assume "\<exists>value. parsePositiveAmount value = Some a"
  then show "stored_amount a \<and> 0 < a"
    using parseMoneyAmount_sound by (fastforce simp: parsePositiveAmount_def stored_amount_def MAX_MONEY_AMOUNT_def)
next
  assume a: "stored_amount a \<and> 0 < a"
  then obtain c where c: "a = of_nat c / 100" using stored_amount_cents by blast
  let ?s = "decimal_text a"
  have ok: "is_decimal_text ?s" "decimal_text_val ?s = a" using decimal_text_round_trip a by auto
  obtain w f where s: "w \<noteq> []" "list_all is_digit w" "list_all is_digit f" "length f \<le> 2"
    "?s = w @ (if f = [] then [] else CHR ''.'' # f)" "takeWhile is_digit ?s = w"
    using ok(1) by (rule decimal_text_cases)
  have "of_nat c < (of_nat (10 ^ 12) :: rat)" using a by (simp add: c stored_amount_def)
  then have "c < 10 ^ 12" by (simp only: of_nat_less_iff)
  then have "c div 100 < 10 ^ Suc 9" by simp
  then have len: "length (nat_digits (c div 100)) \<le> 10" using length_nat_digits [of "c div 100" 9] by simp
  have "takeWhile is_digit ?s = nat_digits (c div 100)"
    using nat_digits_props [of "c div 100"]
    by (simp add: decimal_text_def c Let_def take_digits)
  with s(6) len have "length w \<le> 10" by simp
  moreover have "takeWhile (\<lambda>x. x \<noteq> CHR ''.'') ?s = w"
    unfolding s(5) using s(2) by (rule takeWhile_cong_prefix) (auto simp: is_digit_def)
  ultimately have "\<not> 10 < length (dropWhile (\<lambda>x. x = CHR ''0'') (takeWhile (\<lambda>x. x \<noteq> CHR ''.'') ?s))"
    using length_dropWhile_le [of "\<lambda>x. x = CHR ''0''" w] by simp
  moreover have "trim ?s = ?s"
  proof (rule trim_id)
    show "?s \<noteq> []" using s(1,5) by simp
    have "is_digit (hd ?s)" "is_digit (last ?s)"
      using s(1-3) by (auto simp: s(5) list_all_iff)
    then show "\<not> is_space (hd ?s)" "\<not> is_space (last ?s)" by (simp_all add: digit_not_space)
  qed
  ultimately have "parsePositiveAmount (JString ?s) = Some a"
    using ok a by (simp add: parsePositiveAmount_def parseMoneyAmount_def decimal_text_number stored_amount_def MAX_MONEY_AMOUNT_def)
  then show "\<exists>value. parsePositiveAmount value = Some a" by blast
qed

end
