(* ===== verification/Piggy_Model.thy ===== *)
theory Piggy_Model
  imports Piggy_Auto_Debit Requests
begin

text \<open>
  \<open>backend/src/lib/piggy/model.ts\<close>: the monthly amount a goal needs, the parsers of the piggy bank's
  fields and the test for this month's automatic debit. The theory relates the month count to the
  payment days that are left until the target.
\<close>

definition hasAutoDebitInCurrentMonth :: "tz_offset \<Rightarrow> piggy_tx list \<Rightarrow> instant \<Rightarrow> bool" where
  "hasAutoDebitInCurrentMonth sp transactions from =
     (let currentMonth = take 7 (todayKeyInSaoPaulo sp from) in
      list_ex (\<lambda>t. le_type t = ''deposit'' \<and> pt_source t = ''auto_debit''
        \<and> take 7 (dayKeyOfDate (it_date t)) = currentMonth) transactions)"

definition payment_day :: "int \<Rightarrow> instant \<Rightarrow> int" where
  "payment_day autoDebitDay date =
     min autoDebitDay (getUTCDate (date_UTC (getUTCFullYear date) (getUTCMonth date + 1) 0 0))"

definition monthsUntilTarget :: "instant \<Rightarrow> instant \<Rightarrow> int option \<Rightarrow> bool \<Rightarrow> int" where
  "monthsUntilTarget from targetDate autoDebitDay currentMonthPaid =
     (let months = (getUTCFullYear targetDate - getUTCFullYear from) * 12 + (getUTCMonth targetDate - getUTCMonth from) + 1 in
      case autoDebitDay of
        None \<Rightarrow> max 1 months
      | Some day \<Rightarrow>
          if months \<le> 0 then max 1 months
          else
            (let missedCurrent = (if currentMonthPaid \<or> getUTCDate from > payment_day day from then 1 else 0);
                 beyondTarget = (if getUTCDate targetDate < payment_day day targetDate then 1 else 0) in
             max 1 (months - missedCurrent - beyondTarget)))"

text \<open>\<open>piggyGoalAmount\<close> on a stored goal.\<close>

definition piggyGoalAmount :: "rat option \<Rightarrow> rat option" where
  "piggyGoalAmount value = (case value of None \<Rightarrow> None | Some amount \<Rightarrow> if amount \<le> 0 then None else Some amount)"

definition computeMonthlyGoal ::
    "decimal_lib \<Rightarrow> tz_offset \<Rightarrow> rat option \<Rightarrow> instant option \<Rightarrow> instant \<Rightarrow> rat \<Rightarrow> int option \<Rightarrow> bool \<Rightarrow> rat res" where
  "computeMonthlyGoal D sp goalAmount targetDate from balance autoDebitDay currentMonthPaid =
     (case (goalAmount, targetDate) of
        (Some goal, Some target) \<Rightarrow>
          (let remaining = dec_minus D goal balance in
           if remaining \<le> 0 then Inr 0
           else res_bind (todayInSaoPaulo sp from) (\<lambda>today.
                Inr (toMoney D (dec_div D remaining (of_int (monthsUntilTarget today target autoDebitDay currentMonthPaid))))))
      | _ \<Rightarrow> Inr 0)"

definition parseAutoDebitDay :: "js \<Rightarrow> int option" where
  "parseAutoDebitDay value =
     (case js_to_number value of
        None \<Rightarrow> None
      | Some day \<Rightarrow> if \<not> is_integer day \<or> day < 1 \<or> day > 31 then None else Some \<lfloor>day\<rfloor>)"

definition parseTargetDate :: "tz_offset \<Rightarrow> instant \<Rightarrow> js \<Rightarrow> instant res" where
  "parseTargetDate sp now value =
     res_bind (parseCivilDate value Noon) (\<lambda>parsed.
     case parsed of
       None \<Rightarrow> Inl (piggy_error ''INVALID_TARGET_DATE'')
     | Some date \<Rightarrow> res_bind (todayInSaoPaulo sp now) (\<lambda>today.
         res_when (date < today) (piggy_error ''PAST_TARGET_DATE'') (Inr date)))"

definition parseOptionalTargetDate :: "tz_offset \<Rightarrow> instant \<Rightarrow> js \<Rightarrow> instant option res" where
  "parseOptionalTargetDate sp now value =
     (if js_nullish value \<or> value = JString [] then Inr None
      else res_bind (parseTargetDate sp now value) (\<lambda>d. Inr (Some d)))"

section \<open>Payment days\<close>

lemma noon_fields:
  "getUTCFullYear (noon n) = c_year (civil_of_day n)" "getUTCMonth (noon n) = c_month (civil_of_day n)"
  "getUTCDate (noon n) = c_day (civil_of_day n)"
  using day_of_add [of 43200000 n] by (simp_all add: getUTCFullYear_def getUTCMonth_def getUTCDate_def)

lemma month_end_date:
  assumes "ok_day n"
  shows "getUTCDate (date_UTC (c_year (civil_of_day n)) (c_month (civil_of_day n) + 1) 0 0)
    = days_in_month (c_year (civil_of_day n)) (c_month (civil_of_day n))"
  using lastDayOfMonth_eq [of "c_year (civil_of_day n)" "c_month (civil_of_day n)"] assms
    valid_civil_bounds [OF valid_civil_of_day [of n]]
  by (simp add: lastDayOfMonth_def ok_day_iff_year)

lemma due_in_month:
  assumes "ok_day n"
  shows "due_on d (month_idx n) < n \<longleftrightarrow>
    min (max d 1) (days_in_month (c_year (civil_of_day n)) (c_month (civil_of_day n))) < c_day (civil_of_day n)"
proof -
  have "due_on d (month_idx n) < n \<longleftrightarrow> civil_of_day (due_on d (month_idx n)) < civil_of_day n"
    by (simp add: civil_of_day_less)
  also have "\<dots> \<longleftrightarrow> min (max d 1) (days_in_month (c_year (civil_of_day n)) (c_month (civil_of_day n))) < c_day (civil_of_day n)"
    using due_on_civil(1) [OF ok_month_idx [OF assms], of d] by (simp add: month_idx_split less_civil_def)
  finally show ?thesis .
qed

lemma due_after_in_month:
  assumes "ok_day n"
  shows "n < due_on d (month_idx n) \<longleftrightarrow>
    c_day (civil_of_day n) < min (max d 1) (days_in_month (c_year (civil_of_day n)) (c_month (civil_of_day n)))"
proof -
  have "n < due_on d (month_idx n) \<longleftrightarrow> civil_of_day n < civil_of_day (due_on d (month_idx n))"
    by (simp add: civil_of_day_less)
  also have "\<dots> \<longleftrightarrow> c_day (civil_of_day n) < min (max d 1) (days_in_month (c_year (civil_of_day n)) (c_month (civil_of_day n)))"
    using due_on_civil(1) [OF ok_month_idx [OF assms], of d] by (simp add: month_idx_split less_civil_def)
  finally show ?thesis .
qed

definition payments_left :: "int \<Rightarrow> int \<Rightarrow> int \<Rightarrow> bool \<Rightarrow> int set" where
  "payments_left d from to paid = {n. from \<le> n \<and> n \<le> to \<and> is_due_day d n \<and> (paid \<longrightarrow> month_idx from < month_idx n)}"

lemma card_payments_left:
  assumes "ok_day f" "ok_day t" "month_idx f < month_idx t"
  shows "int (card (payments_left d f t paid)) = month_idx t - month_idx f + 1
    - (if paid \<or> due_on d (month_idx f) < f then 1 else 0) - (if t < due_on d (month_idx t) then 1 else 0)"
proof -
  define lo hi where "lo = (if paid \<or> due_on d (month_idx f) < f then month_idx f + 1 else month_idx f)"
    and "hi = (if t < due_on d (month_idx t) then month_idx t - 1 else month_idx t)"
  have ft: "f \<le> t" using assms(3) month_idx_mono [of t f] by linarith
  have ok: "ok_month M" if "month_idx f \<le> M" "M \<le> month_idx t" for M
    using that ok_month_idx [OF assms(1)] ok_month_idx [OF assms(2)] by (simp add: ok_month_def)
  have "payments_left d f t paid
      = {n \<in> due_on d ` {M \<in> {month_idx f..month_idx t}. f \<le> due_on d M \<and> due_on d M \<le> t}. paid \<longrightarrow> month_idx f < month_idx n}"
    unfolding due_days_as_months [OF assms(1,2) ft, symmetric] by (auto simp: payments_left_def)
  also have "\<dots> = due_on d ` {lo..hi}"
  proof -
    have "M \<in> {month_idx f..month_idx t} \<and> f \<le> due_on d M \<and> due_on d M \<le> t \<and> (paid \<longrightarrow> month_idx f < M) \<longleftrightarrow> M \<in> {lo..hi}" for M
    proof -
      consider "M < month_idx f" | "month_idx t < M" | "M = month_idx f" | "M = month_idx t"
        | "month_idx f < M" "M < month_idx t" by linarith
      then show ?thesis
      proof cases
        case 3
        then show ?thesis
          using assms(3) due_on_before [OF ok_month_idx [OF assms(1)] assms(3), of d] by (auto simp: lo_def hi_def not_less)
      next
        case 4
        then show ?thesis
          using assms(3) due_on_after [OF ok_month_idx [OF assms(2)] assms(3), of d] by (auto simp: lo_def hi_def not_less)
      next
        case 5
        then show ?thesis
          using due_on_before [OF ok, of M t d] due_on_after [OF ok, of M f d] by (auto simp: lo_def hi_def)
      qed (use assms(3) in \<open>auto simp: lo_def hi_def\<close>)
    qed
    then have range: "{M. M \<in> {month_idx f..month_idx t} \<and> f \<le> due_on d M \<and> due_on d M \<le> t \<and> (paid \<longrightarrow> month_idx f < M)} = {lo..hi}"
      by blast
    have "{n \<in> due_on d ` {M \<in> {month_idx f..month_idx t}. f \<le> due_on d M \<and> due_on d M \<le> t}. paid \<longrightarrow> month_idx f < month_idx n}
      = due_on d ` {M. M \<in> {month_idx f..month_idx t} \<and> f \<le> due_on d M \<and> due_on d M \<le> t \<and> (paid \<longrightarrow> month_idx f < M)}"
      using due_on_civil(3) [OF ok] by fastforce
    then show ?thesis unfolding range .
  qed
  finally have "payments_left d f t paid = due_on d ` {lo..hi}" .
  moreover have "inj_on (due_on d) {lo..hi}"
    by (rule inj_on_due_on) (auto simp: lo_def hi_def intro!: ok split: if_splits)
  ultimately have "card (payments_left d f t paid) = card {lo..hi}" by (simp only: card_image)
  then show ?thesis using assms(3) by (simp add: lo_def hi_def)
qed

section \<open>Properties\<close>

text \<open>The number of months a goal is spread over is the number of automatic debits still to come: the
  due days from today through the target date (without this month's when it is already paid), and
  at least one.\<close>

theorem months_until_target_counts_payments:
  assumes "ok_day today" "ok_day target" "1 \<le> autoDebitDay"
  shows "monthsUntilTarget (noon today) (noon target) (Some autoDebitDay) paid
    = max 1 (int (card (payments_left autoDebitDay today target paid)))"
proof -
  define months where "months = month_idx target - month_idx today + 1"
  have pay: "getUTCDate (noon n) > payment_day autoDebitDay (noon n) \<longleftrightarrow> due_on autoDebitDay (month_idx n) < n"
    "getUTCDate (noon n) < payment_day autoDebitDay (noon n) \<longleftrightarrow> n < due_on autoDebitDay (month_idx n)" if "ok_day n" for n
    using assms(3) month_end_date [OF that] due_in_month [OF that, of autoDebitDay] due_after_in_month [OF that, of autoDebitDay]
    by (auto simp: payment_day_def noon_fields)
  have count: "monthsUntilTarget (noon today) (noon target) (Some autoDebitDay) paid
    = (if months \<le> 0 then max 1 months
       else max 1 (months - (if paid \<or> due_on autoDebitDay (month_idx today) < today then 1 else 0)
         - (if target < due_on autoDebitDay (month_idx target) then 1 else 0)))"
  proof -
    have m: "(getUTCFullYear (noon target) - getUTCFullYear (noon today)) * 12
        + (getUTCMonth (noon target) - getUTCMonth (noon today)) + 1 = months"
      by (simp only: noon_fields months_def month_idx_def) simp
    show ?thesis
      using pay(1) [OF assms(1)] pay(2) [OF assms(2)] unfolding monthsUntilTarget_def m Let_def option.case by presburger
  qed
  consider "months \<le> 0" | "months = 1" | "1 < months" by linarith
  then show ?thesis
  proof cases
    case 1
    then have "payments_left autoDebitDay today target paid = {}"
      using month_idx_mono [of today target] by (auto simp: payments_left_def months_def)
    with 1 count show ?thesis by simp
  next
    case 2
    have "payments_left autoDebitDay today target paid \<subseteq> {due_on autoDebitDay (month_idx today)}"
    proof
      fix n
      assume n: "n \<in> payments_left autoDebitDay today target paid"
      then have "month_idx today \<le> month_idx n" "month_idx n \<le> month_idx target"
        by (auto simp: payments_left_def intro: month_idx_mono)
      with 2 have "month_idx n = month_idx today" by (simp add: months_def)
      moreover from this have "ok_month (month_idx n)" using ok_month_idx [OF assms(1)] by simp
      ultimately show "n \<in> {due_on autoDebitDay (month_idx today)}"
        using n is_due_day_iff [of n autoDebitDay] by (auto simp: payments_left_def)
    qed
    from card_mono [OF _ this] have "card (payments_left autoDebitDay today target paid) \<le> 1" by simp
    with 2 count show ?thesis by (auto simp: max_def)
  next
    case 3
    with card_payments_left [OF assms(1,2), of autoDebitDay paid] count show ?thesis by (simp add: months_def)
  qed
qed

theorem months_until_target_counts_payments_witness:
  "monthsUntilTarget (noon 20457) (noon 20561) (Some 31) True = max 1 (int (card (payments_left 31 20457 20561 True)))
    \<and> monthsUntilTarget (noon 20457) (noon 20561) (Some 31) True = 2"
proof -
  have "ok_day 20457" "ok_day 20561" by code_simp+
  moreover have "monthsUntilTarget (noon 20457) (noon 20561) (Some 31) True = 2" by code_simp
  ultimately show ?thesis using months_until_target_counts_payments [of 20457 20561 31 True] by simp
qed

end
