(* ===== verification/Piggy_Moves.thy ===== *)
theory Piggy_Moves
  imports Piggy_Model
begin

text \<open>
  \<open>backend/src/lib/piggy/transactions.ts\<close>: deposits to and withdrawals from piggy banks. The
  database gains its other tables: users, custom tags, income entries, piggy banks and their ledger.
  As in the rest of the development a transaction is one step on the tables that either returns
  the new tables or an error alone. \<open>now\<close> is the clock (\<open>new Date()\<close>), read once per operation.
\<close>

section \<open>Tables\<close>

record entry_receipt =
  rc_id :: string
  rc_month :: string
  rc_amount :: rat
  rc_receivedAt :: instant

record salary_version =
  sv_month :: string
  sv_amount :: rat
  sv_receiveDay :: int

record entry_row =
  en_id :: string
  en_userId :: string
  en_customTagId :: "string option"
  en_name :: string
  en_notes :: "string option"
  en_amount :: rat
  en_type :: string
  en_frequency :: string
  en_receiveDay :: "int option"
  en_startsAt :: "instant option"
  en_endsAt :: "instant option"
  en_date :: "instant option"
  en_receiptHoldForMonth :: "string option"
  en_receivedForMonth :: "string option"
  en_receivedAt :: "instant option"
  en_archivedAt :: "instant option"
  en_systemOrigin :: string
  en_createdAt :: instant
  en_updatedAt :: instant
  en_receipts :: "entry_receipt list"
  en_salaryVersions :: "salary_version list"
  en_salaryHolds :: "string list"

record custom_tag =
  ct_id :: string
  ct_userId :: string
  ct_scope :: string
  ct_name :: string
  ct_color :: string
  ct_createdAt :: instant

record user_row =
  us_id :: string
  us_name :: string
  us_salary :: rat
  us_notes :: "string option"

record finance_db = billing_db +
  db_users :: "user_row list"
  db_customTags :: "custom_tag list"
  db_entries :: "entry_row list"
  db_piggyBanks :: "piggy_bank list"
  db_piggyTx :: "piggy_tx list"

definition bank_txs :: "finance_db \<Rightarrow> piggy_bank \<Rightarrow> piggy_tx list" where
  "bank_txs db bank = filter (\<lambda>t. pt_piggyBankId t = pb_id bank \<and> pt_userId t = pb_userId bank) (db_piggyTx db)"

definition find_bank :: "finance_db \<Rightarrow> string \<Rightarrow> string \<Rightarrow> piggy_bank option" where
  "find_bank db userId bankId = find (\<lambda>b. pb_id b = bankId \<and> pb_userId b = userId) (db_piggyBanks db)"

definition update_bank :: "string \<Rightarrow> (piggy_bank \<Rightarrow> piggy_bank) \<Rightarrow> finance_db \<Rightarrow> finance_db" where
  "update_bank bankId f db = db\<lparr>db_piggyBanks := map (\<lambda>b. if pb_id b = bankId then f b else b) (db_piggyBanks db)\<rparr>"

section \<open>Deposits\<close>

record deposit_params =
  dp_userId :: string
  dp_piggyBankId :: string
  dp_amount :: rat
  dp_source :: string
  dp_deductFromBalance :: bool
  dp_note :: "string option"
  dp_date :: instant

record deposit_result =
  dr_transaction :: piggy_tx
  dr_completed :: bool
  dr_depositAmount :: rat
  dr_alreadyProcessed :: bool

text \<open>The automatic debit that is already there for the month of a day.\<close>

definition existing_auto_debit :: "finance_db \<Rightarrow> string \<Rightarrow> piggy_bank \<Rightarrow> instant \<Rightarrow> piggy_tx option res" where
  "existing_auto_debit db userId bank day =
     (let k = dayKeyOfDate day in
      res_bind (monthBounds (digits_val (take 4 k)) (digits_val (take 2 (drop 5 k)) - 1)) (\<lambda>month.
      let nextMonthStart = mb_end month + 86400000 in
      Inr (find (\<lambda>t. pt_piggyBankId t = pb_id bank \<and> pt_userId t = userId \<and> pt_source t = ''auto_debit''
             \<and> le_type t = ''deposit'' \<and> mb_start month \<le> it_date t \<and> it_date t < nextMonthStart) (db_piggyTx db))))"

definition piggy_expense_row ::
    "(nat \<Rightarrow> string) \<Rightarrow> instant \<Rightarrow> string \<Rightarrow> piggy_bank \<Rightarrow> rat \<Rightarrow> instant \<Rightarrow> string option \<Rightarrow> nat \<Rightarrow> expense_row" where
  "piggy_expense_row newId now userId bank amount day note i = \<lparr>
     be_amount = amount, be_cardId = None, be_isInvoice = False, be_frequency = ''unica'', be_dueDay = None,
     be_startsAt = None, be_endsAt = None, be_occurredAt = Some day, be_createdAt = now, be_archivedAt = None,
     be_splits = [], be_obligationVersions = [],
     er_id = newId i, er_userId = userId, er_name = ''Cofrinho - '' @ pb_name bank, er_category = ''cofrinho'',
     er_customTagId = None, er_paidForMonth = None, er_paidAt = None,
     er_notes = Some (if truthy note then the note else ''Transferencia interna para o cofrinho '' @ pb_name bank),
     er_billingPeriodStart = None, er_billingPeriodEnd = None, er_voidedAt = None, er_systemOrigin = ''piggy'',
     er_splits = [], er_versions = [], er_payments = [], er_updatedAt = now\<rparr>"

definition deposit_row ::
    "(nat \<Rightarrow> string) \<Rightarrow> instant \<Rightarrow> string \<Rightarrow> piggy_bank \<Rightarrow> string \<Rightarrow> rat \<Rightarrow> instant \<Rightarrow> string option \<Rightarrow> string option \<Rightarrow> nat
     \<Rightarrow> piggy_tx" where
  "deposit_row newId now userId bank source amount day expenseId note i = \<lparr>
     le_type = ''deposit'', le_amount = amount, it_date = day, it_interestKey = None, it_resultingBalance = None,
     pt_id = newId i, pt_piggyBankId = pb_id bank, pt_userId = userId, pt_source = source, pt_expenseId = expenseId,
     pt_entryId = None, pt_note = note, pt_correctionOrigin = None, pt_cdiRate = None, pt_cdiPercent = None,
     pt_baseBalance = None, pt_createdAt = now\<rparr>"

text \<open>The refreshed monthly goal of a bank with a goal and a target date.\<close>

definition refreshed_goal ::
    "decimal_lib \<Rightarrow> tz_offset \<Rightarrow> instant \<Rightarrow> piggy_bank \<Rightarrow> rat \<Rightarrow> piggy_tx list \<Rightarrow> rat res" where
  "refreshed_goal D sp now bank balance transactions =
     (if pb_goalAmount bank \<noteq> None \<and> pb_targetDate bank \<noteq> None then
        computeMonthlyGoal D sp (pb_goalAmount bank) (pb_targetDate bank) now balance
          (if pb_autoDebit bank then Some (pb_autoDebitDay bank) else None)
          (hasAutoDebitInCurrentMonth sp transactions now)
      else Inr (pb_monthlyGoal bank))"

text \<open>What a deposit writes once the bank is found and no debit of the month is there.\<close>

definition record_deposit ::
    "decimal_lib \<Rightarrow> tz_offset \<Rightarrow> (nat \<Rightarrow> string) \<Rightarrow> instant \<Rightarrow> deposit_params \<Rightarrow> piggy_bank \<Rightarrow> instant \<Rightarrow> finance_db
     \<Rightarrow> (finance_db \<times> deposit_result) res" where
  "record_deposit D sp newId now p bank day db =
     (let requested = toMoney D (dp_amount p); userId = dp_userId p;
          txs = bank_txs db bank;
          currentBalance = balanceDecimalFromTransactions D txs;
          remaining = map_option (\<lambda>goal. dec_minus D goal currentBalance) (pb_goalAmount bank) in
      res_when (case remaining of None \<Rightarrow> False | Some r \<Rightarrow> r \<le> 0) (piggy_error ''ALREADY_COMPLETE'')
      (let depositAmount = (case remaining of None \<Rightarrow> requested | Some r \<Rightarrow> if requested \<le> r then requested else r);
           expense = (if dp_source p = ''auto_debit'' \<or> dp_deductFromBalance p
                      then Some (piggy_expense_row newId now userId bank depositAmount day (dp_note p)
                                   (length (db_expenses db)))
                      else None);
           row = deposit_row newId now userId bank (dp_source p) depositAmount day (map_option er_id expense)
                   (dp_note p) (length (db_piggyTx db));
           nextBalance = dec_plus D currentBalance depositAmount;
           completed = ((case pb_goalAmount bank of None \<Rightarrow> False | Some goal \<Rightarrow> nextBalance \<ge> goal)
                        \<and> pb_completedAt bank = None) in
       res_bind (refreshed_goal D sp now bank nextBalance (txs @ [row])) (\<lambda>monthlyGoal.
       Inr (update_bank (pb_id bank)
              (\<lambda>b. b\<lparr>pb_completedAt := (if completed then Some day else pb_completedAt b), pb_monthlyGoal := monthlyGoal\<rparr>)
              (db\<lparr>db_expenses := db_expenses db @ (case expense of None \<Rightarrow> [] | Some e \<Rightarrow> [e]),
                  db_piggyTx := db_piggyTx db @ [row]\<rparr>),
            \<lparr>dr_transaction = row, dr_completed = completed, dr_depositAmount = depositAmount,
             dr_alreadyProcessed = False\<rparr>))))"

definition depositToPiggyBankInTransaction ::
    "decimal_lib \<Rightarrow> tz_offset \<Rightarrow> (nat \<Rightarrow> string) \<Rightarrow> instant \<Rightarrow> deposit_params \<Rightarrow> finance_db
     \<Rightarrow> (finance_db \<times> deposit_result) res" where
  "depositToPiggyBankInTransaction D sp newId now p db =
     res_bind (todayInSaoPaulo sp (dp_date p)) (\<lambda>day.
     case find_bank db (dp_userId p) (dp_piggyBankId p) of
       None \<Rightarrow> Inl (piggy_error ''NOT_FOUND'')
     | Some bank \<Rightarrow>
         res_when (pb_archivedAt bank \<noteq> None) (piggy_error ''ARCHIVED'')
         (res_bind (if dp_source p = ''auto_debit'' then existing_auto_debit db (dp_userId p) bank day else Inr None) (\<lambda>existing.
          case existing of
            Some t \<Rightarrow> Inr (db, \<lparr>dr_transaction = t, dr_completed = False, dr_depositAmount = 0, dr_alreadyProcessed = True\<rparr>)
          | None \<Rightarrow> record_deposit D sp newId now p bank day db)))"

section \<open>Withdrawals\<close>

definition CORRECTION_PREFIX :: string where
  "CORRECTION_PREFIX = ''Correcao de saldo incorreto''"

definition ambiguous :: error where
  "ambiguous = piggy_error ''CORRECTION_ORIGIN_AMBIGUOUS''"

text \<open>What earlier corrections have taken from each origin.\<close>

definition spent_step :: "decimal_lib \<Rightarrow> rat \<times> rat \<Rightarrow> piggy_tx \<Rightarrow> (rat \<times> rat) res" where
  "spent_step D acc movement =
     (if le_type movement \<noteq> ''withdraw'' then Inr acc
      else if pt_correctionOrigin movement = Some Debited \<and> truthy (pt_entryId movement)
        then Inr (dec_plus D (fst acc) (le_amount movement), snd acc)
      else if pt_correctionOrigin movement = Some NotDebited \<and> \<not> truthy (pt_entryId movement)
        then Inr (fst acc, dec_plus D (snd acc) (le_amount movement))
      else Inl ambiguous)"

text \<open>What deposits have added to each origin; a debited deposit must match its linked expense.\<close>

definition deposited_step :: "decimal_lib \<Rightarrow> (string \<Rightarrow> expense_row option) \<Rightarrow> rat \<times> rat \<Rightarrow> piggy_tx \<Rightarrow> (rat \<times> rat) res" where
  "deposited_step D linked acc deposit =
     (if le_type deposit \<noteq> ''deposit'' then Inr acc
      else case pt_expenseId deposit of
        None \<Rightarrow> Inr (fst acc, dec_plus D (snd acc) (le_amount deposit))
      | Some eid \<Rightarrow>
          (case linked eid of
             None \<Rightarrow> Inl ambiguous
           | Some expense \<Rightarrow>
               res_when (er_category expense \<noteq> ''cofrinho'' \<or> be_frequency expense \<noteq> ''unica'' \<or> be_amount expense \<noteq> le_amount deposit)
                 ambiguous (Inr (dec_plus D (fst acc) (le_amount deposit), snd acc))))"

definition linked_expenses :: "finance_db \<Rightarrow> string \<Rightarrow> piggy_tx list \<Rightarrow> (string \<Rightarrow> expense_row option)" where
  "linked_expenses db userId txs =
     (let ids = List.map_filter pt_expenseId (filter (\<lambda>t. le_type t = ''deposit'' \<and> pt_expenseId t \<noteq> None) txs) in
      map_of (map (\<lambda>e. (er_id e, e))
        (filter (\<lambda>e. er_id e \<in> set ids \<and> er_userId e = userId \<and> er_systemOrigin e = ''piggy'' \<and> be_archivedAt e = None)
           (db_expenses db))))"

definition validateCorrectionSource ::
    "decimal_lib \<Rightarrow> finance_db \<Rightarrow> piggy_bank \<Rightarrow> rat \<Rightarrow> correction_origin \<Rightarrow> string \<Rightarrow> unit res" where
  "validateCorrectionSource D db bank requested origin userId =
     (let txs = bank_txs db bank in
      res_when (pb_yieldEnabled bank \<or> pb_interestAccruedThrough bank \<noteq> None \<or> list_ex (\<lambda>t. le_type t = ''interest'') txs)
        (piggy_error ''CORRECTION_YIELD_BLOCKED'')
      (res_when (pb_autoDebit bank \<or> list_ex (\<lambda>t. le_type t = ''deposit'' \<and> pt_source t \<noteq> ''manual'') txs) ambiguous
      (res_bind (res_fold (spent_step D) (0, 0) txs) (\<lambda>spent.
       res_bind (res_fold (deposited_step D (linked_expenses db userId txs)) (0, 0) txs) (\<lambda>deposited.
       let available = (case origin of Debited \<Rightarrow> dec_minus D (fst deposited) (fst spent)
                                     | NotDebited \<Rightarrow> dec_minus D (snd deposited) (snd spent)) in
       res_when (available < requested) (piggy_error ''CORRECTION_ORIGIN_INSUFFICIENT'') (Inr ()))))))"

record withdraw_params =
  wp_userId :: string
  wp_piggyBankId :: string
  wp_amount :: rat
  wp_creditToBalance :: bool
  wp_correctionOrigin :: "correction_origin option"
  wp_note :: "string option"
  wp_date :: instant

definition origin_text :: "correction_origin \<Rightarrow> string" where
  "origin_text origin = (case origin of Debited \<Rightarrow> ''debited'' | NotDebited \<Rightarrow> ''not_debited'')"

definition withdraw_entry_row ::
    "(nat \<Rightarrow> string) \<Rightarrow> instant \<Rightarrow> string \<Rightarrow> piggy_bank \<Rightarrow> rat \<Rightarrow> instant \<Rightarrow> bool \<Rightarrow> nat \<Rightarrow> entry_row" where
  "withdraw_entry_row newId now userId bank amount day correction i = \<lparr>
     en_id = newId i, en_userId = userId, en_customTagId = None,
     en_name = (if correction then ''Estorno de deposito - '' else ''Resgate - '') @ pb_name bank,
     en_notes = (if correction then Some (CORRECTION_PREFIX @ '' [origem:debited] (reversao do debito do deposito)'') else None),
     en_amount = amount, en_type = ''outro'', en_frequency = ''unica'', en_receiveDay = None, en_startsAt = None,
     en_endsAt = None, en_date = Some day, en_receiptHoldForMonth = None, en_receivedForMonth = None,
     en_receivedAt = None, en_archivedAt = None, en_systemOrigin = ''piggy'', en_createdAt = now, en_updatedAt = now,
     en_receipts = [], en_salaryVersions = [], en_salaryHolds = []\<rparr>"

definition withdraw_row ::
    "(nat \<Rightarrow> string) \<Rightarrow> instant \<Rightarrow> string \<Rightarrow> piggy_bank \<Rightarrow> rat \<Rightarrow> instant \<Rightarrow> string option \<Rightarrow> correction_origin option
     \<Rightarrow> string option \<Rightarrow> nat \<Rightarrow> piggy_tx" where
  "withdraw_row newId now userId bank amount day entryId origin note i = \<lparr>
     le_type = ''withdraw'', le_amount = amount, it_date = day, it_interestKey = None, it_resultingBalance = None,
     pt_id = newId i, pt_piggyBankId = pb_id bank, pt_userId = userId, pt_source = ''manual'', pt_expenseId = None,
     pt_entryId = entryId,
     pt_note = (case origin of
                  None \<Rightarrow> note
                | Some c \<Rightarrow> Some (CORRECTION_PREFIX @ '' [origem:'' @ origin_text c @ '']''
                              @ (if truthy note then '' - '' @ the note else []))),
     pt_correctionOrigin = origin, pt_cdiRate = None, pt_cdiPercent = None, pt_baseBalance = None, pt_createdAt = now\<rparr>"

text \<open>What a withdrawal writes once the balance and the origin of a correction are checked.\<close>

definition record_withdrawal ::
    "decimal_lib \<Rightarrow> tz_offset \<Rightarrow> (nat \<Rightarrow> string) \<Rightarrow> instant \<Rightarrow> withdraw_params \<Rightarrow> piggy_bank \<Rightarrow> instant \<Rightarrow> finance_db
     \<Rightarrow> (finance_db \<times> piggy_tx \<times> entry_row option) res" where
  "record_withdrawal D sp newId now p bank day db =
     (let requested = toMoney D (wp_amount p); userId = wp_userId p; origin = wp_correctionOrigin p;
          txs = bank_txs db bank;
          entry = (if wp_creditToBalance p \<or> origin = Some Debited
                   then Some (withdraw_entry_row newId now userId bank requested day (origin = Some Debited)
                                (length (db_entries db)))
                   else None);
          row = withdraw_row newId now userId bank requested day (map_option en_id entry) origin (wp_note p)
                  (length (db_piggyTx db));
          nextBalance = dec_minus D (balanceDecimalFromTransactions D txs) requested;
          reopenedGoal = (case pb_goalAmount bank of None \<Rightarrow> False | Some goal \<Rightarrow> nextBalance < goal) in
      res_bind (refreshed_goal D sp now bank nextBalance txs) (\<lambda>monthlyGoal.
      Inr (update_bank (pb_id bank)
             (\<lambda>b. b\<lparr>pb_completedAt := (if reopenedGoal then None else pb_completedAt bank),
                   pb_monthlyGoal := monthlyGoal,
                   pb_autoDebitEnabledAt :=
                     (if pb_autoDebit bank
                      then autoDebitEnabledAtAfterGoalReopened (pb_completedAt bank \<noteq> None) reopenedGoal
                             (pb_autoDebitEnabledAt bank) (wp_date p)
                      else pb_autoDebitEnabledAt bank)\<rparr>)
             (db\<lparr>db_entries := db_entries db @ (case entry of None \<Rightarrow> [] | Some e \<Rightarrow> [e]),
                 db_piggyTx := db_piggyTx db @ [row]\<rparr>),
           row, entry)))"

definition withdrawFromPiggyBank ::
    "decimal_lib \<Rightarrow> tz_offset \<Rightarrow> (nat \<Rightarrow> string) \<Rightarrow> instant \<Rightarrow> withdraw_params \<Rightarrow> finance_db
     \<Rightarrow> (finance_db \<times> piggy_tx \<times> entry_row option) res" where
  "withdrawFromPiggyBank D sp newId now p db =
     res_bind (todayInSaoPaulo sp (wp_date p)) (\<lambda>day.
     res_when ((\<not> wp_creditToBalance p) \<noteq> (wp_correctionOrigin p \<noteq> None)) ambiguous
     (case find_bank db (wp_userId p) (wp_piggyBankId p) of
        None \<Rightarrow> Inl (piggy_error ''NOT_FOUND'')
      | Some bank \<Rightarrow>
          res_when (pb_archivedAt bank \<noteq> None) (piggy_error ''ARCHIVED'')
          (res_when (toMoney D (wp_amount p) > balanceDecimalFromTransactions D (bank_txs db bank))
             (piggy_error ''INSUFFICIENT_BALANCE'')
          (res_bind (case wp_correctionOrigin p of
                       None \<Rightarrow> Inr ()
                     | Some c \<Rightarrow> validateCorrectionSource D db bank (toMoney D (wp_amount p)) c (wp_userId p)) (\<lambda>u.
           record_withdrawal D sp newId now p bank day db)))))"

end
