(* ===== verification/Piggy_Accrual.thy ===== *)
theory Piggy_Accrual
  imports Piggy_Interest
begin

text \<open>
  What the interest loop computes. \<open>exact_run\<close> adds up the exact interest of the days, each on the
  ledger balance of the day and all interest so far; \<open>posts\<close> are the rows that follow from it, a day
  posting the difference between the whole cents of the total before and after it. The code's
  loop is shown to compute \<open>posts\<close> and to carry what \<open>exact_run\<close> leaves over whole cents, and
  stopping and resuming the loop to make no difference.
\<close>

section \<open>Whole cents\<close>

definition whole_cents :: "rat \<Rightarrow> rat" where
  "whole_cents x = at_places down_int 2 x"

lemma whole_cents_bounds:
  assumes "0 \<le> x"
  shows "0 \<le> whole_cents x" "whole_cents x \<le> x" "x < whole_cents x + CENT"
  using down_places_nonneg [OF assms, of 2] by (simp_all add: whole_cents_def CENT_def)

lemma whole_cents_cents [simp]: "cents (whole_cents x)"
  by (simp add: whole_cents_def)

lemma whole_cents_floor: "0 \<le> x \<Longrightarrow> whole_cents x = of_int \<lfloor>x * 100\<rfloor> / 100"
  by (simp add: whole_cents_def at_places_def down_int_nonneg)

lemma whole_cents_shift:
  assumes "cents k" "0 \<le> x" "0 \<le> x - k"
  shows "whole_cents (x - k) = whole_cents x - k"
proof -
  obtain m where m: "k = of_int m / 10 ^ 2" using assms(1) by (rule on_gridE)
  then have "(x - k) * 100 = x * 100 - of_int m" by (simp add: algebra_simps)
  then have "\<lfloor>(x - k) * 100\<rfloor> = \<lfloor>x * 100\<rfloor> - m" by simp
  then show ?thesis using assms(2,3) m by (simp add: whole_cents_floor diff_divide_distrib)
qed

lemma whole_cents_mono: "0 \<le> x \<Longrightarrow> x \<le> y \<Longrightarrow> whole_cents x \<le> whole_cents y"
  by (simp add: whole_cents_floor divide_right_mono floor_mono mult_right_mono)

lemma whole_cents_small: "0 \<le> x \<Longrightarrow> x < CENT \<Longrightarrow> whole_cents x = 0"
proof -
  assume "0 \<le> x" "x < CENT"
  then have "\<lfloor>x * 100\<rfloor> = 0" by (simp add: floor_eq_iff CENT_def)
  with \<open>0 \<le> x\<close> show ?thesis by (simp add: whole_cents_floor)
qed

section \<open>The exact run\<close>

fun exact_run :: "decimal_lib \<Rightarrow> (day_key \<Rightarrow> rat) \<Rightarrow> rat \<Rightarrow> rat \<Rightarrow> market_point list \<Rightarrow> rat" where
  "exact_run D B percent acc [] = acc"
| "exact_run D B percent acc (p # ps) =
     exact_run D B percent (acc + exactCdiInterest D (B (mp_date p) + acc) (mp_value p) percent) ps"

fun posts :: "decimal_lib \<Rightarrow> (day_key \<Rightarrow> rat) \<Rightarrow> string \<Rightarrow> rat \<Rightarrow> rat \<Rightarrow> market_point list \<Rightarrow> interest_posting list" where
  "posts D B bankId percent acc [] = []"
| "posts D B bankId percent acc (p # ps) =
     (let acc' = acc + exactCdiInterest D (B (mp_date p) + acc) (mp_value p) percent in
      (if whole_cents acc < whole_cents acc' then
         [\<lparr>ip_day = mp_date p, ip_interestKey = interest_key bankId (mp_date p),
           ip_amount = whole_cents acc' - whole_cents acc, ip_rate = mp_value p,
           ip_baseBalance = B (mp_date p) + acc, ip_resultingBalance = B (mp_date p) + acc'\<rparr>]
       else []) @ posts D B bankId percent acc' ps)"

text \<open>The last day after which the carry is known: one that posted, or left no carry.\<close>

fun settled_day :: "decimal_lib \<Rightarrow> (day_key \<Rightarrow> rat) \<Rightarrow> rat \<Rightarrow> rat \<Rightarrow> market_point list \<Rightarrow> day_key option \<Rightarrow> day_key option" where
  "settled_day D B percent acc [] through = through"
| "settled_day D B percent acc (p # ps) through =
     (let acc' = acc + exactCdiInterest D (B (mp_date p) + acc) (mp_value p) percent in
      settled_day D B percent acc' ps
        (if whole_cents acc < whole_cents acc' \<or> acc' = whole_cents acc' then Some (mp_date p) else through))"

lemma exact_run_append: "exact_run D B percent acc (ps @ qs) = exact_run D B percent (exact_run D B percent acc ps) qs"
  by (induction ps arbitrary: acc) auto

lemma posts_append:
  "posts D B bankId percent acc (ps @ qs) = posts D B bankId percent acc ps @ posts D B bankId percent (exact_run D B percent acc ps) qs"
  by (induction ps arbitrary: acc) (auto simp: Let_def)

lemma settled_day_append:
  "settled_day D B percent acc (ps @ qs) through
     = settled_day D B percent (exact_run D B percent acc ps) qs (settled_day D B percent acc ps through)"
  by (induction ps arbitrary: acc through) (auto simp: Let_def)

context decimal_arith
begin

lemma exactCdiInterest_nonneg: "0 \<le> exactCdiInterest D b r c"
proof (cases "b \<le> 0 \<or> r \<le> 0 \<or> c \<le> 0")
  case False
  then have "0 \<le> dec_div D (dec_mul D (dec_div D (dec_mul D b r) 100) c) 100"
    by (intro div_nonneg mul_nonneg) auto
  then have "at_places half_up_int 8 0 \<le> at_places half_up_int 8 (dec_div D (dec_mul D (dec_div D (dec_mul D b r) 100) c) 100)"
    by (rule half_up_places_mono)
  with False show ?thesis by (simp add: exactCdiInterest_def places round_places_def at_places_fixed)
qed (simp add: exactCdiInterest_def)

text \<open>No rounding when the products have at most 20 digits and the interest at most eight places.\<close>

lemma exactCdiInterest_exact:
  assumes "0 < b" "0 < r" "0 < c" "fits20 (b * r)" "fits20 (b * r / 100)" "fits20 (b * r / 100 * c)"
    and "on_grid 8 (b * r / 100 * c / 100)" "b * r / 100 * c / 100 < 10 ^ 12"
  shows "exactCdiInterest D b r c = b * r / 100 * c / 100"
proof -
  have small: "fits20 x" if "0 \<le> x" "on_grid 8 x" "x < 10 ^ 12" for x
    using that by (intro grid_fits20 [of 8]) simp_all
  have "0 \<le> b * r / 100 * c / 100" using assms(1-3) by simp
  from small [OF this assms(7,8)] have "fits20 (b * r / 100 * c / 100)" .
  with assms show ?thesis
    by (simp add: exactCdiInterest_def mul_exact div_exact places round_places_def at_places_fixed)
qed

lemma exactCdiInterest_grid: "on_grid 8 (exactCdiInterest D b r c)"
  by (simp add: exactCdiInterest_def places round_places_def)

lemma exact_run_ge: "acc \<le> exact_run D B percent acc ps"
proof (induction ps arbitrary: acc)
  case (Cons p ps)
  show ?case
    using Cons.IH [of "acc + exactCdiInterest D (B (mp_date p) + acc) (mp_value p) percent"]
      exactCdiInterest_nonneg [of "B (mp_date p) + acc" "mp_value p" percent] by simp
qed simp

lemma exact_run_grid: "on_grid 8 acc \<Longrightarrow> on_grid 8 (exact_run D B percent acc ps)"
  by (induction ps arbitrary: acc) (auto intro!: on_grid_plus exactCdiInterest_grid)

text \<open>The posted rows add up to the whole cents the exact run gains.\<close>

lemma posts_sum:
  "0 \<le> acc \<Longrightarrow> (\<Sum>p \<leftarrow> posts D B bankId percent acc ps. ip_amount p)
     = whole_cents (exact_run D B percent acc ps) - whole_cents acc"
proof (induction ps arbitrary: acc)
  case (Cons p ps)
  let ?acc = "acc + exactCdiInterest D (B (mp_date p) + acc) (mp_value p) percent"
  have le: "0 \<le> ?acc" "acc \<le> ?acc" using Cons.prems exactCdiInterest_nonneg by simp_all
  then have "whole_cents acc \<le> whole_cents ?acc" using Cons.prems by (intro whole_cents_mono)
  with Cons.IH [OF le(1)] show ?case by (auto simp: Let_def)
qed simp

text \<open>What is credited before a day and what on later days only enters as a sum: moving whole cents
  from the accrued interest to the ledger changes nothing.\<close>

lemma run_shift:
  assumes "\<And>p. p \<in> set ps \<Longrightarrow> B' (mp_date p) = B (mp_date p) + k" "cents k" "0 \<le> acc - k" "0 \<le> acc"
  shows "posts D B' bankId percent (acc - k) ps = posts D B bankId percent acc ps
    \<and> exact_run D B' percent (acc - k) ps = exact_run D B percent acc ps - k
    \<and> settled_day D B' percent (acc - k) ps th = settled_day D B percent acc ps th"
  using assms(1,3,4)
proof (induction ps arbitrary: acc th)
  case (Cons p ps)
  let ?i = "exactCdiInterest D (B (mp_date p) + acc) (mp_value p) percent"
  have eq: "B' (mp_date p) + (acc - k) = B (mp_date p) + acc" using Cons.prems(1) by simp
  have nn: "0 \<le> acc + ?i - k" "0 \<le> acc + ?i"
    using Cons.prems(2,3) exactCdiInterest_nonneg [of "B (mp_date p) + acc" "mp_value p" percent] by simp_all
  have w: "whole_cents (acc - k) = whole_cents acc - k" "whole_cents (acc + ?i - k) = whole_cents (acc + ?i) - k"
    using whole_cents_shift [OF assms(2)] Cons.prems(2,3) nn by simp_all
  have s: "acc - k + ?i = acc + ?i - k" by simp
  have r: "B' (mp_date p) + (acc + ?i - k) = B (mp_date p) + (acc + ?i)" using eq by simp
  show ?case
    using Cons.IH [of "acc + ?i"] Cons.prems(1) nn
    by (simp add: Let_def eq r s w)
qed simp

section \<open>The loop of the source\<close>

text \<open>One iteration of the loop, from the state in which \<open>acc\<close> has accrued: whole cents posted, the rest
  carried.\<close>

lemma step_arith:
  assumes "cents b" "\<bar>b\<bar> < 10 ^ 11" "0 \<le> acc" "on_grid 8 acc" "on_grid 8 i" "0 \<le> i" "acc + i < 10 ^ 11"
  shows "dec_plus D (dec_plus D b (whole_cents acc)) (acc - whole_cents acc) = b + acc" (is ?base)
    and "dec_plus D (b + acc) i = b + (acc + i)" (is ?resulting)
    and "dec_plus D (acc - whole_cents acc) i = acc + i - whole_cents acc" (is ?total)
    and "dec_places D 2 ROUND_DOWN (acc + i - whole_cents acc) = whole_cents (acc + i) - whole_cents acc" (is ?whole)
    and "dec_minus D (acc + i - whole_cents acc) (whole_cents (acc + i) - whole_cents acc) = acc + i - whole_cents (acc + i)" (is ?rest)
    and "dec_plus D (whole_cents acc) (whole_cents (acc + i) - whole_cents acc) = whole_cents (acc + i)" (is ?sum)
proof -
  note w = whole_cents_bounds [OF assms(3)]
  have nn: "0 \<le> acc + i" using assms(3,6) by simp
  note w' = whole_cents_bounds [OF nn]
  have c8: "on_grid 8 x" if "cents x" for x using on_grid_mono [OF that, of 8] by simp
  have g: "on_grid 8 b" "on_grid 8 (acc + i)" "on_grid 8 (whole_cents acc)" "on_grid 8 (whole_cents (acc + i))"
    using assms(1,4,5) by (auto intro: c8 on_grid_plus)
  have small: "fits20 x" if "on_grid 8 x" "\<bar>x\<bar> < 10 ^ 12" for x
    using that by (intro grid_fits20 [of 8]) simp_all
  have "dec_plus D b (whole_cents acc) = b + whole_cents acc"
    using assms(1,2,3,6,7) w by (intro plus_cents) (auto simp: abs_less_iff)
  moreover have "dec_plus D (b + whole_cents acc) (acc - whole_cents acc) = b + acc"
    using plus_exact [of "b + whole_cents acc" "acc - whole_cents acc"] small [of "b + acc"] assms g
    by (simp add: on_grid_plus abs_less_iff)
  ultimately show ?base by simp
  show ?resulting
    using plus_exact [of "b + acc" i] small [of "b + (acc + i)"] assms g
    by (simp add: on_grid_plus abs_less_iff add.assoc)
  have lt: "\<bar>acc + i - whole_cents acc\<bar> < 10 ^ 12" using w assms by (auto simp: abs_less_iff)
  show ?total
    using plus_exact [of "acc - whole_cents acc" i] small [OF _ lt] g
    by (simp add: on_grid_minus algebra_simps)
  have "whole_cents (acc + i - whole_cents acc) = whole_cents (acc + i) - whole_cents acc"
    using w assms(6) nn by (intro whole_cents_shift) auto
  then show ?whole by (simp add: places round_places_def whole_cents_def)
  have lt': "\<bar>acc + i - whole_cents (acc + i)\<bar> < 10 ^ 12" using w' assms by (auto simp: abs_less_iff)
  show ?rest
    using minus_exact [of "acc + i - whole_cents acc" "whole_cents (acc + i) - whole_cents acc"]
      small [OF _ lt'] g by (simp add: on_grid_minus algebra_simps)
  have "\<bar>whole_cents acc + (whole_cents (acc + i) - whole_cents acc)\<bar> < 10 ^ 18"
    using w' assms by (auto simp: abs_less_iff)
  then show ?sum
    using plus_cents [of "whole_cents acc" "whole_cents (acc + i) - whole_cents acc"]
    by (simp add: on_grid_minus)
qed

end

lemma takeWhile_drop:
  "n \<le> length (takeWhile P xs) \<Longrightarrow> n + length (takeWhile P (drop n xs)) = length (takeWhile P xs)"
proof (induction xs arbitrary: n)
  case (Cons x xs)
  then show ?case by (cases n) (auto split: if_splits)
qed simp

lemma takeWhile_mono_length:
  "(\<And>x. P x \<Longrightarrow> Q x) \<Longrightarrow> length (takeWhile P xs) \<le> length (takeWhile Q xs)"
  by (induction xs) auto

lemma sorted_filter_take:
  "sorted (map f xs) \<Longrightarrow> take (length (takeWhile (\<lambda>d. d \<le> x) (map f xs))) xs = filter (\<lambda>t. f t \<le> x) xs"
proof (induction xs)
  case (Cons t ts)
  show ?case
  proof (cases "f t \<le> x")
    case False
    then have "filter (\<lambda>t. f t \<le> x) ts = []"
      using Cons.prems by (force simp: filter_empty_conv)
    with False show ?thesis by simp
  qed (use Cons in auto)
qed simp

text \<open>The ledger balance at the end of a day.\<close>

definition balance_on :: "tz_offset \<Rightarrow> 'a interest_tx_scheme list \<Rightarrow> day_key \<Rightarrow> rat" where
  "balance_on sp ts day = ledger_sum (filter (\<lambda>t. dayKeyInSaoPaulo sp (it_date t) \<le> day) ts)"

text \<open>The state of the loop when \<open>acc\<close> has accrued.\<close>

definition accrued_state :: "rat \<Rightarrow> interest_posting list \<Rightarrow> day_key option \<Rightarrow> nat \<Rightarrow> accrual_state" where
  "accrued_state acc ps through cursor = \<lparr>as_carry = acc - whole_cents acc, as_postings = ps,
     as_accruedThrough = through, as_postedSum = whole_cents acc, as_cursor = cursor\<rparr>"

context decimal_arith
begin

lemma balance_at_cursor:
  fixes day :: day_key
  assumes "ok_ledger ts" "sorted (map f ts)"
    and n_def: "n = length (takeWhile (\<lambda>d. d \<le> day) (map f ts))"
  shows "(if n > 0 then balancePrefixSums D ts ! (n - 1) else 0) = ledger_sum (filter (\<lambda>t. f t \<le> day) ts)"
proof -
  have le: "n \<le> length ts" unfolding n_def by (metis length_map length_takeWhile_le)
  have "filter (\<lambda>t. f t \<le> day) ts = take n ts"
    using sorted_filter_take [OF assms(2)] by (simp add: n_def)
  moreover have "balancePrefixSums D ts ! (n - 1) = ledger_sum (take n ts)" if "n > 0"
  proof -
    from that le have "n - 1 < length ts" "Suc (n - 1) = n" by simp_all
    then show ?thesis by (simp only: balancePrefixSums_exact [OF assms(1)] nth_map length_upt nth_upt diff_zero add_0)
  qed
  ultimately show ?thesis by (cases "n > 0") auto
qed

lemma accrue_points:
  assumes "ok_ledger ts" "sorted (map (\<lambda>t. dayKeyInSaoPaulo sp (it_date t)) ts)"
    and "\<forall>p \<in> set points. index_by_key ts (interest_key bankId (mp_date p)) = None"
    and "sorted (map mp_date points)" "0 \<le> acc" "on_grid 8 acc"
    and "exact_run D (balance_on sp ts) percent acc points < 10 ^ 11"
    and "\<forall>p \<in> set points. cursor \<le> length (takeWhile (\<lambda>d. d \<le> mp_date p) (map (\<lambda>t. dayKeyInSaoPaulo sp (it_date t)) ts))"
  shows "\<exists>cursor'. foldl (accrue_point D bankId ts (map (\<lambda>t. dayKeyInSaoPaulo sp (it_date t)) ts) (balancePrefixSums D ts) percent)
       (accrued_state acc posted through cursor) points
     = accrued_state (exact_run D (balance_on sp ts) percent acc points)
         (posted @ posts D (balance_on sp ts) bankId percent acc points)
         (settled_day D (balance_on sp ts) percent acc points through) cursor'"
  using assms(3-8)
proof (induction points arbitrary: acc posted through cursor)
  case (Cons p ps)
  let ?day = "\<lambda>t. dayKeyInSaoPaulo sp (it_date t)"
  let ?b = "balance_on sp ts (mp_date p)" and ?n = "length (takeWhile (\<lambda>d. d \<le> mp_date p) (map ?day ts))"
  define i where "i = exactCdiInterest D (?b + acc) (mp_value p) percent"
  have i: "0 \<le> i" "on_grid 8 i" by (simp_all add: i_def exactCdiInterest_nonneg exactCdiInterest_grid)
  have run: "exact_run D (balance_on sp ts) percent (acc + i) ps < 10 ^ 11"
    using Cons.prems(5) by (simp add: i_def)
  then have lt: "acc + i < 10 ^ 11" using exact_run_ge [of "acc + i"] by (rule le_less_trans [rotated])
  have b: "cents ?b" "\<bar>?b\<bar> < 10 ^ 11"
    using ok_ledgerD [OF ok_ledger_filter [OF assms(1)]] by (simp_all add: balance_on_def)
  note arith = step_arith [OF b Cons.prems(3,4) i(2,1) lt]
  have cursor: "cursor + length (takeWhile (\<lambda>d. d \<le> mp_date p) (drop cursor (map ?day ts))) = ?n"
    using Cons.prems(6) by (intro takeWhile_drop) simp
  have bal: "(if 0 < ?n then balancePrefixSums D ts ! (?n - 1) else 0) = ?b"
    using balance_at_cursor [OF assms(1,2) refl] by (simp add: balance_on_def)
  have key: "index_by_key ts (interest_key bankId (mp_date p)) = None" using Cons.prems(1) by simp
  have mono: "whole_cents acc \<le> whole_cents (acc + i)" using Cons.prems(3) i by (intro whole_cents_mono) simp_all
  let ?q = "\<lparr>ip_day = mp_date p, ip_interestKey = interest_key bankId (mp_date p),
     ip_amount = whole_cents (acc + i) - whole_cents acc, ip_rate = mp_value p, ip_baseBalance = ?b + acc,
     ip_resultingBalance = ?b + (acc + i)\<rparr>"
  have step: "accrue_point D bankId ts (map ?day ts) (balancePrefixSums D ts) percent (accrued_state acc posted through cursor) p
    = accrued_state (acc + i) (posted @ (if whole_cents acc < whole_cents (acc + i) then [?q] else []))
        (if whole_cents acc < whole_cents (acc + i) \<or> acc + i = whole_cents (acc + i) then Some (mp_date p) else through) ?n"
    unfolding accrue_point_def accrued_state_def
    using mono
    by (simp only: Let_def accrual_state.simps cursor bal key option.case arith i_def [symmetric]) (auto simp: not_less)
  have "\<exists>cursor'. foldl (accrue_point D bankId ts (map ?day ts) (balancePrefixSums D ts) percent)
      (accrued_state (acc + i) posted' through' ?n) ps
    = accrued_state (exact_run D (balance_on sp ts) percent (acc + i) ps)
         (posted' @ posts D (balance_on sp ts) bankId percent (acc + i) ps)
         (settled_day D (balance_on sp ts) percent (acc + i) ps through') cursor'" for posted' through'
    using Cons.prems i run
    by (intro Cons.IH) (auto intro!: on_grid_plus takeWhile_mono_length intro: order_trans)
  note IH = this
  show ?case
    using IH [of "posted @ (if whole_cents acc < whole_cents (acc + i) then [?q] else [])"
        "if whole_cents acc < whole_cents (acc + i) \<or> acc + i = whole_cents (acc + i) then Some (mp_date p) else through"]
    by (simp only: foldl_Cons step exact_run.simps posts.simps settled_day.simps i_def [symmetric] Let_def append_assoc)
qed auto

end

end
