(* ===== verification/Piggy_Resume.thy ===== *)
theory Piggy_Resume
  imports Piggy_Accrual "HOL-Library.Multiset"
begin

text \<open>
  Runs of the interest loop one after the other. The carry is read back from the last posted row
  and days that posted nothing are replayed; the theory shows that accruing up to a day, storing
  the rows, and accruing again later gives the rows of a single later run.
\<close>

section \<open>Rows and histories\<close>

text \<open>The ledger row that stores a posting.\<close>

definition stores :: "interest_posting \<Rightarrow> 'a interest_tx_scheme \<Rightarrow> bool" where
  "stores p t \<longleftrightarrow> le_type t = ''interest'' \<and> le_amount t = ip_amount p
     \<and> dayKeyToDate (ip_day p) Noon = Inr (it_date t) \<and> it_interestKey t = Some (ip_interestKey p)
     \<and> it_resultingBalance t = Some (ip_resultingBalance p)"

definition dated :: "'a interest_tx_scheme \<Rightarrow> int \<Rightarrow> bool" where
  "dated t n \<longleftrightarrow> ok_day n \<and> it_date t = noon n"

text \<open>A ledger as the query returns it, whose interest rows are all of days before \<open>s\<close>.\<close>

definition interest_history :: "string \<Rightarrow> int \<Rightarrow> 'a interest_tx_scheme list \<Rightarrow> bool" where
  "interest_history bankId s ts \<longleftrightarrow> ok_ledger ts \<and> sorted (map it_date ts)
     \<and> (\<forall>t \<in> set ts. \<exists>n. dated t n
          \<and> (le_type t = ''interest'' \<longrightarrow> n < s)
          \<and> (\<forall>k. it_interestKey t = Some k \<longrightarrow> (\<exists>m < s. ok_day m \<and> k = interest_key bankId (key m)))
          \<and> (\<forall>r. it_resultingBalance t = Some r \<longrightarrow> on_grid 8 r \<and> \<bar>r\<bar> < 2 * 10 ^ 11))"

definition ok_points :: "market_point list \<Rightarrow> bool" where
  "ok_points points \<longleftrightarrow> distinct (map mp_date points) \<and> (\<forall>p \<in> set points. \<exists>n. ok_day n \<and> ok_day (n + 1) \<and> mp_date p = key n)"

lemma interest_key_eq [simp]: "interest_key b x = interest_key b y \<longleftrightarrow> x = y"
  by (simp add: interest_key_def)

lemma index_by_key_None:
  assumes "\<And>t. t \<in> set ts \<Longrightarrow> it_interestKey t \<noteq> Some k"
  shows "index_by_key ts k = None"
proof -
  have "foldl (\<lambda>m (i, t). if truthy (it_interestKey t) then m(the (it_interestKey t) \<mapsto> i) else m) m (enumerate n ts) k = m k"
    for m n
    using assms
  proof (induction ts arbitrary: m n)
    case (Cons t ts)
    then show ?case by (cases "it_interestKey t") (auto simp: truthy_def)
  qed simp
  then show ?thesis by (simp add: index_by_key_def)
qed

section \<open>The stored carry\<close>

lemma stored_carry_skip:
  assumes "\<forall>i. n \<le> i \<and> i < m \<longrightarrow> through < days ! i" "n \<le> m"
  shows "stored_carry D ts days tot through m = stored_carry D ts days tot through n"
  using assms
proof (induction m)
  case (Suc m)
  show ?case
  proof (cases "n = Suc m")
    case False
    then have "through < days ! m" "n \<le> m" using Suc.prems by auto
    then have "\<not> days ! m < through" "days ! m \<noteq> through" by auto
    with Suc \<open>n \<le> m\<close> show ?thesis by simp
  qed simp
qed simp

lemma stored_carry_none:
  assumes "\<forall>i < n. days ! i = through \<longrightarrow> le_type (ts ! i) \<noteq> ''interest''"
  shows "stored_carry D ts days tot through n = 0"
  using assms by (induction n) auto

lemma sort_key_around:
  "sort_key f (xs @ [q]) = sort_key f (filter (\<lambda>x. f x \<le> f q) xs) @ q # sort_key f (filter (\<lambda>x. f q < f x) xs)"
  (is "_ = ?ys")
proof (rule properties_for_sort_key)
  show "mset ?ys = mset (xs @ [q])"
    using multiset_partition [of "mset xs" "\<lambda>x. f x \<le> f q"] by (simp add: not_le)
next
  fix k
  assume "k \<in> set ?ys"
  show "filter (\<lambda>x. f k = f x) ?ys = filter (\<lambda>x. f k = f x) (xs @ [q])"
  proof (cases "f k \<le> f q")
    case True
    have "filter (\<lambda>x. f x = f k) (filter (\<lambda>x. f x \<le> f q) xs) = filter (\<lambda>x. f x = f k) xs"
      "filter (\<lambda>x. f x = f k) (filter (\<lambda>x. f q < f x) xs) = []"
      using True by (auto simp: filter_empty_conv intro: filter_cong)
    then show ?thesis by (auto simp: sort_key_stable eq_commute [of "f k"])
  next
    case False
    have "filter (\<lambda>x. f x = f k) (filter (\<lambda>x. f x \<le> f q) xs) = []"
      "filter (\<lambda>x. f x = f k) (filter (\<lambda>x. f q < f x) xs) = filter (\<lambda>x. f x = f k) xs"
      using False by (auto simp: filter_empty_conv not_le intro: filter_cong)
    then show ?thesis using False by (auto simp: sort_key_stable eq_commute [of "f k"])
  qed
next
  show "sorted (map f ?ys)" by (auto simp: sorted_append)
qed

lemma interest_historyD:
  assumes "interest_history bankId s ts"
  shows "ok_ledger ts" "sorted (map it_date ts)"
    and "t \<in> set ts \<Longrightarrow> \<exists>n. dated t n"
    and "t \<in> set ts \<Longrightarrow> le_type t = ''interest'' \<Longrightarrow> dated t n \<Longrightarrow> n < s"
    and "t \<in> set ts \<Longrightarrow> it_interestKey t = Some k \<Longrightarrow> \<exists>m < s. ok_day m \<and> k = interest_key bankId (key m)"
    and "t \<in> set ts \<Longrightarrow> it_resultingBalance t = Some r \<Longrightarrow> on_grid 8 r \<and> \<bar>r\<bar> < 2 * 10 ^ 11"
  using assms by (force simp: interest_history_def dated_def)+

context sao_paulo_offset
begin

lemma dated_key: "dated t n \<Longrightarrow> dayKeyInSaoPaulo sp (it_date t) = key n"
  by (simp add: dated_def local_noon)

lemma sorted_days:
  assumes "interest_history bankId s ts"
  shows "sorted (map (\<lambda>t. dayKeyInSaoPaulo sp (it_date t)) ts)"
proof -
  have "sorted_wrt (\<lambda>x y. it_date x \<le> it_date y) ts"
    using interest_historyD(2) [OF assms] by (simp add: sorted_map)
  then show ?thesis unfolding sorted_map
  proof (rule sorted_wrt_mono_rel [rotated])
    fix x y
    assume "x \<in> set ts" "y \<in> set ts" "it_date x \<le> it_date y"
    moreover obtain m n where "dated x m" "dated y n"
      using interest_historyD(3) [OF assms] \<open>x \<in> set ts\<close> \<open>y \<in> set ts\<close> by blast
    ultimately show "dayKeyInSaoPaulo sp (it_date x) \<le> dayKeyInSaoPaulo sp (it_date y)"
      by (simp add: dated_key key_le) (simp add: dated_def key_le)
  qed
qed

end

section \<open>One run\<close>

text \<open>The carry a run starts from.\<close>

definition initial_carry :: "decimal_lib \<Rightarrow> tz_offset \<Rightarrow> 'a interest_tx_scheme list \<Rightarrow> day_key option \<Rightarrow> rat" where
  "initial_carry D sp ts through = (case through of
     None \<Rightarrow> 0
   | Some k \<Rightarrow> if k = [] then 0
       else stored_carry D ts (map (\<lambda>t. dayKeyInSaoPaulo sp (it_date t)) ts) (balancePrefixSums D ts) k (length ts))"

lemma selected_sorted: "sorted (map mp_date (selected_points a b points))"
  by (simp add: selected_points_def)

lemma selected_between: "p \<in> set (selected_points a b points) \<longleftrightarrow> p \<in> set points \<and> a \<le> mp_date p \<and> mp_date p \<le> b"
  by (auto simp: selected_points_def)

context decimal_arith
begin

lemma carry_after_range:
  assumes "\<And>r. it_resultingBalance (ts ! i) = Some r \<Longrightarrow> on_grid 8 r \<and> \<bar>r\<bar> < 2 * 10 ^ 11"
    and "cents (tot ! i)" "\<bar>tot ! i\<bar> < 10 ^ 11"
  shows "0 \<le> carry_after D ts tot i \<and> carry_after D ts tot i < CENT \<and> on_grid 8 (carry_after D ts tot i)"
proof (cases "it_resultingBalance (ts ! i)")
  case (Some r)
  have g: "on_grid 8 (r - tot ! i)"
    using assms(1) [OF Some] on_grid_mono [OF assms(2), of 8] by (simp add: on_grid_minus)
  moreover have "\<bar>r - tot ! i\<bar> * 10 ^ 8 < 10 ^ 20" using assms(1) [OF Some] assms(3) by (simp add: abs_less_iff)
  ultimately have "dec_minus D r (tot ! i) = r - tot ! i" by (intro minus_exact grid_fits20)
  with g Some show ?thesis by (simp add: carry_after_def Let_def CENT_def)
qed (simp add: carry_after_def CENT_def)

lemma stored_carry_range:
  assumes "ok_ledger ts" "\<And>t r. t \<in> set ts \<Longrightarrow> it_resultingBalance t = Some r \<Longrightarrow> on_grid 8 r \<and> \<bar>r\<bar> < 2 * 10 ^ 11"
    and "n \<le> length ts" "c = stored_carry D ts days (balancePrefixSums D ts) through n"
  shows "0 \<le> c \<and> c < CENT \<and> on_grid 8 c"
  using assms(3) unfolding assms(4)
proof (induction n)
  case (Suc i)
  have tot: "balancePrefixSums D ts ! i = ledger_sum (take (Suc i) ts)"
    using Suc.prems by (simp add: balancePrefixSums_exact [OF assms(1)])
  have "ok_ledger (take (Suc i) ts)" by (rule ok_ledger_append [of _ "drop (Suc i) ts"]) (simp add: assms(1))
  note ok_ledgerD [OF this]
  moreover have "ts ! i \<in> set ts" using Suc.prems by simp
  ultimately have "0 \<le> carry_after D ts (balancePrefixSums D ts) i \<and> carry_after D ts (balancePrefixSums D ts) i < CENT
      \<and> on_grid 8 (carry_after D ts (balancePrefixSums D ts) i)"
    using assms(2) by (intro carry_after_range) (auto simp: tot)
  with Suc show ?case by (auto simp: CENT_def)
qed (simp add: CENT_def)

lemma initial_carry_range:
  assumes "interest_history bankId s ts" and c_def: "c = initial_carry D sp ts through"
  shows "0 \<le> c" "c < CENT" "on_grid 8 c" "whole_cents c = 0"
proof -
  have r: "0 \<le> c \<and> c < CENT \<and> on_grid 8 c"
    unfolding c_def initial_carry_def
    using stored_carry_range [OF interest_historyD(1) [OF assms(1)] interest_historyD(6) [OF assms(1)] order_refl refl]
    by (auto simp: CENT_def split: option.split)
  then show "0 \<le> c" "c < CENT" "on_grid 8 c" by simp_all
  then show "whole_cents c = 0" by (simp add: whole_cents_small)
qed

lemma settled_day_cases:
  assumes "0 \<le> acc"
  shows "settled_day D B percent acc ps through = through \<and> posts D B bankId percent acc ps = []
    \<or> (\<exists>qs p rs. ps = qs @ p # rs \<and> settled_day D B percent acc ps through = Some (mp_date p)
        \<and> posts D B bankId percent (exact_run D B percent acc (qs @ [p])) rs = []
        \<and> (whole_cents (exact_run D B percent acc qs) < whole_cents (exact_run D B percent acc (qs @ [p]))
          \<or> exact_run D B percent acc (qs @ [p]) = whole_cents (exact_run D B percent acc (qs @ [p]))))"
  using assms
proof (induction ps arbitrary: acc through)
  case (Cons p ps)
  define acc' where "acc' = acc + exactCdiInterest D (B (mp_date p) + acc) (mp_value p) percent"
  define here where "here \<longleftrightarrow> whole_cents acc < whole_cents acc' \<or> acc' = whole_cents acc'"
  have "0 \<le> acc'" using Cons.prems exactCdiInterest_nonneg by (simp add: acc'_def)
  from Cons.IH [OF this, of "if here then Some (mp_date p) else through"] show ?case
  proof
    assume l: "settled_day D B percent acc' ps (if here then Some (mp_date p) else through) = (if here then Some (mp_date p) else through)
      \<and> posts D B bankId percent acc' ps = []"
    show ?thesis
    proof (cases here)
      case True
      with l show ?thesis
        by (intro disjI2 exI [of _ "[]"] exI [of _ p] exI [of _ ps]) (auto simp: Let_def acc'_def [symmetric] here_def)
    next
      case False
      with l show ?thesis by (intro disjI1) (auto simp: Let_def acc'_def [symmetric] here_def)
    qed
  next
    assume "\<exists>qs x rs. ps = qs @ x # rs
      \<and> settled_day D B percent acc' ps (if here then Some (mp_date p) else through) = Some (mp_date x)
      \<and> posts D B bankId percent (exact_run D B percent acc' (qs @ [x])) rs = []
      \<and> (whole_cents (exact_run D B percent acc' qs) < whole_cents (exact_run D B percent acc' (qs @ [x]))
        \<or> exact_run D B percent acc' (qs @ [x]) = whole_cents (exact_run D B percent acc' (qs @ [x])))"
    then obtain qs x rs where h: "ps = qs @ x # rs"
      "settled_day D B percent acc' ps (if here then Some (mp_date p) else through) = Some (mp_date x)"
      "posts D B bankId percent (exact_run D B percent acc' (qs @ [x])) rs = []"
      "whole_cents (exact_run D B percent acc' qs) < whole_cents (exact_run D B percent acc' (qs @ [x]))
        \<or> exact_run D B percent acc' (qs @ [x]) = whole_cents (exact_run D B percent acc' (qs @ [x]))"
      by blast
    then show ?thesis
      by (intro disjI2 exI [of _ "p # qs"] exI [of _ x] exI [of _ rs]) (simp add: Let_def acc'_def [symmetric] here_def)
  qed
qed simp

end

lemma list_all2_source: "list_all2 P xs ys \<Longrightarrow> y \<in> set ys \<Longrightarrow> \<exists>x \<in> set xs. P x y"
  by (induction xs ys rule: list_all2_induct) auto

lemma ledger_sum_mset: "mset xs = mset ys \<Longrightarrow> ledger_sum xs = ledger_sum ys"
  unfolding ledger_sum_def by (metis mset_map sum_mset_sum_list)

lemma ledger_sum_sort [simp]: "ledger_sum (sort_key f xs) = ledger_sum xs"
  by (rule ledger_sum_mset) simp

lemma ok_ledger_sort [simp]: "ok_ledger (sort_key f xs) = ok_ledger xs"
proof -
  have "(\<Sum>t \<leftarrow> sort_key f xs. le_amount t) = (\<Sum>t \<leftarrow> xs. le_amount t)"
    by (metis mset_map mset_sort sum_mset_sum_list)
  then show ?thesis by (simp add: ok_ledger_def list_all_iff)
qed

lemma balance_on_rows:
  "balance_on sp (sort_key f (ts @ rows)) day
     = balance_on sp ts day + ledger_sum (filter (\<lambda>t. dayKeyInSaoPaulo sp (it_date t) \<le> day) rows)"
  by (simp add: balance_on_def filter_sort)

lemma selected_upto:
  assumes "t1 \<le> t2"
  shows "selected_points a t1 points = filter (\<lambda>p. mp_date p \<le> t1) (selected_points a t2 points)"
proof -
  have "filter (\<lambda>p. a \<le> mp_date p \<and> mp_date p \<le> t1) points
      = filter (\<lambda>p. mp_date p \<le> t1) (filter (\<lambda>p. a \<le> mp_date p \<and> mp_date p \<le> t2) points)"
    using assms by (auto intro!: filter_cong)
  then show ?thesis by (simp add: selected_points_def filter_sort)
qed

lemma sorted_filter_split:
  fixes f :: "'a \<Rightarrow> 'b :: linorder"
  assumes "sorted (map f xs)"
  shows "xs = filter (\<lambda>x. f x \<le> v) xs @ filter (\<lambda>x. v < f x) xs"
  using assms
proof (induction xs)
  case (Cons x xs)
  show ?case
  proof (cases "f x \<le> v")
    case False
    then have "filter (\<lambda>x. f x \<le> v) xs = []" "filter (\<lambda>x. v < f x) xs = xs"
      using Cons.prems by (force simp: filter_empty_conv filter_id_conv)+
    with False show ?thesis by simp
  qed (use Cons in simp)
qed simp

lemma strictly_sorted_around:
  assumes "xs = qs @ p # rs" "sorted (map f xs)" "distinct (map f xs)"
  shows "x \<in> set qs \<Longrightarrow> f x < f p" "x \<in> set rs \<Longrightarrow> f p < f x"
  using assms by (auto simp: sorted_append image_iff order_less_le dest: bspec)

context decimal_arith
begin

lemma posts_rows:
  assumes "q \<in> set (posts D B bankId percent acc ps)" "0 \<le> acc" "on_grid 8 acc"
    and "\<And>day. cents (B day) \<and> \<bar>B day\<bar> < 10 ^ 11" "exact_run D B percent acc ps < 10 ^ 11"
  shows "ip_day q \<in> mp_date ` set ps \<and> ip_interestKey q = interest_key bankId (ip_day q)
    \<and> on_grid 8 (ip_resultingBalance q) \<and> \<bar>ip_resultingBalance q\<bar> < 2 * 10 ^ 11"
  using assms(1,2,3,5)
proof (induction ps arbitrary: acc)
  case (Cons p ps)
  define acc' where "acc' = acc + exactCdiInterest D (B (mp_date p) + acc) (mp_value p) percent"
  have acc': "0 \<le> acc'" "on_grid 8 acc'"
    using Cons.prems exactCdiInterest_nonneg exactCdiInterest_grid by (simp_all add: acc'_def on_grid_plus)
  have run: "exact_run D B percent acc' ps < 10 ^ 11" using Cons.prems(4) by (simp add: acc'_def)
  have "acc' < 10 ^ 11" using run exact_run_ge [of acc'] by (rule le_less_trans [rotated])
  moreover have "on_grid 8 (B (mp_date p))" using assms(4) on_grid_mono [of 2 _ 8] by simp
  ultimately have "on_grid 8 (B (mp_date p) + acc')" "\<bar>B (mp_date p) + acc'\<bar> < 2 * 10 ^ 11"
    using acc' assms(4) [of "mp_date p"] by (auto simp: on_grid_plus abs_less_iff)
  with Cons.IH [OF _ acc' run] Cons.prems(1) show ?case
    by (auto simp: Let_def acc'_def [symmetric] split: if_splits)
qed simp

end

locale piggy_accrual = decimal_arith D + sao_paulo_offset sp for D sp
begin

text \<open>The run of the source is the exact run, posted in whole cents.\<close>

lemma accrue_eq:
  fixes ts :: "'a interest_tx_scheme list"
  assumes h: "interest_history bankId s ts" "ok_points points" "ok_day s"
    and c_def: "c = initial_carry D sp ts through"
    and sel_def: "sel = selected_points (key s) targetKey points"
    and B_def: "B = balance_on sp ts"
    and bound: "exact_run D B percent c sel < 10 ^ 11"
  shows "accrueCdiInterest D sp bankId ts through points percent (key s) targetKey
    = \<lparr>ia_postings = posts D B bankId percent c sel, ia_accruedThrough = settled_day D B percent c sel None,
       ia_carry = exact_run D B percent c sel - whole_cents (exact_run D B percent c sel)\<rparr>"
proof -
  note c = initial_carry_range [OF h(1) c_def]
  have fresh: "index_by_key ts (interest_key bankId (mp_date p)) = None" if "p \<in> set sel" for p
  proof (rule index_by_key_None)
    fix t
    assume t: "t \<in> set ts"
    have "p \<in> set points" "key s \<le> mp_date p" using that by (simp_all add: sel_def selected_between)
    moreover from this(1) obtain n where "ok_day n" "mp_date p = key n"
      using h(2) unfolding ok_points_def by blast
    ultimately have n: "ok_day n" "mp_date p = key n" "key s \<le> mp_date p" by simp_all
    then have "s \<le> n" using h(3) by (simp add: key_le)
    show "it_interestKey t \<noteq> Some (interest_key bankId (mp_date p))"
    proof
      assume "it_interestKey t = Some (interest_key bankId (mp_date p))"
      from interest_historyD(5) [OF h(1) t this] n \<open>s \<le> n\<close> show False by (auto simp: key_eq)
    qed
  qed
  obtain cursor where
    "foldl (accrue_point D bankId ts (map (\<lambda>t. dayKeyInSaoPaulo sp (it_date t)) ts) (balancePrefixSums D ts) percent)
       (accrued_state c [] None 0) sel
     = accrued_state (exact_run D B percent c sel) (posts D B bankId percent c sel) (settled_day D B percent c sel None) cursor"
    using accrue_points [OF interest_historyD(1) [OF h(1)] sorted_days [OF h(1)], of sel bankId c percent 0 "[]" None]
      fresh c bound by (auto simp: sel_def selected_sorted B_def)
  moreover have "accrued_state c [] None 0
      = \<lparr>as_carry = c, as_postings = [], as_accruedThrough = None, as_postedSum = 0, as_cursor = 0\<rparr>"
    using c by (simp add: accrued_state_def)
  ultimately show ?thesis
    by (simp add: accrueCdiInterest_def Let_def c_def initial_carry_def sel_def [symmetric] accrued_state_def cong: option.case_cong)
qed

end

section \<open>A later run\<close>

text \<open>
  The run after the one that returned \<open>accrual\<close>: its rows are stored, the bank's accrued-through day is
  the new one if there is one, and the run starts on the day after it.
\<close>

definition next_run ::
    "decimal_lib \<Rightarrow> tz_offset \<Rightarrow> string \<Rightarrow> 'a interest_tx_scheme list \<Rightarrow> 'a interest_tx_scheme list \<Rightarrow> interest_accrual
     \<Rightarrow> day_key option \<Rightarrow> market_point list \<Rightarrow> rat \<Rightarrow> day_key \<Rightarrow> day_key \<Rightarrow> interest_accrual res" where
  "next_run D sp bankId ts rows accrual through points percent startKey targetKey =
     (let ts' = sort_key it_date (ts @ rows) in
      case ia_accruedThrough accrual of
        None \<Rightarrow> Inr (accrueCdiInterest D sp bankId ts' through points percent startKey targetKey)
      | Some k \<Rightarrow> res_bind (addDaysToKey k 1) (\<lambda>startKey'.
          Inr (accrueCdiInterest D sp bankId ts' (Some k) points percent startKey' targetKey)))"

context piggy_accrual
begin

lemma stored_dated:
  assumes "stores q t" "ip_day q = key n" "ok_day n"
  shows "dated t n" "le_type t = ''interest''" "signed t = ip_amount q"
  using assms by (auto simp: stores_def dated_def dayKeyToDate_noon signed_def signedAmount_def)

text \<open>The carry read back from the rows of a run is the fraction of a cent it left.\<close>

lemma carry_read_back:
  fixes ts rows :: "'a interest_tx_scheme list"
  assumes h: "interest_history bankId s ts" "ok_ledger (ts @ rows)" and m: "ok_day m" "s \<le> m"
    and rows: "list_all2 stores (posts D (balance_on sp ts) bankId percent c (qs @ [p])) rows"
    and p: "mp_date p = key m" and c: "0 \<le> c" "on_grid 8 c" "whole_cents c = 0"
    and before: "\<And>q. q \<in> set qs \<Longrightarrow> \<exists>n. ok_day n \<and> mp_date q = key n \<and> n < m"
    and settled: "whole_cents (exact_run D (balance_on sp ts) percent c qs) < whole_cents accrued \<or> accrued = whole_cents accrued"
    and accrued: "accrued = exact_run D (balance_on sp ts) percent c (qs @ [p])" "accrued < 10 ^ 11"
  shows "initial_carry D sp (sort_key it_date (ts @ rows)) (Some (key m)) = accrued - whole_cents accrued"
proof -
  let ?B = "balance_on sp ts" and ?day = "\<lambda>t. dayKeyInSaoPaulo sp (it_date t)"
  let ?ts = "sort_key it_date (ts @ rows)"
  have key_ne: "key m \<noteq> []" using m(1) parseDayKey_key [of m] by (auto simp: parseDayKey_def match_day_key_def)
  have start: "initial_carry D sp ?ts (Some (key m))
      = stored_carry D ?ts (map ?day ?ts) (balancePrefixSums D ?ts) (key m) (length ?ts)"
    using key_ne by (simp add: initial_carry_def)
  have okb: "cents (?B d) \<and> \<bar>?B d\<bar> < 10 ^ 11" for d
    using ok_ledgerD [OF ok_ledger_filter [OF interest_historyD(1) [OF h(1)]]] by (simp add: balance_on_def)
  have run_qs: "exact_run D ?B percent c qs < 10 ^ 11"
    using accrued exact_run_ge [of "exact_run D ?B percent c qs" ?B percent "[p]"]
    by (simp only: exact_run_append)
  have early: "\<exists>n. dated t n \<and> n < m" if st: "stores q t" and q: "q \<in> set (posts D ?B bankId percent c qs)" for q t
  proof -
    obtain x where "x \<in> set qs" "ip_day q = mp_date x"
      using posts_rows [OF q c(1,2) okb run_qs] by auto
    with before [of x] obtain n where "ok_day n" "ip_day q = key n" "n < m" by auto
    with stored_dated(1) [OF st] show ?thesis by blast
  qed
  have old: "\<exists>n. dated t n \<and> (le_type t = ''interest'' \<longrightarrow> n < m)" if "t \<in> set ts" for t
    using interest_historyD(3,4) [OF h(1) that] m(2) by force
  show ?thesis
  proof (cases "whole_cents (exact_run D ?B percent c qs) < whole_cents accrued")
    case True
    define q where "q = \<lparr>ip_day = key m, ip_interestKey = interest_key bankId (key m),
      ip_amount = whole_cents accrued - whole_cents (exact_run D ?B percent c qs), ip_rate = mp_value p,
      ip_baseBalance = ?B (key m) + exact_run D ?B percent c qs, ip_resultingBalance = ?B (key m) + accrued\<rparr>"
    have "posts D ?B bankId percent c (qs @ [p]) = posts D ?B bankId percent c qs @ [q]"
      using True by (simp add: posts_append exact_run_append accrued(1) Let_def p q_def)
    with rows obtain ra t where r: "rows = ra @ [t]" "list_all2 stores (posts D ?B bankId percent c qs) ra" "stores q t"
      by (auto simp: list_all2_append1 list_all2_Cons1)
    have t: "dated t m" "le_type t = ''interest''" "signed t = ip_amount q" "it_resultingBalance t = Some (?B (key m) + accrued)"
      using stored_dated [OF r(3)] r(3) m(1) by (auto simp: q_def stores_def)
    have early_ra: "\<exists>n. dated u n \<and> n < m" if "u \<in> set ra" for u
      using list_all2_source [OF r(2) that] early by blast
    let ?L = "sort_key it_date (filter (\<lambda>x. it_date x \<le> it_date t) (ts @ ra))"
      and ?R = "sort_key it_date (filter (\<lambda>x. it_date t < it_date x) (ts @ ra))"
    have split: "?ts = ?L @ t # ?R" using sort_key_around [of it_date "ts @ ra" t] by (simp add: r(1))
    have tm: "it_date t = noon m" using t(1) by (simp add: dated_def)
    have ra_le: "filter (\<lambda>x. it_date x \<le> it_date t) ra = ra"
      using early_ra by (force simp: filter_id_conv dated_def tm)
    have late: "key m < ?day u" if "u \<in> set ?R" for u
    proof -
      from that have u: "u \<in> set ts \<union> set ra" "noon m < it_date u" by (auto simp: tm)
      then obtain n where n: "dated u n" using old early_ra by blast
      with u(2) have "m < n" by (simp add: dated_def)
      with n m(1) show ?thesis using dated_key [OF n] by (simp add: dated_def key_less)
    qed
    have at: "?ts ! length ?L = t" "length ?L < length ?ts"
      by (simp_all only: split nth_append_length length_append list.size)
    have "stored_carry D ?ts (map ?day ?ts) (balancePrefixSums D ?ts) (key m) (length ?ts)
        = stored_carry D ?ts (map ?day ?ts) (balancePrefixSums D ?ts) (key m) (Suc (length ?L))"
    proof (rule stored_carry_skip)
      show "\<forall>i. Suc (length ?L) \<le> i \<and> i < length ?ts \<longrightarrow> key m < map ?day ?ts ! i"
      proof (intro allI impI)
        fix i
        assume i: "Suc (length ?L) \<le> i \<and> i < length ?ts"
        then have "?ts ! i = ?R ! (i - Suc (length ?L))" "i - Suc (length ?L) < length ?R"
          unfolding split by (auto simp: nth_append nth_Cons' less_diff_conv2)
        then show "key m < map ?day ?ts ! i" using late [of "?ts ! i"] i by (metis nth_map nth_mem)
      qed
    qed (simp add: split)
    also have "\<dots> = carry_after D ?ts (balancePrefixSums D ?ts) (length ?L)"
    proof -
      have "map ?day ?ts ! length ?L = key m" using dated_key [OF t(1)] at by (simp only: nth_map)
      with at t(2) show ?thesis by simp
    qed
    also have "\<dots> = accrued - whole_cents accrued"
    proof -
      have "take (Suc (length ?L)) ?ts = ?L @ [t]" unfolding split by simp
      then have "balancePrefixSums D ?ts ! length ?L = ledger_sum (?L @ [t])"
        using at(2) h(2) by (simp add: balancePrefixSums_exact del: length_sort)
      also have "\<dots> = ledger_sum (filter (\<lambda>x. it_date x \<le> it_date t) ts) + ledger_sum ra + signed t"
        by (simp only: ledger_sum_simps ledger_sum_sort filter_append ra_le)
      also have "ledger_sum (filter (\<lambda>x. it_date x \<le> it_date t) ts) = ?B (key m)"
      proof -
        have "filter (\<lambda>x. it_date x \<le> it_date t) ts = filter (\<lambda>x. ?day x \<le> key m) ts"
        proof (rule filter_cong [OF refl])
          fix x
          assume "x \<in> set ts"
          then obtain n where n: "dated x n" using old by blast
          then show "it_date x \<le> it_date t \<longleftrightarrow> ?day x \<le> key m"
            using dated_key [OF n] m(1) by (simp add: dated_def key_le tm)
        qed
        then show ?thesis by (simp add: balance_on_def)
      qed
      also have "ledger_sum ra = whole_cents (exact_run D ?B percent c qs)"
      proof -
        have "map signed ra = map ip_amount (posts D ?B bankId percent c qs)"
          using r(2) by (auto simp: list_all2_conv_all_nth stores_def signed_def signedAmount_def intro!: nth_equalityI)
        then show ?thesis using posts_sum [OF c(1), of ?B bankId percent qs] c(3) by (simp add: ledger_sum_def)
      qed
      finally have tot: "balancePrefixSums D ?ts ! length ?L = ?B (key m) + whole_cents accrued"
        by (simp add: t(3) q_def)
      have "0 \<le> accrued" using c(1) exact_run_ge [of c ?B percent "qs @ [p]"] by (simp add: accrued(1))
      note w = whole_cents_bounds [OF this]
      have g: "on_grid 8 (accrued - whole_cents accrued)"
        using c(2) exact_run_grid [of c] on_grid_mono [OF whole_cents_cents, of 8 accrued]
        by (auto simp: accrued(1) intro!: on_grid_minus)
      have "fits20 (accrued - whole_cents accrued)"
        using g w(2,3) by (intro grid_fits20 [of 8]) (auto simp: CENT_def abs_less_iff)
      then have "dec_minus D (?B (key m) + accrued) (?B (key m) + whole_cents accrued) = accrued - whole_cents accrued"
        using minus_exact [of "?B (key m) + accrued" "?B (key m) + whole_cents accrued"] by simp
      with w at(1) t(4) tot show ?thesis by (simp add: carry_after_def Let_def)
    qed
    finally show ?thesis using start by simp
  next
    case False
    with settled have whole: "accrued = whole_cents accrued" by simp
    have "posts D ?B bankId percent c (qs @ [p]) = posts D ?B bankId percent c qs"
      using False by (simp add: posts_append exact_run_append accrued(1) Let_def)
    with rows have "list_all2 stores (posts D ?B bankId percent c qs) rows" by simp
    then have early_rows: "\<exists>n. dated u n \<and> n < m" if "u \<in> set rows" for u
      using list_all2_source [OF _ that] early by blast
    have "stored_carry D ?ts (map ?day ?ts) (balancePrefixSums D ?ts) (key m) (length ?ts) = 0"
    proof (rule stored_carry_none, intro allI impI)
      fix i
      assume i: "i < length ?ts" "map ?day ?ts ! i = key m"
      then have "?ts ! i \<in> set ts \<union> set rows" by (metis nth_mem set_append set_sort)
      then obtain n where n: "dated (?ts ! i) n" "le_type (?ts ! i) = ''interest'' \<longrightarrow> n < m"
        using old early_rows by blast
      then have "key n = key m" using dated_key [OF n(1)] i by simp
      with n m(1) show "le_type (?ts ! i) \<noteq> ''interest''" by (auto simp: dated_def key_eq)
    qed
    with start whole show ?thesis by simp
  qed
qed

text \<open>The history after a run: the rows are as old as its accrued-through day.\<close>

lemma history_after:
  fixes ts rows :: "'a interest_tx_scheme list"
  assumes h: "interest_history bankId s ts" "ok_ledger (ts @ rows)" and m: "ok_day m" "s \<le> m"
    and rows: "list_all2 stores (posts D (balance_on sp ts) bankId percent c ps) rows"
    and c: "0 \<le> c" "on_grid 8 c" "exact_run D (balance_on sp ts) percent c ps < 10 ^ 11"
    and days: "\<And>q. q \<in> set ps \<Longrightarrow> \<exists>n. ok_day n \<and> mp_date q = key n \<and> n \<le> m"
  shows "interest_history bankId (m + 1) (sort_key it_date (ts @ rows))"
proof -
  let ?B = "balance_on sp ts"
  have okb: "cents (?B d) \<and> \<bar>?B d\<bar> < 10 ^ 11" for d
    using ok_ledgerD [OF ok_ledger_filter [OF interest_historyD(1) [OF h(1)]]] by (simp add: balance_on_def)
  have new: "\<exists>n. dated t n \<and> n < m + 1
      \<and> it_interestKey t = Some (interest_key bankId (key n)) \<and> ok_day n
      \<and> (\<forall>r. it_resultingBalance t = Some r \<longrightarrow> on_grid 8 r \<and> \<bar>r\<bar> < 2 * 10 ^ 11)" if t: "t \<in> set rows" for t
  proof -
    obtain q where q: "q \<in> set (posts D ?B bankId percent c ps)" "stores q t"
      using list_all2_source [OF rows t] by blast
    note p = posts_rows [OF q(1) c(1,2) okb c(3)]
    then obtain x where "x \<in> set ps" "ip_day q = mp_date x" by auto
    with days obtain n where n: "ok_day n" "ip_day q = key n" "n \<le> m" by fastforce
    with stored_dated(1) [OF q(2) n(2,1)] p q(2) show ?thesis by (auto simp: stores_def)
  qed
  have old: "\<exists>n. dated t n \<and> (le_type t = ''interest'' \<longrightarrow> n < m + 1)
      \<and> (\<forall>k. it_interestKey t = Some k \<longrightarrow> (\<exists>j < m + 1. ok_day j \<and> k = interest_key bankId (key j)))
      \<and> (\<forall>r. it_resultingBalance t = Some r \<longrightarrow> on_grid 8 r \<and> \<bar>r\<bar> < 2 * 10 ^ 11)" if t: "t \<in> set ts" for t
  proof -
    from h(1) t obtain n where n: "dated t n" "le_type t = ''interest'' \<longrightarrow> n < s"
      "\<forall>k. it_interestKey t = Some k \<longrightarrow> (\<exists>j < s. ok_day j \<and> k = interest_key bankId (key j))"
      "\<forall>r. it_resultingBalance t = Some r \<longrightarrow> on_grid 8 r \<and> \<bar>r\<bar> < 2 * 10 ^ 11"
      unfolding interest_history_def by blast
    moreover have "\<exists>j < m + 1. ok_day j \<and> k = interest_key bankId (key j)" if "it_interestKey t = Some k" for k
      using n(3) that m(2) by (meson less_le_trans zle_add1_eq_le order_less_imp_le)
    ultimately show ?thesis using m(2) by (intro exI [of _ n]) auto
  qed
  show ?thesis
    unfolding interest_history_def set_sort set_append
  proof (intro conjI ballI)
    fix t
    assume "t \<in> set ts \<union> set rows"
    then consider "t \<in> set ts" | "t \<in> set rows" by blast
    then show "\<exists>n. dated t n \<and> (le_type t = ''interest'' \<longrightarrow> n < m + 1)
      \<and> (\<forall>k. it_interestKey t = Some k \<longrightarrow> (\<exists>j < m + 1. ok_day j \<and> k = interest_key bankId (key j)))
      \<and> (\<forall>r. it_resultingBalance t = Some r \<longrightarrow> on_grid 8 r \<and> \<bar>r\<bar> < 2 * 10 ^ 11)"
    proof cases
      case 2
      from new [OF this] obtain n where "dated t n" "n < m + 1" "it_interestKey t = Some (interest_key bankId (key n))" "ok_day n"
        "\<forall>r. it_resultingBalance t = Some r \<longrightarrow> on_grid 8 r \<and> \<bar>r\<bar> < 2 * 10 ^ 11" by blast
      then show ?thesis by (intro exI [of _ n]) auto
    qed (rule old)
  qed (simp_all add: h(2))
qed

lemma resumed_run:
  fixes ts rows :: "'a interest_tx_scheme list"
  assumes h: "interest_history bankId s ts" "ok_points points" "ok_day s" "ok_ledger (ts @ rows)"
    and t: "t1 \<le> t2"
    and bound: "exact_run D (balance_on sp ts) percent (initial_carry D sp ts through)
      (selected_points (key s) t2 points) < 10 ^ 11"
    and first: "first = accrueCdiInterest D sp bankId ts through points percent (key s) t1"
    and rows: "list_all2 stores (ia_postings first) rows"
  shows "\<exists>second. next_run D sp bankId ts rows first through points percent (key s) t2 = Inr second
    \<and> ia_postings (accrueCdiInterest D sp bankId ts through points percent (key s) t2) = ia_postings first @ ia_postings second
    \<and> ia_carry (accrueCdiInterest D sp bankId ts through points percent (key s) t2) = ia_carry second"
proof -
  let ?B = "balance_on sp ts" and ?ts = "sort_key it_date (ts @ rows)"
  define c where "c = initial_carry D sp ts through"
  define sel2 where "sel2 = selected_points (key s) t2 points"
  define sel1 where "sel1 = filter (\<lambda>p. mp_date p \<le> t1) sel2"
  define later where "later = filter (\<lambda>p. t1 < mp_date p) sel2"
  have sel: "selected_points (key s) t1 points = sel1" "sel2 = sel1 @ later"
    using selected_upto [OF t] sorted_filter_split [OF selected_sorted] by (simp_all add: sel1_def later_def sel2_def)
  note c = initial_carry_range [OF h(1) c_def]
  have run2: "exact_run D ?B percent c sel2 < 10 ^ 11" using bound by (simp add: c_def sel2_def)
  then have run1: "exact_run D ?B percent c sel1 < 10 ^ 11"
    using exact_run_ge [of "exact_run D ?B percent c sel1" ?B percent later]
    by (simp add: sel(2) exact_run_append)
  have direct: "accrueCdiInterest D sp bankId ts through points percent (key s) t2
    = \<lparr>ia_postings = posts D ?B bankId percent c sel2, ia_accruedThrough = settled_day D ?B percent c sel2 None,
       ia_carry = exact_run D ?B percent c sel2 - whole_cents (exact_run D ?B percent c sel2)\<rparr>"
    by (rule accrue_eq [OF h(1-3) c_def sel2_def refl run2])
  have one: "first = \<lparr>ia_postings = posts D ?B bankId percent c sel1, ia_accruedThrough = settled_day D ?B percent c sel1 None,
       ia_carry = exact_run D ?B percent c sel1 - whole_cents (exact_run D ?B percent c sel1)\<rparr>"
    unfolding first by (rule accrue_eq [OF h(1-3) c_def sel(1) [symmetric] refl run1])
  from settled_day_cases [OF c(1), of ?B percent sel1 None bankId] show ?thesis
  proof
    assume none: "settled_day D ?B percent c sel1 None = None \<and> posts D ?B bankId percent c sel1 = []"
    then have "rows = []" using rows by (simp add: one)
    moreover have "sort_key it_date ts = ts" using interest_historyD(2) [OF h(1)] by (rule sort_key_id_if_sorted)
    ultimately show ?thesis using none by (simp add: next_run_def one direct)
  next
    assume "\<exists>qs p rs. sel1 = qs @ p # rs \<and> settled_day D ?B percent c sel1 None = Some (mp_date p)
      \<and> posts D ?B bankId percent (exact_run D ?B percent c (qs @ [p])) rs = []
      \<and> (whole_cents (exact_run D ?B percent c qs) < whole_cents (exact_run D ?B percent c (qs @ [p]))
        \<or> exact_run D ?B percent c (qs @ [p]) = whole_cents (exact_run D ?B percent c (qs @ [p])))"
    then obtain qs p rs where split: "sel1 = qs @ p # rs" "settled_day D ?B percent c sel1 None = Some (mp_date p)"
      "posts D ?B bankId percent (exact_run D ?B percent c (qs @ [p])) rs = []"
      "whole_cents (exact_run D ?B percent c qs) < whole_cents (exact_run D ?B percent c (qs @ [p]))
        \<or> exact_run D ?B percent c (qs @ [p]) = whole_cents (exact_run D ?B percent c (qs @ [p]))"
      by blast
    define accrued where "accrued = exact_run D ?B percent c (qs @ [p])"
    have points: "\<exists>n. ok_day n \<and> ok_day (n + 1) \<and> mp_date x = key n \<and> s \<le> n" if "x \<in> set sel2" for x
    proof -
      have "x \<in> set points" "key s \<le> mp_date x" using that by (simp_all add: sel2_def selected_between)
      moreover from this(1) obtain n where "ok_day n" "ok_day (n + 1)" "mp_date x = key n"
        using h(2) unfolding ok_points_def by blast
      ultimately show ?thesis using h(3) by (auto simp: key_le)
    qed
    have sel2: "sel2 = qs @ p # (rs @ later)" using sel(2) split(1) by simp
    then obtain m where m: "ok_day m" "ok_day (m + 1)" "mp_date p = key m" "s \<le> m" using points [of p] by auto
    have "distinct (map mp_date sel2)"
      using h(2) by (simp add: sel2_def selected_points_def ok_points_def distinct_map)
        (auto intro: inj_on_subset)
    note around = strictly_sorted_around [OF sel2 selected_sorted [of "key s" t2 points, folded sel2_def] this]
    have before: "\<exists>n. ok_day n \<and> mp_date q = key n \<and> n < m" if q: "q \<in> set qs" for q
    proof -
      obtain n where "ok_day n" "mp_date q = key n" using points [of q] q sel2 by auto
      with around(1) [OF q] m show ?thesis by (auto simp: key_less)
    qed
    have after: "key (m + 1) \<le> mp_date q" if q: "q \<in> set (rs @ later)" for q
    proof -
      obtain n where "ok_day n" "mp_date q = key n" using points [of q] q sel2 by auto
      with around(2) [OF q] m show ?thesis by (auto simp: key_less key_le)
    qed
    have sel': "selected_points (key (m + 1)) t2 points = rs @ later"
    proof -
      have lt: "key m < key (m + 1)" "key s \<le> key (m + 1)" using m h(3) by (simp_all add: key_less key_le)
      have "selected_points (key (m + 1)) t2 points = filter (\<lambda>x. key (m + 1) \<le> mp_date x) sel2"
        using lt(2) by (auto simp: sel2_def selected_points_def filter_sort intro!: arg_cong [where f = "sort_key mp_date"] filter_cong)
      also have "\<dots> = rs @ later"
        using after before lt(1) around(1) m(3) unfolding sel2 filter_append
        by (force simp: filter_empty_conv filter_id_conv)
      finally show ?thesis .
    qed
    have rows': "list_all2 stores (posts D ?B bankId percent c (qs @ [p])) rows"
      using rows split(1,3) posts_append [of D ?B bankId percent c "qs @ [p]" rs] by (simp add: one)
    have accrued: "accrued < 10 ^ 11" "0 \<le> accrued"
      using run1 exact_run_ge [of accrued ?B percent rs] exact_run_append [of D ?B percent c "qs @ [p]" rs] c(1)
        exact_run_ge [of c ?B percent "qs @ [p]"]
      by (simp_all add: split(1) accrued_def)
    have carry: "initial_carry D sp ?ts (Some (key m)) = accrued - whole_cents accrued"
      using split(4) before accrued(1)
      by (intro carry_read_back [OF h(1,4) m(1,4) rows' m(3) c(1,3,4)]) (simp_all add: accrued_def)
    have "interest_history bankId (m + 1) ?ts"
      using before m accrued(1) by (intro history_after [OF h(1,4) m(1,4) rows' c(1,3)]) (force simp: accrued_def)+
    note hist = this
    have credited: "balance_on sp ?ts (mp_date x) = ?B (mp_date x) + whole_cents accrued" if "x \<in> set (rs @ later)" for x
    proof -
      have "key m < mp_date x" using around(2) [OF that] m(3) by simp
      have days: "dayKeyInSaoPaulo sp (it_date u) \<le> mp_date x" if "u \<in> set rows" for u
      proof -
        obtain q where q: "q \<in> set (posts D ?B bankId percent c (qs @ [p]))" "stores q u"
          using list_all2_source [OF rows' \<open>u \<in> set rows\<close>] by blast
        have okb: "cents (?B d) \<and> \<bar>?B d\<bar> < 10 ^ 11" for d
          using ok_ledgerD [OF ok_ledger_filter [OF interest_historyD(1) [OF h(1)]]] by (simp add: balance_on_def)
        obtain y where y: "y \<in> set (qs @ [p])" "ip_day q = mp_date y"
          using posts_rows [OF q(1) c(1,3) okb accrued(1) [unfolded accrued_def]] by auto
        then obtain n where n: "ok_day n" "ip_day q = key n" using points [of y] sel2 by auto
        have "key n \<le> key m" using y n(2) around(1) [of y] m(3) by (auto intro: less_imp_le)
        with \<open>key m < mp_date x\<close> dated_key [OF stored_dated(1) [OF q(2) n(2,1)]] show ?thesis by simp
      qed
      have "map signed rows = map ip_amount (posts D ?B bankId percent c (qs @ [p]))"
        using rows' by (auto simp: list_all2_conv_all_nth stores_def signed_def signedAmount_def intro!: nth_equalityI)
      then have "ledger_sum rows = whole_cents accrued"
        using posts_sum [OF c(1), of ?B bankId percent "qs @ [p]"] c(4) by (simp only: ledger_sum_def accrued_def)
      with days show ?thesis by (simp add: balance_on_rows filter_True)
    qed
    have nn: "0 \<le> accrued - whole_cents accrued" using whole_cents_bounds [OF accrued(2)] by simp
    have shift: "posts D (balance_on sp ?ts) bankId percent (accrued - whole_cents accrued) (rs @ later)
        = posts D ?B bankId percent accrued (rs @ later)
      \<and> exact_run D (balance_on sp ?ts) percent (accrued - whole_cents accrued) (rs @ later)
        = exact_run D ?B percent accrued (rs @ later) - whole_cents accrued
      \<and> settled_day D (balance_on sp ?ts) percent (accrued - whole_cents accrued) (rs @ later) None
        = settled_day D ?B percent accrued (rs @ later) None"
      using credited nn accrued(2) by (intro run_shift) simp_all
    have run: "exact_run D (balance_on sp ?ts) percent (accrued - whole_cents accrued) (rs @ later) < 10 ^ 11"
      using shift run2 exact_run_append [of D ?B percent c "qs @ [p]" "rs @ later"]
        whole_cents_bounds(1) [OF accrued(2)] by (simp add: sel2 accrued_def)
    have second: "accrueCdiInterest D sp bankId ?ts (Some (key m)) points percent (key (m + 1)) t2
      = \<lparr>ia_postings = posts D (balance_on sp ?ts) bankId percent (accrued - whole_cents accrued) (rs @ later),
         ia_accruedThrough = settled_day D (balance_on sp ?ts) percent (accrued - whole_cents accrued) (rs @ later) None,
         ia_carry = exact_run D (balance_on sp ?ts) percent (accrued - whole_cents accrued) (rs @ later)
           - whole_cents (exact_run D (balance_on sp ?ts) percent (accrued - whole_cents accrued) (rs @ later))\<rparr>"
      by (rule accrue_eq [OF hist h(2) m(2) carry [symmetric] sel' [symmetric] refl run])
    have run_later: "exact_run D ?B percent c sel2 = exact_run D ?B percent accrued (rs @ later)"
      using exact_run_append [of D ?B percent c "qs @ [p]" "rs @ later"] by (simp add: sel2 accrued_def)
    have "0 \<le> exact_run D ?B percent accrued (rs @ later)" "whole_cents accrued \<le> exact_run D ?B percent accrued (rs @ later)"
      using exact_run_ge [of accrued ?B percent "rs @ later"] accrued(2) whole_cents_bounds(2) [OF accrued(2)] by simp_all
    then have "whole_cents (exact_run D ?B percent accrued (rs @ later) - whole_cents accrued)
        = whole_cents (exact_run D ?B percent accrued (rs @ later)) - whole_cents accrued"
      by (intro whole_cents_shift) simp_all
    moreover have "posts D ?B bankId percent c sel2 = posts D ?B bankId percent c sel1 @ posts D ?B bankId percent accrued (rs @ later)"
      using posts_append [of D ?B bankId percent c "qs @ [p]" "rs @ later"] posts_append [of D ?B bankId percent c "qs @ [p]" rs]
        split(1,3) by (simp add: sel2 accrued_def)
    moreover have "next_run D sp bankId ts rows first through points percent (key s) t2
        = Inr (accrueCdiInterest D sp bankId ?ts (Some (key m)) points percent (key (m + 1)) t2)"
      using m by (simp add: next_run_def one split(2) addDaysToKey_key)
    ultimately show ?thesis using shift by (simp add: direct one second run_later)
  qed
qed

end

interpretation js_accrual: piggy_accrual decimal_js sao_paulo_standard
  by (intro piggy_accrual.intro js_decimal.decimal_arith_axioms standard.sao_paulo_offset_axioms)

section \<open>Properties\<close>

text \<open>C14. The daily loop pays out exactly the interest that accrues: the posted rows add up to the whole
  cents of the exact interest (with the carry the run started from), what is left over is carried
  and is less than a cent, and each row records the exact balance it was computed on.\<close>

theorem interest_posts_every_whole_cent:
  assumes "decimal_arith D" "sao_paulo_offset sp"
    and "interest_history bankId s ts" "ok_points points" "ok_day s"
    and "c = initial_carry D sp ts through" "sel = selected_points (key s) targetKey points"
    and "interest = exact_run D (balance_on sp ts) percent c sel" "interest < 10 ^ 11"
    and "run = accrueCdiInterest D sp bankId ts through points percent (key s) targetKey"
  shows "(\<Sum>p \<leftarrow> ia_postings run. ip_amount p) = whole_cents interest
    \<and> ia_carry run = interest - whole_cents interest \<and> 0 \<le> ia_carry run \<and> ia_carry run < CENT
    \<and> ia_postings run = posts D (balance_on sp ts) bankId percent c sel"
proof -
  have run: "piggy_accrual D sp" by (intro piggy_accrual.intro assms(1,2))
  note c = decimal_arith.initial_carry_range [OF assms(1,3,6)]
  have "0 \<le> interest"
    using c(1) decimal_arith.exact_run_ge [OF assms(1), of c] unfolding assms(8) by (rule order_trans)
  note w = whole_cents_bounds [OF this]
  have "run = \<lparr>ia_postings = posts D (balance_on sp ts) bankId percent c sel,
     ia_accruedThrough = settled_day D (balance_on sp ts) percent c sel None, ia_carry = interest - whole_cents interest\<rparr>"
    using piggy_accrual.accrue_eq [OF run assms(3-7) refl] assms(8-10) by simp
  with w decimal_arith.posts_sum [OF assms(1) c(1)] c(4) show ?thesis by (simp add: assms(8))
qed

text \<open>C29. Interest does not depend on when the runs happen: accruing up to one day, storing the rows
  and accruing from there up to a later day posts the rows, and leaves the carry, of a single run
  up to the later day. In particular a second run up to the same day posts nothing.\<close>

theorem interest_runs_compose:
  assumes "decimal_arith D" "sao_paulo_offset sp"
    and "interest_history bankId s ts" "ok_points points" "ok_day s" "ok_ledger (ts @ rows)" "t1 \<le> t2"
    and "exact_run D (balance_on sp ts) percent (initial_carry D sp ts through) (selected_points (key s) t2 points) < 10 ^ 11"
    and "first = accrueCdiInterest D sp bankId ts through points percent (key s) t1"
    and "list_all2 stores (ia_postings first) rows"
  shows "\<exists>second. next_run D sp bankId ts rows first through points percent (key s) t2 = Inr second
    \<and> ia_postings (accrueCdiInterest D sp bankId ts through points percent (key s) t2) = ia_postings first @ ia_postings second
    \<and> ia_carry (accrueCdiInterest D sp bankId ts through points percent (key s) t2) = ia_carry second
    \<and> (t1 = t2 \<longrightarrow> ia_postings second = [])"
proof -
  have "piggy_accrual D sp" by (intro piggy_accrual.intro assms(1,2))
  from piggy_accrual.resumed_run [OF this assms(3-10)] assms(9) show ?thesis by auto
qed

definition savings :: "interest_tx list" where
  "savings = [\<lparr>le_type = ''deposit'', le_amount = 1000, it_date = noon 20458, it_interestKey = None, it_resultingBalance = None\<rparr>]"

definition january_cdi :: "market_point list" where
  "january_cdi = [\<lparr>mp_date = key 20459, mp_value = 1/20\<rparr>, \<lparr>mp_date = key 20460, mp_value = 1/20\<rparr>]"

lemma savings_days: "ok_day 20458" "ok_day 20459" "ok_day 20460" "ok_day 20461"
  by code_simp+

lemma savings_keys: "key 20458 < key 20459" "key 20458 < key 20460" "key 20459 < key 20460"
  by (simp_all add: key_less savings_days)

lemma savings_ok: "interest_history ''bank'' 20459 savings" "ok_points january_cdi"
proof -
  have "ok_ledger savings" by code_simp
  then show "interest_history ''bank'' 20459 savings"
    using savings_days(1) by (auto simp: interest_history_def savings_def dated_def)
  have "key 20459 \<noteq> key 20460" using savings_keys(3) by simp
  then show "ok_points january_cdi"
    unfolding ok_points_def january_cdi_def
    using savings_days by (auto intro: exI [of _ 20459] exI [of _ 20460])
qed

lemma savings_balance: "balance_on sao_paulo_standard savings (key 20459) = 1000" "balance_on sao_paulo_standard savings (key 20460) = 1000"
proof -
  have "dayKeyInSaoPaulo sao_paulo_standard (noon 20458) = key 20458"
    by (rule standard.local_noon [OF savings_days(1)])
  then show "balance_on sao_paulo_standard savings (key 20459) = 1000" "balance_on sao_paulo_standard savings (key 20460) = 1000"
    using savings_keys by (simp_all add: balance_on_def savings_def signed_def signedAmount_def less_imp_le)
qed

lemma january_selected:
  "selected_points (key 20459) (key 20460) january_cdi = january_cdi"
  "selected_points (key 20459) (key 20459) january_cdi = [hd january_cdi]"
  using savings_keys by (auto simp: selected_points_def january_cdi_def less_imp_le not_less)

lemma savings_interest:
  "exactCdiInterest decimal_js 1000 (1/20) 100 = 1/2" "exactCdiInterest decimal_js (2001/2) (1/20) 100 = 2001/4000"
  "whole_cents (1/2) = 1/2" "whole_cents 0 = 0" "whole_cents (4001/4000) = 1"
proof -
  have g: "on_grid 8 (1/2)" "on_grid 8 (2001/4000)" "on_grid 8 (2001/40)" by code_simp+
  have "fits20 (50 :: rat)" "fits20 (1/2 :: rat)" "fits20 (2001/40 :: rat)" "fits20 (2001/4000 :: rat)"
    by (rule grid_fits20 [of 8]; use g in \<open>simp add: on_grid_def\<close>)+
  then show "exactCdiInterest decimal_js 1000 (1/20) 100 = 1/2" "exactCdiInterest decimal_js (2001/2) (1/20) 100 = 2001/4000"
    using js_decimal.exactCdiInterest_exact [of 1000 "1/20" 100] js_decimal.exactCdiInterest_exact [of "2001/2" "1/20" 100] g
    by simp_all
  show "whole_cents (1/2) = 1/2" "whole_cents 0 = 0" "whole_cents (4001/4000) = 1" by code_simp+
qed

lemma savings_run: "exact_run decimal_js (balance_on sao_paulo_standard savings) 100 0 january_cdi = 4001/4000"
  by (simp add: january_cdi_def savings_balance savings_interest)

theorem interest_posts_every_whole_cent_witness:
  "(\<Sum>p \<leftarrow> ia_postings (accrueCdiInterest decimal_js sao_paulo_standard ''bank'' savings None january_cdi 100 (key 20459) (key 20460)).
     ip_amount p) = 1"
proof -
  have "initial_carry decimal_js sao_paulo_standard savings None = 0" by (simp add: initial_carry_def)
  from interest_posts_every_whole_cent [OF js_decimal.decimal_arith_axioms standard.sao_paulo_offset_axioms savings_ok savings_days(2)
      this [symmetric] january_selected(1) [symmetric] savings_run [symmetric] _ refl]
  show ?thesis unfolding savings_interest by (rule conjunct1) simp
qed

theorem interest_runs_compose_witness:
  "\<exists>second :: interest_accrual.
     ia_postings (accrueCdiInterest decimal_js sao_paulo_standard ''bank'' savings None january_cdi 100 (key 20459) (key 20460))
       = ia_postings (accrueCdiInterest decimal_js sao_paulo_standard ''bank'' savings None january_cdi 100 (key 20459) (key 20459))
         @ ia_postings second"
proof -
  let ?first = "accrueCdiInterest decimal_js sao_paulo_standard ''bank'' savings None january_cdi 100 (key 20459) (key 20459)"
  let ?row = "\<lparr>le_type = ''interest'', le_amount = 1/2, it_date = noon 20459, it_interestKey = Some (interest_key ''bank'' (key 20459)),
    it_resultingBalance = Some (2001/2)\<rparr> :: interest_tx"
  have c: "initial_carry decimal_js sao_paulo_standard savings None = 0" by (simp add: initial_carry_def)
  have "exact_run decimal_js (balance_on sao_paulo_standard savings) 100 0 [hd january_cdi] < 10 ^ 11"
    by (simp add: january_cdi_def savings_balance savings_interest)
  from js_accrual.accrue_eq [OF savings_ok savings_days(2) c [symmetric] january_selected(2) [symmetric] refl this]
  have "ia_postings ?first = posts decimal_js (balance_on sao_paulo_standard savings) ''bank'' 100 0 [hd january_cdi]" by simp
  also have "\<dots> = [\<lparr>ip_day = key 20459, ip_interestKey = interest_key ''bank'' (key 20459), ip_amount = 1/2, ip_rate = 1/20,
      ip_baseBalance = 1000, ip_resultingBalance = 2001/2\<rparr>]"
    by (simp add: january_cdi_def savings_balance savings_interest)
  finally have rows: "list_all2 stores (ia_postings ?first) [?row]"
    using dayKeyToDate_noon [OF savings_days(2)] by (simp add: stores_def)
  have ledger: "ok_ledger (savings @ [?row])" by (simp add: ok_ledger_def savings_def) code_simp
  have bound: "exact_run decimal_js (balance_on sao_paulo_standard savings) 100
      (initial_carry decimal_js sao_paulo_standard savings None) (selected_points (key 20459) (key 20460) january_cdi) < 10 ^ 11"
    by (simp only: c january_selected savings_run) simp
  from interest_runs_compose [OF js_decimal.decimal_arith_axioms standard.sao_paulo_offset_axioms savings_ok savings_days(2)
      ledger less_imp_le [OF savings_keys(3)] bound refl rows]
  show ?thesis by blast
qed

end
