(* ===== verification/Piggy_Runs.thy ===== *)
theory Piggy_Runs
  imports Piggy_Moves Piggy_Resume "HOL-Library.AList"
begin

text \<open>
  \<open>backend/src/lib/piggy/auto-debit-run.ts\<close> and \<open>interest-run.ts\<close>: the daily maintenance of piggy
  banks. Every automatic debit is a transaction of its own and a failure in one bank does not stop
  the others, so a run returns tables even when some of its steps fail. The CDI history is the
  function \<open>fetchHistory\<close> the source passes in.
\<close>

section \<open>auto-debit-run.ts\<close>

datatype cycle_outcome = Created | Skipped | Stop

definition processPiggyAutoDebitCycle ::
    "decimal_lib \<Rightarrow> tz_offset \<Rightarrow> (nat \<Rightarrow> string) \<Rightarrow> string \<Rightarrow> string \<Rightarrow> auto_debit_cycle \<Rightarrow> instant \<Rightarrow> finance_db
     \<Rightarrow> (finance_db \<times> cycle_outcome) res" where
  "processPiggyAutoDebitCycle D sp newId userId bankId cycle now db =
     (case find (\<lambda>b. pb_id b = bankId \<and> pb_userId b = userId \<and> pb_autoDebit b \<and> pb_archivedAt b = None \<and> pb_completedAt b = None)
             (db_piggyBanks db) of
        None \<Rightarrow> Inr (db, Stop)
      | Some bank \<Rightarrow>
          (if pb_monthlyGoal bank \<le> 0 then Inr (db, Stop)
           else res_bind (isScheduledAutoDebitCycleStillDue sp cycle now bank) (\<lambda>due.
             if \<not> due then Inr (db, Skipped)
             else if hasAutoDebitInCycle sp (bank_txs db bank) (Some cycle) then Inr (db, Skipped)
             else
               (let balance = balanceDecimalFromTransactions D (bank_txs db bank);
                    remaining = map_option (\<lambda>goal. dec_minus D goal balance) (pb_goalAmount bank) in
                if (case remaining of None \<Rightarrow> False | Some r \<Rightarrow> r \<le> 0) then Inr (db, Stop)
                else
                  (let amount = (case remaining of None \<Rightarrow> pb_monthlyGoal bank
                                 | Some r \<Rightarrow> if pb_monthlyGoal bank > r then r else pb_monthlyGoal bank) in
                   res_bind (depositToPiggyBankInTransaction D sp newId now
                       \<lparr>dp_userId = userId, dp_piggyBankId = pb_id bank, dp_amount = amount, dp_source = ''auto_debit'',
                        dp_deductFromBalance = True, dp_note = Some ''Debito automatico mensal'', dp_date = ac_dueOn cycle\<rparr> db)
                     (\<lambda>(db', deposit). Inr (db', if dr_alreadyProcessed deposit then Skipped else Created)))))))"

text \<open>The cycles of one bank: the tables so far, the debits created, and whether a cycle failed.\<close>

fun run_cycles ::
    "decimal_lib \<Rightarrow> tz_offset \<Rightarrow> (nat \<Rightarrow> string) \<Rightarrow> string \<Rightarrow> string \<Rightarrow> instant \<Rightarrow> auto_debit_cycle list \<Rightarrow> finance_db \<Rightarrow> nat
     \<Rightarrow> finance_db \<times> nat \<times> bool" where
  "run_cycles D sp newId userId bankId now [] db created = (db, created, False)"
| "run_cycles D sp newId userId bankId now (c # cs) db created =
     (case processPiggyAutoDebitCycle D sp newId userId bankId c now db of
        Inl e \<Rightarrow> (db, created, True)
      | Inr (db', outcome) \<Rightarrow>
          (case outcome of
             Stop \<Rightarrow> (db', created, False)
           | Created \<Rightarrow> run_cycles D sp newId userId bankId now cs db' (created + 1)
           | Skipped \<Rightarrow> run_cycles D sp newId userId bankId now cs db' created))"

definition run_bank_debits ::
    "decimal_lib \<Rightarrow> tz_offset \<Rightarrow> (nat \<Rightarrow> string) \<Rightarrow> string \<Rightarrow> instant \<Rightarrow> finance_db \<times> nat \<times> string list \<Rightarrow> piggy_bank
     \<Rightarrow> finance_db \<times> nat \<times> string list" where
  "run_bank_debits D sp newId userId now acc bank =
     (case acc of (db, created, failed) \<Rightarrow>
        (case listDueAutoDebitCycles sp now (pb_createdAt bank) (pb_autoDebitDay bank) (pb_autoDebitEnabledAt bank) of
           Inl e \<Rightarrow> (db, created, failed @ [pb_id bank])
         | Inr cycles \<Rightarrow>
             (case run_cycles D sp newId userId (pb_id bank) now cycles db created of
                (db', created', bad) \<Rightarrow> (db', created', if bad then failed @ [pb_id bank] else failed))))"

definition runPiggyAutoDebits ::
    "decimal_lib \<Rightarrow> tz_offset \<Rightarrow> (nat \<Rightarrow> string) \<Rightarrow> string \<Rightarrow> instant \<Rightarrow> finance_db \<Rightarrow> finance_db \<times> nat \<times> string list" where
  "runPiggyAutoDebits D sp newId userId now db =
     foldl (run_bank_debits D sp newId userId now) (db, 0, [])
       (filter (\<lambda>b. pb_userId b = userId \<and> pb_autoDebit b \<and> pb_archivedAt b = None \<and> pb_completedAt b = None) (db_piggyBanks db))"

definition processPiggyAutoDebits ::
    "decimal_lib \<Rightarrow> tz_offset \<Rightarrow> (nat \<Rightarrow> string) \<Rightarrow> string \<Rightarrow> instant \<Rightarrow> finance_db \<Rightarrow> finance_db \<times> nat \<times> nat" where
  "processPiggyAutoDebits D sp newId userId now db =
     (case runPiggyAutoDebits D sp newId userId now db of (db', created, failed) \<Rightarrow> (db', created, length failed))"

section \<open>interest-run.ts\<close>

record market_series =
  ms_provider :: string
  ms_stale :: bool
  ms_points :: "market_point list"

type_synonym fetch_history = "day_key \<Rightarrow> day_key \<Rightarrow> market_series res"

text \<open>One chunk: the points are kept by date, a later point replacing an earlier one in place.\<close>

definition add_chunk ::
    "fetch_history \<Rightarrow> string \<times> bool \<times> (string \<times> market_point) list \<Rightarrow> day_key \<times> day_key
     \<Rightarrow> (string \<times> bool \<times> (string \<times> market_point) list) res" where
  "add_chunk fetchHistory acc chunk =
     res_bind (fetchHistory (fst chunk) (snd chunk)) (\<lambda>series.
     Inr (ms_provider series, fst (snd acc) \<or> ms_stale series,
          foldl (\<lambda>m p. AList.update (mp_date p) p m) (snd (snd acc)) (ms_points series)))"

definition getCdiHistoryInChunks :: "fetch_history \<Rightarrow> instant \<Rightarrow> instant \<Rightarrow> market_series res" where
  "getCdiHistoryInChunks fetchHistory first final =
     res_bind (splitCdiHistoryRange first final) (\<lambda>ranges.
     res_bind (res_fold (add_chunk fetchHistory) (''bcb_sgs_12'', False, []) ranges) (\<lambda>(provider, stale, points).
     Inr \<lparr>ms_provider = provider, ms_stale = stale, ms_points = sort_key mp_date (map snd points)\<rparr>))"

definition startKeyFor :: "tz_offset \<Rightarrow> piggy_bank \<Rightarrow> day_key res" where
  "startKeyFor sp bank =
     (case pb_interestAccruedThrough bank of
        Some d \<Rightarrow> addDaysToKey (dayKeyOfDate d) 1
      | None \<Rightarrow> Inr (dayKeyInSaoPaulo sp (pb_createdAt bank)))"

definition yields :: "string \<Rightarrow> piggy_bank \<Rightarrow> bool" where
  "yields userId bank \<longleftrightarrow> pb_userId bank = userId \<and> pb_yieldEnabled bank \<and> pb_archivedAt bank = None \<and> pb_cdiPercent bank > 0"

text \<open>The history of one bank, before the transaction; a failed fetch only marks the run stale.\<close>

definition fetch_series ::
    "tz_offset \<Rightarrow> fetch_history \<Rightarrow> instant \<Rightarrow> (string \<times> market_series) list \<times> bool \<Rightarrow> piggy_bank
     \<Rightarrow> ((string \<times> market_series) list \<times> bool) res" where
  "fetch_series sp fetchHistory target acc bank =
     res_bind (startKeyFor sp bank) (\<lambda>startKey.
     if startKey > dayKeyOfDate target then Inr acc
     else
       (case res_bind (dayKeyToDate startKey Noon) (\<lambda>start. getCdiHistoryInChunks fetchHistory start target) of
          Inl e \<Rightarrow> Inr (fst acc, True)
        | Inr series \<Rightarrow> Inr (AList.update (pb_id bank) series (fst acc), snd acc \<or> ms_stale series)))"

definition interest_row ::
    "(nat \<Rightarrow> string) \<Rightarrow> instant \<Rightarrow> string \<Rightarrow> piggy_bank \<Rightarrow> interest_posting \<Rightarrow> instant \<Rightarrow> nat \<Rightarrow> piggy_tx" where
  "interest_row newId now userId bank p day i = \<lparr>
     le_type = ''interest'', le_amount = ip_amount p, it_date = day, it_interestKey = Some (ip_interestKey p),
     it_resultingBalance = Some (ip_resultingBalance p), pt_id = newId i, pt_piggyBankId = pb_id bank, pt_userId = userId,
     pt_source = ''yield'', pt_expenseId = None, pt_entryId = None,
     pt_note = Some (''Rendimento diario - '' @ number_text (pb_cdiPercent bank) @ ''% do CDI''),
     pt_correctionOrigin = None, pt_cdiRate = Some (ip_rate p), pt_cdiPercent = Some (pb_cdiPercent bank),
     pt_baseBalance = Some (ip_baseBalance p), pt_createdAt = now\<rparr>"

text \<open>The rows of a bank's postings, its running balance, and the day it reaches its goal.\<close>

definition post_row ::
    "decimal_lib \<Rightarrow> (nat \<Rightarrow> string) \<Rightarrow> instant \<Rightarrow> string \<Rightarrow> piggy_bank \<Rightarrow> nat
     \<Rightarrow> piggy_tx list \<times> rat \<times> instant option \<Rightarrow> interest_posting \<Rightarrow> (piggy_tx list \<times> rat \<times> instant option) res" where
  "post_row D newId now userId bank offset acc p =
     (case acc of (rows, running, completedAt) \<Rightarrow>
        res_bind (dayKeyToDate (ip_day p) Noon) (\<lambda>day.
        let running' = dec_plus D running (ip_amount p) in
        Inr (rows @ [interest_row newId now userId bank p day (offset + length rows)], running',
             if pb_completedAt bank = None \<and> completedAt = None
                \<and> (case pb_goalAmount bank of None \<Rightarrow> False | Some goal \<Rightarrow> running' \<ge> goal)
             then Some day else completedAt)))"

definition accrue_bank ::
    "decimal_lib \<Rightarrow> tz_offset \<Rightarrow> (nat \<Rightarrow> string) \<Rightarrow> instant \<Rightarrow> string \<Rightarrow> (string \<Rightarrow> market_series option) \<Rightarrow> day_key \<Rightarrow> finance_db
     \<Rightarrow> finance_db \<times> piggy_tx list \<Rightarrow> piggy_bank \<Rightarrow> (finance_db \<times> piggy_tx list) res" where
  "accrue_bank D sp newId now userId seriesByBank targetKey db0 acc bank =
     (case seriesByBank (pb_id bank) of
        None \<Rightarrow> Inr acc
      | Some series \<Rightarrow>
          res_bind (startKeyFor sp bank) (\<lambda>startKey.
          if startKey > targetKey then Inr acc
          else
            (let transactions = sort_key it_date (sort_key pt_createdAt (bank_txs db0 bank));
                 result = accrueCdiInterest D sp (pb_id bank) transactions (map_option dayKeyOfDate (pb_interestAccruedThrough bank))
                            (ms_points series) (pb_cdiPercent bank) startKey targetKey in
             res_bind (res_fold (post_row D newId now userId bank (length (db_piggyTx db0) + length (snd acc)))
                         ([], balanceDecimalFromTransactions D transactions, None) (ia_postings result))
               (\<lambda>(rows, runningBalance, completedAt).
             res_bind (case ia_accruedThrough result of
                         None \<Rightarrow> Inr None
                       | Some k \<Rightarrow> res_bind (dayKeyToDate k Noon) (\<lambda>d. Inr (Some d))) (\<lambda>nextThrough.
             res_bind (if ia_postings result \<noteq> [] \<and> pb_goalAmount bank \<noteq> None \<and> pb_targetDate bank \<noteq> None
                       then computeMonthlyGoal D sp (pb_goalAmount bank) (pb_targetDate bank) now runningBalance
                              (if pb_autoDebit bank then Some (pb_autoDebitDay bank) else None)
                              (hasAutoDebitInCurrentMonth sp (bank_txs db0 bank) now)
                       else Inr (pb_monthlyGoal bank)) (\<lambda>monthlyGoal.
             Inr (update_bank (pb_id bank)
                    (\<lambda>b. b\<lparr>pb_interestAccruedThrough := (if nextThrough \<noteq> None then nextThrough else pb_interestAccruedThrough b),
                          pb_completedAt := (if completedAt \<noteq> None then completedAt else pb_completedAt b),
                          pb_monthlyGoal := monthlyGoal\<rparr>) (fst acc),
                  snd acc @ rows)))))))"

text \<open>The transaction of a run: the banks that have a history are read again under the lock.\<close>

definition accrue_banks ::
    "decimal_lib \<Rightarrow> tz_offset \<Rightarrow> (nat \<Rightarrow> string) \<Rightarrow> instant \<Rightarrow> string \<Rightarrow> (string \<times> market_series) list \<Rightarrow> day_key \<Rightarrow> finance_db
     \<Rightarrow> (finance_db \<times> nat) res" where
  "accrue_banks D sp newId now userId seriesByBank targetKey db =
     (let currentBanks = filter (\<lambda>b. pb_id b \<in> fst ` set seriesByBank \<and> yields userId b) (db_piggyBanks db) in
      res_bind (res_fold (accrue_bank D sp newId now userId (map_of seriesByBank) targetKey db) (db, []) currentBanks)
        (\<lambda>(db', rows).
      Inr (db'\<lparr>db_piggyTx := db_piggyTx db' @ rows\<rparr>, length rows)))"

definition accruePiggyInterest ::
    "decimal_lib \<Rightarrow> tz_offset \<Rightarrow> (nat \<Rightarrow> string) \<Rightarrow> fetch_history \<Rightarrow> string \<Rightarrow> instant \<Rightarrow> string list \<Rightarrow> finance_db
     \<Rightarrow> (finance_db \<times> nat \<times> bool) res" where
  "accruePiggyInterest D sp newId fetchHistory userId now skipBankIds db =
     (let banks = filter (\<lambda>b. yields userId b \<and> pb_id b \<notin> set skipBankIds) (db_piggyBanks db) in
      res_bind (lastCompletedWeekday sp now) (\<lambda>target.
      res_bind (res_fold (fetch_series sp fetchHistory target) ([], False) banks) (\<lambda>(seriesByBank, stale).
      res_bind (accrue_banks D sp newId now userId seriesByBank (dayKeyOfDate target) db) (\<lambda>(db', createdCount).
      Inr (db', createdCount, stale)))))"

record catch_up =
  cu_createdCount :: nat
  cu_stale :: bool
  cu_autoDebitCreatedCount :: nat
  cu_autoDebitFailedCount :: nat

definition catchUpPiggyInterest ::
    "decimal_lib \<Rightarrow> tz_offset \<Rightarrow> (nat \<Rightarrow> string) \<Rightarrow> fetch_history \<Rightarrow> string \<Rightarrow> instant \<Rightarrow> finance_db \<Rightarrow> finance_db \<times> catch_up" where
  "catchUpPiggyInterest D sp newId fetchHistory userId now db =
     (case runPiggyAutoDebits D sp newId userId now db of (db1, created, failed) \<Rightarrow>
        (case accruePiggyInterest D sp newId fetchHistory userId now failed db1 of
           Inl e \<Rightarrow> (db1, \<lparr>cu_createdCount = 0, cu_stale = True, cu_autoDebitCreatedCount = created,
                         cu_autoDebitFailedCount = length failed\<rparr>)
         | Inr (db2, rows, stale) \<Rightarrow>
             (db2, \<lparr>cu_createdCount = rows, cu_stale = (stale \<or> length failed > 0), cu_autoDebitCreatedCount = created,
                    cu_autoDebitFailedCount = length failed\<rparr>)))"

end
