(* ===== verification/Piggy_Service.thy ===== *)
theory Piggy_Service
  imports Piggy_Runs
begin

text \<open>
  \<open>backend/src/services/piggy-banks.ts\<close>: the requests of the piggy bank routes. An operation that
  first settles pending debits and interest (\<open>withFreshInterest\<close>) keeps what was settled even when it
  is refused, so it returns the tables beside its result; the others return tables or an error.
\<close>

section \<open>Parsing\<close>

definition STALE_INTEREST_MESSAGE :: string where
  "STALE_INTEREST_MESSAGE = ''Nao foi possivel fechar o rendimento anterior; alteracao nao aplicada''"

definition parse_target :: "tz_offset \<Rightarrow> instant \<Rightarrow> js \<Rightarrow> instant option res" where
  "parse_target sp now value =
     (case parseOptionalTargetDate sp now value of
        Inl (DomainError code message) \<Rightarrow> Inl (BadRequest ''Data de conclusao invalida'')
      | r \<Rightarrow> r)"

definition parseCdiPercent :: "js \<Rightarrow> rat res" where
  "parseCdiPercent value =
     (if js_nullish value \<or> value = JString [] then Inr 0
      else (case (case value of JNumber r \<Rightarrow> Some r | JString s \<Rightarrow> string_to_number s | _ \<Rightarrow> None) of
              None \<Rightarrow> Inl (BadRequest ''% do CDI deve estar entre 0 e 1000'')
            | Some parsed \<Rightarrow>
                res_when (parsed < 0 \<or> parsed > 1000) (BadRequest ''% do CDI deve estar entre 0 e 1000'')
                  (Inr (of_int \<lfloor>parsed * 10000 + 1/2\<rfloor> / 10000))))"

definition parseGoal :: "js \<Rightarrow> rat option res" where
  "parseGoal value =
     (if js_nullish value \<or> value = JString [] then Inr None
      else (case parsePositiveAmount value of
              None \<Rightarrow> Inl (BadRequest ''Meta final deve ser maior que zero'')
            | Some parsed \<Rightarrow> Inr (Some parsed)))"

record create_piggy_input =
  ci_name :: string
  ci_goalAmount :: "rat option"
  ci_targetDate :: "instant option"
  ci_autoDebit :: bool
  ci_monthlyGoal :: js
  ci_autoDebitDay :: js
  ci_isEmergency :: bool
  ci_yieldEnabled :: bool
  ci_cdiPercent :: rat

definition or_false :: "bool option \<Rightarrow> bool" where
  "or_false b = (case b of None \<Rightarrow> False | Some x \<Rightarrow> x)"

definition parseCreatePiggy :: "tz_offset \<Rightarrow> instant \<Rightarrow> (string \<times> js) list \<Rightarrow> create_piggy_input res" where
  "parseCreatePiggy sp now body =
     res_bind (parseRequiredText (js_field body ''name'') 50 ''Campos obrigatorios: name'') (\<lambda>name.
     res_bind (parseGoal (js_field body ''goalAmount'')) (\<lambda>goalAmount.
     res_bind (parse_target sp now (js_field body ''targetDate'')) (\<lambda>targetDate.
     res_bind (parseBoolean (js_field body ''autoDebit'') ''autoDebit'') (\<lambda>autoDebit.
     res_bind (parseBoolean (js_field body ''isEmergency'') ''isEmergency'') (\<lambda>isEmergency.
     res_bind (parseBoolean (js_field body ''yieldEnabled'') ''yieldEnabled'') (\<lambda>yieldEnabled.
     res_bind (parseCdiPercent (js_field body ''cdiPercent'')) (\<lambda>cdiPercent.
     Inr \<lparr>ci_name = name, ci_goalAmount = goalAmount, ci_targetDate = targetDate, ci_autoDebit = or_false autoDebit,
          ci_monthlyGoal = js_field body ''monthlyGoal'', ci_autoDebitDay = js_field body ''autoDebitDay'',
          ci_isEmergency = or_false isEmergency, ci_yieldEnabled = or_false yieldEnabled, ci_cdiPercent = cdiPercent\<rparr>)))))))"

text \<open>An absent field of an update is \<open>None\<close>; \<open>monthlyGoal\<close> and \<open>autoDebitDay\<close> stay as they came.\<close>

record update_piggy_input =
  ui_name :: "string option"
  ui_goalAmount :: "rat option option"
  ui_targetDate :: "instant option option"
  ui_monthlyGoal :: js
  ui_autoDebit :: "bool option"
  ui_autoDebitDay :: js
  ui_isEmergency :: "bool option"
  ui_yieldEnabled :: "bool option"
  ui_cdiPercent :: "rat option"

definition if_present :: "js \<Rightarrow> (js \<Rightarrow> 'a res) \<Rightarrow> 'a option res" where
  "if_present value parse = (if value = JUndefined then Inr None else res_bind (parse value) (\<lambda>x. Inr (Some x)))"

definition parseUpdatePiggy :: "tz_offset \<Rightarrow> instant \<Rightarrow> (string \<times> js) list \<Rightarrow> update_piggy_input res" where
  "parseUpdatePiggy sp now body =
     res_bind (if_present (js_field body ''name'') (\<lambda>v. parseRequiredText v 50 ''Nome invalido'')) (\<lambda>name.
     res_bind (if_present (js_field body ''goalAmount'') parseGoal) (\<lambda>goalAmount.
     res_bind (if_present (js_field body ''targetDate'') (parse_target sp now)) (\<lambda>targetDate.
     res_bind (parseBoolean (js_field body ''autoDebit'') ''autoDebit'') (\<lambda>autoDebit.
     res_bind (parseBoolean (js_field body ''isEmergency'') ''isEmergency'') (\<lambda>isEmergency.
     res_bind (parseBoolean (js_field body ''yieldEnabled'') ''yieldEnabled'') (\<lambda>yieldEnabled.
     res_bind (if_present (js_field body ''cdiPercent'') parseCdiPercent) (\<lambda>cdiPercent.
     Inr \<lparr>ui_name = name, ui_goalAmount = goalAmount, ui_targetDate = targetDate,
          ui_monthlyGoal = js_field body ''monthlyGoal'', ui_autoDebit = autoDebit,
          ui_autoDebitDay = js_field body ''autoDebitDay'', ui_isEmergency = isEmergency,
          ui_yieldEnabled = yieldEnabled, ui_cdiPercent = cdiPercent\<rparr>)))))))"

record money_movement =
  mv_amount :: rat
  mv_note :: "string option"
  mv_deductFromBalance :: "bool option"

definition parseMoneyMovement :: "(string \<times> js) list \<Rightarrow> money_movement res" where
  "parseMoneyMovement body =
     res_bind (parseAmount (js_field body ''amount'') False (Some ''Valor deve ser maior que zero'')) (\<lambda>amount.
     res_bind (parseOptionalNote (js_field body ''note'') 500) (\<lambda>note.
     res_bind (parseBoolean (js_field body ''deductFromBalance'') ''deductFromBalance'') (\<lambda>deduct.
     Inr \<lparr>mv_amount = amount, mv_note = note, mv_deductFromBalance = deduct\<rparr>)))"

record withdraw_movement =
  wm_amount :: rat
  wm_note :: "string option"
  wm_creditToBalance :: bool
  wm_correctionOrigin :: "correction_origin option"

definition origin_mismatch :: error where
  "origin_mismatch = BadRequest ''Correcao requer creditToBalance:false e correctionOrigin explicito''"

definition parse_origin :: "js \<Rightarrow> correction_origin option" where
  "parse_origin value =
     (if value = JString ''debited'' then Some Debited
      else if value = JString ''not_debited'' then Some NotDebited else None)"

definition parseWithdrawMovement :: "(string \<times> js) list \<Rightarrow> withdraw_movement res" where
  "parseWithdrawMovement body =
     (let origin = js_field body ''correctionOrigin'' in
      res_when (js_field body ''deductFromBalance'' \<noteq> JUndefined)
        (BadRequest ''Use creditToBalance para saque ou correcao de saldo'')
      (res_when (js_field body ''creditToBalance'' = JNull)
        (BadRequest ''Confirme se o saque deve ser creditado no saldo'')
      (res_when (origin \<noteq> JUndefined \<and> origin \<noteq> JString ''debited'' \<and> origin \<noteq> JString ''not_debited'')
        (BadRequest ''Origem da correcao invalida; informe debited ou not_debited'')
      (res_bind (parseBoolean (js_field body ''creditToBalance'') ''creditToBalance'') (\<lambda>credit.
       let creditToBalance = (case credit of None \<Rightarrow> True | Some b \<Rightarrow> b) in
       res_when ((\<not> creditToBalance) \<noteq> (origin \<noteq> JUndefined)) origin_mismatch
       (res_bind (parseMoneyMovement body) (\<lambda>movement.
        Inr \<lparr>wm_amount = mv_amount movement, wm_note = mv_note movement, wm_creditToBalance = creditToBalance,
             wm_correctionOrigin = parse_origin origin\<rparr>)))))))"

section \<open>Reading\<close>

definition listPiggyBanks :: "string \<Rightarrow> bool \<Rightarrow> finance_db \<Rightarrow> (piggy_bank \<times> piggy_tx list) list" where
  "listPiggyBanks userId includeArchived db =
     map (\<lambda>b. (b, bank_txs db b))
       (sort_key (\<lambda>b. - pb_createdAt b)
         (filter (\<lambda>b. pb_userId b = userId \<and> (includeArchived \<or> pb_archivedAt b = None)) (db_piggyBanks db)))"

text \<open>A row that moved cash: a deposit with its expense, a withdrawal with its entry.\<close>

definition is_cash_movement :: "piggy_tx \<Rightarrow> bool" where
  "is_cash_movement t \<longleftrightarrow> le_type t = ''deposit'' \<and> pt_expenseId t \<noteq> None \<or> le_type t = ''withdraw'' \<and> pt_entryId t \<noteq> None"

definition listPiggyCashMovements :: "string \<Rightarrow> finance_db \<Rightarrow> (string \<times> rat \<times> day_key) list" where
  "listPiggyCashMovements userId db =
     map (\<lambda>t. (le_type t, le_amount t, dayKeyOfDate (it_date t)))
       (sort_key it_date (sort_key pt_createdAt (filter (\<lambda>t. pt_userId t = userId \<and> is_cash_movement t) (db_piggyTx db))))"

definition listPiggyTransactions :: "string \<Rightarrow> string \<Rightarrow> finance_db \<Rightarrow> piggy_tx list res" where
  "listPiggyTransactions userId bankId db =
     (case find_bank db userId bankId of
        None \<Rightarrow> Inl (NotFound ''Cofre nao encontrado'')
      | Some bank \<Rightarrow>
          Inr (sort_key (\<lambda>t. - it_date t) (sort_key (\<lambda>t. - pt_createdAt t)
                 (filter (\<lambda>t. pt_piggyBankId t = bankId \<and> pt_userId t = userId) (db_piggyTx db)))))"

section \<open>Operations on banks\<close>

definition withFreshInterest ::
    "decimal_lib \<Rightarrow> tz_offset \<Rightarrow> (nat \<Rightarrow> string) \<Rightarrow> fetch_history \<Rightarrow> string \<Rightarrow> instant
     \<Rightarrow> (finance_db \<Rightarrow> (finance_db \<times> 'a) res) \<Rightarrow> finance_db \<Rightarrow> finance_db \<times> 'a res" where
  "withFreshInterest D sp newId fetchHistory userId now operation db =
     (case catchUpPiggyInterest D sp newId fetchHistory userId now db of (db1, catchUp) \<Rightarrow>
        if cu_stale catchUp then (db1, Inl (ServiceUnavailable STALE_INTEREST_MESSAGE))
        else (case operation db1 of Inl e \<Rightarrow> (db1, Inl e) | Inr (db2, r) \<Rightarrow> (db2, Inr r)))"

definition resolveMonthlyGoal ::
    "decimal_lib \<Rightarrow> tz_offset \<Rightarrow> instant \<Rightarrow> rat option \<Rightarrow> instant option \<Rightarrow> bool \<Rightarrow> int \<Rightarrow> rat \<Rightarrow> bool \<Rightarrow> js \<Rightarrow> rat res" where
  "resolveMonthlyGoal D sp now goalAmount targetDate autoDebit autoDebitDay balance currentMonthPaid fallback =
     res_bind (computeMonthlyGoal D sp goalAmount targetDate now balance (if autoDebit then Some autoDebitDay else None)
                 currentMonthPaid) (\<lambda>computed.
     if \<not> autoDebit \<or> goalAmount \<noteq> None \<and> targetDate \<noteq> None then Inr computed
     else (case parsePositiveAmount fallback of
             None \<Rightarrow> Inl (BadRequest ''Informe o valor do debito automatico'')
           | Some parsed \<Rightarrow> Inr parsed))"

definition auto_debit_day_error :: error where
  "auto_debit_day_error = BadRequest ''Dia do debito automatico deve ser entre 1 e 31''"

definition createPiggyBank ::
    "decimal_lib \<Rightarrow> tz_offset \<Rightarrow> (nat \<Rightarrow> string) \<Rightarrow> instant \<Rightarrow> string \<Rightarrow> create_piggy_input \<Rightarrow> finance_db
     \<Rightarrow> (finance_db \<times> piggy_bank) res" where
  "createPiggyBank D sp newId now userId input db =
     res_bind (if ci_autoDebit input
               then (case parseAutoDebitDay (if js_nullish (ci_autoDebitDay input) then JNumber 1 else ci_autoDebitDay input) of
                       None \<Rightarrow> Inl auto_debit_day_error | Some day \<Rightarrow> Inr day)
               else Inr 1) (\<lambda>autoDebitDay.
     res_bind (resolveMonthlyGoal D sp now (ci_goalAmount input) (ci_targetDate input) (ci_autoDebit input) autoDebitDay 0 False
                 (ci_monthlyGoal input)) (\<lambda>monthlyGoal.
     let bank = \<lparr>pb_id = newId (length (db_piggyBanks db)), pb_userId = userId, pb_name = ci_name input,
                 pb_goalAmount = ci_goalAmount input, pb_targetDate = ci_targetDate input, pb_monthlyGoal = monthlyGoal,
                 pb_autoDebit = ci_autoDebit input, pb_autoDebitDay = autoDebitDay,
                 pb_autoDebitEnabledAt = (if ci_autoDebit input then Some now else None),
                 pb_isEmergency = ci_isEmergency input, pb_yieldEnabled = ci_yieldEnabled input,
                 pb_cdiPercent = (if ci_yieldEnabled input then ci_cdiPercent input else 0),
                 pb_interestAccruedThrough = None, pb_archivedAt = None, pb_completedAt = None, pb_createdAt = now\<rparr> in
     Inr (db\<lparr>db_piggyBanks := db_piggyBanks db @ [bank]\<rparr>, bank)))"

text \<open>The payment day an update leaves; the present value is checked again when debits stay on.\<close>

definition updated_debit_day :: "piggy_bank \<Rightarrow> update_piggy_input \<Rightarrow> bool \<Rightarrow> int res" where
  "updated_debit_day existing input autoDebit =
     (if ui_autoDebitDay input \<noteq> JUndefined \<or> ui_autoDebit input \<noteq> None \<and> autoDebit
      then (case parseAutoDebitDay (if ui_autoDebitDay input \<noteq> JUndefined then ui_autoDebitDay input
                                    else JNumber (of_int (pb_autoDebitDay existing))) of
              None \<Rightarrow> res_when autoDebit auto_debit_day_error (Inr (pb_autoDebitDay existing))
            | Some day \<Rightarrow> Inr day)
      else Inr (pb_autoDebitDay existing))"

definition edited_bank ::
    "decimal_lib \<Rightarrow> tz_offset \<Rightarrow> instant \<Rightarrow> update_piggy_input \<Rightarrow> piggy_tx list \<Rightarrow> piggy_bank \<Rightarrow> piggy_bank res" where
  "edited_bank D sp now input txs existing =
     (let goalAmount = (case ui_goalAmount input of Some g \<Rightarrow> g | None \<Rightarrow> piggyGoalAmount (pb_goalAmount existing));
          targetDate = (case ui_targetDate input of Some t \<Rightarrow> t | None \<Rightarrow> pb_targetDate existing);
          autoDebit = (case ui_autoDebit input of Some b \<Rightarrow> b | None \<Rightarrow> pb_autoDebit existing) in
      res_bind (updated_debit_day existing input autoDebit) (\<lambda>autoDebitDay.
      res_bind (resolveMonthlyGoal D sp now goalAmount targetDate autoDebit autoDebitDay
                  (balanceDecimalFromTransactions D txs) (hasAutoDebitInCurrentMonth sp txs now)
                  (if ui_monthlyGoal input \<noteq> JUndefined then ui_monthlyGoal input
                   else JString (number_text (pb_monthlyGoal existing)))) (\<lambda>monthlyGoal.
      let yieldEnabled = (case ui_yieldEnabled input of Some b \<Rightarrow> b | None \<Rightarrow> pb_yieldEnabled existing);
          cdiPercent = (if yieldEnabled
                        then (case ui_cdiPercent input of Some p \<Rightarrow> p | None \<Rightarrow> pb_cdiPercent existing) else 0) in
      res_bind (interestAccruedThroughOnActivation sp (pb_yieldEnabled existing \<and> pb_cdiPercent existing > 0)
                  (yieldEnabled \<and> cdiPercent > 0) now) (\<lambda>activatedThrough.
      Inr (existing\<lparr>
             pb_interestAccruedThrough := (if activatedThrough \<noteq> None then activatedThrough
                                           else pb_interestAccruedThrough existing),
             pb_autoDebitEnabledAt := nextAutoDebitEnabledAt existing autoDebit now,
             pb_name := (case ui_name input of Some n \<Rightarrow> n | None \<Rightarrow> pb_name existing),
             pb_goalAmount := goalAmount, pb_targetDate := targetDate, pb_monthlyGoal := monthlyGoal,
             pb_autoDebit := autoDebit, pb_autoDebitDay := autoDebitDay, pb_yieldEnabled := yieldEnabled,
             pb_cdiPercent := cdiPercent,
             pb_isEmergency := (case ui_isEmergency input of Some b \<Rightarrow> b | None \<Rightarrow> pb_isEmergency existing)\<rparr>)))))"

definition apply_piggy_update ::
    "decimal_lib \<Rightarrow> tz_offset \<Rightarrow> instant \<Rightarrow> string \<Rightarrow> string \<Rightarrow> update_piggy_input \<Rightarrow> finance_db
     \<Rightarrow> (finance_db \<times> piggy_bank) res" where
  "apply_piggy_update D sp now userId bankId input db =
     (case find_bank db userId bankId of
        None \<Rightarrow> Inl (NotFound ''Cofre nao encontrado'')
      | Some existing \<Rightarrow>
          res_when (pb_archivedAt existing \<noteq> None) (BadRequest ''Cofre arquivado nao pode ser editado'')
          (res_bind (edited_bank D sp now input (bank_txs db existing) existing) (\<lambda>bank.
           Inr (update_bank bankId (\<lambda>b. bank) db, bank))))"

definition updatePiggyBank ::
    "decimal_lib \<Rightarrow> tz_offset \<Rightarrow> (nat \<Rightarrow> string) \<Rightarrow> fetch_history \<Rightarrow> instant \<Rightarrow> string \<Rightarrow> string \<Rightarrow> update_piggy_input
     \<Rightarrow> finance_db \<Rightarrow> finance_db \<times> piggy_bank res" where
  "updatePiggyBank D sp newId fetchHistory now userId bankId input db =
     (let apply_update = apply_piggy_update D sp now userId bankId input in
      if ui_yieldEnabled input \<noteq> None \<or> ui_cdiPercent input \<noteq> None
      then withFreshInterest D sp newId fetchHistory userId now apply_update db
      else (case apply_update db of Inl e \<Rightarrow> (db, Inl e) | Inr (db', bank) \<Rightarrow> (db', Inr bank)))"

definition archivePiggyBank :: "decimal_lib \<Rightarrow> instant \<Rightarrow> string \<Rightarrow> string \<Rightarrow> finance_db \<Rightarrow> finance_db res" where
  "archivePiggyBank D now userId bankId db =
     (case find_bank db userId bankId of
        None \<Rightarrow> Inl (NotFound ''Cofre nao encontrado'')
      | Some bank \<Rightarrow>
          res_when (pb_archivedAt bank \<noteq> None) (BadRequest ''Cofre ja arquivado'')
          (res_when (balanceDecimalFromTransactions D (bank_txs db bank) > 0)
             (Conflict ''Saque o saldo do cofrinho antes de arquivar'')
          (Inr (update_bank bankId (\<lambda>b. b\<lparr>pb_archivedAt := Some now\<rparr>) db))))"

definition deletePiggyBank :: "string \<Rightarrow> string \<Rightarrow> finance_db \<Rightarrow> finance_db res" where
  "deletePiggyBank userId bankId db =
     (case find_bank db userId bankId of
        None \<Rightarrow> Inl (NotFound ''Cofre nao encontrado'')
      | Some bank \<Rightarrow>
          res_when (length (bank_txs db bank) > 0)
            (Conflict ''Cofres com movimentacoes devem ser arquivados para preservar o historico'')
          (Inr (db\<lparr>db_piggyBanks := filter (\<lambda>b. pb_id b \<noteq> bankId) (db_piggyBanks db)\<rparr>)))"

section \<open>Movements\<close>

definition depositToBank ::
    "decimal_lib \<Rightarrow> tz_offset \<Rightarrow> (nat \<Rightarrow> string) \<Rightarrow> fetch_history \<Rightarrow> instant \<Rightarrow> string \<Rightarrow> string \<Rightarrow> money_movement
     \<Rightarrow> finance_db \<Rightarrow> finance_db \<times> deposit_result res" where
  "depositToBank D sp newId fetchHistory now userId bankId movement db =
     withFreshInterest D sp newId fetchHistory userId now
       (depositToPiggyBankInTransaction D sp newId now
         \<lparr>dp_userId = userId, dp_piggyBankId = bankId, dp_amount = mv_amount movement, dp_source = ''manual'',
          dp_deductFromBalance = (case mv_deductFromBalance movement of None \<Rightarrow> True | Some b \<Rightarrow> b),
          dp_note = mv_note movement, dp_date = now\<rparr>) db"

definition correction_error :: "error \<Rightarrow> error" where
  "correction_error e =
     (if e = piggy_error ''CORRECTION_YIELD_BLOCKED''
      then Conflict ''Correcao indisponivel para cofrinho com CDI ativo ou rendimento historico''
      else if e = piggy_error ''CORRECTION_ORIGIN_AMBIGUOUS''
      then Conflict ''Origem do saldo ambigua: ha saques anteriores, depositos automaticos ou correcoes nao identificadas''
      else if e = piggy_error ''CORRECTION_ORIGIN_INSUFFICIENT''
      then Conflict ''Origem informada nao tem deposito suficiente para esta correcao''
      else e)"

definition withdrawFromBank ::
    "decimal_lib \<Rightarrow> tz_offset \<Rightarrow> (nat \<Rightarrow> string) \<Rightarrow> fetch_history \<Rightarrow> instant \<Rightarrow> string \<Rightarrow> string \<Rightarrow> withdraw_movement
     \<Rightarrow> finance_db \<Rightarrow> finance_db \<times> (piggy_tx \<times> entry_row option) res" where
  "withdrawFromBank D sp newId fetchHistory now userId bankId movement db =
     (if (\<not> wm_creditToBalance movement) \<noteq> (wm_correctionOrigin movement \<noteq> None) then (db, Inl origin_mismatch)
      else
        (let operation = withdrawFromPiggyBank D sp newId now
               \<lparr>wp_userId = userId, wp_piggyBankId = bankId, wp_amount = wm_amount movement,
                wp_creditToBalance = wm_creditToBalance movement, wp_correctionOrigin = wm_correctionOrigin movement,
                wp_note = wm_note movement, wp_date = now\<rparr> in
         if wm_correctionOrigin movement \<noteq> None
         then (case operation db of Inl e \<Rightarrow> (db, Inl (correction_error e)) | Inr (db', r) \<Rightarrow> (db', Inr r))
         else withFreshInterest D sp newId fetchHistory userId now operation db))"

definition processAutoDebit ::
    "decimal_lib \<Rightarrow> tz_offset \<Rightarrow> (nat \<Rightarrow> string) \<Rightarrow> fetch_history \<Rightarrow> instant \<Rightarrow> string \<Rightarrow> finance_db \<Rightarrow> finance_db \<times> catch_up" where
  "processAutoDebit D sp newId fetchHistory now userId db = catchUpPiggyInterest D sp newId fetchHistory userId now db"

end
