(* ===== verification/Piggy_Books.thy ===== *)
theory Piggy_Books
  imports Piggy_Service
begin

text \<open>
  What each transaction on piggy banks does to the books. The books are an abstract account per
  bank, its balance and whether it is closed; \<open>account_step\<close> lists the moves an account allows. The
  lemmas of the theory give the effect of each transaction on the tables, from which
  \<open>Piggy_System\<close> concludes that every transaction is a sequence of account moves.
\<close>

section \<open>Accounts\<close>

record account =
  ac_balance :: rat
  ac_closed :: bool

type_synonym accounts = "string \<Rightarrow> account option"

inductive account_step :: "accounts \<Rightarrow> accounts \<Rightarrow> bool" where
  open_account: "s i = None \<Longrightarrow> account_step s (s(i \<mapsto> \<lparr>ac_balance = 0, ac_closed = False\<rparr>))"
| pay_in: "s i = Some \<lparr>ac_balance = b, ac_closed = False\<rparr> \<Longrightarrow> 0 \<le> a
    \<Longrightarrow> account_step s (s(i \<mapsto> \<lparr>ac_balance = b + a, ac_closed = False\<rparr>))"
| pay_out: "s i = Some \<lparr>ac_balance = b, ac_closed = False\<rparr> \<Longrightarrow> 0 \<le> a \<Longrightarrow> a \<le> b
    \<Longrightarrow> account_step s (s(i \<mapsto> \<lparr>ac_balance = b - a, ac_closed = False\<rparr>))"
| close_account: "s i = Some \<lparr>ac_balance = 0, ac_closed = False\<rparr>
    \<Longrightarrow> account_step s (s(i \<mapsto> \<lparr>ac_balance = 0, ac_closed = True\<rparr>))"
| remove_account: "s i = Some \<lparr>ac_balance = 0, ac_closed = c\<rparr> \<Longrightarrow> account_step s (s(i := None))"

definition sound_accounts :: "accounts \<Rightarrow> bool" where
  "sound_accounts s \<longleftrightarrow> (\<forall>i a. s i = Some a \<longrightarrow> 0 \<le> ac_balance a \<and> (ac_closed a \<longrightarrow> ac_balance a = 0))"

lemma account_step_sound: "account_step s s' \<Longrightarrow> sound_accounts s \<Longrightarrow> sound_accounts s'"
  by (induction rule: account_step.induct) (fastforce simp: sound_accounts_def split: if_splits)+

lemma account_steps_sound: "account_step\<^sup>*\<^sup>* s s' \<Longrightarrow> sound_accounts s \<Longrightarrow> sound_accounts s'"
  by (induction rule: rtranclp_induct) (auto intro: account_step_sound)

section \<open>The account of a bank\<close>

definition account_of :: "finance_db \<Rightarrow> piggy_bank \<Rightarrow> account" where
  "account_of db b = \<lparr>ac_balance = ledger_sum (bank_txs db b), ac_closed = (pb_archivedAt b \<noteq> None)\<rparr>"

definition accounts_of :: "finance_db \<Rightarrow> accounts" where
  "accounts_of db i = map_option (account_of db) (find (\<lambda>b. pb_id b = i) (db_piggyBanks db))"

text \<open>
  The tables are sound: bank ids are unique, goals are amounts the parser accepts, and every
  ledger row is a nonnegative number of cents on a bank of its user.
\<close>

definition ok_goal :: "rat option \<Rightarrow> bool" where
  "ok_goal g = (case g of None \<Rightarrow> True | Some a \<Rightarrow> cents a \<and> 0 \<le> a \<and> a \<le> MAX_MONEY_AMOUNT)"

definition ok_row :: "piggy_bank list \<Rightarrow> piggy_tx \<Rightarrow> bool" where
  "ok_row banks t \<longleftrightarrow> cents (le_amount t) \<and> 0 \<le> le_amount t
     \<and> list_ex (\<lambda>b. pb_id b = pt_piggyBankId t \<and> pb_userId b = pt_userId t) banks"

definition sound_books :: "finance_db \<Rightarrow> bool" where
  "sound_books db \<longleftrightarrow> distinct (map pb_id (db_piggyBanks db))
     \<and> list_all (\<lambda>b. ok_goal (pb_goalAmount b)) (db_piggyBanks db)
     \<and> list_all (ok_row (db_piggyBanks db)) (db_piggyTx db)"

text \<open>The turnover of all ledgers together fits the precision of the decimal library.\<close>

definition small_books :: "finance_db \<Rightarrow> bool" where
  "small_books db \<longleftrightarrow> (\<Sum>t \<leftarrow> db_piggyTx db. le_amount t) < 10 ^ 11"

lemma sound_booksD:
  assumes "sound_books db"
  shows "distinct (map pb_id (db_piggyBanks db))" "\<And>b. b \<in> set (db_piggyBanks db) \<Longrightarrow> ok_goal (pb_goalAmount b)"
    "\<And>t. t \<in> set (db_piggyTx db) \<Longrightarrow> ok_row (db_piggyBanks db) t"
  using assms by (simp_all add: sound_books_def list_all_iff)

lemma sound_ledger: "sound_books db \<Longrightarrow> small_books db \<Longrightarrow> ok_ledger (db_piggyTx db)"
  by (auto simp: sound_books_def small_books_def ok_ledger_def list_all_iff ok_row_def)

lemma sound_bank_ledger: "sound_books db \<Longrightarrow> small_books db \<Longrightarrow> ok_ledger (bank_txs db b)"
  unfolding bank_txs_def by (intro ok_ledger_filter sound_ledger)

lemma find_bank_Some:
  assumes "find_bank db u i = Some b"
  shows "b \<in> set (db_piggyBanks db)" "pb_id b = i" "pb_userId b = u"
  using assms by (auto simp: find_bank_def find_Some_iff)

lemma find_by_id:
  assumes "distinct (map pb_id bs)" "b \<in> set bs"
  shows "find (\<lambda>c. pb_id c = pb_id b) bs = Some b"
  using assms by (induction bs) (auto simp: image_iff)

lemma accounts_of_bank:
  "sound_books db \<Longrightarrow> b \<in> set (db_piggyBanks db) \<Longrightarrow> accounts_of db (pb_id b) = Some (account_of db b)"
  by (simp add: accounts_of_def find_by_id sound_booksD(1))

lemma bank_txs_simps:
  "bank_txs (db\<lparr>db_piggyBanks := bs\<rparr>) b = bank_txs db b"
  "bank_txs (db\<lparr>db_expenses := es\<rparr>) b = bank_txs db b"
  "bank_txs (db\<lparr>db_entries := ns\<rparr>) b = bank_txs db b"
  "bank_txs (update_bank i f db) b = bank_txs db b"
  by (simp_all add: bank_txs_def update_bank_def)

lemma update_bank_tables [simp]:
  "db_piggyTx (update_bank i f db) = db_piggyTx db" "db_expenses (update_bank i f db) = db_expenses db"
  "db_entries (update_bank i f db) = db_entries db"
  "db_piggyBanks (update_bank i f db) = map (\<lambda>b. if pb_id b = i then f b else b) (db_piggyBanks db)"
  by (simp_all add: update_bank_def)

lemma find_map_id:
  assumes "\<And>b. pb_id (f b) = pb_id b"
  shows "find (\<lambda>c. pb_id c = j) (map (\<lambda>b. if pb_id b = i then f b else b) bs)
    = map_option (\<lambda>b. if pb_id b = i then f b else b) (find (\<lambda>c. pb_id c = j) bs)"
  using assms by (induction bs) auto

section \<open>Frames\<close>

text \<open>
  \<open>posts_rows db db' rows\<close>: the rows are appended to the ledger and the banks keep their identity,
  owner and archive mark, and sound goals. Deposits, withdrawals, debits, interest and edits of a
  bank all have this shape.
\<close>

definition same_bank :: "piggy_bank \<Rightarrow> piggy_bank \<Rightarrow> bool" where
  "same_bank b b' \<longleftrightarrow> pb_id b' = pb_id b \<and> pb_userId b' = pb_userId b \<and> pb_archivedAt b' = pb_archivedAt b
     \<and> (ok_goal (pb_goalAmount b) \<longrightarrow> ok_goal (pb_goalAmount b'))"

definition posts_rows :: "finance_db \<Rightarrow> finance_db \<Rightarrow> piggy_tx list \<Rightarrow> bool" where
  "posts_rows db db' rows \<longleftrightarrow> db_piggyTx db' = db_piggyTx db @ rows
     \<and> list_all2 same_bank (db_piggyBanks db) (db_piggyBanks db')"

lemma same_bank_refl [simp]: "same_bank b b"
  by (simp add: same_bank_def)

lemma same_banks_refl [simp]: "list_all2 same_bank bs bs"
  by (simp add: list_all2_refl)

lemma same_bank_trans: "same_bank a b \<Longrightarrow> same_bank b c \<Longrightarrow> same_bank a c"
  by (simp add: same_bank_def)

lemma same_banks_trans:
  "list_all2 same_bank as bs \<Longrightarrow> list_all2 same_bank bs cs \<Longrightarrow> list_all2 same_bank as cs"
  by (rule list_all2_trans [OF same_bank_trans])

lemma same_banks_update:
  assumes "\<And>b. b \<in> set bs \<Longrightarrow> pb_id b = i \<Longrightarrow> same_bank b (f b)"
  shows "list_all2 same_bank bs (map (\<lambda>b. if pb_id b = i then f b else b) bs)"
  using assms by (induction bs) auto

lemma same_banks_ids: "list_all2 same_bank bs cs \<Longrightarrow> map pb_id cs = map pb_id bs"
  by (induction rule: list_all2_induct) (auto simp: same_bank_def)

lemma same_banks_ok_row: "list_all2 same_bank bs cs \<Longrightarrow> ok_row cs t = ok_row bs t"
proof -
  assume "list_all2 same_bank bs cs"
  then have "list_ex (\<lambda>b. pb_id b = i \<and> pb_userId b = u) cs = list_ex (\<lambda>b. pb_id b = i \<and> pb_userId b = u) bs" for i u
    by (induction rule: list_all2_induct) (auto simp: same_bank_def)
  then show ?thesis by (simp add: ok_row_def)
qed

lemma same_banks_ok_goals:
  "list_all2 same_bank bs cs \<Longrightarrow> list_all (\<lambda>b. ok_goal (pb_goalAmount b)) bs \<Longrightarrow> list_all (\<lambda>b. ok_goal (pb_goalAmount b)) cs"
  by (induction rule: list_all2_induct) (auto simp: same_bank_def)

lemma posts_rows_sound:
  assumes "posts_rows db db' rows" "sound_books db" "list_all (ok_row (db_piggyBanks db)) rows"
  shows "sound_books db'"
proof -
  have b: "list_all2 same_bank (db_piggyBanks db) (db_piggyBanks db')" and t: "db_piggyTx db' = db_piggyTx db @ rows"
    using assms(1) by (simp_all add: posts_rows_def)
  show ?thesis
    using assms(2,3) t same_banks_ids [OF b] same_banks_ok_goals [OF b]
    by (auto simp: sound_books_def list_all_iff same_banks_ok_row [OF b])
qed

lemma small_books_mono:
  assumes "small_books db'" "posts_rows db db' rows" "sound_books db'"
  shows "small_books db"
proof -
  have "0 \<le> sum_list (map le_amount rows)"
    using assms(2,3) by (intro sum_list_nonneg) (auto simp: posts_rows_def sound_books_def list_all_iff ok_row_def)
  with assms(1,2) show ?thesis by (simp add: small_books_def posts_rows_def)
qed

lemma same_banks_find:
  assumes "list_all2 same_bank bs cs"
  shows "rel_option same_bank (find (\<lambda>b. pb_id b = i) bs) (find (\<lambda>b. pb_id b = i) cs)"
  using assms by (induction rule: list_all2_induct) (auto simp: same_bank_def)

lemma same_bank_txs: "same_bank b b' \<Longrightarrow> bank_txs db b' = bank_txs db b"
  by (simp add: same_bank_def bank_txs_def)

lemma same_account: "same_bank b b' \<Longrightarrow> bank_txs db' b = bank_txs db b \<Longrightarrow> account_of db' b' = account_of db b"
  by (simp add: account_of_def same_bank_txs) (simp add: same_bank_def)

lemma find_idD: "find (\<lambda>b. pb_id b = i) bs = Some b \<Longrightarrow> pb_id b = i"
  by (auto simp: find_Some_iff)

lemma same_books:
  assumes "posts_rows db db' []"
  shows "accounts_of db' = accounts_of db"
proof
  fix i
  have "rel_option same_bank (find (\<lambda>b. pb_id b = i) (db_piggyBanks db)) (find (\<lambda>b. pb_id b = i) (db_piggyBanks db'))"
    using assms by (intro same_banks_find) (simp add: posts_rows_def)
  moreover have "same_bank c c' \<Longrightarrow> account_of db' c' = account_of db c" for c c'
    using assms by (intro same_account) (simp_all add: bank_txs_def posts_rows_def)
  note acc = this
  ultimately show "accounts_of db' i = accounts_of db i"
    by (auto simp: accounts_of_def intro: acc elim!: option.rel_cases)
qed

text \<open>One appended row changes the account of its bank by its signed amount.\<close>

lemma post_row_account:
  assumes "posts_rows db db' [t]" "sound_books db"
    and b: "b \<in> set (db_piggyBanks db)" "pb_id b = pt_piggyBankId t" "pb_userId b = pt_userId t"
  shows "accounts_of db' = (accounts_of db)(pb_id b \<mapsto>
    \<lparr>ac_balance = ledger_sum (bank_txs db b) + signed t, ac_closed = (pb_archivedAt b \<noteq> None)\<rparr>)"
proof
  fix i
  have rel: "rel_option same_bank (find (\<lambda>b. pb_id b = i) (db_piggyBanks db)) (find (\<lambda>b. pb_id b = i) (db_piggyBanks db'))"
    using assms(1) by (intro same_banks_find) (simp add: posts_rows_def)
  have txs: "bank_txs db' c = bank_txs db c @ (if pt_piggyBankId t = pb_id c \<and> pt_userId t = pb_userId c then [t] else [])" for c
    using assms(1) by (simp add: bank_txs_def posts_rows_def)
  show "accounts_of db' i = ((accounts_of db)(pb_id b \<mapsto>
    \<lparr>ac_balance = ledger_sum (bank_txs db b) + signed t, ac_closed = (pb_archivedAt b \<noteq> None)\<rparr>)) i"
  proof (cases "i = pb_id b")
    case True
    then have "find (\<lambda>b. pb_id b = i) (db_piggyBanks db) = Some b"
      using find_by_id [OF sound_booksD(1) [OF assms(2)] b(1)] by simp
    with rel obtain b' where "find (\<lambda>b. pb_id b = i) (db_piggyBanks db') = Some b'" "same_bank b b'"
      by (auto elim: option.rel_cases)
    then show ?thesis
      using True b by (simp add: accounts_of_def account_of_def txs same_bank_txs) (simp add: same_bank_def)
  next
    case False
    have "bank_txs db' c = bank_txs db c" if "pb_id c = i" for c using txs [of c] that False b(2) by simp
    then have acc: "account_of db' c' = account_of db c" if "same_bank c c'" "pb_id c = i" for c c'
      using that by (intro same_account)
    show ?thesis
      using rel False by (auto simp: accounts_of_def intro: acc [OF _ find_idD] elim!: option.rel_cases)
  qed
qed

end
