(* ===== verification/Piggy_Effects.thy ===== *)
theory Piggy_Effects
  imports Piggy_Books
begin

text \<open>
  The effect of each transaction of the piggy bank services on the tables: which rows it appends,
  what it leaves alone, and in which state of the bank it is accepted.
\<close>

section \<open>The other tables\<close>

definition other_tables :: "finance_db \<Rightarrow> finance_db \<Rightarrow> bool" where
  "other_tables db db' \<longleftrightarrow> db_cards db' = db_cards db \<and> db_users db' = db_users db \<and> db_customTags db' = db_customTags db"

lemma other_tables_update [simp]: "other_tables db (update_bank i f db') = other_tables db db'"
  by (simp add: other_tables_def update_bank_def)

section \<open>Deposits\<close>

definition remaining_goal :: "decimal_lib \<Rightarrow> finance_db \<Rightarrow> piggy_bank \<Rightarrow> rat option" where
  "remaining_goal D db bank =
     map_option (\<lambda>goal. dec_minus D goal (balanceDecimalFromTransactions D (bank_txs db bank))) (pb_goalAmount bank)"

definition accepted_deposit :: "decimal_lib \<Rightarrow> finance_db \<Rightarrow> piggy_bank \<Rightarrow> rat \<Rightarrow> rat" where
  "accepted_deposit D db bank amount =
     (case remaining_goal D db bank of None \<Rightarrow> toMoney D amount | Some r \<Rightarrow> min (toMoney D amount) r)"

text \<open>What the patrimony reads of an expense and an entry written for a movement: all of it is cash.\<close>

definition cash_expense :: "expense_row \<Rightarrow> bool" where
  "cash_expense e \<longleftrightarrow> be_cardId e = None \<and> er_splits e = [] \<and> be_archivedAt e = None \<and> er_voidedAt e = None"

definition plain_entry :: "entry_row \<Rightarrow> bool" where
  "plain_entry e \<longleftrightarrow> en_archivedAt e = None \<and> en_type e = ''outro''"

text \<open>The row of a deposit and the expense that pays for it.\<close>

definition is_deposit :: "deposit_params \<Rightarrow> piggy_bank \<Rightarrow> instant \<Rightarrow> rat \<Rightarrow> piggy_tx \<Rightarrow> expense_row list \<Rightarrow> bool" where
  "is_deposit p bank day amount t new \<longleftrightarrow> le_type t = ''deposit'' \<and> le_amount t = amount \<and> it_date t = day
     \<and> pt_piggyBankId t = pb_id bank \<and> pt_userId t = dp_userId p \<and> pt_source t = dp_source p \<and> pt_entryId t = None
     \<and> (if dp_source p = ''auto_debit'' \<or> dp_deductFromBalance p
        then \<exists>e. new = [e] \<and> pt_expenseId t = Some (er_id e) \<and> be_amount e = amount \<and> er_userId e = dp_userId p
               \<and> er_systemOrigin e = ''piggy'' \<and> er_customTagId e = None \<and> be_occurredAt e = Some day \<and> cash_expense e
        else new = [] \<and> pt_expenseId t = None)"

lemma deposit_effect:
  assumes "depositToPiggyBankInTransaction D sp newId now p db = Inr (db', r)"
  obtains (processed) "db' = db" "dr_alreadyProcessed r"
  | (posted) bank day t new where
    "find_bank db (dp_userId p) (dp_piggyBankId p) = Some bank" "pb_archivedAt bank = None"
    "todayInSaoPaulo sp (dp_date p) = Inr day"
    "dp_source p = ''auto_debit'' \<longrightarrow> existing_auto_debit db (dp_userId p) bank day = Inr None"
    "case remaining_goal D db bank of None \<Rightarrow> True | Some left \<Rightarrow> 0 < left"
    "posts_rows db db' [t]" "is_deposit p bank day (accepted_deposit D db bank (dp_amount p)) t new"
    "db_expenses db' = db_expenses db @ new" "db_entries db' = db_entries db" "\<not> dr_alreadyProcessed r"
    "dr_depositAmount r = accepted_deposit D db bank (dp_amount p)"
    "\<exists>b' \<in> set (db_piggyBanks db'). same_bank bank b' \<and>
       pb_completedAt b' = (if dr_completed r then Some day else pb_completedAt bank)"
    "dr_completed r \<longleftrightarrow> (case pb_goalAmount bank of None \<Rightarrow> False
       | Some goal \<Rightarrow> dec_plus D (balanceDecimalFromTransactions D (bank_txs db bank)) (dr_depositAmount r) \<ge> goal)
       \<and> pb_completedAt bank = None"
    "other_tables db db'"
proof -
  obtain day where day: "todayInSaoPaulo sp (dp_date p) = Inr day"
    using assms by (auto simp: depositToPiggyBankInTransaction_def res_bind_eq_Inr)
  with assms obtain bank where bank: "find_bank db (dp_userId p) (dp_piggyBankId p) = Some bank"
    by (auto simp: depositToPiggyBankInTransaction_def split: option.splits)
  with assms day obtain existing where h: "pb_archivedAt bank = None"
    "(if dp_source p = ''auto_debit'' then existing_auto_debit db (dp_userId p) bank day else Inr None) = Inr existing"
    and rest: "(case existing of
            Some t \<Rightarrow> Inr (db, \<lparr>dr_transaction = t, dr_completed = False, dr_depositAmount = 0, dr_alreadyProcessed = True\<rparr>)
          | None \<Rightarrow> record_deposit D sp newId now p bank day db) = Inr (db', r)"
    by (simp only: depositToPiggyBankInTransaction_def res_bind_Inr option.case res_when_eq_Inr res_bind_eq_Inr) auto
  show thesis
  proof (cases existing)
    case (Some t)
    with rest show thesis by (intro processed) auto
  next
    case None
    define amount where "amount = accepted_deposit D db bank (dp_amount p)"
    define expense where "expense = (if dp_source p = ''auto_debit'' \<or> dp_deductFromBalance p
      then Some (piggy_expense_row newId now (dp_userId p) bank amount day (dp_note p) (length (db_expenses db))) else None)"
    define t where "t = deposit_row newId now (dp_userId p) bank (dp_source p) amount day (map_option er_id expense)
      (dp_note p) (length (db_piggyTx db))"
    have am: "(case map_option (\<lambda>goal. dec_minus D goal (balanceDecimalFromTransactions D (bank_txs db bank))) (pb_goalAmount bank)
        of None \<Rightarrow> toMoney D (dp_amount p) | Some r \<Rightarrow> if toMoney D (dp_amount p) \<le> r then toMoney D (dp_amount p) else r) = amount"
      by (auto simp: amount_def accepted_deposit_def remaining_goal_def min_def split: option.splits)
    define completed where "completed \<longleftrightarrow> (case pb_goalAmount bank of None \<Rightarrow> False
       | Some goal \<Rightarrow> dec_plus D (balanceDecimalFromTransactions D (bank_txs db bank)) amount \<ge> goal) \<and> pb_completedAt bank = None"
    have "record_deposit D sp newId now p bank day db = Inr (db', r)" using rest None by simp
    then obtain goal where rem: "case remaining_goal D db bank of None \<Rightarrow> True | Some left \<Rightarrow> 0 < left"
      and db': "db' = update_bank (pb_id bank)
        (\<lambda>b. b\<lparr>pb_completedAt := (if completed then Some day else pb_completedAt b), pb_monthlyGoal := goal\<rparr>)
        (db\<lparr>db_expenses := db_expenses db @ (case expense of None \<Rightarrow> [] | Some e \<Rightarrow> [e]),
            db_piggyTx := db_piggyTx db @ [t]\<rparr>)"
      and r: "r = \<lparr>dr_transaction = t, dr_completed = completed, dr_depositAmount = amount, dr_alreadyProcessed = False\<rparr>"
      unfolding record_deposit_def Let_def am expense_def [symmetric] t_def [symmetric] completed_def [symmetric] res_when_eq_Inr
        res_bind_eq_Inr
      by (auto simp: remaining_goal_def not_le split: option.splits)
    have mem: "bank \<in> set (db_piggyBanks db)" using find_bank_Some(1) [OF bank] .
    show thesis
    proof (rule posted [of bank day t "case expense of None \<Rightarrow> [] | Some e \<Rightarrow> [e]"])
      show "posts_rows db db' [t]"
        by (simp add: posts_rows_def db') (rule same_banks_update, simp add: same_bank_def)
      show "is_deposit p bank day (accepted_deposit D db bank (dp_amount p)) t (case expense of None \<Rightarrow> [] | Some e \<Rightarrow> [e])"
        by (simp add: is_deposit_def t_def deposit_row_def expense_def piggy_expense_row_def amount_def cash_expense_def)
      show "\<exists>b' \<in> set (db_piggyBanks db'). same_bank bank b' \<and> pb_completedAt b' = (if dr_completed r then Some day else pb_completedAt bank)"
        using mem by (intro bexI [of _ "bank\<lparr>pb_completedAt := (if completed then Some day else pb_completedAt bank), pb_monthlyGoal := goal\<rparr>"])
          (auto simp: db' r same_bank_def intro!: image_eqI [of _ _ bank])
      show "other_tables db db'" by (simp add: db') (simp add: other_tables_def)
    qed (use bank day h None rem in \<open>auto simp: db' r completed_def amount_def split: option.splits\<close>)
  qed
qed


section \<open>Withdrawals\<close>

text \<open>The row of a withdrawal and the entry it credits.\<close>

definition is_withdrawal :: "withdraw_params \<Rightarrow> piggy_bank \<Rightarrow> instant \<Rightarrow> rat \<Rightarrow> piggy_tx \<Rightarrow> entry_row list \<Rightarrow> bool" where
  "is_withdrawal p bank day amount t new \<longleftrightarrow> le_type t = ''withdraw'' \<and> le_amount t = amount \<and> it_date t = day
     \<and> pt_piggyBankId t = pb_id bank \<and> pt_userId t = wp_userId p \<and> pt_expenseId t = None
     \<and> (if wp_creditToBalance p \<or> wp_correctionOrigin p = Some Debited
        then \<exists>e. new = [e] \<and> pt_entryId t = Some (en_id e) \<and> en_amount e = amount \<and> en_userId e = wp_userId p
               \<and> en_systemOrigin e = ''piggy'' \<and> en_customTagId e = None \<and> en_date e = Some day \<and> plain_entry e
        else new = [] \<and> pt_entryId t = None)"

lemma withdraw_effect:
  assumes "withdrawFromPiggyBank D sp newId now p db = Inr (db', r)"
  obtains bank day t new where
    "find_bank db (wp_userId p) (wp_piggyBankId p) = Some bank" "pb_archivedAt bank = None"
    "todayInSaoPaulo sp (wp_date p) = Inr day"
    "toMoney D (wp_amount p) \<le> balanceDecimalFromTransactions D (bank_txs db bank)"
    "posts_rows db db' [t]" "is_withdrawal p bank day (toMoney D (wp_amount p)) t new"
    "db_entries db' = db_entries db @ new" "db_expenses db' = db_expenses db"
    "(\<not> wp_creditToBalance p) = (wp_correctionOrigin p \<noteq> None)" "other_tables db db'"
proof -
  obtain day where day: "todayInSaoPaulo sp (wp_date p) = Inr day"
    using assms by (auto simp: withdrawFromPiggyBank_def res_bind_eq_Inr)
  with assms obtain bank where bank: "find_bank db (wp_userId p) (wp_piggyBankId p) = Some bank"
    by (auto simp: withdrawFromPiggyBank_def split: option.splits)
  with assms day have h: "pb_archivedAt bank = None" "(\<not> wp_creditToBalance p) = (wp_correctionOrigin p \<noteq> None)"
    "toMoney D (wp_amount p) \<le> balanceDecimalFromTransactions D (bank_txs db bank)"
    and rest: "record_withdrawal D sp newId now p bank day db = Inr (db', r)"
    by (simp_all only: withdrawFromPiggyBank_def res_bind_Inr option.case res_when_eq_Inr res_bind_eq_Inr) auto
  define amount where "amount = toMoney D (wp_amount p)"
  define entry where "entry = (if wp_creditToBalance p \<or> wp_correctionOrigin p = Some Debited
    then Some (withdraw_entry_row newId now (wp_userId p) bank amount day (wp_correctionOrigin p = Some Debited) (length (db_entries db)))
    else None)"
  define t where "t = withdraw_row newId now (wp_userId p) bank amount day (map_option en_id entry) (wp_correctionOrigin p)
    (wp_note p) (length (db_piggyTx db))"
  obtain f where f: "\<And>b. pb_id (f b) = pb_id b \<and> pb_userId (f b) = pb_userId b \<and> pb_archivedAt (f b) = pb_archivedAt b
      \<and> pb_goalAmount (f b) = pb_goalAmount b"
    and db': "db' = update_bank (pb_id bank) f
      (db\<lparr>db_entries := db_entries db @ (case entry of None \<Rightarrow> [] | Some e \<Rightarrow> [e]), db_piggyTx := db_piggyTx db @ [t]\<rparr>)"
    using rest unfolding record_withdrawal_def Let_def amount_def [symmetric] entry_def [symmetric] t_def [symmetric] res_bind_eq_Inr
    by (elim exE conjE Inr_inject [elim_format] Pair_inject) (rule that [rotated], erule sym, simp)
  show thesis
  proof (rule that [of bank day t "case entry of None \<Rightarrow> [] | Some e \<Rightarrow> [e]"])
    show "posts_rows db db' [t]"
      using f by (simp add: posts_rows_def db') (rule same_banks_update, simp add: same_bank_def)
    show "is_withdrawal p bank day (toMoney D (wp_amount p)) t (case entry of None \<Rightarrow> [] | Some e \<Rightarrow> [e])"
      by (simp add: is_withdrawal_def t_def withdraw_row_def entry_def withdraw_entry_row_def amount_def plain_entry_def)
    show "other_tables db db'" by (simp add: db') (simp add: other_tables_def)
  qed (use bank day h in \<open>auto simp: db'\<close>)
qed

section \<open>Automatic debits\<close>

lemma cycle_effect:
  assumes "processPiggyAutoDebitCycle D sp newId userId bankId cycle now db = Inr (db', outcome)"
  obtains (idle) "db' = db" "outcome \<noteq> Created"
  | (debit) p r where "dp_userId p = userId" "dp_piggyBankId p = bankId" "dp_source p = ''auto_debit''"
    "dp_date p = ac_dueOn cycle" "0 \<le> dp_amount p" "depositToPiggyBankInTransaction D sp newId now p db = Inr (db', r)"
    "outcome = (if dr_alreadyProcessed r then Skipped else Created)"
proof -
  show thesis
  proof (cases "find (\<lambda>b. pb_id b = bankId \<and> pb_userId b = userId \<and> pb_autoDebit b \<and> pb_archivedAt b = None \<and> pb_completedAt b = None)
      (db_piggyBanks db)")
    case None
    with assms show thesis by (intro idle) (simp_all add: processPiggyAutoDebitCycle_def)
  next
    case (Some bank)
    then have bank: "pb_id bank = bankId" "pb_userId bank = userId" by (auto simp: find_Some_iff)
    define left where "left = map_option (\<lambda>goal. dec_minus D goal (balanceDecimalFromTransactions D (bank_txs db bank))) (pb_goalAmount bank)"
    define amount where "amount = (case left of None \<Rightarrow> pb_monthlyGoal bank
      | Some r \<Rightarrow> if pb_monthlyGoal bank > r then r else pb_monthlyGoal bank)"
    define p where "p = \<lparr>dp_userId = userId, dp_piggyBankId = bankId, dp_amount = amount, dp_source = ''auto_debit'',
      dp_deductFromBalance = True, dp_note = Some ''Debito automatico mensal'', dp_date = ac_dueOn cycle\<rparr>"
    have e: "(if pb_monthlyGoal bank \<le> 0 then Inr (db, Stop)
           else res_bind (isScheduledAutoDebitCycleStillDue sp cycle now bank) (\<lambda>due.
             if \<not> due then Inr (db, Skipped)
             else if hasAutoDebitInCycle sp (bank_txs db bank) (Some cycle) then Inr (db, Skipped)
             else if (case left of None \<Rightarrow> False | Some r \<Rightarrow> r \<le> 0) then Inr (db, Stop)
             else res_bind (depositToPiggyBankInTransaction D sp newId now p db)
               (\<lambda>(db', deposit). Inr (db', if dr_alreadyProcessed deposit then Skipped else Created)))) = Inr (db', outcome)"
      using assms unfolding processPiggyAutoDebitCycle_def Some option.case Let_def bank(1) left_def [symmetric] amount_def [symmetric]
        p_def [symmetric] .
    show thesis
    proof (cases "pb_monthlyGoal bank \<le> 0 \<or> (case left of None \<Rightarrow> False | Some r \<Rightarrow> r \<le> 0)")
      case True
      with e show thesis by (intro idle) (auto simp: res_bind_eq_Inr split: if_splits)
    next
      case False
      then have am: "0 \<le> amount" by (auto simp: amount_def split: option.splits)
      from False e consider "db' = db \<and> outcome \<noteq> Created"
        | r where "depositToPiggyBankInTransaction D sp newId now p db = Inr (db', r)"
          "outcome = (if dr_alreadyProcessed r then Skipped else Created)"
        by (auto simp: res_bind_eq_Inr split: if_splits)
      then show thesis
      proof cases
        case 1
        then show thesis by (intro idle) auto
      next
        case (2 r)
        then show thesis by (intro debit [of p r]) (use am in \<open>simp_all add: p_def\<close>)
      qed
    qed
  qed
qed


section \<open>Interest\<close>

definition is_interest :: "piggy_bank list \<Rightarrow> piggy_tx \<Rightarrow> bool" where
  "is_interest banks t \<longleftrightarrow> le_type t = ''interest'' \<and> cents (le_amount t) \<and> 0 \<le> le_amount t \<and> pt_source t = ''yield''
     \<and> list_ex (\<lambda>b. pb_id b = pt_piggyBankId t \<and> pb_userId b = pt_userId t \<and> pb_archivedAt b = None) banks"

context decimal_arith
begin

lemma dec_places_cents: "cents (dec_places D 2 ROUND_DOWN x)"
  by (simp add: places round_places_def)

lemma accrue_point_postings:
  assumes "list_all (\<lambda>p. cents (ip_amount p) \<and> 0 < ip_amount p) (as_postings st)"
  shows "list_all (\<lambda>p. cents (ip_amount p) \<and> 0 < ip_amount p) (as_postings (accrue_point D bankId txs days totals percent st p))"
proof (cases "index_by_key txs (interest_key bankId (mp_date p))")
  case None
  then show ?thesis using assms by (simp add: accrue_point_def Let_def dec_places_cents)
qed (use assms in \<open>simp add: accrue_point_def Let_def\<close>)

lemma accrued_postings:
  "list_all (\<lambda>p. cents (ip_amount p) \<and> 0 < ip_amount p)
     (ia_postings (accrueCdiInterest D sp bankId txs through points percent startKey targetKey))"
proof -
  have "list_all (\<lambda>p. cents (ip_amount p) \<and> 0 < ip_amount p) (as_postings (foldl (accrue_point D bankId txs days totals percent) st ps))"
    if "list_all (\<lambda>p. cents (ip_amount p) \<and> 0 < ip_amount p) (as_postings st)" for st days totals ps
    using that
  proof (induction ps arbitrary: st)
    case (Cons p ps)
    show ?case
      unfolding foldl_Cons by (rule Cons.IH [OF accrue_point_postings [OF Cons.prems]])
  qed simp
  then show ?thesis by (simp add: accrueCdiInterest_def Let_def)
qed

lemma post_rows_interest:
  assumes "res_fold (post_row D newId now userId bank k) ([], b, None) ps = Inr (rows, b', c)"
    and "list_all (\<lambda>p. cents (ip_amount p) \<and> 0 < ip_amount p) ps"
    and "bank \<in> set banks" "pb_userId bank = userId" "pb_archivedAt bank = None"
  shows "list_all (is_interest banks) rows"
proof -
  have "list_all (is_interest banks) (fst (rows, b', c))"
  proof (rule res_fold_invariant [OF assms(1)])
    fix s p s'
    assume "p \<in> set ps" "list_all (is_interest banks) (fst s)" "post_row D newId now userId bank k s p = Inr s'"
    moreover from this have "is_interest banks (interest_row newId now userId bank p d i)" for d i
      using assms(2-5) by (auto simp: is_interest_def interest_row_def list_all_iff list_ex_iff less_imp_le intro!: bexI [of _ bank])
    ultimately show "list_all (is_interest banks) (fst s')"
      by (cases s) (auto simp: post_row_def res_bind_eq_Inr Let_def)
  qed simp
  then show ?thesis by simp
qed

lemma accrue_bank_step:
  assumes "accrue_bank D sp newId now userId series targetKey db0 acc bank = Inr acc'"
    and "bank \<in> set banks" "pb_userId bank = userId" "pb_archivedAt bank = None"
  shows "\<exists>f rows. fst acc' = update_bank (pb_id bank) f (fst acc) \<and> (\<forall>b. same_bank b (f b)) \<and> snd acc' = snd acc @ rows
    \<and> list_all (is_interest banks) rows"
proof -
  have stay: ?thesis if "acc' = acc"
    using that by (intro exI [of _ "\<lambda>b. b"] exI [of _ "[]"]) (simp add: update_bank_def)
  show ?thesis
  proof (cases "series (pb_id bank)")
    case (Some s)
    with assms(1) obtain startKey where s: "(if startKey > targetKey then Inr acc
       else (let transactions = sort_key it_date (sort_key pt_createdAt (bank_txs db0 bank));
                 result = accrueCdiInterest D sp (pb_id bank) transactions (map_option dayKeyOfDate (pb_interestAccruedThrough bank))
                            (ms_points s) (pb_cdiPercent bank) startKey targetKey in
             res_bind (res_fold (post_row D newId now userId bank (length (db_piggyTx db0) + length (snd acc)))
                         ([], balanceDecimalFromTransactions D transactions, None) (ia_postings result))
               (\<lambda>(rows, runningBalance, completedAt).
             res_bind (case ia_accruedThrough result of
                         None \<Rightarrow> Inr None
                       | Some k \<Rightarrow> res_bind (dayKeyToDate k Noon) (\<lambda>d. Inr (Some d))) (\<lambda>nextThrough.
             res_bind (if ia_postings result \<noteq> [] \<and> pb_goalAmount bank \<noteq> None \<and> pb_targetDate bank \<noteq> None
                       then computeMonthlyGoal D sp (pb_goalAmount bank) (pb_targetDate bank) now runningBalance
                              (if pb_autoDebit bank then Some (pb_autoDebitDay bank) else None)
                              (hasAutoDebitInCurrentMonth sp (bank_txs db0 bank) now)
                       else Inr (pb_monthlyGoal bank)) (\<lambda>monthlyGoal.
             Inr (update_bank (pb_id bank)
                    (\<lambda>b. b\<lparr>pb_interestAccruedThrough := (if nextThrough \<noteq> None then nextThrough else pb_interestAccruedThrough b),
                          pb_completedAt := (if completedAt \<noteq> None then completedAt else pb_completedAt b),
                          pb_monthlyGoal := monthlyGoal\<rparr>) (fst acc),
                  snd acc @ rows)))))) = Inr acc'"
      by (auto simp: accrue_bank_def res_bind_eq_Inr)
    define txs where "txs = sort_key it_date (sort_key pt_createdAt (bank_txs db0 bank))"
    define result where "result = accrueCdiInterest D sp (pb_id bank) txs (map_option dayKeyOfDate (pb_interestAccruedThrough bank))
      (ms_points s) (pb_cdiPercent bank) startKey targetKey"
    show ?thesis
    proof (cases "startKey > targetKey")
      case False
      then obtain rows running c through goal where
        rows: "res_fold (post_row D newId now userId bank (length (db_piggyTx db0) + length (snd acc)))
          ([], balanceDecimalFromTransactions D txs, None) (ia_postings result) = Inr (rows, running, c)"
        and acc': "acc' = (update_bank (pb_id bank)
                    (\<lambda>b. b\<lparr>pb_interestAccruedThrough := (if through \<noteq> None then through else pb_interestAccruedThrough b),
                          pb_completedAt := (if c \<noteq> None then c else pb_completedAt b),
                          pb_monthlyGoal := goal\<rparr>) (fst acc), snd acc @ rows)"
        using s unfolding Let_def txs_def [symmetric] result_def [symmetric] by (auto simp: res_bind_eq_Inr)
      have "list_all (is_interest banks) rows"
        by (rule post_rows_interest [OF rows _ assms(2-4)]) (simp add: result_def accrued_postings)
      then show ?thesis unfolding acc' by (intro exI conjI) (auto simp: same_bank_def)
    qed (use s stay in simp)
  qed (use assms(1) stay in \<open>simp add: accrue_bank_def\<close>)
qed

lemma accrue_effect:
  assumes "accrue_banks D sp newId now userId series targetKey db = Inr (db', n)"
  obtains rows where "posts_rows db db' rows" "list_all (is_interest (db_piggyBanks db)) rows" "n = length rows"
    "db_expenses db' = db_expenses db" "db_entries db' = db_entries db" "list_all (\<lambda>t. pt_userId t = userId) rows"
proof -
  define open_banks where "open_banks = filter (\<lambda>b. pb_id b \<in> fst ` set series \<and> yields userId b) (db_piggyBanks db)"
  have ob: "b \<in> set (filter (\<lambda>b. pb_userId b = userId) (db_piggyBanks db))" "pb_userId b = userId" "pb_archivedAt b = None"
    if "b \<in> set open_banks" for b
    using that by (auto simp: open_banks_def yields_def)
  obtain db1 rows where fold: "res_fold (accrue_bank D sp newId now userId (map_of series) targetKey db) (db, []) open_banks = Inr (db1, rows)"
    and out: "db' = db1\<lparr>db_piggyTx := db_piggyTx db1 @ rows\<rparr>" "n = length rows"
    using assms by (auto simp: accrue_banks_def Let_def res_bind_eq_Inr open_banks_def)
  let ?P = "\<lambda>acc. db_piggyTx (fst acc) = db_piggyTx db \<and> list_all2 same_bank (db_piggyBanks db) (db_piggyBanks (fst acc))
    \<and> db_expenses (fst acc) = db_expenses db \<and> db_entries (fst acc) = db_entries db
    \<and> list_all (is_interest (filter (\<lambda>b. pb_userId b = userId) (db_piggyBanks db))) (snd acc)"
  have P: "?P (db1, rows)"
  proof (rule res_fold_invariant [OF fold])
    fix acc b acc'
    assume b: "b \<in> set open_banks" and "?P acc" and s: "accrue_bank D sp newId now userId (map_of series) targetKey db acc b = Inr acc'"
    obtain f new where "fst acc' = update_bank (pb_id b) f (fst acc)" "\<forall>b. same_bank b (f b)" "snd acc' = snd acc @ new"
      "list_all (is_interest (filter (\<lambda>b. pb_userId b = userId) (db_piggyBanks db))) new"
      using accrue_bank_step [OF s ob [OF b]] by blast
    then show "?P acc'"
      using \<open>?P acc\<close> same_banks_trans [OF _ same_banks_update [of "db_piggyBanks (fst acc)" "pb_id b" f]] by simp
  qed simp
  have "list_all (is_interest (db_piggyBanks db)) rows" "list_all (\<lambda>t. pt_userId t = userId) rows"
    using P by (auto simp: list_all_iff is_interest_def list_ex_iff)
  then show thesis using P out by (intro that [of rows]) (simp_all add: posts_rows_def)
qed

end

end
