(* ===== verification/Piggy_System.thy ===== *)
theory Piggy_System
  imports Piggy_Effects
begin

text \<open>
  The piggy bank transactions as one transition system on the tables. \<open>piggy_step\<close> is one committed
  transaction: a request of \<open>services/piggy-banks.ts\<close> with its parsed body, one automatic debit or one
  interest run. Between them the other services may do anything that leaves the piggy bank rows
  alone (\<open>keeps_piggy_rows\<close>). The requests that
  first settle debits and interest are sequences of such steps, interleaved in any order with the
  steps of other requests.
\<close>

definition manual_deposit :: "string \<Rightarrow> string \<Rightarrow> money_movement \<Rightarrow> instant \<Rightarrow> deposit_params" where
  "manual_deposit userId bankId movement now =
     \<lparr>dp_userId = userId, dp_piggyBankId = bankId, dp_amount = mv_amount movement, dp_source = ''manual'',
      dp_deductFromBalance = (case mv_deductFromBalance movement of None \<Rightarrow> True | Some b \<Rightarrow> b),
      dp_note = mv_note movement, dp_date = now\<rparr>"

definition requested_withdrawal :: "string \<Rightarrow> string \<Rightarrow> withdraw_movement \<Rightarrow> instant \<Rightarrow> withdraw_params" where
  "requested_withdrawal userId bankId movement now =
     \<lparr>wp_userId = userId, wp_piggyBankId = bankId, wp_amount = wm_amount movement,
      wp_creditToBalance = wm_creditToBalance movement, wp_correctionOrigin = wm_correctionOrigin movement,
      wp_note = wm_note movement, wp_date = now\<rparr>"

definition piggy_expenses :: "finance_db \<Rightarrow> expense_row list" where
  "piggy_expenses db = filter (\<lambda>e. er_systemOrigin e = ''piggy'') (db_expenses db)"

definition piggy_entries :: "finance_db \<Rightarrow> entry_row list" where
  "piggy_entries db = filter (\<lambda>e. en_systemOrigin e = ''piggy'') (db_entries db)"

text \<open>What the other services owe the piggy banks: their rows stay as they are.\<close>

definition keeps_piggy_rows :: "finance_db \<Rightarrow> finance_db \<Rightarrow> bool" where
  "keeps_piggy_rows db db' \<longleftrightarrow> db_piggyBanks db' = db_piggyBanks db \<and> db_piggyTx db' = db_piggyTx db
     \<and> piggy_expenses db' = piggy_expenses db \<and> piggy_entries db' = piggy_entries db"

text \<open>The services of manual rows leave the rows of every other origin as they are.\<close>

definition keeps_system_rows :: "finance_db \<Rightarrow> finance_db \<Rightarrow> bool" where
  "keeps_system_rows db db' \<longleftrightarrow> db_piggyBanks db' = db_piggyBanks db \<and> db_piggyTx db' = db_piggyTx db
     \<and> filter (\<lambda>e. er_systemOrigin e \<noteq> ''manual'') (db_expenses db') = filter (\<lambda>e. er_systemOrigin e \<noteq> ''manual'') (db_expenses db)
     \<and> filter (\<lambda>e. en_systemOrigin e \<noteq> ''manual'') (db_entries db') = filter (\<lambda>e. en_systemOrigin e \<noteq> ''manual'') (db_entries db)"

lemma filter_finer:
  assumes "filter P xs = filter P ys" "\<And>x. Q x \<Longrightarrow> P x"
  shows "filter Q xs = filter Q ys"
proof -
  have "filter Q zs = filter Q (filter P zs)" for zs using assms(2) by (induction zs) auto
  then show ?thesis using assms(1) by metis
qed

lemma system_rows_piggy: "keeps_system_rows db db' \<Longrightarrow> keeps_piggy_rows db db'"
  unfolding keeps_system_rows_def keeps_piggy_rows_def piggy_expenses_def piggy_entries_def
  by (auto intro: filter_finer)

inductive piggy_step :: "decimal_lib \<Rightarrow> tz_offset \<Rightarrow> finance_db \<Rightarrow> finance_db \<Rightarrow> bool" for D sp where
  create_bank: "parseCreatePiggy sp now body = Inr input \<Longrightarrow> newId (length (db_piggyBanks db)) \<notin> pb_id ` set (db_piggyBanks db)
    \<Longrightarrow> createPiggyBank D sp newId now userId input db = Inr (db', b) \<Longrightarrow> piggy_step D sp db db'"
| edit_bank: "parseUpdatePiggy sp now body = Inr input \<Longrightarrow> apply_piggy_update D sp now userId bankId input db = Inr (db', b)
    \<Longrightarrow> piggy_step D sp db db'"
| archive_bank: "archivePiggyBank D now userId bankId db = Inr db' \<Longrightarrow> piggy_step D sp db db'"
| delete_bank: "deletePiggyBank userId bankId db = Inr db' \<Longrightarrow> piggy_step D sp db db'"
| deposit: "parseMoneyMovement body = Inr movement
    \<Longrightarrow> depositToPiggyBankInTransaction D sp newId now (manual_deposit userId bankId movement now) db = Inr (db', r)
    \<Longrightarrow> piggy_step D sp db db'"
| withdraw: "parseWithdrawMovement body = Inr taken
    \<Longrightarrow> withdrawFromPiggyBank D sp newId now (requested_withdrawal userId bankId taken now) db = Inr (db', w)
    \<Longrightarrow> piggy_step D sp db db'"
| auto_debit: "ok_day (local_day sp now) \<Longrightarrow> ok_day (local_day sp createdAt) \<Longrightarrow> (\<And>e. enabledAt = Some e \<Longrightarrow> ok_day (local_day sp e))
    \<Longrightarrow> listDueAutoDebitCycles sp now createdAt day enabledAt = Inr cycles \<Longrightarrow> cycle \<in> set cycles
    \<Longrightarrow> processPiggyAutoDebitCycle D sp newId userId bankId cycle now db = Inr (db', outcome) \<Longrightarrow> piggy_step D sp db db'"
| interest: "accrue_banks D sp newId now userId series targetKey db = Inr (db', n) \<Longrightarrow> piggy_step D sp db db'"

text \<open>
  The states reached from a database without piggy banks, as long as the ledgers' turnover stays
  within the precision of the decimal library.
\<close>

inductive reachable :: "decimal_lib \<Rightarrow> tz_offset \<Rightarrow> finance_db \<Rightarrow> bool" for D sp where
  start: "db_piggyBanks db = [] \<Longrightarrow> db_piggyTx db = [] \<Longrightarrow> piggy_expenses db = [] \<Longrightarrow> piggy_entries db = [] \<Longrightarrow> reachable D sp db"
| step: "reachable D sp db \<Longrightarrow> piggy_step D sp db db' \<Longrightarrow> small_books db' \<Longrightarrow> reachable D sp db'"
| others: "reachable D sp db \<Longrightarrow> keeps_piggy_rows db db' \<Longrightarrow> reachable D sp db'"

section \<open>Steps refine account moves\<close>

lemma ok_goal_parsed: "parseGoal v = Inr g \<Longrightarrow> ok_goal g"
  by (auto simp: parseGoal_def ok_goal_def parsePositiveAmount_def dest!: parseMoneyAmount_sound split: if_splits option.splits)

lemma created_goal:
  assumes "parseCreatePiggy sp now body = Inr input" shows "ok_goal (ci_goalAmount input)"
proof -
  obtain v where "parseGoal v = Inr (ci_goalAmount input)"
    using assms by (auto simp: parseCreatePiggy_def res_bind_eq_Inr)
  then show ?thesis by (rule ok_goal_parsed)
qed

lemma updated_goal:
  assumes "parseUpdatePiggy sp now body = Inr input" "ui_goalAmount input = Some g" shows "ok_goal g"
proof -
  obtain v where "if_present v parseGoal = Inr (ui_goalAmount input)"
    using assms(1) by (auto simp: parseUpdatePiggy_def res_bind_eq_Inr)
  with assms(2) have "parseGoal v = Inr g" by (auto simp: if_present_def res_bind_eq_Inr split: if_splits)
  then show ?thesis by (rule ok_goal_parsed)
qed

lemma movement_amount:
  assumes "parseMoneyMovement body = Inr m" shows "cents (mv_amount m)" "0 \<le> mv_amount m"
  using assms
  by (auto simp: parseMoneyMovement_def res_bind_eq_Inr parseAmount_def dest!: parseMoneyAmount_sound split: option.splits)

lemma withdrawal_amount:
  assumes "parseWithdrawMovement body = Inr m" shows "cents (wm_amount m)" "0 \<le> wm_amount m"
proof -
  obtain mv where "parseMoneyMovement body = Inr mv" "wm_amount m = mv_amount mv"
    using assms by (auto simp: parseWithdrawMovement_def Let_def res_bind_eq_Inr)
  then show "cents (wm_amount m)" "0 \<le> wm_amount m" using movement_amount by auto
qed

lemma goal_kept: "ok_goal g \<Longrightarrow> ok_goal (piggyGoalAmount g)"
  by (auto simp: piggyGoalAmount_def ok_goal_def split: option.splits)

lemma edited_same_bank:
  assumes "edited_bank D sp now input txs e = Inr b" "parseUpdatePiggy sp now body = Inr input"
  shows "same_bank e b"
proof -
  define g where "g = (case ui_goalAmount input of Some g \<Rightarrow> g | None \<Rightarrow> piggyGoalAmount (pb_goalAmount e))"
  have "ok_goal (pb_goalAmount e) \<longrightarrow> ok_goal g"
    using updated_goal [OF assms(2)] goal_kept by (auto simp: g_def split: option.splits)
  moreover have "pb_id b = pb_id e" "pb_userId b = pb_userId e" "pb_archivedAt b = pb_archivedAt e" "pb_goalAmount b = g"
    using assms(1) unfolding edited_bank_def Let_def g_def [symmetric] res_bind_eq_Inr by auto
  ultimately show ?thesis by (simp add: same_bank_def)
qed

lemma update_effect:
  assumes "apply_piggy_update D sp now userId bankId input db = Inr (db', b)" "parseUpdatePiggy sp now body = Inr input"
    and "distinct (map pb_id (db_piggyBanks db))"
  shows "posts_rows db db' []" "db_expenses db' = db_expenses db" "db_entries db' = db_entries db"
proof -
  obtain e where e: "find_bank db userId bankId = Some e"
    and b: "edited_bank D sp now input (bank_txs db e) e = Inr b" and db': "db' = update_bank bankId (\<lambda>c. b) db"
    using assms(1) by (auto simp: apply_piggy_update_def res_bind_eq_Inr split: option.splits)
  note b = edited_same_bank [OF b assms(2)]
  have "same_bank c b" if "c \<in> set (db_piggyBanks db)" "pb_id c = bankId" for c
    using find_by_id [OF assms(3) that(1)] find_by_id [OF assms(3) find_bank_Some(1) [OF e]] find_bank_Some(2) [OF e] that b
    by simp
  then show "posts_rows db db' []" "db_expenses db' = db_expenses db" "db_entries db' = db_entries db"
    by (simp_all add: posts_rows_def db') (rule same_banks_update)
qed


text \<open>Appending rows that pay into open banks is a sequence of payments.\<close>

lemma pay_in_rows:
  assumes "posts_rows db db' rows" "sound_books db"
    and "list_all (\<lambda>t. le_type t \<noteq> ''withdraw'' \<and> cents (le_amount t) \<and> 0 \<le> le_amount t
      \<and> list_ex (\<lambda>b. pb_id b = pt_piggyBankId t \<and> pb_userId b = pt_userId t \<and> pb_archivedAt b = None) (db_piggyBanks db)) rows"
  shows "sound_books db' \<and> account_step\<^sup>*\<^sup>* (accounts_of db) (accounts_of db')"
  using assms
proof (induction rows arbitrary: db)
  case Nil
  then show ?case using same_books posts_rows_sound by fastforce
next
  case (Cons t ts)
  define mid where "mid = db\<lparr>db_piggyTx := db_piggyTx db @ [t]\<rparr>"
  have pm: "posts_rows db mid [t]" and pr: "posts_rows mid db' ts"
    using Cons.prems(1) by (simp_all add: posts_rows_def mid_def)
  obtain b where b: "b \<in> set (db_piggyBanks db)" "pb_id b = pt_piggyBankId t" "pb_userId b = pt_userId t" "pb_archivedAt b = None"
    using Cons.prems(3) by (auto simp: list_ex_iff)
  have t: "le_type t \<noteq> ''withdraw''" "cents (le_amount t)" "0 \<le> le_amount t" using Cons.prems(3) by simp_all
  have "sound_books mid"
    using b t by (intro posts_rows_sound [OF pm Cons.prems(2)]) (auto simp: ok_row_def list_ex_iff)
  moreover have "account_step (accounts_of db) (accounts_of mid)"
    unfolding post_row_account [OF pm Cons.prems(2) b(1-3)]
    using pay_in [of "accounts_of db" "pb_id b" "ledger_sum (bank_txs db b)" "le_amount t"] t b(4)
      accounts_of_bank [OF Cons.prems(2) b(1)]
    by (simp add: account_of_def signed_def signedAmount_def)
  moreover have "list_all (\<lambda>t. le_type t \<noteq> ''withdraw'' \<and> cents (le_amount t) \<and> 0 \<le> le_amount t
      \<and> list_ex (\<lambda>b. pb_id b = pt_piggyBankId t \<and> pb_userId b = pt_userId t \<and> pb_archivedAt b = None) (db_piggyBanks mid)) ts"
    using Cons.prems(3) by (simp add: mid_def)
  ultimately show ?case using Cons.IH [OF pr] by (auto intro: converse_rtranclp_into_rtranclp)
qed

context decimal_arith
begin

lemma accepted_deposit_ok:
  assumes "ok_ledger (bank_txs db bank)" "ok_goal (pb_goalAmount bank)" "0 \<le> amount"
    and "case remaining_goal D db bank of None \<Rightarrow> True | Some left \<Rightarrow> 0 < left"
  shows "cents (accepted_deposit D db bank amount)" "0 \<le> accepted_deposit D db bank amount"
    "pb_goalAmount bank = Some g \<Longrightarrow> ledger_sum (bank_txs db bank) < g \<and>
       accepted_deposit D db bank amount = min (toMoney D amount) (g - ledger_sum (bank_txs db bank))"
proof -
  let ?b = "ledger_sum (bank_txs db bank)"
  have bal: "balanceDecimalFromTransactions D (bank_txs db bank) = ?b" by (rule balance_exact [OF assms(1)])
  have rem: "remaining_goal D db bank = Some (g - ?b)" if g: "pb_goalAmount bank = Some g" for g
  proof -
    have "cents g" "0 \<le> g" "g \<le> MAX_MONEY_AMOUNT" using assms(2) g by (simp_all add: ok_goal_def)
    moreover note ok_ledgerD [OF assms(1)]
    ultimately have "dec_minus D g ?b = g - ?b"
      by (intro minus_cents) (auto simp: MAX_MONEY_AMOUNT_def)
    then show ?thesis by (simp add: remaining_goal_def g bal)
  qed
  have nn: "0 \<le> toMoney D amount" by (rule toMoney_nonneg [OF assms(3)])
  have gc: "cents (g - ?b)" if g: "pb_goalAmount bank = Some g" for g
    using assms(2) ok_ledgerD(1) [OF assms(1)] g by (intro on_grid_minus) (simp_all add: ok_goal_def)
  show "cents (accepted_deposit D db bank amount)" "0 \<le> accepted_deposit D db bank amount"
  proof (atomize (full), cases "pb_goalAmount bank")
    case None
    then show "cents (accepted_deposit D db bank amount) \<and> 0 \<le> accepted_deposit D db bank amount"
      using nn by (simp add: accepted_deposit_def remaining_goal_def)
  next
    case (Some g)
    then show "cents (accepted_deposit D db bank amount) \<and> 0 \<le> accepted_deposit D db bank amount"
      using nn rem [OF Some] gc [OF Some] assms(4) by (simp add: accepted_deposit_def min_def)
  qed
  show "?b < g \<and> accepted_deposit D db bank amount = min (toMoney D amount) (g - ?b)" if g: "pb_goalAmount bank = Some g"
    using rem [OF g] assms(4) by (simp add: accepted_deposit_def)
qed

lemma deposit_refines:
  assumes "depositToPiggyBankInTransaction D sp newId now p db = Inr (db', r)" "0 \<le> dp_amount p"
    and "sound_books db" "small_books db"
  shows "sound_books db' \<and> account_step\<^sup>*\<^sup>* (accounts_of db) (accounts_of db')"
  using assms(1)
proof (cases rule: deposit_effect)
  case processed
  then show ?thesis using assms(3) by simp
next
  case (posted bank day t new)
  have b: "bank \<in> set (db_piggyBanks db)" "pb_id bank = dp_piggyBankId p" "pb_userId bank = dp_userId p"
    using find_bank_Some [OF posted(1)] .
  note acc = accepted_deposit_ok [OF sound_bank_ledger [OF assms(3,4)] sound_booksD(2) [OF assms(3) b(1)] assms(2) posted(5)]
  show ?thesis
  proof (rule pay_in_rows [OF posted(6) assms(3)])
    have "le_type t = ''deposit''" "le_amount t = accepted_deposit D db bank (dp_amount p)" "pt_piggyBankId t = pb_id bank"
      "pt_userId t = pb_userId bank"
      using posted(7) b by (auto simp: is_deposit_def)
    then show "list_all (\<lambda>t. le_type t \<noteq> ''withdraw'' \<and> cents (le_amount t) \<and> 0 \<le> le_amount t
      \<and> list_ex (\<lambda>b. pb_id b = pt_piggyBankId t \<and> pb_userId b = pt_userId t \<and> pb_archivedAt b = None) (db_piggyBanks db)) [t]"
      using acc(1,2) posted(2) b(1) by (auto simp: list_ex_iff)
  qed
qed

lemma withdraw_refines:
  assumes "withdrawFromPiggyBank D sp newId now p db = Inr (db', r)" "0 \<le> wp_amount p" "sound_books db" "small_books db"
  shows "sound_books db' \<and> account_step\<^sup>*\<^sup>* (accounts_of db) (accounts_of db')"
  using assms(1)
proof (cases rule: withdraw_effect)
  case (1 bank day t new)
  have b: "bank \<in> set (db_piggyBanks db)" "pb_id bank = wp_piggyBankId p" "pb_userId bank = wp_userId p"
    using find_bank_Some [OF 1(1)] .
  have t: "le_type t = ''withdraw''" "le_amount t = toMoney D (wp_amount p)" "pb_id bank = pt_piggyBankId t" "pb_userId bank = pt_userId t"
    using 1(6) b by (auto simp: is_withdrawal_def)
  have le: "le_amount t \<le> ledger_sum (bank_txs db bank)"
    using 1(4) t(2) by (simp add: balance_exact [OF sound_bank_ledger [OF assms(3,4)]])
  have nn: "0 \<le> le_amount t" using t(2) toMoney_nonneg [OF assms(2)] by simp
  have "account_step (accounts_of db) (accounts_of db')"
    unfolding post_row_account [OF 1(5) assms(3) b(1) t(3,4)]
    using pay_out [of "accounts_of db" "pb_id bank" "ledger_sum (bank_txs db bank)" "le_amount t"] le nn 1(2) t(1)
      accounts_of_bank [OF assms(3) b(1)]
    by (simp add: account_of_def signed_def signedAmount_def)
  moreover have "sound_books db'"
    using t nn b(1) by (intro posts_rows_sound [OF 1(5) assms(3)]) (auto simp: ok_row_def list_ex_iff)
  ultimately show ?thesis by auto
qed

end


lemma create_refines:
  assumes "createPiggyBank D sp newId now userId input db = Inr (db', b)" "ok_goal (ci_goalAmount input)"
    and fresh: "newId (length (db_piggyBanks db)) \<notin> pb_id ` set (db_piggyBanks db)" and "sound_books db"
  shows "sound_books db' \<and> account_step\<^sup>*\<^sup>* (accounts_of db) (accounts_of db')"
proof -
  have b: "pb_id b = newId (length (db_piggyBanks db))" "pb_goalAmount b = ci_goalAmount input" "pb_archivedAt b = None"
    and db': "db' = db\<lparr>db_piggyBanks := db_piggyBanks db @ [b]\<rparr>"
    using assms(1) by (auto simp: createPiggyBank_def Let_def res_bind_eq_Inr)
  have "bank_txs db b = []"
    using sound_booksD(3) [OF assms(4)] fresh b(1)
    by (auto simp: bank_txs_def filter_empty_conv ok_row_def list_ex_iff) (metis imageI)
  moreover have "find (\<lambda>c. pb_id c = pb_id b) (db_piggyBanks db) = None"
    using fresh b(1) by (simp add: find_None_iff image_iff) metis
  moreover have "find P (xs @ [x]) = (case find P xs of None \<Rightarrow> if P x then Some x else None | Some y \<Rightarrow> Some y)"
    for P and xs :: "piggy_bank list" and x
    by (induction xs) auto
  ultimately have "accounts_of db' = (accounts_of db)(pb_id b \<mapsto> \<lparr>ac_balance = 0, ac_closed = False\<rparr>)" "accounts_of db (pb_id b) = None"
    using b(3) by (auto simp: accounts_of_def account_of_def db' bank_txs_simps fun_eq_iff split: option.split)
  then have "account_step (accounts_of db) (accounts_of db')" using open_account [of "accounts_of db" "pb_id b"] by simp
  moreover have "sound_books db'"
    using assms(2,4) fresh b(1,2) by (auto simp: sound_books_def list_all_iff ok_row_def list_ex_iff db')
  ultimately show ?thesis by auto
qed

context decimal_arith
begin

lemma archive_refines:
  assumes "archivePiggyBank D now userId bankId db = Inr db'" "sound_books db" "small_books db" "sound_accounts (accounts_of db)"
  shows "sound_books db' \<and> account_step\<^sup>*\<^sup>* (accounts_of db) (accounts_of db')"
proof -
  obtain bank where f: "find_bank db userId bankId = Some bank" and open_bank: "pb_archivedAt bank = None"
    and le: "balanceDecimalFromTransactions D (bank_txs db bank) \<le> 0"
    and db': "db' = update_bank bankId (\<lambda>b. b\<lparr>pb_archivedAt := Some now\<rparr>) db"
    using assms(1) by (auto simp: archivePiggyBank_def split: option.splits)
  have b: "bank \<in> set (db_piggyBanks db)" "pb_id bank = bankId" using find_bank_Some [OF f] by simp_all
  have acc: "accounts_of db bankId = Some (account_of db bank)" using accounts_of_bank [OF assms(2) b(1)] b(2) by simp
  then have "0 \<le> ledger_sum (bank_txs db bank)"
    using assms(4) by (fastforce simp: sound_accounts_def account_of_def)
  then have "ledger_sum (bank_txs db bank) = 0"
    using le by (simp add: balance_exact [OF sound_bank_ledger [OF assms(2,3)]])
  moreover have "find (\<lambda>c. pb_id c = bankId) (db_piggyBanks db) = Some bank"
    using find_by_id [OF sound_booksD(1) [OF assms(2)] b(1)] b(2) by simp
  ultimately have "ledger_sum (bank_txs db bank) = 0" "find (\<lambda>c. pb_id c = bankId) (db_piggyBanks db) = Some bank"
    by simp_all
  note balance = this
  have "accounts_of db' i = ((accounts_of db)(bankId \<mapsto> \<lparr>ac_balance = 0, ac_closed = True\<rparr>)) i" for i
  proof (cases "find (\<lambda>c. pb_id c = i) (db_piggyBanks db)")
    case None
    with balance(2) have "i \<noteq> bankId" by auto
    with None show ?thesis by (simp add: accounts_of_def db' find_map_id)
  next
    case (Some c)
    then have "accounts_of db' i = Some (account_of db' (if i = bankId then c\<lparr>pb_archivedAt := Some now\<rparr> else c))"
      using find_idD [OF Some] by (simp add: accounts_of_def db' find_map_id)
    then show ?thesis
      using Some balance by (auto simp: accounts_of_def account_of_def db' bank_txs_def)
  qed
  moreover have "accounts_of db bankId = Some \<lparr>ac_balance = 0, ac_closed = False\<rparr>"
    using acc open_bank balance(1) by (simp add: account_of_def)
  ultimately have "accounts_of db' = (accounts_of db)(bankId \<mapsto> \<lparr>ac_balance = 0, ac_closed = True\<rparr>)"
    "accounts_of db bankId = Some \<lparr>ac_balance = 0, ac_closed = False\<rparr>"
    by (auto simp: fun_eq_iff)
  then have "account_step (accounts_of db) (accounts_of db')" using close_account [of "accounts_of db" bankId] by simp
  moreover have "map pb_id (map (\<lambda>b. if pb_id b = bankId then b\<lparr>pb_archivedAt := Some now\<rparr> else b) bs) = map pb_id bs"
    "list_all (\<lambda>b. ok_goal (pb_goalAmount b)) (map (\<lambda>b. if pb_id b = bankId then b\<lparr>pb_archivedAt := Some now\<rparr> else b) bs)
      = list_all (\<lambda>b. ok_goal (pb_goalAmount b)) bs"
    "list_ex (\<lambda>b. pb_id b = i \<and> pb_userId b = u) (map (\<lambda>b. if pb_id b = bankId then b\<lparr>pb_archivedAt := Some now\<rparr> else b) bs)
      = list_ex (\<lambda>b. pb_id b = i \<and> pb_userId b = u) bs" for bs :: "piggy_bank list" and i u
    by (induction bs) auto
  note kept = this
  have "ok_row (map (\<lambda>b. if pb_id b = bankId then b\<lparr>pb_archivedAt := Some now\<rparr> else b) (db_piggyBanks db)) = ok_row (db_piggyBanks db)"
    by (rule ext) (simp only: ok_row_def kept)
  then have "sound_books db'" using assms(2) by (simp only: sound_books_def db' update_bank_tables kept)
  ultimately show ?thesis by auto
qed

end

lemma delete_refines:
  assumes "deletePiggyBank userId bankId db = Inr db'" "sound_books db"
  shows "sound_books db' \<and> account_step\<^sup>*\<^sup>* (accounts_of db) (accounts_of db')"
proof -
  obtain bank where f: "find_bank db userId bankId = Some bank" and none: "bank_txs db bank = []"
    and db': "db' = db\<lparr>db_piggyBanks := filter (\<lambda>b. pb_id b \<noteq> bankId) (db_piggyBanks db)\<rparr>"
    using assms(1) by (auto simp: deletePiggyBank_def split: option.splits)
  have b: "bank \<in> set (db_piggyBanks db)" "pb_id bank = bankId" "pb_userId bank = userId" using find_bank_Some [OF f] by simp_all
  have "accounts_of db bankId = Some (account_of db bank)" using accounts_of_bank [OF assms(2) b(1)] b(2) by simp
  then have "account_step (accounts_of db) ((accounts_of db)(bankId := None))"
    by (intro remove_account [of _ _ "ac_closed (account_of db bank)"]) (simp add: account_of_def none)
  moreover have "find (\<lambda>c. pb_id c = i) (filter (\<lambda>b. pb_id b \<noteq> bankId) bs) = (if i = bankId then None else find (\<lambda>c. pb_id c = i) bs)"
    for i and bs :: "piggy_bank list"
    by (induction bs) auto
  note kept = this
  have "account_of db' = account_of db" by (rule ext) (simp add: account_of_def db' bank_txs_def)
  then have "accounts_of db' i = ((accounts_of db)(bankId := None)) i" for i
    by (simp add: accounts_of_def db' kept)
  then have "accounts_of db' = (accounts_of db)(bankId := None)" by (rule ext)
  moreover have "ok_row (db_piggyBanks db') t" if t: "t \<in> set (db_piggyTx db)" for t
  proof -
    obtain c where c: "c \<in> set (db_piggyBanks db)" "pb_id c = pt_piggyBankId t" "pb_userId c = pt_userId t"
      using sound_booksD(3) [OF assms(2) t] by (auto simp: ok_row_def list_ex_iff)
    have "pb_id c \<noteq> bankId"
    proof
      assume "pb_id c = bankId"
      then have "c = bank" using find_by_id [OF sound_booksD(1) [OF assms(2)]] b(1,2) c(1) by (metis option.inject)
      then show False using none t c by (auto simp: bank_txs_def filter_empty_conv)
    qed
    then show ?thesis using sound_booksD(3) [OF assms(2) t] c by (auto simp: ok_row_def list_ex_iff db')
  qed
  then have "sound_books db'"
    using assms(2) by (auto simp: sound_books_def list_all_iff db' distinct_map_filter)
  ultimately show ?thesis by auto
qed


lemma step_refines:
  assumes "decimal_arith D" "piggy_step D sp db db'" "sound_books db" "small_books db" "sound_accounts (accounts_of db)"
  shows "sound_books db' \<and> account_step\<^sup>*\<^sup>* (accounts_of db) (accounts_of db')"
  using assms(2)
proof (cases rule: piggy_step.cases)
  case (create_bank now body input newId userId b)
  then show ?thesis using create_refines [OF create_bank(3) created_goal [OF create_bank(1)] create_bank(2) assms(3)] by simp
next
  case (edit_bank now body input userId bankId b)
  note e = update_effect [OF edit_bank(2,1) sound_booksD(1) [OF assms(3)]]
  show ?thesis using posts_rows_sound [OF e(1) assms(3)] same_books [OF e(1)] by simp
next
  case (archive_bank now userId bankId)
  then show ?thesis using decimal_arith.archive_refines [OF assms(1) archive_bank(1) assms(3,4,5)] by simp
next
  case (delete_bank userId bankId)
  then show ?thesis using delete_refines [OF delete_bank assms(3)] by simp
next
  case (deposit body movement newId now userId bankId r)
  then show ?thesis
    using decimal_arith.deposit_refines [OF assms(1) deposit(2) _ assms(3,4)] movement_amount(2) [OF deposit(1)]
    by (simp add: manual_deposit_def)
next
  case (withdraw body taken newId now userId bankId w)
  then show ?thesis
    using decimal_arith.withdraw_refines [OF assms(1) withdraw(2) _ assms(3,4)] withdrawal_amount(2) [OF withdraw(1)]
    by (simp add: requested_withdrawal_def)
next
  case (auto_debit now createdAt enabledAt day cycles cycle newId userId bankId outcome)
  from auto_debit(6) show ?thesis
  proof (cases rule: cycle_effect)
    case idle
    then show ?thesis using assms(3) by simp
  next
    case (debit p r)
    then show ?thesis using decimal_arith.deposit_refines [OF assms(1) debit(6) debit(5) assms(3,4)] by simp
  qed
next
  case (interest newId now userId series targetKey n)
  obtain rows where rows: "posts_rows db db' rows" "list_all (is_interest (db_piggyBanks db)) rows"
    using decimal_arith.accrue_effect [OF assms(1) interest] by blast
  show ?thesis
    using rows(2) by (intro pay_in_rows [OF rows(1) assms(3)]) (auto simp: list_all_iff is_interest_def)
qed

lemma others_keep_books:
  assumes "keeps_piggy_rows db db'"
  shows "sound_books db' = sound_books db" "small_books db' = small_books db" "accounts_of db' = accounts_of db"
proof -
  have "account_of db' = account_of db" using assms by (intro ext) (simp add: keeps_piggy_rows_def account_of_def bank_txs_def)
  then show "accounts_of db' = accounts_of db" using assms by (intro ext) (simp add: keeps_piggy_rows_def accounts_of_def)
qed (use assms in \<open>simp_all add: keeps_piggy_rows_def sound_books_def small_books_def\<close>)

lemma reachable_sound:
  assumes "reachable D sp db" "decimal_arith D"
  shows "sound_books db \<and> small_books db \<and> sound_accounts (accounts_of db)"
  using assms(1)
proof (induction rule: reachable.induct)
  case (start db)
  then show ?case by (simp add: sound_books_def small_books_def sound_accounts_def accounts_of_def)
next
  case (step db db')
  then show ?case using step_refines [OF assms(2) step(2)] account_steps_sound by blast
next
  case (others db db')
  then show ?case by (simp add: others_keep_books)
qed

section \<open>Cash\<close>

text \<open>
  The cash a user moved in a period (any set of instants), by the ledgers of the piggy banks and by
  the expenses and entries.
\<close>

definition moved_cash :: "instant set \<Rightarrow> string \<Rightarrow> finance_db \<Rightarrow> rat" where
  "moved_cash P u db =
     (\<Sum>t \<leftarrow> filter (\<lambda>t. pt_userId t = u \<and> is_cash_movement t \<and> it_date t \<in> P) (db_piggyTx db). signed t)"

definition paid_cash :: "instant set \<Rightarrow> string \<Rightarrow> finance_db \<Rightarrow> rat" where
  "paid_cash P u db =
     (\<Sum>e \<leftarrow> filter (\<lambda>e. er_userId e = u \<and> be_occurredAt e \<in> Some ` P) (piggy_expenses db). be_amount e)
     - (\<Sum>n \<leftarrow> filter (\<lambda>n. en_userId n = u \<and> en_date n \<in> Some ` P) (piggy_entries db). en_amount n)"

lemma cash_same:
  assumes "posts_rows db db' rows" "list_all (\<lambda>t. \<not> is_cash_movement t) rows" "db_expenses db' = db_expenses db" "db_entries db' = db_entries db"
  shows "moved_cash P u db' = moved_cash P u db" "paid_cash P u db' = paid_cash P u db"
  using assms by (auto simp: moved_cash_def paid_cash_def posts_rows_def piggy_expenses_def piggy_entries_def list_all_iff filter_False)

lemma deposit_cash:
  assumes "depositToPiggyBankInTransaction D sp newId now p db = Inr (db', r)"
  shows "moved_cash P u db' - moved_cash P u db = paid_cash P u db' - paid_cash P u db"
  using assms
proof (cases rule: deposit_effect)
  case (posted bank day t new)
  then show ?thesis
    by (auto simp: moved_cash_def paid_cash_def posts_rows_def piggy_expenses_def piggy_entries_def is_deposit_def is_cash_movement_def
        signed_def signedAmount_def split: if_splits)
qed simp

lemma withdraw_cash:
  assumes "withdrawFromPiggyBank D sp newId now p db = Inr (db', r)"
  shows "moved_cash P u db' - moved_cash P u db = paid_cash P u db' - paid_cash P u db"
  using assms
proof (cases rule: withdraw_effect)
  case (1 bank day t new)
  then show ?thesis
    by (auto simp: moved_cash_def paid_cash_def posts_rows_def piggy_expenses_def piggy_entries_def is_withdrawal_def is_cash_movement_def
        signed_def signedAmount_def split: if_splits)
qed

text \<open>Creating, archiving and deleting a bank touch no other table.\<close>

lemma bank_table_only:
  "createPiggyBank D sp newId now userId input db = Inr (db', b) \<Longrightarrow>
     db_piggyTx db' = db_piggyTx db \<and> db_expenses db' = db_expenses db \<and> db_entries db' = db_entries db"
  "archivePiggyBank D now userId bankId db = Inr db' \<Longrightarrow>
     db_piggyTx db' = db_piggyTx db \<and> db_expenses db' = db_expenses db \<and> db_entries db' = db_entries db"
  "deletePiggyBank userId bankId db = Inr db' \<Longrightarrow>
     db_piggyTx db' = db_piggyTx db \<and> db_expenses db' = db_expenses db \<and> db_entries db' = db_entries db"
  "apply_piggy_update D sp now userId bankId upd db = Inr (db', b) \<Longrightarrow>
     db_piggyTx db' = db_piggyTx db \<and> db_expenses db' = db_expenses db \<and> db_entries db' = db_entries db"
  by (auto simp: createPiggyBank_def archivePiggyBank_def deletePiggyBank_def apply_piggy_update_def Let_def res_bind_eq_Inr
      split: option.splits)

lemma same_tables_cash:
  assumes "db_piggyTx db' = db_piggyTx db \<and> db_expenses db' = db_expenses db \<and> db_entries db' = db_entries db"
  shows "moved_cash P u db' - moved_cash P u db = paid_cash P u db' - paid_cash P u db"
  using assms by (simp add: moved_cash_def paid_cash_def piggy_expenses_def piggy_entries_def)

lemma step_cash:
  assumes "decimal_arith D" "piggy_step D sp db db'"
  shows "moved_cash P u db' - moved_cash P u db = paid_cash P u db' - paid_cash P u db"
  using assms(2)
proof (cases rule: piggy_step.cases)
  case (auto_debit now createdAt enabledAt day cycles cycle newId userId bankId outcome)
  from auto_debit(6) show ?thesis by (cases rule: cycle_effect) (auto dest: deposit_cash)
next
  case (interest newId now userId series targetKey n)
  obtain rows where rows: "posts_rows db db' rows" "list_all (is_interest (db_piggyBanks db)) rows"
    "db_expenses db' = db_expenses db" "db_entries db' = db_entries db"
    using decimal_arith.accrue_effect [OF assms(1) interest] by blast
  have "list_all (\<lambda>t. \<not> is_cash_movement t) rows" using rows(2) by (auto simp: list_all_iff is_interest_def is_cash_movement_def)
  then show ?thesis using cash_same [OF rows(1)] rows(3,4) by simp
qed (auto intro: same_tables_cash dest: bank_table_only deposit_cash withdraw_cash)

lemma reachable_cash:
  assumes "reachable D sp db" "decimal_arith D"
  shows "moved_cash P u db = paid_cash P u db"
  using assms(1)
proof (induction rule: reachable.induct)
  case (start db)
  then show ?case by (simp add: moved_cash_def paid_cash_def)
next
  case (step db db')
  then show ?case using step_cash [OF assms(2) step(2), of P u] by simp
next
  case (others db db')
  then show ?case by (simp add: keeps_piggy_rows_def moved_cash_def paid_cash_def)
qed


section \<open>What a step writes\<close>

text \<open>
  A step of the piggy banks writes their two tables and appends expenses and entries of origin
  \<open>piggy\<close>, which carry no tag and are cash in full; nothing else changes.
\<close>

definition piggy_expense :: "expense_row \<Rightarrow> bool" where
  "piggy_expense e \<longleftrightarrow> er_systemOrigin e = ''piggy'' \<and> er_customTagId e = None \<and> be_occurredAt e \<noteq> None \<and> cash_expense e"

definition piggy_entry :: "entry_row \<Rightarrow> bool" where
  "piggy_entry n \<longleftrightarrow> en_systemOrigin n = ''piggy'' \<and> en_customTagId n = None \<and> en_date n \<noteq> None \<and> plain_entry n"

definition piggy_written :: "finance_db \<Rightarrow> finance_db \<Rightarrow> bool" where
  "piggy_written db db' \<longleftrightarrow> other_tables db db'
     \<and> (\<exists>xs. db_expenses db' = db_expenses db @ xs \<and> (\<forall>e \<in> set xs. piggy_expense e))
     \<and> (\<exists>ns. db_entries db' = db_entries db @ ns \<and> (\<forall>n \<in> set ns. piggy_entry n))"

lemma bank_written:
  "other_tables db db' \<Longrightarrow> db_piggyTx db' = db_piggyTx db \<and> db_expenses db' = db_expenses db \<and> db_entries db' = db_entries db
    \<Longrightarrow> piggy_written db db'"
  by (simp add: piggy_written_def)

lemma bank_other_tables:
  "createPiggyBank D sp newId now userId input db = Inr (db', b) \<Longrightarrow> other_tables db db'"
  "archivePiggyBank D now userId bankId db = Inr db' \<Longrightarrow> other_tables db db'"
  "deletePiggyBank userId bankId db = Inr db' \<Longrightarrow> other_tables db db'"
  "apply_piggy_update D sp now userId bankId upd db = Inr (db', b) \<Longrightarrow> other_tables db db'"
  by (auto simp: createPiggyBank_def archivePiggyBank_def deletePiggyBank_def apply_piggy_update_def Let_def res_bind_eq_Inr
      other_tables_def update_bank_def split: option.splits)

lemma deposit_written:
  assumes "depositToPiggyBankInTransaction D sp newId now p db = Inr (db', r)"
  shows "piggy_written db db'"
  using assms
proof (cases rule: deposit_effect)
  case processed
  then show ?thesis by (simp add: piggy_written_def other_tables_def)
next
  case (posted bank day t new)
  have "\<forall>e \<in> set new. piggy_expense e" using posted(7) by (auto simp: is_deposit_def piggy_expense_def split: if_splits)
  with posted(8,9,14) show ?thesis by (simp add: piggy_written_def)
qed

lemma withdraw_written:
  assumes "withdrawFromPiggyBank D sp newId now p db = Inr (db', r)"
  shows "piggy_written db db'"
  using assms
proof (cases rule: withdraw_effect)
  case (1 bank day t new)
  have "\<forall>n \<in> set new. piggy_entry n" using 1(6) by (auto simp: is_withdrawal_def piggy_entry_def split: if_splits)
  with 1(7,8,10) show ?thesis by (simp add: piggy_written_def)
qed

lemma accrue_other_tables:
  assumes "decimal_arith D" "accrue_banks D sp newId now userId series targetKey db = Inr (db', n)"
  shows "other_tables db db'"
proof -
  obtain banks acc where fold: "res_fold (accrue_bank D sp newId now userId (map_of series) targetKey db) (db, []) banks = Inr acc"
    and out: "db' = (fst acc)\<lparr>db_piggyTx := db_piggyTx (fst acc) @ snd acc\<rparr>"
    and banks: "\<forall>b \<in> set banks. b \<in> set (db_piggyBanks db) \<and> pb_userId b = userId \<and> pb_archivedAt b = None"
    using assms(2) by (auto simp: accrue_banks_def Let_def res_bind_eq_Inr yields_def)
  have "other_tables db (fst acc)"
  proof (rule res_fold_invariant [OF fold])
    fix a b a'
    assume b: "b \<in> set banks" "other_tables db (fst a)" "accrue_bank D sp newId now userId (map_of series) targetKey db a b = Inr a'"
    with banks decimal_arith.accrue_bank_step [OF assms(1) b(3)] show "other_tables db (fst a')" by fastforce
  qed (simp add: other_tables_def)
  then show ?thesis by (simp add: out other_tables_def)
qed

lemma step_written:
  assumes "decimal_arith D" "piggy_step D sp db db'"
  shows "piggy_written db db'"
  using assms(2)
proof (cases rule: piggy_step.cases)
  case (auto_debit now createdAt enabledAt day cycles cycle newId userId bankId outcome)
  from auto_debit(6) show ?thesis
  proof (cases rule: cycle_effect)
    case idle
    then show ?thesis by (simp add: piggy_written_def other_tables_def)
  qed (rule deposit_written)
next
  case (interest newId now userId series targetKey n)
  obtain rows where "db_expenses db' = db_expenses db" "db_entries db' = db_entries db"
    using decimal_arith.accrue_effect [OF assms(1) interest] by blast
  with accrue_other_tables [OF assms(1) interest] show ?thesis by (simp add: piggy_written_def)
qed (blast intro: bank_written bank_other_tables deposit_written withdraw_written dest: bank_table_only)+

text \<open>So in every reachable state the rows of origin \<open>piggy\<close> are of this kind.\<close>

lemma reachable_piggy_rows:
  assumes "reachable D sp db" "decimal_arith D"
  shows "(\<forall>e \<in> set (piggy_expenses db). piggy_expense e) \<and> (\<forall>n \<in> set (piggy_entries db). piggy_entry n)"
  using assms(1)
proof (induction rule: reachable.induct)
  case (step db db')
  then show ?case
    using step_written [OF assms(2) step(2)] by (auto simp: piggy_written_def piggy_expenses_def piggy_entries_def)
next
  case (others db db')
  then show ?case by (simp add: keeps_piggy_rows_def)
qed simp

section \<open>One automatic debit a month\<close>

definition is_auto_debit :: "piggy_tx \<Rightarrow> bool" where
  "is_auto_debit t \<longleftrightarrow> le_type t = ''deposit'' \<and> pt_source t = ''auto_debit''"

definition debit_month :: "piggy_tx \<Rightarrow> string \<times> string \<times> string" where
  "debit_month t = (pt_piggyBankId t, pt_userId t, take 7 (dayKeyOfDate (it_date t)))"

definition monthly_debits :: "finance_db \<Rightarrow> bool" where
  "monthly_debits db \<longleftrightarrow> list_all (\<lambda>t. \<exists>k. ok_day k \<and> it_date t = noon k) (filter is_auto_debit (db_piggyTx db))
     \<and> distinct (map debit_month (filter is_auto_debit (db_piggyTx db)))"

lemma key_fields:
  assumes "ok_day n"
  shows "digits_val (take 4 (key n)) = month_idx n div 12" "digits_val (take 2 (drop 5 (key n))) - 1 = month_idx n mod 12"
proof -
  let ?c = "civil_of_day n"
  have k: "key n = fixed4 (c_year ?c) @ ''-'' @ fixed2 (c_month ?c + 1) @ ''-'' @ fixed2 (c_day ?c)"
    using formatDayKey_fixed [OF ok_civil_of_day [OF assms]] by (simp add: key_civil)
  have m: "0 \<le> c_month ?c" "c_month ?c \<le> 11" "0 \<le> c_year ?c" "c_year ?c < 10000"
    using valid_civil_bounds [OF valid_civil_of_day [of n]] assms by (auto simp: ok_day_iff_year)
  have "parseDayKey (key n) = Some ?c" by (rule parseDayKey_key [OF assms])
  then have "digits_val (take 4 (key n)) = c_year ?c \<and> digits_val (take 2 (drop 5 (key n))) = c_month ?c + 1"
    using m by (auto simp: k digits_val_fixed2 digits_val_fixed4)
  then show "digits_val (take 4 (key n)) = month_idx n div 12" "digits_val (take 2 (drop 5 (key n))) - 1 = month_idx n mod 12"
    by (simp_all add: month_idx_split)
qed


lemma existing_auto_debit_eq:
  assumes "ok_day n" "monthly_debits db"
  shows "existing_auto_debit db userId bank (noon n) = Inr (find (\<lambda>t. is_auto_debit t
    \<and> debit_month t = (pb_id bank, userId, take 7 (key n))) (db_piggyTx db))"
proof -
  have "(pt_piggyBankId t = pb_id bank \<and> pt_userId t = userId \<and> pt_source t = ''auto_debit'' \<and> le_type t = ''deposit''
      \<and> noon (due_on 1 (month_idx n)) \<le> it_date t \<and> it_date t < noon (due_on 31 (month_idx n)) + 86400000)
    = (is_auto_debit t \<and> debit_month t = (pb_id bank, userId, take 7 (key n)))" if t: "t \<in> set (db_piggyTx db)" for t
  proof (cases "is_auto_debit t")
    case True
    with assms(2) t obtain k where k: "ok_day k" "it_date t = noon k" by (fastforce simp: monthly_debits_def list_all_iff)
    have "take 7 (dayKeyOfDate (noon k)) = take 7 (key n) \<longleftrightarrow> month_idx k = month_idx n"
      using ok_month_idx [OF k(1)] ok_month_idx [OF assms(1)]
      by (simp add: dayKeyOfDate_day take_key k(1) assms(1) month_key_eq)
    moreover have "noon (due_on 1 (month_idx n)) \<le> noon k \<longleftrightarrow> due_on 1 (month_idx n) \<le> k"
      "noon k < noon (due_on 31 (month_idx n)) + 86400000 \<longleftrightarrow> k \<le> due_on 31 (month_idx n)" by auto
    ultimately show ?thesis
      using True month_span [OF ok_month_idx [OF assms(1)] k(1)] k(2) by (auto simp: debit_month_def is_auto_debit_def)
  next
    case False
    then show ?thesis by (auto simp: is_auto_debit_def)
  qed
  moreover have "dayKeyOfDate (noon n) = key n" by (simp add: dayKeyOfDate_day)
  ultimately show ?thesis
    unfolding existing_auto_debit_def Let_def \<open>dayKeyOfDate (noon n) = key n\<close> key_fields [OF assms(1)]
      monthBounds_due [OF ok_month_idx [OF assms(1)]] res_bind_Inr month_bounds.simps
    by (intro arg_cong [where f = Inr] find_cong refl) auto
qed

lemma monthly_debits_other_rows:
  assumes "posts_rows db db' rows" "list_all (\<lambda>t. \<not> is_auto_debit t) rows" "monthly_debits db"
  shows "monthly_debits db'"
  using assms by (simp add: posts_rows_def monthly_debits_def list_all_iff filter_False)

lemma same_ledger_debits: "db_piggyTx db' = db_piggyTx db \<Longrightarrow> monthly_debits db \<Longrightarrow> monthly_debits db'"
  by (simp add: monthly_debits_def)

lemma debit_monthly:
  assumes "depositToPiggyBankInTransaction D sp newId now p db = Inr (db', r)" "dp_source p = ''auto_debit''"
    and "dp_date p = noon n" "ok_day n" "sao_paulo_offset sp" "monthly_debits db"
  shows "monthly_debits db'"
  using assms(1)
proof (cases rule: deposit_effect)
  case processed
  then show ?thesis using assms(6) by simp
next
  case (posted bank day t new)
  have day: "day = noon n"
    using posted(3) by (simp add: assms(3) todayInSaoPaulo_def sao_paulo_offset.local_noon [OF assms(5,4)] dayKeyToDate_noon [OF assms(4)])
  have t: "pt_piggyBankId t = pb_id bank" "pt_userId t = dp_userId p" "it_date t = noon n" "is_auto_debit t"
    using posted(7) assms(2) day by (auto simp: is_deposit_def is_auto_debit_def)
  have "existing_auto_debit db (dp_userId p) bank (noon n) = Inr None" using posted(4) assms(2) day by simp
  then have "debit_month t \<notin> set (map debit_month (filter is_auto_debit (db_piggyTx db)))"
    using t by (auto simp: existing_auto_debit_eq [OF assms(4,6)] find_None_iff debit_month_def dayKeyOfDate_day)
  then show ?thesis
    using assms(4,6) posted(6) t by (auto simp: monthly_debits_def posts_rows_def)
qed

lemma step_monthly:
  assumes "decimal_arith D" "sao_paulo_offset sp" "piggy_step D sp db db'" "monthly_debits db"
  shows "monthly_debits db'"
  using assms(3)
proof (cases rule: piggy_step.cases)
  case (deposit body movement newId now userId bankId r)
  from deposit(2) show ?thesis
  proof (cases rule: deposit_effect)
    case (posted bank day t new)
    then show ?thesis
      using assms(4) by (intro monthly_debits_other_rows [OF posted(6)])
        (auto simp: is_deposit_def is_auto_debit_def manual_deposit_def)
  qed (use assms(4) in simp)
next
  case (withdraw body taken newId now userId bankId w)
  from withdraw(2) show ?thesis
  proof (cases rule: withdraw_effect)
    case (1 bank day t new)
    then show ?thesis
      using assms(4) by (intro monthly_debits_other_rows [OF 1(5)]) (auto simp: is_withdrawal_def is_auto_debit_def)
  qed
next
  case (auto_debit now createdAt enabledAt day cycles cycle newId userId bankId outcome)
  obtain days where days: "cycles = map cycle_of (drop (length days - 60) days)"
    "set days = {n. is_due_day day n \<and> due_since (local_day sp createdAt) (map_option (local_day sp) enabledAt) (local_day sp now) n}"
    using listDueAutoDebitCycles_days [OF auto_debit(1,2), of enabledAt day] auto_debit(3) auto_debit(4) by auto
  then obtain n where n: "n \<in> set days" "cycle = cycle_of n" using auto_debit(5) by (auto dest: in_set_dropD)
  then have "ok_day n" using days(2) auto_debit(1,2) by (auto simp: due_since_def ok_day_def)
  moreover from auto_debit(6) show ?thesis
  proof (cases rule: cycle_effect)
    case idle
    then show ?thesis using assms(4) by simp
  next
    case (debit p r)
    then show ?thesis using debit_monthly [OF debit(6,3) _ \<open>ok_day n\<close> assms(2,4)] n(2) by (simp add: cycle_of_def)
  qed
next
  case (interest newId now userId series targetKey n)
  obtain rows where rows: "posts_rows db db' rows" "list_all (is_interest (db_piggyBanks db)) rows"
    using decimal_arith.accrue_effect [OF assms(1) interest] by blast
  show ?thesis
    using rows(2) assms(4) by (intro monthly_debits_other_rows [OF rows(1)]) (auto simp: list_all_iff is_interest_def is_auto_debit_def)
next
  case (create_bank now body input newId userId b)
  then show ?thesis using bank_table_only(1) same_ledger_debits [OF _ assms(4)] by blast
next
  case (edit_bank now body input userId bankId b)
  then show ?thesis using bank_table_only(4) same_ledger_debits [OF _ assms(4)] by blast
next
  case (archive_bank now userId bankId)
  then show ?thesis using bank_table_only(2) same_ledger_debits [OF _ assms(4)] by blast
next
  case (delete_bank userId bankId)
  then show ?thesis using bank_table_only(3) same_ledger_debits [OF _ assms(4)] by blast
qed

lemma reachable_monthly:
  assumes "reachable D sp db" "decimal_arith D" "sao_paulo_offset sp"
  shows "monthly_debits db"
  using assms(1)
proof (induction rule: reachable.induct)
  case (start db)
  then show ?case by (simp add: monthly_debits_def)
next
  case (step db db')
  then show ?case using step_monthly [OF assms(2,3) step(2)] by simp
next
  case (others db db')
  then show ?case by (simp add: keeps_piggy_rows_def monthly_debits_def)
qed


section \<open>A due debit is made\<close>

definition clocked :: "tz_offset \<Rightarrow> piggy_bank \<Rightarrow> bool" where
  "clocked sp b \<longleftrightarrow> ok_day (local_day sp (pb_createdAt b))
     \<and> (case pb_autoDebitEnabledAt b of None \<Rightarrow> True | Some e \<Rightarrow> ok_day (local_day sp e))"

lemma refreshed_goal_total:
  assumes "ok_day (local_day sp now)"
  shows "\<exists>g. refreshed_goal D sp now bank balance txs = Inr g"
proof -
  have "todayInSaoPaulo sp now = Inr (noon (local_day sp now))"
    using assms by (simp add: todayInSaoPaulo_def local_key dayKeyToDate_noon)
  then show ?thesis by (auto simp: refreshed_goal_def computeMonthlyGoal_def Let_def split: option.splits)
qed

lemma cycle_is_due:
  assumes "sao_paulo_offset sp" "ok_day (local_day sp now)" "clocked sp bank" "is_due_day (pb_autoDebitDay bank) n" "ok_day n"
    and "due_since (local_day sp (pb_createdAt bank)) (map_option (local_day sp) (pb_autoDebitEnabledAt bank)) (local_day sp now) n"
  shows "isScheduledAutoDebitCycleStillDue sp (cycle_of n) now bank = Inr True"
proof -
  have created: "ok_day (local_day sp (pb_createdAt bank))" and enabled: "\<And>e. pb_autoDebitEnabledAt bank = Some e \<Longrightarrow> ok_day (local_day sp e)"
    using assms(3) by (auto simp: clocked_def split: option.splits)
  have M: "ok_month (month_idx n)" by (rule ok_month_idx [OF assms(5)])
  define en where "en = map_option (local_day sp) (pb_autoDebitEnabledAt bank)"
  have due: "n = due_on (pb_autoDebitDay bank) (month_idx n)" using assms(4) is_due_day_iff [OF M] by simp
  have keys: "map_option (dayKeyInSaoPaulo sp) (pb_autoDebitEnabledAt bank) = map_option key en"
    using enabled by (cases "pb_autoDebitEnabledAt bank") (simp_all add: local_key en_def)
  have "ok_day e" if "en = Some e" for e using that enabled by (auto simp: en_def)
  from cycleForMonth_eq [OF M assms(2) created this, of en "pb_autoDebitDay bank"] due assms(6)
  have "cycleForMonth (month_idx n div 12, month_idx n mod 12) (key (local_day sp now)) (key (local_day sp (pb_createdAt bank)))
    (pb_autoDebitDay bank) (map_option key en) = Inr (Some (cycle_of n))"
    by (simp add: en_def)
  moreover have "ac_dueOn (cycle_of n) = noon n" by (simp add: cycle_of_def)
  ultimately show ?thesis
    unfolding isScheduledAutoDebitCycleStillDue_def keys
    by (simp add: sao_paulo_offset.local_noon [OF assms(1,5)] parseDayKey_key [OF assms(5)] month_idx_split
        today_key [OF assms(2)] local_key [OF created])
qed

lemma cycle_not_debited:
  assumes "sao_paulo_offset sp" "monthly_debits db" "ok_day n"
    and "\<And>t. t \<in> set (bank_txs db bank) \<Longrightarrow> is_auto_debit t \<Longrightarrow> take 7 (dayKeyOfDate (it_date t)) \<noteq> take 7 (key n)"
  shows "\<not> hasAutoDebitInCycle sp (bank_txs db bank) (Some (cycle_of n))"
proof -
  let ?ts = "filter is_auto_debit (bank_txs db bank)"
  have same: "hasAutoDebitInCycle sp ?ts c = hasAutoDebitInCycle sp (bank_txs db bank) c" for c
    by (auto simp: hasAutoDebitInCycle_def Let_def list_ex_iff is_auto_debit_def split: option.splits)
  have noon_dates: "\<exists>k. ok_day k \<and> it_date t = noon k" if "t \<in> set ?ts" for t
    using that assms(2) by (fastforce simp: monthly_debits_def list_all_iff bank_txs_def)
  have other: "month_idx k \<noteq> month_idx n" if q: "t \<in> set ?ts" "it_date t = noon k" for t k
  proof -
    obtain k' where "ok_day k'" "it_date t = noon k'" using noon_dates [OF q(1)] by blast
    with q(2) have "ok_day k" by simp
    then show ?thesis using assms(4) [of t] q assms(3) by (auto simp: dayKeyOfDate_day take_key)
  qed
  have "cycle_of n = cycle_of (due_on (c_day (civil_of_day n)) (month_idx n))"
  proof -
    have "is_due_day (c_day (civil_of_day n)) n"
      using valid_civil_of_day [of n] valid_civil_bounds [OF valid_civil_of_day [of n]]
      by (simp add: is_due_day_def min_absorb1 max_absorb1 valid_civil_def)
    then show ?thesis using is_due_day_iff [OF ok_month_idx [OF assms(3)]] by simp
  qed
  moreover have "\<not> hasAutoDebitInCycle sp ?ts (Some (cycle_of (due_on (c_day (civil_of_day n)) (month_idx n))))"
    by (subst hasAutoDebitInCycle_iff [OF assms(1) ok_month_idx [OF assms(3)] noon_dates]) (use other in auto)
  ultimately show ?thesis by (simp add: same [symmetric])
qed

lemma find_unique_id:
  assumes "distinct (map pb_id bs)" "b \<in> set bs" "P b" "\<And>c. P c \<Longrightarrow> pb_id c = pb_id b"
  shows "find P bs = Some b"
  using assms(1,2)
proof (induction bs)
  case (Cons c bs)
  show ?case
  proof (cases "P c")
    case True
    then have "pb_id c = pb_id b" by (rule assms(4))
    with Cons.prems have "c = b" by (auto simp: image_iff)
    with True show ?thesis by simp
  next
    case False
    then have "c \<noteq> b" using assms(3) by auto
    with False Cons show ?thesis by simp
  qed
qed simp

lemma bind_total:
  assumes "\<exists>g. m = Inr g" "\<And>g. \<exists>a b. f g = Inr (a, b) \<and> Q b"
  shows "\<exists>a b. res_bind m f = Inr (a, b) \<and> Q b"
  using assms by auto

lemma cycle_debits:
  assumes "sao_paulo_offset sp" "ok_day (local_day sp now)" "sound_books db" "monthly_debits db"
    and bank: "bank \<in> set (db_piggyBanks db)" "pb_autoDebit bank" "pb_archivedAt bank = None" "pb_completedAt bank = None"
      "0 < pb_monthlyGoal bank" "clocked sp bank"
      "case remaining_goal D db bank of None \<Rightarrow> True | Some left \<Rightarrow> 0 < left"
    and due: "is_due_day (pb_autoDebitDay bank) n" "ok_day n"
      "due_since (local_day sp (pb_createdAt bank)) (map_option (local_day sp) (pb_autoDebitEnabledAt bank)) (local_day sp now) n"
    and new: "\<And>t. t \<in> set (bank_txs db bank) \<Longrightarrow> is_auto_debit t \<Longrightarrow> take 7 (dayKeyOfDate (it_date t)) \<noteq> take 7 (key n)"
  shows "\<exists>db' t. processPiggyAutoDebitCycle D sp newId (pb_userId bank) (pb_id bank) (cycle_of n) now db = Inr (db', Created)
    \<and> db_piggyTx db' = db_piggyTx db @ [t] \<and> is_auto_debit t \<and> pt_piggyBankId t = pb_id bank \<and> it_date t = noon n"
proof -
  define left where "left = remaining_goal D db bank"
  define p where "p = \<lparr>dp_userId = pb_userId bank, dp_piggyBankId = pb_id bank,
    dp_amount = (case left of None \<Rightarrow> pb_monthlyGoal bank | Some r \<Rightarrow> if pb_monthlyGoal bank > r then r else pb_monthlyGoal bank),
    dp_source = ''auto_debit'', dp_deductFromBalance = True, dp_note = Some ''Debito automatico mensal'', dp_date = noon n\<rparr>"
  have cand: "find (\<lambda>b. pb_id b = pb_id bank \<and> pb_userId b = pb_userId bank \<and> pb_autoDebit b \<and> pb_archivedAt b = None \<and> pb_completedAt b = None)
      (db_piggyBanks db) = Some bank" and found: "find_bank db (pb_userId bank) (pb_id bank) = Some bank"
    unfolding find_bank_def using bank(2-4) by (auto intro!: find_unique_id [OF sound_booksD(1) [OF assms(3)] bank(1)])
  have day: "todayInSaoPaulo sp (noon n) = Inr (noon n)"
    by (simp add: todayInSaoPaulo_def sao_paulo_offset.local_noon [OF assms(1) due(2)] dayKeyToDate_noon [OF due(2)])
  have "find (\<lambda>t. is_auto_debit t \<and> debit_month t = (pb_id bank, pb_userId bank, take 7 (key n))) (db_piggyTx db) = None"
    using new by (auto simp: find_None_iff debit_month_def bank_txs_def)
  then have none: "existing_auto_debit db (pb_userId bank) bank (noon n) = Inr None"
    by (simp add: existing_auto_debit_eq [OF due(2) assms(4)])
  obtain db' r where rec: "record_deposit D sp newId now p bank (noon n) db = Inr (db', r)" and r: "\<not> dr_alreadyProcessed r"
  proof -
    have ok: "\<not> (case map_option (\<lambda>goal. dec_minus D goal (balanceDecimalFromTransactions D (bank_txs db bank))) (pb_goalAmount bank)
      of None \<Rightarrow> False | Some r \<Rightarrow> r \<le> 0)"
      using bank(7) by (auto simp: remaining_goal_def split: option.splits)
    have "\<exists>db' r. record_deposit D sp newId now p bank (noon n) db = Inr (db', r) \<and> \<not> dr_alreadyProcessed r"
      unfolding record_deposit_def Let_def res_when_def if_not_P [OF ok]
      by (rule bind_total [OF refreshed_goal_total [OF assms(2)]]) simp
    then show thesis using that by blast
  qed
  have dep: "depositToPiggyBankInTransaction D sp newId now p db = Inr (db', r)"
    using day found none rec bank(3) by (simp add: depositToPiggyBankInTransaction_def p_def)
  have run: "processPiggyAutoDebitCycle D sp newId (pb_userId bank) (pb_id bank) (cycle_of n) now db = Inr (db', Created)"
  proof -
    have "\<not> (case left of None \<Rightarrow> False | Some r \<Rightarrow> r \<le> 0)" using bank(7) by (auto simp: left_def split: option.splits)
    moreover have "ac_dueOn (cycle_of n) = noon n" by (simp add: cycle_of_def)
    ultimately show ?thesis
      unfolding processPiggyAutoDebitCycle_def cand option.case Let_def left_def [unfolded remaining_goal_def, symmetric]
      using bank(5) cycle_is_due [OF assms(1,2) bank(6) due(1,2,3)] cycle_not_debited [OF assms(1,4) due(2) new] dep r
      by (simp add: p_def)
  qed
  from dep show ?thesis
  proof (cases rule: deposit_effect)
    case (posted bank' day t new)
    then have "db_piggyTx db' = db_piggyTx db @ [t]" "is_auto_debit t" "pt_piggyBankId t = pb_id bank" "it_date t = noon n"
      using found \<open>todayInSaoPaulo sp (noon n) = Inr (noon n)\<close> by (auto simp: posts_rows_def is_deposit_def is_auto_debit_def p_def)
    with run show ?thesis by blast
  qed (use r in simp)
qed

section \<open>Runs as transactions\<close>






section \<open>Properties\<close>

text \<open>C6. Every committed transaction on the piggy banks, whatever requests, debits and interest runs came
  before it in whatever order, is for the banks' accounts a sequence of the allowed moves: opening an
  account, paying in, paying out at most the balance, closing or removing an empty account.\<close>

theorem transactions_refine_accounts:
  assumes "decimal_arith D" "reachable D sp db" "piggy_step D sp db db'"
  shows "account_step\<^sup>*\<^sup>* (accounts_of db) (accounts_of db')"
  using step_refines [OF assms(1,3)] reachable_sound [OF assms(2,1)] by blast

definition empty_db :: finance_db where
  "empty_db = \<lparr>db_cards = [], db_expenses = [], db_users = [], db_customTags = [], db_entries = [], db_piggyBanks = [], db_piggyTx = []\<rparr>"

definition trip_body :: "(string \<times> js) list" where
  "trip_body = [(''name'', JString ''Viagem''), (''goalAmount'', JString ''150.00'')]"

definition trip_bank :: piggy_bank where
  "trip_bank = \<lparr>pb_id = ''trip'', pb_userId = ''ana'', pb_name = ''Viagem'', pb_goalAmount = Some 150, pb_targetDate = None,
     pb_monthlyGoal = 0, pb_autoDebit = False, pb_autoDebitDay = 1, pb_autoDebitEnabledAt = None, pb_isEmergency = False,
     pb_yieldEnabled = False, pb_cdiPercent = 0, pb_interestAccruedThrough = None, pb_archivedAt = None,
     pb_completedAt = None, pb_createdAt = noon 20454\<rparr>"

definition trip_db :: finance_db where
  "trip_db = empty_db\<lparr>db_piggyBanks := [trip_bank]\<rparr>"

lemma empty_reachable: "reachable D sp empty_db"
  by (rule start) (simp_all add: empty_db_def piggy_expenses_def piggy_entries_def)

lemma trip_step: "piggy_step decimal_js sao_paulo_standard empty_db trip_db"
proof -
  obtain input where input: "parseCreatePiggy sao_paulo_standard (noon 20454) trip_body = Inr input"
    "createPiggyBank decimal_js sao_paulo_standard (\<lambda>n. ''trip'') (noon 20454) ''ana'' input empty_db = Inr (trip_db, trip_bank)"
  proof (rule that)
    show "parseCreatePiggy sao_paulo_standard (noon 20454) trip_body = Inr
      \<lparr>ci_name = ''Viagem'', ci_goalAmount = Some 150, ci_targetDate = None, ci_autoDebit = False, ci_monthlyGoal = JUndefined,
       ci_autoDebitDay = JUndefined, ci_isEmergency = False, ci_yieldEnabled = False, ci_cdiPercent = 0\<rparr>"
      by code_simp
    show "createPiggyBank decimal_js sao_paulo_standard (\<lambda>n. ''trip'') (noon 20454) ''ana''
      \<lparr>ci_name = ''Viagem'', ci_goalAmount = Some 150, ci_targetDate = None, ci_autoDebit = False, ci_monthlyGoal = JUndefined,
       ci_autoDebitDay = JUndefined, ci_isEmergency = False, ci_yieldEnabled = False, ci_cdiPercent = 0\<rparr> empty_db
      = Inr (trip_db, trip_bank)"
      by (simp add: createPiggyBank_def resolveMonthlyGoal_def computeMonthlyGoal_def trip_db_def trip_bank_def empty_db_def Let_def)
  qed
  show ?thesis by (rule create_bank [OF input(1) _ input(2)]) (simp add: empty_db_def)
qed

lemma trip_reachable: "reachable decimal_js sao_paulo_standard trip_db"
  by (rule step [OF empty_reachable trip_step]) (simp add: small_books_def trip_db_def empty_db_def)

theorem transactions_refine_accounts_witness:
  "account_step\<^sup>*\<^sup>* (accounts_of empty_db) (accounts_of trip_db) \<and> accounts_of empty_db ''trip'' = None
    \<and> accounts_of trip_db ''trip'' = Some \<lparr>ac_balance = 0, ac_closed = False\<rparr>"
  using transactions_refine_accounts [OF js_decimal.decimal_arith_axioms empty_reachable trip_step]
  by (simp add: accounts_of_def trip_db_def empty_db_def account_of_def trip_bank_def bank_txs_def)


text \<open>A deposit of 60 into the bank, paid from the balance.\<close>

definition trip_movement :: money_movement where
  "trip_movement = \<lparr>mv_amount = 60, mv_note = None, mv_deductFromBalance = None\<rparr>"

definition trip_row :: piggy_tx where
  "trip_row = deposit_row (\<lambda>n. ''row'') (noon 20455) ''ana'' trip_bank ''manual'' 60 (noon 20455) (Some ''row'') None 0"

definition trip_expense :: expense_row where
  "trip_expense = piggy_expense_row (\<lambda>n. ''row'') (noon 20455) ''ana'' trip_bank 60 (noon 20455) None 0"

definition funded_db :: finance_db where
  "funded_db = trip_db\<lparr>db_expenses := [trip_expense], db_piggyTx := [trip_row]\<rparr>"

lemma trip_deposit_step: "piggy_step decimal_js sao_paulo_standard trip_db funded_db"
proof -
  have body: "parseMoneyMovement [(''amount'', JNumber 60)] = Inr trip_movement" by code_simp
  have day: "todayInSaoPaulo sao_paulo_standard (noon 20455) = Inr (noon 20455)"
    using standard.local_noon [of 20455] dayKeyToDate_noon [of 20455] by (simp add: todayInSaoPaulo_def ok_day_def)
  have dec: "toMoney decimal_js 60 = 60" "dec_minus decimal_js 150 0 = 150" "dec_plus decimal_js 0 60 = 60"
    by code_simp+
  have "\<exists>r. depositToPiggyBankInTransaction decimal_js sao_paulo_standard (\<lambda>n. ''row'') (noon 20455)
      (manual_deposit ''ana'' ''trip'' trip_movement (noon 20455)) trip_db = Inr (funded_db, r)"
    unfolding depositToPiggyBankInTransaction_def manual_deposit_def deposit_params.simps day res_bind_Inr
    by (simp add: trip_movement_def find_bank_def trip_db_def empty_db_def truthy_def
        trip_bank_def record_deposit_def bank_txs_def balanceDecimalFromTransactions_def dec Let_def refreshed_goal_def update_bank_def
        funded_db_def trip_row_def trip_expense_def piggy_expense_row_def)
  then show ?thesis using body by (auto intro: deposit)
qed

lemma funded_reachable: "reachable decimal_js sao_paulo_standard funded_db"
  by (rule step [OF trip_reachable trip_deposit_step]) (simp add: small_books_def funded_db_def trip_row_def deposit_row_def)

text \<open>C8. In every reachable state no bank's balance is negative, and an archived bank is empty.\<close>

theorem balances_stay_nonnegative:
  assumes "decimal_arith D" "reachable D sp db" "b \<in> set (db_piggyBanks db)"
  shows "0 \<le> balanceDecimalFromTransactions D (bank_txs db b)
    \<and> (pb_archivedAt b \<noteq> None \<longrightarrow> balanceDecimalFromTransactions D (bank_txs db b) = 0)"
proof -
  note s = reachable_sound [OF assms(2,1)]
  have "accounts_of db (pb_id b) = Some (account_of db b)" using s assms(3) by (simp add: accounts_of_bank)
  with s have "0 \<le> ac_balance (account_of db b) \<and> (ac_closed (account_of db b) \<longrightarrow> ac_balance (account_of db b) = 0)"
    unfolding sound_accounts_def by blast
  then show ?thesis
    using s by (simp add: account_of_def decimal_arith.balance_exact [OF assms(1) sound_bank_ledger])
qed

theorem balances_stay_nonnegative_witness:
  "0 \<le> balanceDecimalFromTransactions decimal_js (bank_txs funded_db trip_bank) \<and> bank_txs funded_db trip_bank = [trip_row]"
  using balances_stay_nonnegative [OF js_decimal.decimal_arith_axioms funded_reachable, of trip_bank]
  by (simp add: funded_db_def trip_db_def bank_txs_def trip_row_def deposit_row_def trip_bank_def)

text \<open>C22. Piggy banks neither create nor destroy cash: in every reachable state, over any period, a user's
  linked deposits less the linked withdrawals of the period are what the user's piggy bank expenses of
  the period took from the cash balance less what its entries put back.\<close>

theorem piggy_cash_is_conserved:
  assumes "decimal_arith D" "reachable D sp db"
  shows "(\<Sum>t \<leftarrow> filter (\<lambda>t. pt_userId t = u \<and> is_cash_movement t \<and> it_date t \<in> P) (db_piggyTx db). signedAmount (le_type t) (le_amount t))
    = (\<Sum>e \<leftarrow> filter (\<lambda>e. er_userId e = u \<and> be_occurredAt e \<in> Some ` P) (piggy_expenses db). be_amount e)
      - (\<Sum>n \<leftarrow> filter (\<lambda>n. en_userId n = u \<and> en_date n \<in> Some ` P) (piggy_entries db). en_amount n)"
  using reachable_cash [OF assms(2,1), of P u] by (simp add: moved_cash_def paid_cash_def signed_def)

theorem piggy_cash_is_conserved_witness:
  "(\<Sum>t \<leftarrow> filter (\<lambda>t. pt_userId t = ''ana'' \<and> is_cash_movement t) [trip_row]. signedAmount (le_type t) (le_amount t)) = 60
    \<and> (\<Sum>e \<leftarrow> filter (\<lambda>e. er_userId e = ''ana'' \<and> be_occurredAt e \<in> range Some) (piggy_expenses funded_db). be_amount e) = 60"
  using piggy_cash_is_conserved [OF js_decimal.decimal_arith_axioms funded_reachable, of "''ana''" UNIV]
  by (simp add: funded_db_def trip_db_def empty_db_def trip_row_def deposit_row_def is_cash_movement_def signedAmount_def
      piggy_expenses_def piggy_entries_def trip_expense_def piggy_expense_row_def)

text \<open>C23. However often and in whatever order the automatic debits run, a bank is debited at most once a
  month: no two automatic debits of a bank fall in the same month.\<close>

theorem one_auto_debit_per_month:
  assumes "decimal_arith D" "sao_paulo_offset sp" "reachable D sp db"
  shows "distinct (map (\<lambda>t. (pt_piggyBankId t, pt_userId t, monthKey_of_date (it_date t)))
    (filter (\<lambda>t. le_type t = ''deposit'' \<and> pt_source t = ''auto_debit'') (db_piggyTx db)))"
  using reachable_monthly [OF assms(3,1,2)]
  by (simp add: monthly_debits_def debit_month_def [abs_def] is_auto_debit_def [abs_def] monthKey_of_date_def)


text \<open>A bank that is debited 50 on day 5 of every month, with the debits of some days made.\<close>

definition rent_bank :: piggy_bank where
  "rent_bank = \<lparr>pb_id = ''rent'', pb_userId = ''ana'', pb_name = ''Casa'', pb_goalAmount = None, pb_targetDate = None,
     pb_monthlyGoal = 50, pb_autoDebit = True, pb_autoDebitDay = 5, pb_autoDebitEnabledAt = Some (noon 20454),
     pb_isEmergency = False, pb_yieldEnabled = False, pb_cdiPercent = 0, pb_interestAccruedThrough = None,
     pb_archivedAt = None, pb_completedAt = None, pb_createdAt = noon 20454\<rparr>"

definition rent_row :: "int \<Rightarrow> piggy_tx" where
  "rent_row n = deposit_row (\<lambda>i. ''row'') (noon 20500) ''ana'' rent_bank ''auto_debit'' 50 (noon n) (Some ''row'')
     (Some ''Debito automatico mensal'') 0"

definition rent_db :: "int list \<Rightarrow> finance_db" where
  "rent_db ns = empty_db\<lparr>db_piggyBanks := [rent_bank], db_piggyTx := map rent_row ns,
     db_expenses := map (\<lambda>n. piggy_expense_row (\<lambda>i. ''row'') (noon 20500) ''ana'' rent_bank 50 (noon n)
       (Some ''Debito automatico mensal'') 0) ns\<rparr>"

lemma rent_created: "piggy_step decimal_js sao_paulo_standard empty_db (rent_db [])"
proof -
  define body where "body = [(''name'', JString ''Casa''), (''autoDebit'', JBool True), (''monthlyGoal'', JNumber 50), (''autoDebitDay'', JNumber 5)]"
  define input where "input = \<lparr>ci_name = ''Casa'', ci_goalAmount = None, ci_targetDate = None, ci_autoDebit = True,
    ci_monthlyGoal = JNumber 50, ci_autoDebitDay = JNumber 5, ci_isEmergency = False, ci_yieldEnabled = False, ci_cdiPercent = 0\<rparr>"
  have parsed: "parseCreatePiggy sao_paulo_standard (noon 20454) body = Inr input" unfolding body_def input_def by code_simp
  have "parseAutoDebitDay (JNumber 5) = Some 5" "parsePositiveAmount (JNumber 50) = Some 50" by code_simp+
  then have created: "createPiggyBank decimal_js sao_paulo_standard (\<lambda>n. ''rent'') (noon 20454) ''ana'' input empty_db = Inr (rent_db [], rent_bank)"
    by (simp add: input_def createPiggyBank_def resolveMonthlyGoal_def computeMonthlyGoal_def rent_db_def rent_bank_def empty_db_def Let_def
        js_nullish_def)
  show ?thesis by (rule create_bank [OF parsed _ created]) (simp add: empty_db_def)
qed

lemma rent_due:
  assumes "n = 20458 \<or> n = 20489"
  shows "ok_day n" "is_due_day 5 n" "due_since 20454 (Some 20454) 20500 n"
  using assms by (auto simp: ok_day_def due_since_def) code_simp+

lemma rent_days: "local_day sao_paulo_standard (noon 20454) = 20454" "local_day sao_paulo_standard (noon 20500) = 20500"
  by code_simp+

lemma rent_debit:
  assumes n: "n = 20458 \<or> n = 20489" and "monthly_debits (rent_db ns)"
    and other: "\<And>m. m \<in> set ns \<Longrightarrow> take 7 (key m) \<noteq> take 7 (key n)"
  shows "processPiggyAutoDebitCycle decimal_js sao_paulo_standard (\<lambda>i. ''row'') ''ana'' ''rent'' (cycle_of n) (noon 20500) (rent_db ns)
    = Inr (rent_db (ns @ [n]), Created)"
proof -
  note d = rent_due [OF n]
  let ?new = "\<lambda>i :: nat. ''row''"
  have clock: "clocked sao_paulo_standard rent_bank" by (simp add: clocked_def rent_bank_def rent_days [simplified] ok_day_def)
  have due: "isScheduledAutoDebitCycleStillDue sao_paulo_standard (cycle_of n) (noon 20500) rent_bank = Inr True"
    using d by (intro cycle_is_due [OF standard.sao_paulo_offset_axioms _ clock])
      (simp_all add: rent_bank_def rent_days [simplified] ok_day_def)
  have txs: "bank_txs (rent_db ns) rent_bank = map rent_row ns"
    by (auto simp: bank_txs_def rent_db_def rent_row_def deposit_row_def rent_bank_def filter_map comp_def)
  have not: "\<not> hasAutoDebitInCycle sao_paulo_standard (map rent_row ns) (Some (cycle_of n))"
    unfolding txs [symmetric]
    by (rule cycle_not_debited [OF standard.sao_paulo_offset_axioms assms(2) d(1)])
      (use other in \<open>auto simp: txs rent_row_def deposit_row_def dayKeyOfDate_day\<close>)
  have "find (\<lambda>t. is_auto_debit t \<and> debit_month t = (pb_id rent_bank, ''ana'', take 7 (key n))) (db_piggyTx (rent_db ns)) = None"
    using other by (auto simp: find_None_iff rent_db_def rent_row_def deposit_row_def debit_month_def dayKeyOfDate_day)
  then have none: "existing_auto_debit (rent_db ns) ''ana'' rent_bank (noon n) = Inr None"
    by (simp add: existing_auto_debit_eq [OF d(1) assms(2)])
  have day: "todayInSaoPaulo sao_paulo_standard (noon n) = Inr (noon n)"
    by (simp add: todayInSaoPaulo_def standard.local_noon [OF d(1)] dayKeyToDate_noon [OF d(1)])
  have dec: "toMoney decimal_js 50 = 50" by code_simp
  have bank: "find_bank (rent_db ns) ''ana'' ''rent'' = Some rent_bank" by (simp add: find_bank_def rent_db_def rent_bank_def)
  have "\<exists>r. depositToPiggyBankInTransaction decimal_js sao_paulo_standard ?new (noon 20500)
      \<lparr>dp_userId = ''ana'', dp_piggyBankId = ''rent'', dp_amount = 50, dp_source = ''auto_debit'', dp_deductFromBalance = True,
       dp_note = Some ''Debito automatico mensal'', dp_date = noon n\<rparr> (rent_db ns) = Inr (rent_db (ns @ [n]), r) \<and> \<not> dr_alreadyProcessed r"
    unfolding depositToPiggyBankInTransaction_def deposit_params.simps day res_bind_Inr bank option.case none record_deposit_def Let_def dec
    by (simp add: rent_bank_def none [unfolded rent_bank_def] refreshed_goal_def update_bank_def rent_db_def empty_db_def rent_row_def
        deposit_row_def piggy_expense_row_def)
  then obtain r where dep: "depositToPiggyBankInTransaction decimal_js sao_paulo_standard ?new (noon 20500)
      \<lparr>dp_userId = ''ana'', dp_piggyBankId = ''rent'', dp_amount = 50, dp_source = ''auto_debit'', dp_deductFromBalance = True,
       dp_note = Some ''Debito automatico mensal'', dp_date = noon n\<rparr> (rent_db ns) = Inr (rent_db (ns @ [n]), r)" "\<not> dr_alreadyProcessed r"
    by blast
  have cand: "find (\<lambda>b. pb_id b = ''rent'' \<and> pb_userId b = ''ana'' \<and> pb_autoDebit b \<and> pb_archivedAt b = None \<and> pb_completedAt b = None)
    (db_piggyBanks (rent_db ns)) = Some rent_bank" by (simp add: rent_db_def rent_bank_def)
  have fields: "pb_monthlyGoal rent_bank = 50" "pb_goalAmount rent_bank = None" "pb_id rent_bank = ''rent''" by (simp_all add: rent_bank_def)
  show ?thesis
    unfolding processPiggyAutoDebitCycle_def cand option.case Let_def fields due txs res_bind_Inr
    using not dep by (simp add: cycle_of_def)
qed


lemma rent_cycle_listed:
  assumes "n = 20458 \<or> n = 20489"
  shows "\<exists>cycles. listDueAutoDebitCycles sao_paulo_standard (noon 20500) (noon 20454) 5 (Some (noon 20454)) = Inr cycles
    \<and> cycle_of n \<in> set cycles"
proof -
  obtain days where days: "listDueAutoDebitCycles sao_paulo_standard (noon 20500) (noon 20454) 5 (Some (noon 20454))
      = Inr (map cycle_of (drop (length days - 60) days))" "sorted_wrt (<) days"
    "set days = {n. is_due_day 5 n \<and> due_since 20454 (Some 20454) 20500 n}"
    using listDueAutoDebitCycles_days [of sao_paulo_standard "noon 20500" "noon 20454" "Some (noon 20454)" 5]
    by (auto simp: rent_days [simplified] ok_day_def)
  have "set days \<subseteq> {20455..20500}" by (auto simp: days(3) due_since_def)
  then have "card (set days) \<le> 46" using card_mono [of "{20455..20500 :: int}" "set days"] by simp
  then have "length days - 60 = 0" using days(2) distinct_card [of days] by (simp add: strict_sorted_iff)
  moreover have "n \<in> set days" using rent_due [OF assms] by (simp add: days(3))
  ultimately show ?thesis using days(1) by auto
qed

lemma rent_step:
  assumes n: "n = 20458 \<or> n = 20489" and "monthly_debits (rent_db ns)" "\<And>m. m \<in> set ns \<Longrightarrow> take 7 (key m) \<noteq> take 7 (key n)"
  shows "piggy_step decimal_js sao_paulo_standard (rent_db ns) (rent_db (ns @ [n]))"
proof -
  obtain cycles where "listDueAutoDebitCycles sao_paulo_standard (noon 20500) (noon 20454) 5 (Some (noon 20454)) = Inr cycles"
    "cycle_of n \<in> set cycles" using rent_cycle_listed [OF n] by blast
  then show ?thesis
    by (rule auto_debit [rotated 3, OF _ _ rent_debit [OF assms]]) (auto simp: rent_days [simplified] ok_day_def)
qed

lemma rent_reachable: "reachable decimal_js sao_paulo_standard (rent_db [20458, 20489])"
proof -
  have small: "small_books (rent_db ns)" if "length ns \<le> 2" for ns
    using that by (cases ns rule: remdups_adj.cases) (auto simp: small_books_def rent_db_def rent_row_def deposit_row_def)
  have r0: "reachable decimal_js sao_paulo_standard (rent_db [])"
    by (rule step [OF empty_reachable rent_created]) (simp add: small)
  note m0 = reachable_monthly [OF r0 js_decimal.decimal_arith_axioms standard.sao_paulo_offset_axioms]
  have r1: "reachable decimal_js sao_paulo_standard (rent_db [20458])"
    using step [OF r0 rent_step [of 20458 "[]"]] m0 by (simp add: small)
  note m1 = reachable_monthly [OF r1 js_decimal.decimal_arith_axioms standard.sao_paulo_offset_axioms]
  have "month_idx 20458 \<noteq> month_idx 20489" "ok_day 20458" "ok_day 20489" by code_simp+
  then have "take 7 (key 20458) \<noteq> take 7 (key 20489)" by (simp add: take_key month_key_eq ok_month_idx)
  then show ?thesis using step [OF r1 rent_step [of 20489 "[20458]"]] m1 by (simp add: small)
qed

theorem one_auto_debit_per_month_witness:
  "monthKey_of_date (it_date (rent_row 20458)) \<noteq> monthKey_of_date (it_date (rent_row 20489))"
  using one_auto_debit_per_month [OF js_decimal.decimal_arith_axioms standard.sao_paulo_offset_axioms rent_reachable]
  by (simp add: rent_db_def rent_row_def deposit_row_def)

text \<open>C24. Processing a due cycle debits: for an open, incomplete bank with automatic debits, a due day whose
  month has no debit yet and a goal that is not reached, the step never skips, stops or fails; it
  appends the debit of that day.\<close>

theorem due_debits_are_made:
  assumes "decimal_arith D" "sao_paulo_offset sp" "reachable D sp db" "ok_day (local_day sp now)"
    and bank: "bank \<in> set (db_piggyBanks db)" "pb_autoDebit bank" "pb_archivedAt bank = None" "pb_completedAt bank = None"
      "0 < pb_monthlyGoal bank" "ok_day (local_day sp (pb_createdAt bank))"
      "\<And>e. pb_autoDebitEnabledAt bank = Some e \<Longrightarrow> ok_day (local_day sp e)"
      "\<And>g. pb_goalAmount bank = Some g \<Longrightarrow> balanceDecimalFromTransactions D (bank_txs db bank) < g"
    and due: "is_due_day (pb_autoDebitDay bank) n"
      "due_since (local_day sp (pb_createdAt bank)) (map_option (local_day sp) (pb_autoDebitEnabledAt bank)) (local_day sp now) n"
    and new: "\<And>t. t \<in> set (bank_txs db bank) \<Longrightarrow> le_type t = ''deposit'' \<Longrightarrow> pt_source t = ''auto_debit''
      \<Longrightarrow> monthKey_of_date (it_date t) \<noteq> monthKey (key n)"
  shows "\<exists>db' t. processPiggyAutoDebitCycle D sp newId (pb_userId bank) (pb_id bank) (cycle_of n) now db = Inr (db', Created)
    \<and> db_piggyTx db' = db_piggyTx db @ [t] \<and> le_type t = ''deposit'' \<and> pt_source t = ''auto_debit''
    \<and> pt_piggyBankId t = pb_id bank \<and> it_date t = noon n"
proof -
  note s = reachable_sound [OF assms(3,1)]
  have ok: "ok_day n" using due(2) assms(4) bank(6) by (auto simp: due_since_def ok_day_def)
  have ledger: "ok_ledger (bank_txs db bank)" using s by (intro sound_bank_ledger) auto
  have "case remaining_goal D db bank of None \<Rightarrow> True | Some left \<Rightarrow> 0 < left"
  proof (cases "pb_goalAmount bank")
    case (Some g)
    have "cents g" "0 \<le> g" "g \<le> MAX_MONEY_AMOUNT" using s sound_booksD(2) [OF _ bank(1)] Some by (auto simp: ok_goal_def)
    with ok_ledgerD [OF ledger] have "dec_minus D g (ledger_sum (bank_txs db bank)) = g - ledger_sum (bank_txs db bank)"
      by (intro decimal_arith.minus_cents [OF assms(1)]) (auto simp: MAX_MONEY_AMOUNT_def)
    with bank(8) [OF Some] show ?thesis
      by (simp add: remaining_goal_def Some decimal_arith.balance_exact [OF assms(1) ledger])
  qed (simp add: remaining_goal_def)
  moreover have "clocked sp bank" using bank(6,7) by (auto simp: clocked_def split: option.splits)
  ultimately show ?thesis
    using cycle_debits [OF assms(2,4) _ reachable_monthly [OF assms(3,1,2)] bank(1-5) _ _ due(1) ok due(2), of D newId] s new
    by (simp add: is_auto_debit_def monthKey_of_date_def monthKey_def)
qed

theorem due_debits_are_made_witness:
  "\<exists>db' t. processPiggyAutoDebitCycle decimal_js sao_paulo_standard (\<lambda>i. ''row'') ''ana'' ''rent'' (cycle_of 20517) (noon 20520)
      (rent_db [20458, 20489]) = Inr (db', Created) \<and> db_piggyTx db' = [rent_row 20458, rent_row 20489, t] \<and> it_date t = noon 20517"
proof -
  have days: "local_day sao_paulo_standard (noon 20520) = 20520" "is_due_day 5 20517" "month_idx 20517 = 24314" "month_idx 20458 = 24312"
    "month_idx 20489 = 24313" by code_simp+
  have "ok_month 24312" "ok_month 24313" "ok_month 24314" by (simp_all add: ok_month_def)
  then have keys: "take 7 (key 20458) \<noteq> take 7 (key 20517)" "take 7 (key 20489) \<noteq> take 7 (key 20517)"
    by (simp_all add: take_key ok_day_def days month_key_eq)
  have txs: "bank_txs (rent_db [20458, 20489]) rent_bank = [rent_row 20458, rent_row 20489]"
    by (simp add: bank_txs_def rent_db_def rent_row_def deposit_row_def rent_bank_def)
  have bank: "rent_bank \<in> set (db_piggyBanks (rent_db [20458, 20489]))" by (simp add: rent_db_def)
  have fields: "pb_autoDebit rent_bank" "pb_archivedAt rent_bank = None" "pb_completedAt rent_bank = None" "0 < pb_monthlyGoal rent_bank"
    "pb_createdAt rent_bank = noon 20454" "pb_autoDebitEnabledAt rent_bank = Some (noon 20454)" "pb_goalAmount rent_bank = None"
    "pb_autoDebitDay rent_bank = 5" by (simp_all add: rent_bank_def)
  have local_days: "ok_day (local_day sao_paulo_standard (noon 20520))" "ok_day (local_day sao_paulo_standard (noon 20454))"
    "due_since (local_day sao_paulo_standard (noon 20454)) (Some (local_day sao_paulo_standard (noon 20454)))
      (local_day sao_paulo_standard (noon 20520)) 20517"
    by (simp_all add: days(1) [simplified] rent_days [simplified] ok_day_def due_since_def)
  have "monthKey_of_date (it_date t) \<noteq> monthKey (key 20517)" if "t \<in> set (bank_txs (rent_db [20458, 20489]) rent_bank)" for t
  proof -
    have "it_date (rent_row m) = noon m" for m by (simp add: rent_row_def deposit_row_def)
    moreover have "dayKeyOfDate (noon m) = key m" for m by (simp add: dayKeyOfDate_day)
    ultimately have "monthKey_of_date (it_date (rent_row m)) = take 7 (key m)" for m by (simp only: monthKey_of_date_def)
    then show ?thesis using that keys by (auto simp del: power_mult_distrib simp add: txs monthKey_def)
  qed
  then have "\<exists>db' t. processPiggyAutoDebitCycle decimal_js sao_paulo_standard (\<lambda>i. ''row'') (pb_userId rent_bank) (pb_id rent_bank)
      (cycle_of 20517) (noon 20520) (rent_db [20458, 20489]) = Inr (db', Created)
    \<and> db_piggyTx db' = db_piggyTx (rent_db [20458, 20489]) @ [t] \<and> le_type t = ''deposit'' \<and> pt_source t = ''auto_debit''
    \<and> pt_piggyBankId t = pb_id rent_bank \<and> it_date t = noon 20517"
    using fields local_days days(2) bank
    by (intro due_debits_are_made [OF js_decimal.decimal_arith_axioms standard.sao_paulo_offset_axioms rent_reachable]) simp_all
  then show ?thesis by (auto simp: rent_bank_def rent_db_def)
qed





end
