(* ===== verification/Schedule.thy ===== *)
theory Schedule
  imports Piggy_System
begin

text \<open>
  \<open>backend/src/services/schedule.ts\<close> and \<open>services/months.ts\<close>: when an income entry or an expense
  happens. A one-off has a civil date, a recurring item a day of the month, a first month and an
  optional last one. In a result \<open>None\<close> is \<open>undefined\<close> (leave the column as it is) and
  \<open>Some None\<close> is \<open>null\<close> (clear it). \<open>well_scheduled\<close> is the abstract contract: it holds after
  every accepted creation, and every accepted edit keeps it.
\<close>

section \<open>schedule.ts\<close>

datatype schedule_kind = Income_Schedule | Expense_Schedule

record schedule_messages =
  dayRequired :: string
  dayInvalid :: string
  startRequired :: string
  startInvalid :: string
  endBeforeStart :: string
  dateRequired :: string

fun schedule_MESSAGES :: "schedule_kind \<Rightarrow> schedule_messages" where
  "schedule_MESSAGES Income_Schedule = \<lparr>
     dayRequired = ''Informe o dia em que recebe (1-31)'',
     dayInvalid = ''Dia de recebimento invalido (1-31)'',
     startRequired = ''Informe o mes em que recebe'',
     startInvalid = ''Mes de recebimento invalido'',
     endBeforeStart = ''Data de termino deve ser apos o primeiro recebimento'',
     dateRequired = ''Informe a data da entrada unica''\<rparr>"
| "schedule_MESSAGES Expense_Schedule = \<lparr>
     dayRequired = ''Informe o dia em que sera descontado (1-31)'',
     dayInvalid = ''Dia de desconto invalido (1-31)'',
     startRequired = ''Informe o mes em que sera descontado'',
     startInvalid = ''Mes de desconto invalido'',
     endBeforeStart = ''Data de termino deve ser apos o primeiro desconto'',
     dateRequired = ''Informe uma data valida para a despesa avulsa''\<rparr>"

definition END_INVALID :: string where
  "END_INVALID = ''Data de termino invalida''"

record schedule_body =
  sb_day :: js
  sb_startsAt :: js
  sb_endsAt :: js
  sb_date :: js

record existing_schedule =
  xs_day :: "int option"
  xs_startsAt :: "instant option"
  xs_endsAt :: "instant option"
  xs_date :: "instant option"

record resolved_schedule =
  rv_day :: "int option option"
  rv_startsAt :: "instant option option"
  rv_endsAt :: "instant option option"
  rv_date :: "instant option option"

definition resolve_one_off :: "schedule_messages \<Rightarrow> js \<Rightarrow> existing_schedule option \<Rightarrow> resolved_schedule res" where
  "resolve_one_off messages date existing =
     (let cleared = (\<lambda>d. Inr \<lparr>rv_day = Some None, rv_startsAt = Some None, rv_endsAt = Some None, rv_date = d\<rparr>) in
      case existing of
        Some e \<Rightarrow>
          if date = JUndefined then res_when (xs_date e = None) (BadRequest (dateRequired messages)) (cleared None)
          else res_bind (parseUniqueDate date) (\<lambda>d. res_when (d = None) (BadRequest (dateRequired messages)) (cleared (Some d)))
      | None \<Rightarrow>
          res_bind (parseUniqueDate date) (\<lambda>d. res_when (d = None) (BadRequest (dateRequired messages)) (cleared (Some d))))"

definition present :: "'a option option \<Rightarrow> 'a option" where
  "present v = (case v of Some (Some x) \<Rightarrow> Some x | _ \<Rightarrow> None)"

text \<open>A required field: parsed when it is sent or there is nothing stored, else the stored one must be there.\<close>

definition required_field ::
    "js \<Rightarrow> (js \<Rightarrow> 'a option option res) \<Rightarrow> string \<Rightarrow> 'a option option \<Rightarrow> 'a option option res" where
  "required_field v parse message stored =
     (if stored = None \<or> v \<noteq> JUndefined then
        res_bind (parse v) (\<lambda>parsed. case present parsed of
          None \<Rightarrow> Inl (BadRequest message) | Some x \<Rightarrow> Inr (Some (Some x)))
      else res_when (present stored = None) (BadRequest message) (Inr None))"

definition effective :: "'a option option \<Rightarrow> 'a option \<Rightarrow> 'a option" where
  "effective resolved stored = (case resolved of Some v \<Rightarrow> v | None \<Rightarrow> stored)"

definition resolve_recurring ::
    "schedule_messages \<Rightarrow> schedule_body \<Rightarrow> existing_schedule option \<Rightarrow> resolved_schedule res" where
  "resolve_recurring messages body existing =
     res_bind (required_field (sb_day body) (\<lambda>v. parseDayOfMonth v (dayInvalid messages)) (dayRequired messages)
                 (map_option xs_day existing)) (\<lambda>day.
     res_bind (required_field (sb_startsAt body) (\<lambda>v. parseOptionalIsoDate v (startInvalid messages)) (startRequired messages)
                 (map_option xs_startsAt existing)) (\<lambda>startsAt.
     res_bind (if sb_endsAt body \<noteq> JUndefined then parseOptionalIsoDate (sb_endsAt body) END_INVALID
               else Inr (if existing = None then Some None else None)) (\<lambda>endsAt.
     res_when (case (effective startsAt (Option.bind existing xs_startsAt), effective endsAt (Option.bind existing xs_endsAt)) of
                 (Some s, Some e) \<Rightarrow> e < s | _ \<Rightarrow> False)
       (BadRequest (endBeforeStart messages))
       (Inr \<lparr>rv_day = day, rv_startsAt = startsAt, rv_endsAt = endsAt, rv_date = Some None\<rparr>))))"

definition resolveSchedule ::
    "schedule_kind \<Rightarrow> string \<Rightarrow> schedule_body \<Rightarrow> existing_schedule option \<Rightarrow> resolved_schedule res" where
  "resolveSchedule kind frequency body existing =
     (if frequency = ''unica'' then resolve_one_off (schedule_MESSAGES kind) (sb_date body) existing
      else resolve_recurring (schedule_MESSAGES kind) body existing)"

section \<open>months.ts\<close>

text \<open>The first and the last millisecond of a month, in UTC.\<close>

definition service_monthBounds :: "string \<Rightarrow> instant \<times> instant" where
  "service_monthBounds k =
     (let year = digits_val (takeWhile (\<lambda>c. c \<noteq> CHR ''-'') k);
          monthIndex = digits_val (drop 1 (dropWhile (\<lambda>c. c \<noteq> CHR ''-'') k)) - 1 in
      (date_UTC year monthIndex 1 0, date_UTC year (monthIndex + 1) 0 0 + ms_per_day - 1))"

section \<open>The contract\<close>

definition well_scheduled ::
    "string \<Rightarrow> int option \<Rightarrow> instant option \<Rightarrow> instant option \<Rightarrow> instant option \<Rightarrow> bool" where
  "well_scheduled frequency day startsAt endsAt date \<longleftrightarrow>
     (if frequency = ''unica'' then day = None \<and> startsAt = None \<and> endsAt = None \<and> date \<noteq> None
      else (\<exists>d. day = Some d \<and> 1 \<le> d \<and> d \<le> 31) \<and> date = None
        \<and> (\<exists>s. startsAt = Some s \<and> (\<forall>e. endsAt = Some e \<longrightarrow> s \<le> e)))"

lemma parseDayOfMonth_range: "parseDayOfMonth v m = Inr (Some (Some d)) \<Longrightarrow> 1 \<le> d \<and> d \<le> 31"
  by (auto simp: parseDayOfMonth_def res_when_eq_Inr is_integer_def le_floor_iff floor_le_iff
      split: if_splits option.splits js.splits)

lemma present_Some [simp]: "present (Some v) = v"
  by (simp add: present_def split: option.split)

lemma present_eq_Some: "present v = Some x \<longleftrightarrow> v = Some (Some x)"
  by (simp add: present_def split: option.splits)

lemma required_field_parsed:
  "(res_bind (parse v) (\<lambda>parsed. case present parsed of None \<Rightarrow> Inl e | Some x \<Rightarrow> Inr (Some (Some x))) = Inr r)
    \<longleftrightarrow> (\<exists>x. parse v = Inr (Some (Some x)) \<and> r = Some (Some x))"
proof (cases "parse v")
  case (Inr y)
  then show ?thesis by (cases "present y") (auto simp: present_eq_Some)
qed simp

lemma required_field_new:
  "required_field v parse message None = Inr r \<longleftrightarrow> (\<exists>x. parse v = Inr (Some (Some x)) \<and> r = Some (Some x))"
  by (simp add: required_field_def required_field_parsed)

lemma required_field_edit:
  "required_field v parse message (Some stored) = Inr r \<longleftrightarrow>
    (v = JUndefined \<and> stored \<noteq> None \<and> r = None) \<or> (v \<noteq> JUndefined \<and> (\<exists>x. parse v = Inr (Some (Some x)) \<and> r = Some (Some x)))"
  by (cases "v = JUndefined") (auto simp: required_field_def required_field_parsed)

lemma resolve_recurring_parts:
  assumes "resolve_recurring messages body existing = Inr r"
  shows "required_field (sb_day body) (\<lambda>v. parseDayOfMonth v (dayInvalid messages)) (dayRequired messages)
      (map_option xs_day existing) = Inr (rv_day r)"
    and "required_field (sb_startsAt body) (\<lambda>v. parseOptionalIsoDate v (startInvalid messages)) (startRequired messages)
      (map_option xs_startsAt existing) = Inr (rv_startsAt r)"
    and "\<not> (case (effective (rv_startsAt r) (Option.bind existing xs_startsAt),
                effective (rv_endsAt r) (Option.bind existing xs_endsAt)) of (Some s, Some e) \<Rightarrow> e < s | _ \<Rightarrow> False)"
    and "rv_date r = Some None"
proof -
  from assms obtain d s e where
    "required_field (sb_day body) (\<lambda>v. parseDayOfMonth v (dayInvalid messages)) (dayRequired messages)
      (map_option xs_day existing) = Inr d"
    "required_field (sb_startsAt body) (\<lambda>v. parseOptionalIsoDate v (startInvalid messages)) (startRequired messages)
      (map_option xs_startsAt existing) = Inr s"
    "\<not> (case (effective s (Option.bind existing xs_startsAt), effective e (Option.bind existing xs_endsAt)) of
        (Some s, Some e) \<Rightarrow> e < s | _ \<Rightarrow> False)"
    and r: "\<lparr>rv_day = d, rv_startsAt = s, rv_endsAt = e, rv_date = Some None\<rparr> = r"
    unfolding resolve_recurring_def res_bind_eq_Inr res_when_eq_Inr sum.inject by blast
  then show "required_field (sb_day body) (\<lambda>v. parseDayOfMonth v (dayInvalid messages)) (dayRequired messages)
      (map_option xs_day existing) = Inr (rv_day r)"
    "required_field (sb_startsAt body) (\<lambda>v. parseOptionalIsoDate v (startInvalid messages)) (startRequired messages)
      (map_option xs_startsAt existing) = Inr (rv_startsAt r)"
    "\<not> (case (effective (rv_startsAt r) (Option.bind existing xs_startsAt),
                effective (rv_endsAt r) (Option.bind existing xs_endsAt)) of (Some s, Some e) \<Rightarrow> e < s | _ \<Rightarrow> False)"
    "rv_date r = Some None"
    by (simp_all only: r [symmetric] resolved_schedule.select_convs not_False_eq_True)
qed

lemma kept_order:
  "\<not> (case (s, e) of (Some s, Some e) \<Rightarrow> e < s | _ \<Rightarrow> False) \<Longrightarrow> s = Some a \<Longrightarrow> e = Some b \<Longrightarrow> a \<le> (b :: instant)"
  by simp

lemma created_schedule:
  assumes "resolveSchedule kind frequency body None = Inr r"
  shows "well_scheduled frequency (effective (rv_day r) None) (effective (rv_startsAt r) None)
    (effective (rv_endsAt r) None) (effective (rv_date r) None)"
proof (cases "frequency = ''unica''")
  case True
  with assms show ?thesis
    by (auto simp: resolveSchedule_def resolve_one_off_def well_scheduled_def effective_def res_bind_eq_Inr res_when_eq_Inr)
next
  case False
  then have rec: "resolve_recurring (schedule_MESSAGES kind) body None = Inr r" using assms by (simp add: resolveSchedule_def)
  note p = resolve_recurring_parts [OF rec]
  obtain d s where d: "rv_day r = Some (Some d)" "1 \<le> d \<and> d \<le> 31" and s: "rv_startsAt r = Some (Some s)"
    using p(1,2) by (auto simp: required_field_new dest: parseDayOfMonth_range)
  have "s \<le> e" if "effective (rv_endsAt r) None = Some e" for e
    using kept_order [OF p(3)] that by (simp add: s effective_def)
  with d s p(4) False show ?thesis by (simp add: well_scheduled_def effective_def)
qed

text \<open>An edit may change the frequency as well: only the day that is kept must be a day of a month.\<close>

lemma edited_schedule:
  assumes "resolveSchedule kind frequency body (Some e) = Inr r" "\<And>d. xs_day e = Some d \<Longrightarrow> 1 \<le> d \<and> d \<le> 31"
  shows "well_scheduled frequency (effective (rv_day r) (xs_day e)) (effective (rv_startsAt r) (xs_startsAt e))
    (effective (rv_endsAt r) (xs_endsAt e)) (effective (rv_date r) (xs_date e))"
proof (cases "frequency = ''unica''")
  case True
  with assms(1) show ?thesis
    by (auto simp: resolveSchedule_def resolve_one_off_def well_scheduled_def effective_def res_bind_eq_Inr res_when_eq_Inr
        split: if_splits)
next
  case False
  then have rec: "resolve_recurring (schedule_MESSAGES kind) body (Some e) = Inr r" using assms(1) by (simp add: resolveSchedule_def)
  note p = resolve_recurring_parts [OF rec, unfolded option.map required_field_edit]
  obtain d where d: "effective (rv_day r) (xs_day e) = Some d" "1 \<le> d \<and> d \<le> 31"
    using p(1) assms(2) by (auto simp: effective_def dest: parseDayOfMonth_range)
  obtain s where s: "effective (rv_startsAt r) (xs_startsAt e) = Some s"
    using p(2) by (auto simp: effective_def)
  have "s \<le> t" if "effective (rv_endsAt r) (xs_endsAt e) = Some t" for t
    using kept_order [OF p(3)] that s by simp
  with d s p(4) False show ?thesis by (simp add: well_scheduled_def effective_def)
qed

lemma well_scheduled_day: "well_scheduled f day s e t \<Longrightarrow> day = Some d \<Longrightarrow> 1 \<le> d \<and> d \<le> 31"
  by (auto simp: well_scheduled_def split: if_splits)

end
