(* ===== verification/Custom_Tags.thy ===== *)
theory Custom_Tags
  imports Schedule
begin

text \<open>
  \<open>backend/src/services/custom-tags.ts\<close> and \<open>services/finance-tags.ts\<close>: the user's own types of
  expenses and incomes. The two comparisons of names that PostgreSQL makes are parameters: \<open>alike\<close>
  is the case-insensitive match of Prisma, \<open>foldKey\<close> the key of the unique index on income tags
  (case folding and NFKC). The index and the unique constraint are part of \<open>insert_tag\<close>; deleting
  a tag clears the references to it (\<open>onDelete: SetNull\<close> in the schema). On Latin-1 strings NFC
  changes nothing.
\<close>

section \<open>custom-tags.ts\<close>

definition is_hex_digit :: "char \<Rightarrow> bool" where
  "is_hex_digit c \<longleftrightarrow> is_digit c \<or> CHR ''a'' \<le> c \<and> c \<le> CHR ''f'' \<or> CHR ''A'' \<le> c \<and> c \<le> CHR ''F''"

text \<open>\<open>/^#[0-9A-Fa-f]{6}$/\<close>\<close>

definition HEX_COLOR :: "string \<Rightarrow> bool" where
  "HEX_COLOR s \<longleftrightarrow> length s = 7 \<and> hd s = CHR ''#'' \<and> list_all is_hex_digit (tl s)"

definition INVALID_CUSTOM_TAG_MESSAGE :: string where
  "INVALID_CUSTOM_TAG_MESSAGE = ''Tipo personalizado invalido''"

definition parseTagScope :: "js \<Rightarrow> string \<Rightarrow> string res" where
  "parseTagScope value message = parseOneOf value [''expense'', ''income''] message"

record create_tag_input =
  ti_scope :: string
  ti_name :: string
  ti_color :: string

definition parseCreateCustomTag :: "(string \<times> js) list \<Rightarrow> create_tag_input res" where
  "parseCreateCustomTag body =
     res_bind (parseTagScope (js_field body ''scope'') ''scope deve ser expense ou income'') (\<lambda>scope.
     res_bind (parseRequiredText (js_field body ''name'') 100 ''Informe o nome do tipo'') (\<lambda>name.
     case js_field body ''color'' of
       JString color \<Rightarrow> res_when (\<not> HEX_COLOR color) (BadRequest ''Cor invalida (use #RRGGBB)'')
         (Inr \<lparr>ti_scope = scope, ti_name = name, ti_color = color\<rparr>)
     | _ \<Rightarrow> Inl (BadRequest ''Cor invalida (use #RRGGBB)'')))"

definition listCustomTags :: "string \<Rightarrow> string \<Rightarrow> finance_db \<Rightarrow> custom_tag list" where
  "listCustomTags userId scope db =
     sort_key ct_name (filter (\<lambda>t. ct_userId t = userId \<and> ct_scope t = scope) (db_customTags db))"

text \<open>Whether the unique constraint or the unique index on income tags refuses a new row.\<close>

definition tag_clash :: "(string \<Rightarrow> string) \<Rightarrow> custom_tag \<Rightarrow> custom_tag \<Rightarrow> bool" where
  "tag_clash foldKey a b \<longleftrightarrow> ct_userId a = ct_userId b \<and> ct_scope a = ct_scope b
     \<and> (ct_name a = ct_name b \<or> ct_scope a = ''income'' \<and> foldKey (ct_name a) = foldKey (ct_name b))"

definition insert_tag :: "(string \<Rightarrow> string) \<Rightarrow> custom_tag \<Rightarrow> finance_db \<Rightarrow> finance_db option" where
  "insert_tag foldKey tag db =
     (if list_ex (tag_clash foldKey tag) (db_customTags db) then None
      else Some (db\<lparr>db_customTags := db_customTags db @ [tag]\<rparr>))"

definition createCustomTag ::
    "(string \<Rightarrow> string \<Rightarrow> bool) \<Rightarrow> (string \<Rightarrow> string) \<Rightarrow> (nat \<Rightarrow> string) \<Rightarrow> instant \<Rightarrow> string \<Rightarrow> create_tag_input
     \<Rightarrow> finance_db \<Rightarrow> (finance_db \<times> custom_tag) res" where
  "createCustomTag alike foldKey newId now userId input db =
     (let duplicateMessage = ''Ja existe um tipo com esse nome'';
          tag = \<lparr>ct_id = newId (length (db_customTags db)), ct_userId = userId, ct_scope = ti_scope input,
                 ct_name = ti_name input, ct_color = ti_color input, ct_createdAt = now\<rparr> in
      res_when (list_ex (\<lambda>t. ct_userId t = userId \<and> ct_scope t = ti_scope input \<and> alike (ti_name input) (ct_name t))
          (db_customTags db)) (Conflict duplicateMessage)
        (case insert_tag foldKey tag db of
           None \<Rightarrow> Inl (Conflict duplicateMessage) | Some db' \<Rightarrow> Inr (db', tag)))"

definition clear_tag :: "string \<Rightarrow> string option \<Rightarrow> string option" where
  "clear_tag tagId v = (if v = Some tagId then None else v)"

definition deleteCustomTag :: "string \<Rightarrow> string \<Rightarrow> finance_db \<Rightarrow> finance_db res" where
  "deleteCustomTag userId tagId db =
     (let gone = filter (\<lambda>t. ct_id t = tagId \<and> ct_userId t = userId) (db_customTags db) in
      res_when (gone = []) (NotFound ''Tipo nao encontrado'')
        (Inr (db\<lparr>db_customTags := filter (\<lambda>t. \<not> (ct_id t = tagId \<and> ct_userId t = userId)) (db_customTags db),
                 db_entries := map (\<lambda>e. e\<lparr>en_customTagId := clear_tag tagId (en_customTagId e)\<rparr>) (db_entries db),
                 db_expenses := map (\<lambda>e. e\<lparr>er_customTagId := clear_tag tagId (er_customTagId e)\<rparr>) (db_expenses db)\<rparr>)))"

definition owned_tag :: "finance_db \<Rightarrow> string \<Rightarrow> string \<Rightarrow> string \<Rightarrow> bool" where
  "owned_tag db userId scope tagId \<longleftrightarrow>
     list_ex (\<lambda>t. ct_id t = tagId \<and> ct_userId t = userId \<and> ct_scope t = scope) (db_customTags db)"

definition resolveCustomTagId :: "finance_db \<Rightarrow> string \<Rightarrow> string \<Rightarrow> string option \<Rightarrow> string option res" where
  "resolveCustomTagId db userId scope customTagId =
     (if \<not> truthy customTagId then Inr None
      else res_when (\<not> owned_tag db userId scope (the customTagId)) (BadRequest INVALID_CUSTOM_TAG_MESSAGE)
        (Inr customTagId))"

section \<open>finance-tags.ts\<close>

definition DEFAULT_INCOME_TAG_COLOR :: string where
  "DEFAULT_INCOME_TAG_COLOR = ''#34D399''"

text \<open>\<open>/\p{C}/u\<close> on Latin-1: the control characters and the soft hyphen.\<close>

definition is_other_char :: "char \<Rightarrow> bool" where
  "is_other_char c \<longleftrightarrow> (let n = of_char c :: nat in n < 32 \<or> 127 \<le> n \<and> n < 160 \<or> n = 173)"

definition resolveIncomeTagInTransaction ::
    "(string \<Rightarrow> string) \<Rightarrow> (nat \<Rightarrow> string) \<Rightarrow> instant \<Rightarrow> string \<Rightarrow> string \<Rightarrow> finance_db \<Rightarrow> (finance_db \<times> string \<times> bool) res" where
  "resolveIncomeTagInTransaction foldKey newId now userId tagName db =
     (let name = trim tagName;
          equivalent = (\<lambda>db. find (\<lambda>t. ct_userId t = userId \<and> ct_scope t = ''income'' \<and> foldKey (ct_name t) = foldKey name)
                               (db_customTags db)) in
      res_when (name = [] \<or> length name > 100 \<or> list_ex is_other_char name)
        (BadRequest ''Nome da tag de entrada invalido (maximo 100 caracteres)'')
        (case equivalent db of
           Some t \<Rightarrow> Inr (db, ct_id t, False)
         | None \<Rightarrow>
             (let inserted = insert_tag foldKey \<lparr>ct_id = newId (length (db_customTags db)), ct_userId = userId,
                    ct_scope = ''income'', ct_name = name, ct_color = DEFAULT_INCOME_TAG_COLOR, ct_createdAt = now\<rparr> db;
                  db' = (case inserted of None \<Rightarrow> db | Some d \<Rightarrow> d) in
              case equivalent db' of
                None \<Rightarrow> Inl (PlainError ''Created or concurrent income tag could not be resolved'')
              | Some t \<Rightarrow> Inr (db', ct_id t, inserted \<noteq> None))))"

section \<open>Tags stay unique\<close>

definition unique_tags :: "(string \<Rightarrow> string) \<Rightarrow> custom_tag list \<Rightarrow> bool" where
  "unique_tags foldKey tags \<longleftrightarrow> sorted_wrt (\<lambda>a b. \<not> tag_clash foldKey b a) tags"

lemma insert_tag_unique:
  "insert_tag foldKey tag db = Some db' \<Longrightarrow> unique_tags foldKey (db_customTags db)
    \<Longrightarrow> db_customTags db' = db_customTags db @ [tag] \<and> unique_tags foldKey (db_customTags db')"
  by (auto simp: insert_tag_def unique_tags_def sorted_wrt_append list_ex_iff split: if_splits)

lemma delete_tag_unique:
  "deleteCustomTag userId tagId db = Inr db' \<Longrightarrow> unique_tags foldKey (db_customTags db) \<Longrightarrow> unique_tags foldKey (db_customTags db')"
  by (auto simp: deleteCustomTag_def res_when_eq_Inr Let_def unique_tags_def sorted_wrt_filter)

lemma resolved_tag: "resolveCustomTagId db userId scope v = Inr (Some t) \<Longrightarrow> owned_tag db userId scope t"
  by (auto simp: resolveCustomTagId_def res_when_eq_Inr split: if_splits)

end
