(* ===== verification/Entries.thy ===== *)
theory Entries
  imports Custom_Tags
begin

text \<open>
  \<open>backend/src/services/entries.ts\<close> and \<open>services/received-income.ts\<close>: income entries, their edits
  and the confirmation of what was received. The receipts, salary versions and salary holds of an
  entry are lists in its row, at most one per month each. A transaction under the user's write
  lock is one step on the tables; \<open>now\<close> is the clock, read once. Prisma stamps \<open>updatedAt\<close> on
  every update of a row.
\<close>

section \<open>Parsing\<close>

record create_entry_input =
  ce_name :: string
  ce_notes :: "string option"
  ce_amount :: rat
  ce_type :: string
  ce_frequency :: string
  ce_customTagId :: "string option"
  ce_schedule :: schedule_body

record update_entry_input =
  ue_name :: "string option"
  ue_notes :: "string option option"
  ue_amount :: "rat option"
  ue_type :: "string option"
  ue_frequency :: "string option"
  ue_customTagId :: "string option option"
  ue_schedule :: schedule_body

definition entry_schedule_body :: "(string \<times> js) list \<Rightarrow> schedule_body" where
  "entry_schedule_body body = \<lparr>sb_day = js_field body ''receiveDay'', sb_startsAt = js_field body ''startsAt'',
     sb_endsAt = js_field body ''endsAt'', sb_date = js_field body ''date''\<rparr>"

definition parseTagId :: "js \<Rightarrow> string option option res" where
  "parseTagId value = parseOptionalId value ''Tipo personalizado invalido''"

definition validateNoteLength :: "js \<Rightarrow> unit res" where
  "validateNoteLength value =
     (case value of
        JString s \<Rightarrow> res_when (length (trim s) > 500) (BadRequest ''Descricao deve ter no maximo 500 caracteres'') (Inr ())
      | _ \<Rightarrow> Inr ())"

definition parseCreateEntry :: "(string \<times> js) list \<Rightarrow> create_entry_input res" where
  "parseCreateEntry body =
     (let required = ''Campos obrigatorios: name, amount, type, frequency'';
          amount = js_field body ''amount''; type = js_field body ''type''; frequency = js_field body ''frequency'' in
      res_bind (validateNoteLength (js_field body ''notes'')) (\<lambda>u.
      res_bind (parseRequiredText (js_field body ''name'') 100 required) (\<lambda>name.
      res_when (js_nullish amount \<or> \<not> js_truthy type \<or> \<not> js_truthy frequency) (BadRequest required)
      (res_bind (parseAmount amount False None) (\<lambda>parsedAmount.
       res_when (\<not> isValidEntryType type) (BadRequest ''Tipo invalido'')
       (res_when (type = JString ''salario'') (BadRequest ''O salario e cadastrado pela aba Perfil'')
       (res_when (\<not> isValidFrequency frequency) (BadRequest ''Frequencia invalida'')
       (res_bind (parseOptionalNote (js_field body ''notes'') 500) (\<lambda>notes.
        res_bind (parseTagId (js_field body ''customTagId'')) (\<lambda>tag.
        Inr \<lparr>ce_name = name, ce_notes = notes, ce_amount = parsedAmount, ce_type = js_text type,
             ce_frequency = js_text frequency, ce_customTagId = present tag,
             ce_schedule = entry_schedule_body body\<rparr>))))))))))"

definition parseUpdateEntry :: "(string \<times> js) list \<Rightarrow> update_entry_input res" where
  "parseUpdateEntry body =
     (let type = js_field body ''type''; frequency = js_field body ''frequency'' in
      res_bind (validateNoteLength (js_field body ''notes'')) (\<lambda>u.
      res_when (type \<noteq> JUndefined \<and> \<not> isValidEntryType type) (BadRequest ''Tipo invalido'')
      (res_when (type = JString ''salario'') (BadRequest ''O salario e cadastrado pela aba Perfil'')
      (res_when (frequency \<noteq> JUndefined \<and> \<not> isValidFrequency frequency) (BadRequest ''Frequencia invalida'')
      (res_bind (if_present (js_field body ''name'') (\<lambda>v. parseRequiredText v 100 ''Nome invalido'')) (\<lambda>name.
       res_bind (parsePatchNote (js_field body ''notes'') 500) (\<lambda>notes.
       res_bind (if_present (js_field body ''amount'') (\<lambda>v. parseAmount v False None)) (\<lambda>amount.
       res_bind (parseTagId (js_field body ''customTagId'')) (\<lambda>tag.
       Inr \<lparr>ue_name = name, ue_notes = notes, ue_amount = amount,
            ue_type = (if type = JUndefined then None else Some (js_text type)),
            ue_frequency = (if frequency = JUndefined then None else Some (js_text frequency)),
            ue_customTagId = tag, ue_schedule = entry_schedule_body body\<rparr>)))))))))"

datatype receipt_state = Automatic | Received | Waiting

record receipt_request =
  rq_month :: string
  rq_state :: receipt_state
  rq_receivedOn :: "string option"
  rq_expectedUpdatedAt :: "string option"

definition parse_receipt_state :: "js \<Rightarrow> receipt_state option" where
  "parse_receipt_state v =
     (if v = JString ''automatic'' then Some Automatic else if v = JString ''received'' then Some Received
      else if v = JString ''waiting'' then Some Waiting else None)"

text \<open>\<open>toISOString()\<close> of an instant of the years 0 to 9999.\<close>

definition iso_text :: "instant \<Rightarrow> string" where
  "iso_text t =
     (let ms = t mod ms_per_day in
      dayKeyOfDate t @ ''T'' @ pad (ms div 3600000) 2 @ '':'' @ pad (ms div 60000 mod 60) 2 @ '':''
        @ pad (ms div 1000 mod 60) 2 @ ''.'' @ pad (ms mod 1000) 3 @ ''Z'')"

text \<open>
  The instant an ISO text denotes, when \<open>toISOString\<close> prints it back as it was (the regular
  expression, \<open>Date.parse\<close> and the round trip of the source together).
\<close>

definition iso_instant :: "string \<Rightarrow> instant option" where
  "iso_instant s =
     (let field = (\<lambda>i n. digits_val (take n (drop i s)));
          t = days_of_civil (Civil (field 0 4) (field 5 2 - 1) (field 8 2)) * ms_per_day
              + field 11 2 * 3600000 + field 14 2 * 60000 + field 17 2 * 1000 + field 20 3 in
      if 1 \<le> field 5 2 \<and> field 5 2 \<le> 12 \<and> iso_text t = s then Some t else None)"

definition parse_received_on :: "tz_offset \<Rightarrow> instant \<Rightarrow> string \<Rightarrow> receipt_state \<Rightarrow> js \<Rightarrow> string option res" where
  "parse_received_on sp now month state receivedOn =
     (let invalid = BadRequest ''Data efetiva do recebimento invalida'' in
      case receivedOn of
        JUndefined \<Rightarrow> Inr None
      | JString k \<Rightarrow> res_when (state \<noteq> Received \<or> parseDayKey k = None \<or> monthKey k \<noteq> month \<or> k > todayKeyInSaoPaulo sp now)
          invalid (Inr (Some k))
      | _ \<Rightarrow> Inl invalid)"

definition parse_expected_version :: "js \<Rightarrow> string option res" where
  "parse_expected_version v =
     (case v of
        JUndefined \<Rightarrow> Inr None
      | JString s \<Rightarrow> res_when (iso_instant s = None) (BadRequest ''Versao de entrada invalida'') (Inr (Some s))
      | _ \<Rightarrow> Inl (BadRequest ''Versao de entrada invalida''))"

definition parseReceiptStateBody :: "tz_offset \<Rightarrow> instant \<Rightarrow> (string \<times> js) list \<Rightarrow> receipt_request res" where
  "parseReceiptStateBody sp now body =
     (case (parseMonthKey (js_field body ''month''), parse_receipt_state (js_field body ''state'')) of
        (Some month, Some state) \<Rightarrow>
          res_bind (parse_received_on sp now month state (js_field body ''receivedOn'')) (\<lambda>receivedOn.
          res_bind (parse_expected_version (js_field body ''expectedUpdatedAt'')) (\<lambda>expected.
          Inr \<lparr>rq_month = month, rq_state = state, rq_receivedOn = receivedOn, rq_expectedUpdatedAt = expected\<rparr>))
      | _ \<Rightarrow> Inl (BadRequest ''Estado de recebimento invalido''))"

section \<open>Listing, creating, editing, archiving\<close>

definition entry_not_found :: error where
  "entry_not_found = NotFound ''Entrada nao encontrada''"

definition entry_conflict :: error where
  "entry_conflict = Conflict ''Entrada alterada por outra operacao; atualize e tente novamente''"

definition update_entries :: "(entry_row \<Rightarrow> bool) \<Rightarrow> (entry_row \<Rightarrow> entry_row) \<Rightarrow> finance_db \<Rightarrow> finance_db" where
  "update_entries P f db = db\<lparr>db_entries := map (\<lambda>e. if P e then f e else e) (db_entries db)\<rparr>"

definition find_entry :: "finance_db \<Rightarrow> string \<Rightarrow> string \<Rightarrow> entry_row option" where
  "find_entry db userId entryId = find (\<lambda>e. en_id e = entryId \<and> en_userId e = userId) (db_entries db)"

definition listEntries :: "string \<Rightarrow> finance_db \<Rightarrow> entry_row list" where
  "listEntries userId db =
     rev (sort_key en_createdAt
       (filter (\<lambda>e. en_userId e = userId \<and> en_archivedAt e = None \<and> en_systemOrigin e = ''manual'') (db_entries db)))"

definition new_entry_row ::
    "string \<Rightarrow> instant \<Rightarrow> string \<Rightarrow> create_entry_input \<Rightarrow> resolved_schedule \<Rightarrow> string option \<Rightarrow> entry_row" where
  "new_entry_row entryId now userId input schedule tag = \<lparr>
     en_id = entryId, en_userId = userId, en_customTagId = tag, en_name = ce_name input, en_notes = ce_notes input,
     en_amount = ce_amount input, en_type = ce_type input, en_frequency = ce_frequency input,
     en_receiveDay = effective (rv_day schedule) None, en_startsAt = effective (rv_startsAt schedule) None,
     en_endsAt = effective (rv_endsAt schedule) None, en_date = effective (rv_date schedule) None,
     en_receiptHoldForMonth = None, en_receivedForMonth = None, en_receivedAt = None, en_archivedAt = None,
     en_systemOrigin = ''manual'', en_createdAt = now, en_updatedAt = now,
     en_receipts = [], en_salaryVersions = [], en_salaryHolds = []\<rparr>"

definition custom_tag_type_error :: error where
  "custom_tag_type_error = BadRequest ''Tipos personalizados devem usar type=outro''"

definition createEntry ::
    "(nat \<Rightarrow> string) \<Rightarrow> instant \<Rightarrow> string \<Rightarrow> create_entry_input \<Rightarrow> finance_db \<Rightarrow> (finance_db \<times> entry_row) res" where
  "createEntry newId now userId input db =
     res_bind (resolveSchedule Income_Schedule (ce_frequency input) (ce_schedule input) None) (\<lambda>schedule.
     res_bind (resolveCustomTagId db userId ''income'' (ce_customTagId input)) (\<lambda>tag.
     res_when (truthy tag \<and> ce_type input \<noteq> ''outro'') custom_tag_type_error
     (let row = new_entry_row (newId (length (db_entries db))) now userId input schedule tag in
      Inr (db\<lparr>db_entries := db_entries db @ [row]\<rparr>, row))))"

definition assertEntryFrequencyTransition :: "string \<Rightarrow> string \<Rightarrow> bool \<Rightarrow> unit res" where
  "assertEntryFrequencyTransition previous nxt hasRecordedReceipt =
     res_when (previous = ''unica'' \<and> nxt \<noteq> ''unica'' \<and> hasRecordedReceipt)
       (Conflict ''Entrada avulsa com recebimento registrado nao pode virar recorrente; crie uma nova entrada'') (Inr ())"

text \<open>An absent field leaves the column as it is.\<close>

definition or_keep :: "'a option \<Rightarrow> 'a \<Rightarrow> 'a" where
  "or_keep v old = (case v of Some x \<Rightarrow> x | None \<Rightarrow> old)"

definition edited_entry ::
    "instant \<Rightarrow> update_entry_input \<Rightarrow> resolved_schedule \<Rightarrow> string option option \<Rightarrow> entry_row \<Rightarrow> entry_row" where
  "edited_entry now input schedule tag e = e\<lparr>
     en_name := or_keep (ue_name input) (en_name e), en_notes := or_keep (ue_notes input) (en_notes e),
     en_amount := or_keep (ue_amount input) (en_amount e), en_type := or_keep (ue_type input) (en_type e),
     en_frequency := or_keep (ue_frequency input) (en_frequency e),
     en_date := effective (rv_date schedule) (en_date e), en_receiveDay := effective (rv_day schedule) (en_receiveDay e),
     en_startsAt := effective (rv_startsAt schedule) (en_startsAt e),
     en_endsAt := effective (rv_endsAt schedule) (en_endsAt e),
     en_customTagId := or_keep tag (en_customTagId e), en_updatedAt := now\<rparr>"

definition existing_of_entry :: "entry_row \<Rightarrow> existing_schedule" where
  "existing_of_entry e = \<lparr>xs_day = en_receiveDay e, xs_startsAt = en_startsAt e, xs_endsAt = en_endsAt e, xs_date = en_date e\<rparr>"

definition updateEntry ::
    "instant \<Rightarrow> string \<Rightarrow> string \<Rightarrow> update_entry_input \<Rightarrow> finance_db \<Rightarrow> finance_db res" where
  "updateEntry now userId entryId input db =
     (case find_entry db userId entryId of
        None \<Rightarrow> Inl entry_not_found
      | Some existing \<Rightarrow>
          res_when (en_type existing = ''salario'') (BadRequest ''O salario e gerenciado pela aba Perfil'')
          (res_when (en_archivedAt existing \<noteq> None) entry_not_found
          (res_when (en_systemOrigin existing \<noteq> ''manual'')
             (BadRequest ''Movimentacoes de cofrinho ou ativos nao podem ser editadas aqui'')
          (res_bind (case ue_customTagId input of
                       None \<Rightarrow> Inr None
                     | Some t \<Rightarrow> res_bind (resolveCustomTagId db userId ''income'' t) (\<lambda>r. Inr (Some r))) (\<lambda>tag.
           let nextType = or_keep (ue_type input) (en_type existing);
               nextFrequency = or_keep (ue_frequency input) (en_frequency existing) in
           res_bind (assertEntryFrequencyTransition (en_frequency existing) nextFrequency (en_receipts existing \<noteq> [])) (\<lambda>u.
           res_when (truthy (or_keep tag (en_customTagId existing)) \<and> nextType \<noteq> ''outro'') custom_tag_type_error
           (res_bind (resolveSchedule Income_Schedule nextFrequency (ue_schedule input) (Some (existing_of_entry existing)))
             (\<lambda>schedule.
              let matches = (\<lambda>e. en_id e = entryId \<and> en_userId e = userId \<and> en_updatedAt e = en_updatedAt existing) in
              res_when (filter matches (db_entries db) = []) entry_conflict
                (Inr (update_entries matches (edited_entry now input schedule tag) db))))))))))"

definition archiveEntry :: "instant \<Rightarrow> string \<Rightarrow> string \<Rightarrow> finance_db \<Rightarrow> finance_db res" where
  "archiveEntry now userId entryId db =
     (case find (\<lambda>e. en_id e = entryId \<and> en_userId e = userId \<and> en_archivedAt e = None) (db_entries db) of
        None \<Rightarrow> Inl entry_not_found
      | Some existing \<Rightarrow>
          res_when (en_systemOrigin existing \<noteq> ''manual'')
            (BadRequest ''Movimentacoes de cofrinho ou ativos nao podem ser excluidas aqui'')
          (res_when (en_type existing = ''salario'') (BadRequest ''O salario e gerenciado pela aba Perfil'')
          (Inr (update_entries (\<lambda>e. en_id e = entryId)
                  (\<lambda>e. e\<lparr>en_archivedAt := Some now, en_updatedAt := now\<rparr>) db))))"

section \<open>Confirming receipts\<close>

text \<open>
  The checks on a one-off: \<open>True\<close> when the request is a retry whose effect is already recorded.
  \<open>expected\<close> is the version the client saw; as the route passes only texts \<open>parseReceiptStateBody\<close>
  accepted, \<open>Date.parse\<close> is \<open>iso_instant\<close>.
\<close>

definition first_receipt :: "entry_row \<Rightarrow> entry_receipt option" where
  "first_receipt e = (case en_receipts e of [] \<Rightarrow> None | r # rs \<Rightarrow> Some r)"

definition invalid_received_on :: "tz_offset \<Rightarrow> instant \<Rightarrow> string \<Rightarrow> string option \<Rightarrow> bool" where
  "invalid_received_on sp now month receivedOn \<longleftrightarrow>
     \<not> truthy receivedOn \<or> parseDayKey (the receivedOn) = None \<or> monthKey (the receivedOn) \<noteq> month
     \<or> the receivedOn > todayKeyInSaoPaulo sp now"

definition one_off_gate ::
    "tz_offset \<Rightarrow> instant \<Rightarrow> string \<Rightarrow> receipt_state \<Rightarrow> string option \<Rightarrow> string option \<Rightarrow> entry_row \<Rightarrow> bool res" where
  "one_off_gate sp now month state receivedOn expected existing =
     res_when (\<not> truthy expected \<or> iso_instant (the expected) = None)
       (BadRequest ''Atualize as entradas antes de confirmar o recebimento'')
     (res_when (state = Received \<and> invalid_received_on sp now month receivedOn)
        (BadRequest ''Informe a data efetiva do recebimento'')
     (res_when (state \<noteq> Received \<and> receivedOn \<noteq> None) (BadRequest ''Data efetiva nao e permitida nesta operacao'')
     (let receipt = first_receipt existing;
          on_day = (\<lambda>r. Some (dayKeyInSaoPaulo sp (rc_receivedAt r)) = receivedOn) in
      if Some (iso_text (en_updatedAt existing)) \<noteq> expected then
        (if state = Received \<and> (case receipt of Some r \<Rightarrow> rc_month r = month \<and> on_day r | None \<Rightarrow> False)
            \<or> state = Waiting \<and> receipt = None
         then Inr True else Inl entry_conflict)
      else
        res_when (case receipt of Some r \<Rightarrow> rc_month r \<noteq> month \<or> state = Received \<and> \<not> on_day r | None \<Rightarrow> False)
          (Conflict ''Essa entrada avulsa ja tem um recebimento registrado'') (Inr False))))"

definition version_at :: "string \<Rightarrow> salary_version list \<Rightarrow> salary_version option" where
  "version_at month versions =
     (case rev (sort_key sv_month (filter (\<lambda>v. sv_month v \<le> month) versions)) of [] \<Rightarrow> None | v # vs \<Rightarrow> Some v)"

text \<open>The checks on a monthly salary, which give the version in force.\<close>

definition salary_gate :: "string \<Rightarrow> receipt_state \<Rightarrow> entry_row \<Rightarrow> salary_version res" where
  "salary_gate month state existing =
     (let (monthStart, monthEnd) = service_monthBounds month in
      res_when (case en_startsAt existing of Some t \<Rightarrow> t > monthEnd | None \<Rightarrow> False)
        (BadRequest ''Esse salario ainda nao comecou no mes selecionado'')
      (res_when (case en_endsAt existing of Some t \<Rightarrow> t < monthStart | None \<Rightarrow> False)
         (BadRequest ''Esse salario ja terminou antes do mes selecionado'')
      (case version_at month (en_salaryVersions existing) of
         None \<Rightarrow> Inl (BadRequest ''Nao ha salario registrado nessa competencia'')
       | Some v \<Rightarrow> res_when (sv_amount v = 0 \<and> state = Received)
           (BadRequest ''Nao ha salario previsto nessa competencia'') (Inr v))))"

definition salaryReceiptFields :: "receipt_state \<Rightarrow> string \<Rightarrow> instant option \<Rightarrow> entry_row \<Rightarrow> entry_row" where
  "salaryReceiptFields state month receivedAt e =
     (case state of
        Received \<Rightarrow> e\<lparr>en_receivedForMonth := Some month, en_receiptHoldForMonth := None, en_receivedAt := receivedAt\<rparr>
      | Waiting \<Rightarrow> e\<lparr>en_receivedForMonth := None, en_receiptHoldForMonth := Some month, en_receivedAt := None\<rparr>
      | Automatic \<Rightarrow> e\<lparr>en_receivedForMonth := None, en_receiptHoldForMonth := None, en_receivedAt := None\<rparr>)"

text \<open>\<open>entryReceipt.upsert\<close> with an empty update, and \<open>deleteMany\<close>.\<close>

definition upsert_receipt :: "entry_receipt \<Rightarrow> entry_receipt list \<Rightarrow> entry_receipt list" where
  "upsert_receipt r rs = (if list_ex (\<lambda>x. rc_month x = rc_month r) rs then rs else rs @ [r])"

definition put_receipt :: "receipt_state \<Rightarrow> entry_receipt \<Rightarrow> entry_row \<Rightarrow> entry_row" where
  "put_receipt state r e = e\<lparr>en_receipts :=
     (if state = Received then upsert_receipt r (en_receipts e)
      else filter (\<lambda>x. rc_month x \<noteq> rc_month r) (en_receipts e))\<rparr>"

definition receipt_of :: "string \<Rightarrow> entry_row \<Rightarrow> entry_receipt option" where
  "receipt_of month e = find (\<lambda>r. rc_month r = month) (en_receipts e)"

definition put_hold :: "receipt_state \<Rightarrow> string \<Rightarrow> entry_row \<Rightarrow> entry_row" where
  "put_hold state month e = e\<lparr>en_salaryHolds :=
     (if state = Waiting then (if month \<in> set (en_salaryHolds e) then en_salaryHolds e else en_salaryHolds e @ [month])
      else filter (\<lambda>m. m \<noteq> month) (en_salaryHolds e))\<rparr>"

text \<open>The writes for a monthly salary.\<close>

definition salary_receipt_row :: "instant \<Rightarrow> receipt_state \<Rightarrow> entry_receipt \<Rightarrow> entry_row \<Rightarrow> entry_row" where
  "salary_receipt_row now state r e =
     (let month = rc_month r; e1 = put_hold state month (put_receipt state r e) in
      (salaryReceiptFields state month (map_option rc_receivedAt (receipt_of month e1)) e1)\<lparr>en_updatedAt := now\<rparr>)"

definition is_monthly_salary :: "entry_row \<Rightarrow> bool" where
  "is_monthly_salary e \<longleftrightarrow> en_type e = ''salario'' \<and> en_frequency e = ''mensal''"

definition new_receipt :: "(nat \<Rightarrow> string) \<Rightarrow> string \<Rightarrow> rat \<Rightarrow> instant \<Rightarrow> finance_db \<Rightarrow> entry_receipt" where
  "new_receipt newId month amount receivedAt db =
     \<lparr>rc_id = newId (length (concat (map en_receipts (db_entries db)))), rc_month = month, rc_amount = amount,
      rc_receivedAt = receivedAt\<rparr>"

definition set_one_off ::
    "tz_offset \<Rightarrow> (nat \<Rightarrow> string) \<Rightarrow> instant \<Rightarrow> string \<Rightarrow> receipt_state \<Rightarrow> string option \<Rightarrow> string option \<Rightarrow> entry_row
     \<Rightarrow> finance_db \<Rightarrow> finance_db res" where
  "set_one_off sp newId now month state receivedOn expected existing db =
     res_bind (one_off_gate sp now month state receivedOn expected existing) (\<lambda>recorded.
     if recorded then Inr db
     else
       res_bind (if state = Received then dayKeyToDate (the receivedOn) Noon else Inr now) (\<lambda>day.
       let db1 = update_entries (\<lambda>e. en_id e = en_id existing)
                   (put_receipt state (new_receipt newId month (en_amount existing) day db)) db;
           matches = (\<lambda>e. en_id e = en_id existing \<and> en_userId e = en_userId existing
                        \<and> en_updatedAt e = en_updatedAt existing) in
       if state = Received \<and> en_receipts existing = [] \<or> state = Waiting \<and> en_receipts existing \<noteq> [] then
         res_when (length (filter matches (db_entries db1)) \<noteq> 1) entry_conflict
           (Inr (update_entries matches (\<lambda>e. e\<lparr>en_updatedAt := max now (en_updatedAt existing + 1)\<rparr>) db1))
       else Inr db1))"

text \<open>The entry that is returned is its row in the new tables.\<close>

definition setReceiptState ::
    "tz_offset \<Rightarrow> (nat \<Rightarrow> string) \<Rightarrow> instant \<Rightarrow> string \<Rightarrow> string \<Rightarrow> receipt_request \<Rightarrow> finance_db \<Rightarrow> finance_db res" where
  "setReceiptState sp newId now userId entryId rq db =
     (let month = rq_month rq; state = rq_state rq in
      case find (\<lambda>e. en_id e = entryId \<and> en_userId e = userId \<and> en_archivedAt e = None \<and> en_systemOrigin e = ''manual'')
             (db_entries db) of
        None \<Rightarrow> Inl entry_not_found
      | Some existing \<Rightarrow>
          res_when (\<not> is_monthly_salary existing \<and> en_frequency existing \<noteq> ''unica'')
            (BadRequest ''Confirmacao manual e permitida apenas para salario mensal ou entrada avulsa'')
          (res_when (en_frequency existing = ''unica'' \<and> state = Automatic)
             (BadRequest ''Entrada avulsa exige confirmacao explicita de recebimento'')
          (if en_frequency existing = ''unica'' then
             set_one_off sp newId now month state (rq_receivedOn rq) (rq_expectedUpdatedAt rq) existing db
           else
             res_when (rq_receivedOn rq \<noteq> None \<or> rq_expectedUpdatedAt rq \<noteq> None)
               (BadRequest ''Data e versao explicitas sao reservadas as entradas avulsas'')
             (res_bind (salary_gate month state existing) (\<lambda>v.
              Inr (update_entries (\<lambda>e. en_id e = entryId)
                     (salary_receipt_row now state (new_receipt newId month (sv_amount v) now db)) db))))))"

section \<open>received-income.ts\<close>

record received_income =
  ri_amountCents :: int
  ri_dateKey :: string
  ri_name :: string
  ri_notes :: "string option"
  ri_tagId :: "string option"

definition createReceivedOneTimeIncomeInTransaction ::
    "decimal_lib \<Rightarrow> tz_offset \<Rightarrow> (nat \<Rightarrow> string) \<Rightarrow> instant \<Rightarrow> string \<Rightarrow> received_income \<Rightarrow> finance_db
     \<Rightarrow> (finance_db \<times> string \<times> string) res" where
  "createReceivedOneTimeIncomeInTransaction D sp newId now userId input db =
     res_when (\<bar>ri_amountCents input\<bar> > MAX_SAFE_INTEGER \<or> ri_amountCents input < 1 \<or> ri_amountCents input > 999999999999)
       (BadRequest ''Valor da entrada invalido'')
     (res_when (parseDayKey (ri_dateKey input) = None) (BadRequest ''Data da entrada invalida'')
     (res_when (ri_dateKey input > todayKeyInSaoPaulo sp now) (BadRequest ''Data futura nao pode ser marcada como recebida'')
     (let name = trim (ri_name input) in
      res_when (name = [] \<or> length name > 100) (BadRequest ''Nome da entrada invalido'')
      (res_when (case ri_notes input of Some n \<Rightarrow> length n > 500 | None \<Rightarrow> False) (BadRequest ''Descricao da entrada muito longa'')
      (res_when (truthy (ri_tagId input) \<and> \<not> owned_tag db userId ''income'' (the (ri_tagId input)))
         (BadRequest ''Tag de entrada invalida'')
      (res_bind (dayKeyToDate (ri_dateKey input) Noon) (\<lambda>date.
       let amount = dec_div D (of_int (ri_amountCents input)) 100;
           receipt = new_receipt newId (monthKey (ri_dateKey input)) amount date db;
           entry = \<lparr>en_id = newId (length (db_entries db)), en_userId = userId, en_customTagId = ri_tagId input,
             en_name = name, en_notes = ri_notes input, en_amount = amount, en_type = ''outro'', en_frequency = ''unica'',
             en_receiveDay = None, en_startsAt = None, en_endsAt = None, en_date = Some date,
             en_receiptHoldForMonth = None, en_receivedForMonth = None, en_receivedAt = None, en_archivedAt = None,
             en_systemOrigin = ''manual'', en_createdAt = now, en_updatedAt = now,
             en_receipts = [receipt], en_salaryVersions = [], en_salaryHolds = []\<rparr> in
       Inr (db\<lparr>db_entries := db_entries db @ [entry]\<rparr>, en_id entry, rc_id receipt))))))))"

end
