(* ===== verification/Profile.thy ===== *)
theory Profile
  imports Entries
begin

text \<open>
  \<open>backend/src/services/profile.ts\<close>: the profile of a user and the monthly salary entry that is kept
  in step with it. Each salary change is a version of the entry from the current Sao Paulo month
  on; the versions of earlier months stay.
\<close>

section \<open>profile.ts\<close>

definition is_salary_entry :: "string \<Rightarrow> entry_row \<Rightarrow> bool" where
  "is_salary_entry userId e \<longleftrightarrow> en_userId e = userId \<and> en_type e = ''salario'' \<and> en_frequency e = ''mensal'' \<and> en_name e = ''Salario''"

definition findSalaryEntry :: "finance_db \<Rightarrow> string \<Rightarrow> entry_row option" where
  "findSalaryEntry db userId =
     (case sort_key en_createdAt (filter (is_salary_entry userId) (db_entries db)) of [] \<Rightarrow> None | e # es \<Rightarrow> Some e)"

definition salaryReceiveDayOf :: "finance_db \<Rightarrow> string \<Rightarrow> int option" where
  "salaryReceiveDayOf db userId = Option.bind (findSalaryEntry db userId) en_receiveDay"

record update_profile_input =
  up_name :: "string option"
  up_salary :: "rat option"
  up_notes :: "string option option"
  up_salaryReceiveDay :: "int option option"

definition parseUpdateProfile :: "(string \<times> js) list \<Rightarrow> update_profile_input res" where
  "parseUpdateProfile body =
     res_bind (if_present (js_field body ''salary'')
       (\<lambda>v. parseAmount v True (Some (''Salario invalido (maximo R$ '' @ fixed2_text MAX_MONEY_AMOUNT @ '')'')))) (\<lambda>salary.
     res_bind (parseDayOfMonth (js_field body ''salaryReceiveDay'') ''Dia de recebimento do salario invalido (1-31)'') (\<lambda>day.
     res_bind (if_present (js_field body ''name'') (\<lambda>v. parseRequiredText v 100 ''Nome nao pode ser vazio'')) (\<lambda>name.
     res_bind (parsePatchNote (js_field body ''notes'') 500) (\<lambda>notes.
     Inr \<lparr>up_name = name, up_salary = salary, up_notes = notes, up_salaryReceiveDay = day\<rparr>))))"

definition lastDayOfPreviousMonth :: "instant \<Rightarrow> instant" where
  "lastDayOfPreviousMonth today = date_UTC (getUTCFullYear today) (getUTCMonth today) 0 12"

text \<open>\<open>salaryVersion.upsert\<close> on the pair of entry and month.\<close>

definition upsert_version :: "salary_version \<Rightarrow> salary_version list \<Rightarrow> salary_version list" where
  "upsert_version v vs =
     (if list_ex (\<lambda>x. sv_month x = sv_month v) vs then map (\<lambda>x. if sv_month x = sv_month v then v else x) vs else vs @ [v])"

text \<open>An entry without versions gets the terms it has now as its first one.\<close>

definition baseline_version :: "tz_offset \<Rightarrow> entry_row \<Rightarrow> salary_version" where
  "baseline_version sp e = \<lparr>
     sv_month = (case en_startsAt e of Some t \<Rightarrow> monthKey_of_date t | None \<Rightarrow> take 7 (dayKeyInSaoPaulo sp (en_createdAt e))),
     sv_amount = en_amount e, sv_receiveDay = (case en_receiveDay e of Some d \<Rightarrow> d | None \<Rightarrow> 1)\<rparr>"

definition with_baseline :: "tz_offset \<Rightarrow> entry_row \<Rightarrow> entry_row" where
  "with_baseline sp e = (if en_salaryVersions e = [] then e\<lparr>en_salaryVersions := [baseline_version sp e]\<rparr> else e)"

definition raised_salary :: "tz_offset \<Rightarrow> instant \<Rightarrow> string \<Rightarrow> rat \<Rightarrow> int \<Rightarrow> entry_row \<Rightarrow> entry_row" where
  "raised_salary sp now month amount day e =
     (let e1 = with_baseline sp e in
      e1\<lparr>en_amount := amount, en_receiveDay := Some day, en_endsAt := None, en_updatedAt := now,
         en_salaryVersions := upsert_version \<lparr>sv_month = month, sv_amount = amount, sv_receiveDay = day\<rparr> (en_salaryVersions e1)\<rparr>)"

definition ended_salary :: "tz_offset \<Rightarrow> instant \<Rightarrow> string \<Rightarrow> instant \<Rightarrow> int option \<Rightarrow> entry_row \<Rightarrow> entry_row" where
  "ended_salary sp now month endsAt day e =
     (let e1 = with_baseline sp e in
      e1\<lparr>en_amount := 0, en_endsAt := Some endsAt, en_updatedAt := now,
         en_salaryVersions := upsert_version
           \<lparr>sv_month = month, sv_amount = 0, sv_receiveDay = (case day of Some d \<Rightarrow> d | None \<Rightarrow> 1)\<rparr> (en_salaryVersions e1)\<rparr>)"

definition new_salary_row :: "string \<Rightarrow> instant \<Rightarrow> string \<Rightarrow> string \<Rightarrow> rat \<Rightarrow> int \<Rightarrow> entry_row" where
  "new_salary_row entryId now userId month amount day = \<lparr>
     en_id = entryId, en_userId = userId, en_customTagId = None, en_name = ''Salario'', en_notes = None,
     en_amount = amount, en_type = ''salario'', en_frequency = ''mensal'', en_receiveDay = Some day, en_startsAt = None,
     en_endsAt = None, en_date = None, en_receiptHoldForMonth = None, en_receivedForMonth = None, en_receivedAt = None,
     en_archivedAt = None, en_systemOrigin = ''manual'', en_createdAt = now, en_updatedAt = now,
     en_receipts = [], en_salaryVersions = [\<lparr>sv_month = month, sv_amount = amount, sv_receiveDay = day\<rparr>], en_salaryHolds = []\<rparr>"

definition sync_salary ::
    "tz_offset \<Rightarrow> (nat \<Rightarrow> string) \<Rightarrow> instant \<Rightarrow> string \<Rightarrow> rat \<Rightarrow> int option option \<Rightarrow> finance_db \<Rightarrow> finance_db res" where
  "sync_salary sp newId now userId salary receiveDay db =
     (let salaryEntry = findSalaryEntry db userId;
          nextReceiveDay = effective receiveDay (salaryReceiveDayOf db userId);
          currentMonth = take 7 (dayKeyInSaoPaulo sp now) in
      if salary > 0 then
        (case nextReceiveDay of
           None \<Rightarrow> Inl (BadRequest ''Informe o dia em que recebe o salario (1-31)'')
         | Some day \<Rightarrow>
             (case salaryEntry of
                Some e \<Rightarrow> Inr (update_entries (\<lambda>x. en_id x = en_id e) (raised_salary sp now currentMonth salary day) db)
              | None \<Rightarrow> Inr (db\<lparr>db_entries := db_entries db
                  @ [new_salary_row (newId (length (db_entries db))) now userId currentMonth salary day]\<rparr>)))
      else
        (case salaryEntry of
           None \<Rightarrow> Inr db
         | Some e \<Rightarrow>
             res_bind (todayInSaoPaulo sp now) (\<lambda>today.
             Inr (update_entries (\<lambda>x. en_id x = en_id e)
                    (ended_salary sp now currentMonth (lastDayOfPreviousMonth today) nextReceiveDay) db))))"

definition updated_user :: "update_profile_input \<Rightarrow> user_row \<Rightarrow> user_row" where
  "updated_user input u = u\<lparr>us_name := or_keep (up_name input) (us_name u),
     us_salary := or_keep (up_salary input) (us_salary u), us_notes := or_keep (up_notes input) (us_notes u)\<rparr>"

text \<open>Updating a user that does not exist is Prisma's P2025, which \<open>http/errors.ts\<close> answers with 404.\<close>

definition updateProfile ::
    "tz_offset \<Rightarrow> (nat \<Rightarrow> string) \<Rightarrow> instant \<Rightarrow> string \<Rightarrow> update_profile_input \<Rightarrow> finance_db \<Rightarrow> (finance_db \<times> user_row) res" where
  "updateProfile sp newId now userId input db =
     (case find (\<lambda>u. us_id u = userId) (db_users db) of
        None \<Rightarrow> Inl (NotFound ''Registro nao encontrado'')
      | Some u0 \<Rightarrow>
          (let user = updated_user input u0;
               db1 = db\<lparr>db_users := map (\<lambda>u. if us_id u = userId then user else u) (db_users db)\<rparr> in
           if up_salary input = None \<and> up_salaryReceiveDay input = None then Inr (db1, user)
           else
             res_bind (sync_salary sp newId now userId (us_salary user) (up_salaryReceiveDay input) db1) (\<lambda>db2.
             Inr (db2, user))))"

end
