(* ===== verification/Entry_Effects.thy ===== *)
theory Entry_Effects
  imports Profile
begin

text \<open>
  What the income services do to the entries table: the invariant of its rows (\<open>sound_entry\<close>,
  \<open>sound_tag\<close>) and, for every operation, the row it appends or the one row it replaces
  (\<open>row_update\<close>), which is sound again.
\<close>

section \<open>The invariant\<close>

definition is_salary :: "entry_row \<Rightarrow> bool" where
  "is_salary e \<longleftrightarrow> en_type e = ''salario''"

text \<open>What every entry of the income services satisfies.\<close>

definition sound_entry :: "entry_row \<Rightarrow> bool" where
  "sound_entry e \<longleftrightarrow>
     (if is_salary e then en_frequency e = ''mensal'' \<and> stored_amount (en_amount e)
      else well_scheduled (en_frequency e) (en_receiveDay e) (en_startsAt e) (en_endsAt e) (en_date e)
        \<and> stored_amount (en_amount e) \<and> 0 < en_amount e
        \<and> (en_frequency e \<noteq> ''unica'' \<longrightarrow> en_receipts e = []) \<and> length (en_receipts e) \<le> 1
        \<and> en_salaryVersions e = [] \<and> en_salaryHolds e = [])
     \<and> distinct (map rc_month (en_receipts e)) \<and> distinct (map sv_month (en_salaryVersions e))
     \<and> distinct (en_salaryHolds e) \<and> set (en_salaryHolds e) \<inter> rc_month ` set (en_receipts e) = {}"

text \<open>A tag of an entry belongs to its owner, and only entries of type \<open>outro\<close> have one.\<close>

definition sound_tag :: "finance_db \<Rightarrow> entry_row \<Rightarrow> bool" where
  "sound_tag db e \<longleftrightarrow> (\<forall>t. en_customTagId e = Some t \<longrightarrow> t \<noteq> [] \<and> owned_tag db (en_userId e) ''income'' t \<and> en_type e = ''outro'')"

definition sound_entries :: "finance_db \<Rightarrow> bool" where
  "sound_entries db \<longleftrightarrow> distinct (map en_id (db_entries db))
     \<and> (\<forall>e \<in> set (db_entries db). en_systemOrigin e = ''manual'' \<longrightarrow> sound_entry e \<and> sound_tag db e)"

text \<open>Rows the other services write carry no tag and are no salaries; stored salaries are amounts.\<close>

definition foreign_rows :: "finance_db \<Rightarrow> bool" where
  "foreign_rows db \<longleftrightarrow>
     (\<forall>e \<in> set (db_entries db). en_systemOrigin e \<noteq> ''manual'' \<longrightarrow> en_customTagId e = None \<and> \<not> is_salary e)
     \<and> (\<forall>e \<in> set (db_expenses db). er_systemOrigin e \<noteq> ''manual'' \<longrightarrow> er_customTagId e = None)"

definition sound_users :: "finance_db \<Rightarrow> bool" where
  "sound_users db \<longleftrightarrow> (\<forall>u \<in> set (db_users db). stored_amount (us_salary u))"

section \<open>Replacing one row\<close>

definition replace_entry :: "entry_row \<Rightarrow> entry_row \<Rightarrow> finance_db \<Rightarrow> finance_db" where
  "replace_entry e0 e1 db = db\<lparr>db_entries := map (\<lambda>e. if e = e0 then e1 else e) (db_entries db)\<rparr>"

lemma replace_entry_tables [simp]:
  "db_entries (replace_entry e0 e1 db) = map (\<lambda>e. if e = e0 then e1 else e) (db_entries db)"
  "db_customTags (replace_entry e0 e1 db) = db_customTags db" "db_expenses (replace_entry e0 e1 db) = db_expenses db"
  "db_piggyBanks (replace_entry e0 e1 db) = db_piggyBanks db" "db_piggyTx (replace_entry e0 e1 db) = db_piggyTx db"
  "db_cards (replace_entry e0 e1 db) = db_cards db"
  by (simp_all add: replace_entry_def)

lemma update_is_replace:
  assumes "\<And>e. e \<in> set (db_entries db) \<Longrightarrow> P e \<longleftrightarrow> e = e0"
  shows "update_entries P f db = replace_entry e0 (f e0) db"
  using assms by (auto simp: update_entries_def replace_entry_def)

lemma only_row:
  "distinct (map en_id (db_entries db)) \<Longrightarrow> e0 \<in> set (db_entries db) \<Longrightarrow> e \<in> set (db_entries db) \<Longrightarrow> en_id e = en_id e0 \<longleftrightarrow> e = e0"
  by (auto simp: distinct_map inj_on_def)

lemma owned_tag_tables: "db_customTags db' = db_customTags db \<Longrightarrow> owned_tag db' = owned_tag db"
  by (simp add: owned_tag_def fun_eq_iff)

lemma sound_tag_tables: "db_customTags db' = db_customTags db \<Longrightarrow> sound_tag db' = sound_tag db"
  by (simp add: sound_tag_def fun_eq_iff owned_tag_tables [of db' db])

lemma replace_sound:
  assumes "sound_entries db" "e0 \<in> set (db_entries db)" "en_id e1 = en_id e0"
    and "en_systemOrigin e1 = ''manual'' \<Longrightarrow> sound_entry e1 \<and> sound_tag db e1"
  shows "sound_entries (replace_entry e0 e1 db)"
proof -
  have "map en_id (map (\<lambda>e. if e = e0 then e1 else e) (db_entries db)) = map en_id (db_entries db)"
    using assms(3) by simp
  then have "distinct (map en_id (db_entries (replace_entry e0 e1 db)))"
    using assms(1) by (simp only: replace_entry_tables sound_entries_def)
  then show ?thesis
    using assms(1,4) sound_tag_tables [of "replace_entry e0 e1 db" db] by (auto simp: sound_entries_def)
qed

lemma append_sound:
  assumes "sound_entries db" "en_id e \<notin> en_id ` set (db_entries db)"
    and "en_systemOrigin e = ''manual'' \<Longrightarrow> sound_entry e \<and> sound_tag db e"
  shows "sound_entries (db\<lparr>db_entries := db_entries db @ [e]\<rparr>)"
  using assms sound_tag_tables [of "db\<lparr>db_entries := db_entries db @ [e]\<rparr>" db] by (auto simp: sound_entries_def)

text \<open>
  What a step of these services may write: users, tags and manual entries, and the tag of a manual
  expense when it is deleted. The cards, the piggy banks and the rows of every other origin stay.
\<close>

definition untagged :: "expense_row \<Rightarrow> expense_row" where
  "untagged x = x\<lparr>er_customTagId := None\<rparr>"

lemma untagged_update [simp]: "untagged (x\<lparr>er_customTagId := t\<rparr>) = untagged x"
  by (simp add: untagged_def)

definition income_written :: "finance_db \<Rightarrow> finance_db \<Rightarrow> bool" where
  "income_written db db' \<longleftrightarrow> keeps_system_rows db db' \<and> db_cards db' = db_cards db
     \<and> map untagged (db_expenses db') = map untagged (db_expenses db)"

lemma replace_income_written:
  assumes "en_systemOrigin e0 = ''manual''" "en_systemOrigin e1 = en_systemOrigin e0"
  shows "income_written db (replace_entry e0 e1 db)"
proof -
  have "filter (\<lambda>e. en_systemOrigin e \<noteq> ''manual'') (map (\<lambda>e. if e = e0 then e1 else e) es)
      = filter (\<lambda>e. en_systemOrigin e \<noteq> ''manual'') es" for es
    using assms by (induction es) auto
  then show ?thesis by (simp add: income_written_def keeps_system_rows_def)
qed

lemma append_income_written:
  "en_systemOrigin e = ''manual'' \<Longrightarrow> income_written db (db\<lparr>db_entries := db_entries db @ [e]\<rparr>)"
  by (simp add: income_written_def keeps_system_rows_def)

section \<open>Creating an entry\<close>

lemma parsed_entry_type: "isValidEntryType v \<Longrightarrow> v \<noteq> JString ''salario'' \<Longrightarrow> js_text v \<noteq> ''salario''"
  by (auto simp: isValidEntryType_def js_text_def)

lemma parsed_amount:
  "parseAmount v False None = Inr a \<Longrightarrow> stored_amount a \<and> 0 < a"
  by (auto simp: parseAmount_def stored_amount_def MAX_MONEY_AMOUNT_def dest!: parseMoneyAmount_sound split: option.splits)

lemma parsed_create_entry:
  assumes "parseCreateEntry body = Inr input"
  shows "stored_amount (ce_amount input) \<and> 0 < ce_amount input \<and> ce_type input \<noteq> ''salario''"
proof -
  from assms obtain amount where
    a: "parseAmount (js_field body ''amount'') False None = Inr amount" "ce_amount input = amount"
    and t: "isValidEntryType (js_field body ''type'')" "js_field body ''type'' \<noteq> JString ''salario''"
      "ce_type input = js_text (js_field body ''type'')"
    unfolding parseCreateEntry_def Let_def res_bind_eq_Inr res_when_eq_Inr by auto
  then show ?thesis using parsed_amount parsed_entry_type by simp
qed

lemma parsed_update_entry:
  assumes "parseUpdateEntry body = Inr input"
  shows "(\<forall>a. ue_amount input = Some a \<longrightarrow> stored_amount a \<and> 0 < a) \<and> ue_type input \<noteq> Some ''salario''"
proof -
  from assms have "(ue_amount input = None \<or> (\<exists>a. parseAmount (js_field body ''amount'') False None = Inr a \<and> ue_amount input = Some a))"
    and "ue_type input = (if js_field body ''type'' = JUndefined then None else Some (js_text (js_field body ''type'')))"
    "js_field body ''type'' = JUndefined \<or> isValidEntryType (js_field body ''type'')" "js_field body ''type'' \<noteq> JString ''salario''"
    unfolding parseUpdateEntry_def Let_def res_bind_eq_Inr res_when_eq_Inr if_present_def
    by (auto split: if_splits simp: res_bind_eq_Inr)
  then show ?thesis using parsed_amount parsed_entry_type by (auto split: if_splits)
qed

lemma tag_of_create:
  assumes "resolveCustomTagId db userId ''income'' v = Inr tag" "\<not> (truthy tag \<and> ty \<noteq> ''outro'')" "tag = Some t"
  shows "t \<noteq> [] \<and> owned_tag db userId ''income'' t \<and> ty = ''outro''"
proof -
  have "truthy tag" using assms(1,3) by (auto simp: resolveCustomTagId_def res_when_eq_Inr split: if_splits)
  then show ?thesis using assms resolved_tag [of db userId "''income''" v t] by (auto simp: truthy_def)
qed

lemma create_effect:
  assumes "parseCreateEntry body = Inr input" "createEntry newId now userId input db = Inr (db', e)"
  shows "db' = db\<lparr>db_entries := db_entries db @ [e]\<rparr> \<and> en_id e = newId (length (db_entries db))
    \<and> en_systemOrigin e = ''manual'' \<and> sound_entry e \<and> sound_tag db e"
proof -
  from assms(2) obtain schedule tag where
    s: "resolveSchedule Income_Schedule (ce_frequency input) (ce_schedule input) None = Inr schedule"
    and t: "resolveCustomTagId db userId ''income'' (ce_customTagId input) = Inr tag" "\<not> (truthy tag \<and> ce_type input \<noteq> ''outro'')"
    and e: "e = new_entry_row (newId (length (db_entries db))) now userId input schedule tag"
    and db': "db' = db\<lparr>db_entries := db_entries db @ [e]\<rparr>"
    unfolding createEntry_def Let_def res_bind_eq_Inr res_when_eq_Inr by auto
  have "sound_entry e"
    using created_schedule [OF s] parsed_create_entry [OF assms(1)] by (simp add: e new_entry_row_def sound_entry_def is_salary_def)
  moreover have "sound_tag db e"
    using tag_of_create [OF t] by (simp add: sound_tag_def e new_entry_row_def)
  ultimately show ?thesis using db' by (simp add: e new_entry_row_def)
qed

section \<open>Editing and archiving\<close>

lemma find_entry_row:
  "find_entry db userId entryId = Some e \<Longrightarrow> e \<in> set (db_entries db) \<and> en_id e = entryId \<and> en_userId e = userId"
  by (auto simp: find_entry_def find_Some_iff)

lemma edited_sound:
  assumes "sound_entry e" "\<not> is_salary e" "\<forall>a. ue_amount input = Some a \<longrightarrow> stored_amount a \<and> 0 < a" "ue_type input \<noteq> Some ''salario''"
    and "resolveSchedule Income_Schedule (or_keep (ue_frequency input) (en_frequency e)) (ue_schedule input)
      (Some (existing_of_entry e)) = Inr schedule"
    and "assertEntryFrequencyTransition (en_frequency e) (or_keep (ue_frequency input) (en_frequency e)) (en_receipts e \<noteq> []) = Inr u"
  shows "sound_entry (edited_entry now input schedule tag e)"
proof -
  note w = edited_schedule [OF assms(5), unfolded existing_of_entry_def existing_schedule.select_convs]
  have "well_scheduled (or_keep (ue_frequency input) (en_frequency e)) (effective (rv_day schedule) (en_receiveDay e))
      (effective (rv_startsAt schedule) (en_startsAt e)) (effective (rv_endsAt schedule) (en_endsAt e))
      (effective (rv_date schedule) (en_date e))"
    using assms(1,2) by (intro w) (auto simp: sound_entry_def dest: well_scheduled_day)
  moreover have "stored_amount (or_keep (ue_amount input) (en_amount e)) \<and> 0 < or_keep (ue_amount input) (en_amount e)"
    using assms(1-3) by (auto simp: or_keep_def sound_entry_def split: option.split)
  moreover have "or_keep (ue_type input) (en_type e) \<noteq> ''salario''"
    using assms(2,4) by (auto simp: or_keep_def is_salary_def split: option.split)
  moreover have "or_keep (ue_frequency input) (en_frequency e) \<noteq> ''unica'' \<longrightarrow> en_receipts e = []"
    using assms(1,2,6) by (auto simp: assertEntryFrequencyTransition_def res_when_eq_Inr sound_entry_def)
  ultimately show ?thesis
    using assms(1,2) by (simp add: sound_entry_def edited_entry_def is_salary_def)
qed

lemma edited_tag:
  assumes "sound_tag db e" "en_userId e = userId"
    and "(case v of None \<Rightarrow> Inr None | Some t \<Rightarrow> res_bind (resolveCustomTagId db userId ''income'' t) (\<lambda>r. Inr (Some r))) = Inr tag"
    and "\<not> (truthy (or_keep tag (en_customTagId e)) \<and> or_keep (ue_type input) (en_type e) \<noteq> ''outro'')"
  shows "sound_tag db (edited_entry now input schedule tag e)"
proof (cases v)
  case None
  with assms have "tag = None" by simp
  with assms show ?thesis by (auto simp: sound_tag_def edited_entry_def or_keep_def truthy_def)
next
  case (Some t)
  with assms(3) obtain r where r: "resolveCustomTagId db userId ''income'' t = Inr r" "tag = Some r" by (auto simp: res_bind_eq_Inr)
  from tag_of_create [OF r(1), of "or_keep (ue_type input) (en_type e)"] assms(2,4) show ?thesis
    by (simp add: sound_tag_def edited_entry_def r(2) or_keep_def [of "Some r"])
qed

text \<open>\<open>row_update\<close>: an operation replaced one manual row of the user by another sound one.\<close>

definition row_update :: "string \<Rightarrow> entry_row \<Rightarrow> entry_row \<Rightarrow> finance_db \<Rightarrow> finance_db \<Rightarrow> bool" where
  "row_update userId e0 e1 db db' \<longleftrightarrow> e0 \<in> set (db_entries db) \<and> db' = replace_entry e0 e1 db \<and> en_systemOrigin e0 = ''manual''
     \<and> en_userId e0 = userId \<and> en_id e1 = en_id e0 \<and> en_systemOrigin e1 = ''manual'' \<and> sound_entry e1 \<and> sound_tag db e1"

lemma edit_effect:
  assumes "sound_entries db" "parseUpdateEntry body = Inr input" "updateEntry now userId entryId input db = Inr db'"
  obtains e0 schedule tag where "row_update userId e0 (edited_entry now input schedule tag e0) db db'" "en_id e0 = entryId"
    "\<not> is_salary e0"
proof -
  from assms(3) obtain e0 where f: "find_entry db userId entryId = Some e0"
    by (cases "find_entry db userId entryId") (simp_all add: updateEntry_def)
  let ?freq = "or_keep (ue_frequency input) (en_frequency e0)"
  let ?matches = "\<lambda>e. en_id e = entryId \<and> en_userId e = userId \<and> en_updatedAt e = en_updatedAt e0"
  from assms(3) obtain tag u schedule where
    g: "en_type e0 \<noteq> ''salario''" "en_systemOrigin e0 = ''manual''"
    and t: "(case ue_customTagId input of None \<Rightarrow> Inr None
        | Some t \<Rightarrow> res_bind (resolveCustomTagId db userId ''income'' t) (\<lambda>r. Inr (Some r))) = Inr tag"
    and q: "assertEntryFrequencyTransition (en_frequency e0) ?freq (en_receipts e0 \<noteq> []) = Inr u"
    and ty: "\<not> (truthy (or_keep tag (en_customTagId e0)) \<and> or_keep (ue_type input) (en_type e0) \<noteq> ''outro'')"
    and s: "resolveSchedule Income_Schedule ?freq (ue_schedule input) (Some (existing_of_entry e0)) = Inr schedule"
    and db': "db' = update_entries ?matches (edited_entry now input schedule tag) db"
    unfolding updateEntry_def Let_def f option.case res_bind_eq_Inr res_when_eq_Inr by auto
  from find_entry_row [OF f] have e0: "e0 \<in> set (db_entries db)" "en_id e0 = entryId" "en_userId e0 = userId" by auto
  have only: "?matches e \<longleftrightarrow> e = e0" if "e \<in> set (db_entries db)" for e
    using only_row [OF _ e0(1) that] assms(1) e0(2,3) by (auto simp: sound_entries_def)
  have sound: "sound_entry e0 \<and> sound_tag db e0" using assms(1) e0(1) g(2) by (simp add: sound_entries_def)
  have "sound_entry (edited_entry now input schedule tag e0)"
    using sound parsed_update_entry [OF assms(2)] g(1) by (intro edited_sound [OF _ _ _ _ s q]) (simp_all add: is_salary_def)
  moreover have "sound_tag db (edited_entry now input schedule tag e0)"
    using edited_tag [OF _ e0(3) t ty] sound by blast
  ultimately have "row_update userId e0 (edited_entry now input schedule tag e0) db db'"
    using update_is_replace [OF only] e0 g(2) by (simp add: db' row_update_def edited_entry_def)
  then show thesis using that e0(2) g(1) by (simp add: is_salary_def)
qed

lemma archive_effect:
  assumes "sound_entries db" "archiveEntry now userId entryId db = Inr db'"
  obtains e0 where "row_update userId e0 (e0\<lparr>en_archivedAt := Some now, en_updatedAt := now\<rparr>) db db'" "en_id e0 = entryId"
    "\<not> is_salary e0"
proof -
  let ?open = "\<lambda>e. en_id e = entryId \<and> en_userId e = userId \<and> en_archivedAt e = None"
  from assms(2) obtain e0 where f: "find ?open (db_entries db) = Some e0"
    by (cases "find ?open (db_entries db)") (simp_all add: archiveEntry_def)
  from assms(2) have g: "en_type e0 \<noteq> ''salario''" "en_systemOrigin e0 = ''manual''"
    and db': "db' = update_entries (\<lambda>e. en_id e = entryId) (\<lambda>e. e\<lparr>en_archivedAt := Some now, en_updatedAt := now\<rparr>) db"
    unfolding archiveEntry_def f option.case res_when_eq_Inr by auto
  from f have e0: "e0 \<in> set (db_entries db)" "en_id e0 = entryId" "en_userId e0 = userId" by (auto simp: find_Some_iff)
  have "sound_entry e0 \<and> sound_tag db e0" using assms(1) e0(1) g(2) by (simp add: sound_entries_def)
  then have "sound_entry (e0\<lparr>en_archivedAt := Some now, en_updatedAt := now\<rparr>)
      \<and> sound_tag db (e0\<lparr>en_archivedAt := Some now, en_updatedAt := now\<rparr>)"
    by (auto simp: sound_entry_def is_salary_def sound_tag_def split: if_splits)
  moreover have "db' = replace_entry e0 (e0\<lparr>en_archivedAt := Some now, en_updatedAt := now\<rparr>) db"
    unfolding db' using assms(1) by (intro update_is_replace) (simp add: only_row [OF _ e0(1)] e0(2) [symmetric] sound_entries_def)
  ultimately show thesis using that e0 g by (simp add: row_update_def is_salary_def)
qed

section \<open>Receipts\<close>

lemma upsert_receipt_months:
  "distinct (map rc_month rs) \<Longrightarrow> distinct (map rc_month (upsert_receipt r rs))"
  "rc_month ` set (upsert_receipt r rs) = insert (rc_month r) (rc_month ` set rs)"
  by (auto simp: upsert_receipt_def list_ex_iff intro: rev_image_eqI)

lemma put_receipt_months:
  "distinct (map rc_month (en_receipts e)) \<Longrightarrow> distinct (map rc_month (en_receipts (put_receipt state r e)))"
  "rc_month ` set (en_receipts (put_receipt state r e)) =
    (if state = Received then insert (rc_month r) (rc_month ` set (en_receipts e)) else rc_month ` set (en_receipts e) - {rc_month r})"
  by (auto simp: put_receipt_def upsert_receipt_months distinct_map_filter)

lemma put_hold_months:
  "distinct (en_salaryHolds e) \<Longrightarrow> distinct (en_salaryHolds (put_hold state month e))"
  "set (en_salaryHolds (put_hold state month e)) =
    (if state = Waiting then insert month (set (en_salaryHolds e)) else set (en_salaryHolds e) - {month})"
  by (auto simp: put_hold_def)

lemma salary_fields [simp]:
  "en_receipts (salary_receipt_row now state r e) = en_receipts (put_receipt state r e)"
  "en_salaryHolds (salary_receipt_row now state r e) = en_salaryHolds (put_hold state (rc_month r) e)"
  "en_salaryVersions (salary_receipt_row now state r e) = en_salaryVersions e"
  "en_id (salary_receipt_row now state r e) = en_id e" "en_userId (salary_receipt_row now state r e) = en_userId e"
  "en_type (salary_receipt_row now state r e) = en_type e" "en_frequency (salary_receipt_row now state r e) = en_frequency e"
  "en_amount (salary_receipt_row now state r e) = en_amount e"
  "en_customTagId (salary_receipt_row now state r e) = en_customTagId e"
  "en_systemOrigin (salary_receipt_row now state r e) = en_systemOrigin e"
  by (simp_all add: salary_receipt_row_def Let_def salaryReceiptFields_def put_hold_def put_receipt_def split: receipt_state.split)

lemma salary_receipt_sound:
  assumes "sound_entry e" "is_salary e"
  shows "sound_entry (salary_receipt_row now state r e)"
proof -
  have "set (en_salaryHolds (put_hold state (rc_month r) e)) \<inter> rc_month ` set (en_receipts (put_receipt state r e)) = {}"
    using assms(1) by (cases state) (auto simp: put_hold_months(2) put_receipt_months(2) sound_entry_def simp del: set_map)
  then show ?thesis
    using assms put_receipt_months(1) put_hold_months(1) by (auto simp: sound_entry_def is_salary_def)
qed

text \<open>The receipts of a one-off after an accepted request.\<close>

lemma one_off_receipts:
  assumes "one_off_gate sp now month state receivedOn expected e = Inr False" "state \<noteq> Automatic" "rc_month r = month"
    and "length (en_receipts e) \<le> 1"
  shows "en_receipts (put_receipt state r e) =
    (if state = Waiting then [] else if en_receipts e = [] then [r] else en_receipts e)"
proof -
  have m: "case first_receipt e of Some r' \<Rightarrow> rc_month r' = month | None \<Rightarrow> True"
    using assms(1) unfolding one_off_gate_def Let_def res_when_eq_Inr
    by (auto simp: res_when_eq_Inr split: if_splits option.splits)
  show ?thesis
  proof (cases "en_receipts e")
    case Nil
    then show ?thesis using assms(2) by (cases state) (simp_all add: put_receipt_def upsert_receipt_def)
  next
    case (Cons x xs)
    with assms(4) have "xs = []" by simp
    with Cons m assms(2,3) show ?thesis
      by (cases state) (simp_all add: put_receipt_def upsert_receipt_def first_receipt_def)
  qed
qed

lemma put_receipt_fields [simp]:
  "en_id (put_receipt state r e) = en_id e" "en_userId (put_receipt state r e) = en_userId e"
  "en_updatedAt (put_receipt state r e) = en_updatedAt e"
  by (simp_all add: put_receipt_def)

definition one_off_row :: "instant \<Rightarrow> receipt_state \<Rightarrow> entry_receipt \<Rightarrow> entry_row \<Rightarrow> entry_row" where
  "one_off_row now state r e =
     (if state = Received \<and> en_receipts e = [] \<or> state = Waiting \<and> en_receipts e \<noteq> []
      then (put_receipt state r e)\<lparr>en_updatedAt := max now (en_updatedAt e + 1)\<rparr> else put_receipt state r e)"

lemma one_off_row_fields [simp]:
  "en_id (one_off_row now state r e) = en_id e" "en_userId (one_off_row now state r e) = en_userId e"
  "en_systemOrigin (one_off_row now state r e) = en_systemOrigin e"
  "en_receipts (one_off_row now state r e) = en_receipts (put_receipt state r e)"
  by (simp_all add: one_off_row_def put_receipt_def)

lemma one_off_sound:
  assumes "sound_entry e" "en_frequency e = ''unica''" "length (en_receipts (put_receipt state r e)) \<le> 1"
  shows "sound_entry (one_off_row now state r e)"
  using assms put_receipt_months(1) [of e state r]
  by (auto simp: sound_entry_def is_salary_def one_off_row_def put_receipt_def split: if_splits)

lemma update_twice:
  assumes "e0 \<in> set (db_entries db)" "distinct (map en_id (db_entries db))" "en_id (f e0) = en_id e0"
    and "\<And>e. P (f e0)" "\<And>e. P e \<Longrightarrow> en_id e = en_id e0"
  shows "update_entries P g (update_entries (\<lambda>e. en_id e = en_id e0) f db) = replace_entry e0 (g (f e0)) db"
    and "length (filter P (db_entries (update_entries (\<lambda>e. en_id e = en_id e0) f db))) = 1"
proof -
  have one: "update_entries (\<lambda>e. en_id e = en_id e0) f db = replace_entry e0 (f e0) db"
    using only_row [OF assms(2,1)] by (rule update_is_replace)
  have "\<not> P e" if "e \<in> set (db_entries db)" "e \<noteq> e0" for e
    using assms(5) [of e] only_row [OF assms(2,1) that(1)] that(2) by blast
  then show "update_entries P g (update_entries (\<lambda>e. en_id e = en_id e0) f db) = replace_entry e0 (g (f e0)) db"
    using assms(4) unfolding one by (auto simp: update_entries_def replace_entry_def)
  have "filter P (map (\<lambda>e. if e = e0 then f e0 else e) es) = (if e0 \<in> set es then [f e0] else [])"
    if "set es \<subseteq> set (db_entries db)" "distinct es" for es
    using that assms(4) \<open>\<And>e. e \<in> set (db_entries db) \<Longrightarrow> e \<noteq> e0 \<Longrightarrow> \<not> P e\<close> by (induction es) auto
  moreover have "distinct (db_entries db)" using assms(2) by (simp add: distinct_map)
  ultimately show "length (filter P (db_entries (update_entries (\<lambda>e. en_id e = en_id e0) f db))) = 1"
    using assms(1) unfolding one by simp
qed

lemma set_one_off_effect:
  assumes "sound_entries db" "e0 \<in> set (db_entries db)" "en_systemOrigin e0 = ''manual''" "en_frequency e0 = ''unica''"
    and "state \<noteq> Automatic" "set_one_off sp newId now month state receivedOn expected e0 db = Inr db'"
  shows "one_off_gate sp now month state receivedOn expected e0 = Inr True \<and> db' = db
    \<or> one_off_gate sp now month state receivedOn expected e0 = Inr False
      \<and> (\<exists>day. (state = Received \<longrightarrow> dayKeyToDate (the receivedOn) Noon = Inr day)
          \<and> row_update (en_userId e0) e0 (one_off_row now state (new_receipt newId month (en_amount e0) day db) e0) db db')"
proof -
  from assms(6) obtain recorded where gate: "one_off_gate sp now month state receivedOn expected e0 = Inr recorded"
    by (auto simp: set_one_off_def res_bind_eq_Inr)
  show ?thesis
  proof (cases recorded)
    case True
    with gate assms(6) show ?thesis by (simp add: set_one_off_def)
  next
    case False
    with gate assms(6) obtain day where day: "(if state = Received then dayKeyToDate (the receivedOn) Noon else Inr now) = Inr day"
      by (auto simp: set_one_off_def res_bind_eq_Inr)
    define r where "r = new_receipt newId month (en_amount e0) day db"
    let ?matches = "\<lambda>e. en_id e = en_id e0 \<and> en_userId e = en_userId e0 \<and> en_updatedAt e = en_updatedAt e0"
    have ids: "distinct (map en_id (db_entries db))" using assms(1) by (simp add: sound_entries_def)
    note once = update_is_replace [of db "\<lambda>e. en_id e = en_id e0" e0 "put_receipt state r", OF only_row [OF ids assms(2)]]
    note twice = update_twice [OF assms(2) ids, of "put_receipt state r" ?matches, simplified]
    have "db' = replace_entry e0 (one_off_row now state r e0) db"
    proof (cases "state = Received \<and> en_receipts e0 = [] \<or> state = Waiting \<and> en_receipts e0 \<noteq> []")
      case True
      then show ?thesis
        using assms(6) unfolding set_one_off_def gate res_bind_Inr day Let_def r_def [symmetric]
        by (simp add: False one_off_row_def twice res_when_eq_Inr)
    next
      case no_change: False
      then show ?thesis
        using assms(6) unfolding set_one_off_def gate res_bind_Inr day Let_def r_def [symmetric]
        by (auto simp: False one_off_row_def once)
    qed
    moreover have sound: "sound_entry e0" "sound_tag db e0" using assms(1-3) by (simp_all add: sound_entries_def)
    have "en_type e0 \<noteq> ''salario''" using sound(1) assms(4) by (auto simp: sound_entry_def is_salary_def)
    then have len: "length (en_receipts e0) \<le> 1" using sound(1) by (simp add: sound_entry_def is_salary_def)
    have "sound_entry (one_off_row now state r e0)"
      using one_off_receipts [OF _ assms(5) _ len, of sp now month receivedOn expected r] len False gate
      by (intro one_off_sound [OF sound(1) assms(4)]) (simp add: r_def new_receipt_def)
    moreover have "sound_tag db (one_off_row now state r e0)"
      using sound(2) by (simp add: sound_tag_def one_off_row_def put_receipt_def)
    ultimately have "row_update (en_userId e0) e0 (one_off_row now state r e0) db db'"
      using assms(2,3) by (simp add: row_update_def)
    then show ?thesis using gate False day by (auto simp: r_def)
  qed
qed

definition receipt_outcome ::
    "tz_offset \<Rightarrow> (nat \<Rightarrow> string) \<Rightarrow> instant \<Rightarrow> receipt_request \<Rightarrow> entry_row \<Rightarrow> finance_db \<Rightarrow> finance_db \<Rightarrow> bool" where
  "receipt_outcome sp newId now rq e0 db db' \<longleftrightarrow>
     (let month = rq_month rq; state = rq_state rq in
      if is_salary e0 then
        rq_receivedOn rq = None \<and> rq_expectedUpdatedAt rq = None
        \<and> (\<exists>v. salary_gate month state e0 = Inr v
            \<and> row_update (en_userId e0) e0 (salary_receipt_row now state (new_receipt newId month (sv_amount v) now db) e0) db db')
      else state \<noteq> Automatic \<and> en_frequency e0 = ''unica''
        \<and> (one_off_gate sp now month state (rq_receivedOn rq) (rq_expectedUpdatedAt rq) e0 = Inr True \<and> db' = db
          \<or> one_off_gate sp now month state (rq_receivedOn rq) (rq_expectedUpdatedAt rq) e0 = Inr False
            \<and> (\<exists>day. (state = Received \<longrightarrow> dayKeyToDate (the (rq_receivedOn rq)) Noon = Inr day)
                \<and> row_update (en_userId e0) e0 (one_off_row now state (new_receipt newId month (en_amount e0) day db) e0) db db')))"

lemma receipt_effect:
  assumes "sound_entries db" "setReceiptState sp newId now userId entryId rq db = Inr db'"
  obtains e0 where "e0 \<in> set (db_entries db)" "en_id e0 = entryId" "en_userId e0 = userId" "en_archivedAt e0 = None"
    "en_systemOrigin e0 = ''manual''" "receipt_outcome sp newId now rq e0 db db'"
proof -
  let ?open = "\<lambda>e. en_id e = entryId \<and> en_userId e = userId \<and> en_archivedAt e = None \<and> en_systemOrigin e = ''manual''"
  from assms(2) obtain e0 where f: "find ?open (db_entries db) = Some e0"
    by (cases "find ?open (db_entries db)") (simp_all add: setReceiptState_def)
  from f have e0: "e0 \<in> set (db_entries db)" "en_id e0 = entryId" "en_userId e0 = userId" "en_archivedAt e0 = None"
    "en_systemOrigin e0 = ''manual''" by (auto simp: find_Some_iff)
  have sound: "sound_entry e0" "sound_tag db e0" using assms(1) e0(1,5) by (simp_all add: sound_entries_def)
  have "receipt_outcome sp newId now rq e0 db db'"
  proof (cases "en_frequency e0 = ''unica''")
    case True
    with sound(1) have "\<not> is_salary e0" by (auto simp: sound_entry_def)
    moreover have "rq_state rq \<noteq> Automatic"
      and "set_one_off sp newId now (rq_month rq) (rq_state rq) (rq_receivedOn rq) (rq_expectedUpdatedAt rq) e0 db = Inr db'"
      using assms(2) True by (simp_all add: setReceiptState_def f Let_def res_when_eq_Inr)
    ultimately show ?thesis
      using set_one_off_effect [OF assms(1) e0(1,5) True] True by (simp add: receipt_outcome_def Let_def)
  next
    case False
    with assms(2) obtain v where p: "is_monthly_salary e0" "rq_receivedOn rq = None \<and> rq_expectedUpdatedAt rq = None"
      "salary_gate (rq_month rq) (rq_state rq) e0 = Inr v"
      "db' = update_entries (\<lambda>e. en_id e = entryId)
         (salary_receipt_row now (rq_state rq) (new_receipt newId (rq_month rq) (sv_amount v) now db)) db"
      unfolding setReceiptState_def f Let_def option.case res_when_eq_Inr by (auto simp: res_bind_eq_Inr res_when_eq_Inr)
    let ?e1 = "salary_receipt_row now (rq_state rq) (new_receipt newId (rq_month rq) (sv_amount v) now db) e0"
    have "is_salary e0" using p(1) by (simp add: is_monthly_salary_def is_salary_def)
    moreover from this have "sound_entry ?e1" using salary_receipt_sound sound(1) by blast
    moreover have "db' = replace_entry e0 ?e1 db"
      unfolding p(4) using assms(1) by (intro update_is_replace) (simp add: only_row [OF _ e0(1)] e0(2) [symmetric] sound_entries_def)
    moreover have "sound_tag db ?e1" using sound(2) by (simp add: sound_tag_def)
    ultimately show ?thesis using p(2,3) e0 by (simp add: receipt_outcome_def Let_def row_update_def)
  qed
  then show thesis using that e0 by blast
qed

section \<open>Received income\<close>

lemma cents_of_int: "1 \<le> c \<Longrightarrow> c \<le> 999999999999 \<Longrightarrow> stored_amount (of_int c / 100)"
proof -
  assume c: "1 \<le> c" "c \<le> 999999999999"
  have "(of_int c :: rat) \<le> of_int 999999999999" using c(2) by (simp only: of_int_le_iff)
  moreover have "on_grid 2 (of_int c / 100)" by (simp add: on_grid_def)
  ultimately show ?thesis using c(1) by (simp add: stored_amount_def)
qed

lemma received_income_effect:
  assumes "decimal_arith D" "createReceivedOneTimeIncomeInTransaction D sp newId now userId input db = Inr (db', entryId, receiptId)"
    and "ri_tagId input \<noteq> Some []"
  obtains e r where "db' = db\<lparr>db_entries := db_entries db @ [e]\<rparr>" "en_id e = newId (length (db_entries db))"
    "en_systemOrigin e = ''manual''" "sound_entry e" "sound_tag db e" "en_receipts e = [r]" "en_userId e = userId"
    "rc_amount r = of_int (ri_amountCents input) / 100" "en_amount e = rc_amount r" "rc_month r = monthKey (ri_dateKey input)"
proof -
  let ?c = "ri_amountCents input"
  define amount where "amount = dec_div D (of_int ?c) 100"
  from assms(2) obtain date where b: "1 \<le> ?c" "?c \<le> 999999999999"
    and tag: "\<not> (truthy (ri_tagId input) \<and> \<not> owned_tag db userId ''income'' (the (ri_tagId input)))"
    and db': "db' = db\<lparr>db_entries := db_entries db @ [\<lparr>en_id = newId (length (db_entries db)), en_userId = userId,
      en_customTagId = ri_tagId input, en_name = trim (ri_name input), en_notes = ri_notes input, en_amount = amount,
      en_type = ''outro'', en_frequency = ''unica'', en_receiveDay = None, en_startsAt = None, en_endsAt = None,
      en_date = Some date, en_receiptHoldForMonth = None, en_receivedForMonth = None, en_receivedAt = None, en_archivedAt = None,
      en_systemOrigin = ''manual'', en_createdAt = now, en_updatedAt = now,
      en_receipts = [new_receipt newId (monthKey (ri_dateKey input)) amount date db], en_salaryVersions = [], en_salaryHolds = []\<rparr>]\<rparr>"
    unfolding createReceivedOneTimeIncomeInTransaction_def Let_def res_bind_eq_Inr res_when_eq_Inr amount_def [symmetric]
    by (auto simp: not_less)
  have "on_grid 2 (of_int ?c / 100)" using cents_of_int [OF b] by (simp add: stored_amount_def)
  moreover have "\<bar>of_int ?c / 100 :: rat\<bar> < 10 ^ 18"
    using cents_of_int [OF b] by (simp add: stored_amount_def)
  ultimately have amount: "amount = of_int ?c / 100"
    using decimal_arith.div_exact [OF assms(1), of 100 "of_int ?c"] by (simp add: amount_def cents_fits20)
  define r where "r = new_receipt newId (monthKey (ri_dateKey input)) amount date db"
  have r: "rc_amount r = of_int ?c / 100" "rc_month r = monthKey (ri_dateKey input)" by (simp_all add: r_def new_receipt_def amount)
  have t: "t \<noteq> [] \<and> owned_tag db userId ''income'' t" if "ri_tagId input = Some t" for t
    using tag assms(3) that by (auto simp: truthy_def)
  show thesis
    by (rule that [OF db' [folded r_def]])
      (use cents_of_int [OF b] b(1) t r in \<open>simp_all add: sound_entry_def sound_tag_def is_salary_def well_scheduled_def amount\<close>)
qed

section \<open>The salary entry\<close>

lemma upsert_version_months:
  "distinct (map sv_month vs) \<Longrightarrow> distinct (map sv_month (upsert_version v vs))"
proof -
  have "map sv_month (map (\<lambda>x. if sv_month x = sv_month v then v else x) vs) = map sv_month vs" by (induction vs) auto
  then show "distinct (map sv_month vs) \<Longrightarrow> distinct (map sv_month (upsert_version v vs))"
    by (auto simp: upsert_version_def list_ex_iff simp del: map_map)
qed

lemma baseline_sound: "sound_entry e \<Longrightarrow> is_salary e \<Longrightarrow> sound_entry (with_baseline sp e) \<and> is_salary (with_baseline sp e)"
  by (auto simp: with_baseline_def sound_entry_def is_salary_def)

lemma baseline_fields [simp]:
  "en_id (with_baseline sp e) = en_id e" "en_userId (with_baseline sp e) = en_userId e"
  "en_systemOrigin (with_baseline sp e) = en_systemOrigin e" "en_customTagId (with_baseline sp e) = en_customTagId e"
  "en_type (with_baseline sp e) = en_type e" "en_receipts (with_baseline sp e) = en_receipts e"
  by (simp_all add: with_baseline_def)

lemma raised_sound:
  assumes "sound_entry e" "is_salary e" "stored_amount amount"
  shows "sound_entry (raised_salary sp now month amount day e)"
  using baseline_sound [OF assms(1,2), of sp] assms(3) upsert_version_months
  by (simp add: raised_salary_def Let_def sound_entry_def is_salary_def)

lemma ended_sound:
  assumes "sound_entry e" "is_salary e"
  shows "sound_entry (ended_salary sp now month endsAt day e)"
proof -
  have "stored_amount 0" by (simp add: stored_amount_def)
  then show ?thesis
    using baseline_sound [OF assms, of sp] upsert_version_months
    by (simp add: ended_salary_def Let_def sound_entry_def is_salary_def)
qed

lemma salary_rows [simp]:
  "en_id (raised_salary sp now month amount day e) = en_id e" "en_userId (raised_salary sp now month amount day e) = en_userId e"
  "en_systemOrigin (raised_salary sp now month amount day e) = en_systemOrigin e"
  "en_customTagId (raised_salary sp now month amount day e) = en_customTagId e"
  "en_type (raised_salary sp now month amount day e) = en_type e"
  "en_id (ended_salary sp now month t d e) = en_id e" "en_userId (ended_salary sp now month t d e) = en_userId e"
  "en_systemOrigin (ended_salary sp now month t d e) = en_systemOrigin e"
  "en_customTagId (ended_salary sp now month t d e) = en_customTagId e"
  "en_type (ended_salary sp now month t d e) = en_type e"
  by (simp_all add: raised_salary_def ended_salary_def Let_def)

lemma findSalaryEntry_row:
  assumes "findSalaryEntry db userId = Some e"
  shows "e \<in> set (db_entries db) \<and> is_salary e \<and> en_userId e = userId"
proof -
  obtain es where "sort_key en_createdAt (filter (is_salary_entry userId) (db_entries db)) = e # es"
    using assms by (auto simp: findSalaryEntry_def split: list.splits)
  then have "e \<in> set (filter (is_salary_entry userId) (db_entries db))" by (metis list.set_intros(1) set_sort)
  then show ?thesis by (simp add: is_salary_entry_def is_salary_def)
qed

text \<open>What keeping the salary entry in step does: nothing, a new entry, or a new row for the old entry.\<close>

definition salary_outcome ::
    "tz_offset \<Rightarrow> (nat \<Rightarrow> string) \<Rightarrow> instant \<Rightarrow> string \<Rightarrow> rat \<Rightarrow> finance_db \<Rightarrow> finance_db \<Rightarrow> bool" where
  "salary_outcome sp newId now userId salary db db' \<longleftrightarrow>
     (let month = take 7 (dayKeyInSaoPaulo sp now) in
      case findSalaryEntry db userId of
        None \<Rightarrow> (if salary > 0 then \<exists>day. db' = db\<lparr>db_entries := db_entries db
                    @ [new_salary_row (newId (length (db_entries db))) now userId month salary day]\<rparr> else db' = db)
      | Some e0 \<Rightarrow>
          (\<exists>e1. row_update userId e0 e1 db db'
             \<and> (if salary > 0 then \<exists>day. e1 = raised_salary sp now month salary day e0
                else \<exists>t d. e1 = ended_salary sp now month t d e0)))"

lemma sync_effect:
  assumes "sound_entries db" "foreign_rows db" "stored_amount salary"
    and "sync_salary sp newId now userId salary receiveDay db = Inr db'"
  shows "salary_outcome sp newId now userId salary db db'"
proof (cases "findSalaryEntry db userId")
  case None
  then show ?thesis
    using assms(4) by (auto simp: sync_salary_def salary_outcome_def Let_def split: if_splits option.splits)
next
  case (Some e0)
  from findSalaryEntry_row [OF this] have e0: "e0 \<in> set (db_entries db)" "is_salary e0" "en_userId e0 = userId" by auto
  then have m: "en_systemOrigin e0 = ''manual''" using assms(2) by (auto simp: foreign_rows_def)
  then have sound: "sound_entry e0" "sound_tag db e0" using assms(1) e0(1) by (simp_all add: sound_entries_def)
  have upd: "row_update userId e0 (f e0) db (update_entries (\<lambda>x. en_id x = en_id e0) f db)"
    if "sound_entry (f e0)" "en_id (f e0) = en_id e0" "en_userId (f e0) = en_userId e0" "en_type (f e0) = en_type e0"
      "en_systemOrigin (f e0) = en_systemOrigin e0" "en_customTagId (f e0) = en_customTagId e0" for f
  proof -
    have "update_entries (\<lambda>x. en_id x = en_id e0) f db = replace_entry e0 (f e0) db"
      using assms(1) by (intro update_is_replace) (simp add: only_row [OF _ e0(1)] sound_entries_def)
    moreover have "sound_tag db (f e0)" using sound(2) that by (simp add: sound_tag_def)
    ultimately show ?thesis using that e0 m by (simp add: row_update_def)
  qed
  show ?thesis
  proof (cases "salary > 0")
    case True
    with assms(4) obtain day where "db' = update_entries (\<lambda>x. en_id x = en_id e0)
        (raised_salary sp now (take 7 (dayKeyInSaoPaulo sp now)) salary day) db"
      by (auto simp: sync_salary_def Some Let_def split: option.splits)
    then show ?thesis
      using upd [of "raised_salary sp now (take 7 (dayKeyInSaoPaulo sp now)) salary day"] raised_sound [OF sound(1) e0(2) assms(3)]
        True by (auto simp: salary_outcome_def Some Let_def)
  next
    case False
    with assms(4) obtain t d where "db' = update_entries (\<lambda>x. en_id x = en_id e0)
        (ended_salary sp now (take 7 (dayKeyInSaoPaulo sp now)) t d) db"
      by (auto simp: sync_salary_def Some Let_def res_bind_eq_Inr)
    then show ?thesis
      using upd [of "ended_salary sp now (take 7 (dayKeyInSaoPaulo sp now)) t d"] ended_sound [OF sound(1) e0(2)]
        False by (auto simp: salary_outcome_def Some Let_def)
  qed
qed

end
