(* ===== verification/Entries_System.thy ===== *)
theory Entries_System
  imports Entry_Effects
begin

text \<open>
  The income services together: the step relation of the operations on parsed requests, its
  reachable states with their invariant, and the properties of receipts and salary versions. The
  other services may do anything that leaves the rows of these tables alone
  (\<open>keeps_income_rows\<close>), as these steps leave the rows of every other origin alone.
\<close>

section \<open>Steps\<close>

inductive income_step ::
    "decimal_lib \<Rightarrow> tz_offset \<Rightarrow> (string \<Rightarrow> string \<Rightarrow> bool) \<Rightarrow> (string \<Rightarrow> string) \<Rightarrow> finance_db \<Rightarrow> finance_db \<Rightarrow> bool"
  for D sp alike foldKey where
  create_entry: "parseCreateEntry body = Inr input \<Longrightarrow> newId (length (db_entries db)) \<notin> en_id ` set (db_entries db)
    \<Longrightarrow> createEntry newId now userId input db = Inr (db', e) \<Longrightarrow> income_step D sp alike foldKey db db'"
| edit_entry: "parseUpdateEntry body = Inr changes \<Longrightarrow> updateEntry now userId entryId changes db = Inr db'
    \<Longrightarrow> income_step D sp alike foldKey db db'"
| archive_entry: "archiveEntry now userId entryId db = Inr db' \<Longrightarrow> income_step D sp alike foldKey db db'"
| receipt: "parseReceiptStateBody sp now body = Inr rq \<Longrightarrow> setReceiptState sp newId now userId entryId rq db = Inr db'
    \<Longrightarrow> income_step D sp alike foldKey db db'"
| received: "newId (length (db_entries db)) \<notin> en_id ` set (db_entries db) \<Longrightarrow> ri_tagId income \<noteq> Some []
    \<Longrightarrow> createReceivedOneTimeIncomeInTransaction D sp newId now userId income db = Inr (db', entryId, receiptId)
    \<Longrightarrow> income_step D sp alike foldKey db db'"
| profile: "parseUpdateProfile body = Inr profile \<Longrightarrow> newId (length (db_entries db)) \<notin> en_id ` set (db_entries db)
    \<Longrightarrow> updateProfile sp newId now userId profile db = Inr (db', user) \<Longrightarrow> income_step D sp alike foldKey db db'"
| create_tag: "parseCreateCustomTag body = Inr tag \<Longrightarrow> createCustomTag alike foldKey newId now userId tag db = Inr (db', t)
    \<Longrightarrow> income_step D sp alike foldKey db db'"
| delete_tag: "deleteCustomTag userId tagId db = Inr db' \<Longrightarrow> income_step D sp alike foldKey db db'"
| income_tag: "resolveIncomeTagInTransaction foldKey newId now userId name db = Inr (db', t, created)
    \<Longrightarrow> income_step D sp alike foldKey db db'"

definition manual_entries :: "finance_db \<Rightarrow> entry_row list" where
  "manual_entries db = filter (\<lambda>e. en_systemOrigin e = ''manual'') (db_entries db)"

text \<open>What the other services owe: unique ids, foreign rows without tags, and this data as it was.\<close>

definition keeps_income_rows :: "finance_db \<Rightarrow> finance_db \<Rightarrow> bool" where
  "keeps_income_rows db db' \<longleftrightarrow> manual_entries db' = manual_entries db \<and> db_customTags db' = db_customTags db
     \<and> map us_salary (db_users db') = map us_salary (db_users db) \<and> distinct (map en_id (db_entries db')) \<and> foreign_rows db'"

inductive income_reachable ::
    "decimal_lib \<Rightarrow> tz_offset \<Rightarrow> (string \<Rightarrow> string \<Rightarrow> bool) \<Rightarrow> (string \<Rightarrow> string) \<Rightarrow> finance_db \<Rightarrow> bool"
  for D sp alike foldKey where
  start: "db_entries db = [] \<Longrightarrow> db_customTags db = [] \<Longrightarrow> sound_users db \<Longrightarrow> foreign_rows db
    \<Longrightarrow> income_reachable D sp alike foldKey db"
| step: "income_reachable D sp alike foldKey db \<Longrightarrow> income_step D sp alike foldKey db db'
    \<Longrightarrow> income_reachable D sp alike foldKey db'"
| others: "income_reachable D sp alike foldKey db \<Longrightarrow> keeps_income_rows db db' \<Longrightarrow> income_reachable D sp alike foldKey db'"

section \<open>The invariant is kept\<close>

definition sound_income :: "(string \<Rightarrow> string) \<Rightarrow> finance_db \<Rightarrow> bool" where
  "sound_income foldKey db \<longleftrightarrow> sound_entries db \<and> foreign_rows db \<and> sound_users db \<and> unique_tags foldKey (db_customTags db)"

lemma replace_income:
  assumes "sound_income foldKey db" "row_update userId e0 e1 db db'"
  shows "sound_income foldKey db' \<and> income_written db db'"
proof -
  from assms(2) have u: "e0 \<in> set (db_entries db)" "db' = replace_entry e0 e1 db" "en_systemOrigin e0 = ''manual''"
    "en_id e1 = en_id e0" "en_systemOrigin e1 = ''manual''" "sound_entry e1" "sound_tag db e1"
    by (simp_all add: row_update_def)
  have "sound_entries db'" using assms(1) u by (auto simp: sound_income_def intro: replace_sound)
  moreover have "foreign_rows db'" using assms(1) u by (auto simp: sound_income_def foreign_rows_def)
  moreover have "sound_users db'" using assms(1) by (simp add: u(2) sound_income_def sound_users_def replace_entry_def)
  ultimately show ?thesis
    using assms(1) replace_income_written [of e0 e1 db] u by (simp add: sound_income_def)
qed

lemma append_income:
  assumes "sound_income foldKey db" "en_id e \<notin> en_id ` set (db_entries db)" "en_systemOrigin e = ''manual''"
    and "sound_entry e" "sound_tag db e"
  shows "sound_income foldKey (db\<lparr>db_entries := db_entries db @ [e]\<rparr>)
    \<and> income_written db (db\<lparr>db_entries := db_entries db @ [e]\<rparr>)"
  using assms append_sound [of db e] append_income_written [of e db]
  by (auto simp: sound_income_def foreign_rows_def sound_users_def)

lemma owned_tag_more:
  "set (db_customTags db) \<subseteq> set (db_customTags db') \<Longrightarrow> sound_tag db e \<Longrightarrow> sound_tag db' e"
  unfolding sound_tag_def owned_tag_def list_ex_iff by blast

lemma insert_tag_income:
  assumes "sound_income foldKey db" "insert_tag foldKey tag db = Some db'"
  shows "sound_income foldKey db' \<and> income_written db db'"
proof -
  have db': "db' = db\<lparr>db_customTags := db_customTags db @ [tag]\<rparr>" using assms(2) by (auto simp: insert_tag_def split: if_splits)
  have "sound_tag db' e" if "sound_tag db e" for e
    by (rule owned_tag_more [OF _ that]) (auto simp: db')
  then show ?thesis
    using assms insert_tag_unique [OF assms(2)]
    by (auto simp: sound_income_def db' sound_entries_def foreign_rows_def sound_users_def income_written_def keeps_system_rows_def)
qed

lemma delete_tag_income:
  assumes "sound_income foldKey db" "deleteCustomTag userId tagId db = Inr db'"
  shows "sound_income foldKey db' \<and> income_written db db'"
proof -
  let ?clear = "\<lambda>e :: entry_row. e\<lparr>en_customTagId := clear_tag tagId (en_customTagId e)\<rparr>"
  let ?clear_x = "\<lambda>e :: expense_row. e\<lparr>er_customTagId := clear_tag tagId (er_customTagId e)\<rparr>"
  from assms(2) have db': "db' = db\<lparr>db_customTags := filter (\<lambda>t. \<not> (ct_id t = tagId \<and> ct_userId t = userId)) (db_customTags db),
      db_entries := map ?clear (db_entries db), db_expenses := map ?clear_x (db_expenses db)\<rparr>"
    by (auto simp: deleteCustomTag_def Let_def res_when_eq_Inr)
  have sound: "sound_entry (?clear e) \<and> sound_tag db' (?clear e)" if "sound_entry e" "sound_tag db e" for e
  proof -
    have "sound_entry (?clear e)" using that(1) by (auto simp: sound_entry_def is_salary_def split: if_splits)
    moreover have "sound_tag db' (?clear e)"
      using that(2) by (auto simp: sound_tag_def clear_tag_def owned_tag_def list_ex_iff db' split: if_splits)
    ultimately show ?thesis by simp
  qed
  have foreign: "?clear e = e" if "en_customTagId e = None" for e using that by (simp add: clear_tag_def)
  have foreign_x: "?clear_x e = e" if "er_customTagId e = None" for e using that by (simp add: clear_tag_def)
  have rows: "filter (\<lambda>e. en_systemOrigin e \<noteq> ''manual'') (map ?clear es) = filter (\<lambda>e. en_systemOrigin e \<noteq> ''manual'') es"
    if "\<forall>e \<in> set es. en_systemOrigin e \<noteq> ''manual'' \<longrightarrow> en_customTagId e = None" for es
    using that foreign by (induction es) auto
  have rows_x: "filter (\<lambda>e. er_systemOrigin e \<noteq> ''manual'') (map ?clear_x es) = filter (\<lambda>e. er_systemOrigin e \<noteq> ''manual'') es"
    if "\<forall>e \<in> set es. er_systemOrigin e \<noteq> ''manual'' \<longrightarrow> er_customTagId e = None" for es
  proof -
    have "map ?clear_x (filter (\<lambda>e. er_systemOrigin e \<noteq> ''manual'') es) = filter (\<lambda>e. er_systemOrigin e \<noteq> ''manual'') es"
      using that by (intro map_idI foreign_x) auto
    then show ?thesis by (simp add: filter_map comp_def)
  qed
  have "distinct (map en_id (db_entries db'))" using assms(1) by (simp add: db' sound_income_def sound_entries_def comp_def)
  moreover have "\<exists>e0 \<in> set (db_entries db). e = ?clear e0" if "e \<in> set (db_entries db')" for e using that by (auto simp: db')
  then have "sound_entry e \<and> sound_tag db' e" if "e \<in> set (db_entries db')" "en_systemOrigin e = ''manual''" for e
    using that assms(1) sound unfolding sound_income_def sound_entries_def by fastforce
  ultimately have "sound_entries db'" by (simp add: sound_entries_def)
  moreover have "foreign_rows db'"
    using assms(1) by (auto simp: sound_income_def foreign_rows_def db' is_salary_def clear_tag_def)
  moreover have "sound_users db'" using assms(1) by (simp add: sound_income_def sound_users_def db')
  moreover have "unique_tags foldKey (db_customTags db')"
    using assms delete_tag_unique by (simp add: sound_income_def)
  moreover have "income_written db db'"
    using assms(1) by (auto simp: income_written_def keeps_system_rows_def db' sound_income_def foreign_rows_def
        intro!: rows rows_x)
  ultimately show ?thesis by (simp add: sound_income_def)
qed

lemma income_written_refl: "income_written db db"
  by (simp add: income_written_def keeps_system_rows_def)

lemma income_written_trans: "income_written a b \<Longrightarrow> income_written b c \<Longrightarrow> income_written a c"
  by (simp add: income_written_def keeps_system_rows_def)

lemma receipt_income:
  assumes "sound_income foldKey db" "setReceiptState sp newId now userId entryId rq db = Inr db'"
  shows "sound_income foldKey db' \<and> income_written db db'"
proof -
  from assms(1) have "sound_entries db" by (simp add: sound_income_def)
  from receipt_effect [OF this assms(2)] obtain e0 where "receipt_outcome sp newId now rq e0 db db'" by blast
  then show ?thesis
    using replace_income [OF assms(1)] assms(1) income_written_refl
    unfolding receipt_outcome_def Let_def by (auto split: if_splits)
qed

lemma parsed_salary:
  assumes "parseUpdateProfile body = Inr profile" "up_salary profile = Some a"
  shows "stored_amount a"
proof -
  from assms obtain m where "parseAmount (js_field body ''salary'') True m = Inr a"
    unfolding parseUpdateProfile_def res_bind_eq_Inr if_present_def by (auto split: if_splits simp: res_bind_eq_Inr)
  then show ?thesis
    by (auto simp: parseAmount_def stored_amount_def MAX_MONEY_AMOUNT_def dest!: parseMoneyAmount_sound split: option.splits)
qed

definition put_user :: "user_row \<Rightarrow> finance_db \<Rightarrow> finance_db" where
  "put_user user db = db\<lparr>db_users := map (\<lambda>u. if us_id u = us_id user then user else u) (db_users db)\<rparr>"

lemma put_user_tables [simp]:
  "db_entries (put_user u db) = db_entries db" "db_customTags (put_user u db) = db_customTags db"
  "findSalaryEntry (put_user u db) = findSalaryEntry db"
  by (simp_all add: put_user_def findSalaryEntry_def fun_eq_iff)

lemma put_user_income:
  assumes "sound_income foldKey db" "stored_amount (us_salary user)"
  shows "sound_income foldKey (put_user user db) \<and> income_written db (put_user user db)"
  using assms sound_tag_tables [of "put_user user db" db]
  by (auto simp: sound_income_def sound_entries_def foreign_rows_def sound_users_def put_user_def income_written_def keeps_system_rows_def)

text \<open>A profile update writes the user and then keeps the salary entry in step.\<close>

lemma profile_effect:
  assumes "sound_income foldKey db" "parseUpdateProfile body = Inr profile"
    and "updateProfile sp newId now userId profile db = Inr (db', user)"
  obtains "us_id user = userId" "stored_amount (us_salary user)" "sound_income foldKey (put_user user db)"
    "if up_salary profile = None \<and> up_salaryReceiveDay profile = None then db' = put_user user db
     else salary_outcome sp newId now userId (us_salary user) (put_user user db) db'"
proof -
  from assms(3) obtain u0 where f: "find (\<lambda>u. us_id u = userId) (db_users db) = Some u0" and user: "user = updated_user profile u0"
    by (auto simp: updateProfile_def Let_def res_bind_eq_Inr split: option.splits if_splits)
  from f have u0: "u0 \<in> set (db_users db)" "us_id u0 = userId" by (auto simp: find_Some_iff)
  have userId: "us_id user = userId" using u0(2) by (simp add: user updated_user_def)
  have "stored_amount (us_salary u0)" using assms(1) u0(1) by (simp add: sound_income_def sound_users_def)
  then have salary: "stored_amount (us_salary user)"
    using parsed_salary [OF assms(2)] by (auto simp: user updated_user_def or_keep_def split: option.split)
  note s = conjunct1 [OF put_user_income [OF assms(1) salary]]
  have "if up_salary profile = None \<and> up_salaryReceiveDay profile = None then db' = put_user user db
     else sync_salary sp newId now userId (us_salary user) (up_salaryReceiveDay profile) (put_user user db) = Inr db'"
    using assms(3) by (auto simp: updateProfile_def f Let_def res_bind_eq_Inr put_user_def user userId [unfolded user] split: if_splits)
  then have "if up_salary profile = None \<and> up_salaryReceiveDay profile = None then db' = put_user user db
     else salary_outcome sp newId now userId (us_salary user) (put_user user db) db'"
    using sync_effect [OF _ _ salary, of "put_user user db" sp newId now userId "up_salaryReceiveDay profile" db'] s
    by (auto simp: sound_income_def split: if_splits)
  then show thesis using that userId salary s by blast
qed

lemma salary_outcome_income:
  assumes "sound_income foldKey db" "salary_outcome sp newId now userId salary db db'" "stored_amount salary"
    and "newId (length (db_entries db)) \<notin> en_id ` set (db_entries db)"
  shows "sound_income foldKey db' \<and> income_written db db'"
proof (cases "findSalaryEntry db userId")
  case (Some e0)
  with assms(2) obtain e1 where "row_update userId e0 e1 db db'" by (auto simp: salary_outcome_def Let_def)
  then show ?thesis using replace_income [OF assms(1)] by blast
next
  case None
  show ?thesis
  proof (cases "salary > 0")
    case True
    with None assms(2) obtain day where db': "db' = db\<lparr>db_entries := db_entries db
        @ [new_salary_row (newId (length (db_entries db))) now userId (take 7 (dayKeyInSaoPaulo sp now)) salary day]\<rparr>"
      by (auto simp: salary_outcome_def Let_def)
    show ?thesis
      unfolding db' using assms(3,4)
      by (intro append_income [OF assms(1)]) (simp_all add: new_salary_row_def sound_entry_def is_salary_def sound_tag_def)
  next
    case False
    with None assms(2) have "db' = db" by (simp add: salary_outcome_def Let_def)
    then show ?thesis using assms(1) income_written_refl by simp
  qed
qed

lemma step_keeps:
  assumes "income_step D sp alike foldKey db db'" "sound_income foldKey db" "decimal_arith D"
  shows "sound_income foldKey db' \<and> income_written db db'"
  using assms(1)
proof cases
  case (create_entry body input newId now userId e)
  note c = create_effect [OF create_entry(1,3)]
  from c have "en_id e \<notin> en_id ` set (db_entries db)" "en_systemOrigin e = ''manual''" "sound_entry e" "sound_tag db e"
    using create_entry(2) by metis+
  from append_income [OF assms(2) this] show ?thesis unfolding conjunct1 [OF c] .
next
  case (edit_entry body changes now userId entryId)
  have "sound_entries db" using assms(2) by (simp add: sound_income_def)
  from edit_effect [OF this edit_entry] obtain e0 schedule tag where
    "row_update userId e0 (edited_entry now changes schedule tag e0) db db'" .
  then show ?thesis by (rule replace_income [OF assms(2)])
next
  case (archive_entry now userId entryId)
  have "sound_entries db" using assms(2) by (simp add: sound_income_def)
  from archive_effect [OF this archive_entry] obtain e0 where
    "row_update userId e0 (e0\<lparr>en_archivedAt := Some now, en_updatedAt := now\<rparr>) db db'" .
  then show ?thesis by (rule replace_income [OF assms(2)])
next
  case (receipt now body rq newId userId entryId)
  then show ?thesis using receipt_income [OF assms(2)] by blast
next
  case (received newId income now userId entryId receiptId)
  from received_income_effect [OF assms(3) received(3,2)] obtain e where
    "db' = db\<lparr>db_entries := db_entries db @ [e]\<rparr>" "en_id e = newId (length (db_entries db))"
    "en_systemOrigin e = ''manual''" "sound_entry e" "sound_tag db e" by blast
  then show ?thesis using received(1) append_income [OF assms(2), of e] by simp
next
  case (profile body profile newId now userId user)
  from profile_effect [OF assms(2) profile(1,3)] have p: "stored_amount (us_salary user)" "sound_income foldKey (put_user user db)"
    "if up_salary profile = None \<and> up_salaryReceiveDay profile = None then db' = put_user user db
     else salary_outcome sp newId now userId (us_salary user) (put_user user db) db'"
    by blast+
  note k = conjunct2 [OF put_user_income [OF assms(2) p(1)]]
  show ?thesis
  proof (cases "up_salary profile = None \<and> up_salaryReceiveDay profile = None")
    case True
    with p k show ?thesis by simp
  next
    case False
    with p have "salary_outcome sp newId now userId (us_salary user) (put_user user db) db'" by auto
    from salary_outcome_income [OF p(2) this p(1)] profile(2) k show ?thesis by (auto intro: income_written_trans)
  qed
next
  case (create_tag body tag newId now userId t)
  from create_tag(2) obtain row where "insert_tag foldKey row db = Some db'"
    by (auto simp: createCustomTag_def Let_def res_when_eq_Inr split: option.splits)
  then show ?thesis by (rule insert_tag_income [OF assms(2)])
next
  case (delete_tag userId tagId)
  then show ?thesis using delete_tag_income [OF assms(2)] by blast
next
  case (income_tag newId now userId name t created)
  then have "db' = db \<or> (\<exists>row. insert_tag foldKey row db = Some db')"
    by (auto simp: resolveIncomeTagInTransaction_def Let_def res_when_eq_Inr split: option.splits)
  then show ?thesis using insert_tag_income [OF assms(2)] assms(2) income_written_refl by blast
qed

lemma others_keep:
  assumes "sound_income foldKey db" "keeps_income_rows db db'"
  shows "sound_income foldKey db'"
proof -
  have tags: "sound_tag db' = sound_tag db" using assms(2) by (intro sound_tag_tables) (simp add: keeps_income_rows_def)
  have "sound_entry e \<and> sound_tag db' e" if "e \<in> set (db_entries db')" "en_systemOrigin e = ''manual''" for e
  proof -
    have "e \<in> set (manual_entries db')" using that by (simp add: manual_entries_def)
    then have "e \<in> set (manual_entries db)" using assms(2) by (simp add: keeps_income_rows_def)
    then show ?thesis using assms(1) tags by (simp add: sound_income_def sound_entries_def manual_entries_def)
  qed
  moreover have "us_salary ` set (db_users db') = us_salary ` set (db_users db)"
    using assms(2) unfolding keeps_income_rows_def by (metis set_map)
  then have "sound_users db'" using assms(1) unfolding sound_income_def sound_users_def by (metis imageE image_eqI)
  ultimately show ?thesis using assms by (auto simp: sound_income_def sound_entries_def keeps_income_rows_def)
qed

lemma reachable_income:
  assumes "income_reachable D sp alike foldKey db" "decimal_arith D"
  shows "sound_income foldKey db"
  using assms(1)
proof induction
  case (start db)
  then show ?case by (simp add: sound_income_def sound_entries_def unique_tags_def)
next
  case (step db db')
  then show ?case using step_keeps assms(2) by blast
next
  case (others db db')
  then show ?case using others_keep by blast
qed

end
