(* ===== verification/Income_Properties.thy ===== *)
theory Income_Properties
  imports Entries_System
begin

text \<open>
  The properties of the income services: the invariant of the reachable states, the isolation from
  the piggy banks, the receipts of salaries and one-offs, and the history of a salary.
\<close>

section \<open>Versions and receipts by month\<close>

definition receipt_status :: "entry_row \<Rightarrow> string \<Rightarrow> receipt_state" where
  "receipt_status e month =
     (if month \<in> rc_month ` set (en_receipts e) then Received
      else if month \<in> set (en_salaryHolds e) then Waiting else Automatic)"

lemma filter_upsert_version:
  "\<not> P (sv_month v) \<Longrightarrow> filter (\<lambda>x. P (sv_month x)) (upsert_version v vs) = filter (\<lambda>x. P (sv_month x)) vs"
proof -
  assume p: "\<not> P (sv_month v)"
  then have "filter (\<lambda>x. P (sv_month x)) (map (\<lambda>x. if sv_month x = sv_month v then v else x) vs) = filter (\<lambda>x. P (sv_month x)) vs"
    by (induction vs) auto
  with p show ?thesis by (simp add: upsert_version_def)
qed

lemma version_before_upsert: "m < sv_month v \<Longrightarrow> version_at m (upsert_version v vs) = version_at m vs"
  using filter_upsert_version [of "\<lambda>k. k \<le> m" v vs] by (simp add: version_at_def not_le)

lemma upsert_version_mem: "v \<in> set (upsert_version v vs)"
  by (auto simp: upsert_version_def list_ex_iff)

lemma last_is_max:
  fixes f :: "'a \<Rightarrow> 'b :: linorder"
  assumes "x \<in> set xs"
  obtains y ys where "rev (sort_key f xs) = y # ys" "f x \<le> f y" "y \<in> set xs"
proof -
  have x: "x \<in> set (rev (sort_key f xs))" using assms by simp
  then obtain y ys where r: "rev (sort_key f xs) = y # ys" by (cases "rev (sort_key f xs)") auto
  have "sorted (map f (rev (y # ys)))" using sorted_sort_key [of f xs] r by (metis rev_rev_ident)
  then have "f x \<le> f y" using x by (auto simp: r sorted_append)
  moreover have "y \<in> set xs" using r by (metis list.set_intros(1) set_rev set_sort)
  ultimately show thesis using that r by blast
qed

lemma version_at_own_month:
  assumes "v \<in> set vs" "distinct (map sv_month vs)"
  shows "version_at (sv_month v) vs = Some v"
proof -
  have "v \<in> set (filter (\<lambda>x. sv_month x \<le> sv_month v) vs)" using assms(1) by simp
  then obtain y ys where y: "rev (sort_key sv_month (filter (\<lambda>x. sv_month x \<le> sv_month v) vs)) = y # ys" "sv_month v \<le> sv_month y"
    "y \<in> set (filter (\<lambda>x. sv_month x \<le> sv_month v) vs)"
    by (rule last_is_max [where f = sv_month])
  then have "sv_month y = sv_month v" "y \<in> set vs" by auto
  with assms have "y = v" by (auto simp: distinct_map inj_on_def)
  with y(1) show ?thesis by (simp add: version_at_def)
qed

lemma version_at_upserted:
  assumes "distinct (map sv_month vs)"
  shows "version_at (sv_month v) (upsert_version v vs) = Some v"
  using version_at_own_month [OF upsert_version_mem upsert_version_months [OF assms]] .

lemma find_map_replace: "find P (filter (\<lambda>x. Q x) xs) = find (\<lambda>x. Q x \<and> P x) xs"
  by (induction xs) auto

lemma receipt_of_other_month:
  assumes "m \<noteq> rc_month r"
  shows "receipt_of m (put_receipt state r e) = receipt_of m e"
proof -
  have "find (\<lambda>x. rc_month x \<noteq> rc_month r \<and> rc_month x = m) (en_receipts e) = find (\<lambda>x. rc_month x = m) (en_receipts e)"
    using assms by (intro arg_cong [where f = "\<lambda>p. find p (en_receipts e)"]) auto
  moreover have "find (\<lambda>x. rc_month x = m) (rs @ [r]) = find (\<lambda>x. rc_month x = m) rs" for rs
    using assms by (induction rs) auto
  ultimately show ?thesis
    by (simp add: receipt_of_def put_receipt_def upsert_receipt_def find_map_replace)
qed

lemma receipt_of_new_month:
  assumes "receipt_of (rc_month r) e = None"
  shows "receipt_of (rc_month r) (put_receipt Received r e) = Some r"
proof -
  have none: "\<forall>x \<in> set (en_receipts e). rc_month x \<noteq> rc_month r" using assms by (auto simp: receipt_of_def find_None_iff)
  have "\<forall>x \<in> set rs. rc_month x \<noteq> rc_month r \<Longrightarrow> find (\<lambda>x. rc_month x = rc_month r) (rs @ [r]) = Some r" for rs
    by (induction rs) auto
  with none show ?thesis by (auto simp: receipt_of_def put_receipt_def upsert_receipt_def list_ex_iff)
qed

lemma replaced_rows:
  assumes "row_update userId e0 e1 db db'"
  shows "e1 \<in> set (db_entries db') \<and> (\<forall>e \<in> set (db_entries db). e \<noteq> e0 \<longrightarrow> e \<in> set (db_entries db'))"
  using assms by (auto simp: row_update_def image_iff)

lemma salary_gate_version:
  "salary_gate month state e = Inr v \<Longrightarrow> version_at month (en_salaryVersions e) = Some v \<and> (state = Received \<longrightarrow> sv_amount v \<noteq> 0)"
  by (auto simp: salary_gate_def Let_def res_when_eq_Inr split: prod.splits option.splits)

lemma salary_row_status:
  assumes "rc_month r = month" "sound_entry e"
  shows "receipt_status (salary_receipt_row now state r e) month = state"
    and "m \<noteq> month \<Longrightarrow> receipt_status (salary_receipt_row now state r e) m = receipt_status e m"
  using assms(2)
  by (cases state; auto simp: receipt_status_def put_receipt_months(2) put_hold_months(2) assms(1) simp del: set_map)+

section \<open>Properties\<close>

text \<open>C18. Every income entry of every reachable state is sound: a one-off has a date and nothing of
  a recurrence, a recurring entry a day from 1 to 31 and a first month not after its last; amounts
  are whole cents in range; a one-off has at most one receipt, a recurring entry none; a month of a
  salary has at most one receipt, one version and one hold, and never both a receipt and a hold; and
  a tag of an entry is an income tag of its owner, on an entry of type \<open>outro\<close> only. Income tags
  stay unique by the key of their index.\<close>

theorem income_entries_stay_sound:
  assumes "decimal_arith D" "income_reachable D sp alike foldKey db"
  shows "(\<forall>e \<in> set (db_entries db). en_systemOrigin e = ''manual'' \<longrightarrow> sound_entry e \<and> sound_tag db e)
    \<and> unique_tags foldKey (db_customTags db)"
  using reachable_income [OF assms(2,1)] by (simp add: sound_income_def sound_entries_def)

text \<open>C32. Confirming a monthly salary: after an accepted request the month has exactly the requested
  state, every other month keeps its state and its receipt, a new receipt is for the positive amount
  of the version in force in that month, and no other entry changes.\<close>

theorem salary_receipts_follow_requests:
  assumes "decimal_arith D" "income_reachable D sp alike foldKey db"
    and "setReceiptState sp newId now userId entryId rq db = Inr db'"
    and "e \<in> set (db_entries db)" "en_id e = entryId" "is_salary e"
  shows "\<exists>e1 \<in> set (db_entries db'). en_id e1 = entryId
    \<and> (\<forall>x \<in> set (db_entries db). x \<noteq> e \<longrightarrow> x \<in> set (db_entries db'))
    \<and> receipt_status e1 (rq_month rq) = rq_state rq
    \<and> (\<forall>m. m \<noteq> rq_month rq \<longrightarrow> receipt_status e1 m = receipt_status e m \<and> receipt_of m e1 = receipt_of m e)
    \<and> (rq_state rq = Received \<and> receipt_of (rq_month rq) e = None \<longrightarrow>
        (\<exists>r v. receipt_of (rq_month rq) e1 = Some r \<and> version_at (rq_month rq) (en_salaryVersions e) = Some v
          \<and> rc_amount r = sv_amount v \<and> rc_amount r \<noteq> 0))"
proof -
  have s: "sound_entries db" using reachable_income [OF assms(2,1)] by (simp add: sound_income_def)
  from receipt_effect [OF s assms(3)] obtain e0 where e0: "e0 \<in> set (db_entries db)" "en_id e0 = entryId"
    "en_systemOrigin e0 = ''manual''" and out: "receipt_outcome sp newId now rq e0 db db'" by blast
  have same: "e0 = e" using only_row [OF _ assms(4) e0(1)] s assms(5) e0(2) by (simp add: sound_entries_def)
  from out [unfolded same] assms(6) obtain v where v: "salary_gate (rq_month rq) (rq_state rq) e = Inr v"
    and u: "row_update (en_userId e) e (salary_receipt_row now (rq_state rq) (new_receipt newId (rq_month rq) (sv_amount v) now db) e) db db'"
    by (auto simp: receipt_outcome_def Let_def)
  define r where "r = new_receipt newId (rq_month rq) (sv_amount v) now db"
  define e1 where "e1 = salary_receipt_row now (rq_state rq) r e"
  have r: "rc_month r = rq_month rq" "rc_amount r = sv_amount v" by (simp_all add: r_def new_receipt_def)
  have sound: "sound_entry e" using s e0(3) assms(4) by (simp add: same sound_entries_def)
  have "e1 \<in> set (db_entries db')" "\<forall>x \<in> set (db_entries db). x \<noteq> e \<longrightarrow> x \<in> set (db_entries db')"
    using replaced_rows [OF u] by (simp_all add: e1_def r_def)
  moreover have "en_id e1 = entryId" using assms(5) by (simp add: e1_def)
  moreover have "receipt_status e1 (rq_month rq) = rq_state rq" "m \<noteq> rq_month rq \<Longrightarrow> receipt_status e1 m = receipt_status e m" for m
    using salary_row_status [OF r(1) sound] by (simp_all add: e1_def)
  moreover have of_e1: "receipt_of m e1 = receipt_of m (put_receipt (rq_state rq) r e)" for m
    by (simp add: e1_def receipt_of_def)
  then have "m \<noteq> rq_month rq \<Longrightarrow> receipt_of m e1 = receipt_of m e" for m using receipt_of_other_month [of m r] r(1) by simp
  moreover have "\<exists>r v. receipt_of (rq_month rq) e1 = Some r \<and> version_at (rq_month rq) (en_salaryVersions e) = Some v
      \<and> rc_amount r = sv_amount v \<and> rc_amount r \<noteq> 0" if "rq_state rq = Received \<and> receipt_of (rq_month rq) e = None"
    using receipt_of_new_month [of r e] that r salary_gate_version [OF v] of_e1 [of "rq_month rq"] by auto
  ultimately show ?thesis by blast
qed

text \<open>C33. Confirming a one-off: after an accepted request to mark it received it has exactly one
  receipt, of the requested month and of the requested local day, which is not in the future, and
  a new receipt is for the amount of the entry; after an accepted request to take that back it has
  none. No other entry changes.\<close>

theorem one_off_receipts_follow_requests:
  assumes "decimal_arith D" "sao_paulo_offset sp" "income_reachable D sp alike foldKey db"
    and "setReceiptState sp newId now userId entryId rq db = Inr db'"
    and "e \<in> set (db_entries db)" "en_id e = entryId" "\<not> is_salary e"
    and "rq_receivedOn rq = None \<or> (\<exists>n. ok_day n \<and> rq_receivedOn rq = Some (key n))"
  shows "rq_state rq \<noteq> Automatic \<and> (\<exists>e1 \<in> set (db_entries db'). en_id e1 = entryId
    \<and> (\<forall>x \<in> set (db_entries db). x \<noteq> e \<longrightarrow> x \<in> set (db_entries db'))
    \<and> (rq_state rq = Received \<longrightarrow> (\<exists>r. en_receipts e1 = [r] \<and> rc_month r = rq_month rq
        \<and> Some (dayKeyInSaoPaulo sp (rc_receivedAt r)) = rq_receivedOn rq
        \<and> dayKeyInSaoPaulo sp (rc_receivedAt r) \<le> todayKeyInSaoPaulo sp now
        \<and> (en_receipts e = [] \<longrightarrow> rc_amount r = en_amount e)))
    \<and> (rq_state rq = Waiting \<longrightarrow> en_receipts e1 = []))"
proof -
  have s: "sound_entries db" using reachable_income [OF assms(3,1)] by (simp add: sound_income_def)
  from receipt_effect [OF s assms(4)] obtain e0 where e0: "e0 \<in> set (db_entries db)" "en_id e0 = entryId"
    "en_systemOrigin e0 = ''manual''" and out: "receipt_outcome sp newId now rq e0 db db'" by blast
  have same: "e0 = e" using only_row [OF _ assms(5) e0(1)] s assms(6) e0(2) by (simp add: sound_entries_def)
  have "sound_entry e" using s e0(3) assms(5) by (simp add: same sound_entries_def)
  then have len: "length (en_receipts e) \<le> 1" using assms(7) by (simp add: sound_entry_def)
  let ?gate = "one_off_gate sp now (rq_month rq) (rq_state rq) (rq_receivedOn rq) (rq_expectedUpdatedAt rq) e"
  from out [unfolded same] assms(7) have state: "rq_state rq \<noteq> Automatic"
    and cases: "?gate = Inr True \<and> db' = db \<or> ?gate = Inr False \<and> (\<exists>day. (rq_state rq = Received \<longrightarrow>
        dayKeyToDate (the (rq_receivedOn rq)) Noon = Inr day) \<and> row_update (en_userId e) e
        (one_off_row now (rq_state rq) (new_receipt newId (rq_month rq) (en_amount e) day db) e) db db')"
    by (simp_all add: receipt_outcome_def Let_def)
  then obtain b where gate: "?gate = Inr b" by blast
  have not_future: "the (rq_receivedOn rq) \<le> todayKeyInSaoPaulo sp now" "rq_receivedOn rq \<noteq> None" if "rq_state rq = Received"
    using gate that by (auto simp: one_off_gate_def res_when_eq_Inr invalid_received_on_def truthy_def not_less split: option.splits)
  have kept: "rc_month r = rq_month rq \<and> Some (dayKeyInSaoPaulo sp (rc_receivedAt r)) = rq_receivedOn rq"
    if "rq_state rq = Received" "en_receipts e = [r]" for r
    using gate that by (auto simp: one_off_gate_def res_when_eq_Inr first_receipt_def Let_def split: if_splits)
  from cases show ?thesis
  proof (elim disjE conjE exE)
    assume g: "?gate = Inr True" and db': "db' = db"
    have "rq_state rq = Received \<Longrightarrow> \<exists>r. en_receipts e = [r]" "rq_state rq = Waiting \<Longrightarrow> en_receipts e = []"
      using g len by (cases "en_receipts e"; auto simp: one_off_gate_def res_when_eq_Inr first_receipt_def Let_def split: if_splits)+
    then show ?thesis using state kept not_future assms(5,6) by (auto simp: db' intro!: bexI [of _ e])
  next
    fix day assume g: "?gate = Inr False" and day: "rq_state rq = Received \<longrightarrow> dayKeyToDate (the (rq_receivedOn rq)) Noon = Inr day"
      and u: "row_update (en_userId e) e (one_off_row now (rq_state rq) (new_receipt newId (rq_month rq) (en_amount e) day db) e) db db'"
    define r where "r = new_receipt newId (rq_month rq) (en_amount e) day db"
    define e1 where "e1 = one_off_row now (rq_state rq) r e"
    have r: "rc_month r = rq_month rq" "rc_amount r = en_amount e" "rc_receivedAt r = day" by (simp_all add: r_def new_receipt_def)
    have receipts: "en_receipts e1 = (if rq_state rq = Waiting then [] else if en_receipts e = [] then [r] else en_receipts e)"
      using one_off_receipts [OF g state r(1) len] by (simp add: e1_def)
    have new_day: "Some (dayKeyInSaoPaulo sp day) = rq_receivedOn rq" if "rq_state rq = Received"
    proof -
      from assms(8) not_future(2) [OF that] obtain n where n: "ok_day n" "rq_receivedOn rq = Some (key n)" by blast
      then have "day = noon n" using day that dayKeyToDate_noon [OF n(1)] by simp
      then show ?thesis using sao_paulo_offset.local_noon [OF assms(2) n(1)] n(2) by simp
    qed
    have "\<exists>r. en_receipts e1 = [r] \<and> rc_month r = rq_month rq \<and> Some (dayKeyInSaoPaulo sp (rc_receivedAt r)) = rq_receivedOn rq
        \<and> (en_receipts e = [] \<longrightarrow> rc_amount r = en_amount e)" if "rq_state rq = Received"
    proof (cases "en_receipts e")
      case Nil
      then show ?thesis using r new_day that by (simp add: receipts)
    next
      case (Cons x xs)
      then show ?thesis using len kept [OF that, of x] that by (simp add: receipts)
    qed
    moreover have "e1 \<in> set (db_entries db')" "\<forall>x \<in> set (db_entries db). x \<noteq> e \<longrightarrow> x \<in> set (db_entries db')"
      using replaced_rows [OF u] by (simp_all add: e1_def r_def)
    moreover have "en_id e1 = entryId" using assms(6) by (simp add: e1_def)
    ultimately show ?thesis using state not_future receipts by (intro conjI bexI [of _ e1]) auto
  qed
qed

text \<open>C34. The history of a salary: a profile update changes no receipt of the salary entry and no
  version of a month before the current one (an entry without versions first gets the terms it has
  as its baseline), and from then on the current month has the salary of the profile.\<close>

theorem salary_history_is_kept:
  assumes "decimal_arith D" "income_reachable D sp alike foldKey db" "parseUpdateProfile body = Inr profile"
    and "updateProfile sp newId now userId profile db = Inr (db', user)" "findSalaryEntry db userId = Some e"
    and "up_salary profile \<noteq> None \<or> up_salaryReceiveDay profile \<noteq> None"
  shows "\<exists>e1 \<in> set (db_entries db'). en_id e1 = en_id e \<and> en_receipts e1 = en_receipts e
    \<and> (\<forall>m. m < take 7 (dayKeyInSaoPaulo sp now) \<longrightarrow>
        version_at m (en_salaryVersions e1) = version_at m (en_salaryVersions (with_baseline sp e)))
    \<and> map_option sv_amount (version_at (take 7 (dayKeyInSaoPaulo sp now)) (en_salaryVersions e1)) = Some (us_salary user)"
proof -
  note s = reachable_income [OF assms(2,1)]
  from profile_effect [OF s assms(3,4)] have p: "stored_amount (us_salary user)"
    "if up_salary profile = None \<and> up_salaryReceiveDay profile = None then db' = put_user user db
     else salary_outcome sp newId now userId (us_salary user) (put_user user db) db'" by blast+
  then have out: "salary_outcome sp newId now userId (us_salary user) (put_user user db) db'" using assms(6) by auto
  let ?month = "take 7 (dayKeyInSaoPaulo sp now)"
  from out obtain e1 where u: "row_update userId e e1 (put_user user db) db'"
    and e1: "if us_salary user > 0 then \<exists>day. e1 = raised_salary sp now ?month (us_salary user) day e
             else \<exists>t d. e1 = ended_salary sp now ?month t d e"
    by (auto simp: salary_outcome_def Let_def assms(5))
  have salary: "\<not> us_salary user > 0 \<Longrightarrow> us_salary user = 0" using p(1) by (auto simp: stored_amount_def)
  from e1 salary obtain v where v: "sv_month v = ?month" "sv_amount v = us_salary user"
    and e1: "en_id e1 = en_id e" "en_receipts e1 = en_receipts e"
      "en_salaryVersions e1 = upsert_version v (en_salaryVersions (with_baseline sp e))"
  proof (cases "us_salary user > 0")
    case True
    with e1 obtain day where "e1 = raised_salary sp now ?month (us_salary user) day e" by auto
    then show thesis
      by (intro that [of "\<lparr>sv_month = ?month, sv_amount = us_salary user, sv_receiveDay = day\<rparr>"])
        (simp_all add: raised_salary_def Let_def)
  next
    case False
    with e1 obtain t d where "e1 = ended_salary sp now ?month t d e" by auto
    then show thesis
      using salary [OF False]
      by (intro that [of "\<lparr>sv_month = ?month, sv_amount = 0, sv_receiveDay = (case d of Some d \<Rightarrow> d | None \<Rightarrow> 1)\<rparr>"])
        (simp_all add: ended_salary_def Let_def)
  qed
  have "sound_entry e" "is_salary e"
    using findSalaryEntry_row [OF assms(5)] u s by (auto simp: row_update_def sound_income_def sound_entries_def)
  then have "distinct (map sv_month (en_salaryVersions (with_baseline sp e)))"
    using baseline_sound [of e sp] by (simp add: sound_entry_def)
  from version_at_upserted [OF this, of v] have "version_at ?month (en_salaryVersions e1) = Some v" by (simp add: e1 v)
  moreover have "version_at m (en_salaryVersions e1) = version_at m (en_salaryVersions (with_baseline sp e))" if "m < ?month" for m
    using version_before_upsert [of m v] that by (simp add: e1 v)
  ultimately show ?thesis using replaced_rows [OF u] e1(1,2) v(2) by auto
qed

section \<open>The properties at concrete states\<close>

text \<open>Ana sets a salary on 2026-02-16; she has sold something six days before.\<close>

definition ana_user :: "rat \<Rightarrow> user_row" where
  "ana_user salary = \<lparr>us_id = ''ana'', us_name = ''Ana'', us_salary = salary, us_notes = None\<rparr>"

definition ana_db :: finance_db where
  "ana_db = empty_db\<lparr>db_users := [ana_user 0]\<rparr>"

definition salary_body :: "(string \<times> js) list" where
  "salary_body = [(''salary'', JString ''5000''), (''salaryReceiveDay'', JNumber 5)]"

definition salary_entry :: entry_row where
  "salary_entry = new_salary_row ''row'' (noon 20500) ''ana'' ''2026-02'' 5000 5"

definition salary_db :: finance_db where
  "salary_db = ana_db\<lparr>db_users := [ana_user 5000], db_entries := [salary_entry]\<rparr>"

lemma february: "take 7 (dayKeyInSaoPaulo sao_paulo_standard (noon 20500)) = ''2026-02''" by code_simp

lemma parsed_salary_body: "parseUpdateProfile salary_body =
    Inr \<lparr>up_name = None, up_salary = Some 5000, up_notes = None, up_salaryReceiveDay = Some (Some 5)\<rparr>"
proof -
  have "parseMoneyAmount (JString ''5000'') True = Some 5000" by code_simp
  moreover have "parseDayOfMonth (JNumber 5) m = Inr (Some (Some 5))" for m
    by (simp add: parseDayOfMonth_def is_integer_def res_when_def)
  ultimately show ?thesis
    by (simp add: parseUpdateProfile_def salary_body_def js_field_def if_present_def parseAmount_def parsePatchNote_def)
qed

lemma salary_set:
  "updateProfile sao_paulo_standard (\<lambda>i. ''row'') (noon 20500) ''ana''
     \<lparr>up_name = None, up_salary = Some 5000, up_notes = None, up_salaryReceiveDay = Some (Some 5)\<rparr> ana_db
   = Inr (salary_db, ana_user 5000)"
  by (simp add: updateProfile_def ana_db_def salary_db_def salary_entry_def ana_user_def empty_db_def updated_user_def
      or_keep_def sync_salary_def february [simplified] findSalaryEntry_def effective_def Let_def)

lemma ana_reachable: "income_reachable decimal_js sao_paulo_standard (=) (\<lambda>s. s) ana_db"
  by (rule income_reachable.start) (simp_all add: ana_db_def ana_user_def empty_db_def sound_users_def foreign_rows_def stored_amount_def)

lemma salary_step: "income_step decimal_js sao_paulo_standard (=) (\<lambda>s. s) ana_db salary_db"
  by (rule income_step.profile [OF parsed_salary_body _ salary_set]) (simp add: ana_db_def empty_db_def)

lemma salary_reachable: "income_reachable decimal_js sao_paulo_standard (=) (\<lambda>s. s) salary_db"
  using ana_reachable salary_step by (rule income_reachable.step)

theorem income_entries_stay_sound_witness: "sound_entry salary_entry \<and> sound_tag salary_db salary_entry"
  using income_entries_stay_sound [OF js_decimal.decimal_arith_axioms salary_reachable]
  by (simp add: salary_db_def salary_entry_def new_salary_row_def)

definition february_request :: receipt_request where
  "february_request = \<lparr>rq_month = ''2026-02'', rq_state = Received, rq_receivedOn = None, rq_expectedUpdatedAt = None\<rparr>"

lemma february_accepted:
  "\<exists>db'. setReceiptState sao_paulo_standard (\<lambda>i. ''receipt'') (noon 20500) ''ana'' ''row'' february_request salary_db = Inr db'"
proof -
  have "salary_gate ''2026-02'' Received salary_entry = Inr \<lparr>sv_month = ''2026-02'', sv_amount = 5000, sv_receiveDay = 5\<rparr>"
    by (simp add: salary_gate_def salary_entry_def new_salary_row_def version_at_def split: prod.split)
  then show ?thesis
    by (simp add: setReceiptState_def february_request_def salary_db_def salary_entry_def new_salary_row_def is_monthly_salary_def Let_def)
qed

theorem salary_receipts_follow_requests_witness:
  "\<exists>db' e1 r. setReceiptState sao_paulo_standard (\<lambda>i. ''receipt'') (noon 20500) ''ana'' ''row'' february_request salary_db = Inr db'
    \<and> e1 \<in> set (db_entries db') \<and> receipt_status e1 ''2026-02'' = Received \<and> receipt_status e1 ''2026-03'' = Automatic
    \<and> receipt_of ''2026-02'' e1 = Some r \<and> rc_amount r = 5000"
proof -
  obtain db' where run: "setReceiptState sao_paulo_standard (\<lambda>i. ''receipt'') (noon 20500) ''ana'' ''row'' february_request salary_db
      = Inr db'" using february_accepted by blast
  have e: "salary_entry \<in> set (db_entries salary_db)" "en_id salary_entry = ''row''" "is_salary salary_entry"
    by (simp_all add: salary_db_def salary_entry_def new_salary_row_def is_salary_def)
  have "receipt_status salary_entry ''2026-03'' = Automatic" "receipt_of ''2026-02'' salary_entry = None"
    "version_at ''2026-02'' (en_salaryVersions salary_entry) = Some \<lparr>sv_month = ''2026-02'', sv_amount = 5000, sv_receiveDay = 5\<rparr>"
    by (simp_all add: salary_entry_def new_salary_row_def receipt_status_def receipt_of_def version_at_def)
  with salary_receipts_follow_requests [OF js_decimal.decimal_arith_axioms salary_reachable run e] run show ?thesis
    by (auto simp: february_request_def)
qed

theorem salary_history_is_kept_witness:
  "\<exists>db' user e1. updateProfile sao_paulo_standard (\<lambda>i. ''other'') (noon 20600) ''ana''
      \<lparr>up_name = None, up_salary = Some 5000, up_notes = None, up_salaryReceiveDay = Some (Some 5)\<rparr> salary_db = Inr (db', user)
    \<and> e1 \<in> set (db_entries db')
    \<and> version_at ''2026-03'' (en_salaryVersions e1) = Some \<lparr>sv_month = ''2026-02'', sv_amount = 5000, sv_receiveDay = 5\<rparr>
    \<and> map_option sv_amount (version_at ''2026-05'' (en_salaryVersions e1)) = Some 5000"
proof -
  have may: "take 7 (dayKeyInSaoPaulo sao_paulo_standard (noon 20600)) = ''2026-05''" by code_simp
  have f: "findSalaryEntry salary_db ''ana'' = Some salary_entry"
    by (simp add: findSalaryEntry_def salary_db_def salary_entry_def new_salary_row_def is_salary_entry_def)
  obtain db' where run: "updateProfile sao_paulo_standard (\<lambda>i. ''other'') (noon 20600) ''ana''
      \<lparr>up_name = None, up_salary = Some 5000, up_notes = None, up_salaryReceiveDay = Some (Some 5)\<rparr> salary_db = Inr (db', ana_user 5000)"
    using f by (simp add: updateProfile_def salary_db_def ana_db_def ana_user_def updated_user_def or_keep_def sync_salary_def
        findSalaryEntry_def effective_def Let_def)
  have "version_at ''2026-03'' (en_salaryVersions (with_baseline sao_paulo_standard salary_entry))
      = Some \<lparr>sv_month = ''2026-02'', sv_amount = 5000, sv_receiveDay = 5\<rparr>"
    by (simp add: with_baseline_def salary_entry_def new_salary_row_def version_at_def)
  moreover have "''2026-03'' < ''2026-05''" by code_simp
  moreover obtain e1 where "e1 \<in> set (db_entries db')"
    "\<forall>m. m < ''2026-05'' \<longrightarrow> version_at m (en_salaryVersions e1) = version_at m (en_salaryVersions (with_baseline sao_paulo_standard salary_entry))"
    "map_option sv_amount (version_at ''2026-05'' (en_salaryVersions e1)) = Some (us_salary (ana_user 5000))"
    using salary_history_is_kept [OF js_decimal.decimal_arith_axioms salary_reachable parsed_salary_body run f, unfolded may]
    by auto
  moreover have "us_salary (ana_user 5000) = 5000" by (simp add: ana_user_def)
  ultimately show ?thesis using run by (metis (no_types))
qed

text \<open>The sale is entered on the same day and then confirmed for 2026-02-10.\<close>

definition sale_body :: "(string \<times> js) list" where
  "sale_body = [(''name'', JString ''Venda''), (''amount'', JString ''120.50''), (''type'', JString ''outro''),
     (''frequency'', JString ''unica''), (''date'', JString ''2026-02-10'')]"

definition sale_input :: create_entry_input where
  "sale_input = \<lparr>ce_name = ''Venda'', ce_notes = None, ce_amount = 120.5, ce_type = ''outro'', ce_frequency = ''unica'',
     ce_customTagId = None, ce_schedule = \<lparr>sb_day = JUndefined, sb_startsAt = JUndefined, sb_endsAt = JUndefined,
       sb_date = JString ''2026-02-10''\<rparr>\<rparr>"

definition sale_entry :: entry_row where
  "sale_entry = new_entry_row ''sale'' (noon 20500) ''ana'' sale_input
     \<lparr>rv_day = Some None, rv_startsAt = Some None, rv_endsAt = Some None, rv_date = Some (Some (noon 20494))\<rparr> None"

definition sale_db :: finance_db where
  "sale_db = ana_db\<lparr>db_entries := [sale_entry]\<rparr>"

lemma sale_parsed: "parseCreateEntry sale_body = Inr sale_input"
  by code_simp

lemma sale_schedule:
  "resolveSchedule Income_Schedule ''unica'' \<lparr>sb_day = JUndefined, sb_startsAt = JUndefined, sb_endsAt = JUndefined,
      sb_date = JString ''2026-02-10''\<rparr> None
   = Inr \<lparr>rv_day = Some None, rv_startsAt = Some None, rv_endsAt = Some None, rv_date = Some (Some (noon 20494))\<rparr>"
  by code_simp

lemma sale_created: "createEntry (\<lambda>i. ''sale'') (noon 20500) ''ana'' sale_input ana_db = Inr (sale_db, sale_entry)"
  using sale_schedule
  by (simp add: createEntry_def sale_input_def sale_db_def sale_entry_def resolveCustomTagId_def truthy_def ana_db_def empty_db_def
      res_when_def Let_def)

lemma sale_reachable: "income_reachable decimal_js sao_paulo_standard (=) (\<lambda>s. s) sale_db"
  by (rule income_reachable.step [OF ana_reachable income_step.create_entry [OF sale_parsed _ sale_created]])
    (simp add: ana_db_def empty_db_def)

definition sale_request :: receipt_request where
  "sale_request = \<lparr>rq_month = ''2026-02'', rq_state = Received, rq_receivedOn = Some ''2026-02-10'',
     rq_expectedUpdatedAt = Some ''2026-02-16T12:00:00.000Z''\<rparr>"

lemma sale_gate:
  "one_off_gate sao_paulo_standard (noon 20500) ''2026-02'' Received (Some ''2026-02-10'') (Some ''2026-02-16T12:00:00.000Z'') sale_entry
    = Inr False"
proof -
  have "iso_instant ''2026-02-16T12:00:00.000Z'' = Some (noon 20500)" "iso_text (noon 20500) = ''2026-02-16T12:00:00.000Z''"
    by code_simp+
  moreover have "\<not> invalid_received_on sao_paulo_standard (noon 20500) ''2026-02'' (Some ''2026-02-10'')" by code_simp
  ultimately show ?thesis
    by (simp add: one_off_gate_def res_when_def truthy_def first_receipt_def sale_entry_def new_entry_row_def Let_def)
qed

theorem one_off_receipts_follow_requests_witness:
  "\<exists>db' e1 r. setReceiptState sao_paulo_standard (\<lambda>i. ''receipt'') (noon 20500) ''ana'' ''sale'' sale_request sale_db = Inr db'
    \<and> e1 \<in> set (db_entries db') \<and> en_receipts e1 = [r] \<and> rc_amount r = 120.5
    \<and> dayKeyInSaoPaulo sao_paulo_standard (rc_receivedAt r) = ''2026-02-10''"
proof -
  have day: "dayKeyToDate ''2026-02-10'' Noon = Inr (noon 20494)" by code_simp
  have find: "find (\<lambda>e. en_id e = ''sale'' \<and> en_userId e = ''ana'' \<and> en_archivedAt e = None \<and> en_systemOrigin e = ''manual'')
      (db_entries sale_db) = Some sale_entry" and fields: "en_frequency sale_entry = ''unica''" "en_receipts sale_entry = []"
      "en_amount sale_entry = 120.5" "en_id sale_entry = ''sale''" "\<not> is_salary sale_entry" "sale_entry \<in> set (db_entries sale_db)"
    by (simp_all add: sale_db_def sale_entry_def new_entry_row_def sale_input_def is_salary_def)
  have one: "length (filter (\<lambda>e. en_id e = en_id sale_entry \<and> en_userId e = en_userId sale_entry \<and> en_updatedAt e = en_updatedAt sale_entry)
      (db_entries (update_entries (\<lambda>e. en_id e = en_id sale_entry) (put_receipt Received r) sale_db))) = 1" for r
    by (simp add: sale_db_def update_entries_def)
  have "\<exists>db'. set_one_off sao_paulo_standard (\<lambda>i. ''receipt'') (noon 20500) ''2026-02'' Received (Some ''2026-02-10'')
      (Some ''2026-02-16T12:00:00.000Z'') sale_entry sale_db = Inr db'"
    unfolding set_one_off_def sale_gate res_bind_Inr if_False Let_def
    using one by (simp add: day res_when_def fields)
  then obtain db' where run: "setReceiptState sao_paulo_standard (\<lambda>i. ''receipt'') (noon 20500) ''ana'' ''sale'' sale_request sale_db
      = Inr db'"
    by (auto simp: setReceiptState_def find sale_request_def Let_def fields(1) res_when_def)
  have "ok_day 20494" "''2026-02-10'' = key 20494" by code_simp+
  then have "rq_receivedOn sale_request = None \<or> (\<exists>n. ok_day n \<and> rq_receivedOn sale_request = Some (key n))"
    unfolding sale_request_def receipt_request.select_convs by blast
  from one_off_receipts_follow_requests [OF js_decimal.decimal_arith_axioms standard.sao_paulo_offset_axioms sale_reachable run
      fields(6,4,5) this]
  obtain e1 r where "e1 \<in> set (db_entries db')" "en_receipts e1 = [r]" "rc_amount r = 120.5"
    "Some (dayKeyInSaoPaulo sao_paulo_standard (rc_receivedAt r)) = Some ''2026-02-10''"
    unfolding sale_request_def receipt_request.select_convs fields(2,3) by blast
  then show ?thesis using run by blast
qed

end
