(* ===== verification/Expense_Input.thy ===== *)
theory Expense_Input
  imports Income_Properties
begin

text \<open>
  \<open>backend/src/services/expense-input.ts\<close>: the bodies of expense requests. The card id and the splits
  stay unparsed (\<open>js\<close>) for the split library; an absent field of an edit is \<open>None\<close>.
\<close>

record create_expense_input =
  cx_name :: string
  cx_amount :: rat
  cx_category :: string
  cx_frequency :: string
  cx_notes :: "string option"
  cx_customTagId :: "string option"
  cx_schedule :: schedule_body
  cx_cardId :: js
  cx_splits :: js

record update_expense_input =
  ux_name :: "string option"
  ux_amount :: "rat option"
  ux_category :: "string option"
  ux_frequency :: "string option"
  ux_notes :: "string option option"
  ux_customTagId :: "string option option"
  ux_schedule :: schedule_body
  ux_cardId :: js
  ux_splits :: js

definition expense_schedule_body :: "(string \<times> js) list \<Rightarrow> schedule_body" where
  "expense_schedule_body body = \<lparr>sb_day = js_field body ''dueDay'', sb_startsAt = js_field body ''startsAt'',
     sb_endsAt = js_field body ''endsAt'', sb_date = js_field body ''date''\<rparr>"

definition checkCardId :: "js \<Rightarrow> js res" where
  "checkCardId value =
     (case value of
        JUndefined \<Rightarrow> Inr value | JNull \<Rightarrow> Inr value | JString s \<Rightarrow> Inr value
      | _ \<Rightarrow> Inl (BadRequest ''Cartao invalido''))"

definition investments_elsewhere :: error where
  "investments_elsewhere = BadRequest ''Investimentos sao lancados pelas abas Cofrinho ou Moedas''"

definition parseCreateExpense :: "(string \<times> js) list \<Rightarrow> create_expense_input res" where
  "parseCreateExpense body =
     (let required = ''Campos obrigatorios: name, amount, category'';
          amount = js_field body ''amount''; category = js_field body ''category'';
          frequency = (if js_nullish (js_field body ''frequency'') then JString ''mensal'' else js_field body ''frequency'') in
      res_bind (parseRequiredText (js_field body ''name'') 100 required) (\<lambda>name.
      res_when (js_nullish amount \<or> \<not> js_truthy category) (BadRequest required)
      (res_bind (parseAmount amount False None) (\<lambda>parsedAmount.
       res_when (\<not> isValidExpenseCategory category) (BadRequest ''Categoria invalida'')
       (res_when (category = JString ''cofrinho'' \<or> category = JString ''investimento'') investments_elsewhere
       (res_when (\<not> isValidFrequency frequency) (BadRequest ''Frequencia invalida'')
       (res_bind (parseOptionalNote (js_field body ''notes'') 500) (\<lambda>notes.
        res_bind (parseTagId (js_field body ''customTagId'')) (\<lambda>tag.
        res_bind (checkCardId (js_field body ''cardId'')) (\<lambda>cardId.
        Inr \<lparr>cx_name = name, cx_amount = parsedAmount, cx_category = js_text category, cx_frequency = js_text frequency,
             cx_notes = notes, cx_customTagId = present tag, cx_schedule = expense_schedule_body body,
             cx_cardId = cardId, cx_splits = js_field body ''splits''\<rparr>))))))))))"

definition parseUpdateExpense :: "(string \<times> js) list \<Rightarrow> update_expense_input res" where
  "parseUpdateExpense body =
     (let category = js_field body ''category''; frequency = js_field body ''frequency'' in
      res_when (category \<noteq> JUndefined \<and> \<not> isValidExpenseCategory category) (BadRequest ''Categoria invalida'')
      (res_when (category = JString ''investimento'') investments_elsewhere
      (res_when (frequency \<noteq> JUndefined \<and> \<not> isValidFrequency frequency) (BadRequest ''Frequencia invalida'')
      (res_bind (if_present (js_field body ''name'') (\<lambda>v. parseRequiredText v 100 ''Nome invalido'')) (\<lambda>name.
       res_bind (if_present (js_field body ''amount'') (\<lambda>v. parseAmount v False None)) (\<lambda>amount.
       res_bind (parsePatchNote (js_field body ''notes'') 500) (\<lambda>notes.
       res_bind (parseTagId (js_field body ''customTagId'')) (\<lambda>tag.
       res_bind (checkCardId (js_field body ''cardId'')) (\<lambda>cardId.
       Inr \<lparr>ux_name = name, ux_amount = amount,
            ux_category = (if category = JUndefined then None else Some (js_text category)),
            ux_frequency = (if frequency = JUndefined then None else Some (js_text frequency)),
            ux_notes = notes, ux_customTagId = tag, ux_schedule = expense_schedule_body body,
            ux_cardId = cardId, ux_splits = js_field body ''splits''\<rparr>)))))))))"

definition parsePayExpenseBody :: "(string \<times> js) list \<Rightarrow> string res" where
  "parsePayExpenseBody body =
     (case parseMonthKey (js_field body ''month'') of
        None \<Rightarrow> Inl (BadRequest ''Mes de pagamento invalido'') | Some month \<Rightarrow> Inr month)"

lemma parsed_create_expense:
  assumes "parseCreateExpense body = Inr input"
  shows "stored_amount (cx_amount input) \<and> 0 < cx_amount input
    \<and> cx_category input \<notin> {''cofrinho'', ''investimento''} \<and> cx_frequency input \<in> {''mensal'', ''semanal'', ''unica''}"
proof -
  define frequency where "frequency = (if js_nullish (js_field body ''frequency'') then JString ''mensal'' else js_field body ''frequency'')"
  from assms obtain a where a: "parseAmount (js_field body ''amount'') False None = Inr a" "cx_amount input = a"
    and c: "isValidExpenseCategory (js_field body ''category'')" "js_field body ''category'' \<noteq> JString ''cofrinho''"
      "js_field body ''category'' \<noteq> JString ''investimento''" "cx_category input = js_text (js_field body ''category'')"
    and f: "isValidFrequency frequency" "cx_frequency input = js_text frequency"
    unfolding parseCreateExpense_def Let_def res_bind_eq_Inr res_when_eq_Inr frequency_def [symmetric] by auto
  then show ?thesis
    using parsed_amount [OF a(1)] by (auto simp: isValidExpenseCategory_def isValidFrequency_def js_text_def)
qed

lemma parsed_update_expense:
  assumes "parseUpdateExpense body = Inr input"
  shows "(\<forall>a. ux_amount input = Some a \<longrightarrow> stored_amount a \<and> 0 < a) \<and> ux_category input \<noteq> Some ''investimento''
    \<and> (\<forall>f. ux_frequency input = Some f \<longrightarrow> f \<in> {''mensal'', ''semanal'', ''unica''})"
proof -
  from assms have "ux_amount input = None \<or> (\<exists>a. parseAmount (js_field body ''amount'') False None = Inr a \<and> ux_amount input = Some a)"
    and "ux_category input = (if js_field body ''category'' = JUndefined then None else Some (js_text (js_field body ''category'')))"
      "js_field body ''category'' = JUndefined \<or> isValidExpenseCategory (js_field body ''category'')"
      "js_field body ''category'' \<noteq> JString ''investimento''"
    and "ux_frequency input = (if js_field body ''frequency'' = JUndefined then None else Some (js_text (js_field body ''frequency'')))"
      "js_field body ''frequency'' = JUndefined \<or> isValidFrequency (js_field body ''frequency'')"
    unfolding parseUpdateExpense_def Let_def res_bind_eq_Inr res_when_eq_Inr if_present_def
    by (auto split: if_splits simp: res_bind_eq_Inr)
  then show ?thesis
    using parsed_amount by (auto split: if_splits simp: isValidExpenseCategory_def isValidFrequency_def js_text_def)
qed

end
