(* ===== verification/Expenses.thy ===== *)
theory Expenses
  imports Expense_Input
begin

text \<open>
  \<open>backend/src/services/expenses.ts\<close>: creating, editing, voiding and paying expenses. The splits, the
  obligation versions and the payments of an expense are lists in its row. An edit is modelled in
  the order of the code: the terms it asks for (\<open>edit_terms\<close>), the guards of invoiced and paid
  history (\<open>history_guards\<close>), the guard of recorded cash (\<open>cash_guard\<close>), the row it writes
  (\<open>edited_expense\<close>). Sums of cents are computed on the exact values.
\<close>

section \<open>Helpers\<close>

definition expense_not_found :: error where
  "expense_not_found = NotFound ''Despesa nao encontrada''"

definition expense_conflict :: error where
  "expense_conflict = Conflict ''Despesa alterada por outra operacao; atualize e tente novamente''"

definition update_expenses :: "(expense_row \<Rightarrow> bool) \<Rightarrow> (expense_row \<Rightarrow> expense_row) \<Rightarrow> finance_db \<Rightarrow> finance_db" where
  "update_expenses P f db = db\<lparr>db_expenses := map (\<lambda>e. if P e then f e else e) (db_expenses db)\<rparr>"

definition the_ids :: "string option list \<Rightarrow> string list" where
  "the_ids ids = remdups (List.map_filter (\<lambda>i. if truthy i then i else None) ids)"

definition assertAffectedCardsCaughtUp ::
    "decimal_lib \<Rightarrow> tz_offset \<Rightarrow> instant \<Rightarrow> string \<Rightarrow> string option list \<Rightarrow> finance_db \<Rightarrow> unit res" where
  "assertAffectedCardsCaughtUp D sp now userId cardIds db =
     (let ids = the_ids cardIds;
          cards = filter (\<lambda>c. cr_userId c = userId \<and> bc_id c \<in> set ids \<and> cr_archivedAt c = None) (db_cards db) in
      if ids = [] then Inr ()
      else res_bind (cardsWithUnclosedBilling D sp cards now) (\<lambda>unclosed.
        res_when (unclosed \<noteq> []) (Conflict (''Feche as faturas pendentes do cartao antes de editar ou excluir esta despesa; ''
          @ ''depois tente novamente'')) (Inr ())))"

definition roundCents :: "rat \<Rightarrow> rat" where
  "roundCents v = of_int (round_cents v) / 100"

definition assertOneOffMutationSafe :: "nat \<Rightarrow> rat \<Rightarrow> rat \<Rightarrow> bool \<Rightarrow> bool res" where
  "assertOneOffMutationSafe paymentCount oldCashAmount newCashAmount hasCardSettlement =
     res_when (paymentCount > 0 \<or> oldCashAmount > 0)
       (Conflict ''Despesa com pagamento registrado nao pode alterar valor, frequencia ou forma de pagamento'')
     (res_when hasCardSettlement (Conflict ''Despesa ja faturada nao pode alterar valor ou forma de pagamento'')
     (Inr (newCashAmount > 0)))"

definition isSafeOneOffCashCorrection ::
    "instant option \<Rightarrow> instant option \<Rightarrow> rat \<Rightarrow> rat \<Rightarrow> rat \<Rightarrow> bool \<Rightarrow> bool \<Rightarrow> expense_payment list \<Rightarrow> bool" where
  "isSafeOneOffCashCorrection oldDate newDate oldAmount newAmount cashAmount allPix hasCardComponent payments \<longleftrightarrow>
     (case (oldDate, newDate, payments) of
        (Some old, Some new, [payment]) \<Rightarrow>
          allPix \<and> \<not> hasCardComponent \<and> cashAmount > 0 \<and> newAmount > 0
          \<and> ep_month payment = take 7 (dateKey old) \<and> dateKey (ep_paidAt payment) = dateKey old
          \<and> round_cents (ep_amount payment) = round_cents cashAmount \<and> round_cents oldAmount = round_cents cashAmount
      | _ \<Rightarrow> False)"

definition assertExpenseFrequencyTransitionSafe :: "string \<Rightarrow> string \<Rightarrow> bool \<Rightarrow> unit res" where
  "assertExpenseFrequencyTransitionSafe currentFrequency nextFrequency hasUnprovenCardHistory =
     res_when (currentFrequency = ''unica'' \<and> nextFrequency \<noteq> ''unica'')
       (Conflict ''Para voltar a recorrencia, crie uma nova despesa; o historico anterior nao pode ser reativado'')
     (res_when (currentFrequency \<noteq> ''unica'' \<and> nextFrequency = ''unica'' \<and> hasUnprovenCardHistory)
       (Conflict (''Historico do cartao pode conter fatura recorrente pendente; para registrar uma despesa unica, ''
         @ ''crie uma nova despesa'')) (Inr ()))"

definition requiresVersionedCardProjection :: "bool \<Rightarrow> bool \<Rightarrow> nat \<Rightarrow> string \<Rightarrow> bool" where
  "requiresVersionedCardProjection scheduleChanged recurringVersionChange historicalVersionCount nextFrequency \<longleftrightarrow>
     recurringVersionChange \<or> scheduleChanged \<and> historicalVersionCount > 0 \<and> nextFrequency \<noteq> ''unica''"

definition projectedRecurringEndAt :: "instant option option \<Rightarrow> instant option \<Rightarrow> instant option" where
  "projectedRecurringEndAt nextEndAt existingEndAt = effective nextEndAt existingEndAt"

definition snapshot_of_resolved :: "resolved_split \<Rightarrow> snapshot_split" where
  "snapshot_of_resolved r = \<lparr>ss_kind = rs_kind r, ss_cardId = rs_cardId r, ss_amount = rs_amount r, ss_percent = rs_percent r\<rparr>"

definition cashAmountOf :: "snapshot_split list \<Rightarrow> rat \<Rightarrow> rat" where
  "cashAmountOf splits totalAmount =
     (if splits = [] then totalAmount
      else roundCents (\<Sum>s \<leftarrow> filter (\<lambda>s. ss_kind s = ''pix'') splits. ss_amount s))"

definition existingSplitInputs :: "string option \<Rightarrow> snapshot_split list \<Rightarrow> js list" where
  "existingSplitInputs cardId splits =
     (if splits \<noteq> [] then
        map (\<lambda>s. if ss_kind s = ''pix'' then JObject [(''kind'', JString ''pix''), (''percent'', JNumber (ss_percent s))]
                 else JObject [(''kind'', JString ''card''),
                   (''cardId'', JString (case ss_cardId s of Some c \<Rightarrow> c | None \<Rightarrow> ''null'')),
                   (''percent'', JNumber (ss_percent s))]) splits
      else if truthy cardId then
        [JObject [(''kind'', JString ''card''), (''cardId'', JString (the cardId)), (''percent'', JNumber 100)]]
      else [])"

definition split_text :: "snapshot_split \<Rightarrow> string" where
  "split_text s = ss_kind s @ '':'' @ (case ss_cardId s of Some c \<Rightarrow> c | None \<Rightarrow> []) @ '':'' @ number_text (ss_percent s)
     @ '':'' @ number_text (roundCents (ss_amount s))"

definition comparableSplits :: "snapshot_split list \<Rightarrow> string option \<Rightarrow> rat \<Rightarrow> string" where
  "comparableSplits splits legacyCardId amount =
     (let whole = (if truthy legacyCardId
                   then [\<lparr>ss_kind = ''card'', ss_cardId = legacyCardId, ss_amount = amount, ss_percent = 100\<rparr>]
                   else [\<lparr>ss_kind = ''pix'', ss_cardId = None, ss_amount = amount, ss_percent = 100\<rparr>]) in
      join_with ''|'' (sort (map split_text (if splits \<noteq> [] then splits else whole))))"

definition cashOfPersistedExpense :: "expense_row \<Rightarrow> rat" where
  "cashOfPersistedExpense x =
     (if er_splits x \<noteq> [] then cashAmountOf (er_splits x) (be_amount x)
      else if truthy (be_cardId x) then 0 else be_amount x)"

definition assertUniqueDateNotFuture :: "tz_offset \<Rightarrow> instant \<Rightarrow> instant option \<Rightarrow> unit res" where
  "assertUniqueDateNotFuture sp now date =
     (case date of
        None \<Rightarrow> Inr ()
      | Some d \<Rightarrow> res_bind (todayInSaoPaulo sp now) (\<lambda>today.
          res_when (d > today) (BadRequest ''A data da despesa avulsa nao pode ser futura'') (Inr ())))"

definition listExpenses :: "string \<Rightarrow> finance_db \<Rightarrow> expense_row list" where
  "listExpenses userId db =
     rev (sort_key be_createdAt
       (filter (\<lambda>e. er_userId e = userId \<and> be_archivedAt e = None \<and> er_systemOrigin e = ''manual'') (db_expenses db)))"

section \<open>Creating\<close>

definition custom_tag_category_error :: error where
  "custom_tag_category_error = BadRequest ''Tipos personalizados devem usar category=outro''"

text \<open>A recurrence may not begin in a cycle that was already invoiced.\<close>

definition retroactive_guard ::
    "tz_offset \<Rightarrow> string \<Rightarrow> create_expense_input \<Rightarrow> resolved_schedule \<Rightarrow> resolved_split list \<Rightarrow> finance_db \<Rightarrow> unit res" where
  "retroactive_guard sp userId input schedule resolved db =
     (let cardIds = the_ids (map rs_cardId (filter (\<lambda>s. rs_kind s = ''card'') resolved));
          cards = filter (\<lambda>c. cr_userId c = userId \<and> bc_id c \<in> set cardIds \<and> cr_archivedAt c = None) (db_cards db) in
      if cx_frequency input = ''unica'' \<or> cardIds = [] then Inr ()
      else res_bind (res_some (\<lambda>c. hasRetroactiveClosedCardCharge sp (card_createdAt c) (card_lastInvoicedOn c)
                (cx_frequency input) (cx_amount input) (present (rv_startsAt schedule)) (present (rv_endsAt schedule))
                (present (rv_day schedule))) cards) (\<lambda>late.
        res_when late (Conflict (''Recorrencia retroativa inclui competencia ja faturada; use um ajuste auditavel, ''
          @ ''nao altere fatura fechada'')) (Inr ())))"

definition new_payment :: "(nat \<Rightarrow> string) \<Rightarrow> finance_db \<Rightarrow> string \<Rightarrow> rat \<Rightarrow> instant \<Rightarrow> expense_payment" where
  "new_payment newId db month amount paidAt =
     \<lparr>ep_id = newId (length (concat (map er_payments (db_expenses db)))), ep_month = month, ep_amount = amount, ep_paidAt = paidAt\<rparr>"

definition first_version :: "instant \<Rightarrow> create_expense_input \<Rightarrow> resolved_schedule \<Rightarrow> resolved_split list \<Rightarrow> version_row" where
  "first_version now input schedule resolved = \<lparr>
     vr_sequence = 1,
     vr_effectiveMonth = monthKey_of_date (case present (rv_startsAt schedule) of Some t \<Rightarrow> t | None \<Rightarrow> now),
     vr_amount = cx_amount input, vr_cardId = denormalizedCardId resolved,
     vr_splits = obligationSplitSnapshot (map snapshot_of_resolved resolved)\<rparr>"

definition new_expense_row ::
    "(nat \<Rightarrow> string) \<Rightarrow> instant \<Rightarrow> string \<Rightarrow> create_expense_input \<Rightarrow> resolved_schedule \<Rightarrow> string option \<Rightarrow> resolved_split list
     \<Rightarrow> finance_db \<Rightarrow> expense_row" where
  "new_expense_row newId now userId input schedule tag resolved db =
     (let date = present (rv_date schedule); cash = cashAmountOf (map snapshot_of_resolved resolved) (cx_amount input) in \<lparr>
     be_amount = cx_amount input, be_cardId = denormalizedCardId resolved, be_isInvoice = False,
     be_frequency = cx_frequency input, be_dueDay = present (rv_day schedule), be_startsAt = present (rv_startsAt schedule),
     be_endsAt = present (rv_endsAt schedule), be_occurredAt = date, be_createdAt = now, be_archivedAt = None,
     be_splits = [], be_obligationVersions = [],
     er_id = newId (length (db_expenses db)), er_userId = userId, er_name = cx_name input, er_category = cx_category input,
     er_customTagId = tag, er_paidForMonth = None, er_paidAt = None, er_notes = cx_notes input,
     er_billingPeriodStart = None, er_billingPeriodEnd = None, er_voidedAt = None, er_systemOrigin = ''manual'',
     er_splits = map snapshot_of_resolved resolved,
     er_versions = (if cx_frequency input \<noteq> ''unica'' then [first_version now input schedule resolved] else []),
     er_payments = (case date of
         Some d \<Rightarrow> if cash > 0 then [new_payment newId db (monthKey_of_date d) cash d] else []
       | None \<Rightarrow> []),
     er_updatedAt = now\<rparr>)"

definition createExpense ::
    "decimal_lib \<Rightarrow> tz_offset \<Rightarrow> (nat \<Rightarrow> string) \<Rightarrow> instant \<Rightarrow> string \<Rightarrow> create_expense_input \<Rightarrow> finance_db
     \<Rightarrow> (finance_db \<times> expense_row) res" where
  "createExpense D sp newId now userId input db =
     res_bind (resolveSchedule Expense_Schedule (cx_frequency input) (cx_schedule input) None) (\<lambda>schedule.
     res_bind (assertUniqueDateNotFuture sp now (present (rv_date schedule))) (\<lambda>u.
     res_bind (resolveCustomTagId db userId ''expense'' (cx_customTagId input)) (\<lambda>tag.
     res_when (truthy tag \<and> cx_category input \<noteq> ''outro'') custom_tag_category_error
     (res_bind (resolveAndValidateSplits D sp now userId (cx_amount input) (cx_splits input) (cx_cardId input)
                  (cx_frequency input) None True (billing_db.truncate db)) (\<lambda>resolved.
      res_bind (retroactive_guard sp userId input schedule resolved db) (\<lambda>u.
      let row = new_expense_row newId now userId input schedule tag resolved db in
      Inr (db\<lparr>db_expenses := db_expenses db @ [row]\<rparr>, row)))))))"

section \<open>Editing: the new terms\<close>

definition assertCategoryChangeAllowed :: "string \<Rightarrow> string option \<Rightarrow> unit res" where
  "assertCategoryChangeAllowed current nxt =
     (if nxt \<noteq> Some ''cofrinho'' \<and> current \<noteq> ''cofrinho'' then Inr ()
      else res_when (nxt \<noteq> None \<and> nxt \<noteq> Some ''cofrinho'') (BadRequest ''Despesas de cofrinho nao podem mudar de categoria'')
        (res_when (nxt = Some ''cofrinho'' \<and> current \<noteq> ''cofrinho'')
           (BadRequest ''Depositos no cofrinho sao feitos pela aba Cofrinho'') (Inr ())))"

definition resolveNextSplits ::
    "decimal_lib \<Rightarrow> tz_offset \<Rightarrow> instant \<Rightarrow> string \<Rightarrow> expense_row \<Rightarrow> update_expense_input \<Rightarrow> rat \<Rightarrow> string \<Rightarrow> finance_db
     \<Rightarrow> resolved_split list option res" where
  "resolveNextSplits D sp now userId existing input nextAmount nextFrequency db =
     (let resolve = (\<lambda>splits cardId. res_bind
             (resolveAndValidateSplits D sp now userId nextAmount splits cardId nextFrequency (Some (er_id existing)) True
                (billing_db.truncate db)) (\<lambda>r. Inr (Some r)));
          inputs = existingSplitInputs (be_cardId existing) (er_splits existing);
          affectsCardCommitment = (ux_amount input \<noteq> None \<or> ux_frequency input \<noteq> None
            \<or> sb_startsAt (ux_schedule input) \<noteq> JUndefined \<or> sb_endsAt (ux_schedule input) \<noteq> JUndefined) in
      if ux_splits input \<noteq> JUndefined \<or> ux_cardId input \<noteq> JUndefined then resolve (ux_splits input) (ux_cardId input)
      else if \<not> affectsCardCommitment \<or> inputs = [] then Inr None
      else resolve (JArray inputs) JUndefined)"

text \<open>What an edit asks for; \<open>None\<close> for the splits leaves splits and card as they are.\<close>

record expense_edit =
  xe_tag :: "string option option"
  xe_amount :: rat
  xe_frequency :: string
  xe_schedule :: resolved_schedule
  xe_occurredAt :: "instant option"
  xe_splits :: "resolved_split list option"

definition existing_of_expense :: "expense_row \<Rightarrow> existing_schedule" where
  "existing_of_expense x = \<lparr>xs_day = be_dueDay x, xs_startsAt = be_startsAt x, xs_endsAt = be_endsAt x, xs_date = be_occurredAt x\<rparr>"

definition edit_terms ::
    "decimal_lib \<Rightarrow> tz_offset \<Rightarrow> instant \<Rightarrow> string \<Rightarrow> expense_row \<Rightarrow> update_expense_input \<Rightarrow> finance_db \<Rightarrow> expense_edit res" where
  "edit_terms D sp now userId x input db =
     res_bind (assertCategoryChangeAllowed (er_category x) (ux_category input)) (\<lambda>u.
     res_bind (case ux_customTagId input of
                 None \<Rightarrow> Inr None
               | Some t \<Rightarrow> res_bind (resolveCustomTagId db userId ''expense'' t) (\<lambda>r. Inr (Some r))) (\<lambda>tag.
     let nextFrequency = or_keep (ux_frequency input) (be_frequency x); nextAmount = or_keep (ux_amount input) (be_amount x) in
     res_bind (assertExpenseFrequencyTransitionSafe (be_frequency x) nextFrequency False) (\<lambda>u.
     res_when (truthy (or_keep tag (er_customTagId x)) \<and> or_keep (ux_category input) (er_category x) \<noteq> ''outro'')
       custom_tag_category_error
     (res_bind (resolveSchedule Expense_Schedule nextFrequency (ux_schedule input) (Some (existing_of_expense x))) (\<lambda>schedule.
      let occurredAt = (if nextFrequency = ''unica''
                        then (case present (rv_date schedule) of Some d \<Rightarrow> Some d | None \<Rightarrow> be_occurredAt x) else None) in
      res_bind (assertUniqueDateNotFuture sp now occurredAt) (\<lambda>u.
      res_bind (resolveNextSplits D sp now userId x input nextAmount nextFrequency db) (\<lambda>splits.
      Inr \<lparr>xe_tag = tag, xe_amount = nextAmount, xe_frequency = nextFrequency, xe_schedule = schedule,
           xe_occurredAt = occurredAt, xe_splits = splits\<rparr>)))))))"

section \<open>Editing: the guards\<close>

definition keep_opt :: "'a option \<Rightarrow> 'a option \<Rightarrow> 'a option" where
  "keep_opt v old = (case v of Some x \<Rightarrow> Some x | None \<Rightarrow> old)"

definition next_splits :: "expense_edit \<Rightarrow> snapshot_split list option" where
  "next_splits t = map_option (map snapshot_of_resolved) (xe_splits t)"

definition revisedSplits :: "expense_row \<Rightarrow> expense_edit \<Rightarrow> snapshot_split list" where
  "revisedSplits x t = or_keep (next_splits t) (er_splits x)"

definition next_cardId :: "expense_row \<Rightarrow> expense_edit \<Rightarrow> string option" where
  "next_cardId x t = (case xe_splits t of Some r \<Rightarrow> denormalizedCardId r | None \<Rightarrow> be_cardId x)"

definition oneOffDateChanged :: "expense_row \<Rightarrow> update_expense_input \<Rightarrow> expense_edit \<Rightarrow> bool" where
  "oneOffDateChanged x input t \<longleftrightarrow> be_frequency x = ''unica'' \<and> xe_frequency t = ''unica''
     \<and> sb_date (ux_schedule input) \<noteq> JUndefined
     \<and> map_option dateKey (xe_occurredAt t) \<noteq> map_option dateKey (be_occurredAt x)"

definition financialChange :: "expense_row \<Rightarrow> expense_edit \<Rightarrow> bool" where
  "financialChange x t \<longleftrightarrow> xe_amount t \<noteq> be_amount x
     \<or> (xe_splits t \<noteq> None \<and> comparableSplits (revisedSplits x t) (be_cardId x) (xe_amount t)
          \<noteq> comparableSplits (er_splits x) (be_cardId x) (be_amount x))"

definition safeCashCorrection :: "expense_row \<Rightarrow> update_expense_input \<Rightarrow> expense_edit \<Rightarrow> bool" where
  "safeCashCorrection x input t \<longleftrightarrow> be_frequency x = ''unica'' \<and> xe_frequency t = ''unica''
     \<and> (oneOffDateChanged x input t \<or> financialChange x t)
     \<and> isSafeOneOffCashCorrection (be_occurredAt x) (xe_occurredAt t) (be_amount x) (xe_amount t)
         (cashOfPersistedExpense x) (list_all (\<lambda>s. ss_kind s = ''pix'') (er_splits x)
            \<and> list_all (\<lambda>s. ss_kind s = ''pix'') (revisedSplits x t))
         (truthy (be_cardId x) \<or> list_ex (\<lambda>s. ss_kind s = ''card'') (er_splits x)) (er_payments x)"

definition recurringVersionChange :: "expense_row \<Rightarrow> expense_edit \<Rightarrow> bool" where
  "recurringVersionChange x t \<longleftrightarrow> financialChange x t \<and> be_frequency x \<noteq> ''unica'' \<and> xe_frequency t \<noteq> ''unica''"

definition day_changed :: "instant option option \<Rightarrow> instant option \<Rightarrow> bool" where
  "day_changed sent stored \<longleftrightarrow> (case sent of None \<Rightarrow> False | Some v \<Rightarrow> map_option dateKey v \<noteq> map_option dateKey stored)"

definition oldScheduleChanged :: "expense_row \<Rightarrow> expense_edit \<Rightarrow> bool" where
  "oldScheduleChanged x t \<longleftrightarrow> be_frequency x \<noteq> ''unica''
     \<and> (xe_frequency t \<noteq> be_frequency x
        \<or> (rv_day (xe_schedule t) \<noteq> None \<and> rv_day (xe_schedule t) \<noteq> Some (be_dueDay x))
        \<or> day_changed (rv_startsAt (xe_schedule t)) (be_startsAt x)
        \<or> day_changed (rv_endsAt (xe_schedule t)) (be_endsAt x))"

definition oldVersions :: "expense_row \<Rightarrow> expense_edit \<Rightarrow> version_row list" where
  "oldVersions x t =
     (if recurringVersionChange x t \<or> oldScheduleChanged x t then sort_key vr_sequence (er_versions x) else [])"

text \<open>The cards that the versions of an expense name.\<close>

definition version_cards :: "obligation_version list \<Rightarrow> string option list" where
  "version_cards versions = concat (map (\<lambda>v. ov_cardId v
     # map bs_cardId (filter (\<lambda>s. bs_kind s = ''card'') (ov_splits v))) versions)"

definition names_card :: "obligation_version \<Rightarrow> bool" where
  "names_card v \<longleftrightarrow> truthy (ov_cardId v) \<or> list_ex (\<lambda>s. bs_kind s = ''card'') (ov_splits v)"

text \<open>The guards of paid and scheduled history; the result is the list of cards of older terms.\<close>

definition paid_history_guards ::
    "string \<Rightarrow> expense_row \<Rightarrow> update_expense_input \<Rightarrow> expense_edit \<Rightarrow> string option list res" where
  "paid_history_guards effectiveMonth x input t =
     res_when (oneOffDateChanged x input t \<and> er_payments x \<noteq> [] \<and> \<not> safeCashCorrection x input t)
       (Conflict (''A data esta vinculada a pagamento ou cartao consolidado; ''
         @ ''apenas despesas PIX avulsas podem ser corrigidas''))
     (res_when (be_frequency x \<noteq> ''unica'' \<and> xe_frequency t \<noteq> ''unica''
         \<and> scheduleMovesEarlier (be_startsAt x) (present (rv_startsAt (xe_schedule t))))
       (Conflict (''Nao e possivel antecipar o inicio de uma despesa recorrente; ''
         @ ''crie um ajuste auditavel para competencias anteriores''))
     (res_when (oldScheduleChanged x t \<and> er_payments x \<noteq> [])
       (Conflict ''Despesa com pagamento registrado nao pode alterar recorrencia ou agenda'')
     (res_bind (if be_frequency x \<noteq> ''unica'' \<and> xe_frequency t = ''unica'' then
           res_bind (parseObligationVersions (oldVersions x t)) (\<lambda>historical.
           assertExpenseFrequencyTransitionSafe (be_frequency x) (xe_frequency t)
             (oldVersions x t = [] \<or> truthy (be_cardId x) \<or> list_ex (\<lambda>s. ss_kind s = ''card'') (er_splits x)
              \<or> list_ex names_card historical))
         else Inr ()) (\<lambda>u.
      res_bind (if oldScheduleChanged x t then
           res_bind (parseObligationVersions (oldVersions x t)) (\<lambda>versions. Inr (version_cards versions))
         else Inr []) (\<lambda>priorCardIds.
      res_when (recurringVersionChange x t \<and> list_ex (\<lambda>p. ep_month p \<ge> effectiveMonth) (er_payments x))
        (Conflict ''Despesa ja paga nesta competencia nao pode alterar valor ou forma de pagamento'')
      (Inr priorCardIds))))))"

definition changesSchedule :: "update_expense_input \<Rightarrow> bool" where
  "changesSchedule input \<longleftrightarrow> ux_frequency input \<noteq> None \<or> sb_day (ux_schedule input) \<noteq> JUndefined
     \<or> sb_startsAt (ux_schedule input) \<noteq> JUndefined \<or> sb_endsAt (ux_schedule input) \<noteq> JUndefined
     \<or> sb_date (ux_schedule input) \<noteq> JUndefined"

definition changesCardHistory :: "update_expense_input \<Rightarrow> bool" where
  "changesCardHistory input \<longleftrightarrow> ux_amount input \<noteq> None \<or> ux_cardId input \<noteq> JUndefined
     \<or> ux_splits input \<noteq> JUndefined \<or> changesSchedule input"

definition affected_cards :: "expense_row \<Rightarrow> expense_edit \<Rightarrow> string option list" where
  "affected_cards x t = be_cardId x # map ss_cardId (er_splits x) @ map ss_cardId (or_keep (next_splits t) [])"

text \<open>The expense as the billing projects it, before and after the edit.\<close>

definition previousVersions :: "tz_offset \<Rightarrow> expense_row \<Rightarrow> expense_edit \<Rightarrow> obligation_version list res" where
  "previousVersions sp x t =
     (if oldVersions x t \<noteq> [] then parseObligationVersions (oldVersions x t)
      else Inr [\<lparr>ov_sequence = 1, ov_effectiveMonth = legacyBaselineMonth sp (be_startsAt x) (be_createdAt x),
                 ov_amount = be_amount x, ov_cardId = be_cardId x,
                 ov_splits = map billable_of_snapshot (er_splits x)\<rparr>])"

definition next_sequence :: "expense_row \<Rightarrow> expense_edit \<Rightarrow> int" where
  "next_sequence x t = (if oldVersions x t \<noteq> [] then vr_sequence (last (oldVersions x t)) + 1 else 2)"

definition with_history :: "expense_row \<Rightarrow> obligation_version list \<Rightarrow> billable_expense" where
  "with_history x versions = billable_expense.truncate
     (x\<lparr>be_splits := map billable_of_snapshot (er_splits x), be_obligationVersions := versions\<rparr>)"

definition projectedExpense :: "string \<Rightarrow> expense_row \<Rightarrow> expense_edit \<Rightarrow> obligation_version list \<Rightarrow> billable_expense" where
  "projectedExpense effectiveMonth x t previous =
     (let s = xe_schedule t; proposedSplits = map billable_of_snapshot (revisedSplits x t) in
      (with_history x (previous @ (if recurringVersionChange x t
          then [\<lparr>ov_sequence = next_sequence x t, ov_effectiveMonth = effectiveMonth, ov_amount = xe_amount t,
                 ov_cardId = next_cardId x t, ov_splits = proposedSplits\<rparr>] else [])))
        \<lparr>be_amount := xe_amount t, be_cardId := next_cardId x t, be_splits := proposedSplits,
         be_frequency := xe_frequency t, be_dueDay := keep_opt (present (rv_day s)) (be_dueDay x),
         be_startsAt := keep_opt (present (rv_startsAt s)) (be_startsAt x),
         be_endsAt := projectedRecurringEndAt (rv_endsAt s) (be_endsAt x)\<rparr>)"

definition as_invoiced_card :: "card_row \<Rightarrow> invoiced_card" where
  "as_invoiced_card c = \<lparr>ic_id = bc_id c, ic_lastInvoicedOn = card_lastInvoicedOn c, ic_createdAt = Some (card_createdAt c)\<rparr>"

definition split_error_as_conflict :: "'a res \<Rightarrow> 'a res" where
  "split_error_as_conflict r =
     (case r of Inl (DomainError c m) \<Rightarrow> if c = ''EXPENSE_SPLIT_INVALID'' then Inl (Conflict m) else r | _ \<Rightarrow> r)"

definition projection_guard ::
    "decimal_lib \<Rightarrow> tz_offset \<Rightarrow> instant \<Rightarrow> string \<Rightarrow> string \<Rightarrow> expense_row \<Rightarrow> expense_edit \<Rightarrow> finance_db \<Rightarrow> unit res" where
  "projection_guard D sp now userId effectiveMonth x t db =
     (let needsVersionedProjection = requiresVersionedCardProjection (oldScheduleChanged x t) (recurringVersionChange x t)
            (length (oldVersions x t)) (xe_frequency t);
          allCards = filter (\<lambda>c. cr_userId c = userId) (db_cards db) in
      if be_frequency x = ''unica'' \<or> xe_frequency t = ''unica''
         \<or> \<not> (oldScheduleChanged x t \<or> recurringVersionChange x t) then Inr ()
      else
        res_bind (previousVersions sp x t) (\<lambda>previous.
        let projected = projectedExpense effectiveMonth x t previous in
        res_bind (if needsVersionedProjection
                  then getCommittedByCard D sp userId (Some (er_id x)) now (billing_db.truncate db)
                  else Inr Map.empty) (\<lambda>otherCommittedByCard.
        res_bind (hasSettledRecurringMutation D sp
            (with_history x (if oldVersions x t \<noteq> [] then previous else []))
            projected (map as_invoiced_card allCards) effectiveMonth) (\<lambda>settled.
        res_when settled
          (Conflict (''Alteracao de cartao ou agenda afetaria cobrancas ja faturadas; ''
            @ ''crie uma nova recorrencia para os proximos vencimentos''))
        (if needsVersionedProjection
         then split_error_as_conflict (assertProspectiveVersionedCardLimits D sp
                (filter (\<lambda>c. cr_archivedAt c = None) allCards) otherCommittedByCard projected now)
         else Inr ())))))"

definition history_guards ::
    "decimal_lib \<Rightarrow> tz_offset \<Rightarrow> instant \<Rightarrow> string \<Rightarrow> expense_row \<Rightarrow> update_expense_input \<Rightarrow> expense_edit \<Rightarrow> finance_db
     \<Rightarrow> unit res" where
  "history_guards D sp now userId x input t db =
     (let effectiveMonth = take 7 (todayKeyInSaoPaulo sp now) in
      res_bind (paid_history_guards effectiveMonth x input t) (\<lambda>priorCardIds.
      res_bind (if changesCardHistory input
                   \<and> (\<not> recurringVersionChange x t \<or> changesSchedule input \<or> oldVersions x t = [])
                then assertAffectedCardsCaughtUp D sp now userId (affected_cards x t @ priorCardIds) db
                else Inr ()) (\<lambda>u.
      projection_guard D sp now userId effectiveMonth x t db)))"

text \<open>Whether an invoice of a card may hold a charge of the one-off.\<close>

definition one_off_settled :: "expense_row \<Rightarrow> expense_edit \<Rightarrow> card_row \<Rightarrow> bool" where
  "one_off_settled x t crd =
     (case card_lastInvoicedOn crd of
        None \<Rightarrow> False
      | Some invoiced \<Rightarrow>
          (let earliest = (if be_frequency x = ''unica'' then or_keep (be_occurredAt x) (be_createdAt x)
                           else or_keep (be_startsAt x) (be_createdAt x));
               nextStart = (if xe_frequency t = ''unica'' then None
                 else Some (or_keep (keep_opt (present (rv_startsAt (xe_schedule t))) (be_startsAt x)) (be_createdAt x)));
               reaches = (\<lambda>d. dateKey invoiced \<ge> dateKey d) in
           be_frequency x \<noteq> ''unica'' \<and> reaches earliest
           \<or> (case nextStart of Some s \<Rightarrow> reaches s | None \<Rightarrow> False)
           \<or> (case bc_lastBillingProcessedAt crd of None \<Rightarrow> True | Some p \<Rightarrow> p \<ge> be_createdAt x)
             \<and> (reaches earliest \<or> (case xe_occurredAt t of Some d \<Rightarrow> reaches d | None \<Rightarrow> False))))"

definition oneOffChange :: "expense_row \<Rightarrow> expense_edit \<Rightarrow> bool" where
  "oneOffChange x t \<longleftrightarrow> xe_amount t \<noteq> be_amount x \<or> xe_frequency t \<noteq> be_frequency x
     \<or> map_option dateKey (xe_occurredAt t) \<noteq> map_option dateKey (be_occurredAt x)
     \<or> (case next_splits t of
          None \<Rightarrow> False
        | Some splits \<Rightarrow> comparableSplits splits None (xe_amount t) \<noteq> comparableSplits (er_splits x) (be_cardId x) (be_amount x))"

definition new_cash :: "expense_row \<Rightarrow> expense_edit \<Rightarrow> rat" where
  "new_cash x t =
     (case next_splits t of
        Some splits \<Rightarrow> cashAmountOf splits (xe_amount t)
      | None \<Rightarrow> if truthy (be_cardId x) \<and> er_splits x = [] then 0
                else if er_splits x \<noteq> [] then cashOfPersistedExpense x else xe_amount t)"

text \<open>The guard of recorded cash; the result says whether new cash is to be recorded.\<close>

definition cash_guard :: "string \<Rightarrow> expense_row \<Rightarrow> update_expense_input \<Rightarrow> expense_edit \<Rightarrow> finance_db \<Rightarrow> bool res" where
  "cash_guard userId x input t db =
     (if (be_frequency x = ''unica'' \<or> xe_frequency t = ''unica'') \<and> oneOffChange x t \<and> \<not> safeCashCorrection x input t then
        assertOneOffMutationSafe (length (er_payments x))
          (if be_frequency x = ''unica'' then cashOfPersistedExpense x else 0) (new_cash x t)
          (list_ex (one_off_settled x t)
             (filter (\<lambda>c. cr_userId c = userId \<and> bc_id c \<in> set (the_ids (affected_cards x t))) (db_cards db)))
      else Inr False)"

section \<open>Editing: the row it writes\<close>

definition revised_versions :: "tz_offset \<Rightarrow> string \<Rightarrow> expense_row \<Rightarrow> expense_edit \<Rightarrow> version_row list" where
  "revised_versions sp effectiveMonth x t =
     (if recurringVersionChange x t then
        (if oldVersions x t = [] then
           [\<lparr>vr_sequence = 1, vr_effectiveMonth = legacyBaselineMonth sp (be_startsAt x) (be_createdAt x),
             vr_amount = be_amount x, vr_cardId = be_cardId x, vr_splits = obligationSplitSnapshot (er_splits x)\<rparr>]
         else [])
        @ [\<lparr>vr_sequence = next_sequence x t, vr_effectiveMonth = effectiveMonth, vr_amount = xe_amount t,
            vr_cardId = next_cardId x t, vr_splits = obligationSplitSnapshot (revisedSplits x t)\<rparr>]
      else [])"

text \<open>A safe correction moves the only payment; new cash of a one-off is recorded on its date.\<close>

definition revised_payments ::
    "(nat \<Rightarrow> string) \<Rightarrow> bool \<Rightarrow> expense_row \<Rightarrow> update_expense_input \<Rightarrow> expense_edit \<Rightarrow> finance_db \<Rightarrow> expense_payment list" where
  "revised_payments newId recordNewOneOffCash x input t db =
     (case xe_occurredAt t of
        None \<Rightarrow> er_payments x
      | Some d \<Rightarrow>
          (let cash = cashAmountOf (or_keep (next_splits t) []) (xe_amount t); month = monthKey_of_date d;
               kept = (if safeCashCorrection x input t
                       then map (\<lambda>p. p\<lparr>ep_month := take 7 (dateKey d), ep_paidAt := d, ep_amount := xe_amount t\<rparr>) (er_payments x)
                       else er_payments x) in
           if be_frequency x = ''unica''
           then kept @ (if recordNewOneOffCash then [new_payment newId db month cash d] else [])
           else kept @ (if xe_frequency t = ''unica'' \<and> cash > 0 \<and> \<not> list_ex (\<lambda>p. ep_month p = month) (er_payments x)
                        then [new_payment newId db month cash d] else [])))"

definition edited_expense ::
    "tz_offset \<Rightarrow> (nat \<Rightarrow> string) \<Rightarrow> instant \<Rightarrow> bool \<Rightarrow> expense_row \<Rightarrow> update_expense_input \<Rightarrow> expense_edit \<Rightarrow> finance_db
     \<Rightarrow> expense_row" where
  "edited_expense sp newId now recordNewOneOffCash x input t db =
     (let s = xe_schedule t in
      x\<lparr>er_name := or_keep (ux_name input) (er_name x), be_amount := or_keep (ux_amount input) (be_amount x),
        er_category := or_keep (ux_category input) (er_category x),
        be_frequency := or_keep (ux_frequency input) (be_frequency x),
        be_occurredAt := xe_occurredAt t, be_cardId := next_cardId x t,
        be_dueDay := effective (rv_day s) (be_dueDay x), be_startsAt := effective (rv_startsAt s) (be_startsAt x),
        be_endsAt := effective (rv_endsAt s) (be_endsAt x), er_notes := or_keep (ux_notes input) (er_notes x),
        er_customTagId := or_keep (xe_tag t) (er_customTagId x), er_splits := revisedSplits x t,
        er_versions := er_versions x @ revised_versions sp (take 7 (todayKeyInSaoPaulo sp now)) x t,
        er_payments := revised_payments newId recordNewOneOffCash x input t db, er_updatedAt := now\<rparr>)"

definition updateExpense ::
    "decimal_lib \<Rightarrow> tz_offset \<Rightarrow> (nat \<Rightarrow> string) \<Rightarrow> instant \<Rightarrow> string \<Rightarrow> string \<Rightarrow> update_expense_input \<Rightarrow> finance_db
     \<Rightarrow> (finance_db \<times> expense_row) res" where
  "updateExpense D sp newId now userId expenseId input db =
     (case find (\<lambda>e. er_id e = expenseId \<and> er_userId e = userId) (db_expenses db) of
        None \<Rightarrow> Inl expense_not_found
      | Some x \<Rightarrow>
          res_when (be_archivedAt x \<noteq> None) expense_not_found
          (res_when (er_systemOrigin x \<noteq> ''manual'')
             (BadRequest ''Movimentacoes de cofrinho ou ativos nao podem ser editadas aqui'')
          (res_when (be_isInvoice x)
             (BadRequest ''Faturas preservam o valor calculado do ciclo e nao podem ser editadas'')
          (res_bind (edit_terms D sp now userId x input db) (\<lambda>t.
           res_bind (history_guards D sp now userId x input t db) (\<lambda>u.
           res_bind (cash_guard userId x input t db) (\<lambda>recordNewOneOffCash.
           let guard = (\<lambda>e. er_id e = expenseId \<and> er_userId e = userId \<and> er_updatedAt e = er_updatedAt x);
               row = edited_expense sp newId now recordNewOneOffCash x input t db in
           res_when (filter guard (db_expenses db) = []) expense_conflict
           (Inr (update_expenses guard (\<lambda>e. row) db, row)))))))))"

section \<open>Voiding\<close>

definition json_card_split :: "js \<Rightarrow> bool" where
  "json_card_split v = (case v of JObject split \<Rightarrow> js_field split ''kind'' = JString ''card'' | _ \<Rightarrow> False)"

definition version_row_names_card :: "version_row \<Rightarrow> bool" where
  "version_row_names_card v \<longleftrightarrow> truthy (vr_cardId v)
     \<or> (case vr_splits v of JArray items \<Rightarrow> list_ex json_card_split items | _ \<Rightarrow> False)"

definition linked_to_card :: "expense_row \<Rightarrow> bool" where
  "linked_to_card x \<longleftrightarrow> truthy (be_cardId x) \<or> list_ex (\<lambda>s. ss_kind s = ''card'') (er_splits x)
     \<or> list_ex version_row_names_card (er_versions x)"

definition archiveExpense ::
    "decimal_lib \<Rightarrow> tz_offset \<Rightarrow> instant \<Rightarrow> string \<Rightarrow> string \<Rightarrow> finance_db \<Rightarrow> finance_db res" where
  "archiveExpense D sp now userId expenseId db =
     (case find (\<lambda>e. er_id e = expenseId \<and> er_userId e = userId \<and> be_archivedAt e = None) (db_expenses db) of
        None \<Rightarrow> Inl expense_not_found
      | Some x \<Rightarrow>
          res_when (er_systemOrigin x \<noteq> ''manual'')
            (BadRequest ''Movimentacoes de cofrinho ou ativos nao podem ser excluidas aqui'')
          (res_when (be_isInvoice x)
            (BadRequest ''Faturas preservam o historico do ciclo e nao podem ser excluidas'')
          (res_bind (parseObligationVersions (er_versions x)) (\<lambda>versions.
           res_bind (assertAffectedCardsCaughtUp D sp now userId
               (be_cardId x # map ss_cardId (er_splits x) @ version_cards versions) db) (\<lambda>u.
           res_when (linked_to_card x)
             (Conflict (''Despesa vinculada a cartao ou fatura nao pode ser anulada; ''
               @ ''ajuste pela fatura correspondente''))
           (let guard = (\<lambda>e. er_id e = expenseId \<and> er_userId e = userId \<and> be_archivedAt e = None
                  \<and> er_voidedAt e = None \<and> er_updatedAt e = er_updatedAt x) in
            res_when (length (filter guard (db_expenses db)) \<noteq> 1) expense_conflict
            (Inr (update_expenses guard
               (\<lambda>e. e\<lparr>be_archivedAt := Some now, er_voidedAt := Some now, er_updatedAt := now\<rparr>) db))))))))"

section \<open>Paying\<close>

definition payable_cash :: "expense_row \<Rightarrow> rat" where
  "payable_cash x =
     (if be_isInvoice x then be_amount x
      else if er_splits x \<noteq> [] then cashAmountOf (er_splits x) (be_amount x)
      else if truthy (be_cardId x) then 0 else be_amount x)"

definition payment_guards :: "expense_row \<Rightarrow> string \<Rightarrow> unit res" where
  "payment_guards x month =
     res_bind (if be_isInvoice x then
         (case keep_opt (er_billingPeriodEnd x) (be_occurredAt x) of
            Some periodEnd \<Rightarrow> res_when (month \<noteq> monthKey_of_date periodEnd)
              (BadRequest ''O mes de pagamento deve corresponder ao ciclo da fatura'') (Inr ())
          | None \<Rightarrow> Inl (BadRequest ''O mes de pagamento deve corresponder ao ciclo da fatura''))
       else res_when (be_frequency x \<noteq> ''mensal'')
         (BadRequest ''Pagamento antecipado e permitido apenas para despesas fixas mensais'') (Inr ())) (\<lambda>u.
     res_when (payable_cash x \<le> 0)
       (BadRequest (if be_isInvoice x then ''Valor da fatura invalido''
                    else ''Despesas somente no cartao entram no saldo pela fatura''))
     (if be_isInvoice x then Inr ()
      else case service_monthBounds month of (start, end) \<Rightarrow>
        res_when (case be_startsAt x of Some s \<Rightarrow> s > end | None \<Rightarrow> False)
          (BadRequest ''Essa despesa ainda nao comecou no mes selecionado'')
        (res_when (case be_endsAt x of Some e \<Rightarrow> e < start | None \<Rightarrow> False)
          (BadRequest ''Essa despesa ja terminou antes do mes selecionado'') (Inr ()))))"

text \<open>The payment of a month: the stored one, or a new one.\<close>

definition payment_of_month :: "(nat \<Rightarrow> string) \<Rightarrow> instant \<Rightarrow> expense_row \<Rightarrow> string \<Rightarrow> finance_db \<Rightarrow> expense_payment" where
  "payment_of_month newId now x month db =
     (case find (\<lambda>p. ep_month p = month) (er_payments x) of
        Some p \<Rightarrow> p
      | None \<Rightarrow> new_payment newId db month (payable_cash x)
          (case (er_paidForMonth x = Some month, er_paidAt x) of (True, Some t) \<Rightarrow> t | _ \<Rightarrow> now))"

definition paid_expense :: "(nat \<Rightarrow> string) \<Rightarrow> instant \<Rightarrow> expense_row \<Rightarrow> string \<Rightarrow> finance_db \<Rightarrow> expense_row" where
  "paid_expense newId now x month db =
     (let payment = payment_of_month newId now x month db;
          x' = (if list_ex (\<lambda>p. ep_month p = month) (er_payments x) then x
                else x\<lparr>er_payments := er_payments x @ [payment]\<rparr>) in
      if er_paidForMonth x \<noteq> Some month
      then x'\<lparr>er_paidForMonth := Some month, er_paidAt := Some (ep_paidAt payment), er_updatedAt := now\<rparr>
      else x')"

definition payExpense ::
    "(nat \<Rightarrow> string) \<Rightarrow> instant \<Rightarrow> string \<Rightarrow> string \<Rightarrow> string \<Rightarrow> finance_db \<Rightarrow> (finance_db \<times> expense_row) res" where
  "payExpense newId now userId expenseId month db =
     (case find (\<lambda>e. er_id e = expenseId \<and> er_userId e = userId \<and> be_archivedAt e = None
                     \<and> er_systemOrigin e = ''manual'') (db_expenses db) of
        None \<Rightarrow> Inl expense_not_found
      | Some x \<Rightarrow>
          res_bind (payment_guards x month) (\<lambda>u.
          let row = paid_expense newId now x month db in
          Inr (update_expenses (\<lambda>e. er_id e = expenseId) (\<lambda>e. row) db, row)))"

end
