(* ===== verification/Cards.thy ===== *)
theory Cards
  imports Expenses
begin

text \<open>
  \<open>backend/src/services/cards.ts\<close> and \<open>parseCardExpiry\<close> of \<open>http/parsers.ts\<close>: creating, editing and
  archiving cards. A new closing day is kept pending for the planner; archiving a card bills its open
  cycle first. The sum of the three amounts of the final invoice is exact.
\<close>

section \<open>parseCardExpiry\<close>

definition invalid_expiry :: error where
  "invalid_expiry = BadRequest ''Validade invalida''"

definition end_of_day_ms :: int where
  "end_of_day_ms = 26 * 3600000 + 59 * 60000 + 59 * 1000 + 999"

fun two_digits :: "string \<Rightarrow> (int \<times> string) option" where
  "two_digits (a # b # rest) = (if is_digit a \<and> is_digit b then Some (digits_val [a, b], rest) else None)"
| "two_digits _ = None"

text \<open>Two digits after a separator.\<close>

definition next_two :: "char \<Rightarrow> string \<Rightarrow> (int \<times> string) option" where
  "next_two c s = (case s of x # rest \<Rightarrow> if x = c then two_digits rest else None | [] \<Rightarrow> None)"

text \<open>\<open>(?::\d{2}(?:\.\d{1,9})?)?\<close>: milliseconds after the minute; digits after the third are dropped.\<close>

definition iso_seconds :: "string \<Rightarrow> (int \<times> string) option" where
  "iso_seconds s =
     (case s of
        CHR '':'' # rest \<Rightarrow>
          (case two_digits rest of
             None \<Rightarrow> None
           | Some (sec, others) \<Rightarrow>
               (case others of
                  CHR ''.'' # fraction \<Rightarrow>
                    (let ds = takeWhile is_digit fraction in
                     if ds = [] \<or> length ds > 9 \<or> sec > 59 then None
                     else Some (sec * 1000 + digits_val (take 3 (ds @ ''00'')), dropWhile is_digit fraction))
                | _ \<Rightarrow> if sec > 59 then None else Some (sec * 1000, others)))
      | _ \<Rightarrow> Some (0, s))"

text \<open>\<open>(?:Z|[+-]\d{2}:\d{2})$\<close>: the minutes to subtract.\<close>

definition iso_zone :: "string \<Rightarrow> int option" where
  "iso_zone s =
     (if s = ''Z'' then Some 0
      else case s of
        sign # rest \<Rightarrow>
          (case two_digits rest of
             None \<Rightarrow> None
           | Some (h, others) \<Rightarrow>
               (case next_two (CHR '':'') others of
                  Some (m, []) \<Rightarrow>
                    (if h > 23 \<or> m > 59 then None
                     else if sign = CHR ''+'' then Some (h * 60 + m)
                     else if sign = CHR ''-'' then Some (- (h * 60 + m)) else None)
                | _ \<Rightarrow> None))
      | [] \<Rightarrow> None)"

text \<open>
  The instant of a text of the form of \<open>ISO_DATETIME\<close> on a calendar day, by the grammar of
  ECMAScript's date-time strings (hour 24 only at midnight).
\<close>

definition iso_datetime :: "string \<Rightarrow> instant option" where
  "iso_datetime s =
     (case parseIsoDate (JString (take 10 s)) of
        None \<Rightarrow> None
      | Some midnight \<Rightarrow>
          (case next_two (CHR ''T'') (drop 10 s) of
             None \<Rightarrow> None
           | Some (h, afterHour) \<Rightarrow>
               (case next_two (CHR '':'') afterHour of
                  None \<Rightarrow> None
                | Some (m, afterMinute) \<Rightarrow>
                    (case iso_seconds afterMinute of
                       None \<Rightarrow> None
                     | Some (ms, zone) \<Rightarrow>
                         (case iso_zone zone of
                            None \<Rightarrow> None
                          | Some offset \<Rightarrow>
                              if h > 24 \<or> m > 59 \<or> h = 24 \<and> (m > 0 \<or> ms > 0) then None
                              else Some (midnight + h * 3600000 + m * 60000 + ms - offset * 60000))))))"

definition parseCardExpiry :: "js \<Rightarrow> instant option option res" where
  "parseCardExpiry value =
     (if value = JUndefined then Inr None
      else if value = JNull \<or> value = JString [] then Inr (Some None)
      else case value of
        JString s \<Rightarrow>
          (case parseIsoDate value of
             Some dateOnly \<Rightarrow> Inr (Some (Some (dateOnly + end_of_day_ms)))
           | None \<Rightarrow> (case iso_datetime s of Some t \<Rightarrow> Inr (Some (Some t)) | None \<Rightarrow> Inl invalid_expiry))
      | _ \<Rightarrow> Inl invalid_expiry)"

section \<open>Requests\<close>

record create_card_input =
  cc_name :: string
  cc_limit :: "rat option"
  cc_closingDay :: int
  cc_expiresAt :: "instant option"

record update_card_input =
  uc_name :: "string option"
  uc_limit :: "rat option option"
  uc_closingDay :: "int option"
  uc_expiresAt :: "instant option option"

definition card_not_found :: error where
  "card_not_found = NotFound ''Cartao nao encontrado''"

definition closing_day_invalid :: string where
  "closing_day_invalid = ''Fechamento invalido. Use um dia entre 01 e 31''"

definition closing_day_required :: error where
  "closing_day_required = BadRequest ''Informe o dia de fechamento do cartao (01-31)''"

definition parseLimit :: "js \<Rightarrow> rat option option res" where
  "parseLimit value =
     (case parseOptionalCardLimit value of
        (v, Some message) \<Rightarrow> Inl (BadRequest message)
      | (v, None) \<Rightarrow> Inr v)"

definition parseCreateCard :: "(string \<times> js) list \<Rightarrow> create_card_input res" where
  "parseCreateCard body =
     res_bind (parseRequiredText (js_field body ''name'') 100 ''Campo obrigatorio: name'') (\<lambda>name.
     res_bind (parseCardExpiry (js_field body ''expiresAt'')) (\<lambda>expiresAt.
     res_bind (parseDayOfMonth (js_field body ''closingDay'') closing_day_invalid) (\<lambda>closingDay.
     case present closingDay of
       None \<Rightarrow> Inl closing_day_required
     | Some day \<Rightarrow>
         res_bind (parseLimit (js_field body ''limit'')) (\<lambda>limit.
         Inr \<lparr>cc_name = name, cc_limit = present limit, cc_closingDay = day, cc_expiresAt = present expiresAt\<rparr>))))"

definition parseUpdateCard :: "(string \<times> js) list \<Rightarrow> update_card_input res" where
  "parseUpdateCard body =
     res_bind (if_present (js_field body ''name'') (\<lambda>v. parseRequiredText v 100 ''Nome invalido'')) (\<lambda>name.
     res_bind (parseCardExpiry (js_field body ''expiresAt'')) (\<lambda>expiresAt.
     res_bind (parseDayOfMonth (js_field body ''closingDay'') closing_day_invalid) (\<lambda>closingDay.
     res_when (closingDay = Some None) closing_day_required
     (res_bind (parseLimit (js_field body ''limit'')) (\<lambda>limit.
      Inr \<lparr>uc_name = name, uc_limit = limit, uc_closingDay = present closingDay, uc_expiresAt = expiresAt\<rparr>)))))"

section \<open>Listing, creating, editing\<close>

definition listCards :: "string \<Rightarrow> finance_db \<Rightarrow> card_row list" where
  "listCards userId db =
     rev (sort_key card_createdAt (filter (\<lambda>c. cr_userId c = userId \<and> cr_archivedAt c = None) (db_cards db)))"

definition new_card_row :: "string \<Rightarrow> instant \<Rightarrow> string \<Rightarrow> create_card_input \<Rightarrow> card_row" where
  "new_card_row cardId now userId input = \<lparr>
     card_closingDay = cc_closingDay input, card_createdAt = now, card_lastInvoicedOn = None, card_minimumNextClosingOn = None,
     bc_id = cardId, bc_pendingClosingDay = None, bc_pendingClosingDaySetAt = None, bc_lastBillingProcessedAt = None,
     cr_userId = userId, cr_name = cc_name input, cr_limit = cc_limit input, cr_archivedAt = None,
     cr_expiresAt = cc_expiresAt input\<rparr>"

definition createCard ::
    "(nat \<Rightarrow> string) \<Rightarrow> instant \<Rightarrow> string \<Rightarrow> create_card_input \<Rightarrow> finance_db \<Rightarrow> finance_db \<times> card_row" where
  "createCard newId now userId input db =
     (let row = new_card_row (newId (length (db_cards db))) now userId input in
      (db\<lparr>db_cards := db_cards db @ [row]\<rparr>, row))"

definition update_cards :: "(card_row \<Rightarrow> bool) \<Rightarrow> (card_row \<Rightarrow> card_row) \<Rightarrow> finance_db \<Rightarrow> finance_db" where
  "update_cards P f db = db\<lparr>db_cards := map (\<lambda>c. if P c then f c else c) (db_cards db)\<rparr>"

definition own_card :: "string \<Rightarrow> string \<Rightarrow> finance_db \<Rightarrow> card_row option" where
  "own_card userId cardId db =
     find (\<lambda>c. bc_id c = cardId \<and> cr_userId c = userId \<and> cr_archivedAt c = None) (db_cards db)"

text \<open>The pending closing day and when it was asked for.\<close>

definition pending_closing :: "instant \<Rightarrow> card_row \<Rightarrow> int \<Rightarrow> int option \<times> instant option" where
  "pending_closing today c closingDay =
     (if closingDay = card_closingDay c then (None, None)
      else if Some closingDay \<noteq> bc_pendingClosingDay c then (Some closingDay, Some today)
      else (bc_pendingClosingDay c, bc_pendingClosingDaySetAt c))"

definition edited_card :: "instant \<Rightarrow> update_card_input \<Rightarrow> card_row \<Rightarrow> card_row" where
  "edited_card today input c =
     (let pending = (case uc_closingDay input of
            Some day \<Rightarrow> pending_closing today c day
          | None \<Rightarrow> (bc_pendingClosingDay c, bc_pendingClosingDaySetAt c)) in
      c\<lparr>bc_pendingClosingDay := fst pending, bc_pendingClosingDaySetAt := snd pending,
        cr_name := or_keep (uc_name input) (cr_name c), cr_limit := effective (uc_limit input) (cr_limit c),
        cr_expiresAt := effective (uc_expiresAt input) (cr_expiresAt c)\<rparr>)"

definition updateCard ::
    "tz_offset \<Rightarrow> instant \<Rightarrow> string \<Rightarrow> string \<Rightarrow> update_card_input \<Rightarrow> finance_db \<Rightarrow> (finance_db \<times> card_row) res" where
  "updateCard sp now userId cardId input db =
     (case own_card userId cardId db of
        None \<Rightarrow> Inl card_not_found
      | Some c \<Rightarrow>
          res_bind (todayInSaoPaulo sp now) (\<lambda>today.
          let row = edited_card today input c in
          Inr (update_cards (\<lambda>c'. bc_id c' = cardId) (\<lambda>c'. row) db, row)))"

section \<open>Archiving\<close>

text \<open>The final invoice: its amount and its note.\<close>

definition final_invoice ::
    "decimal_lib \<Rightarrow> tz_offset \<Rightarrow> instant \<Rightarrow> card_row \<Rightarrow> billable_expense list \<Rightarrow> planned_invoice res" where
  "final_invoice D sp today c expenses =
     res_bind (case card_lastInvoicedOn c of
                 Some invoiced \<Rightarrow> Inr (dateOnlyUtc invoiced)
               | None \<Rightarrow> todayInSaoPaulo sp (card_createdAt c)) (\<lambda>periodStart.
     res_bind (chargesTotalForClosing D sp expenses (bc_id c) today periodStart (card_lastInvoicedOn c = None))
       (\<lambda>cycleAmount.
     let lateAdjustmentAmount = (case (card_lastInvoicedOn c, bc_lastBillingProcessedAt c) of
           (Some invoiced, Some processed) \<Rightarrow> lateOneOffsDecimal D sp expenses (bc_id c) periodStart processed
         | _ \<Rightarrow> 0);
         firstCloseAdjustment = (if card_lastInvoicedOn c = None
           then preCreationOneOffsDecimal D sp expenses (bc_id c) (card_createdAt c) else 0) in
     Inr \<lparr>pi_closingOn = today, pi_periodStart = periodStart,
          pi_amount = cycleAmount + lateAdjustmentAmount + firstCloseAdjustment,
          pi_notes =
            (if lateAdjustmentAmount > 0 then ''Fechamento final antes do arquivamento; inclui compras ''
               @ ''retroativas informadas apos o fechamento anterior''
             else if firstCloseAdjustment > 0 then ''Fechamento final antes do arquivamento; inclui compras ''
               @ ''anteriores a criacao do cartao''
             else ''Fechamento final antes do arquivamento do cartao'')\<rparr>))"

definition archived_card :: "instant \<Rightarrow> instant \<Rightarrow> card_row \<Rightarrow> card_row" where
  "archived_card now today c =
     c\<lparr>cr_archivedAt := Some now, card_lastInvoicedOn := Some today, bc_lastBillingProcessedAt := Some now\<rparr>"

definition archiveCard ::
    "decimal_lib \<Rightarrow> tz_offset \<Rightarrow> (nat \<Rightarrow> string) \<Rightarrow> instant \<Rightarrow> string \<Rightarrow> string \<Rightarrow> finance_db
     \<Rightarrow> (finance_db \<times> card_row) res" where
  "archiveCard D sp newId now userId cardId db =
     (case own_card userId cardId db of
        None \<Rightarrow> Inl card_not_found
      | Some c \<Rightarrow>
          res_bind (loadBillableExpensesForCards (db_expenses db) userId) (\<lambda>expenses.
          res_bind (todayInSaoPaulo sp now) (\<lambda>today.
          res_bind (addDaysToKey (dayKeyOfDate today) 1) (\<lambda>firstFutureDay.
          res_bind (res_some (\<lambda>e. hasFutureRecurringCardCharge D sp e (bc_id c) firstFutureDay) expenses) (\<lambda>future.
          res_when future (BadRequest ''Encerre ou migre as despesas recorrentes vinculadas ao cartao antes de arquiva-lo'')
          (res_bind (final_invoice D sp today c expenses) (\<lambda>invoice.
           let rows = (if pi_amount invoice > 0
                       then [invoice_row D newId now userId c invoice (length (db_expenses db))] else []);
               row = archived_card now today c in
           Inr (update_cards (\<lambda>c'. bc_id c' = cardId) (\<lambda>c'. row)
                  (db\<lparr>db_expenses := db_expenses db @ rows\<rparr>), row))))))))"

end
