(* ===== verification/Split_Texts.thy ===== *)
theory Split_Texts
  imports Cards
begin

text \<open>
  The comparison of splits by their text (\<open>comparableSplits\<close>): amounts of whole cents print
  differently, so equal texts mean equal cash, as long as no card id contains the separator.
\<close>

section \<open>Numbers of whole cents\<close>

lemma digit_char_floor: "nat \<lfloor>of_nat d :: rat\<rfloor> = d"
  by simp

lemma fraction_digits_zero [simp]: "fraction_digits n 0 = []"
  by (cases n) auto

lemma fraction_one: "fraction_digits (Suc n) (of_nat d / 10) = (if d = 0 then [] else [digit_char d])" if "d < 10"
  using that by simp

lemma fraction_two:
  assumes "e < 10" "f < 10" "f \<noteq> 0"
  shows "fraction_digits (Suc (Suc n)) (of_nat (10 * e + f) / 100) = [digit_char e, digit_char f]"
proof -
  let ?r = "of_nat (10 * e + f) / 100 :: rat"
  have "\<lfloor>?r * 10\<rfloor> = int e" using assms by (simp add: floor_eq_iff field_simps)
  moreover have "?r * 10 - of_int (int e) = of_nat f / 10" by (simp add: field_simps)
  moreover have "?r \<noteq> 0" using assms by simp
  ultimately have "fraction_digits (Suc (Suc n)) ?r = digit_char e # fraction_digits (Suc n) (of_nat f / 10)"
    by (simp only: fraction_digits.simps(2) [of "Suc n" ?r] if_False nat_int)
  with assms fraction_one [of f n] show ?thesis by (simp only: if_False)
qed

lemma cents_digits:
  assumes "d < 100"
  shows "fraction_digits 25 (of_nat d / 100 :: rat) =
      (if d = 0 then [] else if d mod 10 = 0 then [digit_char (d div 10)] else [digit_char (d div 10), digit_char (d mod 10)])"
proof -
  define e f where "e = d div 10" and "f = d mod 10"
  have d: "d = 10 * e + f" "e < 10" "f < 10" using assms by (auto simp: e_def f_def)
  have n: "(25 :: nat) = Suc (Suc 23)" "(25 :: nat) = Suc 24" by simp_all
  show ?thesis
  proof (cases "f = 0")
    case True
    have "of_nat d / 100 = (of_nat e / 10 :: rat)" by (simp add: d(1) True)
    moreover have "fraction_digits 25 (of_nat e / 10 :: rat) = (if e = 0 then [] else [digit_char e])"
      by (subst n(2)) (rule fraction_one [OF d(2)])
    ultimately show ?thesis using True d(1) by (simp only: e_def [symmetric] f_def [symmetric]) simp
  next
    case False
    then have "fraction_digits 25 (of_nat d / 100 :: rat) = [digit_char e, digit_char f]"
      unfolding d(1) by (subst n(1)) (rule fraction_two [OF d(2,3)])
    then show ?thesis using False by (simp only: e_def [symmetric] f_def [symmetric]) (simp add: d(1))
  qed
qed

lemma number_text_stored:
  assumes "stored_amount a"
  shows "number_text a = decimal_text a"
proof -
  from stored_amount_cents [OF assms] obtain c where a: "a = of_nat c / 100" .
  define w d where "w = c div 100" and "d = c mod 100"
  have cd: "c = 100 * w + d" "d < 100" by (simp_all add: w_def d_def)
  have nat: "nat \<lfloor>a * 100\<rfloor> = c" by (simp add: a)
  have whole: "\<lfloor>a\<rfloor> = int w" using cd by (simp add: a floor_eq_iff field_simps)
  have rest: "a - of_int \<lfloor>a\<rfloor> = of_nat d / 100" unfolding whole using cd by (simp add: a field_simps)
  have plain: "plain_number_text a = decimal_text a"
    unfolding plain_number_text_def decimal_text_def Let_def rest cents_digits [OF cd(2)] nat
    by (simp add: whole int_to_string_def w_def d_def)
  show ?thesis
  proof (cases "a = 0")
    case True
    then show ?thesis by (simp add: number_text_def decimal_text_def nat_digits_small digit_char_0)
  next
    case False
    have "0 < c" using False by (simp add: a)
    then have "1 / 100 \<le> a" by (simp add: a)
    moreover from this have "\<not> a < 1 / 10 ^ 6" by (simp add: not_less)
    moreover have "a < 10 ^ 21" using assms by (simp add: stored_amount_def)
    ultimately show ?thesis using False by (simp only: number_text_def Let_def abs_of_nonneg plain) (simp add: plain)
  qed
qed

section \<open>Texts of splits\<close>

lemma decimal_text_chars:
  assumes "stored_amount a" "c \<in> set (decimal_text a)"
  shows "is_digit c \<or> c = CHR ''.''"
proof -
  let ?t = "decimal_text a"
  have t: "is_decimal_text ?t" using assms(1) by (rule decimal_text_round_trip)
  have "c \<in> set (takeWhile is_digit ?t) \<or> c \<in> set (dropWhile is_digit ?t)"
    using assms(2) by (metis Un_iff set_append takeWhile_dropWhile_id)
  then show ?thesis
  proof
    assume "c \<in> set (dropWhile is_digit ?t)"
    then show ?thesis using t by (cases "dropWhile is_digit ?t") (auto simp: is_decimal_text_def Let_def list_all_iff)
  qed (auto dest: set_takeWhileD)
qed

lemma roundCents_stored: "stored_amount a \<Longrightarrow> roundCents a = a"
  by (simp add: roundCents_def round_cents_exact stored_amount_def)

text \<open>No id of a card is empty or contains the separator of the compared texts.\<close>

definition plain_id :: "string \<Rightarrow> bool" where
  "plain_id c \<longleftrightarrow> c \<noteq> [] \<and> CHR ''|'' \<notin> set c"

definition plain_split :: "snapshot_split \<Rightarrow> bool" where
  "plain_split s \<longleftrightarrow> ok_snapshot s \<and> (\<forall>c. ss_cardId s = Some c \<longrightarrow> plain_id c)"

definition text_cash :: "string \<Rightarrow> rat" where
  "text_cash t = (if hd t = CHR ''p'' then decimal_text_val (rev (takeWhile (\<lambda>c. c \<noteq> CHR '':'') (rev t))) else 0)"

definition split_cash :: "snapshot_split \<Rightarrow> rat" where
  "split_cash s = (if ss_kind s = ''pix'' then ss_amount s else 0)"

lemma no_digit [simp]: "\<not> is_digit (CHR '':'')" "\<not> is_digit (CHR ''|'')"
  by code_simp+

lemma text_cash_split:
  assumes "ok_snapshot s"
  shows "text_cash (split_text s) = split_cash s"
proof -
  let ?a = "decimal_text (ss_amount s)"
  have st: "stored_amount (ss_amount s)" using assms by (simp add: ok_snapshot_def)
  obtain p where t: "split_text s = p @ CHR '':'' # ?a"
    using st by (auto simp: split_text_def roundCents_stored number_text_stored)
  have kind: "hd (split_text s) = hd (ss_kind s)" using assms by (auto simp: split_text_def ok_snapshot_def)
  have "takeWhile (\<lambda>c. c \<noteq> CHR '':'') (rev ?a @ CHR '':'' # xs) = rev ?a" for xs
    using decimal_text_chars [OF st, of "CHR '':''"] by (subst takeWhile_append2) auto
  then have "rev (takeWhile (\<lambda>c. c \<noteq> CHR '':'') (rev (split_text s))) = ?a"
    by (simp add: t)
  then show ?thesis
    using assms kind decimal_text_round_trip(2) [OF st] by (auto simp: text_cash_def split_cash_def ok_snapshot_def)
qed

lemma split_text_plain:
  assumes "plain_split s"
  shows "CHR ''|'' \<notin> set (split_text s)"
proof -
  have st: "stored_amount (ss_amount s)" "stored_amount (ss_percent s)" using assms by (simp_all add: plain_split_def ok_snapshot_def)
  have "CHR ''|'' \<notin> set (number_text (ss_percent s))" "CHR ''|'' \<notin> set (number_text (roundCents (ss_amount s)))"
    using decimal_text_chars [OF st(1)] decimal_text_chars [OF st(2)]
    by (force simp: number_text_stored st roundCents_stored)+
  then show ?thesis
    using assms by (auto simp: split_text_def plain_split_def ok_snapshot_def plain_id_def split: option.splits)
qed

lemma separated: "c \<notin> set x \<Longrightarrow> c \<notin> set y \<Longrightarrow> x @ c # u = y @ c # v \<longleftrightarrow> x = y \<and> u = v"
proof (induction x arbitrary: y)
  case Nil
  then show ?case by (cases y) auto
next
  case (Cons a x)
  then show ?case by (cases y) auto
qed

lemma join_injective:
  assumes "\<forall>x \<in> set xs. c \<notin> set x" "\<forall>y \<in> set ys. c \<notin> set y" "xs \<noteq> []" "ys \<noteq> []"
    and "join_with [c] xs = join_with [c] ys"
  shows "xs = ys"
  using assms
proof (induction xs arbitrary: ys rule: induct_list012)
  case (2 x)
  then show ?case by (cases ys rule: remdups_adj.cases) auto
next
  case (3 x x' xs)
  from 3(4,6,7) obtain y y' ys' where ys: "ys = y # y' # ys'"
    by (cases ys rule: remdups_adj.cases) auto
  have c: "c \<notin> set x" "c \<notin> set y" using 3(3,4) by (simp_all add: ys)
  have "x @ c # join_with [c] (x' # xs) = y @ c # join_with [c] (y' # ys')" using 3(7) by (simp add: ys)
  then have "x = y" "join_with [c] (x' # xs) = join_with [c] (y' # ys')"
    using separated [OF c] by (simp_all only:)
  with 3(2) [of "y' # ys'"] 3(3,4) show ?case by (simp add: ys)
qed simp

text \<open>Splits with the same text have the same cash.\<close>

definition whole_split :: "string option \<Rightarrow> rat \<Rightarrow> snapshot_split" where
  "whole_split legacyCardId amount =
     (if truthy legacyCardId then \<lparr>ss_kind = ''card'', ss_cardId = legacyCardId, ss_amount = amount, ss_percent = 100\<rparr>
      else \<lparr>ss_kind = ''pix'', ss_cardId = None, ss_amount = amount, ss_percent = 100\<rparr>)"

definition compared_splits :: "snapshot_split list \<Rightarrow> string option \<Rightarrow> rat \<Rightarrow> snapshot_split list" where
  "compared_splits splits legacyCardId amount = (if splits \<noteq> [] then splits else [whole_split legacyCardId amount])"

lemma comparableSplits_texts:
  "comparableSplits splits legacyCardId amount = join_with ''|'' (sort (map split_text (compared_splits splits legacyCardId amount)))"
  by (simp add: comparableSplits_def compared_splits_def whole_split_def Let_def)

lemma compared_cash:
  assumes "list_all plain_split (compared_splits xs c a)" "list_all plain_split (compared_splits ys d b)"
    and "comparableSplits xs c a = comparableSplits ys d b"
  shows "(\<Sum>s \<leftarrow> compared_splits xs c a. split_cash s) = (\<Sum>s \<leftarrow> compared_splits ys d b. split_cash s)"
proof -
  let ?xs = "compared_splits xs c a" and ?ys = "compared_splits ys d b"
  have ne: "?xs \<noteq> []" "?ys \<noteq> []" by (simp_all add: compared_splits_def)
  have nonempty: "sort ts = [] \<longleftrightarrow> ts = []" for ts :: "string list" by (metis length_0_conv length_sort)
  have "sort (map split_text ?xs) = sort (map split_text ?ys)"
    using assms split_text_plain ne nonempty
    by (intro join_injective [of _ "CHR ''|''"]) (auto simp: comparableSplits_texts list_all_iff)
  then have "mset (map split_text ?xs) = mset (map split_text ?ys)" by (metis mset_sort)
  then have "sum_mset (image_mset text_cash (mset (map split_text ?xs))) = sum_mset (image_mset text_cash (mset (map split_text ?ys)))"
    by simp
  then have "(\<Sum>s \<leftarrow> ?xs. text_cash (split_text s)) = (\<Sum>s \<leftarrow> ?ys. text_cash (split_text s))"
    by (simp add: multiset.map_comp comp_def flip: sum_mset_sum_list)
  moreover have "map (\<lambda>s. text_cash (split_text s)) zs = map split_cash zs" if "list_all plain_split zs" for zs
    using that by (auto simp: list_all_iff plain_split_def text_cash_split)
  ultimately show ?thesis using assms(1,2) by simp
qed

end
