(* ===== verification/Request_Days.thy ===== *)
theory Request_Days
  imports Cards
begin

text \<open>
  The days of requests: a parsed date has a year from 100 to 9999 (years below 100 are shifted), so
  its key keeps the date, and the month of the key is a month text as the versions of an expense
  require it.
\<close>

definition four_digit_year :: "instant \<Rightarrow> bool" where
  "four_digit_year t \<longleftrightarrow> 100 \<le> getUTCFullYear t \<and> getUTCFullYear t \<le> 9999"

section \<open>Month texts\<close>

lemma digits_pad4:
  assumes "0 \<le> y" "y \<le> 9999"
  shows "length (pad y 4) = 4 \<and> list_all is_digit (pad y 4)"
proof -
  have "length (nat_digits (nat y)) \<le> Suc 3" using assms by (intro length_nat_digits) simp
  moreover have "list_all is_digit (nat_digits (nat y))" using nat_digits_props by blast
  moreover have "is_digit (CHR ''0'')" by code_simp
  ultimately show ?thesis using assms by (auto simp: pad_def pad_start_def int_to_string_def list_all_iff)
qed

lemma month_text_format:
  assumes "0 \<le> y" "y \<le> 9999" "0 \<le> m" "m \<le> 11"
  shows "is_month_text (take 7 (formatDayKey y m d))"
proof -
  have m: "pad (m + 1) 2 = fixed2 (m + 1)" using assms by (simp add: pad_def pad_fixed2)
  have t: "take 7 (formatDayKey y m d) = pad y 4 @ CHR ''-'' # fixed2 (m + 1)"
    using digits_pad4 [OF assms(1,2)] by (simp add: formatDayKey_def m)
  have "list_all (\<lambda>k. fixed2 (k + 1) ! 0 = CHR ''0'' \<and> CHR ''1'' \<le> fixed2 (k + 1) ! 1 \<and> fixed2 (k + 1) ! 1 \<le> CHR ''9''
      \<or> fixed2 (k + 1) ! 0 = CHR ''1'' \<and> CHR ''0'' \<le> fixed2 (k + 1) ! 1 \<and> fixed2 (k + 1) ! 1 \<le> CHR ''2'') [0..11]"
    by code_simp
  moreover have "m \<in> set [0..11]" using assms(3,4) by simp
  ultimately have "fixed2 (m + 1) ! 0 = CHR ''0'' \<and> CHR ''1'' \<le> fixed2 (m + 1) ! 1 \<and> fixed2 (m + 1) ! 1 \<le> CHR ''9''
      \<or> fixed2 (m + 1) ! 0 = CHR ''1'' \<and> CHR ''0'' \<le> fixed2 (m + 1) ! 1 \<and> fixed2 (m + 1) ! 1 \<le> CHR ''2''"
    unfolding list_all_iff by blast
  then show ?thesis
    using digits_pad4 [OF assms(1,2)] by (simp add: t is_month_text_def nth_append)
qed

lemma civil_month: "0 \<le> getUTCMonth t \<and> getUTCMonth t \<le> 11"
  using valid_civil_bounds [OF valid_civil_of_day [of "day_of t"]] by (simp add: getUTCMonth_def)

lemma month_text_of_date: "0 \<le> getUTCFullYear t \<Longrightarrow> getUTCFullYear t \<le> 9999 \<Longrightarrow> is_month_text (monthKey_of_date t)"
  unfolding monthKey_of_date_def dayKeyOfDate_def using civil_month [of t] by (intro month_text_format) auto

lemma month_text_key: "ok_day n \<Longrightarrow> is_month_text (take 7 (key n))"
  using month_text_of_date [of "n * ms_per_day"]
  by (auto simp: dayKeyFromNumber_def monthKey_of_date_def getUTCFullYear_def ok_day_iff_year)

section \<open>Parsed dates\<close>

lemma dateKey_of_date: "four_digit_year t \<Longrightarrow> dateKey t = dayKeyOfDate t"
proof -
  assume "four_digit_year t"
  then have "dateOnlyUtc t = noon (day_of t)"
    using date_UTC_civil [of "getUTCFullYear t" "getUTCMonth t" "getUTCDate t" 12] valid_civil_of_day [of "day_of t"]
    by (simp add: dateOnlyUtc_def four_digit_year_def getUTCFullYear_def getUTCMonth_def getUTCDate_def)
  then show ?thesis by (simp add: dateKey_def dayKeyOfDate_day)
qed

lemma digits_val_bounds: "list_all is_digit s \<Longrightarrow> 0 \<le> digits_val s \<and> digits_val s < 10 ^ length s"
proof (induction s rule: rev_induct)
  case (snoc c s)
  then obtain d where "d < 10" "c = digit_char d" by (auto simp: is_digit_iff)
  then have "digits_val [c] = int d" "d < 10" by (simp_all add: digits_val_def)
  with snoc show ?case by (simp add: digits_val_append)
qed (simp add: digits_val_def)

lemma digits_val_4: "length s = 4 \<Longrightarrow> list_all is_digit s \<Longrightarrow> 0 \<le> digits_val s \<and> digits_val s \<le> 9999"
  using digits_val_bounds [of s] by simp

lemma unique_date_year:
  assumes "parseUniqueDate v = Inr (Some d)"
  shows "four_digit_year d"
proof -
  from assms obtain s p where s: "v = JString s" "parseDayKey s = Some p" "d = date_UTC (c_year p) (c_month p) (c_day p) 12"
    by (auto simp: parseUniqueDate_def parseCivilDate_def dayKeyToDate_def res_bind_eq_Inr split: js.splits if_splits option.splits)
  then obtain y m dd where p: "p = Civil y m dd" "0 \<le> y" "y \<le> 9999" "0 \<le> m" "m \<le> 11" "1 \<le> dd" "dd \<le> lastDayOfMonth y m"
    using digits_val_4 by (auto simp: parseDayKey_def match_day_key_def Let_def split: option.splits if_splits)
  define z where "z = (if y \<le> 99 then 1900 + y else y)"
  have z: "100 \<le> z" "z \<le> 9999" using p(2,3) by (auto simp: z_def)
  have shift: "date_UTC y n e h = date_UTC z n e h" for n e h using p(2) by (auto simp: date_UTC_def z_def Let_def)
  then have "lastDayOfMonth y m = days_in_month z m" using lastDayOfMonth_eq [OF z(1) p(4,5)] by (simp add: lastDayOfMonth_def)
  then have "valid_civil (Civil z m dd)" using p by (simp add: valid_civil_def)
  from date_UTC_civil [OF this z(1), of 12] civil_of_days_of_civil [OF this]
  have "getUTCFullYear d = z" by (simp add: s(3) p(1) shift getUTCFullYear_def)
  then show ?thesis using z by (simp add: four_digit_year_def)
qed

lemma iso_date_year:
  assumes "parseIsoDate v = Some d"
  shows "is_month_text (monthKey_of_date d)"
proof -
  from assms obtain s g1 g2 g3 where "v = JString s" "match_day_key s = Some (g1, g2, g3)" "getUTCFullYear d = digits_val g1"
    by (auto simp: parseIsoDate_def Let_def split: js.splits option.splits if_splits)
  then show ?thesis using digits_val_4 [of g1]
    by (intro month_text_of_date) (auto simp: match_day_key_def split: if_splits)
qed

end
