(* ===== verification/Expense_Effects.thy ===== *)
theory Expense_Effects
  imports Split_Texts Request_Days
begin

text \<open>
  What the expense services do to the rows of expenses: the invariant of a row (\<open>sound_expense\<close>) and,
  for every operation, that the row it writes is sound again.
\<close>

section \<open>Resolved splits\<close>

text \<open>The card of an expense that is split on one card only.\<close>

definition card_of :: "snapshot_split list \<Rightarrow> string option" where
  "card_of ss = (case ss of [s] \<Rightarrow> ss_cardId s | _ \<Rightarrow> None)"

definition sound_splits :: "rat \<Rightarrow> snapshot_split list \<Rightarrow> bool" where
  "sound_splits amount ss \<longleftrightarrow> list_all plain_split ss \<and> length ss \<le> 2
     \<and> (ss \<noteq> [] \<longrightarrow> (\<Sum>s \<leftarrow> ss. ss_amount s) = amount \<and> list_ex (\<lambda>s. ss_kind s = ''card'') ss)"

definition sound_cards :: "finance_db \<Rightarrow> bool" where
  "sound_cards db \<longleftrightarrow> distinct (map bc_id (db_cards db)) \<and> (\<forall>c \<in> set (db_cards db). plain_id (bc_id c))"

lemma sound_splits_Nil [simp]: "sound_splits amount []"
  by (simp add: sound_splits_def)

lemma card_of_Nil [simp]: "card_of [] = None"
  by (simp add: card_of_def)

lemma checked_cards:
  assumes "assertCardsForSplits now userId inputs bdb = Inr m" "distinct (map bc_id (Billing_Run.db_cards bdb))"
    and "CardSplit c p \<in> set inputs"
  shows "c \<in> bc_id ` set (Billing_Run.db_cards bdb)"
proof -
  define ids where "ids = remdups (map (the \<circ> input_card) (filter (\<lambda>i. \<not> is_pix i) inputs))"
  define cs where "cs = filter (\<lambda>c. cr_userId c = userId \<and> cr_archivedAt c = None \<and> bc_id c \<in> set ids) (Billing_Run.db_cards bdb)"
  have c: "c \<in> set ids" using assms(3) by (force simp: ids_def)
  then have "length cs = length ids"
    using assms(1) unfolding assertCardsForSplits_def ids_def [symmetric] Let_def cs_def [symmetric] by (auto split: if_splits)
  moreover have "distinct (map bc_id cs)" using assms(2) by (simp add: cs_def distinct_map_filter)
  moreover have "distinct ids" by (simp add: ids_def)
  moreover have "set (map bc_id cs) \<subseteq> set ids" by (auto simp: cs_def)
  ultimately have "set (map bc_id cs) = set ids"
    by (metis List.finite_set card_subset_eq distinct_card length_map)
  with c have "c \<in> bc_id ` set cs" by simp
  then show ?thesis by (auto simp: cs_def)
qed

lemma resolved_checks:
  assumes "resolveAndValidateSplits D sp now userId amount splits cardId frequency exclude limits bdb = Inr r" "r \<noteq> []"
    and "normalizeSplitInputs splits cardId = Inr (Some inputs)"
  obtains m where "assertCardsForSplits now userId inputs bdb = Inr m"
  using assms by (auto simp: resolveAndValidateSplits_def res_bind_eq_Inr)

lemma resolved_sound:
  assumes "decimal_arith D" "stored_amount amount" "sound_cards db"
    and "resolveAndValidateSplits D sp now userId amount splits cardId frequency exclude limits (billing_db.truncate db) = Inr r"
  shows "sound_splits amount (map snapshot_of_resolved r) \<and> denormalizedCardId r = card_of (map snapshot_of_resolved r)"
proof (cases "r = []")
  case True
  then show ?thesis by (simp add: denormalizedCardId_def Let_def)
next
  case False
  have a: "0 \<le> amount" "amount \<le> 9999999999.99" "cents amount" using assms(2) by (simp_all add: stored_amount_def)
  obtain inputs where i: "normalizeSplitInputs splits cardId = Inr (Some inputs)" "validateSplitShape D inputs = Inr ()"
    "r = allocateSplitAmounts D amount (map part_of_input inputs)" "inputs \<noteq> []"
    "(\<Sum>s \<leftarrow> r. rs_amount s) = toMoney D amount" "\<forall>s \<in> set r. cents (rs_amount s) \<and> 0 \<le> rs_amount s"
    "map rs_kind r = map (sp_kind \<circ> part_of_input) inputs" "map rs_cardId r = map (sp_cardId \<circ> part_of_input) inputs"
    using resolved_parts [OF assms(1) a(1,2) assms(4) False] by blast
  obtain m where m: "assertCardsForSplits now userId inputs (billing_db.truncate db) = Inr m"
    using resolved_checks [OF assms(4) False i(1)] .
  have total: "(\<Sum>s \<leftarrow> r. rs_amount s) = amount" using i(5) decimal_arith.toMoney_id [OF assms(1) a(3)] by simp
  have percents: "\<forall>i \<in> set inputs. 0 < input_percent i \<and> input_percent i \<le> 100" by (rule normalized_percents [OF i(1)])
  have ok: "plain_split (snapshot_of_resolved s)" if s: "s \<in> set r" for s
  proof -
    have "rs_amount s \<le> (\<Sum>s \<leftarrow> r. rs_amount s)" using s i(6) by (intro member_le_sum_list) auto
    then have amount: "stored_amount (rs_amount s)" using s i(6) a(2) total by (simp add: stored_amount_def)
    from s obtain input where input: "input \<in> set inputs" "rs_kind s = sp_kind (part_of_input input)"
      "rs_cardId s = sp_cardId (part_of_input input)" "rs_percent s = toMoney D (sp_percent (part_of_input input))"
      unfolding i(3) by (auto simp: allocateSplitAmounts_def Let_def dest!: set_zip_leftD split: if_splits)
    have "sp_percent (part_of_input input) = input_percent input" by (cases input) (simp_all add: part_of_input_def)
    then have "0 \<le> rs_percent s" "rs_percent s \<le> 100"
      using percents input(1,4) decimal_arith.toMoney_nonneg [OF assms(1), of "input_percent input"]
        decimal_arith.toMoney_mono [OF assms(1), of "input_percent input" 100]
        decimal_arith.toMoney_id [OF assms(1), of 100] on_grid_of_int [of 2 10000] by (auto simp: less_imp_le)
    then have percent: "stored_amount (rs_percent s)"
      using decimal_arith.toMoney_cents [OF assms(1)] by (simp add: stored_amount_def input(4))
    show ?thesis
    proof (cases input)
      case (CardSplit c p)
      have "c \<in> bc_id ` set (db_cards db)"
        using checked_cards [OF m] input(1) assms(3) by (simp add: CardSplit sound_cards_def billing_db.defs)
      then have "plain_id c" using assms(3) by (auto simp: sound_cards_def)
      then show ?thesis
        using amount percent input(2,3)
        by (simp add: CardSplit plain_split_def ok_snapshot_def snapshot_of_resolved_def part_of_input_def plain_id_def)
    next
      case (PixSplit p)
      then show ?thesis
        using amount percent input(2,3)
        by (simp add: plain_split_def ok_snapshot_def snapshot_of_resolved_def part_of_input_def)
    qed
  qed
  have "\<exists>input \<in> set inputs. \<not> is_pix input" using accepted_split_shapes [OF i(2)] i(4) by auto
  then obtain input where "input \<in> set inputs" "\<not> is_pix input" by blast
  then have "input \<in> set inputs" "sp_kind (part_of_input input) = ''card''"
    by (auto simp: part_of_input_def split: split_input.splits)
  then have "''card'' \<in> set (map rs_kind r)" unfolding i(7) by force
  then have card: "list_ex (\<lambda>s. ss_kind s = ''card'') (map snapshot_of_resolved r)"
    by (auto simp: list_ex_iff snapshot_of_resolved_def)
  have "length inputs \<le> 2" using shape_length [OF i(2)] .
  then have "length r \<le> 2" using i(7) by (metis length_map)
  then have "sound_splits amount (map snapshot_of_resolved r)"
    using ok card total by (simp add: sound_splits_def list_all_iff snapshot_of_resolved_def comp_def)
  moreover have "denormalizedCardId r = card_of (map snapshot_of_resolved r)"
    using card by (cases r; cases "tl r")
      (auto simp: denormalizedCardId_def Let_def card_of_def snapshot_of_resolved_def)
  ultimately show ?thesis by simp
qed

section \<open>The invariant of a row\<close>

definition cash_of :: "rat \<Rightarrow> snapshot_split list \<Rightarrow> rat" where
  "cash_of amount ss = (if ss = [] then amount else (\<Sum>s \<leftarrow> ss. split_cash s))"

text \<open>A one-off with a cash part has exactly one payment: that part, on its date.\<close>

definition one_off_paid :: "expense_row \<Rightarrow> bool" where
  "one_off_paid x \<longleftrightarrow>
     (case be_occurredAt x of
        None \<Rightarrow> False
      | Some d \<Rightarrow>
          four_digit_year d
          \<and> (let cash = cash_of (be_amount x) (er_splits x) in
             if cash > 0
             then map (\<lambda>p. (ep_amount p, ep_month p, dateKey (ep_paidAt p))) (er_payments x) = [(cash, take 7 (dateKey d), dateKey d)]
             else er_payments x = []))"

text \<open>A stored version is the snapshot of sound splits.\<close>

definition sound_version :: "version_row \<Rightarrow> bool" where
  "sound_version v \<longleftrightarrow> is_month_text (vr_effectiveMonth v) \<and> stored_amount (vr_amount v)
     \<and> (\<exists>ss. vr_splits v = obligationSplitSnapshot ss \<and> sound_splits (vr_amount v) ss \<and> vr_cardId v = card_of ss)"

definition sound_versions :: "version_row list \<Rightarrow> bool" where
  "sound_versions vs \<longleftrightarrow> map vr_sequence vs = map (\<lambda>i. int i + 1) [0..<length vs] \<and> list_all sound_version vs"

definition sound_expense :: "expense_row \<Rightarrow> bool" where
  "sound_expense x \<longleftrightarrow> stored_amount (be_amount x) \<and> 0 < be_amount x
     \<and> well_scheduled (be_frequency x) (be_dueDay x) (be_startsAt x) (be_endsAt x) (be_occurredAt x)
     \<and> sound_splits (be_amount x) (er_splits x) \<and> be_cardId x = card_of (er_splits x)
     \<and> distinct (map ep_month (er_payments x)) \<and> list_all (\<lambda>p. 0 < ep_amount p) (er_payments x)
     \<and> sound_versions (er_versions x)
     \<and> (if be_frequency x = ''unica'' then one_off_paid x else er_versions x \<noteq> [])"

lemma one_off_paid_payments:
  assumes "one_off_paid x"
  shows "distinct (map ep_month (er_payments x)) \<and> list_all (\<lambda>p. 0 < ep_amount p) (er_payments x)"
proof -
  obtain d where d: "if cash_of (be_amount x) (er_splits x) > 0
      then map (\<lambda>p. (ep_amount p, ep_month p, dateKey (ep_paidAt p))) (er_payments x)
        = [(cash_of (be_amount x) (er_splits x), take 7 (dateKey d), dateKey d)]
      else er_payments x = []"
    using assms by (auto simp: one_off_paid_def Let_def split: option.splits)
  then show ?thesis by (cases "er_payments x") (auto split: if_splits)
qed

section \<open>Cash\<close>

lemma plain_split_stored: "plain_split s \<Longrightarrow> stored_amount (ss_amount s)"
  by (simp add: plain_split_def ok_snapshot_def)

lemma cents_split_cash: "plain_split s \<Longrightarrow> cents (split_cash s)"
  using plain_split_stored [of s] on_grid_of_int [of 2 0] by (simp add: split_cash_def stored_amount_def)

lemma cents_sum: "list_all (\<lambda>s. cents (f s)) ss \<Longrightarrow> cents (\<Sum>s \<leftarrow> ss. f s)"
  using on_grid_of_int [of 2 0] by (induction ss) (auto intro: on_grid_plus)

lemma roundCents_cents: "cents v \<Longrightarrow> roundCents v = v"
  by (simp add: roundCents_def round_cents_exact)

lemma cashAmountOf_sound:
  assumes "sound_splits amount ss"
  shows "cashAmountOf ss amount = cash_of amount ss"
proof -
  have "(\<Sum>s \<leftarrow> filter (\<lambda>s. ss_kind s = ''pix'') ss. ss_amount s) = (\<Sum>s \<leftarrow> ss. split_cash s)"
    by (induction ss) (auto simp: split_cash_def)
  moreover have "cents (\<Sum>s \<leftarrow> ss. split_cash s)"
    using assms by (intro cents_sum) (auto simp: sound_splits_def list_all_iff intro: cents_split_cash)
  ultimately show ?thesis by (simp add: cashAmountOf_def cash_of_def roundCents_cents)
qed

lemma cash_persisted:
  "sound_splits (be_amount x) (er_splits x) \<Longrightarrow> be_cardId x = card_of (er_splits x)
    \<Longrightarrow> cashOfPersistedExpense x = cash_of (be_amount x) (er_splits x)"
  by (auto simp: cashOfPersistedExpense_def cashAmountOf_sound cash_of_def truthy_def)

lemma same_cash:
  assumes "sound_splits a xs" "sound_splits b ys" "stored_amount a" "stored_amount b"
    and "xs = [] \<longrightarrow> c = None" "ys = [] \<longrightarrow> d = None" "comparableSplits xs c a = comparableSplits ys d b"
  shows "cash_of a xs = cash_of b ys"
proof -
  have hundred: "stored_amount 100" using on_grid_of_int [of 2 10000] by (simp add: stored_amount_def)
  have plain: "list_all plain_split (compared_splits zs e z)"
    and cash: "(\<Sum>s \<leftarrow> compared_splits zs e z. split_cash s) = cash_of z zs"
    if "sound_splits z zs" "stored_amount z" "zs = [] \<longrightarrow> e = None" for z zs e
    using that hundred
    by (auto simp: compared_splits_def sound_splits_def whole_split_def truthy_def plain_split_def ok_snapshot_def
        cash_of_def split_cash_def)
  show ?thesis
    using compared_cash [OF plain [OF assms(1,3,5)] plain [OF assms(2,4,6)] assms(7)]
    by (simp add: cash [OF assms(1,3,5)] cash [OF assms(2,4,6)])
qed

section \<open>Schedules\<close>

lemma effective_new [simp]: "effective v None = present v"
  by (auto simp: effective_def present_def split: option.split)

lemma one_off_date_sent:
  "resolveSchedule kind ''unica'' body ex = Inr r \<Longrightarrow> rv_date r = None \<or> (\<exists>d. rv_date r = Some (Some d))"
  by (auto simp: resolveSchedule_def resolve_one_off_def res_bind_eq_Inr split: if_splits option.splits)

lemma one_off_date_year:
  assumes "resolveSchedule kind ''unica'' body ex = Inr r" "present (rv_date r) = Some d"
  shows "four_digit_year d"
  using assms unique_date_year
  by (auto simp: resolveSchedule_def resolve_one_off_def res_bind_eq_Inr res_when_eq_Inr present_eq_Some
      split: option.splits if_splits)

lemma recurring_start_month:
  assumes "resolveSchedule kind frequency body None = Inr r" "frequency \<noteq> ''unica''"
  obtains s where "present (rv_startsAt r) = Some s" "is_month_text (monthKey_of_date s)"
proof -
  from assms have rec: "resolve_recurring (schedule_MESSAGES kind) body None = Inr r" by (simp add: resolveSchedule_def)
  from resolve_recurring_parts(2) [OF rec] obtain s where s: "rv_startsAt r = Some (Some s)"
    "parseOptionalIsoDate (sb_startsAt body) (startInvalid (schedule_MESSAGES kind)) = Inr (Some (Some s))"
    by (auto simp: required_field_new)
  from s(2) have "parseIsoDate (sb_startsAt body) = Some s"
    by (auto simp: parseOptionalIsoDate_def split: if_splits option.splits)
  with s(1) show thesis by (intro that [of s]) (auto intro: iso_date_year)
qed

section \<open>Creating an expense\<close>

lemma sound_version_of:
  assumes "is_month_text month" "stored_amount amount" "sound_splits amount ss"
  shows "sound_version \<lparr>vr_sequence = n, vr_effectiveMonth = month, vr_amount = amount, vr_cardId = card_of ss,
    vr_splits = obligationSplitSnapshot ss\<rparr>"
  using assms by (auto simp: sound_version_def)

lemma sound_versions_append:
  assumes "sound_versions vs" "sound_version v" "vr_sequence v = int (length vs) + 1"
  shows "sound_versions (vs @ [v])"
  using assms by (simp add: sound_versions_def)

lemma created_row_sound:
  assumes "decimal_arith D" "sound_cards db" "parseCreateExpense body = Inr input"
    and "resolveSchedule Expense_Schedule (cx_frequency input) (cx_schedule input) None = Inr schedule"
    and "resolveAndValidateSplits D sp now userId (cx_amount input) (cx_splits input) (cx_cardId input)
      (cx_frequency input) None True (billing_db.truncate db) = Inr resolved"
  shows "sound_expense (new_expense_row newId now userId input schedule tag resolved db)"
proof -
  let ?x = "new_expense_row newId now userId input schedule tag resolved db" and ?ss = "map snapshot_of_resolved resolved"
  have amount: "stored_amount (cx_amount input)" "0 < cx_amount input" using parsed_create_expense [OF assms(3)] by simp_all
  have splits: "sound_splits (cx_amount input) ?ss" "denormalizedCardId resolved = card_of ?ss"
    using resolved_sound [OF assms(1) amount(1) assms(2,5)] by simp_all
  have cash: "cashAmountOf ?ss (cx_amount input) = cash_of (cx_amount input) ?ss" by (rule cashAmountOf_sound [OF splits(1)])
  have sched: "well_scheduled (cx_frequency input) (present (rv_day schedule)) (present (rv_startsAt schedule))
      (present (rv_endsAt schedule)) (present (rv_date schedule))"
    using created_schedule [OF assms(4)] by simp
  show ?thesis
  proof (cases "cx_frequency input = ''unica''")
    case True
    with sched obtain d where d: "present (rv_date schedule) = Some d" by (auto simp: well_scheduled_def)
    have year: "four_digit_year d" using one_off_date_year [OF _ d] assms(4) True by simp
    have paid: "one_off_paid ?x"
      using year by (simp add: one_off_paid_def new_expense_row_def d cash new_payment_def Let_def monthKey_of_date_def dateKey_of_date)
    with amount splits sched True one_off_paid_payments [OF paid] show ?thesis
      by (simp add: sound_expense_def new_expense_row_def Let_def sound_versions_def)
  next
    case False
    obtain s where s: "present (rv_startsAt schedule) = Some s" "is_month_text (monthKey_of_date s)"
      using recurring_start_month [OF assms(4) False] .
    have date: "present (rv_date schedule) = None" using sched False by (simp add: well_scheduled_def)
    have "sound_version (first_version now input schedule resolved)"
      using sound_version_of [OF s(2) amount(1) splits(1)] by (simp add: first_version_def s(1) splits(2))
    then have "sound_versions [first_version now input schedule resolved]"
      by (simp add: sound_versions_def first_version_def)
    with amount splits sched False date show ?thesis
      by (simp add: sound_expense_def new_expense_row_def Let_def)
  qed
qed

lemma create_expense_effect:
  assumes "createExpense D sp newId now userId input db = Inr (db', row)"
  obtains schedule tag resolved where
    "resolveSchedule Expense_Schedule (cx_frequency input) (cx_schedule input) None = Inr schedule"
    "resolveCustomTagId db userId ''expense'' (cx_customTagId input) = Inr tag" "truthy tag \<longrightarrow> cx_category input = ''outro''"
    "resolveAndValidateSplits D sp now userId (cx_amount input) (cx_splits input) (cx_cardId input)
      (cx_frequency input) None True (billing_db.truncate db) = Inr resolved"
    "retroactive_guard sp userId input schedule resolved db = Inr ()"
    "row = new_expense_row newId now userId input schedule tag resolved db" "db' = db\<lparr>db_expenses := db_expenses db @ [row]\<rparr>"
proof -
  from assms obtain schedule tag resolved where
    "resolveSchedule Expense_Schedule (cx_frequency input) (cx_schedule input) None = Inr schedule"
    "resolveCustomTagId db userId ''expense'' (cx_customTagId input) = Inr tag" "\<not> (truthy tag \<and> cx_category input \<noteq> ''outro'')"
    "resolveAndValidateSplits D sp now userId (cx_amount input) (cx_splits input) (cx_cardId input)
      (cx_frequency input) None True (billing_db.truncate db) = Inr resolved"
    "retroactive_guard sp userId input schedule resolved db = Inr ()"
    "(db\<lparr>db_expenses := db_expenses db @ [new_expense_row newId now userId input schedule tag resolved db]\<rparr>,
      new_expense_row newId now userId input schedule tag resolved db) = (db', row)"
    unfolding createExpense_def Let_def res_bind_eq_Inr res_when_eq_Inr by auto
  then show thesis by (intro that) auto
qed

section \<open>Editing an expense: the new terms\<close>

lemma edit_terms_facts:
  assumes "edit_terms D sp now userId x input db = Inr t"
  shows "xe_amount t = or_keep (ux_amount input) (be_amount x)" "xe_frequency t = or_keep (ux_frequency input) (be_frequency x)"
    "\<not> (be_frequency x = ''unica'' \<and> xe_frequency t \<noteq> ''unica'')"
    "resolveSchedule Expense_Schedule (xe_frequency t) (ux_schedule input) (Some (existing_of_expense x)) = Inr (xe_schedule t)"
    "xe_occurredAt t = (if xe_frequency t = ''unica'' then keep_opt (present (rv_date (xe_schedule t))) (be_occurredAt x) else None)"
    "resolveNextSplits D sp now userId x input (xe_amount t) (xe_frequency t) db = Inr (xe_splits t)"
    "truthy (or_keep (xe_tag t) (er_customTagId x)) \<longrightarrow> or_keep (ux_category input) (er_category x) = ''outro''"
    "assertCategoryChangeAllowed (er_category x) (ux_category input) = Inr ()"
    "case xe_tag t of None \<Rightarrow> ux_customTagId input = None
      | Some tag \<Rightarrow> \<exists>requested. ux_customTagId input = Some requested \<and> resolveCustomTagId db userId ''expense'' requested = Inr tag"
proof -
  define amount frequency where "amount = or_keep (ux_amount input) (be_amount x)"
    and "frequency = or_keep (ux_frequency input) (be_frequency x)"
  from assms obtain tag schedule splits where
    e: "assertCategoryChangeAllowed (er_category x) (ux_category input) = Inr ()"
    "(case ux_customTagId input of None \<Rightarrow> Inr None
       | Some t \<Rightarrow> res_bind (resolveCustomTagId db userId ''expense'' t) (\<lambda>r. Inr (Some r))) = Inr tag"
    "assertExpenseFrequencyTransitionSafe (be_frequency x) frequency False = Inr ()"
    "\<not> (truthy (or_keep tag (er_customTagId x)) \<and> or_keep (ux_category input) (er_category x) \<noteq> ''outro'')"
    "resolveSchedule Expense_Schedule frequency (ux_schedule input) (Some (existing_of_expense x)) = Inr schedule"
    "resolveNextSplits D sp now userId x input amount frequency db = Inr splits"
    and t: "t = \<lparr>xe_tag = tag, xe_amount = amount, xe_frequency = frequency, xe_schedule = schedule,
      xe_occurredAt = (if frequency = ''unica''
        then (case present (rv_date schedule) of Some d \<Rightarrow> Some d | None \<Rightarrow> be_occurredAt x) else None), xe_splits = splits\<rparr>"
    unfolding edit_terms_def Let_def amount_def [symmetric] frequency_def [symmetric] res_bind_eq_Inr res_when_eq_Inr by auto
  show "xe_amount t = or_keep (ux_amount input) (be_amount x)" "xe_frequency t = or_keep (ux_frequency input) (be_frequency x)"
    "\<not> (be_frequency x = ''unica'' \<and> xe_frequency t \<noteq> ''unica'')"
    "resolveSchedule Expense_Schedule (xe_frequency t) (ux_schedule input) (Some (existing_of_expense x)) = Inr (xe_schedule t)"
    "xe_occurredAt t = (if xe_frequency t = ''unica'' then keep_opt (present (rv_date (xe_schedule t))) (be_occurredAt x) else None)"
    "resolveNextSplits D sp now userId x input (xe_amount t) (xe_frequency t) db = Inr (xe_splits t)"
    "truthy (or_keep (xe_tag t) (er_customTagId x)) \<longrightarrow> or_keep (ux_category input) (er_category x) = ''outro''"
    "assertCategoryChangeAllowed (er_category x) (ux_category input) = Inr ()"
    "case xe_tag t of None \<Rightarrow> ux_customTagId input = None
      | Some tag \<Rightarrow> \<exists>requested. ux_customTagId input = Some requested \<and> resolveCustomTagId db userId ''expense'' requested = Inr tag"
    using e by (auto simp: t amount_def frequency_def keep_opt_def assertExpenseFrequencyTransitionSafe_def res_bind_eq_Inr
        split: option.splits)
qed

lemma next_terms_sound:
  assumes "decimal_arith D" "sound_cards db" "sound_expense x" "parseUpdateExpense body = Inr input"
    and "edit_terms D sp now userId x input db = Inr t"
  shows "stored_amount (xe_amount t)" "0 < xe_amount t" "sound_splits (xe_amount t) (revisedSplits x t)"
    "next_cardId x t = card_of (revisedSplits x t)" "xe_splits t = None \<Longrightarrow> xe_amount t = be_amount x \<or> er_splits x = []"
proof -
  note f = edit_terms_facts [OF assms(5)]
  have x: "stored_amount (be_amount x)" "0 < be_amount x" "sound_splits (be_amount x) (er_splits x)"
    "be_cardId x = card_of (er_splits x)"
    using assms(3) by (simp_all add: sound_expense_def)
  show amount: "stored_amount (xe_amount t)" "0 < xe_amount t"
    using parsed_update_expense [OF assms(4)] x(1,2) by (auto simp: f(1) or_keep_def split: option.splits)
  have unsent: "xe_amount t = be_amount x \<or> er_splits x = []" if none: "xe_splits t = None"
  proof -
    from f(6) none have "ux_amount input = None \<or> existingSplitInputs (be_cardId x) (er_splits x) = []"
      by (auto simp: resolveNextSplits_def Let_def res_bind_eq_Inr split: if_splits)
    then show ?thesis by (auto simp: f(1) or_keep_def existingSplitInputs_def split: if_splits)
  qed
  then show "xe_splits t = None \<Longrightarrow> xe_amount t = be_amount x \<or> er_splits x = []" .
  have "sound_splits (xe_amount t) (revisedSplits x t) \<and> next_cardId x t = card_of (revisedSplits x t)"
  proof (cases "xe_splits t")
    case None
    then show ?thesis
      using unsent x(3,4) by (auto simp: revisedSplits_def next_splits_def or_keep_def next_cardId_def)
  next
    case (Some r)
    then obtain splits cardId exclude where "resolveAndValidateSplits D sp now userId (xe_amount t) splits cardId (xe_frequency t)
        exclude True (billing_db.truncate db) = Inr r"
      using f(6) by (auto simp: resolveNextSplits_def Let_def res_bind_eq_Inr split: if_splits)
    from resolved_sound [OF assms(1) amount(1) assms(2) this] show ?thesis
      using Some by (simp add: revisedSplits_def next_splits_def or_keep_def next_cardId_def)
  qed
  then show "sound_splits (xe_amount t) (revisedSplits x t)" "next_cardId x t = card_of (revisedSplits x t)" by simp_all
qed

lemma edit_schedule_sound:
  assumes "sound_expense x" "edit_terms D sp now userId x input db = Inr t"
  shows "well_scheduled (xe_frequency t) (effective (rv_day (xe_schedule t)) (be_dueDay x))
      (effective (rv_startsAt (xe_schedule t)) (be_startsAt x)) (effective (rv_endsAt (xe_schedule t)) (be_endsAt x)) (xe_occurredAt t)"
    "xe_frequency t = ''unica'' \<Longrightarrow> \<exists>d. xe_occurredAt t = Some d \<and> four_digit_year d"
    "xe_frequency t \<noteq> ''unica'' \<Longrightarrow> xe_occurredAt t = None"
proof -
  note f = edit_terms_facts [OF assms(2)]
  have w: "well_scheduled (be_frequency x) (be_dueDay x) (be_startsAt x) (be_endsAt x) (be_occurredAt x)"
    using assms(1) by (simp add: sound_expense_def)
  from edited_schedule [OF f(4)] well_scheduled_day [OF w]
  have e: "well_scheduled (xe_frequency t) (effective (rv_day (xe_schedule t)) (be_dueDay x))
      (effective (rv_startsAt (xe_schedule t)) (be_startsAt x)) (effective (rv_endsAt (xe_schedule t)) (be_endsAt x))
      (effective (rv_date (xe_schedule t)) (be_occurredAt x))"
    by (simp add: existing_of_expense_def)
  have date: "effective (rv_date (xe_schedule t)) (be_occurredAt x) = xe_occurredAt t"
  proof (cases "xe_frequency t = ''unica''")
    case True
    with f(4) have "rv_date (xe_schedule t) = None \<or> (\<exists>d. rv_date (xe_schedule t) = Some (Some d))"
      using one_off_date_sent [of _ _ _ "xe_schedule t"] by simp
    with True show ?thesis by (auto simp: f(5) effective_def keep_opt_def present_def)
  next
    case False
    with e show ?thesis by (simp add: f(5) well_scheduled_def)
  qed
  show "well_scheduled (xe_frequency t) (effective (rv_day (xe_schedule t)) (be_dueDay x))
      (effective (rv_startsAt (xe_schedule t)) (be_startsAt x)) (effective (rv_endsAt (xe_schedule t)) (be_endsAt x)) (xe_occurredAt t)"
    using e unfolding date .
  show "xe_frequency t \<noteq> ''unica'' \<Longrightarrow> xe_occurredAt t = None" by (simp add: f(5))
  assume unica: "xe_frequency t = ''unica''"
  with e date obtain d where d: "xe_occurredAt t = Some d" by (auto simp: well_scheduled_def)
  have "four_digit_year d"
  proof (cases "present (rv_date (xe_schedule t))")
    case None
    then have old: "be_occurredAt x = Some d" using d f(5) unica by (simp add: keep_opt_def)
    then have "be_frequency x = ''unica''" using w by (auto simp: well_scheduled_def split: if_splits)
    then show ?thesis using assms(1) old by (simp add: sound_expense_def one_off_paid_def)
  next
    case (Some e)
    then show ?thesis using one_off_date_year [of _ _ _ "xe_schedule t" e] d f(4,5) unica by (simp add: keep_opt_def)
  qed
  with d show "\<exists>d. xe_occurredAt t = Some d \<and> four_digit_year d" by blast
qed

section \<open>Editing an expense: the row\<close>

lemma sort_versions: "sound_versions vs \<Longrightarrow> sort_key vr_sequence vs = vs"
proof (rule sort_key_id_if_sorted)
  assume "sound_versions vs"
  then have "map vr_sequence vs = map (\<lambda>i. int i + 1) [0..<length vs]" by (simp add: sound_versions_def)
  moreover have "sorted (map (\<lambda>i. int i + 1) [0..<n])" for n by (simp add: sorted_map sorted_wrt_iff_nth_less)
  ultimately show "sorted (map vr_sequence vs)" by simp
qed

lemma last_sequence:
  assumes "sound_versions vs" "vs \<noteq> []"
  shows "vr_sequence (last vs) = int (length vs)"
proof -
  have "last (map vr_sequence vs) = last (map (\<lambda>i. int i + 1) [0..<length vs])" using assms(1) by (simp add: sound_versions_def)
  with assms(2) show ?thesis by (simp add: last_map of_nat_diff Suc_le_eq)
qed

text \<open>What the guards of paid history establish for an expense that becomes a one-off.\<close>

lemma became_one_off:
  assumes "paid_history_guards month x input t = Inr cards" "be_frequency x \<noteq> ''unica''" "xe_frequency t = ''unica''"
    and "sound_expense x"
  shows "er_payments x = []" "er_splits x = []"
proof -
  have changed: "oldScheduleChanged x t" using assms(2,3) by (simp add: oldScheduleChanged_def)
  from assms(1) changed show "er_payments x = []" by (simp add: paid_history_guards_def)
  from assms(1-3) have "\<not> list_ex (\<lambda>s. ss_kind s = ''card'') (er_splits x)"
    by (auto simp: paid_history_guards_def res_bind_eq_Inr assertExpenseFrequencyTransitionSafe_def)
  with assms(4) show "er_splits x = []" by (auto simp: sound_expense_def sound_splits_def)
qed

text \<open>A one-off that stays one: the payments after an accepted edit.\<close>

lemma kept_one_off:
  assumes "decimal_arith D" "sound_cards db" "sound_expense x" "parseUpdateExpense body = Inr input"
    and "edit_terms D sp now userId x input db = Inr t" "cash_guard userId x input t db = Inr record"
    and "be_frequency x = ''unica''" "xe_occurredAt t = Some d" "four_digit_year d"
  defines "cash \<equiv> cash_of (xe_amount t) (revisedSplits x t)"
  shows "if cash > 0
    then map (\<lambda>p. (ep_amount p, ep_month p, dateKey (ep_paidAt p))) (revised_payments newId record x input t db)
      = [(cash, take 7 (dateKey d), dateKey d)]
    else revised_payments newId record x input t db = []"
proof -
  note f = edit_terms_facts [OF assms(5)] and n = next_terms_sound [OF assms(1-5)]
  have x: "stored_amount (be_amount x)" "0 < be_amount x" "sound_splits (be_amount x) (er_splits x)"
    "be_cardId x = card_of (er_splits x)" "one_off_paid x"
    using assms(3,7) by (simp_all add: sound_expense_def)
  have unica: "xe_frequency t = ''unica''" using f(3) assms(7) by blast
  have old_cash: "cashOfPersistedExpense x = cash_of (be_amount x) (er_splits x)" by (rule cash_persisted [OF x(3,4)])
  have no_card: "list_all (\<lambda>s. ss_kind s = ''pix'') ss \<Longrightarrow> sound_splits a ss \<Longrightarrow> ss = []" for a ss
    by (auto simp: sound_splits_def list_all_iff list_ex_iff)
  obtain e where e: "be_occurredAt x = Some e" "if cash_of (be_amount x) (er_splits x) > 0
      then map (\<lambda>p. (ep_amount p, ep_month p, dateKey (ep_paidAt p))) (er_payments x)
        = [(cash_of (be_amount x) (er_splits x), take 7 (dateKey e), dateKey e)] else er_payments x = []"
    using x(5) by (auto simp: one_off_paid_def Let_def split: option.splits)
  consider "safeCashCorrection x input t" | "\<not> safeCashCorrection x input t" "oneOffChange x t"
    | "\<not> safeCashCorrection x input t" "\<not> oneOffChange x t" by blast
  then show ?thesis
  proof cases
    case 1
    then have "er_splits x = []" "revisedSplits x t = []" "\<exists>p. er_payments x = [p]"
      using no_card [OF _ x(3)] no_card [OF _ n(3)]
      by (auto simp: safeCashCorrection_def isSafeOneOffCashCorrection_def split: option.splits list.splits)
    then obtain p where p: "er_splits x = []" "revisedSplits x t = []" "er_payments x = [p]" by blast
    have "record = False" using assms(6) 1 by (simp add: cash_guard_def)
    with p 1 n(2) assms(7,8) show ?thesis by (simp add: cash_def cash_of_def revised_payments_def Let_def)
  next
    case 2
    then have guard: "er_payments x = []" "cash_of (be_amount x) (er_splits x) \<le> 0" "record \<longleftrightarrow> new_cash x t > 0"
      using assms(6,7) unica by (auto simp: cash_guard_def assertOneOffMutationSafe_def res_when_eq_Inr old_cash)
    have new: "new_cash x t = cash \<and> (cash > 0 \<longrightarrow> cashAmountOf (or_keep (next_splits t) []) (xe_amount t) = cash)"
    proof (cases "next_splits t")
      case None
      then have "er_splits x \<noteq> []" using guard(2) x(2) by (auto simp: cash_of_def)
      moreover from this have "xe_amount t = be_amount x" using n(5) None by (simp add: next_splits_def)
      ultimately show ?thesis
        using None guard(2) by (simp add: new_cash_def old_cash cash_def revisedSplits_def or_keep_def)
    next
      case (Some ss)
      then show ?thesis using cashAmountOf_sound [OF n(3)] by (simp add: new_cash_def cash_def revisedSplits_def or_keep_def)
    qed
    with guard 2 assms(7,8) show ?thesis
      using assms(9) by (simp add: revised_payments_def Let_def new_payment_def monthKey_of_date_def dateKey_of_date)
  next
    case 3
    have noted: "record = False" using assms(6) 3 by (simp add: cash_guard_def)
    from 3(2) have same: "xe_amount t = be_amount x" "dateKey d = dateKey e"
      using assms(8) e(1) by (simp_all add: oneOffChange_def)
    have "cash = cash_of (be_amount x) (er_splits x)"
    proof (cases "next_splits t")
      case None
      then show ?thesis by (simp add: cash_def same(1) revisedSplits_def or_keep_def)
    next
      case (Some ss)
      with 3(2) have "comparableSplits ss None (xe_amount t) = comparableSplits (er_splits x) (be_cardId x) (be_amount x)"
        by (simp add: oneOffChange_def)
      moreover have "sound_splits (xe_amount t) ss" using n(3) Some by (simp add: revisedSplits_def or_keep_def)
      ultimately have "cash_of (xe_amount t) ss = cash_of (be_amount x) (er_splits x)"
        using same_cash [of "xe_amount t" ss "be_amount x" "er_splits x" None "be_cardId x"] x n(1) by simp
      then show ?thesis using Some by (simp add: cash_def revisedSplits_def or_keep_def)
    qed
    with e(2) same noted 3 assms(7,8) show ?thesis by (simp add: revised_payments_def Let_def)
  qed
qed

lemma revised_versions_sound:
  assumes "decimal_arith D" "sound_cards db" "sound_expense x" "parseUpdateExpense body = Inr input"
    and "edit_terms D sp now userId x input db = Inr t" "is_month_text month"
  shows "sound_versions (er_versions x @ revised_versions sp month x t)"
proof (cases "recurringVersionChange x t")
  case True
  note n = next_terms_sound [OF assms(1-5)]
  have v: "sound_versions (er_versions x)" "er_versions x \<noteq> []"
    using assms(3) True by (simp_all add: sound_expense_def recurringVersionChange_def)
  have old: "oldVersions x t = er_versions x" using True sort_versions [OF v(1)] by (simp add: oldVersions_def)
  have "revised_versions sp month x t = [\<lparr>vr_sequence = int (length (er_versions x)) + 1, vr_effectiveMonth = month,
      vr_amount = xe_amount t, vr_cardId = card_of (revisedSplits x t), vr_splits = obligationSplitSnapshot (revisedSplits x t)\<rparr>]"
    using True v last_sequence [OF v] by (simp add: revised_versions_def old next_sequence_def n(4))
  then show ?thesis
    using sound_versions_append [OF v(1) sound_version_of [OF assms(6) n(1,3)]] by simp
next
  case False
  then show ?thesis using assms(3) by (simp add: revised_versions_def sound_expense_def)
qed

text \<open>The facts of an accepted edit, and the row it writes.\<close>

lemma update_expense_effect:
  assumes "updateExpense D sp newId now userId expenseId input db = Inr (db', row)"
  obtains x t noted cards where "x \<in> set (db_expenses db)" "er_id x = expenseId" "er_userId x = userId" "be_archivedAt x = None"
    "er_systemOrigin x = ''manual''" "\<not> be_isInvoice x" "edit_terms D sp now userId x input db = Inr t"
    "paid_history_guards (take 7 (todayKeyInSaoPaulo sp now)) x input t = Inr cards"
    "history_guards D sp now userId x input t db = Inr ()" "cash_guard userId x input t db = Inr noted"
    "row = edited_expense sp newId now noted x input t db"
    "db' = update_expenses (\<lambda>e. er_id e = expenseId \<and> er_userId e = userId \<and> er_updatedAt e = er_updatedAt x) (\<lambda>e. row) db"
proof -
  from assms obtain x where x: "find (\<lambda>e. er_id e = expenseId \<and> er_userId e = userId) (db_expenses db) = Some x"
    by (auto simp: updateExpense_def split: option.splits)
  then have mem: "x \<in> set (db_expenses db)" "er_id x = expenseId" "er_userId x = userId" by (auto simp: find_Some_iff)
  from assms obtain t noted where u: "be_archivedAt x = None" "er_systemOrigin x = ''manual''" "\<not> be_isInvoice x"
    "edit_terms D sp now userId x input db = Inr t" "history_guards D sp now userId x input t db = Inr ()"
    "cash_guard userId x input t db = Inr noted" "row = edited_expense sp newId now noted x input t db"
    "db' = update_expenses (\<lambda>e. er_id e = expenseId \<and> er_userId e = userId \<and> er_updatedAt e = er_updatedAt x) (\<lambda>e. row) db"
    unfolding updateExpense_def x option.case Let_def res_bind_eq_Inr res_when_eq_Inr by auto
  from u(5) obtain cards where "paid_history_guards (take 7 (todayKeyInSaoPaulo sp now)) x input t = Inr cards"
    by (auto simp: history_guards_def Let_def res_bind_eq_Inr)
  with mem u show thesis by (intro that)
qed

lemma edited_row_sound:
  assumes "decimal_arith D" "sound_cards db" "sound_expense x" "parseUpdateExpense body = Inr input"
    and "edit_terms D sp now userId x input db = Inr t" "is_month_text (take 7 (todayKeyInSaoPaulo sp now))"
    and "paid_history_guards (take 7 (todayKeyInSaoPaulo sp now)) x input t = Inr cards"
    and "cash_guard userId x input t db = Inr noted"
  shows "sound_expense (edited_expense sp newId now noted x input t db)"
proof -
  let ?row = "edited_expense sp newId now noted x input t db"
  note f = edit_terms_facts [OF assms(5)] and n = next_terms_sound [OF assms(1-5)] and s = edit_schedule_sound [OF assms(3,5)]
    and v = revised_versions_sound [OF assms(1-6)]
  have row: "be_amount ?row = xe_amount t" "be_frequency ?row = xe_frequency t" "er_splits ?row = revisedSplits x t"
    "be_cardId ?row = next_cardId x t" "be_occurredAt ?row = xe_occurredAt t"
    "er_payments ?row = revised_payments newId noted x input t db"
    by (simp_all add: edited_expense_def f(1,2) Let_def)
  have base: "sound_expense ?row \<longleftrightarrow> distinct (map ep_month (er_payments ?row)) \<and> list_all (\<lambda>p. 0 < ep_amount p) (er_payments ?row)
      \<and> (if xe_frequency t = ''unica'' then one_off_paid ?row else er_versions ?row \<noteq> [])"
    using n s(1) v unfolding sound_expense_def row by (simp add: edited_expense_def Let_def)
  show ?thesis
  proof (cases "xe_frequency t = ''unica''")
    case True
    with s(2) obtain d where d: "xe_occurredAt t = Some d" "four_digit_year d" by blast
    have "one_off_paid ?row"
    proof (cases "be_frequency x = ''unica''")
      case True
      from kept_one_off [OF assms(1-5,8) True d] d show ?thesis
        by (simp add: one_off_paid_def row Let_def)
    next
      case False
      from became_one_off [OF assms(7) False \<open>xe_frequency t = ''unica''\<close> assms(3)]
      have old: "er_payments x = []" "er_splits x = []" .
      have "or_keep (next_splits t) [] = revisedSplits x t" by (simp add: revisedSplits_def old)
      then have "cashAmountOf (or_keep (next_splits t) []) (xe_amount t) = cash_of (xe_amount t) (revisedSplits x t)"
        using cashAmountOf_sound [OF n(3)] by simp
      moreover have "\<not> safeCashCorrection x input t" using False by (simp add: safeCashCorrection_def)
      ultimately show ?thesis
        using d False True old \<open>xe_frequency t = ''unica''\<close>
        by (simp add: one_off_paid_def row revised_payments_def Let_def new_payment_def monthKey_of_date_def dateKey_of_date)
    qed
    with one_off_paid_payments [OF this] True show ?thesis unfolding base by simp
  next
    case False
    then have "be_frequency x \<noteq> ''unica''" using f(3) by auto
    moreover have "er_payments ?row = er_payments x" using s(3) [OF False] by (simp add: row revised_payments_def)
    moreover have "er_versions ?row \<noteq> [] \<longleftrightarrow> er_versions x @ revised_versions sp (take 7 (todayKeyInSaoPaulo sp now)) x t \<noteq> []"
      by (simp add: edited_expense_def Let_def)
    ultimately show ?thesis unfolding base using assms(3) False by (simp add: sound_expense_def)
  qed
qed

end
