(* ===== verification/Expenses_System.thy ===== *)
theory Expenses_System
  imports Expense_Effects
begin

text \<open>
  The expense and card services together: the invariant of the tables, that every operation keeps it
  (payments and voids included), the step relation on parsed requests and its reachable states. The
  other services may do anything that leaves the cards and the manual expenses alone but for their tags
  (\<open>keeps_expense_rows\<close>).
\<close>

section \<open>The invariant of the tables\<close>

text \<open>An invoice is paid at most once, in the month of its closing and with its amount.\<close>

definition sound_invoice :: "expense_row \<Rightarrow> bool" where
  "sound_invoice x \<longleftrightarrow> er_payments x = []
     \<or> (\<exists>e. keep_opt (er_billingPeriodEnd x) (be_occurredAt x) = Some e
          \<and> map (\<lambda>p. (ep_month p, ep_amount p)) (er_payments x) = [(monthKey_of_date e, be_amount x)])"

definition sound_row :: "expense_row \<Rightarrow> bool" where
  "sound_row x \<longleftrightarrow> (er_systemOrigin x = ''manual'' \<longrightarrow> (if be_isInvoice x then sound_invoice x else sound_expense x))"

definition sound_expenses :: "finance_db \<Rightarrow> bool" where
  "sound_expenses db \<longleftrightarrow> sound_cards db \<and> distinct (map er_id (db_expenses db)) \<and> (\<forall>x \<in> set (db_expenses db). sound_row x)"

definition replace_expense :: "expense_row \<Rightarrow> expense_row \<Rightarrow> finance_db \<Rightarrow> finance_db" where
  "replace_expense x y db = db\<lparr>db_expenses := map (\<lambda>e. if e = x then y else e) (db_expenses db)\<rparr>"

lemma replace_expense_tables [simp]:
  "db_expenses (replace_expense x y db) = map (\<lambda>e. if e = x then y else e) (db_expenses db)"
  "db_cards (replace_expense x y db) = db_cards db" "db_entries (replace_expense x y db) = db_entries db"
  "db_piggyBanks (replace_expense x y db) = db_piggyBanks db" "db_piggyTx (replace_expense x y db) = db_piggyTx db"
  "db_customTags (replace_expense x y db) = db_customTags db" "db_users (replace_expense x y db) = db_users db"
  by (simp_all add: replace_expense_def)

lemma update_is_replace_expense:
  assumes "distinct (map er_id (db_expenses db))" "x \<in> set (db_expenses db)" "P x" "\<And>e. P e \<Longrightarrow> er_id e = er_id x"
  shows "update_expenses P f db = replace_expense x (f x) db"
proof -
  have "P e \<longleftrightarrow> e = x" if "e \<in> set (db_expenses db)" for e
  proof
    assume "P e"
    then have "er_id e = er_id x" by (rule assms(4))
    with assms(1,2) that show "e = x" by (auto simp: distinct_map inj_on_def)
  next
    assume "e = x"
    with assms(3) show "P e" by simp
  qed
  then have "map (\<lambda>e. if P e then f e else e) (db_expenses db) = map (\<lambda>e. if e = x then f x else e) (db_expenses db)"
    by (intro map_cong) auto
  then show ?thesis by (simp add: update_expenses_def replace_expense_def)
qed

text \<open>One row replaced by a row of the same kind that is sound again.\<close>

definition expense_update :: "expense_row \<Rightarrow> expense_row \<Rightarrow> finance_db \<Rightarrow> finance_db \<Rightarrow> bool" where
  "expense_update x y db db' \<longleftrightarrow> x \<in> set (db_expenses db) \<and> db' = replace_expense x y db \<and> er_id y = er_id x
     \<and> er_systemOrigin x = ''manual'' \<and> er_systemOrigin y = ''manual'' \<and> be_isInvoice y = be_isInvoice x \<and> sound_row y"

lemma replace_sound_expenses:
  assumes "sound_expenses db" "expense_update x y db db'"
  shows "sound_expenses db'"
proof -
  from assms(2) have u: "x \<in> set (db_expenses db)" "db' = replace_expense x y db" "er_id y = er_id x" "sound_row y"
    by (simp_all add: expense_update_def)
  then have "map er_id (db_expenses db') = map er_id (db_expenses db)" by simp
  moreover have "\<forall>e \<in> set (db_expenses db'). sound_row e" using assms(1) u by (auto simp: sound_expenses_def)
  ultimately show ?thesis using assms(1) u(2) by (simp only: sound_expenses_def sound_cards_def replace_expense_tables) simp
qed

text \<open>A step writes the cards and the manual expenses; the other tables and rows stay as they are.\<close>

definition expense_written :: "finance_db \<Rightarrow> finance_db \<Rightarrow> bool" where
  "expense_written db db' \<longleftrightarrow> keeps_system_rows db db' \<and> db_entries db' = db_entries db
     \<and> db_users db' = db_users db \<and> db_customTags db' = db_customTags db"

lemma replace_expense_written:
  "er_systemOrigin x = ''manual'' \<Longrightarrow> er_systemOrigin y = ''manual'' \<Longrightarrow> expense_written db (replace_expense x y db)"
proof -
  assume o: "er_systemOrigin x = ''manual''" "er_systemOrigin y = ''manual''"
  have "filter (\<lambda>e. er_systemOrigin e \<noteq> ''manual'') (map (\<lambda>e. if e = x then y else e) es)
      = filter (\<lambda>e. er_systemOrigin e \<noteq> ''manual'') es" for es
    using o by (induction es) auto
  then show ?thesis by (simp add: expense_written_def keeps_system_rows_def replace_expense_def)
qed

section \<open>Editing, voiding, paying\<close>

lemma edit_update:
  assumes "decimal_arith D" "sound_expenses db" "parseUpdateExpense body = Inr input" "ok_day (local_day sp now)"
    and "updateExpense D sp newId now userId expenseId input db = Inr (db', row)"
  obtains x t noted cards where "expense_update x row db db'" "er_id x = expenseId" "be_archivedAt x = None" "\<not> be_isInvoice x"
    "sound_expense x" "edit_terms D sp now userId x input db = Inr t"
    "paid_history_guards (take 7 (todayKeyInSaoPaulo sp now)) x input t = Inr cards"
    "history_guards D sp now userId x input t db = Inr ()" "cash_guard userId x input t db = Inr noted"
    "row = edited_expense sp newId now noted x input t db"
proof -
  obtain x t noted cards where u: "x \<in> set (db_expenses db)" "er_id x = expenseId" "er_userId x = userId" "be_archivedAt x = None"
    "er_systemOrigin x = ''manual''" "\<not> be_isInvoice x" "edit_terms D sp now userId x input db = Inr t"
    "paid_history_guards (take 7 (todayKeyInSaoPaulo sp now)) x input t = Inr cards"
    "history_guards D sp now userId x input t db = Inr ()" "cash_guard userId x input t db = Inr noted"
    "row = edited_expense sp newId now noted x input t db"
    "db' = update_expenses (\<lambda>e. er_id e = expenseId \<and> er_userId e = userId \<and> er_updatedAt e = er_updatedAt x) (\<lambda>e. row) db"
    using update_expense_effect [OF assms(5)] .
  have cards: "sound_cards db" and ids: "distinct (map er_id (db_expenses db))" and sx: "sound_row x"
    using assms(2) u(1) by (simp_all add: sound_expenses_def)
  then have x: "sound_expense x" using u(5,6) by (simp add: sound_row_def)
  have month: "is_month_text (take 7 (todayKeyInSaoPaulo sp now))"
    using assms(4) dayKeyInSaoPaulo_key [of now sp] month_text_key
    by (simp add: todayKeyInSaoPaulo_def local_day_def)
  have row: "sound_expense row" unfolding u(11) by (rule edited_row_sound [OF assms(1) cards x assms(3) u(7) month u(8,10)])
  have "db' = replace_expense x row db" unfolding u(12) using u(2,3) by (intro update_is_replace_expense [OF ids u(1)]) auto
  then have "expense_update x row db db'"
    using u row by (simp add: expense_update_def sound_row_def edited_expense_def Let_def)
  with u x show thesis by (intro that)
qed

lemma archive_update:
  assumes "sound_expenses db" "archiveExpense D sp now userId expenseId db = Inr db'"
  obtains x where "expense_update x (x\<lparr>be_archivedAt := Some now, er_voidedAt := Some now, er_updatedAt := now\<rparr>) db db'"
    "er_id x = expenseId" "be_archivedAt x = None" "\<not> be_isInvoice x" "sound_expense x" "\<not> linked_to_card x"
proof -
  from assms(2) obtain x where x: "find (\<lambda>e. er_id e = expenseId \<and> er_userId e = userId \<and> be_archivedAt e = None) (db_expenses db) = Some x"
    by (auto simp: archiveExpense_def split: option.splits)
  then have mem: "x \<in> set (db_expenses db)" "er_id x = expenseId" "er_userId x = userId" "be_archivedAt x = None"
    by (auto simp: find_Some_iff)
  let ?P = "\<lambda>e. er_id e = expenseId \<and> er_userId e = userId \<and> be_archivedAt e = None \<and> er_voidedAt e = None
      \<and> er_updatedAt e = er_updatedAt x" and ?y = "\<lambda>e. e\<lparr>be_archivedAt := Some now, er_voidedAt := Some now, er_updatedAt := now\<rparr>"
  from assms(2) have a: "er_systemOrigin x = ''manual''" "\<not> be_isInvoice x" "\<not> linked_to_card x"
    "length (filter ?P (db_expenses db)) = 1" "db' = update_expenses ?P ?y db"
    unfolding archiveExpense_def x option.case Let_def res_bind_eq_Inr res_when_eq_Inr by auto
  have ids: "distinct (map er_id (db_expenses db))" and sx: "sound_row x" using assms(1) mem(1) by (simp_all add: sound_expenses_def)
  then have sound: "sound_expense x" using a(1,2) by (simp add: sound_row_def)
  have "filter ?P (db_expenses db) \<noteq> []"
  proof
    assume "filter ?P (db_expenses db) = []"
    with a(4) show False by simp
  qed
  then obtain e where "e \<in> set (db_expenses db)" "?P e" by (auto simp: filter_empty_conv)
  then have "?P x" using ids mem by (auto simp: distinct_map inj_on_def)
  then have "db' = replace_expense x (?y x) db" unfolding a(5) using mem by (intro update_is_replace_expense [OF ids mem(1)]) auto
  moreover have "one_off_paid (?y x) = one_off_paid x" by (simp add: one_off_paid_def Let_def split: option.split)
  then have "sound_expense (?y x)" using sound by (simp add: sound_expense_def)
  ultimately have "expense_update x (?y x) db db'" using mem a by (simp add: expense_update_def sound_row_def)
  then show thesis using that mem a sound by blast
qed

lemma paid_row:
  assumes "sound_row x" "er_systemOrigin x = ''manual''" "payment_guards x month = Inr ()"
  shows "sound_row (paid_expense newId now x month db)"
    "er_payments (paid_expense newId now x month db) = er_payments x
      \<or> month \<notin> ep_month ` set (er_payments x)
        \<and> er_payments (paid_expense newId now x month db) = er_payments x @ [payment_of_month newId now x month db]"
proof -
  let ?y = "paid_expense newId now x month db" and ?p = "payment_of_month newId now x month db"
  show pays: "er_payments ?y = er_payments x \<or> month \<notin> ep_month ` set (er_payments x) \<and> er_payments ?y = er_payments x @ [?p]"
    by (auto simp: paid_expense_def Let_def list_ex_iff)
  have same: "be_amount ?y = be_amount x" "be_frequency ?y = be_frequency x" "be_dueDay ?y = be_dueDay x" "be_startsAt ?y = be_startsAt x"
    "be_endsAt ?y = be_endsAt x" "be_occurredAt ?y = be_occurredAt x" "er_splits ?y = er_splits x" "be_cardId ?y = be_cardId x"
    "er_versions ?y = er_versions x" "be_isInvoice ?y = be_isInvoice x" "er_billingPeriodEnd ?y = er_billingPeriodEnd x"
    "er_systemOrigin ?y = er_systemOrigin x"
    by (simp_all add: paid_expense_def Let_def)
  have fresh: "ep_month ?p = month \<and> ep_amount ?p = payable_cash x" if "month \<notin> ep_month ` set (er_payments x)"
    using that by (auto simp: payment_of_month_def new_payment_def find_None_iff split: option.splits bool.splits dest: find_Some_iff [THEN iffD1])
  have pos: "0 < payable_cash x" using assms(3) by (auto simp: payment_guards_def res_bind_eq_Inr)
  show "sound_row ?y"
  proof (cases "be_isInvoice x")
    case True
    with assms(3) obtain e where e: "keep_opt (er_billingPeriodEnd x) (be_occurredAt x) = Some e" "month = monthKey_of_date e"
      by (auto simp: payment_guards_def res_bind_eq_Inr split: option.splits)
    have old: "sound_invoice x" using assms(1,2) True by (simp add: sound_row_def)
    show ?thesis
    proof (cases "er_payments ?y = er_payments x")
      case True
      then show ?thesis using old \<open>be_isInvoice x\<close> by (simp add: sound_row_def sound_invoice_def same)
    next
      case False
      with pays have new: "month \<notin> ep_month ` set (er_payments x)" "er_payments ?y = er_payments x @ [?p]" by auto
      then have "er_payments x = []" using old e by (auto simp: sound_invoice_def)
      then show ?thesis using new fresh \<open>be_isInvoice x\<close> e(1) e(2) [symmetric]
        by (simp add: sound_row_def sound_invoice_def same payable_cash_def)
    qed
  next
    case False
    then have x: "sound_expense x" using assms(1,2) by (simp add: sound_row_def)
    from False assms(3) have "be_frequency x = ''mensal''" by (auto simp: payment_guards_def res_bind_eq_Inr)
    then have "be_frequency x \<noteq> ''unica''" by simp
    with x pays fresh pos False show ?thesis
      by (auto simp: sound_row_def sound_expense_def same)
  qed
qed

lemma pay_update:
  assumes "sound_expenses db" "payExpense newId now userId expenseId month db = Inr (db', row)"
  obtains x where "expense_update x row db db'" "er_id x = expenseId" "be_archivedAt x = None" "payment_guards x month = Inr ()"
    "row = paid_expense newId now x month db"
proof -
  from assms(2) obtain x where x: "find (\<lambda>e. er_id e = expenseId \<and> er_userId e = userId \<and> be_archivedAt e = None
      \<and> er_systemOrigin e = ''manual'') (db_expenses db) = Some x"
    by (auto simp: payExpense_def split: option.splits)
  then have mem: "x \<in> set (db_expenses db)" "er_id x = expenseId" "be_archivedAt x = None" "er_systemOrigin x = ''manual''"
    by (auto simp: find_Some_iff)
  from assms(2) have p: "payment_guards x month = Inr ()" "row = paid_expense newId now x month db"
    "db' = update_expenses (\<lambda>e. er_id e = expenseId) (\<lambda>e. row) db"
    unfolding payExpense_def x option.case Let_def res_bind_eq_Inr by auto
  have ids: "distinct (map er_id (db_expenses db))" and sx: "sound_row x" using assms(1) mem(1) by (simp_all add: sound_expenses_def)
  have "db' = replace_expense x row db" unfolding p(3) using mem by (intro update_is_replace_expense [OF ids mem(1)]) auto
  then have "expense_update x row db db'"
    using mem paid_row(1) [OF sx mem(4) p(1)] by (simp add: expense_update_def p(2)) (simp add: paid_expense_def Let_def)
  with mem p show thesis by (intro that)
qed

section \<open>Creating expenses, cards, invoices\<close>

lemma append_sound_expenses:
  assumes "sound_expenses db" "distinct (map er_id xs)" "er_id ` set xs \<inter> er_id ` set (db_expenses db) = {}" "\<forall>x \<in> set xs. sound_row x"
  shows "sound_expenses (db\<lparr>db_expenses := db_expenses db @ xs\<rparr>)"
  using assms by (auto simp: sound_expenses_def sound_cards_def)

lemma append_expenses_written:
  "\<forall>x \<in> set xs. er_systemOrigin x = ''manual'' \<Longrightarrow> expense_written db (db\<lparr>db_expenses := db_expenses db @ xs\<rparr>)"
  by (auto simp: expense_written_def keeps_system_rows_def filter_empty_conv)

lemma cards_sound_expenses:
  assumes "sound_expenses db" "distinct (map bc_id cards)" "\<forall>c \<in> set cards. plain_id (bc_id c)"
  shows "sound_expenses (db\<lparr>db_cards := cards\<rparr>)"
  using assms by (auto simp: sound_expenses_def sound_cards_def)

lemma update_cards_sound:
  assumes "sound_expenses db" "\<And>c. P c \<Longrightarrow> bc_id (f c) = bc_id c"
  shows "sound_expenses (update_cards P f db)"
proof -
  let ?cards = "map (\<lambda>c. if P c then f c else c) (db_cards db)"
  have ids: "map bc_id ?cards = map bc_id (db_cards db)" using assms(2) by simp
  then have "bc_id ` set ?cards = bc_id ` set (db_cards db)" by (metis set_map)
  then have "\<forall>c \<in> set ?cards. plain_id (bc_id c)"
    using assms(1) by (metis (no_types, lifting) image_iff sound_cards_def sound_expenses_def)
  moreover have "distinct (map bc_id ?cards)" unfolding ids using assms(1) by (simp add: sound_expenses_def sound_cards_def)
  ultimately show ?thesis unfolding update_cards_def by (intro cards_sound_expenses [OF assms(1)])
qed

lemma invoice_row_fields [simp]:
  "er_id (invoice_row D newId now userId c p i) = newId i" "er_systemOrigin (invoice_row D newId now userId c p i) = ''manual''"
  "be_isInvoice (invoice_row D newId now userId c p i)" "er_payments (invoice_row D newId now userId c p i) = []"
  "er_userId (invoice_row D newId now userId c p i) = userId" "be_cardId (invoice_row D newId now userId c p i) = Some (bc_id c)"
  by (simp_all add: invoice_row_def)

lemma invoice_row_sound: "sound_row (invoice_row D newId now userId c p i)"
  by (simp add: sound_row_def sound_invoice_def)

lemma create_append:
  assumes "decimal_arith D" "sound_expenses db" "parseCreateExpense body = Inr input"
    and "createExpense D sp newId now userId input db = Inr (db', row)"
  shows "db' = db\<lparr>db_expenses := db_expenses db @ [row]\<rparr>" "sound_expense row" "er_id row = newId (length (db_expenses db))"
    "er_systemOrigin row = ''manual''" "\<not> be_isInvoice row" "er_userId row = userId"
proof -
  obtain schedule tag resolved where c:
    "resolveSchedule Expense_Schedule (cx_frequency input) (cx_schedule input) None = Inr schedule"
    "resolveCustomTagId db userId ''expense'' (cx_customTagId input) = Inr tag" "truthy tag \<longrightarrow> cx_category input = ''outro''"
    "resolveAndValidateSplits D sp now userId (cx_amount input) (cx_splits input) (cx_cardId input)
      (cx_frequency input) None True (billing_db.truncate db) = Inr resolved"
    "retroactive_guard sp userId input schedule resolved db = Inr ()"
    "row = new_expense_row newId now userId input schedule tag resolved db" "db' = db\<lparr>db_expenses := db_expenses db @ [row]\<rparr>"
    using create_expense_effect [OF assms(4)] .
  have "sound_cards db" using assms(2) by (simp add: sound_expenses_def)
  from created_row_sound [OF assms(1) this assms(3) c(1,4)] show "sound_expense row" by (simp add: c(6))
  show "db' = db\<lparr>db_expenses := db_expenses db @ [row]\<rparr>" by (rule c(7))
  show "er_id row = newId (length (db_expenses db))" "er_systemOrigin row = ''manual''" "\<not> be_isInvoice row" "er_userId row = userId"
    by (simp_all add: c(6) new_expense_row_def Let_def)
qed

lemma archive_card_effect:
  assumes "archiveCard D sp newId now userId cardId db = Inr (db', row)"
  obtains c expenses today invoice rows where "own_card userId cardId db = Some c"
    "loadBillableExpensesForCards (db_expenses db) userId = Inr expenses" "todayInSaoPaulo sp now = Inr today"
    "final_invoice D sp today c expenses = Inr invoice"
    "res_bind (addDaysToKey (dayKeyOfDate today) 1)
       (\<lambda>day. res_some (\<lambda>e. hasFutureRecurringCardCharge D sp e (bc_id c) day) expenses) = Inr False"
    "rows = (if pi_amount invoice > 0 then [invoice_row D newId now userId c invoice (length (db_expenses db))] else [])"
    "row = archived_card now today c"
    "db' = update_cards (\<lambda>c'. bc_id c' = cardId) (\<lambda>c'. row) (db\<lparr>db_expenses := db_expenses db @ rows\<rparr>)"
proof -
  from assms obtain c where c: "own_card userId cardId db = Some c" by (auto simp: archiveCard_def split: option.splits)
  from assms obtain expenses today day invoice where
    "loadBillableExpensesForCards (db_expenses db) userId = Inr expenses" "todayInSaoPaulo sp now = Inr today"
    "addDaysToKey (dayKeyOfDate today) 1 = Inr day"
    "res_some (\<lambda>e. hasFutureRecurringCardCharge D sp e (bc_id c) day) expenses = Inr False"
    "final_invoice D sp today c expenses = Inr invoice" "row = archived_card now today c"
    "db' = update_cards (\<lambda>c'. bc_id c' = cardId) (\<lambda>c'. row) (db\<lparr>db_expenses := db_expenses db
       @ (if pi_amount invoice > 0 then [invoice_row D newId now userId c invoice (length (db_expenses db))] else [])\<rparr>)"
    unfolding archiveCard_def c option.case Let_def res_bind_eq_Inr res_when_eq_Inr by auto
  with c show thesis by (intro that) auto
qed

lemma own_card_facts: "own_card userId cardId db = Some c \<Longrightarrow> c \<in> set (db_cards db) \<and> bc_id c = cardId \<and> cr_userId c = userId \<and> cr_archivedAt c = None"
  by (auto simp: own_card_def find_Some_iff)

text \<open>A billing run updates cards by their ids and appends invoices.\<close>

definition owner_run :: "decimal_lib \<Rightarrow> tz_offset \<Rightarrow> (nat \<Rightarrow> string) \<Rightarrow> string \<Rightarrow> instant \<Rightarrow> finance_db \<Rightarrow> (finance_db \<times> nat) res" where
  "owner_run D sp newId userId now db =
     res_bind (processUserCardBilling D sp newId userId now (billing_db.truncate db)) (\<lambda>(b, n).
     Inr (db\<lparr>db_cards := Billing_Run.db_cards b, db_expenses := Billing_Run.db_expenses b\<rparr>, n))"

lemma billing_effect:
  assumes "owner_run D sp newId userId now db = Inr (db', n)"
  obtains cards rows where "db' = db\<lparr>db_cards := cards, db_expenses := db_expenses db @ rows\<rparr>" "map bc_id cards = map bc_id (db_cards db)"
    "\<exists>plans. rows = map (\<lambda>(i, crd, invoice). invoice_row D newId now userId crd invoice (length (db_expenses db) + i)) (enumerate 0 plans)"
proof -
  from assms obtain billable cutoff cards plans where r:
    "res_fold (bill_card D sp billable cutoff now) (db_cards db, [])
       (filter (\<lambda>c. cr_userId c = userId \<and> cr_archivedAt c = None) (db_cards db)) = Inr (cards, plans)"
    "db' = db\<lparr>db_cards := cards, db_expenses := db_expenses db
       @ map (\<lambda>(i, crd, invoice). invoice_row D newId now userId crd invoice (length (db_expenses db) + i)) (enumerate 0 plans)\<rparr>"
    by (auto simp: owner_run_def processUserCardBilling_def res_bind_eq_Inr Let_def billing_db.defs)
  have "map bc_id (fst (cards, plans)) = map bc_id (db_cards db)"
  proof (rule res_fold_invariant [OF r(1)])
    fix s x s' assume "map bc_id (fst s) = map bc_id (db_cards db)" "bill_card D sp billable cutoff now s x = Inr s'"
    moreover have "map bc_id (update_card_row i u rows) = map bc_id rows" for i u rows
      by (simp add: update_card_row_def apply_card_update_def)
    ultimately show "map bc_id (fst s') = map bc_id (db_cards db)"
      by (auto simp: bill_card_def res_bind_eq_Inr split: option.splits)
  qed simp
  then show thesis using that [OF r(2)] by auto
qed

lemma enumerated_ids:
  assumes "inj newId"
  shows "distinct (map er_id (map (\<lambda>(i, crd, invoice). invoice_row D newId now userId crd invoice (k + i)) (enumerate m plans)))"
proof (induction plans arbitrary: m)
  case (Cons p plans)
  have "newId (k + m) \<notin> er_id ` set (map (\<lambda>(i, crd, invoice). invoice_row D newId now userId crd invoice (k + i)) (enumerate (Suc m) plans))"
    by (auto simp: in_set_enumerate_eq inj_eq [OF assms] split: prod.splits)
  with Cons show ?case by (cases p) (simp del: map_map)
qed simp

section \<open>Steps\<close>

inductive expense_step :: "decimal_lib \<Rightarrow> tz_offset \<Rightarrow> finance_db \<Rightarrow> finance_db \<Rightarrow> bool" for D sp where
  create_expense: "parseCreateExpense body = Inr input \<Longrightarrow> newId (length (db_expenses db)) \<notin> er_id ` set (db_expenses db)
    \<Longrightarrow> createExpense D sp newId now userId input db = Inr (db', row) \<Longrightarrow> expense_step D sp db db'"
| edit_expense: "parseUpdateExpense body = Inr changes \<Longrightarrow> ok_day (local_day sp now)
    \<Longrightarrow> updateExpense D sp newId now userId expenseId changes db = Inr (db', row) \<Longrightarrow> expense_step D sp db db'"
| archive_expense: "archiveExpense D sp now userId expenseId db = Inr db' \<Longrightarrow> expense_step D sp db db'"
| pay_expense: "parsePayExpenseBody body = Inr month \<Longrightarrow> payExpense newId now userId expenseId month db = Inr (db', row)
    \<Longrightarrow> expense_step D sp db db'"
| create_card: "parseCreateCard body = Inr fresh_card \<Longrightarrow> newId (length (db_cards db)) \<notin> bc_id ` set (db_cards db)
    \<Longrightarrow> plain_id (newId (length (db_cards db))) \<Longrightarrow> createCard newId now userId fresh_card db = (db', crd) \<Longrightarrow> expense_step D sp db db'"
| edit_card: "parseUpdateCard body = Inr card_changes \<Longrightarrow> updateCard sp now userId cardId card_changes db = Inr (db', crd)
    \<Longrightarrow> expense_step D sp db db'"
| archive_card: "newId (length (db_expenses db)) \<notin> er_id ` set (db_expenses db)
    \<Longrightarrow> archiveCard D sp newId now userId cardId db = Inr (db', crd) \<Longrightarrow> expense_step D sp db db'"
| bill: "inj newId \<Longrightarrow> \<forall>i. newId i \<notin> er_id ` set (db_expenses db) \<Longrightarrow> owner_run D sp newId userId now db = Inr (db', n)
    \<Longrightarrow> expense_step D sp db db'"

definition manual_expenses :: "finance_db \<Rightarrow> expense_row list" where
  "manual_expenses db = filter (\<lambda>x. er_systemOrigin x = ''manual'') (db_expenses db)"

text \<open>What the other services owe: the cards and, but for a deleted tag, the manual expenses as they were.\<close>

definition keeps_expense_rows :: "finance_db \<Rightarrow> finance_db \<Rightarrow> bool" where
  "keeps_expense_rows db db' \<longleftrightarrow> db_cards db' = db_cards db \<and> distinct (map er_id (db_expenses db'))
     \<and> map untagged (manual_expenses db') = map untagged (manual_expenses db)"

inductive expense_reachable :: "decimal_lib \<Rightarrow> tz_offset \<Rightarrow> finance_db \<Rightarrow> bool" for D sp where
  start: "db_cards db = [] \<Longrightarrow> db_expenses db = [] \<Longrightarrow> expense_reachable D sp db"
| step: "expense_reachable D sp db \<Longrightarrow> expense_step D sp db db' \<Longrightarrow> expense_reachable D sp db'"
| others: "expense_reachable D sp db \<Longrightarrow> keeps_expense_rows db db' \<Longrightarrow> expense_reachable D sp db'"

section \<open>The invariant is kept\<close>

lemma sound_untagged: "sound_row (untagged x) = sound_row x"
  by (simp add: sound_row_def untagged_def sound_invoice_def sound_expense_def one_off_paid_def Let_def split: option.split)

lemma others_keep_expenses:
  assumes "sound_expenses db" "keeps_expense_rows db db'"
  shows "sound_expenses db'"
proof -
  have "sound_row x" if x: "x \<in> set (db_expenses db')" for x
  proof (cases "er_systemOrigin x = ''manual''")
    case True
    with x have "untagged x \<in> set (map untagged (manual_expenses db'))" by (simp add: manual_expenses_def)
    then have "untagged x \<in> set (map untagged (manual_expenses db))" using assms(2) by (simp only: keeps_expense_rows_def)
    then obtain y where "y \<in> set (db_expenses db)" "untagged x = untagged y" by (auto simp: manual_expenses_def)
    with assms(1) show ?thesis by (metis sound_expenses_def sound_untagged)
  qed (simp add: sound_row_def)
  with assms show ?thesis by (simp add: sound_expenses_def keeps_expense_rows_def sound_cards_def)
qed

lemma step_keeps_expenses:
  assumes "decimal_arith D" "expense_step D sp db db'" "sound_expenses db"
  shows "sound_expenses db' \<and> expense_written db db'"
  using assms(2)
proof cases
  case (create_expense body input newId now userId row)
  note c = create_append [OF assms(1,3) create_expense(1,3)]
  have "sound_row row" using c by (simp add: sound_row_def)
  then show ?thesis
    using append_sound_expenses [OF assms(3), of "[row]"] append_expenses_written [of "[row]" db] create_expense(2) c(1,3,4)
    by simp
next
  case (edit_expense body changes now newId userId expenseId row)
  obtain x where "expense_update x row db db'" using edit_update [OF assms(1,3) edit_expense(1,2,3)] .
  then show ?thesis
    using replace_sound_expenses [OF assms(3)] replace_expense_written [of x row db] by (simp add: expense_update_def)
next
  case (archive_expense now userId expenseId)
  obtain x where x: "expense_update x (x\<lparr>be_archivedAt := Some now, er_voidedAt := Some now, er_updatedAt := now\<rparr>) db db'"
    using archive_update [OF assms(3) archive_expense] .
  then show ?thesis
    using replace_sound_expenses [OF assms(3) x] by (auto simp: expense_update_def intro: replace_expense_written)
next
  case (pay_expense body month newId now userId expenseId row)
  obtain x where "expense_update x row db db'" using pay_update [OF assms(3) pay_expense(2)] .
  then show ?thesis
    using replace_sound_expenses [OF assms(3)] replace_expense_written [of x row db] by (simp add: expense_update_def)
next
  case (create_card body fresh_card newId now userId crd)
  then have "db' = db\<lparr>db_cards := db_cards db @ [new_card_row (newId (length (db_cards db))) now userId fresh_card]\<rparr>"
    by (auto simp: createCard_def Let_def)
  moreover have "sound_cards db" using assms(3) by (simp add: sound_expenses_def)
  ultimately show ?thesis
    using assms(3) create_card(2,3) cards_sound_expenses [OF assms(3)]
    by (auto simp: sound_cards_def new_card_row_def expense_written_def keeps_system_rows_def)
next
  case (edit_card body card_changes now userId cardId crd)
  then obtain c today where c: "own_card userId cardId db = Some c"
    "db' = update_cards (\<lambda>c'. bc_id c' = cardId) (\<lambda>c'. edited_card today card_changes c) db"
    by (auto simp: updateCard_def res_bind_eq_Inr Let_def split: option.splits)
  have "bc_id (edited_card today card_changes c) = cardId"
    using own_card_facts [OF c(1)] by (simp add: edited_card_def Let_def)
  then show ?thesis
    using update_cards_sound [OF assms(3)] by (simp add: c(2)) (simp add: expense_written_def keeps_system_rows_def update_cards_def)
next
  case (archive_card newId now userId cardId crd)
  obtain c expenses today invoice rows where a: "own_card userId cardId db = Some c"
    "rows = (if pi_amount invoice > 0 then [invoice_row D newId now userId c invoice (length (db_expenses db))] else [])"
    "crd = archived_card now today c"
    "db' = update_cards (\<lambda>c'. bc_id c' = cardId) (\<lambda>c'. crd) (db\<lparr>db_expenses := db_expenses db @ rows\<rparr>)"
    using archive_card_effect [OF archive_card(2)] by metis
  let ?db = "db\<lparr>db_expenses := db_expenses db @ rows\<rparr>"
  have "sound_expenses ?db"
    using archive_card(1) by (intro append_sound_expenses [OF assms(3)]) (auto simp: a(2) invoice_row_sound)
  moreover have "bc_id crd = cardId" using own_card_facts [OF a(1)] by (simp add: a(3) archived_card_def)
  ultimately have "sound_expenses db'" unfolding a(4) by (intro update_cards_sound) simp_all
  moreover have "expense_written db ?db" by (intro append_expenses_written) (simp add: a(2))
  ultimately show ?thesis by (simp add: a(4) expense_written_def keeps_system_rows_def update_cards_def)
next
  case (bill newId userId now n)
  obtain cards rows where b: "db' = db\<lparr>db_cards := cards, db_expenses := db_expenses db @ rows\<rparr>" "map bc_id cards = map bc_id (db_cards db)"
    "\<exists>plans. rows = map (\<lambda>(i, crd, invoice). invoice_row D newId now userId crd invoice (length (db_expenses db) + i)) (enumerate 0 plans)"
    using billing_effect [OF bill(3)] .
  have ids: "distinct (map er_id rows)" using b(3) enumerated_ids [OF bill(1)] by blast
  have rows: "sound_row x \<and> er_systemOrigin x = ''manual'' \<and> er_id x \<in> range newId" if "x \<in> set rows" for x
    using b(3) that invoice_row_sound by (auto split: prod.splits)
  then have "er_id ` set rows \<inter> er_id ` set (db_expenses db) = {}" using bill(2) by fastforce
  then have "sound_expenses (db\<lparr>db_expenses := db_expenses db @ rows\<rparr>)"
    using rows by (intro append_sound_expenses [OF assms(3) ids]) auto
  moreover have "bc_id ` set cards = bc_id ` set (db_cards db)" using b(2) by (metis set_map)
  then have "\<forall>c \<in> set cards. plain_id (bc_id c)"
    using assms(3) by (metis (no_types, lifting) image_iff sound_cards_def sound_expenses_def)
  moreover have "distinct (map bc_id cards)" unfolding b(2) using assms(3) by (simp add: sound_expenses_def sound_cards_def)
  ultimately have "sound_expenses (db\<lparr>db_expenses := db_expenses db @ rows\<rparr>\<lparr>db_cards := cards\<rparr>)"
    by (intro cards_sound_expenses)
  moreover have "expense_written db (db\<lparr>db_expenses := db_expenses db @ rows\<rparr>)"
    using rows by (intro append_expenses_written) auto
  moreover have "db' = db\<lparr>db_expenses := db_expenses db @ rows\<rparr>\<lparr>db_cards := cards\<rparr>" by (simp add: b(1))
  ultimately show ?thesis by (simp add: expense_written_def keeps_system_rows_def)
qed

lemma reachable_expenses:
  assumes "decimal_arith D" "expense_reachable D sp db"
  shows "sound_expenses db"
  using assms(2)
proof (induction rule: expense_reachable.induct)
  case (start db)
  then show ?case by (simp add: sound_expenses_def sound_cards_def)
next
  case (step db db')
  then show ?case using step_keeps_expenses [OF assms(1)] by blast
next
  case (others db db')
  then show ?case using others_keep_expenses by blast
qed

end
