(* ===== verification/Expense_Examples.thy ===== *)
theory Expense_Examples
  imports Expenses_System
begin

text \<open>
  Concrete runs of the expense services that the properties of \<open>Expense_Properties\<close> are applied to: a card with
  one dinner that is split between card and PIX, archived and its invoice paid, and a monthly rent.
\<close>

definition visa :: card_row where
  "visa = new_card_row ''card-1'' (noon 20490) ''ana''
     \<lparr>cc_name = ''Visa'', cc_limit = None, cc_closingDay = 20, cc_expiresAt = None\<rparr>"

definition card_db :: finance_db where
  "card_db = empty_db\<lparr>db_cards := [visa]\<rparr>"

definition visa_body :: "(string \<times> js) list" where
  "visa_body = [(''name'', JString ''Visa''), (''closingDay'', JNumber 20)]"

lemma card_reachable: "expense_reachable decimal_js sao_paulo_standard card_db"
proof -
  have "parseCreateCard visa_body = Inr \<lparr>cc_name = ''Visa'', cc_limit = None, cc_closingDay = 20, cc_expiresAt = None\<rparr>" by code_simp
  then have "expense_step decimal_js sao_paulo_standard empty_db card_db"
    by (rule expense_step.create_card [where newId = "\<lambda>i. ''card-1''" and now = "noon 20490" and userId = "''ana''" and crd = visa])
      (simp_all add: empty_db_def plain_id_def createCard_def card_db_def visa_def Let_def)
  moreover have "expense_reachable decimal_js sao_paulo_standard empty_db"
    by (rule expense_reachable.start) (simp_all add: empty_db_def)
  ultimately show ?thesis by (rule expense_reachable.step [rotated])
qed

definition dinner_body :: "(string \<times> js) list" where
  "dinner_body = [(''name'', JString ''Jantar''), (''amount'', JNumber 500), (''category'', JString ''outro''),
     (''frequency'', JString ''unica''), (''date'', JString ''2026-02-11''),
     (''splits'', JArray [JObject [(''kind'', JString ''card''), (''cardId'', JString ''card-1''), (''percent'', JNumber 60)],
        JObject [(''kind'', JString ''pix''), (''percent'', JNumber 40)]])]"

definition dinner_input :: create_expense_input where
  "dinner_input = \<lparr>cx_name = ''Jantar'', cx_amount = 500, cx_category = ''outro'', cx_frequency = ''unica'', cx_notes = None,
     cx_customTagId = None, cx_schedule = expense_schedule_body dinner_body, cx_cardId = JUndefined,
     cx_splits = js_field dinner_body ''splits''\<rparr>"

definition dinner :: expense_row where
  "dinner = \<lparr>be_amount = 500, be_cardId = None, be_isInvoice = False, be_frequency = ''unica'', be_dueDay = None,
     be_startsAt = None, be_endsAt = None, be_occurredAt = Some (noon 20495), be_createdAt = noon 20495, be_archivedAt = None,
     be_splits = [], be_obligationVersions = [], er_id = ''dinner'', er_userId = ''ana'', er_name = ''Jantar'',
     er_category = ''outro'', er_customTagId = None, er_paidForMonth = None, er_paidAt = None, er_notes = None,
     er_billingPeriodStart = None, er_billingPeriodEnd = None, er_voidedAt = None, er_systemOrigin = ''manual'',
     er_splits = [\<lparr>ss_kind = ''card'', ss_cardId = Some ''card-1'', ss_amount = 300, ss_percent = 60\<rparr>,
        \<lparr>ss_kind = ''pix'', ss_cardId = None, ss_amount = 200, ss_percent = 40\<rparr>],
     er_versions = [],
     er_payments = [\<lparr>ep_id = ''dinner'', ep_month = ''2026-02'', ep_amount = 200, ep_paidAt = noon 20495\<rparr>],
     er_updatedAt = noon 20495\<rparr>"

definition dinner_db :: finance_db where
  "dinner_db = card_db\<lparr>db_expenses := [dinner]\<rparr>"

lemma dinner_parsed: "parseCreateExpense dinner_body = Inr dinner_input" by code_simp


definition dinner_splits :: "resolved_split list" where
  "dinner_splits = [\<lparr>rs_kind = ''card'', rs_cardId = Some ''card-1'', rs_percent = 60, rs_amount = 300\<rparr>,
     \<lparr>rs_kind = ''pix'', rs_cardId = None, rs_percent = 40, rs_amount = 200\<rparr>]"

lemma visa_open_window:
  "currentCycleWindow sao_paulo_standard visa (todayKeyInSaoPaulo sao_paulo_standard (noon 20495)) = Inr (window_of 20490 20504 True)"
  by code_simp

lemma visa_commitment:
  "getCommittedByCard decimal_js sao_paulo_standard ''ana'' None (noon 20495) (billing_db.truncate card_db) = Inr [''card-1'' \<mapsto> 0]"
  using visa_open_window
  by (simp add: getCommittedByCard_def card_db_def empty_db_def billing_db.defs committed_on_card_def chargesTotalDecimal_def
      visa_def new_card_row_def)

lemma dinner_resolved:
  "resolveAndValidateSplits decimal_js sao_paulo_standard (noon 20495) ''ana'' 500 (cx_splits dinner_input) JUndefined ''unica'' None
     True (billing_db.truncate card_db) = Inr dinner_splits"
proof -
  let ?inputs = "[CardSplit ''card-1'' 60, PixSplit 40]"
  have "normalizeSplitInputs (cx_splits dinner_input) JUndefined = Inr (Some ?inputs)" by code_simp
  moreover have "validateSplitShape decimal_js ?inputs = Inr ()" by code_simp
  moreover have "assertCardsForSplits (noon 20495) ''ana'' ?inputs (billing_db.truncate card_db) = Inr [''card-1'' \<mapsto> visa]"
    by (simp add: assertCardsForSplits_def card_db_def visa_def new_card_row_def billing_db.defs)
  moreover have "allocateSplitAmounts decimal_js 500 (map part_of_input ?inputs) = dinner_splits" by code_simp
  moreover have "card_windows sao_paulo_standard (todayKeyInSaoPaulo sao_paulo_standard (noon 20495)) ?inputs [''card-1'' \<mapsto> visa]
      = Inr [(''card-1'', window_of 20490 20504 True)]"
    using visa_open_window by (simp add: card_windows_def List.map_filter_def)
  moreover have "assertCardLimits decimal_js [''card-1'' \<mapsto> visa] dinner_splits c f w = Inr ()" for c f w
    by (simp add: assertCardLimits_def dinner_splits_def assert_split_limit_def visa_def new_card_row_def)
  ultimately show ?thesis using visa_commitment by (simp add: resolveAndValidateSplits_def Let_def)
qed

lemma dinner_created:
  "createExpense decimal_js sao_paulo_standard (\<lambda>i. ''dinner'') (noon 20495) ''ana'' dinner_input card_db = Inr (dinner_db, dinner)"
proof -
  let ?s = "\<lparr>rv_day = Some None, rv_startsAt = Some None, rv_endsAt = Some None, rv_date = Some (Some (noon 20495))\<rparr>"
  have "resolveSchedule Expense_Schedule ''unica'' (cx_schedule dinner_input) None = Inr ?s"
    "assertUniqueDateNotFuture sao_paulo_standard (noon 20495) (Some (noon 20495)) = Inr ()" by code_simp+
  moreover have "new_expense_row (\<lambda>i. ''dinner'') (noon 20495) ''ana'' dinner_input ?s None dinner_splits card_db = dinner"
    by code_simp
  moreover have "card_db\<lparr>db_expenses := db_expenses card_db @ [dinner]\<rparr> = dinner_db"
    by (simp add: dinner_db_def card_db_def empty_db_def)
  moreover have "cx_frequency dinner_input = ''unica''" "cx_amount dinner_input = 500" "cx_cardId dinner_input = JUndefined"
    "cx_customTagId dinner_input = None"
    by (simp_all add: dinner_input_def)
  ultimately show ?thesis
    using dinner_resolved
    by (simp add: createExpense_def resolveCustomTagId_def truthy_def retroactive_guard_def present_def Let_def)
qed

lemma dinner_step: "expense_step decimal_js sao_paulo_standard card_db dinner_db"
  by (rule expense_step.create_expense [OF dinner_parsed _ dinner_created]) (simp add: card_db_def empty_db_def)

lemma dinner_reachable: "expense_reachable decimal_js sao_paulo_standard dinner_db"
  using card_reachable dinner_step by (rule expense_reachable.step)

section \<open>The card archived, its invoice paid\<close>

lemma dinner_loaded: "loadBillableExpensesForCards [dinner] ''ana'' = Inr [with_history dinner []]"
  by (simp add: loadBillableExpensesForCards_def billable_row_def dinner_def parseObligationVersions_def with_history_def billable_expense.defs)

definition dinner_invoice :: planned_invoice where
  "dinner_invoice = \<lparr>pi_closingOn = noon 20496, pi_periodStart = noon 20490, pi_amount = 300,
     pi_notes = ''Fechamento final antes do arquivamento do cartao''\<rparr>"

lemma today_noon: "ok_day n \<Longrightarrow> todayInSaoPaulo sao_paulo_standard (noon n) = Inr (noon n)"
  using standard.local_noon dayKeyToDate_noon by (simp add: todayInSaoPaulo_def)

lemma example_days: "ok_day 20490" "ok_day 20495" "ok_day 20496" "ok_day 20497"
  by code_simp+

lemma dinner_day: "oneOffKey sao_paulo_standard (with_history dinner []) = key 20495"
  using standard.local_noon [of 20495] example_days by (simp add: oneOffKey_def with_history_def dinner_def billable_expense.defs)

lemma dinner_occurs:
  "chargeOccurrences sao_paulo_standard (with_history dinner []) (windowFromDates (noon 20496) (noon 20490) True) = Inr 1"
proof -
  have "be_frequency (with_history dinner []) = ''unica''" "\<not> be_isInvoice (with_history dinner [])"
    by (simp_all add: with_history_def dinner_def billable_expense.defs)
  moreover have "compareDayKeys (key 20495) (key 20490) \<ge> 0" "compareDayKeys (key 20495) (key 20496) \<le> 0"
    using example_days by (simp_all add: compareDayKeys_signs)
  ultimately show ?thesis
    using dinner_day noon_key [of 20490] noon_key [of 20496]
    by (simp add: chargeOccurrences_def windowFromDates_def window_lower_def)
qed

lemma dinner_share: "splitShareFor decimal_js (with_history dinner []) (TCard ''card-1'') = 300"
  by code_simp

lemma dinner_invoiced:
  "final_invoice decimal_js sao_paulo_standard (noon 20496) visa [with_history dinner []] = Inr dinner_invoice"
proof -
  let ?e = "with_history dinner []"
  have e: "be_frequency ?e = ''unica''" "\<not> be_isInvoice ?e" by (simp_all add: with_history_def dinner_def billable_expense.defs)
  have "dec_mul decimal_js 300 1 = 300" "dec_plus decimal_js 0 300 = 300"
    using js_decimal.mul_exact [of 300 1] js_decimal.plus_exact [of 0 300] grid_fits20 [of 0 300] on_grid_of_int [of 0 300] by simp_all
  moreover have "compareDayKeys (key 20495) (dayKeyInSaoPaulo sao_paulo_standard (noon 20490)) \<ge> 0"
    using example_days standard.local_noon [of 20490] by (simp add: compareDayKeys_signs)
  moreover have "card_createdAt visa = noon 20490" "card_lastInvoicedOn visa = None" "bc_id visa = ''card-1''"
    by (simp_all add: visa_def new_card_row_def)
  ultimately show ?thesis
    using e dinner_share dinner_occurs dinner_day today_noon [OF example_days(1)]
    by (simp add: final_invoice_def dinner_invoice_def chargesTotalForClosing_def chargesTotalDecimal_def
        chargeAmountDecimal_def preCreationOneOffsDecimal_def)
qed

definition invoice_db :: finance_db where
  "invoice_db = dinner_db\<lparr>db_cards := [archived_card (noon 20496) (noon 20496) visa],
     db_expenses := [dinner, invoice_row decimal_js (\<lambda>i. ''invoice'') (noon 20496) ''ana'' visa dinner_invoice 1]\<rparr>"

lemma visa_archived:
  "archiveCard decimal_js sao_paulo_standard (\<lambda>i. ''invoice'') (noon 20496) ''ana'' ''card-1'' dinner_db
   = Inr (invoice_db, archived_card (noon 20496) (noon 20496) visa)"
proof -
  have "addDaysToKey (dayKeyOfDate (noon 20496)) 1 = Inr (key 20497)"
    using addDaysToKey_key [OF example_days(3), of 1] noon_key [of 20496] by simp
  moreover have "hasFutureRecurringCardCharge decimal_js sao_paulo_standard (with_history dinner []) ''card-1'' k = Inr False" for k
    by (simp add: hasFutureRecurringCardCharge_def with_history_def dinner_def billable_expense.defs)
  moreover have "own_card ''ana'' ''card-1'' dinner_db = Some visa" "bc_id visa = ''card-1''"
    by (simp_all add: own_card_def dinner_db_def card_db_def visa_def new_card_row_def)
  ultimately show ?thesis
    using dinner_loaded dinner_invoiced today_noon [OF example_days(3)]
    by (simp add: archiveCard_def dinner_db_def card_db_def invoice_db_def dinner_invoice_def Let_def update_cards_def)
qed

lemma invoice_reachable: "expense_reachable decimal_js sao_paulo_standard invoice_db"
proof (rule expense_reachable.step [OF dinner_reachable])
  show "expense_step decimal_js sao_paulo_standard dinner_db invoice_db"
    by (rule expense_step.archive_card [OF _ visa_archived]) (simp add: dinner_db_def dinner_def)
qed

definition paid_db :: finance_db where
  "paid_db = fst (projr (payExpense (\<lambda>i. ''payment'') (noon 20500) ''ana'' ''invoice'' ''2026-02'' invoice_db))"

lemma invoice_paid:
  "\<exists>row. payExpense (\<lambda>i. ''payment'') (noon 20500) ''ana'' ''invoice'' ''2026-02'' invoice_db = Inr (paid_db, row)
    \<and> map (\<lambda>p. (ep_month p, ep_amount p)) (er_payments row) = [(''2026-02'', 300)]
    \<and> row \<in> set (filter be_isInvoice (db_expenses paid_db))"
proof -
  let ?x = "invoice_row decimal_js (\<lambda>i. ''invoice'') (noon 20496) ''ana'' visa dinner_invoice 1"
  have "monthKey_of_date (noon 20496) = ''2026-02''" by code_simp
  moreover have "dec_places decimal_js 2 ROUND_HALF_UP 300 = 300" by code_simp
  ultimately have "payment_guards ?x ''2026-02'' = Inr ()" "payable_cash ?x = 300"
    by (simp_all add: payment_guards_def payable_cash_def invoice_row_def dinner_invoice_def keep_opt_def)
  then show ?thesis
    by (simp add: paid_db_def payExpense_def invoice_db_def dinner_def Let_def update_expenses_def paid_expense_def
      payment_of_month_def new_payment_def) (simp add: invoice_row_def)
qed

lemma pay_step: "expense_step decimal_js sao_paulo_standard invoice_db paid_db"
proof -
  have "parsePayExpenseBody [(''month'', JString ''2026-02'')] = Inr ''2026-02''" by code_simp
  then show ?thesis using expense_step.pay_expense invoice_paid by blast
qed

end
