(* ===== verification/Expense_Properties.thy ===== *)
theory Expense_Properties
  imports Expenses_System Expense_Examples
begin

text \<open>
  The properties of the expense and card services: the invariant of the reachable states, the cash of
  one-offs, invoices and recurring history as facts that no step rewrites, payments, voids and archived
  cards, the guards of an edit as guards of the row that is written, and the edit that removes a card.
\<close>

section \<open>Loading sound rows\<close>

lemma sound_version_parsed:
  assumes "sound_version v" "1 \<le> vr_sequence v" "vr_sequence v \<le> MAX_SAFE_INTEGER"
  obtains ss where "vr_splits v = obligationSplitSnapshot ss" "sound_splits (vr_amount v) ss"
    "parse_version_row v = Inr \<lparr>ov_sequence = vr_sequence v, ov_effectiveMonth = vr_effectiveMonth v, ov_amount = vr_amount v,
       ov_cardId = vr_cardId v, ov_splits = map billable_of_snapshot ss\<rparr>"
proof -
  from assms(1) obtain ss where ss: "vr_splits v = obligationSplitSnapshot ss" "sound_splits (vr_amount v) ss" "cents (vr_amount v)"
    "is_month_text (vr_effectiveMonth v)"
    by (auto simp: sound_version_def stored_amount_def)
  then have "list_all ok_snapshot ss" "ss = [] \<or> (\<Sum>s \<leftarrow> ss. ss_amount s) = vr_amount v"
    by (auto simp: sound_splits_def plain_split_def list_all_iff)
  from snapshot_parsed [OF this(1) ss(1,4) assms(2,3) ss(3) this(2)] ss(1,2) show thesis
    by (intro that) (auto simp: parseObligationVersions_def res_bind_eq_Inr)
qed

lemma res_bind_Inr_right [simp]: "res_bind m Inr = m"
  by (cases m) auto

lemma res_mapM_append: "res_mapM f (xs @ ys) = res_bind (res_mapM f xs) (\<lambda>us. res_bind (res_mapM f ys) (\<lambda>vs. Inr (us @ vs)))"
  by (induction xs) (auto simp: res_bind_assoc)

lemma sound_versions_parsed:
  assumes "sound_versions vs" "int (length vs) \<le> MAX_SAFE_INTEGER"
  obtains ovs where "parseObligationVersions vs = Inr ovs" "map ov_sequence ovs = map vr_sequence vs" "length ovs = length vs"
proof -
  have "\<exists>ov. parse_version_row v = Inr ov \<and> ov_sequence ov = vr_sequence v" if v: "v \<in> set vs" for v
  proof -
    from v assms(1) have "vr_sequence v \<in> set (map (\<lambda>i. int i + 1) [0..<length vs])"
      unfolding sound_versions_def by (metis image_eqI set_map)
    then have "1 \<le> vr_sequence v" "vr_sequence v \<le> MAX_SAFE_INTEGER" using assms(2) by auto
    moreover have "sound_version v" using v assms(1) by (simp add: sound_versions_def list_all_iff)
    ultimately show ?thesis using sound_version_parsed by fastforce
  qed
  then have "\<exists>ovs. res_mapM parse_version_row ws = Inr ovs \<and> map ov_sequence ovs = map vr_sequence ws" if "set ws \<subseteq> set vs" for ws
    using that by (induction ws) fastforce+
  then obtain ovs where "res_mapM parse_version_row vs = Inr ovs" "map ov_sequence ovs = map vr_sequence vs" by blast
  with that show thesis by (metis length_map parseObligationVersions_def)
qed

lemma billable_loaded:
  assumes "sound_versions (er_versions x)" "parseObligationVersions (er_versions x) = Inr ovs"
  shows "billable_row x = Inr (with_history x ovs)"
  using assms by (simp add: billable_row_def sort_versions with_history_def)

section \<open>Properties of the tables\<close>

text \<open>C4. The expenses table is always well formed: in every reachable state a manual expense has the
  schedule its frequency requires, splits that are absent or add up to its amount to the cent with a card
  among them, the card id that its splits say, at most one payment per month, each of a positive amount, and
  a history of versions that the billing can load, never empty for a recurring expense.\<close>

theorem expenses_stay_sound:
  assumes "decimal_arith D" "expense_reachable D sp db" "x \<in> set (db_expenses db)"
    and "er_systemOrigin x = ''manual''" "\<not> be_isInvoice x" "int (length (er_versions x)) \<le> MAX_SAFE_INTEGER"
  shows "well_scheduled (be_frequency x) (be_dueDay x) (be_startsAt x) (be_endsAt x) (be_occurredAt x)
    \<and> (er_splits x = [] \<or> (\<Sum>s \<leftarrow> er_splits x. ss_amount s) = be_amount x \<and> list_ex (\<lambda>s. ss_kind s = ''card'') (er_splits x))
    \<and> be_cardId x = (case er_splits x of [s] \<Rightarrow> ss_cardId s | _ \<Rightarrow> None)
    \<and> distinct (map ep_month (er_payments x)) \<and> (\<forall>p \<in> set (er_payments x). 0 < ep_amount p)
    \<and> (\<exists>e. billable_row x = Inr e \<and> length (be_obligationVersions e) = length (er_versions x))
    \<and> (be_frequency x \<noteq> ''unica'' \<longrightarrow> er_versions x \<noteq> [])"
proof -
  have x: "sound_expense x" using reachable_expenses [OF assms(1,2)] assms(3-5) by (auto simp: sound_expenses_def sound_row_def)
  then have v: "sound_versions (er_versions x)" by (simp add: sound_expense_def)
  obtain ovs where "parseObligationVersions (er_versions x) = Inr ovs" "length ovs = length (er_versions x)"
    using sound_versions_parsed [OF v assms(6)] .
  then have "\<exists>e. billable_row x = Inr e \<and> length (be_obligationVersions e) = length (er_versions x)"
    using billable_loaded [OF v] by (auto simp: with_history_def billable_expense.defs)
  with x show ?thesis by (auto simp: sound_expense_def sound_splits_def card_of_def list_all_iff split: if_splits)
qed

theorem expenses_stay_sound_witness:
  "(\<Sum>s \<leftarrow> er_splits dinner. ss_amount s) = 500 \<and> distinct (map ep_month (er_payments dinner))
    \<and> well_scheduled ''unica'' None None None (Some (noon 20495))"
proof -
  have "dinner \<in> set (db_expenses dinner_db)" by (simp add: dinner_db_def)
  then show ?thesis
    using expenses_stay_sound [OF js_decimal.decimal_arith_axioms dinner_reachable, of dinner] by (simp add: dinner_def MAX_SAFE_INTEGER_def)
qed

text \<open>C5. The cash of a one-off is recorded exactly once: in every reachable state a manual one-off with a cash
  part has one payment, of that part, dated on its day and counted in its month, and a one-off that is all on
  cards has none, after any sequence of edits of its amount, its date and its split.\<close>

theorem one_off_cash_is_recorded:
  assumes "decimal_arith D" "expense_reachable D sp db" "x \<in> set (db_expenses db)"
    and "er_systemOrigin x = ''manual''" "\<not> be_isInvoice x" "be_frequency x = ''unica''"
  shows "\<exists>d. be_occurredAt x = Some d
    \<and> map (\<lambda>p. (ep_amount p, ep_month p, dateKey (ep_paidAt p))) (er_payments x)
      = (if cashOfPersistedExpense x > 0 then [(cashOfPersistedExpense x, take 7 (dateKey d), dateKey d)] else [])"
proof -
  have x: "sound_expense x" using reachable_expenses [OF assms(1,2)] assms(3-5) by (auto simp: sound_expenses_def sound_row_def)
  then have "one_off_paid x" "cashOfPersistedExpense x = cash_of (be_amount x) (er_splits x)"
    using assms(6) cash_persisted [of x] by (simp_all add: sound_expense_def)
  then show ?thesis by (auto simp: one_off_paid_def Let_def split: option.splits if_splits)
qed

theorem one_off_cash_is_recorded_witness:
  "map (\<lambda>p. (ep_amount p, ep_month p, dateKey (ep_paidAt p))) (er_payments dinner)
    = [(cashOfPersistedExpense dinner, take 7 (dateKey (noon 20495)), dateKey (noon 20495))] \<and> cashOfPersistedExpense dinner = 200"
proof -
  have "dinner \<in> set (db_expenses dinner_db)" by (simp add: dinner_db_def)
  moreover have "cashOfPersistedExpense dinner = 200" by code_simp
  moreover have "er_systemOrigin dinner = ''manual''" "\<not> be_isInvoice dinner" "be_frequency dinner = ''unica''"
    "be_occurredAt dinner = Some (noon 20495)"
    by (simp_all add: dinner_def)
  ultimately show ?thesis
    using one_off_cash_is_recorded [OF js_decimal.decimal_arith_axioms dinner_reachable, of dinner] by simp
qed

text \<open>What an invoice says: everything but its payment.\<close>

definition invoice_facts :: "expense_row \<Rightarrow> expense_row" where
  "invoice_facts x = x\<lparr>er_payments := [], er_paidForMonth := None, er_paidAt := None, er_updatedAt := 0\<rparr>"

definition invoices :: "finance_db \<Rightarrow> expense_row list" where
  "invoices db = filter be_isInvoice (db_expenses db)"

lemma replaced_invoices:
  assumes "be_isInvoice y = be_isInvoice x" "be_isInvoice x \<Longrightarrow> invoice_facts y = invoice_facts x"
  shows "map invoice_facts (invoices (replace_expense x y db)) = map invoice_facts (invoices db)"
proof -
  have "map invoice_facts (filter be_isInvoice (map (\<lambda>e. if e = x then y else e) es)) = map invoice_facts (filter be_isInvoice es)" for es
    using assms by (induction es) auto
  then show ?thesis by (simp add: invoices_def)
qed

lemma replaced_plain:
  assumes "expense_update x y db db'" "\<not> be_isInvoice x"
  shows "map invoice_facts (invoices db') = map invoice_facts (invoices db)"
  using assms replaced_invoices [of y x db] by (auto simp: expense_update_def)

lemma paid_invoice_facts: "invoice_facts (paid_expense newId now x month db) = invoice_facts x"
  by (simp add: invoice_facts_def paid_expense_def Let_def)

lemma step_invoices:
  assumes "decimal_arith D" "expense_step D sp db db'" "sound_expenses db"
  shows "\<exists>new. map invoice_facts (invoices db') = map invoice_facts (invoices db) @ new"
  using assms(2)
proof cases
  case (create_expense body input newId now userId row)
  note c = create_append [OF assms(1,3) create_expense(1,3)]
  from c(1,5) show ?thesis by (simp add: invoices_def)
next
  case (edit_expense body changes now newId userId expenseId row)
  obtain x where "expense_update x row db db'" "\<not> be_isInvoice x" using edit_update [OF assms(1,3) edit_expense(1,2,3)] .
  then show ?thesis using replaced_plain by fastforce
next
  case (archive_expense now userId expenseId)
  obtain x where "expense_update x (x\<lparr>be_archivedAt := Some now, er_voidedAt := Some now, er_updatedAt := now\<rparr>) db db'"
    "\<not> be_isInvoice x" using archive_update [OF assms(3) archive_expense] .
  then show ?thesis using replaced_plain by fastforce
next
  case (pay_expense body month newId now userId expenseId row)
  obtain x where "expense_update x row db db'" "row = paid_expense newId now x month db"
    using pay_update [OF assms(3) pay_expense(2)] .
  then have "map invoice_facts (invoices db') = map invoice_facts (invoices db)"
    using replaced_invoices [of row x db] paid_invoice_facts by (auto simp: expense_update_def)
  then show ?thesis by simp
next
  case (create_card body fresh_card newId now userId crd)
  then show ?thesis by (auto simp: createCard_def Let_def invoices_def)
next
  case (edit_card body card_changes now userId cardId crd)
  then show ?thesis by (auto simp: updateCard_def res_bind_eq_Inr Let_def invoices_def update_cards_def split: option.splits)
next
  case (archive_card newId now userId cardId crd)
  obtain c rows where "db' = update_cards (\<lambda>c'. bc_id c' = cardId) (\<lambda>c'. crd) (db\<lparr>db_expenses := db_expenses db @ rows\<rparr>)"
    using archive_card_effect [OF archive_card(2)] by metis
  then show ?thesis by (simp add: invoices_def update_cards_def)
next
  case (bill newId userId now n)
  obtain cards rows where "db' = db\<lparr>db_cards := cards, db_expenses := db_expenses db @ rows\<rparr>" using billing_effect [OF bill(3)] .
  then show ?thesis by (simp add: invoices_def)
qed

text \<open>C15. Invoices are final: whatever request comes, creating, editing, voiding or paying expenses, changing or
  archiving cards, billing again, every invoice stays as it was issued, in the same order, new ones are only
  added, and an invoice is paid at most once, in the month of its closing, with exactly its amount.\<close>

theorem invoices_are_final:
  assumes "decimal_arith D" "expense_reachable D sp db" "expense_step D sp db db'"
  shows "(\<exists>new. map invoice_facts (invoices db') = map invoice_facts (invoices db) @ new)
    \<and> (\<forall>x \<in> set (invoices db'). er_systemOrigin x = ''manual'' \<longrightarrow> er_payments x = []
        \<or> (\<exists>e. keep_opt (er_billingPeriodEnd x) (be_occurredAt x) = Some e
             \<and> map (\<lambda>p. (ep_month p, ep_amount p)) (er_payments x) = [(monthKey_of_date e, be_amount x)]))"
proof -
  have s: "sound_expenses db" by (rule reachable_expenses [OF assms(1,2)])
  with step_keeps_expenses [OF assms(1,3)] have "sound_expenses db'" by blast
  then have "\<forall>x \<in> set (invoices db'). er_systemOrigin x = ''manual'' \<longrightarrow> sound_invoice x"
    by (auto simp: sound_expenses_def invoices_def sound_row_def)
  then show ?thesis using step_invoices [OF assms(1,3) s] by (simp add: sound_invoice_def)
qed

theorem invoices_are_final_witness:
  "(\<exists>new. map invoice_facts (invoices paid_db) = map invoice_facts (invoices invoice_db) @ new)
    \<and> length (invoices invoice_db) = 1 \<and> (\<exists>x \<in> set (invoices paid_db). map (\<lambda>p. (ep_month p, ep_amount p)) (er_payments x) = [(''2026-02'', 300)])"
proof -
  have "length (invoices invoice_db) = 1" by (simp add: invoices_def invoice_db_def dinner_def)
  moreover obtain row where "map (\<lambda>p. (ep_month p, ep_amount p)) (er_payments row) = [(''2026-02'', 300)]"
    "row \<in> set (invoices paid_db)" using invoice_paid unfolding invoices_def by (elim exE conjE)
  moreover have "\<exists>new. map invoice_facts (invoices paid_db) = map invoice_facts (invoices invoice_db) @ new"
    using invoices_are_final [OF js_decimal.decimal_arith_axioms invoice_reachable pay_step] by (rule conjunct1)
  ultimately show ?thesis by (intro conjI bexI [of _ row]) simp_all
qed

end
