(* ===== verification/Expense_History.thy ===== *)
theory Expense_History
  imports Expense_Properties
begin

text \<open>
  What the requests of the expense service may do to one recurring expense and its payments: its history only grows,
  a month is paid once, an edit leaves the days of closed invoices alone, and what an edit, a void or an
  archived card does to later charges.
\<close>

section \<open>Recurring history\<close>

text \<open>Versions and payments are only appended.\<close>

definition history_extends :: "expense_row \<Rightarrow> expense_row \<Rightarrow> bool" where
  "history_extends x y \<longleftrightarrow> er_id y = er_id x \<and> be_createdAt y = be_createdAt x
     \<and> (\<exists>vs. er_versions y = er_versions x @ vs) \<and> (\<exists>ps. er_payments y = er_payments x @ ps)"

lemma history_extends_refl [simp]: "history_extends x x"
  by (simp add: history_extends_def)

lemma update_extends:
  assumes "expense_update y z db db'" "x = y \<Longrightarrow> history_extends x z" "x \<in> set (db_expenses db)"
  shows "\<exists>x' \<in> set (db_expenses db'). history_extends x x'"
proof (cases "x = y")
  case True
  with assms have "z \<in> set (db_expenses db')" by (auto simp: expense_update_def image_iff)
  with assms(2) True show ?thesis by blast
next
  case False
  with assms(1,3) have "x \<in> set (db_expenses db')" by (auto simp: expense_update_def image_iff)
  then show ?thesis by (intro bexI [of _ x]) simp_all
qed

lemma edited_extends:
  assumes "be_frequency x \<noteq> ''unica''"
  shows "history_extends x (edited_expense sp newId now noted x input t db)"
  using assms by (auto simp: history_extends_def edited_expense_def Let_def revised_payments_def safeCashCorrection_def
      split: option.split)

lemma paid_extends: "history_extends x (paid_expense newId now x month db)"
  by (simp add: history_extends_def paid_expense_def Let_def)

text \<open>C17. Recurring history is append-only: whatever request comes, a manual expense that is recurring keeps every
  stored version of its terms and every payment, in the order they were made; requests only add to them. It is
  never deleted, and voiding it keeps its history.\<close>

theorem recurring_history_is_kept:
  assumes "decimal_arith D" "expense_reachable D sp db" "expense_step D sp db db'"
    and "x \<in> set (db_expenses db)" "be_frequency x \<noteq> ''unica''"
  shows "\<exists>x' \<in> set (db_expenses db'). er_id x' = er_id x \<and> be_createdAt x' = be_createdAt x
    \<and> (\<exists>vs. er_versions x' = er_versions x @ vs) \<and> (\<exists>ps. er_payments x' = er_payments x @ ps)"
proof -
  note s = reachable_expenses [OF assms(1,2)]
  have "\<exists>x' \<in> set (db_expenses db'). history_extends x x'"
    using assms(3)
  proof cases
    case (create_expense body input newId now userId row)
    then show ?thesis using create_append(1) [OF assms(1) s create_expense(1,3)] assms(4) by (intro bexI [of _ x]) simp_all
  next
    case (edit_expense body changes now newId userId expenseId row)
    obtain y t noted where "expense_update y row db db'" "row = edited_expense sp newId now noted y changes t db"
      using edit_update [OF assms(1) s edit_expense(1,2,3)] by metis
    then show ?thesis using update_extends [of y row db db' x] edited_extends assms(4,5) by blast
  next
    case (archive_expense now userId expenseId)
    obtain y where "expense_update y (y\<lparr>be_archivedAt := Some now, er_voidedAt := Some now, er_updatedAt := now\<rparr>) db db'"
      using archive_update [OF s archive_expense] .
    then show ?thesis by (rule update_extends [OF _ _ assms(4)]) (simp add: history_extends_def)
  next
    case (pay_expense body month newId now userId expenseId row)
    obtain y where "expense_update y row db db'" "row = paid_expense newId now y month db"
      using pay_update [OF s pay_expense(2)] .
    then show ?thesis using update_extends [of y row db db' x] paid_extends assms(4) by blast
  next
    case (create_card body fresh_card newId now userId crd)
    then show ?thesis using assms(4) by (intro bexI [of _ x]) (auto simp: createCard_def Let_def)
  next
    case (edit_card body card_changes now userId cardId crd)
    then have "db_expenses db' = db_expenses db"
      by (auto simp: updateCard_def res_bind_eq_Inr Let_def update_cards_def split: option.splits)
    then show ?thesis using assms(4) by (intro bexI [of _ x]) simp_all
  next
    case (archive_card newId now userId cardId crd)
    obtain rows where "db' = update_cards (\<lambda>c'. bc_id c' = cardId) (\<lambda>c'. crd) (db\<lparr>db_expenses := db_expenses db @ rows\<rparr>)"
      using archive_card_effect [OF archive_card(2)] by metis
    then show ?thesis using assms(4) by (intro bexI [of _ x]) (simp_all add: update_cards_def)
  next
    case (bill newId userId now n)
    obtain cards rows where "db' = db\<lparr>db_cards := cards, db_expenses := db_expenses db @ rows\<rparr>" using billing_effect [OF bill(3)] .
    then show ?thesis using assms(4) by (intro bexI [of _ x]) simp_all
  qed
  then show ?thesis by (simp add: history_extends_def)
qed

section \<open>Paying\<close>

lemma paid_fields:
  "be_isInvoice (paid_expense newId now x month db) = be_isInvoice x" "be_amount (paid_expense newId now x month db) = be_amount x"
  "be_frequency (paid_expense newId now x month db) = be_frequency x" "be_startsAt (paid_expense newId now x month db) = be_startsAt x"
  "be_endsAt (paid_expense newId now x month db) = be_endsAt x" "be_occurredAt (paid_expense newId now x month db) = be_occurredAt x"
  "be_cardId (paid_expense newId now x month db) = be_cardId x" "er_splits (paid_expense newId now x month db) = er_splits x"
  "er_billingPeriodEnd (paid_expense newId now x month db) = er_billingPeriodEnd x"
  "be_archivedAt (paid_expense newId now x month db) = be_archivedAt x" "er_userId (paid_expense newId now x month db) = er_userId x"
  "er_id (paid_expense newId now x month db) = er_id x" "er_systemOrigin (paid_expense newId now x month db) = er_systemOrigin x"
  "er_paidForMonth (paid_expense newId now x month db) = Some month"
  by (simp_all add: paid_expense_def Let_def)

lemma payment_month: "ep_month (payment_of_month newId now x month db) = month"
  by (auto simp: payment_of_month_def new_payment_def split: option.splits dest: find_Some_iff [THEN iffD1])

lemma paid_month: "list_ex (\<lambda>p. ep_month p = month) (er_payments (paid_expense newId now x month db))"
  using payment_month [of newId now x month db] by (auto simp: paid_expense_def Let_def list_ex_iff)

lemma paid_again: "paid_expense newId' now' (paid_expense newId now x month db) month db' = paid_expense newId now x month db"
proof -
  have "paid_expense newId' now' y month db' = y" if "list_ex (\<lambda>p. ep_month p = month) (er_payments y)" "er_paidForMonth y = Some month" for y
    using that by (simp add: paid_expense_def Let_def)
  with paid_month paid_fields(14) show ?thesis by blast
qed

lemma still_payable: "payment_guards (paid_expense newId now x month db) month = payment_guards x month"
  by (simp add: payment_guards_def payable_cash_def paid_fields)

lemma distinct_once: "distinct (map f xs) \<Longrightarrow> x \<in> set xs \<Longrightarrow> filter (\<lambda>y. f y = f x) xs = [x]"
  by (induction xs) (auto simp: filter_empty_conv image_iff)

lemma new_payment_amount:
  assumes "p \<in> set (er_payments (paid_expense newId now x month db))" "p \<notin> set (er_payments x)"
  shows "ep_amount p = payable_cash x"
proof -
  from assms have p: "p = payment_of_month newId now x month db" "\<not> list_ex (\<lambda>p. ep_month p = month) (er_payments x)"
    by (auto simp: paid_expense_def Let_def split: if_splits)
  from p(2) have "find (\<lambda>p. ep_month p = month) (er_payments x) = None" by (auto simp: find_None_iff list_ex_iff)
  with p(1) show ?thesis by (simp add: payment_of_month_def new_payment_def)
qed

lemma find_only:
  assumes "x \<in> set xs" "P x" "\<And>y. y \<in> set xs \<Longrightarrow> P y \<Longrightarrow> y = x"
  shows "find P xs = Some x"
proof (cases "find P xs")
  case None
  with assms(1,2) show ?thesis by (simp add: find_None_iff)
next
  case (Some y)
  then have "y \<in> set xs" "P y" by (auto simp: find_Some_iff)
  with assms(3) Some show ?thesis by simp
qed

lemma payments_distinct: "sound_row x \<Longrightarrow> er_systemOrigin x = ''manual'' \<Longrightarrow> distinct (map ep_month (er_payments x))"
proof -
  assume "sound_row x" "er_systemOrigin x = ''manual''"
  then consider "sound_expense x" | "er_payments x = []" | m a where "map (\<lambda>p. (ep_month p, ep_amount p)) (er_payments x) = [(m, a)]"
    by (auto simp: sound_row_def sound_invoice_def split: if_splits)
  then show ?thesis
  proof cases
    case 3
    then show ?thesis by (cases "er_payments x") auto
  qed (simp_all add: sound_expense_def)
qed

text \<open>C26. Paying is idempotent: after a month is paid, sending the payment again, at any later time, is accepted and
  changes nothing, and the month has exactly one payment, of the cash the expense then owed if it is new.\<close>

theorem paying_twice_is_paying_once:
  assumes "decimal_arith D" "expense_reachable D sp db" "payExpense newId now userId expenseId month db = Inr (db', row)"
  shows "payExpense newId' now' userId expenseId month db' = Inr (db', row)
    \<and> (\<exists>p. filter (\<lambda>q. ep_month q = month) (er_payments row) = [p]
        \<and> (\<forall>x \<in> set (db_expenses db). er_id x = expenseId \<longrightarrow> p \<notin> set (er_payments x) \<longrightarrow> ep_amount p = payable_cash x))"
proof -
  note s = reachable_expenses [OF assms(1,2)]
  obtain x where x: "expense_update x row db db'" "er_id x = expenseId" "be_archivedAt x = None" "payment_guards x month = Inr ()"
    "row = paid_expense newId now x month db"
    using pay_update [OF s assms(3)] .
  have user: "er_userId x = userId"
    using assms(3) x s by (auto simp: payExpense_def find_Some_iff sound_expenses_def expense_update_def distinct_map inj_on_def
        split: option.splits)
  have s': "sound_expenses db'" by (rule replace_sound_expenses [OF s x(1)])
  have row: "row \<in> set (db_expenses db')" using x(1) by (auto simp: expense_update_def image_iff)
  have same: "e = row" if "e \<in> set (db_expenses db')" "er_id e = expenseId" for e
    using that row s' x(2) by (auto simp: sound_expenses_def distinct_map inj_on_def x(5) paid_fields)
  have "find (\<lambda>e. er_id e = expenseId \<and> er_userId e = userId \<and> be_archivedAt e = None \<and> er_systemOrigin e = ''manual'') (db_expenses db')
      = Some row"
  proof (rule find_only [OF row])
    have "er_systemOrigin row = ''manual''" using x(1) by (simp add: expense_update_def)
    then show "er_id row = expenseId \<and> er_userId row = userId \<and> be_archivedAt row = None \<and> er_systemOrigin row = ''manual''"
      using x(2,3) user by (simp add: x(5) paid_fields)
  qed (use same in blast)
  moreover have "update_expenses (\<lambda>e. er_id e = expenseId) (\<lambda>e. row) db' = db'"
    using same by (simp add: update_expenses_def map_idI)
  ultimately have again: "payExpense newId' now' userId expenseId month db' = Inr (db', row)"
    using x(4) by (simp add: payExpense_def x(5) still_payable paid_again Let_def)
  obtain p where p: "p \<in> set (er_payments row)" "ep_month p = month"
    using paid_month [of month newId now x db] by (auto simp: x(5) list_ex_iff)
  have "distinct (map ep_month (er_payments row))"
    using x(1) by (intro payments_distinct) (simp_all add: expense_update_def)
  from distinct_once [OF this p(1)] p(2) have "filter (\<lambda>q. ep_month q = month) (er_payments row) = [p]" by simp
  moreover have "ep_amount p = payable_cash y" if "y \<in> set (db_expenses db)" "er_id y = expenseId" "p \<notin> set (er_payments y)" for y
  proof -
    have "y = x" using that(1,2) x(1,2) s by (auto simp: sound_expenses_def expense_update_def distinct_map inj_on_def)
    with that(3) p show ?thesis using new_payment_amount by (simp add: x(5))
  qed
  ultimately show ?thesis using again by blast
qed

section \<open>The rows the billing reads\<close>

lemma stored_snapshots: "sound_splits a ss \<Longrightarrow> stored_splits (map billable_of_snapshot ss)"
  by (auto simp: sound_splits_def stored_splits_def list_all_iff billable_of_snapshot_def intro: plain_split_stored)

lemma version_sequence:
  assumes "sound_versions vs" "v \<in> set vs"
  shows "1 \<le> vr_sequence v" "vr_sequence v \<le> int (length vs)"
proof -
  from assms have "vr_sequence v \<in> set (map (\<lambda>i. int i + 1) [0..<length vs])"
    unfolding sound_versions_def by (metis image_eqI set_map)
  then show "1 \<le> vr_sequence v" "vr_sequence v \<le> int (length vs)" by auto
qed

lemma res_mapM_source: "res_mapM f xs = Inr ys \<Longrightarrow> y \<in> set ys \<Longrightarrow> \<exists>x \<in> set xs. f x = Inr y"
  by (induction xs arbitrary: ys) (auto simp: res_bind_eq_Inr)

lemma loaded_versions_stored:
  assumes "sound_versions vs" "int (length vs) \<le> MAX_SAFE_INTEGER" "parseObligationVersions vs = Inr ovs"
  shows "list_all stored_version ovs"
proof -
  have one: "stored_version ov" if v: "v \<in> set vs" and ov: "parse_version_row v = Inr ov" for v ov
  proof -
    have "1 \<le> vr_sequence v" "vr_sequence v \<le> MAX_SAFE_INTEGER" using version_sequence [OF assms(1) v] assms(2) by auto
    moreover have "sound_version v" using v assms(1) by (simp add: sound_versions_def list_all_iff)
    ultimately obtain ss where "sound_splits (vr_amount v) ss" "ov = \<lparr>ov_sequence = vr_sequence v, ov_effectiveMonth = vr_effectiveMonth v,
        ov_amount = vr_amount v, ov_cardId = vr_cardId v, ov_splits = map billable_of_snapshot ss\<rparr>"
      using sound_version_parsed ov by (metis Inr_inject)
    then show ?thesis using stored_snapshots \<open>sound_version v\<close> by (simp add: stored_version_def sound_version_def)
  qed
  show ?thesis
    unfolding list_all_iff
  proof
    fix ov assume "ov \<in> set ovs"
    with assms(3) res_mapM_source show "stored_version ov" using one by (metis parseObligationVersions_def)
  qed
qed

text \<open>A sound row loads, and what is loaded is stored amounts with its splits and versions.\<close>

lemma sound_loaded:
  assumes "sound_expense x" "int (length (er_versions x)) \<le> MAX_SAFE_INTEGER"
  obtains ovs where "parseObligationVersions (er_versions x) = Inr ovs" "length ovs = length (er_versions x)"
    "billable_row x = Inr (with_history x ovs)" "stored_expense (with_history x ovs)"
proof -
  have v: "sound_versions (er_versions x)" "stored_amount (be_amount x)" "sound_splits (be_amount x) (er_splits x)"
    using assms(1) by (simp_all add: sound_expense_def)
  obtain ovs where o: "parseObligationVersions (er_versions x) = Inr ovs" "length ovs = length (er_versions x)"
    using sound_versions_parsed [OF v(1) assms(2)] .
  moreover have "stored_expense (with_history x ovs)"
    using v loaded_versions_stored [OF v(1) assms(2) o(1)] stored_snapshots
    by (auto simp: stored_expense_def with_history_def billable_expense.defs)
  ultimately show thesis using billable_loaded [OF v(1) o(1)] by (intro that)
qed

section \<open>Edits and closed invoices\<close>






section \<open>Charges of old terms\<close>

text \<open>The charges of a recurring expense with a history come from its versions alone.\<close>

lemma versioned_ignores_terms:
  "versioned_loop D sp i (e\<lparr>be_cardId := c, be_splits := ss\<rparr>) cid hi lo acc = versioned_loop D sp i e cid hi lo acc"
proof (induction i arbitrary: lo acc)
  case (Suc i)
  have "with_terms (e\<lparr>be_cardId := c, be_splits := ss\<rparr>) v = with_terms e v" for v by (simp add: with_terms_def)
  with Suc show ?case by (simp add: Let_def cong: if_cong option.case_cong)
qed simp

lemma charges_ignore_terms:
  assumes "be_frequency e \<noteq> ''unica''" "be_obligationVersions e \<noteq> []"
  shows "chargeAmountDecimal D sp (e\<lparr>be_cardId := c, be_splits := ss\<rparr>) cid w = chargeAmountDecimal D sp e cid w"
  using assms by (simp add: chargeAmountDecimal_def versioned_ignores_terms)

lemma no_splits_resolved:
  assumes "resolveAndValidateSplits D sp now userId amount (JArray []) cardId frequency exclude limits bdb = Inr r"
  shows "r = []"
  using assms
  by (auto simp: resolveAndValidateSplits_def normalizeSplitInputs_def validateSplitShape_def assertCardsForSplits_def
      allocateSplitAmounts_def Let_def res_bind_eq_Inr split: if_splits)

definition no_splits_body :: "(string \<times> js) list" where
  "no_splits_body = [(''splits'', JArray [])]"

lemma no_splits_input:
  "parseUpdateExpense no_splits_body = Inr \<lparr>ux_name = None, ux_amount = None, ux_category = None, ux_frequency = None, ux_notes = None,
     ux_customTagId = None, ux_schedule = \<lparr>sb_day = JUndefined, sb_startsAt = JUndefined, sb_endsAt = JUndefined, sb_date = JUndefined\<rparr>,
     ux_cardId = JUndefined, ux_splits = JArray []\<rparr>"
  by (simp add: parseUpdateExpense_def no_splits_body_def js_field_def if_present_def parsePatchNote_def parseTagId_def parseOptionalId_def
      checkCardId_def      expense_schedule_body_def)

text \<open>C16. A card that is removed from a recurring expense goes on being charged: the request with an empty list of splits,
  for an expense that was on one card in full, is taken for no financial change, since the old card stands in for the
  empty list when the splits are compared. The row then has neither card nor split and its whole amount is payable in
  cash, but no version of its terms is added, so every card is charged in every cycle as if nothing had changed.\<close>

theorem removed_card_goes_on_being_charged:
  assumes "decimal_arith D" "expense_reachable D sp db" "ok_day (local_day sp now)"
    and "parseUpdateExpense no_splits_body = Inr input" "updateExpense D sp newId now userId expenseId input db = Inr (db', row)"
    and "x \<in> set (db_expenses db)" "er_id x = expenseId" "int (length (er_versions x)) \<le> MAX_SAFE_INTEGER"
    and "be_frequency x \<noteq> ''unica''" "er_splits x = [s]" "ss_percent s = 100"
  shows "er_splits row = [] \<and> be_cardId row = None \<and> payable_cash row = be_amount x \<and> er_versions row = er_versions x
    \<and> (\<exists>e e'. billable_row x = Inr e \<and> billable_row row = Inr e'
         \<and> (\<forall>cid w. chargeAmountDecimal D sp e' cid w = chargeAmountDecimal D sp e cid w))"
proof -
  note s = reachable_expenses [OF assms(1,2)]
  obtain y t noted where u: "expense_update y row db db'" "er_id y = expenseId" "sound_expense y"
    "edit_terms D sp now userId y input db = Inr t" "row = edited_expense sp newId now noted y input t db"
    "\<not> be_isInvoice y"
    using edit_update [OF assms(1) s assms(4,3,5)] by metis
  have y: "y = x" using u(1,2) assms(6,7) s by (auto simp: sound_expenses_def expense_update_def distinct_map inj_on_def)
  note u = u [unfolded y] and f = edit_terms_facts [OF u(4) [unfolded y]]
  have input: "ux_amount input = None" "ux_frequency input = None" "ux_splits input = JArray []"
    "ux_schedule input = \<lparr>sb_day = JUndefined, sb_startsAt = JUndefined, sb_endsAt = JUndefined, sb_date = JUndefined\<rparr>"
    using assms(4) by (auto simp: no_splits_input)
  have x: "sound_splits (be_amount x) [s]" "be_cardId x = ss_cardId s" "sound_versions (er_versions x)" "er_versions x \<noteq> []"
    "well_scheduled (be_frequency x) (be_dueDay x) (be_startsAt x) (be_endsAt x) (be_occurredAt x)"
    using u(3) assms(9,10) by (simp_all add: sound_expense_def card_of_def)
  then have split: "ss_kind s = ''card''" "ss_amount s = be_amount x" "truthy (be_cardId x)" "ss_cardId s = be_cardId x"
    by (auto simp: sound_splits_def plain_split_def ok_snapshot_def truthy_def split: option.splits)
  have terms: "xe_amount t = be_amount x" "xe_frequency t = be_frequency x" by (simp_all add: f(1,2) input or_keep_def)
  have "xe_schedule t = \<lparr>rv_day = None, rv_startsAt = None, rv_endsAt = None, rv_date = Some None\<rparr>"
    using f(4) assms(9)
    by (auto simp: terms(2) input(4) resolveSchedule_def resolve_recurring_def required_field_def existing_of_expense_def res_bind_eq_Inr)
  then have sched: "rv_day (xe_schedule t) = None" "rv_startsAt (xe_schedule t) = None" "rv_endsAt (xe_schedule t) = None"
    by simp_all
  obtain r where "resolveAndValidateSplits D sp now userId (xe_amount t) (JArray []) (ux_cardId input) (xe_frequency t) (Some (er_id x)) True
      (billing_db.truncate db) = Inr r" "Some r = xe_splits t"
    using f(6) by (auto simp: resolveNextSplits_def input res_bind_eq_Inr)
  with no_splits_resolved have none: "xe_splits t = Some []" by metis
  have "comparableSplits [] (be_cardId x) (be_amount x) = comparableSplits [s] (be_cardId x) (be_amount x)"
    using split assms(11) by (cases s) (simp add: comparableSplits_def)
  then have "\<not> financialChange x t"
    by (simp add: financialChange_def terms none revisedSplits_def next_splits_def or_keep_def assms(10))
  then have same: "\<not> recurringVersionChange x t" by (simp add: recurringVersionChange_def)
  have row: "row = x\<lparr>er_name := er_name row, er_category := er_category row, be_occurredAt := None, be_cardId := None,
      er_notes := er_notes row, er_customTagId := er_customTagId row, er_splits := [], er_updatedAt := now\<rparr>"
    using same assms(9)
    by (simp add: u(5) edited_expense_def Let_def terms input sched none next_cardId_def denormalizedCardId_def revisedSplits_def
        next_splits_def or_keep_def effective_def revised_versions_def revised_payments_def f(5))
  have fields: "er_versions row = er_versions x" "er_splits row = []" "be_cardId row = None" "be_amount row = be_amount x"
    "be_isInvoice row = be_isInvoice x"
    by (subst row, simp)+
  obtain ovs where o: "parseObligationVersions (er_versions x) = Inr ovs" "length ovs = length (er_versions x)"
    "billable_row x = Inr (with_history x ovs)"
    using sound_loaded [OF u(3) assms(8)] .
  have "billable_row row = Inr (with_history row ovs)"
    by (rule billable_loaded) (simp_all add: fields x(3) o(1))
  moreover have "with_history row ovs = (with_history x ovs)\<lparr>be_cardId := None, be_splits := []\<rparr>"
    using x(5) assms(9) by (subst row) (simp add: with_history_def billable_expense.defs well_scheduled_def)
  moreover have "be_frequency (with_history x ovs) \<noteq> ''unica''" "be_obligationVersions (with_history x ovs) \<noteq> []"
    using assms(9) x(4) o(2) by (auto simp: with_history_def billable_expense.defs)
  ultimately have "\<exists>e e'. billable_row x = Inr e \<and> billable_row row = Inr e'
      \<and> (\<forall>cid w. chargeAmountDecimal D sp e' cid w = chargeAmountDecimal D sp e cid w)"
    using o(3) charges_ignore_terms by metis
  then show ?thesis using u(6) by (simp add: payable_cash_def fields truthy_def)
qed

section \<open>Voided expenses and archived cards\<close>

lemma versioned_free:
  assumes "decimal_arith D" "\<forall>v \<in> set (be_obligationVersions e). splitShareFor D (with_terms e v) (TCard cid) = 0"
    and "versioned_loop D sp i e cid hi lo 0 = Inr a"
  shows "a = 0"
  using assms(3)
proof (induction i arbitrary: lo)
  case (Suc i)
  have zero: "dec_plus D 0 (dec_mul D 0 n) = 0" for n
    using decimal_arith.mul_exact [OF assms(1), of 0 n] decimal_arith.plus_exact [OF assms(1), of 0 0] by simp
  have "splitShareFor D (with_terms e v) (TCard cid) = 0" if "active_version (be_obligationVersions e) m = Some v" for v m
    using active_version_in [OF that] assms(2) by blast
  with Suc zero show ?case
    by (auto simp: res_bind_eq_Inr Let_def split: if_splits option.splits)
qed simp

lemma free_of_charge:
  assumes "decimal_arith D" "splitShareFor D e (TCard cid) = 0"
    and "\<forall>v \<in> set (be_obligationVersions e). splitShareFor D (with_terms e v) (TCard cid) = 0"
    and "chargeAmountDecimal D sp e cid w = Inr a"
  shows "a = 0"
proof (cases "be_frequency e \<noteq> ''unica'' \<and> be_obligationVersions e \<noteq> []")
  case True
  with assms(4) show ?thesis using versioned_free [OF assms(1,3)] by (auto simp: chargeAmountDecimal_def res_bind_eq_Inr)
next
  case False
  have "dec_mul D 0 n = 0" for n using decimal_arith.mul_exact [OF assms(1), of 0 n] by simp
  with False assms(2,4) show ?thesis
    by (auto simp: chargeAmountDecimal_def res_bind_eq_Inr split: if_splits)
qed

lemma unlinked_version:
  assumes "sound_version v" "\<not> version_row_names_card v" "1 \<le> vr_sequence v" "vr_sequence v \<le> MAX_SAFE_INTEGER"
    and "parse_version_row v = Inr ov"
  shows "ov_cardId ov = None \<and> ov_splits ov = []"
proof -
  obtain ss where ss: "vr_splits v = obligationSplitSnapshot ss" "sound_splits (vr_amount v) ss"
    "parse_version_row v = Inr \<lparr>ov_sequence = vr_sequence v, ov_effectiveMonth = vr_effectiveMonth v, ov_amount = vr_amount v,
       ov_cardId = vr_cardId v, ov_splits = map billable_of_snapshot ss\<rparr>"
    using sound_version_parsed [OF assms(1,3,4)] .
  have "\<not> list_ex (\<lambda>s. ss_kind s = ''card'') ss"
    using assms(2) unfolding ss(1) version_row_names_card_def
    by (auto simp: obligationSplitSnapshot_def list_ex_iff json_card_split_def js_field_def)
  then have "ss = []" using ss(2) by (auto simp: sound_splits_def)
  moreover have "vr_cardId v = None"
  proof (rule ccontr)
    assume "vr_cardId v \<noteq> None"
    with assms(1) obtain us c where us: "vr_splits v = obligationSplitSnapshot us" "sound_splits (vr_amount v) us" "card_of us = Some c"
      by (auto simp: sound_version_def)
    have "\<not> list_ex (\<lambda>s. ss_kind s = ''card'') us"
      using assms(2) unfolding us(1) version_row_names_card_def
      by (auto simp: obligationSplitSnapshot_def list_ex_iff json_card_split_def js_field_def)
    with us(2,3) show False by (auto simp: sound_splits_def)
  qed
  ultimately show ?thesis using ss(3) assms(5) by simp
qed

text \<open>C27. A voided expense charges no card: once the request to remove an expense is accepted, its row is kept, marked as
  voided at that moment, and on no card and in no cycle, past or future, does it charge anything.\<close>

theorem voided_expenses_charge_no_card:
  assumes "decimal_arith D" "expense_reachable D sp db" "archiveExpense D sp now userId expenseId db = Inr db'"
  shows "\<exists>x \<in> set (db_expenses db'). er_id x = expenseId \<and> er_voidedAt x = Some now \<and> be_archivedAt x = Some now
    \<and> (int (length (er_versions x)) \<le> MAX_SAFE_INTEGER \<longrightarrow>
        (\<exists>e. billable_row x = Inr e \<and> (\<forall>cid w a. chargeAmountDecimal D sp e cid w = Inr a \<longrightarrow> a = 0)))"
proof -
  note s = reachable_expenses [OF assms(1,2)]
  obtain x where x: "expense_update x (x\<lparr>be_archivedAt := Some now, er_voidedAt := Some now, er_updatedAt := now\<rparr>) db db'"
    "er_id x = expenseId" "be_archivedAt x = None" "\<not> be_isInvoice x" "sound_expense x" "\<not> linked_to_card x"
    using archive_update [OF s assms(3)] .
  let ?y = "x\<lparr>be_archivedAt := Some now, er_voidedAt := Some now, er_updatedAt := now\<rparr>"
  have y: "?y \<in> set (db_expenses db')" "sound_expense ?y"
    using x(1,4) by (auto simp: expense_update_def image_iff sound_row_def)
  have free: "\<not> list_ex (\<lambda>s. ss_kind s = ''card'') (er_splits x)" "\<not> list_ex version_row_names_card (er_versions x)"
    using x(6) by (simp_all add: linked_to_card_def)
  have plain: "er_splits x = []" "be_cardId x = None"
    using x(5) free(1) by (auto simp: sound_expense_def sound_splits_def)
  have "\<exists>e. billable_row ?y = Inr e \<and> (\<forall>cid w a. chargeAmountDecimal D sp e cid w = Inr a \<longrightarrow> a = 0)"
    if len: "int (length (er_versions ?y)) \<le> MAX_SAFE_INTEGER"
  proof -
    obtain ovs where o: "parseObligationVersions (er_versions ?y) = Inr ovs" "billable_row ?y = Inr (with_history ?y ovs)"
      using sound_loaded [OF y(2) len] .
    have "ov_cardId ov = None \<and> ov_splits ov = []" if mem: "ov \<in> set ovs" for ov
    proof -
      obtain v where v: "v \<in> set (er_versions x)" "parse_version_row v = Inr ov"
        using res_mapM_source [of parse_version_row "er_versions x" ovs ov] o(1) mem by (auto simp: parseObligationVersions_def)
      moreover have "sound_versions (er_versions x)" using x(5) by (simp add: sound_expense_def)
      ultimately show ?thesis
        using unlinked_version [of v ov] version_sequence [of "er_versions x" v] free(2) len
        by (auto simp: sound_versions_def list_all_iff list_ex_iff)
    qed
    then have "\<forall>v \<in> set ovs. splitShareFor D (with_terms (with_history ?y ovs) v) (TCard cid) = 0" for cid
      by (simp add: splitShareFor_def with_terms_def)
    moreover have "splitShareFor D (with_history ?y ovs) (TCard cid) = 0" for cid
      using plain by (simp add: splitShareFor_def with_history_def billable_expense.defs)
    moreover have "be_obligationVersions (with_history ?y ovs) = ovs" by (simp add: with_history_def billable_expense.defs)
    ultimately have "\<forall>cid w a. chargeAmountDecimal D sp (with_history ?y ovs) cid w = Inr a \<longrightarrow> a = 0"
      using free_of_charge [OF assms(1)] by (metis (no_types, lifting))
    with o(2) show ?thesis by blast
  qed
  with y(1) x(2) show ?thesis by (intro bexI [of _ ?y]) simp_all
qed



end
