(* ===== verification/Expense_Runs.thy ===== *)
theory Expense_Runs
  imports Expense_History
begin

text \<open>
  A concrete run that the properties of \<open>Expense_History\<close> are applied to: a monthly rent that is paid, moved to another
  day and voided next to a card that was invoiced.
\<close>

section \<open>A monthly rent\<close>

definition rent_body :: "(string \<times> js) list" where
  "rent_body = [(''name'', JString ''Aluguel''), (''amount'', JNumber 1500), (''category'', JString ''outro''),
     (''dueDay'', JNumber 10), (''startsAt'', JString ''2026-02-10'')]"

definition rent_input :: create_expense_input where
  "rent_input = \<lparr>cx_name = ''Aluguel'', cx_amount = 1500, cx_category = ''outro'', cx_frequency = ''mensal'', cx_notes = None,
     cx_customTagId = None, cx_schedule = expense_schedule_body rent_body, cx_cardId = JUndefined, cx_splits = JUndefined\<rparr>"

definition rent :: expense_row where
  "rent = \<lparr>be_amount = 1500, be_cardId = None, be_isInvoice = False, be_frequency = ''mensal'', be_dueDay = Some 10,
     be_startsAt = Some (20494 * ms_per_day), be_endsAt = None, be_occurredAt = None, be_createdAt = noon 20498, be_archivedAt = None,
     be_splits = [], be_obligationVersions = [], er_id = ''rent'', er_userId = ''ana'', er_name = ''Aluguel'',
     er_category = ''outro'', er_customTagId = None, er_paidForMonth = None, er_paidAt = None, er_notes = None,
     er_billingPeriodStart = None, er_billingPeriodEnd = None, er_voidedAt = None, er_systemOrigin = ''manual'',
     er_splits = [], er_versions = [\<lparr>vr_sequence = 1, vr_effectiveMonth = ''2026-02'', vr_amount = 1500, vr_cardId = None,
       vr_splits = JArray []\<rparr>], er_payments = [], er_updatedAt = noon 20498\<rparr>"

definition tenancy_db :: finance_db where
  "tenancy_db = invoice_db\<lparr>db_expenses := db_expenses invoice_db @ [rent]\<rparr>"

lemma rent_parsed: "parseCreateExpense rent_body = Inr rent_input" by code_simp

lemma tenancy_created:
  "createExpense decimal_js sao_paulo_standard (\<lambda>i. ''rent'') (noon 20498) ''ana'' rent_input invoice_db = Inr (tenancy_db, rent)"
proof -
  let ?s = "\<lparr>rv_day = Some (Some 10), rv_startsAt = Some (Some (20494 * ms_per_day)), rv_endsAt = Some None, rv_date = Some None\<rparr>"
  have "resolveSchedule Expense_Schedule ''mensal'' (cx_schedule rent_input) None = Inr ?s" by code_simp
  moreover have "new_expense_row (\<lambda>i. ''rent'') (noon 20498) ''ana'' rent_input ?s None [] invoice_db = rent" by code_simp
  moreover have "cx_frequency rent_input = ''mensal''" "cx_cardId rent_input = JUndefined" "cx_splits rent_input = JUndefined"
    "cx_customTagId rent_input = None"
    by (simp_all add: rent_input_def)
  ultimately show ?thesis
    by (simp add: createExpense_def resolveCustomTagId_def truthy_def retroactive_guard_def present_def Let_def the_ids_def
        List.map_filter_def assertUniqueDateNotFuture_def resolveAndValidateSplits_def normalizeSplitInputs_def js_truthy_def tenancy_db_def)
qed

lemma tenancy_step: "expense_step decimal_js sao_paulo_standard invoice_db tenancy_db"
  by (rule expense_step.create_expense [OF rent_parsed _ tenancy_created]) (simp add: invoice_db_def dinner_def invoice_row_def)

lemma tenancy_reachable: "expense_reachable decimal_js sao_paulo_standard tenancy_db"
  using invoice_reachable tenancy_step by (rule expense_reachable.step)

lemma only_rent:
  assumes "\<And>e. P e \<Longrightarrow> er_id e = ''rent''" "P rent"
  shows "find P (db_expenses tenancy_db) = Some rent" "filter P (db_expenses tenancy_db) = [rent]"
proof -
  let ?i = "invoice_row decimal_js (\<lambda>i. ''invoice'') (noon 20496) ''ana'' visa dinner_invoice 1"
  have "er_id dinner \<noteq> ''rent''" by (simp add: dinner_def)
  then have "\<not> P dinner" "\<not> P ?i" using assms(1) [of dinner] assms(1) [of ?i] by auto
  moreover have "db_expenses tenancy_db = [dinner, ?i, rent]" by (simp add: tenancy_db_def invoice_db_def)
  ultimately show "find P (db_expenses tenancy_db) = Some rent" "filter P (db_expenses tenancy_db) = [rent]" using assms(2) by simp_all
qed

lemma rent_in_db: "rent \<in> set (db_expenses tenancy_db)"
  by (simp add: tenancy_db_def)

lemma rent_fields: "er_id rent = ''rent''" "er_userId rent = ''ana''" "be_frequency rent = ''mensal''" "er_systemOrigin rent = ''manual''"
  "be_archivedAt rent = None" "er_voidedAt rent = None" "be_isInvoice rent = False" "er_payments rent = []" "er_splits rent = []"
  "be_cardId rent = None" "er_updatedAt rent = noon 20498"
  by (simp_all add: rent_def)

lemma rent_versions: "parseObligationVersions (er_versions rent) = Inr [\<lparr>ov_sequence = 1, ov_effectiveMonth = ''2026-02'', ov_amount = 1500,
   ov_cardId = None, ov_splits = []\<rparr>]"
  by code_simp

lemma rent_paid: "\<exists>db. payExpense (\<lambda>i. ''payment'') (noon 20499) ''ana'' ''rent'' ''2026-02'' tenancy_db
    = Inr (db, paid_expense (\<lambda>i. ''payment'') (noon 20499) rent ''2026-02'' tenancy_db)"
proof -
  have "service_monthBounds ''2026-02'' = (20485 * ms_per_day, 20513 * ms_per_day - 1)" by code_simp
  then have "payment_guards rent ''2026-02'' = Inr ()"
    by (simp add: payment_guards_def payable_cash_def rent_def truthy_def)
  then show ?thesis
    unfolding payExpense_def by (subst only_rent(1)) (simp_all add: rent_fields Let_def)
qed

lemma rent_voided: "\<exists>db. archiveExpense decimal_js sao_paulo_standard (noon 20499) ''ana'' ''rent'' tenancy_db = Inr db"
proof -
  have free: "\<not> linked_to_card rent"
    by (simp add: linked_to_card_def rent_def truthy_def version_row_names_card_def)
  have "filter (\<lambda>e. er_id e = ''rent'' \<and> er_userId e = ''ana'' \<and> be_archivedAt e = None \<and> er_voidedAt e = None
      \<and> er_updatedAt e = er_updatedAt rent) (db_expenses tenancy_db) = [rent]"
    by (rule only_rent(2)) (simp_all add: rent_fields)
  then show ?thesis
    unfolding archiveExpense_def
    by (subst only_rent(1))
      (simp_all add: rent_fields rent_versions version_cards_def assertAffectedCardsCaughtUp_def the_ids_def List.map_filter_def
        truthy_def free Let_def)
qed


definition move_body :: "(string \<times> js) list" where
  "move_body = [(''dueDay'', JNumber 20)]"

definition move_input :: update_expense_input where
  "move_input = \<lparr>ux_name = None, ux_amount = None, ux_category = None, ux_frequency = None, ux_notes = None,
     ux_customTagId = None, ux_schedule = expense_schedule_body move_body, ux_cardId = JUndefined, ux_splits = JUndefined\<rparr>"

lemma move_parsed: "parseUpdateExpense move_body = Inr move_input" by code_simp

definition move_terms :: expense_edit where
  "move_terms = \<lparr>xe_tag = None, xe_amount = 1500, xe_frequency = ''mensal'',
     xe_schedule = \<lparr>rv_day = Some (Some 20), rv_startsAt = None, rv_endsAt = None, rv_date = Some None\<rparr>,
     xe_occurredAt = None, xe_splits = None\<rparr>"

lemma move_terms: "edit_terms decimal_js sao_paulo_standard (noon 20500) ''ana'' rent move_input tenancy_db = Inr move_terms"
proof -
  have "resolveSchedule Expense_Schedule ''mensal'' (expense_schedule_body move_body) (Some (existing_of_expense rent)) = Inr (xe_schedule move_terms)"
    by code_simp
  moreover have "resolveNextSplits decimal_js sao_paulo_standard (noon 20500) ''ana'' rent move_input a f tenancy_db = Inr None" for a f
    by (simp add: resolveNextSplits_def move_input_def expense_schedule_body_def move_body_def js_field_def)
  moreover have "be_frequency rent = ''mensal''" "be_amount rent = 1500" "er_category rent = ''outro''" "er_customTagId rent = None"
    by (simp_all add: rent_def)
  ultimately show ?thesis
    by (simp add: edit_terms_def assertCategoryChangeAllowed_def assertExpenseFrequencyTransitionSafe_def or_keep_def
        assertUniqueDateNotFuture_def truthy_def Let_def) (simp add: move_input_def move_terms_def)
qed

lemma move_changes: "oldScheduleChanged rent move_terms" "\<not> recurringVersionChange rent move_terms" "oldVersions rent move_terms = er_versions rent"
proof -
  show s: "oldScheduleChanged rent move_terms" by (simp add: oldScheduleChanged_def rent_def move_terms_def)
  show v: "\<not> recurringVersionChange rent move_terms"
    by (simp add: recurringVersionChange_def financialChange_def rent_def move_terms_def)
  show "oldVersions rent move_terms = er_versions rent" using s v by (simp add: oldVersions_def rent_def)
qed

definition rent_history :: "obligation_version list" where
  "rent_history = [\<lparr>ov_sequence = 1, ov_effectiveMonth = ''2026-02'', ov_amount = 1500, ov_cardId = None, ov_splits = []\<rparr>]"

abbreviation "old_rent \<equiv> with_history rent rent_history"
abbreviation "moved_rent \<equiv> projectedExpense ''2026-02'' rent move_terms rent_history"

lemma tenancy_days: "ok_expense sao_paulo_standard old_rent" "stored_expense old_rent"
  "ok_expense sao_paulo_standard moved_rent" "stored_expense moved_rent"
  by code_simp+
lemma rent_history_start: "history_start sao_paulo_standard old_rent moved_rent (as_invoiced_card (archived_card (noon 20496) (noon 20496) visa)) = 20494" by code_simp

abbreviation "final_visa \<equiv> archived_card (noon 20496) (noon 20496) visa"

lemma rent_terms: "be_obligationVersions old_rent = rent_history" "be_cardId old_rent = None" "be_splits old_rent = []"
  "be_obligationVersions moved_rent = rent_history" "be_cardId moved_rent = None" "be_splits moved_rent = []"
  by code_simp+

lemma rent_unlinked:
  assumes "e = old_rent \<or> e = moved_rent"
  shows "splitShareFor decimal_js e (TCard c) = 0"
    "\<forall>v \<in> set (be_obligationVersions e). splitShareFor decimal_js (with_terms e v) (TCard c) = 0"
  using assms rent_terms by (auto simp: splitShareFor_def with_terms_def rent_history_def)

lemma move_checked:
  "hasSettledRecurringMutation decimal_js sao_paulo_standard old_rent moved_rent [as_invoiced_card final_visa] ''2026-02'' = Inr False"
proof -
  have w: "ok_window 20494 20496 True" by code_simp
  have amounts: "chargeAmountDecimal decimal_js sao_paulo_standard e ''card-1'' (window_of 20494 20496 True) = Inr 0"
    if "e = old_rent \<or> e = moved_rent" for e
  proof -
    have "ok_expense sao_paulo_standard e" "stored_expense e" using that tenancy_days by auto
    from js_decimal.charge_amount_sum [OF this w] obtain a where
      a: "chargeAmountDecimal decimal_js sao_paulo_standard e ''card-1'' (window_of 20494 20496 True) = Inr a" by blast
    with free_of_charge [OF js_decimal.decimal_arith_axioms rent_unlinked [OF that] a] show ?thesis by simp
  qed
  have c: "ic_id (as_invoiced_card final_visa) = ''card-1''" "ic_lastInvoicedOn (as_invoiced_card final_visa) = Some (noon 20496)"
    by (simp_all add: as_invoiced_card_def archived_card_def visa_def new_card_row_def)
  have "\<forall>t. ic_createdAt (as_invoiced_card final_visa) = Some t \<longrightarrow> ok_day (local_day sao_paulo_standard t)"
    by (simp add: as_invoiced_card_def archived_card_def visa_def new_card_row_def) code_simp
  note h = history_start_key(1) [OF tenancy_days(1,3) this, unfolded rent_history_start]
  have "ok_day 20494" "ok_day 20496" by code_simp+
  then have k: "\<not> compareDayKeys (key 20494) (key 20496) > 0" by (simp add: compareDayKeys_signs)
  have "allocation_settled decimal_js sao_paulo_standard old_rent moved_rent ''2026-02'' ''card-1'' hs ct = Inr False" for hs ct
  proof -
    have "splitShareFor decimal_js (effective_terms m e) (TCard ''card-1'') = 0" if "e = old_rent \<or> e = moved_rent" for m e
      using rent_unlinked [OF that] active_version_in [of "be_obligationVersions e" m]
      by (auto simp: effective_terms_def split: option.split)
    moreover have "dec_mul decimal_js 0 a = 0" for a using js_decimal.mul_exact [of 0 a] by simp
    ultimately show ?thesis by (simp add: allocation_settled_def)
  qed
  moreover have "schedule_settled decimal_js sao_paulo_standard old_rent moved_rent ''card-1'' (key 20494) (key 20496) = Inr False"
    using amounts by (simp add: schedule_settled_def window_of_def)
  ultimately show ?thesis
    unfolding hasSettledRecurringMutation_def Let_def res_some.simps c option.case h noon_key
    using k by simp
qed

lemma move_month: "take 7 (todayKeyInSaoPaulo sao_paulo_standard (noon 20500)) = ''2026-02''" by code_simp

lemma rent_card: "filter (\<lambda>c. cr_userId c = ''ana'') (db_cards tenancy_db) = [final_visa]"
  by (simp add: tenancy_db_def invoice_db_def archived_card_def visa_def new_card_row_def)

lemma rent_committed: "getCommittedByCard decimal_js sao_paulo_standard ''ana'' (Some ''rent'') t (billing_db.truncate tenancy_db) = Inr Map.empty"
proof -
  let ?i = "invoice_row decimal_js (\<lambda>i. ''invoice'') (noon 20496) ''ana'' visa dinner_invoice 1"
  have "billable_row dinner = Inr (with_history dinner [])" using dinner_loaded
    by (simp add: loadBillableExpensesForCards_def dinner_def res_bind_eq_Inr)
  moreover have "filter (\<lambda>r. er_userId r = ''ana'' \<and> \<not> be_isInvoice r \<and> er_systemOrigin r = ''manual'' \<and> er_id r \<noteq> ''rent'') (db_expenses tenancy_db)
      = [dinner]"
    by (simp add: tenancy_db_def invoice_db_def rent_fields) (simp add: dinner_def)
  moreover have "filter (\<lambda>c. cr_userId c = ''ana'' \<and> cr_archivedAt c = None) (db_cards tenancy_db) = []"
    by (simp add: tenancy_db_def invoice_db_def archived_card_def)
  ultimately show ?thesis by (simp add: getCommittedByCard_def billing_db.defs truthy_def)
qed

lemma move_guards: "history_guards decimal_js sao_paulo_standard (noon 20500) ''ana'' rent move_input move_terms tenancy_db = Inr ()"
proof -
  have terms: "xe_frequency move_terms = ''mensal''" "xe_schedule move_terms = \<lparr>rv_day = Some (Some 20), rv_startsAt = None, rv_endsAt = None,
      rv_date = Some None\<rparr>" "next_splits move_terms = None"
    by (simp_all add: move_terms_def next_splits_def)
  have versions: "parseObligationVersions (er_versions rent) = Inr rent_history" "er_versions rent \<noteq> []"
    using rent_versions by (simp_all add: rent_history_def rent_def)
  have "paid_history_guards ''2026-02'' rent move_input move_terms = Inr (version_cards rent_history)"
    using versions by (simp add: paid_history_guards_def oneOffDateChanged_def rent_fields terms scheduleMovesEarlier_def present_def
        move_changes split: option.split)
  moreover have "assertAffectedCardsCaughtUp decimal_js sao_paulo_standard (noon 20500) ''ana''
      (affected_cards rent move_terms @ version_cards rent_history) tenancy_db = Inr ()"
    by (simp add: assertAffectedCardsCaughtUp_def affected_cards_def rent_fields terms or_keep_def version_cards_def rent_history_def
        the_ids_def List.map_filter_def truthy_def)
  moreover have "projection_guard decimal_js sao_paulo_standard (noon 20500) ''ana'' ''2026-02'' rent move_terms tenancy_db = Inr ()"
    using versions move_checked
    by (simp add: projection_guard_def previousVersions_def move_changes rent_fields terms requiresVersionedCardProjection_def
        rent_committed rent_card assertProspectiveVersionedCardLimits_def split_error_as_conflict_def) (simp add: archived_card_def)
  ultimately show ?thesis using move_month by (simp add: history_guards_def Let_def)
qed

definition moved_row :: expense_row where
  "moved_row = edited_expense sao_paulo_standard (\<lambda>i. ''payment'') (noon 20500) False rent move_input move_terms tenancy_db"

lemma rent_moved: "\<exists>db. updateExpense decimal_js sao_paulo_standard (\<lambda>i. ''payment'') (noon 20500) ''ana'' ''rent'' move_input tenancy_db = Inr (db, moved_row)"
proof -
  have "cash_guard ''ana'' rent move_input move_terms tenancy_db = Inr False"
    by (simp add: cash_guard_def rent_fields move_terms_def)
  moreover have "filter (\<lambda>e. er_id e = ''rent'' \<and> er_userId e = ''ana'' \<and> er_updatedAt e = er_updatedAt rent) (db_expenses tenancy_db) = [rent]"
    by (rule only_rent(2)) (simp_all add: rent_fields)
  ultimately show ?thesis
    using move_terms move_guards unfolding updateExpense_def
    by (subst only_rent(1)) (simp_all add: rent_fields moved_row_def Let_def)
qed

end
