(* ===== verification/Expense_Witnesses.thy ===== *)
theory Expense_Witnesses
  imports Expense_Runs
begin

text \<open>
  The properties of \<open>Expense_History\<close> on the runs of \<open>Expense_Runs\<close>, and a gym on a card that is taken off it.
\<close>

section \<open>The properties on these runs\<close>


lemma move_step: "\<exists>db. expense_step decimal_js sao_paulo_standard tenancy_db db
    \<and> updateExpense decimal_js sao_paulo_standard (\<lambda>i. ''payment'') (noon 20500) ''ana'' ''rent'' move_input tenancy_db = Inr (db, moved_row)"
proof -
  have "local_day sao_paulo_standard (noon 20500) = 20500" "ok_day 20500" by code_simp+
  then have "ok_day (local_day sao_paulo_standard (noon 20500))" by simp
  with rent_moved show ?thesis using expense_step.edit_expense [OF move_parsed] by blast
qed

theorem recurring_history_is_kept_witness:
  "\<exists>db x'. expense_step decimal_js sao_paulo_standard tenancy_db db \<and> x' \<in> set (db_expenses db) \<and> er_id x' = ''rent''
    \<and> (\<exists>vs. er_versions x' = er_versions rent @ vs)"
proof -
  obtain db where "expense_step decimal_js sao_paulo_standard tenancy_db db" using move_step by blast
  moreover from recurring_history_is_kept [OF js_decimal.decimal_arith_axioms tenancy_reachable this rent_in_db]
  obtain x' where "x' \<in> set (db_expenses db)" "er_id x' = er_id rent" "\<exists>vs. er_versions x' = er_versions rent @ vs"
    by (auto simp: rent_fields)
  ultimately show ?thesis using rent_fields(1) by metis
qed

theorem paying_twice_is_paying_once_witness:
  "\<exists>db row. payExpense (\<lambda>i. ''payment'') (noon 20499) ''ana'' ''rent'' ''2026-02'' tenancy_db = Inr (db, row)
    \<and> payExpense (\<lambda>i. ''again'') (noon 20510) ''ana'' ''rent'' ''2026-02'' db = Inr (db, row)
    \<and> (\<exists>p. filter (\<lambda>q. ep_month q = ''2026-02'') (er_payments row) = [p] \<and> ep_amount p = 1500)"
proof -
  obtain db row where r: "payExpense (\<lambda>i. ''payment'') (noon 20499) ''ana'' ''rent'' ''2026-02'' tenancy_db = Inr (db, row)"
    using rent_paid by blast
  have "payable_cash rent = 1500" by (simp add: payable_cash_def rent_def truthy_def)
  moreover have "payExpense (\<lambda>i. ''again'') (noon 20510) ''ana'' ''rent'' ''2026-02'' db = Inr (db, row)
    \<and> (\<exists>p. filter (\<lambda>q. ep_month q = ''2026-02'') (er_payments row) = [p]
        \<and> (\<forall>x \<in> set (db_expenses tenancy_db). er_id x = ''rent'' \<longrightarrow> p \<notin> set (er_payments x) \<longrightarrow> ep_amount p = payable_cash x))"
    by (rule paying_twice_is_paying_once [OF js_decimal.decimal_arith_axioms tenancy_reachable r])
  ultimately show ?thesis using r rent_in_db rent_fields(1,8) by fastforce
qed



theorem voided_expenses_charge_no_card_witness:
  "\<exists>db x. archiveExpense decimal_js sao_paulo_standard (noon 20499) ''ana'' ''rent'' tenancy_db = Inr db \<and> x \<in> set (db_expenses db)
    \<and> er_id x = ''rent'' \<and> er_voidedAt x = Some (noon 20499)"
  using rent_voided voided_expenses_charge_no_card [OF js_decimal.decimal_arith_axioms tenancy_reachable] by metis


section \<open>A gym on a card\<close>

definition gym_body :: "(string \<times> js) list" where
  "gym_body = [(''name'', JString ''Academia''), (''amount'', JNumber 120), (''category'', JString ''outro''),
     (''dueDay'', JNumber 15), (''startsAt'', JString ''2026-02-15''), (''cardId'', JString ''card-1'')]"

definition gym_input :: create_expense_input where
  "gym_input = \<lparr>cx_name = ''Academia'', cx_amount = 120, cx_category = ''outro'', cx_frequency = ''mensal'', cx_notes = None,
     cx_customTagId = None, cx_schedule = expense_schedule_body gym_body, cx_cardId = JString ''card-1'', cx_splits = JUndefined\<rparr>"

definition gym_split :: snapshot_split where
  "gym_split = \<lparr>ss_kind = ''card'', ss_cardId = Some ''card-1'', ss_amount = 120, ss_percent = 100\<rparr>"

definition gym_row :: expense_row where
  "gym_row = \<lparr>be_amount = 120, be_cardId = Some ''card-1'', be_isInvoice = False, be_frequency = ''mensal'', be_dueDay = Some 15,
     be_startsAt = Some (20499 * ms_per_day), be_endsAt = None, be_occurredAt = None, be_createdAt = noon 20495, be_archivedAt = None,
     be_splits = [], be_obligationVersions = [], er_id = ''gym'', er_userId = ''ana'', er_name = ''Academia'',
     er_category = ''outro'', er_customTagId = None, er_paidForMonth = None, er_paidAt = None, er_notes = None,
     er_billingPeriodStart = None, er_billingPeriodEnd = None, er_voidedAt = None, er_systemOrigin = ''manual'',
     er_splits = [gym_split], er_versions = [\<lparr>vr_sequence = 1, vr_effectiveMonth = ''2026-02'', vr_amount = 120,
       vr_cardId = Some ''card-1'', vr_splits = obligationSplitSnapshot [gym_split]\<rparr>], er_payments = [], er_updatedAt = noon 20495\<rparr>"

definition gym_db :: finance_db where
  "gym_db = card_db\<lparr>db_expenses := [gym_row]\<rparr>"

lemma gym_parsed: "parseCreateExpense gym_body = Inr gym_input" by code_simp

definition gym_parts :: "resolved_split list" where
  "gym_parts = [\<lparr>rs_kind = ''card'', rs_cardId = Some ''card-1'', rs_percent = 100, rs_amount = 120\<rparr>]"

lemma half_even_of_int [simp]: "half_even_int (of_int m) = m"
  by (simp add: half_even_int_def Let_def)

lemma half_even_nonneg: "0 \<le> x \<Longrightarrow> 0 \<le> half_even_int x"
  by (simp add: half_even_int_def Let_def)

text \<open>A whole number of up to 53 bits is a double, and rounding to doubles keeps the sign.\<close>

lemma double_int:
  assumes "\<bar>m\<bar> < 2 ^ 53"
  shows "double (of_int m) = of_int m"
proof -
  have "of_int \<bar>m\<bar> < (of_int (2 ^ 53) :: rat)" using assms by (simp only: of_int_less_iff)
  then have down: "halvings 971 \<bar>of_int m\<bar> 0 = 0" using halvings.simps(2) [of 970 "\<bar>of_int m\<bar>" 0] by simp
  have "half_even_int (of_int m * 2 ^ k) = m * 2 ^ k" for k
    using half_even_of_int [of "m * 2 ^ k"] by simp
  then show ?thesis by (simp add: double_def Let_def down)
qed

lemma double_nonneg: "0 \<le> x \<Longrightarrow> 0 \<le> double x"
  using half_even_nonneg by (simp add: double_def Let_def)

lemma whole_card: "validateSplitShape decimal_js [CardSplit ''card-1'' 100] = Inr ()"
proof -
  have "dec_plus decimal_js 0 100 = 100" "dec_minus decimal_js 100 100 = 0"
    using js_decimal.plus_exact [of 0 100] js_decimal.minus_exact [of 100 100] grid_fits20 [of 0 100] on_grid_of_int [of 0 100] by simp_all
  moreover have "double 100 = 100" "double 0 = 0" "0 \<le> double 0.01"
    using double_int [of 100] double_int [of 0] double_nonneg [of "0.01"] by simp_all
  ultimately show ?thesis by (simp add: validateSplitShape_def Let_def)
qed

lemma gym_resolved:
  "resolveAndValidateSplits decimal_js sao_paulo_standard (noon 20495) ''ana'' 120 JUndefined (JString ''card-1'') ''mensal'' None
     True (billing_db.truncate card_db) = Inr gym_parts"
proof -
  let ?inputs = "[CardSplit ''card-1'' 100]"
  have "normalizeSplitInputs JUndefined (JString ''card-1'') = Inr (Some ?inputs)"
    by (simp add: normalizeSplitInputs_def js_truthy_def)
  moreover have "assertCardsForSplits (noon 20495) ''ana'' ?inputs (billing_db.truncate card_db) = Inr [''card-1'' \<mapsto> visa]"
    by (simp add: assertCardsForSplits_def card_db_def visa_def new_card_row_def billing_db.defs)
  moreover have "allocateSplitAmounts decimal_js 120 (map part_of_input ?inputs) = gym_parts" by code_simp
  moreover have "card_windows sao_paulo_standard (todayKeyInSaoPaulo sao_paulo_standard (noon 20495)) ?inputs [''card-1'' \<mapsto> visa]
      = Inr [(''card-1'', window_of 20490 20504 True)]"
    using visa_open_window by (simp add: card_windows_def List.map_filter_def)
  moreover have "assertCardLimits decimal_js [''card-1'' \<mapsto> visa] gym_parts c f w = Inr ()" for c f w
    by (simp add: assertCardLimits_def gym_parts_def assert_split_limit_def visa_def new_card_row_def)
  ultimately show ?thesis using visa_commitment whole_card by (simp add: resolveAndValidateSplits_def Let_def)
qed

lemma gym_created:
  "createExpense decimal_js sao_paulo_standard (\<lambda>i. ''gym'') (noon 20495) ''ana'' gym_input card_db = Inr (gym_db, gym_row)"
proof -
  let ?s = "\<lparr>rv_day = Some (Some 15), rv_startsAt = Some (Some (20499 * ms_per_day)), rv_endsAt = Some None, rv_date = Some None\<rparr>"
  have "resolveSchedule Expense_Schedule ''mensal'' (cx_schedule gym_input) None = Inr ?s" by code_simp
  moreover have "new_expense_row (\<lambda>i. ''gym'') (noon 20495) ''ana'' gym_input ?s None gym_parts card_db = gym_row"
  proof -
    have "monthKey_of_date (20499 * ms_per_day) = ''2026-02''" by code_simp
    then show ?thesis
      by (simp add: new_expense_row_def gym_row_def gym_input_def gym_parts_def first_version_def present_def denormalizedCardId_def
          snapshot_of_resolved_def gym_split_def card_db_def empty_db_def Let_def)
  qed
  moreover have "retroactive_guard sao_paulo_standard ''ana'' gym_input ?s gym_parts card_db = Inr ()"
    by (simp add: retroactive_guard_def gym_input_def gym_parts_def the_ids_def List.map_filter_def truthy_def card_db_def visa_def
        new_card_row_def hasRetroactiveClosedCardCharge_def Let_def)
  moreover have "card_db\<lparr>db_expenses := db_expenses card_db @ [gym_row]\<rparr> = gym_db"
    by (simp add: gym_db_def card_db_def empty_db_def)
  moreover have "cx_frequency gym_input = ''mensal''" "cx_amount gym_input = 120" "cx_cardId gym_input = JString ''card-1''"
    "cx_splits gym_input = JUndefined" "cx_customTagId gym_input = None"
    by (simp_all add: gym_input_def)
  ultimately show ?thesis
    using gym_resolved
    by (simp add: createExpense_def resolveCustomTagId_def truthy_def present_def Let_def assertUniqueDateNotFuture_def)
qed

lemma gym_reachable: "expense_reachable decimal_js sao_paulo_standard gym_db"
proof (rule expense_reachable.step [OF card_reachable])
  show "expense_step decimal_js sao_paulo_standard card_db gym_db"
    by (rule expense_step.create_expense [OF gym_parsed _ gym_created]) (simp add: card_db_def empty_db_def)
qed

lemma visa_no_cycle: "planCardBilling decimal_js sao_paulo_standard visa [] (noon 20495) (noon 20496) = Inr ([], None)"
  by code_simp

lemma visa_window_later:
  "currentCycleWindow sao_paulo_standard visa (todayKeyInSaoPaulo sao_paulo_standard (noon 20496)) = Inr (window_of 20490 20504 True)"
  by code_simp

lemma visa_caught_up: "cardsWithUnclosedBilling decimal_js sao_paulo_standard [visa] (noon 20496) = Inr []"
  using addDaysToKey_key [of 20496 "-1"] dayKeyToDate_noon [of 20495] standard.local_noon [of 20496] example_days visa_no_cycle
  by (simp add: cardsWithUnclosedBilling_def todayKeyInSaoPaulo_def)

definition cash_input :: update_expense_input where
  "cash_input = \<lparr>ux_name = None, ux_amount = None, ux_category = None, ux_frequency = None, ux_notes = None,
     ux_customTagId = None, ux_schedule = \<lparr>sb_day = JUndefined, sb_startsAt = JUndefined, sb_endsAt = JUndefined, sb_date = JUndefined\<rparr>,
     ux_cardId = JUndefined, ux_splits = JArray []\<rparr>"

definition cash_terms :: expense_edit where
  "cash_terms = \<lparr>xe_tag = None, xe_amount = 120, xe_frequency = ''mensal'',
     xe_schedule = \<lparr>rv_day = None, rv_startsAt = None, rv_endsAt = None, rv_date = Some None\<rparr>, xe_occurredAt = None, xe_splits = Some []\<rparr>"

lemma gym_fields: "er_id gym_row = ''gym''" "er_userId gym_row = ''ana''" "be_frequency gym_row = ''mensal''" "be_amount gym_row = 120"
  "be_archivedAt gym_row = None" "er_systemOrigin gym_row = ''manual''" "be_isInvoice gym_row = False" "er_payments gym_row = []"
  "er_splits gym_row = [gym_split]" "be_cardId gym_row = Some ''card-1''" "er_category gym_row = ''outro''" "er_customTagId gym_row = None"
  by (simp_all add: gym_row_def)

lemma gym_rows: "db_expenses gym_db = [gym_row]" "db_cards gym_db = [visa]"
  by (simp_all add: gym_db_def card_db_def)

lemma visa_fields: "bc_id visa = ''card-1''" "cr_userId visa = ''ana''" "cr_archivedAt visa = None" "card_lastInvoicedOn visa = None"
  by (simp_all add: visa_def new_card_row_def)

lemma cash_terms: "edit_terms decimal_js sao_paulo_standard (noon 20496) ''ana'' gym_row cash_input gym_db = Inr cash_terms"
proof -
  have "resolveSchedule Expense_Schedule ''mensal'' (ux_schedule cash_input) (Some (existing_of_expense gym_row)) = Inr (xe_schedule cash_terms)"
    by (simp add: resolveSchedule_def resolve_recurring_def required_field_def cash_input_def existing_of_expense_def gym_row_def present_def
        effective_def cash_terms_def)
  moreover have "getCommittedByCard decimal_js sao_paulo_standard ''ana'' (Some ''gym'') (noon 20496) (billing_db.truncate gym_db)
      = Inr [''card-1'' \<mapsto> 0]"
    using visa_window_later
    by (simp add: getCommittedByCard_def billing_db.defs gym_rows gym_fields visa_fields truthy_def committed_on_card_def chargesTotalDecimal_def)
  then have "resolveNextSplits decimal_js sao_paulo_standard (noon 20496) ''ana'' gym_row cash_input 120 ''mensal'' gym_db = Inr (Some [])"
    by (simp add: resolveNextSplits_def cash_input_def gym_fields resolveAndValidateSplits_def normalizeSplitInputs_def validateSplitShape_def
        assertCardsForSplits_def allocateSplitAmounts_def card_windows_def assertCardLimits_def List.map_filter_def)
  ultimately show ?thesis
    by (simp add: edit_terms_def assertCategoryChangeAllowed_def assertExpenseFrequencyTransitionSafe_def or_keep_def gym_fields
        assertUniqueDateNotFuture_def truthy_def Let_def) (simp add: cash_input_def cash_terms_def)
qed

lemma no_change: "\<not> recurringVersionChange gym_row cash_terms" "\<not> oldScheduleChanged gym_row cash_terms" "oldVersions gym_row cash_terms = []"
proof -
  show v: "\<not> recurringVersionChange gym_row cash_terms"
    by (simp add: recurringVersionChange_def financialChange_def cash_terms_def gym_fields revisedSplits_def next_splits_def or_keep_def
        comparableSplits_def truthy_def gym_split_def)
  show s: "\<not> oldScheduleChanged gym_row cash_terms"
    by (simp add: oldScheduleChanged_def cash_terms_def gym_fields day_changed_def)
  show "oldVersions gym_row cash_terms = []" using s v by (simp add: oldVersions_def)
qed

lemma cash_guards: "history_guards decimal_js sao_paulo_standard (noon 20496) ''ana'' gym_row cash_input cash_terms gym_db = Inr ()"
proof -
  have "xe_frequency cash_terms = ''mensal''" "rv_startsAt (xe_schedule cash_terms) = None" by (simp_all add: cash_terms_def)
  then have "paid_history_guards m gym_row cash_input cash_terms = Inr []" for m
    by (simp add: paid_history_guards_def oneOffDateChanged_def gym_fields no_change scheduleMovesEarlier_def present_def
        split: option.split)
  moreover have "assertAffectedCardsCaughtUp decimal_js sao_paulo_standard (noon 20496) ''ana'' (affected_cards gym_row cash_terms @ []) gym_db = Inr ()"
    using visa_caught_up
    by (simp add: assertAffectedCardsCaughtUp_def affected_cards_def gym_fields cash_terms_def next_splits_def or_keep_def the_ids_def
        List.map_filter_def truthy_def gym_rows visa_fields gym_split_def)
  moreover have "projection_guard decimal_js sao_paulo_standard (noon 20496) ''ana'' m gym_row cash_terms gym_db = Inr ()" for m
    by (simp add: projection_guard_def no_change)
  ultimately show ?thesis by (simp add: history_guards_def Let_def)
qed

lemma gym_uncarded: "\<exists>db row. updateExpense decimal_js sao_paulo_standard (\<lambda>i. ''payment'') (noon 20496) ''ana'' ''gym'' cash_input gym_db = Inr (db, row)"
proof -
  have "cash_guard ''ana'' gym_row cash_input cash_terms gym_db = Inr False"
    by (simp add: cash_guard_def gym_fields cash_terms_def)
  then show ?thesis
    using cash_terms cash_guards by (simp add: updateExpense_def gym_rows gym_fields Let_def)
qed

theorem removed_card_goes_on_being_charged_witness:
  "\<exists>db row e'. updateExpense decimal_js sao_paulo_standard (\<lambda>i. ''payment'') (noon 20496) ''ana'' ''gym'' cash_input gym_db = Inr (db, row)
    \<and> payable_cash row = 120 \<and> er_splits row = [] \<and> billable_row row = Inr e'
    \<and> (\<forall>w. chargeAmountDecimal decimal_js sao_paulo_standard e' ''card-1'' w
         = chargeAmountDecimal decimal_js sao_paulo_standard (projr (billable_row gym_row)) ''card-1'' w)"
proof -
  obtain db row where run: "updateExpense decimal_js sao_paulo_standard (\<lambda>i. ''payment'') (noon 20496) ''ana'' ''gym'' cash_input gym_db
      = Inr (db, row)" using gym_uncarded by blast
  have "local_day sao_paulo_standard (noon 20496) = 20496" by code_simp
  then have "ok_day (local_day sao_paulo_standard (noon 20496))" using example_days by simp
  moreover have "parseUpdateExpense no_splits_body = Inr cash_input" by (simp add: no_splits_input cash_input_def)
  moreover have "gym_row \<in> set (db_expenses gym_db)" "int (length (er_versions gym_row)) \<le> MAX_SAFE_INTEGER" "ss_percent gym_split = 100"
    by (simp_all add: gym_rows gym_row_def MAX_SAFE_INTEGER_def gym_split_def)
  moreover have "be_frequency gym_row \<noteq> ''unica''" by (simp add: gym_fields)
  ultimately have "er_splits row = [] \<and> be_cardId row = None \<and> payable_cash row = be_amount gym_row \<and> er_versions row = er_versions gym_row
      \<and> (\<exists>e e'. billable_row gym_row = Inr e \<and> billable_row row = Inr e'
           \<and> (\<forall>cid w. chargeAmountDecimal decimal_js sao_paulo_standard e' cid w = chargeAmountDecimal decimal_js sao_paulo_standard e cid w))"
    using run gym_fields(1,9)
    by (intro removed_card_goes_on_being_charged [OF js_decimal.decimal_arith_axioms gym_reachable, of "noon 20496" cash_input]) simp_all
  with run gym_fields(4) show ?thesis by force
qed

end
