(* ===== verification/JS_Sort.thy ===== *)
theory JS_Sort
  imports Prelude "HOL-Library.Multiset"
begin

text \<open>
  \<open>Array.prototype.sort\<close> with a comparison function, which is stable, and \<open>localeCompare\<close>. The
  program compares only day keys and generated identifiers with it: texts of one length whose
  letters are lower-case and whose hyphens stand at the same places, on which the collation is the
  order of the characters.
\<close>

section \<open>Sorting\<close>

fun js_insert :: "('a \<Rightarrow> 'a \<Rightarrow> int) \<Rightarrow> 'a \<Rightarrow> 'a list \<Rightarrow> 'a list" where
  "js_insert cmp x [] = [x]"
| "js_insert cmp x (y # ys) = (if cmp x y \<le> 0 then x # y # ys else y # js_insert cmp x ys)"

definition js_sort :: "('a \<Rightarrow> 'a \<Rightarrow> int) \<Rightarrow> 'a list \<Rightarrow> 'a list" where
  "js_sort cmp xs = foldr (js_insert cmp) xs []"

definition localeCompare :: "string \<Rightarrow> string \<Rightarrow> int" where
  "localeCompare a b = (if a < b then -1 else if b < a then 1 else 0)"

lemma mset_js_insert: "mset (js_insert cmp x xs) = add_mset x (mset xs)"
  by (induction xs) auto

lemma mset_js_sort [simp]: "mset (js_sort cmp xs) = mset xs"
  by (induction xs) (simp_all add: js_sort_def mset_js_insert)

lemma set_js_sort [simp]: "set (js_sort cmp xs) = set xs"
  by (rule mset_eq_setD) simp

lemma length_js_sort [simp]: "length (js_sort cmp xs) = length xs"
  by (rule mset_eq_length) simp

text \<open>A comparison function as the sort expects it.\<close>

locale comparator =
  fixes cmp :: "'a \<Rightarrow> 'a \<Rightarrow> int"
  assumes compare_total: "cmp x y \<le> 0 \<or> cmp y x \<le> 0"
    and compare_trans: "cmp x y \<le> 0 \<Longrightarrow> cmp y z \<le> 0 \<Longrightarrow> cmp x z \<le> 0"
begin

lemma insert_sorted:
  "sorted_wrt (\<lambda>x y. cmp x y \<le> 0) ys \<Longrightarrow> sorted_wrt (\<lambda>x y. cmp x y \<le> 0) (js_insert cmp x ys)"
proof (induction ys)
  case (Cons y ys)
  have "set (js_insert cmp x ys) = insert x (set ys)" for ys
    using mset_js_insert [of cmp x ys] by (metis set_mset_add_mset_insert set_mset_mset)
  then show ?case using Cons compare_total [of x y] by (auto dest: compare_trans)
qed simp

lemma sort_sorted: "sorted_wrt (\<lambda>x y. cmp x y \<le> 0) (js_sort cmp xs)"
  by (induction xs) (simp_all add: js_sort_def insert_sorted)

lemma sort_sorted_id: "sorted_wrt (\<lambda>x y. cmp x y \<le> 0) xs \<Longrightarrow> js_sort cmp xs = xs"
proof (induction xs)
  case (Cons x xs)
  then show ?case by (cases xs) (simp_all add: js_sort_def)
qed (simp add: js_sort_def)

text \<open>The order of the input does not matter when no two elements compare as equal.\<close>

lemma sorted_unique:
  assumes "mset xs = mset ys" "sorted_wrt (\<lambda>x y. cmp x y \<le> 0) xs" "sorted_wrt (\<lambda>x y. cmp x y \<le> 0) ys"
    and "\<forall>x \<in> set xs. \<forall>y \<in> set xs. cmp x y \<le> 0 \<and> cmp y x \<le> 0 \<longrightarrow> x = y"
  shows "xs = ys"
  using assms
proof (induction xs arbitrary: ys)
  case (Cons x xs)
  then obtain y ys' where ys: "ys = y # ys'" by (cases ys) auto
  have "set ys = set (x # xs)" using Cons.prems(1) by (metis mset_eq_setD)
  then have in_other: "y \<in> set (x # xs)" "x \<in> set (y # ys')" by (auto simp: ys)
  have "cmp x y \<le> 0" using in_other(1) Cons.prems(2) compare_total [of y y] by auto
  moreover have "cmp y x \<le> 0" using in_other(2) Cons.prems(3) compare_total [of x x] by (auto simp: ys)
  ultimately have "x = y" using Cons.prems(4) in_other(1) by auto
  with Cons ys show ?case by simp
qed simp

lemma sort_unique:
  assumes "mset xs = mset ys" "\<forall>x \<in> set xs. \<forall>y \<in> set xs. cmp x y \<le> 0 \<and> cmp y x \<le> 0 \<longrightarrow> x = y"
  shows "js_sort cmp xs = js_sort cmp ys"
  using assms by (intro sorted_unique sort_sorted) simp_all

end

interpretation text_order: comparator localeCompare
  by unfold_locales (auto simp: localeCompare_def split: if_splits)

lemma localeCompare_le [simp]: "localeCompare a b \<le> 0 \<longleftrightarrow> a \<le> b" "localeCompare a b = 0 \<longleftrightarrow> a = b"
  by (auto simp: localeCompare_def)

text \<open>The part of a sorted list up to a bound is a prefix of it.\<close>

lemma sorted_prefix:
  fixes d :: "'b :: linorder"
  assumes "sorted_wrt (\<lambda>x y. f x \<le> f y) xs"
  shows "filter (\<lambda>x. f x \<le> d) xs = takeWhile (\<lambda>x. f x \<le> d) xs"
  using assms
proof (induction xs)
  case (Cons x xs)
  show ?case
  proof (cases "f x \<le> d")
    case False
    then have "\<not> f y \<le> d" if "y \<in> set xs" for y using Cons.prems that by force
    then show ?thesis using False by simp
  qed (use Cons in simp)
qed simp

lemma takeWhile_prefix: "takeWhile P xs = take (length (takeWhile P xs)) xs"
  by (metis takeWhile_eq_take)

end
