(* ===== verification/Asset_Accounting.thy ===== *)
theory Asset_Accounting
  imports Money JS_Sort
begin

text \<open>
  \<open>backend/src/lib/asset-accounting.ts\<close>: the timeline check of an asset position and the accounting
  of its quantity, cost basis and realized result. The units held are kept in two buckets, those of
  known cost and those of unknown cost. The optional fields of a transaction are options; the plain
  decimal texts of a result are the numbers they denote.
\<close>

section \<open>Transactions and their order\<close>

datatype asset = BTC | USD

datatype transaction_type = BUY | SELL | MANUAL_ADJUSTMENT

record accounting_transaction =
  act_id :: "string option"
  act_createdAt :: "instant option"
  act_asset :: asset
  act_type :: transaction_type
  act_quantity :: rat
  act_cashAmountBrl :: rat
  act_feeAmountBrl :: "rat option"
  act_costBasisKnown :: bool
  act_date :: instant

definition compareTransactions :: "accounting_transaction \<Rightarrow> accounting_transaction \<Rightarrow> int" where
  "compareTransactions left right =
     (let dateDiff = act_date left - act_date right in
      if dateDiff \<noteq> 0 then dateDiff
      else
        (let createdAtDiff = (case act_createdAt left of Some t \<Rightarrow> t | None \<Rightarrow> 0)
               - (case act_createdAt right of Some t \<Rightarrow> t | None \<Rightarrow> 0) in
         if createdAtDiff \<noteq> 0 then createdAtDiff
         else localeCompare (case act_id left of Some i \<Rightarrow> i | None \<Rightarrow> [])
                (case act_id right of Some i \<Rightarrow> i | None \<Rightarrow> [])))"

section \<open>The timeline\<close>

fun timeline_loop :: "decimal_lib \<Rightarrow> rat \<Rightarrow> accounting_transaction list \<Rightarrow> bool" where
  "timeline_loop D balance [] = True"
| "timeline_loop D balance (t # ts) =
     (case act_type t of
        BUY \<Rightarrow> timeline_loop D (dec_plus D balance (act_quantity t)) ts
      | SELL \<Rightarrow>
          if act_quantity t > balance then False
          else timeline_loop D (dec_minus D balance (act_quantity t)) ts
      | MANUAL_ADJUSTMENT \<Rightarrow>
          if dec_plus D balance (act_quantity t) < 0 then False
          else timeline_loop D (dec_plus D balance (act_quantity t)) ts)"

definition isAssetTimelineValid :: "decimal_lib \<Rightarrow> accounting_transaction list \<Rightarrow> bool" where
  "isAssetTimelineValid D input = timeline_loop D 0 (js_sort compareTransactions input)"

section \<open>Removing units from the buckets\<close>

record bucket_removal =
  rm_total :: rat
  rm_removed :: rat
  rm_removedKnown :: rat
  rm_removedUnknown :: rat
  rm_removedKnownCost :: rat
  rm_knownQty :: rat
  rm_unknownQty :: rat
  rm_knownCost :: rat

definition QUANTITY_SCALE :: nat where
  "QUANTITY_SCALE = 12"

definition removeFromBuckets :: "decimal_lib \<Rightarrow> rat \<Rightarrow> rat \<Rightarrow> rat \<Rightarrow> rat \<Rightarrow> bucket_removal" where
  "removeFromBuckets D knownQty unknownQty knownCost requested =
     (let held = dec_plus D knownQty unknownQty in
      if held \<le> 0 \<or> requested \<le> 0 then
        \<lparr>rm_total = held, rm_removed = 0, rm_removedKnown = 0, rm_removedUnknown = 0, rm_removedKnownCost = 0,
         rm_knownQty = knownQty, rm_unknownQty = unknownQty, rm_knownCost = knownCost\<rparr>
      else
        (let removed = (if requested \<le> held then requested else held) in
         if removed = held then
           \<lparr>rm_total = held, rm_removed = removed, rm_removedKnown = knownQty, rm_removedUnknown = unknownQty,
            rm_removedKnownCost = knownCost, rm_knownQty = 0, rm_unknownQty = 0, rm_knownCost = 0\<rparr>
         else
           (let share = dec_places D QUANTITY_SCALE ROUND_HALF_UP (dec_div D (dec_mul D removed knownQty) held);
                mostKnown = (if removed \<le> knownQty then removed else knownQty);
                leastKnown = dec_minus D removed unknownQty;
                capped = (if share > mostKnown then mostKnown else share);
                raised = (if capped < leastKnown then leastKnown else capped);
                removedKnown = (if raised < 0 then 0 else raised);
                removedUnknown = dec_minus D removed removedKnown;
                nextKnownQty = dec_minus D knownQty removedKnown;
                removedKnownCost =
                  (if removedKnown = knownQty then knownCost
                   else if knownQty > 0 then dec_div D (dec_mul D knownCost removedKnown) knownQty
                   else 0)
            in \<lparr>rm_total = held, rm_removed = removed, rm_removedKnown = removedKnown,
                rm_removedUnknown = removedUnknown, rm_removedKnownCost = removedKnownCost,
                rm_knownQty = nextKnownQty, rm_unknownQty = dec_minus D unknownQty removedUnknown,
                rm_knownCost = (if nextKnownQty = 0 then 0 else dec_minus D knownCost removedKnownCost)\<rparr>)))"

section \<open>The accounting loop\<close>

record asset_books =
  bk_knownQty :: rat
  bk_unknownQty :: rat
  bk_knownCost :: rat
  bk_realizedPnl :: rat
  bk_realizedCost :: rat
  bk_fees :: rat
  bk_pnlComplete :: bool

definition opening_books :: asset_books where
  "opening_books = \<lparr>bk_knownQty = 0, bk_unknownQty = 0, bk_knownCost = 0, bk_realizedPnl = 0,
     bk_realizedCost = 0, bk_fees = 0, bk_pnlComplete = True\<rparr>"

text \<open>Units come in with their cost, or without one.\<close>

definition take_in :: "decimal_lib \<Rightarrow> bool \<Rightarrow> rat \<Rightarrow> rat \<Rightarrow> asset_books \<Rightarrow> asset_books" where
  "take_in D known quantity cash b =
     (if known then
        b\<lparr>bk_knownQty := dec_plus D (bk_knownQty b) quantity, bk_knownCost := dec_plus D (bk_knownCost b) cash\<rparr>
      else b\<lparr>bk_unknownQty := dec_plus D (bk_unknownQty b) quantity, bk_pnlComplete := False\<rparr>)"

text \<open>Units go out.\<close>

definition take_out :: "bucket_removal \<Rightarrow> asset_books \<Rightarrow> asset_books" where
  "take_out removal b =
     b\<lparr>bk_knownQty := rm_knownQty removal, bk_unknownQty := rm_unknownQty removal,
       bk_knownCost := rm_knownCost removal,
       bk_pnlComplete := (if rm_removedUnknown removal > 0 then False else bk_pnlComplete b)\<rparr>"

definition sell_units :: "decimal_lib \<Rightarrow> rat \<Rightarrow> bucket_removal \<Rightarrow> asset_books \<Rightarrow> asset_books" where
  "sell_units D cash removal b =
     (let knownCashShare = (if rm_removed removal = 0 then 0 else dec_div D (rm_removedKnown removal) (rm_removed removal)) in
      take_out removal
        (b\<lparr>bk_realizedPnl := dec_plus D (bk_realizedPnl b)
             (dec_minus D (dec_mul D cash knownCashShare) (rm_removedKnownCost removal)),
           bk_realizedCost := dec_plus D (bk_realizedCost b) (rm_removedKnownCost removal)\<rparr>))"

definition account_transaction :: "decimal_lib \<Rightarrow> asset_books \<Rightarrow> accounting_transaction \<Rightarrow> asset_books" where
  "account_transaction D b0 t =
     (let quantity = act_quantity t; cash = act_cashAmountBrl t;
          b = b0\<lparr>bk_fees := dec_plus D (bk_fees b0) (case act_feeAmountBrl t of Some fee \<Rightarrow> fee | None \<Rightarrow> 0)\<rparr>;
          removal = removeFromBuckets D (bk_knownQty b) (bk_unknownQty b) (bk_knownCost b) in
      case act_type t of
        BUY \<Rightarrow>
          if quantity \<le> 0 then b else take_in D (act_costBasisKnown t) quantity cash b
      | MANUAL_ADJUSTMENT \<Rightarrow>
          if quantity = 0 then b
          else if quantity > 0 then take_in D (act_costBasisKnown t \<and> cash > 0) quantity cash b
          else if rm_total (removal \<bar>quantity\<bar>) \<le> 0 then b
          else take_out (removal \<bar>quantity\<bar>) b
      | SELL \<Rightarrow>
          if quantity \<le> 0 then b
          else if rm_total (removal quantity) \<le> 0 then b
          else sell_units D cash (removal quantity) b)"

record asset_accounting =
  acc_asset :: asset
  acc_quantity :: rat
  acc_knownQuantity :: rat
  acc_unknownQuantity :: rat
  acc_investedBrl :: rat
  acc_averageCostBrl :: "rat option"
  acc_feesBrl :: rat
  acc_realizedPnlBrl :: rat
  acc_realizedCostBasisBrl :: rat
  acc_pnlComplete :: bool

definition books_of :: "decimal_lib \<Rightarrow> asset \<Rightarrow> accounting_transaction list \<Rightarrow> asset_books" where
  "books_of D asset' input =
     foldl (account_transaction D) opening_books (js_sort compareTransactions (filter (\<lambda>t. act_asset t = asset') input))"

definition calculateAssetAccounting :: "decimal_lib \<Rightarrow> asset \<Rightarrow> accounting_transaction list \<Rightarrow> asset_accounting" where
  "calculateAssetAccounting D asset' input =
     (let b = books_of D asset' input in
      \<lparr>acc_asset = asset',
       acc_quantity = dec_plus D (bk_knownQty b) (bk_unknownQty b),
       acc_knownQuantity = bk_knownQty b,
       acc_unknownQuantity = bk_unknownQty b,
       acc_investedBrl = bk_knownCost b,
       acc_averageCostBrl = (if bk_knownQty b > 0 then Some (dec_div D (bk_knownCost b) (bk_knownQty b)) else None),
       acc_feesBrl = bk_fees b,
       acc_realizedPnlBrl = bk_realizedPnl b,
       acc_realizedCostBasisBrl = bk_realizedCost b,
       acc_pnlComplete = bk_pnlComplete b\<rparr>)"

record quoted_accounting = asset_accounting +
  acc_quoteBrl :: rat
  acc_marketValueBrl :: rat
  acc_unrealizedPnlBrl :: rat
  acc_totalPnlBrl :: rat
  acc_totalPnlPercent :: "rat option"

definition enrichAccountingWithQuote :: "decimal_lib \<Rightarrow> asset_accounting \<Rightarrow> rat \<Rightarrow> quoted_accounting" where
  "enrichAccountingWithQuote D accounting quote =
     (let marketValue = dec_mul D (acc_quantity accounting) quote;
          knownMarketValue = dec_mul D (acc_knownQuantity accounting) quote;
          unrealized = dec_minus D knownMarketValue (acc_investedBrl accounting);
          result = dec_plus D (acc_realizedPnlBrl accounting) unrealized;
          denominator = dec_plus D (acc_realizedCostBasisBrl accounting) (acc_investedBrl accounting);
          totalPercent = (if denominator > 0 then Some (dec_mul D (dec_div D result denominator) 100) else None)
      in asset_accounting.extend accounting
           \<lparr>acc_quoteBrl = quote, acc_marketValueBrl = marketValue, acc_unrealizedPnlBrl = unrealized,
            acc_totalPnlBrl = result, acc_totalPnlPercent = totalPercent\<rparr>)"

section \<open>The order of the timeline\<close>

interpretation transaction_order: comparator compareTransactions
  by unfold_locales
    (auto simp: compareTransactions_def Let_def split: if_splits dest: order_trans)

lemma compare_by_date: "compareTransactions s t \<le> 0 \<Longrightarrow> act_date s \<le> act_date t"
  by (auto simp: compareTransactions_def Let_def split: if_splits)

lemma timeline_by_date: "sorted_wrt (\<lambda>s t. act_date s \<le> act_date t) (js_sort compareTransactions ts)"
  by (rule sorted_wrt_mono_rel [OF _ transaction_order.sort_sorted]) (rule compare_by_date)

end
