(* ===== verification/Asset_Values.thy ===== *)
theory Asset_Values
  imports Asset_Accounting Entries
begin

text \<open>
  \<open>backend/src/lib/asset-values.ts\<close>: the parsing of asset transactions. \<open>Date.parse\<close> of a text that
  starts with a date and a \<open>T\<close> depends on the engine outside the format of the standard; it is the
  argument \<open>dateParse\<close>. \<open>Decimal#toString\<close> prints as JavaScript numbers do (exponents below
  \<open>1e-6\<close>), which is \<open>number_text\<close>.
\<close>

section \<open>Texts\<close>

definition parseAsset :: "js \<Rightarrow> asset option" where
  "parseAsset v = (if v = JString ''BTC'' then Some BTC else if v = JString ''USD'' then Some USD else None)"

definition asset_name :: "asset \<Rightarrow> string" where
  "asset_name a = (case a of BTC \<Rightarrow> ''BTC'' | USD \<Rightarrow> ''USD'')"

definition AssetValidationError :: "string \<Rightarrow> error" where
  "AssetValidationError message = DomainError ''ASSET_VALIDATION'' message"

text \<open>\<open>String(x ?? '').trim()\<close>\<close>

definition field_text :: "js \<Rightarrow> string" where
  "field_text v = trim (if js_nullish v then [] else js_to_string v)"

text \<open>\<open>toISOString()\<close>; years beyond four digits have a sign and six digits.\<close>

definition toISOString :: "instant \<Rightarrow> string" where
  "toISOString t =
     (let y = getUTCFullYear t in
      if 0 \<le> y \<and> y \<le> 9999 then iso_text t
      else (if y < 0 then ''-'' else ''+'') @ pad \<bar>y\<bar> 6 @ drop (length (pad y 4)) (iso_text t))"

text \<open>\<open>/^-?\d+(?:\.\d+)?$/\<close> without the sign, and the number it denotes.\<close>

definition is_plain_decimal :: "string \<Rightarrow> bool" where
  "is_plain_decimal s \<longleftrightarrow>
     (let whole = takeWhile is_digit s; rest = dropWhile is_digit s in
      whole \<noteq> [] \<and> (rest = [] \<or> hd rest = CHR ''.'' \<and> tl rest \<noteq> [] \<and> list_all is_digit (tl rest)))"

definition has_minus :: "string \<Rightarrow> bool" where
  "has_minus s \<longleftrightarrow> s \<noteq> [] \<and> hd s = CHR ''-''"

text \<open>\<open>toFixed(n)\<close> of a number with at most \<open>n\<close> places.\<close>

definition toFixed :: "nat \<Rightarrow> rat \<Rightarrow> string" where
  "toFixed n a =
     (let units = nat \<lfloor>\<bar>a\<bar> * 10 ^ n\<rfloor> in
      (if a < 0 then ''-'' else []) @ nat_digits (units div 10 ^ n)
        @ (if n = 0 then [] else CHR ''.'' # pad_start n (CHR ''0'') (nat_digits (units mod 10 ^ n))))"

section \<open>Dates\<close>

text \<open>\<open>/^\d{4}-\d{2}-\d{2}T/\<close>\<close>

definition starts_with_date_T :: "string \<Rightarrow> bool" where
  "starts_with_date_T s \<longleftrightarrow> length s \<ge> 11
     \<and> list_all (\<lambda>i. is_digit (s ! i)) [0, 1, 2, 3, 5, 6, 8, 9]
     \<and> s ! 4 = CHR ''-'' \<and> s ! 7 = CHR ''-'' \<and> s ! 10 = CHR ''T''"

definition invalid_date :: error where
  "invalid_date = AssetValidationError ''Data invalida''"

definition parseAssetDate :: "tz_offset \<Rightarrow> (string \<Rightarrow> instant option) \<Rightarrow> instant \<Rightarrow> js \<Rightarrow> instant res" where
  "parseAssetDate sp dateParse now v =
     (let raw = field_text v in
      res_bind
        (if isValidDayKey (JString raw) then Inr raw
         else if starts_with_date_T raw then
           (case dateParse raw of
              None \<Rightarrow> Inl invalid_date
            | Some t \<Rightarrow> res_when (\<not> isValidDayKey (JString (take 10 raw))) invalid_date (Inr (take 10 (toISOString t))))
         else Inl invalid_date) (\<lambda>dayKey.
      res_when (dayKey > todayKeyInSaoPaulo sp now) (AssetValidationError ''Data futura nao e permitida'')
        (dayKeyToDate dayKey Noon)))"

section \<open>Decimal fields\<close>

definition parseDecimalValue :: "js \<Rightarrow> string \<Rightarrow> nat \<Rightarrow> nat \<Rightarrow> bool \<Rightarrow> rat res" where
  "parseDecimalValue v field precision scale allowNegative =
     (let raw = field_text v;
          unsigned = (if has_minus raw then tl raw else raw);
          integerPart = takeWhile (\<lambda>c. c \<noteq> CHR ''.'') unsigned;
          fractionPart = takeWhile (\<lambda>c. c \<noteq> CHR ''.'') (tl (dropWhile (\<lambda>c. c \<noteq> CHR ''.'') unsigned));
          integerDigits = length (dropWhile (\<lambda>c. c = CHR ''0'') integerPart) in
      res_when (\<not> is_plain_decimal (if allowNegative then unsigned else raw)) (AssetValidationError (field @ '' invalido''))
        (res_when (integerDigits > precision - scale \<or> length fractionPart > scale)
           (AssetValidationError (field @ '' excede a precisao permitida''))
           (let parsed = (if has_minus raw then - decimal_text_val unsigned else decimal_text_val unsigned) in
            res_when (\<not> allowNegative \<and> parsed < 0) (AssetValidationError (field @ '' invalido'')) (Inr parsed))))"

definition quantity_places :: "asset \<Rightarrow> nat" where
  "quantity_places a = (case a of BTC \<Rightarrow> 8 | USD \<Rightarrow> 12)"

definition parseQuantity :: "js \<Rightarrow> asset \<Rightarrow> bool \<Rightarrow> rat res" where
  "parseQuantity v a allowNegative =
     res_bind (parseDecimalValue v ''Quantidade'' 30 (quantity_places a) allowNegative) (\<lambda>parsed.
     res_when (parsed = 0) (AssetValidationError ''Quantidade invalida'') (Inr parsed))"

section \<open>A whole transaction\<close>

record asset_input =
  ai_type :: transaction_type
  ai_quantity :: js
  ai_cashAmountBrl :: js
  ai_feeAmountBrl :: js
  ai_feePercent :: js
  ai_costBasisKnown :: "bool option"
  ai_date :: js
  ai_note :: "string option"

record asset_values =
  av_quantity :: rat
  av_cash :: rat
  av_feePercent :: "rat option"
  av_fee :: rat
  av_date :: instant
  av_costBasisKnown :: bool

definition empty_field :: "js \<Rightarrow> bool" where
  "empty_field v \<longleftrightarrow> js_nullish v \<or> v = JString []"

definition percent_fee :: "decimal_lib \<Rightarrow> rat \<Rightarrow> rat \<Rightarrow> rat" where
  "percent_fee D cash percent = dec_places D 8 ROUND_HALF_UP (dec_div D (dec_mul D cash percent) 100)"

definition parseFee :: "decimal_lib \<Rightarrow> rat \<Rightarrow> rat option \<Rightarrow> js \<Rightarrow> rat res" where
  "parseFee D cash feePercent v =
     res_bind (if empty_field v then Inr 0 else parseDecimalValue v ''Taxa'' 18 8 False) (\<lambda>fee.
     case feePercent of
       Some percent \<Rightarrow>
         if fee = 0 \<and> cash > 0 then
           parseDecimalValue (JString (toFixed 8 (percent_fee D cash percent))) ''Taxa'' 18 8 False
         else Inr fee
     | None \<Rightarrow> Inr fee)"

definition parseAssetTransactionValues ::
    "decimal_lib \<Rightarrow> tz_offset \<Rightarrow> (string \<Rightarrow> instant option) \<Rightarrow> instant \<Rightarrow> asset \<Rightarrow> asset_input \<Rightarrow> asset_values res" where
  "parseAssetTransactionValues D sp dateParse now a input =
     (let manual = (ai_type input = MANUAL_ADJUSTMENT) in
      res_bind (parseQuantity (ai_quantity input) a manual) (\<lambda>quantity.
      res_bind (parseDecimalValue (ai_cashAmountBrl input) ''Valor em BRL'' 18 8 False) (\<lambda>typedCash.
      let cash = toMoney D typedCash in
      res_bind (if empty_field (ai_feePercent input) then Inr None
                else res_bind (parseDecimalValue (ai_feePercent input) ''Percentual de taxa'' 12 8 False) (\<lambda>p. Inr (Some p))) (\<lambda>feePercent.
      res_bind (parseFee D cash feePercent (ai_feeAmountBrl input)) (\<lambda>fee.
      res_when (\<not> manual \<and> cash \<le> 0) (AssetValidationError ''Compra/venda exige valor efetivo em BRL maior que zero'')
        (res_when (\<not> manual \<and> cash > MAX_MONEY_AMOUNT)
           (AssetValidationError ''Valor em BRL excede o limite das movimentacoes financeiras'')
           (res_bind (parseAssetDate sp dateParse now (ai_date input)) (\<lambda>date.
            Inr \<lparr>av_quantity = quantity, av_cash = cash, av_feePercent = feePercent, av_fee = fee, av_date = date,
                 av_costBasisKnown = (if manual then ai_costBasisKnown input = Some True \<and> cash > 0 else True)\<rparr>))))))))"

end
