(* ===== verification/Asset_Ledger.thy ===== *)
theory Asset_Ledger
  imports Asset_Values
begin

text \<open>
  \<open>backend/src/lib/assets.ts\<close>: creating, editing and deleting asset transactions. A purchase writes an
  expense and a sale writes an entry of the same amount in the same database transaction, and the
  timeline is checked inside it: a step on the tables returns the new tables or an error alone. The
  asset table stands beside the tables of the other services.
\<close>

section \<open>Tables\<close>

record asset_tx =
  as_id :: string
  as_userId :: string
  as_asset :: asset
  as_type :: transaction_type
  as_quantity :: rat
  as_cashAmountBrl :: rat
  as_feeAmountBrl :: rat
  as_feePercent :: "rat option"
  as_costBasisKnown :: bool
  as_date :: instant
  as_note :: "string option"
  as_expenseId :: "string option"
  as_entryId :: "string option"
  as_createdAt :: instant
  as_updatedAt :: instant

record asset_db =
  w_finance :: finance_db
  w_assets :: "asset_tx list"

definition accounting_of :: "asset_tx \<Rightarrow> accounting_transaction" where
  "accounting_of r = \<lparr>act_id = Some (as_id r), act_createdAt = Some (as_createdAt r), act_asset = as_asset r,
     act_type = as_type r, act_quantity = as_quantity r, act_cashAmountBrl = as_cashAmountBrl r,
     act_feeAmountBrl = Some (as_feeAmountBrl r), act_costBasisKnown = as_costBasisKnown r, act_date = as_date r\<rparr>"

text \<open>The rows of an asset of a user; every reader of them sorts them itself.\<close>

definition asset_rows :: "string \<Rightarrow> asset \<Rightarrow> asset_tx list \<Rightarrow> asset_tx list" where
  "asset_rows userId a rows = filter (\<lambda>r. as_userId r = userId \<and> as_asset r = a) rows"

definition own_asset_tx :: "string \<Rightarrow> string \<Rightarrow> asset_tx list \<Rightarrow> asset_tx option" where
  "own_asset_tx userId transactionId rows = find (\<lambda>r. as_id r = transactionId \<and> as_userId r = userId) rows"

section \<open>The linked rows\<close>

definition purchase_notes :: "asset \<Rightarrow> string option \<Rightarrow> string" where
  "purchase_notes a note = (if truthy note then the note else ''Transferencia interna para '' @ asset_name a)"

definition asset_expense_row ::
    "string \<Rightarrow> instant \<Rightarrow> string \<Rightarrow> asset \<Rightarrow> rat \<Rightarrow> instant \<Rightarrow> string option \<Rightarrow> expense_row" where
  "asset_expense_row expenseId now userId a amount date note = \<lparr>
     be_amount = amount, be_cardId = None, be_isInvoice = False, be_frequency = ''unica'', be_dueDay = None,
     be_startsAt = None, be_endsAt = None, be_occurredAt = Some date, be_createdAt = now, be_archivedAt = None,
     be_splits = [], be_obligationVersions = [],
     er_id = expenseId, er_userId = userId, er_name = ''Compra '' @ asset_name a, er_category = ''investimento'',
     er_customTagId = None, er_paidForMonth = None, er_paidAt = None, er_notes = Some (purchase_notes a note),
     er_billingPeriodStart = None, er_billingPeriodEnd = None, er_voidedAt = None, er_systemOrigin = ''asset'',
     er_splits = [], er_versions = [], er_payments = [], er_updatedAt = now\<rparr>"

definition rewrite_expense :: "instant \<Rightarrow> asset \<Rightarrow> rat \<Rightarrow> instant \<Rightarrow> string option \<Rightarrow> expense_row \<Rightarrow> expense_row" where
  "rewrite_expense now a amount date note e =
     e\<lparr>be_amount := amount, be_frequency := ''unica'', be_occurredAt := Some date, er_name := ''Compra '' @ asset_name a,
       er_category := ''investimento'', er_notes := Some (purchase_notes a note), er_systemOrigin := ''asset'',
       er_updatedAt := now\<rparr>"

definition asset_entry_row :: "string \<Rightarrow> instant \<Rightarrow> string \<Rightarrow> asset \<Rightarrow> rat \<Rightarrow> instant \<Rightarrow> entry_row" where
  "asset_entry_row entryId now userId a amount date = \<lparr>
     en_id = entryId, en_userId = userId, en_customTagId = None, en_name = ''Venda '' @ asset_name a, en_notes = None,
     en_amount = amount, en_type = ''outro'', en_frequency = ''unica'', en_receiveDay = None, en_startsAt = None,
     en_endsAt = None, en_date = Some date, en_receiptHoldForMonth = None, en_receivedForMonth = None,
     en_receivedAt = None, en_archivedAt = None, en_systemOrigin = ''asset'', en_createdAt = now, en_updatedAt = now,
     en_receipts = [], en_salaryVersions = [], en_salaryHolds = []\<rparr>"

definition rewrite_entry :: "instant \<Rightarrow> asset \<Rightarrow> rat \<Rightarrow> instant \<Rightarrow> entry_row \<Rightarrow> entry_row" where
  "rewrite_entry now a amount date e =
     e\<lparr>en_amount := amount, en_type := ''outro'', en_frequency := ''unica'', en_date := Some date,
       en_name := ''Venda '' @ asset_name a, en_systemOrigin := ''asset'', en_updatedAt := now\<rparr>"

definition delete_expense :: "string \<Rightarrow> string \<Rightarrow> finance_db \<Rightarrow> finance_db" where
  "delete_expense userId expenseId db =
     db\<lparr>db_expenses := filter (\<lambda>e. \<not> (er_id e = expenseId \<and> er_userId e = userId)) (db_expenses db)\<rparr>"

definition delete_entry :: "string \<Rightarrow> string \<Rightarrow> finance_db \<Rightarrow> finance_db" where
  "delete_entry userId entryId db =
     db\<lparr>db_entries := filter (\<lambda>e. \<not> (en_id e = entryId \<and> en_userId e = userId)) (db_entries db)\<rparr>"

text \<open>\<open>update\<close> of the database client fails when there is no such row.\<close>

definition update_expense :: "string \<Rightarrow> (expense_row \<Rightarrow> expense_row) \<Rightarrow> finance_db \<Rightarrow> finance_db res" where
  "update_expense expenseId f db =
     res_when (expenseId \<notin> er_id ` set (db_expenses db)) (PlainError ''P2025'')
       (Inr (db\<lparr>db_expenses := map (\<lambda>e. if er_id e = expenseId then f e else e) (db_expenses db)\<rparr>))"

definition update_entry :: "string \<Rightarrow> (entry_row \<Rightarrow> entry_row) \<Rightarrow> finance_db \<Rightarrow> finance_db res" where
  "update_entry entryId f db =
     res_when (entryId \<notin> en_id ` set (db_entries db)) (PlainError ''P2025'')
       (Inr (db\<lparr>db_entries := map (\<lambda>e. if en_id e = entryId then f e else e) (db_entries db)\<rparr>))"

definition new_purchase ::
    "(nat \<Rightarrow> string) \<Rightarrow> instant \<Rightarrow> string \<Rightarrow> asset \<Rightarrow> asset_values \<Rightarrow> decimal_lib \<Rightarrow> string option \<Rightarrow> finance_db
     \<Rightarrow> finance_db \<times> string" where
  "new_purchase newId now userId a v D note db =
     (let expenseId = newId (length (db_expenses db)) in
      (db\<lparr>db_expenses := db_expenses db @ [asset_expense_row expenseId now userId a (toMoney D (av_cash v)) (av_date v) note]\<rparr>,
       expenseId))"

definition new_sale ::
    "(nat \<Rightarrow> string) \<Rightarrow> instant \<Rightarrow> string \<Rightarrow> asset \<Rightarrow> asset_values \<Rightarrow> decimal_lib \<Rightarrow> finance_db \<Rightarrow> finance_db \<times> string" where
  "new_sale newId now userId a v D db =
     (let entryId = newId (length (db_entries db)) in
      (db\<lparr>db_entries := db_entries db @ [asset_entry_row entryId now userId a (toMoney D (av_cash v)) (av_date v)]\<rparr>,
       entryId))"

section \<open>Creating\<close>

definition timeline_error :: error where
  "timeline_error = AssetValidationError ''A movimentacao deixaria a posicao negativa em uma data''"

definition assertTransactionTimelineValid :: "decimal_lib \<Rightarrow> accounting_transaction list \<Rightarrow> 'b res \<Rightarrow> 'b res" where
  "assertTransactionTimelineValid D transactions k =
     res_when (\<not> isAssetTimelineValid D transactions) timeline_error k"

text \<open>The ledger row of a new transaction.\<close>

definition link_transaction ::
    "decimal_lib \<Rightarrow> (nat \<Rightarrow> string) \<Rightarrow> instant \<Rightarrow> string \<Rightarrow> asset \<Rightarrow> asset_input \<Rightarrow> asset_values \<Rightarrow> finance_db
     \<Rightarrow> finance_db \<times> string option \<times> string option" where
  "link_transaction D newId now userId a input v db =
     (case ai_type input of
        BUY \<Rightarrow> (let (f, i) = new_purchase newId now userId a v D (ai_note input) db in (f, Some i, None))
      | SELL \<Rightarrow> (let (f, i) = new_sale newId now userId a v D db in (f, None, Some i))
      | MANUAL_ADJUSTMENT \<Rightarrow> (db, None, None))"

definition created_asset_tx ::
    "string \<Rightarrow> instant \<Rightarrow> string \<Rightarrow> asset \<Rightarrow> asset_input \<Rightarrow> asset_values \<Rightarrow> string option \<Rightarrow> string option \<Rightarrow> asset_tx" where
  "created_asset_tx transactionId now userId a input v expenseId entryId = \<lparr>
     as_id = transactionId, as_userId = userId, as_asset = a, as_type = ai_type input,
     as_quantity = av_quantity v, as_cashAmountBrl = av_cash v, as_feeAmountBrl = av_fee v,
     as_feePercent = av_feePercent v, as_costBasisKnown = av_costBasisKnown v, as_date = av_date v,
     as_note = ai_note input, as_expenseId = expenseId, as_entryId = entryId, as_createdAt = now, as_updatedAt = now\<rparr>"

definition createAssetTransaction ::
    "decimal_lib \<Rightarrow> tz_offset \<Rightarrow> (string \<Rightarrow> instant option) \<Rightarrow> (nat \<Rightarrow> string) \<Rightarrow> instant \<Rightarrow> string \<Rightarrow> asset \<Rightarrow> asset_input
     \<Rightarrow> asset_db \<Rightarrow> (asset_db \<times> asset_tx) res" where
  "createAssetTransaction D sp dateParse newId now userId a input db =
     res_bind (parseAssetTransactionValues D sp dateParse now a input) (\<lambda>v.
     let (fin, expenseId, entryId) = link_transaction D newId now userId a input v (w_finance db);
         created = created_asset_tx (newId (length (w_assets db))) now userId a input v expenseId entryId;
         rows = w_assets db @ [created] in
     assertTransactionTimelineValid D (map accounting_of (asset_rows userId a rows))
       (Inr (db\<lparr>w_finance := fin, w_assets := rows\<rparr>, created)))"

section \<open>Editing\<close>

definition not_found_error :: error where
  "not_found_error = AssetValidationError ''Movimentacao nao encontrada''"

text \<open>The rows of the ledger follow the type of the transaction.\<close>

definition relink ::
    "decimal_lib \<Rightarrow> (nat \<Rightarrow> string) \<Rightarrow> instant \<Rightarrow> string \<Rightarrow> asset_tx \<Rightarrow> asset_input \<Rightarrow> asset_values \<Rightarrow> finance_db
     \<Rightarrow> (finance_db \<times> string option \<times> string option) res" where
  "relink D newId now userId target input v db =
     (let a = as_asset target; cash = toMoney D (av_cash v) in
      case ai_type input of
        BUY \<Rightarrow>
          (let db1 = (if truthy (as_entryId target) then delete_entry userId (the (as_entryId target)) db else db);
               entryId = (if truthy (as_entryId target) then None else as_entryId target) in
           if truthy (as_expenseId target) then
             res_bind (update_expense (the (as_expenseId target)) (rewrite_expense now a cash (av_date v) (ai_note input)) db1)
               (\<lambda>db2. Inr (db2, as_expenseId target, entryId))
           else (let (db2, i) = new_purchase newId now userId a v D (ai_note input) db1 in Inr (db2, Some i, entryId)))
      | SELL \<Rightarrow>
          (let db1 = (if truthy (as_expenseId target) then delete_expense userId (the (as_expenseId target)) db else db);
               expenseId = (if truthy (as_expenseId target) then None else as_expenseId target) in
           if truthy (as_entryId target) then
             res_bind (update_entry (the (as_entryId target)) (rewrite_entry now a cash (av_date v)) db1)
               (\<lambda>db2. Inr (db2, expenseId, as_entryId target))
           else (let (db2, i) = new_sale newId now userId a v D db1 in Inr (db2, expenseId, Some i)))
      | MANUAL_ADJUSTMENT \<Rightarrow>
          (let db1 = (if truthy (as_expenseId target) then delete_expense userId (the (as_expenseId target)) db else db);
               expenseId = (if truthy (as_expenseId target) then None else as_expenseId target);
               db2 = (if truthy (as_entryId target) then delete_entry userId (the (as_entryId target)) db1 else db1);
               entryId = (if truthy (as_entryId target) then None else as_entryId target) in
           Inr (db2, expenseId, entryId)))"

definition edited_asset_tx ::
    "instant \<Rightarrow> asset_input \<Rightarrow> asset_values \<Rightarrow> string option \<Rightarrow> string option \<Rightarrow> asset_tx \<Rightarrow> asset_tx" where
  "edited_asset_tx now input v expenseId entryId r =
     r\<lparr>as_type := ai_type input, as_quantity := av_quantity v, as_cashAmountBrl := av_cash v, as_feeAmountBrl := av_fee v,
       as_feePercent := av_feePercent v, as_costBasisKnown := av_costBasisKnown v, as_date := av_date v,
       as_note := ai_note input, as_expenseId := expenseId, as_entryId := entryId, as_updatedAt := now\<rparr>"

text \<open>The transaction as it will be, for the check of the timeline.\<close>

definition changed_transaction :: "asset_tx \<Rightarrow> asset_input \<Rightarrow> asset_values \<Rightarrow> accounting_transaction" where
  "changed_transaction target input v =
     \<lparr>act_id = Some (as_id target), act_createdAt = Some (as_createdAt target), act_asset = as_asset target,
      act_type = ai_type input, act_quantity = av_quantity v, act_cashAmountBrl = av_cash v, act_feeAmountBrl = None,
      act_costBasisKnown = av_costBasisKnown v, act_date = av_date v\<rparr>"

definition updateAssetTransactionUnderUserLock ::
    "decimal_lib \<Rightarrow> tz_offset \<Rightarrow> (string \<Rightarrow> instant option) \<Rightarrow> (nat \<Rightarrow> string) \<Rightarrow> instant \<Rightarrow> string \<Rightarrow> string
     \<Rightarrow> (asset_tx \<Rightarrow> asset_input) \<Rightarrow> asset_db \<Rightarrow> (asset_db \<times> asset_tx) res" where
  "updateAssetTransactionUnderUserLock D sp dateParse newId now userId transactionId resolve db =
     (case own_asset_tx userId transactionId (w_assets db) of
        None \<Rightarrow> Inl not_found_error
      | Some target \<Rightarrow>
          (let input = resolve target in
           res_bind (parseAssetTransactionValues D sp dateParse now (as_asset target) input) (\<lambda>v.
           let remaining = filter (\<lambda>r. as_id r \<noteq> as_id target) (asset_rows userId (as_asset target) (w_assets db)) in
           assertTransactionTimelineValid D (map accounting_of remaining @ [changed_transaction target input v])
             (res_bind (relink D newId now userId target input v (w_finance db)) (\<lambda>(fin, expenseId, entryId).
              let edited = edited_asset_tx now input v expenseId entryId target in
              Inr (db\<lparr>w_finance := fin,
                     w_assets := map (\<lambda>r. if as_id r = as_id target then edited else r) (w_assets db)\<rparr>, edited))))))"

section \<open>Deleting\<close>

definition deleteAssetTransaction :: "decimal_lib \<Rightarrow> string \<Rightarrow> string \<Rightarrow> asset_db \<Rightarrow> asset_db res" where
  "deleteAssetTransaction D userId transactionId db =
     (case own_asset_tx userId transactionId (w_assets db) of
        None \<Rightarrow> Inl not_found_error
      | Some target \<Rightarrow>
          assertTransactionTimelineValid D
            (map accounting_of (filter (\<lambda>r. as_id r \<noteq> as_id target) (asset_rows userId (as_asset target) (w_assets db))))
            (let fin = w_finance db;
                 fin1 = (if truthy (as_expenseId target) then delete_expense userId (the (as_expenseId target)) fin else fin);
                 fin2 = (if truthy (as_entryId target) then delete_entry userId (the (as_entryId target)) fin1 else fin1) in
             Inr (db\<lparr>w_finance := fin2, w_assets := filter (\<lambda>r. as_id r \<noteq> as_id target) (w_assets db)\<rparr>)))"

section \<open>The summary\<close>

definition assetSummary :: "decimal_lib \<Rightarrow> string \<Rightarrow> asset \<Rightarrow> rat \<Rightarrow> asset_db \<Rightarrow> quoted_accounting" where
  "assetSummary D userId a quote db =
     enrichAccountingWithQuote D (calculateAssetAccounting D a (map accounting_of (asset_rows userId a (w_assets db)))) quote"

end
