(* ===== verification/Asset_Service.thy ===== *)
theory Asset_Service
  imports Asset_Ledger
begin

text \<open>
  \<open>backend/src/services/assets.ts\<close>: the requests of the asset routes. A patch leaves absent fields
  out; the rest of the input comes from the stored row, as the texts \<open>toString\<close> prints.
\<close>

definition parse_kind :: "js \<Rightarrow> transaction_type option" where
  "parse_kind v =
     (if v = JString ''BUY'' then Some BUY else if v = JString ''SELL'' then Some SELL
      else if v = JString ''MANUAL_ADJUSTMENT'' then Some MANUAL_ADJUSTMENT else None)"

definition invalid_type :: error where
  "invalid_type = BadRequest ''Tipo de movimentacao invalido''"

definition parseCreateAssetTransaction :: "(string \<times> js) list \<Rightarrow> asset_input res" where
  "parseCreateAssetTransaction body =
     (case parse_kind (js_field body ''type'') of
        None \<Rightarrow> Inl invalid_type
      | Some kind \<Rightarrow>
          res_bind (parseBoolean (js_field body ''costBasisKnown'') ''costBasisKnown'') (\<lambda>costBasisKnown.
          res_bind (parseOptionalNote (js_field body ''note'') 500) (\<lambda>note.
          Inr \<lparr>ai_type = kind, ai_quantity = js_field body ''quantity'', ai_cashAmountBrl = js_field body ''cashAmountBrl'',
               ai_feeAmountBrl = js_field body ''feeAmountBrl'', ai_feePercent = js_field body ''feePercent'',
               ai_costBasisKnown = costBasisKnown, ai_date = js_field body ''date'', ai_note = note\<rparr>)))"

record asset_patch =
  ap_type :: "transaction_type option"
  ap_quantity :: js
  ap_cashAmountBrl :: js
  ap_feeAmountBrl :: js
  ap_feePercent :: js
  ap_costBasisKnown :: "bool option"
  ap_date :: js
  ap_note :: "string option option"

definition parseAssetTransactionPatch :: "(string \<times> js) list \<Rightarrow> asset_patch res" where
  "parseAssetTransactionPatch body =
     res_when (js_field body ''type'' \<noteq> JUndefined \<and> parse_kind (js_field body ''type'') = None) invalid_type
       (res_bind (parseBoolean (js_field body ''costBasisKnown'') ''costBasisKnown'') (\<lambda>costBasisKnown.
        res_bind (if js_field body ''note'' = JUndefined then Inr None
                  else res_bind (parseOptionalNote (js_field body ''note'') 500) (\<lambda>n. Inr (Some n))) (\<lambda>note.
        Inr \<lparr>ap_type = parse_kind (js_field body ''type''), ap_quantity = js_field body ''quantity'',
             ap_cashAmountBrl = js_field body ''cashAmountBrl'', ap_feeAmountBrl = js_field body ''feeAmountBrl'',
             ap_feePercent = js_field body ''feePercent'', ap_costBasisKnown = costBasisKnown,
             ap_date = js_field body ''date'', ap_note = note\<rparr>)))"

definition given :: "js \<Rightarrow> js \<Rightarrow> js" where
  "given v stored = (if v = JUndefined then stored else v)"

definition decimal_js_text :: "rat \<Rightarrow> js" where
  "decimal_js_text x = JString (number_text x)"

definition mergeAssetTransactionPatch :: "asset_patch \<Rightarrow> asset_tx \<Rightarrow> asset_input" where
  "mergeAssetTransactionPatch patch stored =
     (let feePercent = given (ap_feePercent patch)
            (case as_feePercent stored of Some p \<Rightarrow> decimal_js_text p | None \<Rightarrow> JNull);
          recalcFee = (ap_feeAmountBrl patch = JUndefined \<and> \<not> js_nullish feePercent \<and> feePercent \<noteq> JString []
            \<and> (ap_feePercent patch \<noteq> JUndefined \<or> ap_cashAmountBrl patch \<noteq> JUndefined))
      in \<lparr>ai_type = (case ap_type patch of Some kind \<Rightarrow> kind | None \<Rightarrow> as_type stored),
          ai_quantity = given (ap_quantity patch) (decimal_js_text (as_quantity stored)),
          ai_cashAmountBrl = given (ap_cashAmountBrl patch) (decimal_js_text (as_cashAmountBrl stored)),
          ai_feeAmountBrl = (if recalcFee then JNumber 0
            else given (ap_feeAmountBrl patch) (decimal_js_text (as_feeAmountBrl stored))),
          ai_feePercent = feePercent,
          ai_costBasisKnown = (case ap_costBasisKnown patch of Some b \<Rightarrow> Some b | None \<Rightarrow> Some (as_costBasisKnown stored)),
          ai_date = given (ap_date patch) (JString (toISOString (as_date stored))),
          ai_note = (case ap_note patch of Some n \<Rightarrow> n | None \<Rightarrow> as_note stored)\<rparr>)"

definition newest_first :: "asset_tx \<Rightarrow> asset_tx \<Rightarrow> int" where
  "newest_first left right =
     (if as_date left \<noteq> as_date right then as_date right - as_date left else as_createdAt right - as_createdAt left)"

definition listAssetTransactions :: "string \<Rightarrow> asset \<Rightarrow> asset_db \<Rightarrow> asset_tx list" where
  "listAssetTransactions userId a db = js_sort newest_first (asset_rows userId a (w_assets db))"

definition findOwnedTransaction :: "string \<Rightarrow> string \<Rightarrow> asset_db \<Rightarrow> asset_tx res" where
  "findOwnedTransaction userId i db =
     (case own_asset_tx userId i (w_assets db) of
        None \<Rightarrow> Inl (NotFound ''Movimentacao nao encontrada'') | Some r \<Rightarrow> Inr r)"

definition patchTransaction ::
    "decimal_lib \<Rightarrow> tz_offset \<Rightarrow> (string \<Rightarrow> instant option) \<Rightarrow> (nat \<Rightarrow> string) \<Rightarrow> instant \<Rightarrow> string \<Rightarrow> string
     \<Rightarrow> asset_patch \<Rightarrow> asset_db \<Rightarrow> (asset_db \<times> asset_tx) res" where
  "patchTransaction D sp dateParse newId now userId i patch db =
     res_bind (findOwnedTransaction userId i db) (\<lambda>_.
     updateAssetTransactionUnderUserLock D sp dateParse newId now userId i (mergeAssetTransactionPatch patch) db)"

definition removeTransaction :: "decimal_lib \<Rightarrow> string \<Rightarrow> string \<Rightarrow> asset_db \<Rightarrow> asset_db res" where
  "removeTransaction D userId i db =
     res_bind (findOwnedTransaction userId i db) (\<lambda>_. deleteAssetTransaction D userId i db)"

record serialized_asset_tx =
  sa_id :: string
  sa_asset :: asset
  sa_type :: transaction_type
  sa_quantity :: rat
  sa_cashAmountBrl :: rat
  sa_feeAmountBrl :: rat
  sa_feePercent :: "rat option"
  sa_costBasisKnown :: bool
  sa_date :: string
  sa_note :: "string option"
  sa_expenseId :: "string option"
  sa_entryId :: "string option"
  sa_createdAt :: string

definition serializeAssetTransaction :: "asset_tx \<Rightarrow> serialized_asset_tx" where
  "serializeAssetTransaction r = \<lparr>sa_id = as_id r, sa_asset = as_asset r, sa_type = as_type r, sa_quantity = as_quantity r,
     sa_cashAmountBrl = as_cashAmountBrl r, sa_feeAmountBrl = as_feeAmountBrl r, sa_feePercent = as_feePercent r,
     sa_costBasisKnown = as_costBasisKnown r, sa_date = toISOString (as_date r), sa_note = as_note r,
     sa_expenseId = as_expenseId r, sa_entryId = as_entryId r, sa_createdAt = toISOString (as_createdAt r)\<rparr>"

end
