(* ===== verification/Asset_Texts.thy ===== *)
theory Asset_Texts
  imports Asset_Values
begin

text \<open>
  The decimal texts of asset transactions: what \<open>parseDecimalValue\<close> accepts fits the column it is
  stored in, and the texts \<open>toFixed\<close> and \<open>toString\<close> print are read back exactly, but for the
  exponents \<open>toString\<close> writes below one millionth.
\<close>

section \<open>Plain decimals\<close>

definition plain_text :: "string \<Rightarrow> string \<Rightarrow> string" where
  "plain_text w f = w @ (if f = [] then [] else CHR ''.'' # f)"

lemma digit_not_dot: "is_digit c \<Longrightarrow> c \<noteq> CHR ''.''"
  by (auto simp: is_digit_def)

lemma plain_text_split:
  assumes "list_all is_digit w" "list_all is_digit f"
  shows "takeWhile is_digit (plain_text w f) = w" "dropWhile is_digit (plain_text w f) = (if f = [] then [] else CHR ''.'' # f)"
    "takeWhile (\<lambda>c. c \<noteq> CHR ''.'') (plain_text w f) = w"
    "takeWhile (\<lambda>c. c \<noteq> CHR ''.'') (tl (dropWhile (\<lambda>c. c \<noteq> CHR ''.'') (plain_text w f))) = f"
proof -
  show "takeWhile is_digit (plain_text w f) = w" "dropWhile is_digit (plain_text w f) = (if f = [] then [] else CHR ''.'' # f)"
    using take_digits [OF assms(1)] by (auto simp: plain_text_def)
  have skip: "takeWhile (\<lambda>c. c \<noteq> CHR ''.'') (w @ r) = w @ takeWhile (\<lambda>c. c \<noteq> CHR ''.'') r"
    "dropWhile (\<lambda>c. c \<noteq> CHR ''.'') (w @ r) = dropWhile (\<lambda>c. c \<noteq> CHR ''.'') r" for r
    using assms(1) digit_not_dot by (auto simp: list_all_iff dropWhile_append)
  show "takeWhile (\<lambda>c. c \<noteq> CHR ''.'') (plain_text w f) = w" by (simp add: plain_text_def skip)
  have "takeWhile (\<lambda>c. c \<noteq> CHR ''.'') f = f"
    using assms(2) digit_not_dot by (auto simp: takeWhile_eq_all_conv list_all_iff)
  then show "takeWhile (\<lambda>c. c \<noteq> CHR ''.'') (tl (dropWhile (\<lambda>c. c \<noteq> CHR ''.'') (plain_text w f))) = f"
    by (simp add: plain_text_def skip)
qed

lemma plain_text_ok:
  assumes "w \<noteq> []" "list_all is_digit w" "list_all is_digit f"
  shows "is_plain_decimal (plain_text w f)"
    "decimal_text_val (plain_text w f) = of_int (digits_val (w @ f)) / 10 ^ length f"
proof -
  show "is_plain_decimal (plain_text w f)"
    using plain_text_split [OF assms(2,3)] assms by (simp add: is_plain_decimal_def)
  show "decimal_text_val (plain_text w f) = of_int (digits_val (w @ f)) / 10 ^ length f"
    using plain_text_split [OF assms(2,3)] by (simp add: decimal_text_val_def Let_def)
qed

lemma plain_decimal_cases:
  assumes "is_plain_decimal s"
  obtains w f where "w \<noteq> []" "list_all is_digit w" "list_all is_digit f" "s = plain_text w f"
proof -
  define w r where "w = takeWhile is_digit s" and "r = dropWhile is_digit s"
  have s: "s = w @ r" by (simp add: w_def r_def)
  have p: "w \<noteq> []" "r = [] \<or> hd r = CHR ''.'' \<and> tl r \<noteq> [] \<and> list_all is_digit (tl r)"
    using assms by (simp_all add: is_plain_decimal_def w_def r_def Let_def)
  have w: "list_all is_digit w" by (auto simp: w_def list_all_iff dest: set_takeWhileD)
  show thesis
  proof (cases "r = []")
    case True
    with s p w show ?thesis by (intro that [of w "[]"]) (simp_all add: plain_text_def)
  next
    case False
    with p s have "s = plain_text w (tl r)" by (cases r) (auto simp: plain_text_def)
    with False p w show ?thesis by (intro that [of w "tl r"]) simp_all
  qed
qed

lemma digits_val_Cons: "digits_val (c # s) = digit_val c * 10 ^ length s + digits_val s"
  using digits_val_append [of "[c]" s] by (simp add: digits_val_def)

lemma digits_val_less: "list_all is_digit s \<Longrightarrow> digits_val s < 10 ^ length s"
proof (induction s)
  case (Cons c s)
  then have "digit_val c \<le> 9" by (auto simp: is_digit_iff)
  then have "digit_val c * 10 ^ length s \<le> 9 * 10 ^ length s" by (rule mult_right_mono) simp
  moreover have "digits_val s < 10 ^ length s" using Cons by simp
  ultimately have "digits_val (c # s) < 9 * 10 ^ length s + 10 ^ length s" unfolding digits_val_Cons by linarith
  then show ?case by simp
qed (simp add: digits_val_def)

lemma digits_val_zeros: "digits_val (dropWhile (\<lambda>c. c = CHR ''0'') s) = digits_val s"
proof (induction s)
  case (Cons c s)
  have "digit_val (CHR ''0'') = 0" by code_simp
  with Cons show ?case by (simp add: digits_val_Cons)
qed simp

text \<open>The value of a text lies between its whole part and the next number.\<close>

lemma plain_value_bounds:
  assumes "list_all is_digit w" "list_all is_digit f"
  shows "of_int (digits_val w) \<le> (of_int (digits_val (w @ f)) / 10 ^ length f :: rat)"
    "(of_int (digits_val (w @ f)) / 10 ^ length f :: rat) < of_int (digits_val w) + 1"
proof -
  have v: "digits_val (w @ f) = digits_val w * 10 ^ length f + digits_val f" by (rule digits_val_append)
  have f: "0 \<le> digits_val f" "digits_val f < 10 ^ length f"
    using digits_val_nonneg digits_val_less assms(2) by blast+
  have "of_int (digits_val f) < (of_int (10 ^ length f) :: rat)" using f(2) by (simp only: of_int_less_iff)
  with f(1) show "of_int (digits_val w) \<le> (of_int (digits_val (w @ f)) / 10 ^ length f :: rat)"
    "(of_int (digits_val (w @ f)) / 10 ^ length f :: rat) < of_int (digits_val w) + 1"
    by (simp_all add: v le_divide_eq divide_less_eq algebra_simps)
qed

section \<open>What the parser accepts\<close>

lemma digit_no_minus: "list_all is_digit w \<Longrightarrow> w \<noteq> [] \<Longrightarrow> \<not> has_minus (plain_text w f)"
  by (cases w) (auto simp: has_minus_def plain_text_def is_digit_def)

lemma parseDecimalValue_sound:
  assumes "parseDecimalValue v field p s neg = Inr x"
  shows "on_grid s x \<and> \<bar>x\<bar> < 10 ^ (p - s) \<and> (neg \<or> 0 \<le> x)"
proof -
  define raw where "raw = field_text v"
  define u where "u = (if has_minus raw then tl raw else raw)"
  note unfolded = assms [unfolded parseDecimalValue_def Let_def, folded raw_def, folded u_def]
  then have ok: "is_plain_decimal (if neg then u else raw)"
    "length (dropWhile (\<lambda>c. c = CHR ''0'') (takeWhile (\<lambda>c. c \<noteq> CHR ''.'') u)) \<le> p - s"
    "length (takeWhile (\<lambda>c. c \<noteq> CHR ''.'') (tl (dropWhile (\<lambda>c. c \<noteq> CHR ''.'') u))) \<le> s"
    "x = (if has_minus raw then - decimal_text_val u else decimal_text_val u)" "neg \<or> 0 \<le> x"
    by auto
  have "is_plain_decimal u"
  proof (cases neg)
    case False
    with ok(1) obtain w f where "w \<noteq> []" "list_all is_digit w" "raw = plain_text w f" by (auto elim: plain_decimal_cases)
    with digit_no_minus ok(1) False show ?thesis by (simp add: u_def)
  qed (use ok in simp)
  then obtain w f where u: "w \<noteq> []" "list_all is_digit w" "list_all is_digit f" "u = plain_text w f"
    by (rule plain_decimal_cases)
  note parts = plain_text_split [OF u(2,3)]
  have len: "length (dropWhile (\<lambda>c. c = CHR ''0'') w) \<le> p - s" "length f \<le> s"
    using ok(2,3) by (simp_all add: u(4) parts)
  let ?d = "dropWhile (\<lambda>c. c = CHR ''0'') w"
  have val: "decimal_text_val u = of_int (digits_val (w @ f)) / 10 ^ length f" using plain_text_ok(2) u by simp
  have "list_all is_digit ?d" using u(2) set_dropWhileD by (fastforce simp: list_all_iff)
  then have "digits_val w < 10 ^ length ?d" using digits_val_less [of ?d] by (simp add: digits_val_zeros)
  also have "\<dots> \<le> 10 ^ (p - s)" using len(1) by (rule power_increasing) simp
  finally have "digits_val w + 1 \<le> 10 ^ (p - s)" by simp
  then have "of_int (digits_val w + 1) \<le> (of_int (10 ^ (p - s)) :: rat)" by (simp only: of_int_le_iff)
  then have "decimal_text_val u < 10 ^ (p - s)" using plain_value_bounds(2) [OF u(2,3)] val by simp
  moreover have "0 \<le> decimal_text_val u" using digits_val_nonneg [of "w @ f"] u val by simp
  moreover have "on_grid s (decimal_text_val u)" using len(2) by (intro on_grid_mono [OF _ len(2)]) (simp add: val)
  ultimately show ?thesis using ok(4,5) by (auto intro: on_grid_uminus)
qed

lemma plain_text_edges:
  assumes "w \<noteq> []" "list_all is_digit w" "list_all is_digit f"
  shows "trim (plain_text w f) = plain_text w f" "trim (CHR ''-'' # plain_text w f) = CHR ''-'' # plain_text w f"
proof -
  have "is_digit (hd (plain_text w f))" "is_digit (last (plain_text w f))"
    using assms by (auto simp: plain_text_def list_all_iff)
  moreover have "plain_text w f \<noteq> []" using assms(1) by (simp add: plain_text_def)
  moreover have "\<not> is_space (CHR ''-'')" by code_simp
  ultimately show "trim (plain_text w f) = plain_text w f" "trim (CHR ''-'' # plain_text w f) = CHR ''-'' # plain_text w f"
    by (auto intro!: trim_id simp: digit_not_space)
qed

text \<open>A plain text of few enough digits is read as the number it denotes.\<close>

lemma parse_plain:
  assumes "w \<noteq> []" "list_all is_digit w" "list_all is_digit f" "length w \<le> p - s" "length f \<le> s"
  shows "parseDecimalValue (JString (plain_text w f)) field p s neg = Inr (decimal_text_val (plain_text w f))"
    "parseDecimalValue (JString (CHR ''-'' # plain_text w f)) field p s True = Inr (- decimal_text_val (plain_text w f))"
proof -
  note parts = plain_text_split [OF assms(2,3)] plain_text_ok(1) [OF assms(1-3)] plain_text_edges [OF assms(1-3)]
  have "length (dropWhile (\<lambda>c. c = CHR ''0'') w) \<le> p - s"
    using assms(4) length_dropWhile_le [of "\<lambda>c. c = CHR ''0''" w] by simp
  moreover have "0 \<le> decimal_text_val (plain_text w f)"
    using plain_text_ok(2) [OF assms(1-3)] digits_val_nonneg [of "w @ f"] assms(2,3) by simp
  ultimately show "parseDecimalValue (JString (plain_text w f)) field p s neg = Inr (decimal_text_val (plain_text w f))"
    "parseDecimalValue (JString (CHR ''-'' # plain_text w f)) field p s True = Inr (- decimal_text_val (plain_text w f))"
    using digit_no_minus [OF assms(2,1), of f] assms(5)
    by (simp_all add: parseDecimalValue_def field_text_def js_nullish_def Let_def parts has_minus_def [of "CHR ''-'' # _"])
qed

section \<open>What \<open>toFixed\<close> and \<open>toString\<close> print\<close>

lemma padded_digits:
  assumes "m < 10 ^ n" "1 \<le> n"
  shows "length (pad_start n (CHR ''0'') (nat_digits m)) = n" "list_all is_digit (pad_start n (CHR ''0'') (nat_digits m))"
    "digits_val (pad_start n (CHR ''0'') (nat_digits m)) = int m"
proof -
  have z: "digits_val (replicate k (CHR ''0'')) = 0" for k
  proof (induction k)
    case (Suc k)
    have "digit_val (CHR ''0'') = 0" by code_simp
    with Suc show ?case by (simp add: digits_val_Cons)
  qed (simp add: digits_val_def)
  have "length (nat_digits m) \<le> n" using length_nat_digits [of m "n - 1"] assms by simp
  then show "length (pad_start n (CHR ''0'') (nat_digits m)) = n" by (simp add: pad_start_def)
  have "is_digit (CHR ''0'')" by code_simp
  then show "list_all is_digit (pad_start n (CHR ''0'') (nat_digits m))"
    using nat_digits_props [of m] by (auto simp: pad_start_def list_all_iff)
  show "digits_val (pad_start n (CHR ''0'') (nat_digits m)) = int m"
    using nat_digits_props [of m] by (simp add: pad_start_def digits_val_append z)
qed

lemma whole_digits:
  assumes "0 \<le> x" "x < 10 ^ k" "1 \<le> k"
  shows "length (nat_digits (nat \<lfloor>x\<rfloor>)) \<le> k"
proof -
  have "\<lfloor>x\<rfloor> < 10 ^ k" using assms(2) by (simp add: floor_less_iff)
  then have "int (nat \<lfloor>x\<rfloor>) < int (10 ^ k)" using assms(1) by simp
  then have "nat \<lfloor>x\<rfloor> < 10 ^ k" by (simp only: of_nat_less_iff)
  then show ?thesis using length_nat_digits [of "nat \<lfloor>x\<rfloor>" "k - 1"] assms(3) by simp
qed

lemma toFixed_parts:
  assumes "on_grid n x" "0 \<le> x" "1 \<le> n"
  obtains w f where "toFixed n x = plain_text w f" "w \<noteq> []" "list_all is_digit w" "list_all is_digit f" "length f = n"
    "w = nat_digits (nat \<lfloor>x\<rfloor>)" "decimal_text_val (plain_text w f) = x"
proof -
  obtain m where m: "x = of_int m / 10 ^ n" using assms(1) by (rule on_gridE)
  have "(0::rat) < 10 ^ n" by simp
  with m assms(2) have "0 \<le> m" by (simp only: zero_le_divide_iff) auto
  define k where "k = nat m"
  have x: "x = of_nat k / 10 ^ n" using m \<open>0 \<le> m\<close> by (simp add: k_def)
  then have units: "nat \<lfloor>\<bar>x\<bar> * 10 ^ n\<rfloor> = k" by simp
  define w f where "w = nat_digits (k div 10 ^ n)" and "f = pad_start n (CHR ''0'') (nat_digits (k mod 10 ^ n))"
  have f: "length f = n" "list_all is_digit f" "digits_val f = int (k mod 10 ^ n)"
    using padded_digits [of "k mod 10 ^ n" n] assms(3) by (simp_all add: f_def)
  have w: "w \<noteq> []" "list_all is_digit w" "digits_val w = int (k div 10 ^ n)"
    using nat_digits_props by (simp_all add: w_def)
  have text': "toFixed n x = plain_text w f"
    using assms(2,3) f(1) units by (auto simp: toFixed_def plain_text_def w_def f_def Let_def)
  have "\<lfloor>x\<rfloor> = int (k div 10 ^ n)" unfolding x by (metis floor_divide_of_nat_eq of_nat_numeral of_nat_power)
  then have whole: "w = nat_digits (nat \<lfloor>x\<rfloor>)" by (simp add: w_def)
  have "digits_val (w @ f) = int (k div 10 ^ n * 10 ^ n + k mod 10 ^ n)" by (simp add: digits_val_append w f)
  then have "digits_val (w @ f) = int k" by (simp only: div_mult_mod_eq)
  then have "decimal_text_val (plain_text w f) = x" using plain_text_ok(2) [OF w(1,2) f(2)] f(1) x by simp
  with text' w f whole show thesis by (intro that [of w f])
qed

lemma toFixed_read:
  assumes "on_grid n x" "0 \<le> x" "1 \<le> n" "n \<le> s" "x < 10 ^ (p - s)" "s < p"
  shows "parseDecimalValue (JString (toFixed n x)) field p s neg = Inr x"
proof -
  obtain w f where t: "toFixed n x = plain_text w f" "w \<noteq> []" "list_all is_digit w" "list_all is_digit f" "length f = n"
    "w = nat_digits (nat \<lfloor>x\<rfloor>)" "decimal_text_val (plain_text w f) = x"
    using assms(1-3) by (rule toFixed_parts)
  have "length w \<le> p - s" using whole_digits [OF assms(2,5)] assms(6) by (simp add: t(6))
  with parse_plain(1) [OF t(2-4)] t assms(4) show ?thesis by simp
qed

text \<open>Whatever its size, a text that is accepted is read as its value.\<close>

lemma toFixed_value:
  assumes "on_grid n x" "0 \<le> x" "1 \<le> n" "parseDecimalValue (JString (toFixed n x)) field p s neg = Inr y"
  shows "y = x"
proof -
  obtain w f where t: "toFixed n x = plain_text w f" "w \<noteq> []" "list_all is_digit w" "list_all is_digit f" "length f = n"
    "w = nat_digits (nat \<lfloor>x\<rfloor>)" "decimal_text_val (plain_text w f) = x"
    using assms(1-3) by (rule toFixed_parts)
  then show ?thesis
    using assms(4) digit_no_minus [OF t(3,2), of f] plain_text_edges(1) [OF t(2-4)]
    by (simp add: parseDecimalValue_def field_text_def js_nullish_def Let_def)
qed

lemma fraction_digits_value:
  assumes "on_grid k r" "0 \<le> r" "r < 1" "k \<le> n"
  shows "list_all is_digit (fraction_digits n r) \<and> length (fraction_digits n r) \<le> k
    \<and> of_int (digits_val (fraction_digits n r)) = r * 10 ^ length (fraction_digits n r)"
  using assms
proof (induction n arbitrary: k r)
  case 0
  then obtain m where "r = of_int m" by (auto elim: on_gridE)
  with 0 have "r = 0" by simp
  then show ?case by (simp add: digits_val_def)
next
  case (Suc n)
  show ?case
  proof (cases "r = 0")
    case True
    then show ?thesis by (simp add: digits_val_def)
  next
    case False
    obtain m where m: "r = of_int m / 10 ^ k" using Suc.prems(1) by (rule on_gridE)
    have "k \<noteq> 0"
    proof
      assume "k = 0"
      with m Suc.prems False show False by simp
    qed
    then obtain j where j: "k = Suc j" by (cases k) simp_all
    define d where "d = \<lfloor>r * 10\<rfloor>"
    define r' where "r' = r * 10 - of_int d"
    have "of_int d = r * 10 - r'" by (simp add: r'_def)
    have "on_grid j (r * 10)" by (simp add: m j)
    moreover have "on_grid j (of_int d)" using on_grid_mono [of 0 "of_int d" j] by (simp add: on_grid_def)
    ultimately have "on_grid j r'" by (auto simp: r'_def intro: on_grid_minus)
    moreover have "0 \<le> r'" "r' < 1" by (simp_all add: r'_def d_def) linarith
    ultimately have IH: "list_all is_digit (fraction_digits n r') \<and> length (fraction_digits n r') \<le> j
      \<and> of_int (digits_val (fraction_digits n r')) = r' * 10 ^ length (fraction_digits n r')"
      using Suc.prems(4) j by (intro Suc.IH) simp_all
    have d: "0 \<le> d" "d < 10" using Suc.prems(2,3) by (simp_all add: d_def floor_less_iff)
    then have c: "is_digit (digit_char (nat d))" "digit_val (digit_char (nat d)) = d"
      by (auto simp: is_digit_iff intro!: exI [of _ "nat d"])
    have fd: "fraction_digits (Suc n) r = digit_char (nat d) # fraction_digits n r'"
      using False by (simp add: d_def r'_def)
    have "of_int (digits_val (fraction_digits (Suc n) r)) = (of_int d + r') * 10 ^ length (fraction_digits n r')"
      using IH unfolding fd by (simp add: digits_val_Cons c distrib_right)
    also have "of_int d + r' = r * 10" by (simp add: r'_def)
    finally show ?thesis using IH c j unfolding fd by simp
  qed
qed

lemma plain_number_parts:
  assumes "on_grid k x" "k \<le> 25" "0 \<le> x"
  obtains w f where "plain_number_text x = plain_text w f" "w = nat_digits (nat \<lfloor>x\<rfloor>)" "list_all is_digit f" "length f \<le> k"
    "decimal_text_val (plain_text w f) = x"
proof -
  define f where "f = fraction_digits 25 (x - of_int \<lfloor>x\<rfloor>)"
  have "on_grid k (of_int \<lfloor>x\<rfloor>)" using on_grid_mono [of 0 "of_int \<lfloor>x\<rfloor>" k] by (simp add: on_grid_def)
  then have "on_grid k (x - of_int \<lfloor>x\<rfloor>)" by (intro on_grid_minus assms(1))
  moreover have "0 \<le> x - of_int \<lfloor>x\<rfloor>" "x - of_int \<lfloor>x\<rfloor> < 1" by linarith+
  ultimately have f: "list_all is_digit f" "length f \<le> k" "of_int (digits_val f) = (x - of_int \<lfloor>x\<rfloor>) * 10 ^ length f"
    using fraction_digits_value [of k "x - of_int \<lfloor>x\<rfloor>" 25] assms(2) by (simp_all add: f_def)
  let ?w = "nat_digits (nat \<lfloor>x\<rfloor>)"
  have w: "?w \<noteq> []" "list_all is_digit ?w" "digits_val ?w = \<lfloor>x\<rfloor>"
    using nat_digits_props [of "nat \<lfloor>x\<rfloor>"] assms(3) by simp_all
  have "of_int (digits_val (?w @ f)) = x * 10 ^ length f"
    using f(3) by (simp add: digits_val_append w(3) left_diff_distrib)
  then have "decimal_text_val (plain_text ?w f) = x" using plain_text_ok(2) [OF w(1,2) f(1)] by simp
  moreover have "plain_number_text x = plain_text ?w f"
    using assms(3) by (simp add: plain_number_text_def plain_text_def f_def int_to_string_def Let_def)
  ultimately show thesis using f by (intro that [of ?w f]) simp_all
qed

definition plainly_printed :: "rat \<Rightarrow> bool" where
  "plainly_printed x \<longleftrightarrow> x = 0 \<or> 1 / 10 ^ 6 \<le> \<bar>x\<bar>"

text \<open>\<open>decimal(x.toString())\<close> is \<open>x\<close>, for a stored \<open>x\<close> that is not printed with an exponent.\<close>

lemma number_text_read:
  assumes "on_grid s x" "plainly_printed x" "\<bar>x\<bar> < 10 ^ (p - s)" "s < p" "s \<le> 25" "\<bar>x\<bar> < 10 ^ 21" "neg \<or> 0 \<le> x"
  shows "parseDecimalValue (JString (number_text x)) field p s neg = Inr x"
proof -
  have "on_grid s \<bar>x\<bar>" using assms(1) by (auto simp: abs_if intro: on_grid_uminus)
  then obtain w f where t: "plain_number_text \<bar>x\<bar> = plain_text w f" "w = nat_digits (nat \<lfloor>\<bar>x\<bar>\<rfloor>)" "list_all is_digit f"
    "length f \<le> s" "decimal_text_val (plain_text w f) = \<bar>x\<bar>"
    using assms(5) abs_ge_zero [of x] by (rule plain_number_parts)
  have w: "w \<noteq> []" "list_all is_digit w" "length w \<le> p - s"
    using nat_digits_props [of "nat \<lfloor>\<bar>x\<bar>\<rfloor>"] whole_digits [of "\<bar>x\<bar>" "p - s"] assms(3,4) by (simp_all add: t(2))
  note read = parse_plain [OF w(1,2) t(3) w(3) t(4), unfolded t(5)]
  consider "x = 0" | "0 < x" | "x < 0" by linarith
  then show ?thesis
  proof cases
    case 1
    moreover have "fraction_digits 25 0 = []" by (simp add: fraction_digits.simps(2) numeral_eq_Suc)
    ultimately have "number_text x = plain_text w f"
      using t(1,2) by (simp add: number_text_def plain_number_text_def int_to_string_def plain_text_def nat_digits_small digit_char_0 Let_def)
    with read(1) 1 show ?thesis by simp
  next
    case 2
    with assms(2) assms(6) t(1) have "number_text x = plain_text w f"
      by (simp add: number_text_def plainly_printed_def Let_def)
    with read(1) 2 show ?thesis by simp
  next
    case 3
    with assms(2) assms(6) t(1) have "number_text x = CHR ''-'' # plain_text w f"
      by (simp add: number_text_def plainly_printed_def Let_def)
    with read(2) 3 assms(7) show ?thesis by simp
  qed
qed

end
