(* ===== verification/Asset_Positions.thy ===== *)
theory Asset_Positions
  imports Asset_Accounting
begin

text \<open>
  What the timeline check and the accounting compute: the position after a transaction is the sum of
  the signed quantities, the check accepts a timeline when no position is negative, and the two
  buckets always hold the position. Quantities are stored with 12 places, so sums are exact while the
  units moved stay below a hundred million (20 digits).
\<close>

section \<open>Positions\<close>

definition signed_quantity :: "accounting_transaction \<Rightarrow> rat" where
  "signed_quantity t = (case act_type t of SELL \<Rightarrow> - act_quantity t | _ \<Rightarrow> act_quantity t)"

definition position :: "accounting_transaction list \<Rightarrow> rat" where
  "position ts = sum_list (map signed_quantity ts)"

definition moved_units :: "accounting_transaction list \<Rightarrow> rat" where
  "moved_units ts = sum_list (map (\<lambda>t. \<bar>act_quantity t\<bar>) ts)"

definition stored_units :: "accounting_transaction \<Rightarrow> bool" where
  "stored_units t \<longleftrightarrow> on_grid 12 (act_quantity t) \<and> (act_type t \<noteq> MANUAL_ADJUSTMENT \<longrightarrow> 0 < act_quantity t)"

definition exact_units :: "accounting_transaction list \<Rightarrow> bool" where
  "exact_units ts \<longleftrightarrow> (\<forall>t \<in> set ts. stored_units t) \<and> moved_units ts < 10 ^ 8"

lemma position_simps [simp]:
  "position [] = 0" "position (t # ts) = signed_quantity t + position ts"
  "position (ts @ us) = position ts + position us"
  by (simp_all add: position_def)

lemma moved_units_simps [simp]:
  "moved_units [] = 0" "moved_units (t # ts) = \<bar>act_quantity t\<bar> + moved_units ts"
  by (simp_all add: moved_units_def)

lemma moved_units_nonneg [simp]: "0 \<le> moved_units ts"
  by (induction ts) simp_all

lemma position_perm: "mset ts = mset us \<Longrightarrow> position ts = position us"
  unfolding position_def by (metis mset_map sum_mset_sum_list)

lemma moved_units_perm: "mset ts = mset us \<Longrightarrow> moved_units ts = moved_units us"
  unfolding moved_units_def by (metis mset_map sum_mset_sum_list)

lemma exact_units_sorted [simp]: "exact_units (js_sort cmp ts) = exact_units ts"
  using moved_units_perm [of "js_sort cmp ts" ts] by (simp add: exact_units_def)

lemma exact_units_Cons: "exact_units (t # ts) \<Longrightarrow> exact_units ts"
  by (auto simp: exact_units_def)

lemma signed_abs: "\<bar>signed_quantity t\<bar> = \<bar>act_quantity t\<bar>"
  by (simp add: signed_quantity_def split: transaction_type.split)

lemma position_moved: "\<bar>position ts\<bar> \<le> moved_units ts"
proof (induction ts)
  case (Cons t ts)
  then show ?case using signed_abs [of t] abs_triangle_ineq [of "signed_quantity t" "position ts"] by simp
qed simp

lemma signed_grid: "stored_units t \<Longrightarrow> on_grid 12 (signed_quantity t)"
  by (auto simp: signed_quantity_def stored_units_def intro: on_grid_uminus split: transaction_type.split)

lemma all_le_Suc: "(\<forall>n \<le> Suc m. P n) \<longleftrightarrow> P 0 \<and> (\<forall>n \<le> m. P (Suc n))"
  using All_less_Suc2 [of "Suc m" P] by (simp add: less_Suc_eq_le)

text \<open>A removal takes exactly the units asked for out of the two buckets.\<close>

definition removes_exactly :: "rat \<Rightarrow> rat \<Rightarrow> rat \<Rightarrow> bucket_removal \<Rightarrow> bool" where
  "removes_exactly k u r rm \<longleftrightarrow> rm_total rm = k + u \<and> rm_removed rm = min r (k + u)
     \<and> rm_removedKnown rm + rm_removedUnknown rm = rm_removed rm
     \<and> 0 \<le> rm_removedKnown rm \<and> rm_removedKnown rm \<le> k \<and> 0 \<le> rm_removedUnknown rm \<and> rm_removedUnknown rm \<le> u
     \<and> rm_knownQty rm = k - rm_removedKnown rm \<and> rm_unknownQty rm = u - rm_removedUnknown rm
     \<and> on_grid 12 (rm_knownQty rm) \<and> on_grid 12 (rm_unknownQty rm)
     \<and> (rm_knownQty rm = 0 \<longrightarrow> rm_knownCost rm = 0)"

text \<open>The books hold a position: the buckets are not negative and add up to it.\<close>

definition books_hold :: "rat \<Rightarrow> asset_books \<Rightarrow> bool" where
  "books_hold p b \<longleftrightarrow> on_grid 12 (bk_knownQty b) \<and> on_grid 12 (bk_unknownQty b)
     \<and> 0 \<le> bk_knownQty b \<and> 0 \<le> bk_unknownQty b \<and> bk_knownQty b + bk_unknownQty b = p
     \<and> (bk_pnlComplete b \<longrightarrow> bk_unknownQty b = 0) \<and> (bk_knownQty b = 0 \<longrightarrow> bk_knownCost b = 0)"

section \<open>The timeline check\<close>

context decimal_arith
begin

lemma units_plus:
  assumes "on_grid 12 x" "on_grid 12 y" "\<bar>x + y\<bar> < 10 ^ 8"
  shows "dec_plus D x y = x + y"
  using assms by (intro plus_exact grid_fits20 [of 12] on_grid_plus) simp_all

lemma units_minus:
  assumes "on_grid 12 x" "on_grid 12 y" "\<bar>x - y\<bar> < 10 ^ 8"
  shows "dec_minus D x y = x - y"
  using assms by (intro minus_exact grid_fits20 [of 12] on_grid_minus) simp_all

lemma timeline_exact:
  assumes "\<forall>t \<in> set ts. stored_units t" "on_grid 12 b" "0 \<le> b" "b + moved_units ts < 10 ^ 8"
  shows "timeline_loop D b ts \<longleftrightarrow> (\<forall>n \<le> length ts. 0 \<le> b + position (take n ts))"
  using assms
proof (induction ts arbitrary: b)
  case (Cons t ts)
  let ?q = "act_quantity t" and ?b = "b + signed_quantity t"
  have t: "on_grid 12 ?q" "act_type t \<noteq> MANUAL_ADJUSTMENT \<longrightarrow> 0 < ?q" "on_grid 12 (signed_quantity t)"
    using Cons.prems(1) signed_grid [of t] by (auto simp: stored_units_def)
  have small: "b + \<bar>?q\<bar> + moved_units ts < 10 ^ 8" using Cons.prems(4) by simp
  with moved_units_nonneg [of ts] have near: "b + \<bar>?q\<bar> < 10 ^ 8" by linarith
  have sum: "dec_plus D b ?q = b + ?q" "dec_minus D b ?q = b - ?q"
    using near Cons.prems(3) by (auto intro!: units_plus units_minus Cons.prems(2) t(1))
  have loop: "timeline_loop D b (t # ts) \<longleftrightarrow> 0 \<le> ?b \<and> timeline_loop D ?b ts"
    using t(2) Cons.prems(3) by (auto simp: signed_quantity_def sum split: transaction_type.split)
  have "?b \<le> b + \<bar>?q\<bar>" using signed_abs [of t] by linarith
  with small have "?b + moved_units ts < 10 ^ 8" by linarith
  with Cons.IH [of ?b] Cons.prems(1,2) t(3)
  have IH: "timeline_loop D ?b ts \<longleftrightarrow> (\<forall>n \<le> length ts. 0 \<le> ?b + position (take n ts))" if "0 \<le> ?b"
    using that by (simp add: on_grid_plus)
  have "(\<forall>n \<le> length (t # ts). 0 \<le> b + position (take n (t # ts)))
      \<longleftrightarrow> 0 \<le> b \<and> (\<forall>n \<le> length ts. 0 \<le> b + position (take (Suc n) (t # ts)))"
    using all_le_Suc [of "length ts" "\<lambda>n. 0 \<le> b + position (take n (t # ts))"] by simp
  also have "\<dots> \<longleftrightarrow> (\<forall>n \<le> length ts. 0 \<le> ?b + position (take n ts))"
    using Cons.prems(3) by (simp add: add.assoc)
  also have "\<dots> \<longleftrightarrow> 0 \<le> ?b \<and> (\<forall>n \<le> length ts. 0 \<le> ?b + position (take n ts))"
    by (metis add_0_right position_simps(1) take_0 zero_le)
  finally show ?case using loop IH by blast
qed simp

lemma valid_iff:
  assumes "exact_units ts"
  shows "isAssetTimelineValid D ts \<longleftrightarrow> (\<forall>n \<le> length ts. 0 \<le> position (take n (js_sort compareTransactions ts)))"
proof -
  let ?s = "js_sort compareTransactions ts"
  have "exact_units ?s" using assms by simp
  then show ?thesis
    using timeline_exact [of ?s 0] by (auto simp: isAssetTimelineValid_def exact_units_def)
qed

text \<open>No date at which the position is negative.\<close>

lemma valid_position:
  assumes "exact_units ts" "isAssetTimelineValid D ts"
  shows "0 \<le> position (filter (\<lambda>t. act_date t \<le> d) ts)"
proof -
  let ?s = "js_sort compareTransactions ts"
  have "filter (\<lambda>t. act_date t \<le> d) ?s = take (length (takeWhile (\<lambda>t. act_date t \<le> d) ?s)) ?s"
    using sorted_prefix [OF timeline_by_date, of d ts] takeWhile_prefix by metis
  moreover have "length (takeWhile (\<lambda>t. act_date t \<le> d) ?s) \<le> length ts"
    using length_takeWhile_le [of "\<lambda>t. act_date t \<le> d" ?s] by simp
  ultimately have "0 \<le> position (filter (\<lambda>t. act_date t \<le> d) ?s)"
    using assms valid_iff [OF assms(1)] by metis
  moreover have "position (filter (\<lambda>t. act_date t \<le> d) ?s) = position (filter (\<lambda>t. act_date t \<le> d) ts)"
    by (rule position_perm) (simp add: mset_filter)
  ultimately show ?thesis by simp
qed

section \<open>The buckets\<close>

lemma share_clamped:
  assumes g: "on_grid 12 k" "on_grid 12 u" "on_grid 12 r" and n: "0 \<le> k" "0 \<le> u" "0 < r" "r < k + u" "k + u < 10 ^ 8"
    and s: "on_grid 12 share"
  defines "capped \<equiv> if share > (if r \<le> k then r else k) then (if r \<le> k then r else k) else share"
  defines "raised \<equiv> if capped < dec_minus D r u then dec_minus D r u else capped"
  defines "taken \<equiv> if raised < 0 then 0 else raised"
  shows "on_grid 12 taken" "0 \<le> taken" "taken \<le> k" "taken \<le> r" "r - taken \<le> u"
proof -
  have least: "dec_minus D r u = r - u" using n by (intro units_minus g) linarith
  have "on_grid 12 (r - u)" by (intro on_grid_minus g)
  then show "on_grid 12 taken" using g s by (simp add: taken_def raised_def capped_def least)
  show "0 \<le> taken" by (simp add: taken_def)
  have "capped \<le> k" "capped \<le> r" by (auto simp: capped_def)
  moreover have "r - u \<le> k" "r - u \<le> r" using n by linarith+
  ultimately show "taken \<le> k" "taken \<le> r" using n by (auto simp: taken_def raised_def least)
  show "r - taken \<le> u" by (auto simp: taken_def raised_def least)
qed

lemma removal_exact:
  assumes g: "on_grid 12 k" "on_grid 12 u" "on_grid 12 r" and n: "0 \<le> k" "0 \<le> u" "0 < r" "0 < k + u" "k + u < 10 ^ 8"
  shows "removes_exactly k u r (removeFromBuckets D k u c r)"
proof -
  have held: "dec_plus D k u = k + u" using n by (intro units_plus g) simp
  show ?thesis
  proof (cases "k + u \<le> r")
    case True
    then have "(if r \<le> k + u then r else k + u) = k + u" by simp
    with held n show ?thesis
      by (simp add: removeFromBuckets_def removes_exactly_def Let_def min_absorb2 [OF True])
  next
    case False
    define share where "share = dec_places D QUANTITY_SCALE ROUND_HALF_UP (dec_div D (dec_mul D r k) (k + u))"
    have s: "on_grid 12 share" by (simp add: share_def places round_places_def QUANTITY_SCALE_def)
    define capped where "capped = (if share > (if r \<le> k then r else k) then (if r \<le> k then r else k) else share)"
    define raised where "raised = (if capped < dec_minus D r u then dec_minus D r u else capped)"
    define taken where "taken = (if raised < 0 then 0 else raised)"
    have lt: "r < k + u" using False by simp
    note taken = share_clamped [OF g n(1-3) lt n(5) s, folded capped_def, folded raised_def, folded taken_def]
    have unknown: "dec_minus D r taken = r - taken"
      using taken(2,4) n lt by (intro units_minus g taken(1)) linarith
    have known': "dec_minus D k taken = k - taken"
      using taken(2,3) n by (intro units_minus g taken(1)) linarith
    have "dec_minus D u (r - taken) = u - (r - taken)"
      using taken(4,5) n by (intro units_minus g on_grid_minus taken(1)) linarith
    moreover have "\<not> (k + u \<le> 0 \<or> r \<le> 0)" "r \<le> k + u" "r \<noteq> k + u" using n lt by auto
    then have "\<exists>spent. removeFromBuckets D k u c r =
      \<lparr>rm_total = k + u, rm_removed = r, rm_removedKnown = taken, rm_removedUnknown = dec_minus D r taken,
       rm_removedKnownCost = spent, rm_knownQty = dec_minus D k taken,
       rm_unknownQty = dec_minus D u (dec_minus D r taken),
       rm_knownCost = (if dec_minus D k taken = 0 then 0 else dec_minus D c spent)\<rparr>"
      by (simp only: removeFromBuckets_def Let_def held if_False if_True
          share_def [symmetric] capped_def [symmetric] raised_def [symmetric] taken_def [symmetric]) blast
    ultimately obtain spent where rm: "removeFromBuckets D k u c r =
      \<lparr>rm_total = k + u, rm_removed = r, rm_removedKnown = taken, rm_removedUnknown = r - taken,
       rm_removedKnownCost = spent, rm_knownQty = k - taken, rm_unknownQty = u - (r - taken),
       rm_knownCost = (if k - taken = 0 then 0 else dec_minus D c spent)\<rparr>"
      by (auto simp: unknown known')
    show ?thesis
      unfolding removes_exactly_def rm
      using taken lt g by (auto intro!: on_grid_minus)
  qed
qed

section \<open>The books\<close>

lemma books_hold_fees [simp]: "books_hold p (b\<lparr>bk_fees := f\<rparr>) = books_hold p b"
  by (simp add: books_hold_def)

lemma take_in_holds:
  assumes "books_hold p b" "on_grid 12 q" "0 < q" "p + q < 10 ^ 8"
  shows "books_hold (p + q) (take_in D known q cash b)"
proof -
  have b: "on_grid 12 (bk_knownQty b)" "on_grid 12 (bk_unknownQty b)" "0 \<le> bk_knownQty b" "0 \<le> bk_unknownQty b"
    "bk_knownQty b + bk_unknownQty b = p" using assms(1) by (simp_all add: books_hold_def)
  have "dec_plus D (bk_knownQty b) q = bk_knownQty b + q" "dec_plus D (bk_unknownQty b) q = bk_unknownQty b + q"
    using b assms(3,4) by (auto intro!: units_plus assms(2))
  with b assms show ?thesis by (auto simp: take_in_def books_hold_def intro: on_grid_plus)
qed

lemma take_out_holds:
  assumes "books_hold p b" "removes_exactly (bk_knownQty b) (bk_unknownQty b) q rm" "q \<le> p"
  shows "books_hold (p - q) (take_out rm b)"
proof -
  have "min q (bk_knownQty b + bk_unknownQty b) = q" using assms(1,3) by (simp add: books_hold_def)
  moreover have "rm_removedUnknown rm \<le> 0 \<longrightarrow> rm_unknownQty rm = bk_unknownQty b"
    using assms(2) by (auto simp: removes_exactly_def)
  ultimately show ?thesis
    using assms(1,2) by (auto simp: books_hold_def removes_exactly_def take_out_def)
qed

lemma account_holds:
  assumes b: "books_hold p b" and t: "stored_units t" and small: "p + \<bar>act_quantity t\<bar> < 10 ^ 8"
    and left: "0 \<le> p + signed_quantity t"
  shows "books_hold (p + signed_quantity t) (account_transaction D b t)"
proof -
  let ?q = "act_quantity t"
  define b' where "b' = b\<lparr>bk_fees := dec_plus D (bk_fees b) (case act_feeAmountBrl t of Some fee \<Rightarrow> fee | None \<Rightarrow> 0)\<rparr>"
  have b': "books_hold p b'" using b by (simp add: b'_def)
  have out: "books_hold (p - r) (take_out (removeFromBuckets D (bk_knownQty b') (bk_unknownQty b') (bk_knownCost b') r) b'')"
    if r: "0 < r" "r \<le> p" "on_grid 12 r" and same: "bk_knownQty b'' = bk_knownQty b'" "bk_unknownQty b'' = bk_unknownQty b'"
      "bk_pnlComplete b'' = bk_pnlComplete b'" "bk_knownCost b'' = bk_knownCost b'" for r b''
  proof -
    have "removes_exactly (bk_knownQty b'') (bk_unknownQty b'') r
        (removeFromBuckets D (bk_knownQty b') (bk_unknownQty b') (bk_knownCost b') r)"
      unfolding same using b' r small by (intro removal_exact) (auto simp: books_hold_def)
    then show ?thesis using b' r(2) same by (intro take_out_holds) (simp_all add: books_hold_def)
  qed
  have held: "\<not> rm_total (removeFromBuckets D (bk_knownQty b') (bk_unknownQty b') (bk_knownCost b') r) \<le> 0"
    if "0 < r" "r \<le> p" "on_grid 12 r" for r
    using removal_exact [of "bk_knownQty b'" "bk_unknownQty b'" r "bk_knownCost b'"] b' that small
    by (auto simp: books_hold_def removes_exactly_def)
  have q: "on_grid 12 ?q" "on_grid 12 \<bar>?q\<bar>"
    using t on_grid_uminus [of 12 ?q] by (auto simp: stored_units_def abs_if)
  show ?thesis
  proof (cases "act_type t")
    case BUY
    then have "0 < ?q" using t by (simp add: stored_units_def)
    with BUY small take_in_holds [OF b' q(1)] show ?thesis
      by (simp add: account_transaction_def Let_def signed_quantity_def b'_def [symmetric])
  next
    case SELL
    then have "0 < ?q" "?q \<le> p" using t left by (simp_all add: stored_units_def signed_quantity_def)
    with SELL held [of ?q] q(1) show ?thesis
      using out [of ?q] by (simp add: account_transaction_def Let_def signed_quantity_def b'_def [symmetric] sell_units_def)
  next
    case MANUAL_ADJUSTMENT
    consider "?q = 0" | "0 < ?q" | "?q < 0" by linarith
    then show ?thesis
    proof cases
      case 3
      with MANUAL_ADJUSTMENT left have "0 < \<bar>?q\<bar>" "\<bar>?q\<bar> \<le> p" by (simp_all add: signed_quantity_def)
      with MANUAL_ADJUSTMENT 3 held [of "\<bar>?q\<bar>"] out [of "\<bar>?q\<bar>" b'] q show ?thesis
        by (simp add: account_transaction_def Let_def signed_quantity_def b'_def [symmetric])
    qed (use MANUAL_ADJUSTMENT b' small take_in_holds [OF b' q(1)] in
         \<open>simp_all add: account_transaction_def Let_def signed_quantity_def b'_def [symmetric]\<close>)
  qed
qed

lemma books_hold_positions:
  assumes "\<forall>t \<in> set ts. stored_units t" "books_hold p b" "p + moved_units ts < 10 ^ 8"
    and "\<forall>n \<le> length ts. 0 \<le> p + position (take n ts)"
  shows "books_hold (p + position ts) (foldl (account_transaction D) b ts)"
  using assms
proof (induction ts arbitrary: p b)
  case (Cons t ts)
  let ?p = "p + signed_quantity t"
  have "0 \<le> ?p" using Cons.prems(4) [rule_format, of 1] by simp
  moreover have small: "p + \<bar>act_quantity t\<bar> < 10 ^ 8"
    using Cons.prems(3) moved_units_nonneg [of ts] unfolding moved_units_simps by linarith
  ultimately have b: "books_hold ?p (account_transaction D b t)"
    using Cons.prems(1,2) by (intro account_holds) simp_all
  have "?p + moved_units ts < 10 ^ 8" using Cons.prems(3) signed_abs [of t] by simp
  moreover have "\<forall>n \<le> length ts. 0 \<le> ?p + position (take n ts)"
  proof (intro allI impI)
    fix n assume "n \<le> length ts"
    then show "0 \<le> ?p + position (take n ts)"
      using Cons.prems(4) [rule_format, of "Suc n"] by (simp add: add.assoc)
  qed
  ultimately show ?case using Cons.IH [OF _ b] Cons.prems(1) by (simp add: add.assoc)
qed simp

lemma books_of_position:
  assumes "exact_units ts" "isAssetTimelineValid D ts" "\<forall>t \<in> set ts. act_asset t = a"
  shows "books_hold (position ts) (books_of D a ts)"
proof -
  let ?s = "js_sort compareTransactions ts"
  have "books_hold 0 opening_books" by (simp add: books_hold_def opening_books_def)
  moreover have "exact_units ?s" using assms(1) by simp
  ultimately have "books_hold (0 + position ?s) (foldl (account_transaction D) opening_books ?s)"
    using assms(2) valid_iff [OF assms(1)] by (intro books_hold_positions) (auto simp: exact_units_def)
  moreover have "position ?s = position ts" by (rule position_perm) simp
  moreover have "filter (\<lambda>t. act_asset t = a) ts = ts" using assms(3) by simp
  ultimately show ?thesis by (simp add: books_of_def)
qed

end

end
