(* ===== verification/Asset_Effects.thy ===== *)
theory Asset_Effects
  imports Asset_Service Asset_Texts Asset_Positions
begin

text \<open>
  What the operations on asset transactions do to the tables. The expenses and entries of origin
  \<open>asset\<close> are the image of the asset rows under \<open>purchase_of\<close> and \<open>sale_of\<close>: one row for every purchase
  and every sale, with its user, amount and day.
\<close>

section \<open>Rows owned by another table\<close>

text \<open>
  Both ledgers share this contract: rows have a key, some of them are owned by the asset table, and
  what the owner says of a row includes its key.
\<close>

locale owned_rows =
  fixes key :: "'r \<Rightarrow> string" and owned :: "'r \<Rightarrow> bool" and view :: "'r \<Rightarrow> 'v" and view_key :: "'v \<Rightarrow> string"
  assumes view_key: "view_key (view r) = key r"
begin

lemma owned_append: "view ` {r \<in> set (rs @ [x]). owned r} = view ` {r \<in> set rs. owned r} \<union> (if owned x then {view x} else {})"
  by auto

lemma owned_remove:
  "view ` {r \<in> set (filter (\<lambda>r. key r \<noteq> k) rs). owned r} = view ` {r \<in> set rs. owned r} - {v. view_key v = k}"
  by (auto simp: view_key)

lemma owned_replace:
  assumes "\<And>r. key (f r) = key r" "\<And>r. r \<in> set rs \<Longrightarrow> key r = k \<Longrightarrow> owned (f r) \<and> view (f r) = v"
    and "k \<in> key ` set rs"
  shows "view ` {r \<in> set (map (\<lambda>r. if key r = k then f r else r) rs). owned r}
    = view ` {r \<in> set rs. owned r} - {v. view_key v = k} \<union> {v}"
proof -
  have "view ` {r \<in> set (map (\<lambda>r. if key r = k then f r else r) rs). owned r} \<subseteq> view ` {r \<in> set rs. owned r} - {v. view_key v = k} \<union> {v}"
    using assms(2) by (auto simp: view_key)
  moreover have "v \<in> view ` {r \<in> set (map (\<lambda>r. if key r = k then f r else r) rs). owned r}"
  proof -
    from assms(3) obtain r where r: "r \<in> set rs" "key r = k" by auto
    with assms(2) have "owned (f r)" "view (f r) = v" by auto
    moreover have "f r \<in> set (map (\<lambda>r. if key r = k then f r else r) rs)" using r by force
    ultimately show ?thesis by blast
  qed
  moreover have "view ` {r \<in> set rs. owned r} - {v. view_key v = k} \<subseteq> view ` {r \<in> set (map (\<lambda>r. if key r = k then f r else r) rs). owned r}"
    by (force simp: view_key)
  ultimately show ?thesis by blast
qed

lemma unowned_remove:
  assumes "distinct (map key rs)" "x \<in> set rs" "key x = k" "owned x"
  shows "filter (\<lambda>r. \<not> owned r) (filter (\<lambda>r. key r \<noteq> k) rs) = filter (\<lambda>r. \<not> owned r) rs"
proof -
  have "owned r" if "r \<in> set rs" "key r = k" for r
    using assms that by (metis distinct_map inj_onD)
  then show ?thesis by (auto simp: filter_filter intro!: filter_cong)
qed

lemma unowned_replace:
  assumes "distinct (map key rs)" "x \<in> set rs" "key x = k" "owned x" "owned (f x)"
  shows "filter (\<lambda>r. \<not> owned r) (map (\<lambda>r. if key r = k then f r else r) rs) = filter (\<lambda>r. \<not> owned r) rs"
proof -
  have only: "r = x" if "r \<in> set rs" "key r = k" for r using assms that by (metis distinct_map inj_onD)
  have "filter (\<lambda>r. \<not> owned r) (map (\<lambda>r. if key r = k then f r else r) ys) = filter (\<lambda>r. \<not> owned r) ys" if "set ys \<subseteq> set rs" for ys
    using that only assms(4,5) by (induction ys) auto
  then show ?thesis by simp
qed

lemma keys_replace: "(\<And>r. key (f r) = key r) \<Longrightarrow> map key (map (\<lambda>r. if key r = k then f r else r) rs) = map key rs"
  by (induction rs) auto

end

section \<open>What the ledgers say of a transaction\<close>

record ledger_view =
  lv_id :: string
  lv_userId :: string
  lv_name :: string
  lv_amount :: rat
  lv_day :: "instant option"
  lv_notes :: "string option"
  lv_cash :: bool

text \<open>An expense of the asset table is paid in cash, is no invoice and is not archived.\<close>

definition expense_view :: "expense_row \<Rightarrow> ledger_view" where
  "expense_view e = \<lparr>lv_id = er_id e, lv_userId = er_userId e, lv_name = er_name e, lv_amount = be_amount e,
     lv_day = be_occurredAt e, lv_notes = er_notes e,
     lv_cash = (be_cardId e = None \<and> \<not> be_isInvoice e \<and> be_frequency e = ''unica'' \<and> be_archivedAt e = None
       \<and> er_voidedAt e = None \<and> er_splits e = [] \<and> er_payments e = [] \<and> er_customTagId e = None)\<rparr>"

definition entry_view :: "entry_row \<Rightarrow> ledger_view" where
  "entry_view e = \<lparr>lv_id = en_id e, lv_userId = en_userId e, lv_name = en_name e, lv_amount = en_amount e,
     lv_day = en_date e, lv_notes = None,
     lv_cash = (en_frequency e = ''unica'' \<and> en_type e = ''outro'' \<and> en_archivedAt e = None \<and> en_receipts e = []
       \<and> en_customTagId e = None)\<rparr>"

definition asset_expense :: "expense_row \<Rightarrow> bool" where
  "asset_expense e \<longleftrightarrow> er_systemOrigin e = ''asset''"

definition asset_entry :: "entry_row \<Rightarrow> bool" where
  "asset_entry e \<longleftrightarrow> en_systemOrigin e = ''asset''"

definition purchase_of :: "asset_tx \<Rightarrow> ledger_view" where
  "purchase_of r = \<lparr>lv_id = the (as_expenseId r), lv_userId = as_userId r, lv_name = ''Compra '' @ asset_name (as_asset r),
     lv_amount = as_cashAmountBrl r, lv_day = Some (as_date r), lv_notes = Some (purchase_notes (as_asset r) (as_note r)),
     lv_cash = True\<rparr>"

definition sale_of :: "asset_tx \<Rightarrow> ledger_view" where
  "sale_of r = \<lparr>lv_id = the (as_entryId r), lv_userId = as_userId r, lv_name = ''Venda '' @ asset_name (as_asset r),
     lv_amount = as_cashAmountBrl r, lv_day = Some (as_date r), lv_notes = None, lv_cash = True\<rparr>"

interpretation asset_expenses: owned_rows er_id asset_expense expense_view lv_id
  by unfold_locales (simp add: expense_view_def)

interpretation asset_entries: owned_rows en_id asset_entry entry_view lv_id
  by unfold_locales (simp add: entry_view_def)

definition expense_views :: "finance_db \<Rightarrow> ledger_view set" where
  "expense_views db = expense_view ` {e \<in> set (db_expenses db). asset_expense e}"

definition entry_views :: "finance_db \<Rightarrow> ledger_view set" where
  "entry_views db = entry_view ` {e \<in> set (db_entries db). asset_entry e}"

text \<open>The links of a row follow its type.\<close>

definition proper_links :: "asset_tx \<Rightarrow> bool" where
  "proper_links r \<longleftrightarrow>
     (case as_type r of
        BUY \<Rightarrow> truthy (as_expenseId r) \<and> as_entryId r = None
      | SELL \<Rightarrow> truthy (as_entryId r) \<and> as_expenseId r = None
      | MANUAL_ADJUSTMENT \<Rightarrow> as_expenseId r = None \<and> as_entryId r = None)"

text \<open>What an operation leaves alone: everything but the rows of origin \<open>asset\<close>.\<close>

definition keeps_other_rows :: "finance_db \<Rightarrow> finance_db \<Rightarrow> bool" where
  "keeps_other_rows db db' \<longleftrightarrow>
     db' = db\<lparr>db_expenses := db_expenses db', db_entries := db_entries db'\<rparr>
     \<and> filter (\<lambda>e. \<not> asset_expense e) (db_expenses db') = filter (\<lambda>e. \<not> asset_expense e) (db_expenses db)
     \<and> filter (\<lambda>e. \<not> asset_entry e) (db_entries db') = filter (\<lambda>e. \<not> asset_entry e) (db_entries db)"

section \<open>Operations on the ledgers\<close>

text \<open>The expenses before and after: \<open>gone\<close> is the id of a view that goes, \<open>come\<close> the view that comes.\<close>

definition expenses_change :: "string option \<Rightarrow> ledger_view option \<Rightarrow> finance_db \<Rightarrow> finance_db \<Rightarrow> bool" where
  "expenses_change gone come db db' \<longleftrightarrow>
     expense_views db' = expense_views db - {v. lv_id v \<in> set_option gone} \<union> set_option come
     \<and> filter (\<lambda>e. \<not> asset_expense e) (db_expenses db') = filter (\<lambda>e. \<not> asset_expense e) (db_expenses db)
     \<and> distinct (map er_id (db_expenses db')) \<and> db' = db\<lparr>db_expenses := db_expenses db'\<rparr>"

definition entries_change :: "string option \<Rightarrow> ledger_view option \<Rightarrow> finance_db \<Rightarrow> finance_db \<Rightarrow> bool" where
  "entries_change gone come db db' \<longleftrightarrow>
     entry_views db' = entry_views db - {v. lv_id v \<in> set_option gone} \<union> set_option come
     \<and> filter (\<lambda>e. \<not> asset_entry e) (db_entries db') = filter (\<lambda>e. \<not> asset_entry e) (db_entries db)
     \<and> distinct (map en_id (db_entries db')) \<and> db' = db\<lparr>db_entries := db_entries db'\<rparr>"

lemma no_expenses_change: "distinct (map er_id (db_expenses db)) \<Longrightarrow> expenses_change None None db db"
  by (simp add: expenses_change_def)

lemma no_entries_change: "distinct (map en_id (db_entries db)) \<Longrightarrow> entries_change None None db db"
  by (simp add: entries_change_def)

lemma new_purchase_change:
  assumes "new_purchase newId now u a v D note db = (db', i)" "i \<notin> er_id ` set (db_expenses db)"
    and "distinct (map er_id (db_expenses db))" "toMoney D (av_cash v) = av_cash v"
    and "as_expenseId r = Some i" "as_userId r = u" "as_asset r = a" "as_cashAmountBrl r = av_cash v" "as_date r = av_date v"
      "as_note r = note"
  shows "expenses_change None (Some (purchase_of r)) db db'" "i = newId (length (db_expenses db))"
proof -
  let ?e = "asset_expense_row i now u a (av_cash v) (av_date v) note"
  show i: "i = newId (length (db_expenses db))" using assms(1) by (auto simp: new_purchase_def Let_def)
  with assms(1,4) have db': "db' = db\<lparr>db_expenses := db_expenses db @ [?e]\<rparr>" by (auto simp: new_purchase_def Let_def)
  have e: "asset_expense ?e" "expense_view ?e = purchase_of r" "er_id ?e = i"
    using assms by (simp_all add: asset_expense_def expense_view_def purchase_of_def asset_expense_row_def)
  show "expenses_change None (Some (purchase_of r)) db db'"
    unfolding expenses_change_def expense_views_def db'
    using asset_expenses.owned_append [of "db_expenses db" ?e] e assms(2,3) by simp
qed

lemma new_sale_change:
  assumes "new_sale newId now u a v D db = (db', i)" "i \<notin> en_id ` set (db_entries db)"
    and "distinct (map en_id (db_entries db))" "toMoney D (av_cash v) = av_cash v"
    and "as_entryId r = Some i" "as_userId r = u" "as_asset r = a" "as_cashAmountBrl r = av_cash v" "as_date r = av_date v"
  shows "entries_change None (Some (sale_of r)) db db'" "i = newId (length (db_entries db))"
proof -
  let ?e = "asset_entry_row i now u a (av_cash v) (av_date v)"
  show i: "i = newId (length (db_entries db))" using assms(1) by (auto simp: new_sale_def Let_def)
  with assms(1,4) have db': "db' = db\<lparr>db_entries := db_entries db @ [?e]\<rparr>" by (auto simp: new_sale_def Let_def)
  have e: "asset_entry ?e" "entry_view ?e = sale_of r" "en_id ?e = i"
    using assms by (simp_all add: asset_entry_def entry_view_def sale_of_def asset_entry_row_def)
  show "entries_change None (Some (sale_of r)) db db'"
    unfolding entries_change_def entry_views_def db'
    using asset_entries.owned_append [of "db_entries db" ?e] e assms(2,3) by simp
qed

text \<open>The row a view comes from; the only one with its id.\<close>

lemma purchase_row:
  assumes "distinct (map er_id (db_expenses db))" "purchase_of r \<in> expense_views db" "as_expenseId r = Some i"
  obtains e where "e \<in> set (db_expenses db)" "er_id e = i" "asset_expense e" "expense_view e = purchase_of r" "er_userId e = as_userId r"
    "\<And>e'. e' \<in> set (db_expenses db) \<Longrightarrow> er_id e' = i \<Longrightarrow> e' = e"
proof -
  from assms(2) obtain e where e: "e \<in> set (db_expenses db)" "asset_expense e" "expense_view e = purchase_of r"
    by (auto simp: expense_views_def)
  from e(3) assms(3) have k: "er_id e = i" "er_userId e = as_userId r"
    by (simp_all add: expense_view_def purchase_of_def)
  have "e' = e" if "e' \<in> set (db_expenses db)" "er_id e' = i" for e'
    using that e(1) k(1) assms(1) by (metis distinct_map inj_onD)
  then show thesis by (rule that [OF e(1) k(1) e(2,3) k(2)])
qed

lemma sale_row:
  assumes "distinct (map en_id (db_entries db))" "sale_of r \<in> entry_views db" "as_entryId r = Some i"
  obtains e where "e \<in> set (db_entries db)" "en_id e = i" "asset_entry e" "entry_view e = sale_of r" "en_userId e = as_userId r"
    "\<And>e'. e' \<in> set (db_entries db) \<Longrightarrow> en_id e' = i \<Longrightarrow> e' = e"
proof -
  from assms(2) obtain e where e: "e \<in> set (db_entries db)" "asset_entry e" "entry_view e = sale_of r"
    by (auto simp: entry_views_def)
  from e(3) assms(3) have k: "en_id e = i" "en_userId e = as_userId r"
    by (simp_all add: entry_view_def sale_of_def)
  have "e' = e" if "e' \<in> set (db_entries db)" "en_id e' = i" for e'
    using that e(1) k(1) assms(1) by (metis distinct_map inj_onD)
  then show thesis by (rule that [OF e(1) k(1) e(2,3) k(2)])
qed

lemma distinct_filter_map: "distinct (map f xs) \<Longrightarrow> distinct (map f (filter P xs))"
  by (induction xs) auto

lemma delete_expense_change:
  assumes "distinct (map er_id (db_expenses db))" "purchase_of r \<in> expense_views db" "as_expenseId r = Some i"
  shows "expenses_change (Some i) None db (delete_expense (as_userId r) i db)"
proof -
  obtain e where e: "e \<in> set (db_expenses db)" "er_id e = i" "asset_expense e" "er_userId e = as_userId r"
    "\<And>e'. e' \<in> set (db_expenses db) \<Longrightarrow> er_id e' = i \<Longrightarrow> e' = e"
    using purchase_row [OF assms] by metis
  have "er_userId e' = as_userId r" if "e' \<in> set (db_expenses db)" "er_id e' = i" for e' using e(4,5) that by blast
  then have "filter (\<lambda>e'. \<not> (er_id e' = i \<and> er_userId e' = as_userId r)) (db_expenses db) = filter (\<lambda>e'. er_id e' \<noteq> i) (db_expenses db)"
    by (intro filter_cong refl) blast
  then have d: "delete_expense (as_userId r) i db = db\<lparr>db_expenses := filter (\<lambda>e'. er_id e' \<noteq> i) (db_expenses db)\<rparr>"
    by (simp add: delete_expense_def)
  show ?thesis
    using asset_expenses.unowned_remove [OF assms(1) e(1,2,3)] asset_expenses.owned_remove [of i "db_expenses db"]
    by (simp add: expenses_change_def d expense_views_def distinct_filter_map [OF assms(1)])
qed

lemma delete_entry_change:
  assumes "distinct (map en_id (db_entries db))" "sale_of r \<in> entry_views db" "as_entryId r = Some i"
  shows "entries_change (Some i) None db (delete_entry (as_userId r) i db)"
proof -
  obtain e where e: "e \<in> set (db_entries db)" "en_id e = i" "asset_entry e" "en_userId e = as_userId r"
    "\<And>e'. e' \<in> set (db_entries db) \<Longrightarrow> en_id e' = i \<Longrightarrow> e' = e"
    using sale_row [OF assms] by metis
  have "en_userId e' = as_userId r" if "e' \<in> set (db_entries db)" "en_id e' = i" for e' using e(4,5) that by blast
  then have "filter (\<lambda>e'. \<not> (en_id e' = i \<and> en_userId e' = as_userId r)) (db_entries db) = filter (\<lambda>e'. en_id e' \<noteq> i) (db_entries db)"
    by (intro filter_cong refl) blast
  then have d: "delete_entry (as_userId r) i db = db\<lparr>db_entries := filter (\<lambda>e'. en_id e' \<noteq> i) (db_entries db)\<rparr>"
    by (simp add: delete_entry_def)
  show ?thesis
    using asset_entries.unowned_remove [OF assms(1) e(1,2,3)] asset_entries.owned_remove [of i "db_entries db"]
    by (simp add: entries_change_def d entry_views_def distinct_filter_map [OF assms(1)])
qed

lemma update_expense_change:
  assumes "distinct (map er_id (db_expenses db))" "purchase_of r \<in> expense_views db" "as_expenseId r = Some i"
    and u: "update_expense i (rewrite_expense now (as_asset r) (av_cash v) (av_date v) note) db = Inr db'"
    and r': "as_expenseId r' = Some i" "as_userId r' = as_userId r" "as_asset r' = as_asset r" "as_cashAmountBrl r' = av_cash v"
      "as_date r' = av_date v" "as_note r' = note"
  shows "expenses_change (Some i) (Some (purchase_of r')) db db'"
proof -
  let ?f = "rewrite_expense now (as_asset r) (av_cash v) (av_date v) note"
  obtain e where e: "e \<in> set (db_expenses db)" "er_id e = i" "asset_expense e" "expense_view e = purchase_of r"
    "\<And>e'. e' \<in> set (db_expenses db) \<Longrightarrow> er_id e' = i \<Longrightarrow> e' = e"
    using purchase_row [OF assms(1-3)] by metis
  have db': "db' = db\<lparr>db_expenses := map (\<lambda>e. if er_id e = i then ?f e else e) (db_expenses db)\<rparr>"
    using u by (simp add: update_expense_def)
  have key: "er_id (?f x) = er_id x" for x by (simp add: rewrite_expense_def)
  have fe: "asset_expense (?f e)" "expense_view (?f e) = purchase_of r'"
    using e(2,4) r' by (simp_all add: asset_expense_def rewrite_expense_def expense_view_def purchase_of_def)
  have "i \<in> er_id ` set (db_expenses db)" using e(1,2) by auto
  moreover have "asset_expense (?f x) \<and> expense_view (?f x) = purchase_of r'" if "x \<in> set (db_expenses db)" "er_id x = i" for x
    using e(5) [OF that] fe by simp
  ultimately have "expense_view ` {x \<in> set (map (\<lambda>x. if er_id x = i then ?f x else x) (db_expenses db)). asset_expense x}
      = expense_view ` {x \<in> set (db_expenses db). asset_expense x} - {v. lv_id v = i} \<union> {purchase_of r'}"
    by (intro asset_expenses.owned_replace key)
  then have "expense_views db' = expense_views db - {v. lv_id v = i} \<union> {purchase_of r'}"
    by (simp add: expense_views_def db' del: set_map)
  then show ?thesis
    using asset_expenses.unowned_replace [OF assms(1) e(1,2,3), of ?f] fe(1)
    asset_expenses.keys_replace [OF key, of i "db_expenses db"] assms(1)
    by (simp add: expenses_change_def db' del: map_map)
qed

lemma update_entry_change:
  assumes "distinct (map en_id (db_entries db))" "sale_of r \<in> entry_views db" "as_entryId r = Some i"
    and u: "update_entry i (rewrite_entry now (as_asset r) (av_cash v) (av_date v)) db = Inr db'"
    and r': "as_entryId r' = Some i" "as_userId r' = as_userId r" "as_asset r' = as_asset r" "as_cashAmountBrl r' = av_cash v"
      "as_date r' = av_date v"
  shows "entries_change (Some i) (Some (sale_of r')) db db'"
proof -
  let ?f = "rewrite_entry now (as_asset r) (av_cash v) (av_date v)"
  obtain e where e: "e \<in> set (db_entries db)" "en_id e = i" "asset_entry e" "entry_view e = sale_of r"
    "\<And>e'. e' \<in> set (db_entries db) \<Longrightarrow> en_id e' = i \<Longrightarrow> e' = e"
    using sale_row [OF assms(1-3)] by metis
  have db': "db' = db\<lparr>db_entries := map (\<lambda>e. if en_id e = i then ?f e else e) (db_entries db)\<rparr>"
    using u by (simp add: update_entry_def)
  have key: "en_id (?f x) = en_id x" for x by (simp add: rewrite_entry_def)
  have fe: "asset_entry (?f e)" "entry_view (?f e) = sale_of r'"
    using e(2,4) r' by (simp_all add: asset_entry_def rewrite_entry_def entry_view_def sale_of_def)
  have "i \<in> en_id ` set (db_entries db)" using e(1,2) by auto
  moreover have "asset_entry (?f x) \<and> entry_view (?f x) = sale_of r'" if "x \<in> set (db_entries db)" "en_id x = i" for x
    using e(5) [OF that] fe by simp
  ultimately have "entry_view ` {x \<in> set (map (\<lambda>x. if en_id x = i then ?f x else x) (db_entries db)). asset_entry x}
      = entry_view ` {x \<in> set (db_entries db). asset_entry x} - {v. lv_id v = i} \<union> {sale_of r'}"
    by (intro asset_entries.owned_replace key)
  then have "entry_views db' = entry_views db - {v. lv_id v = i} \<union> {sale_of r'}"
    by (simp add: entry_views_def db' del: set_map)
  then show ?thesis
    using asset_entries.unowned_replace [OF assms(1) e(1,2,3), of ?f] fe(1)
    asset_entries.keys_replace [OF key, of i "db_entries db"] assms(1)
    by (simp add: entries_change_def db' del: map_map)
qed

text \<open>Both ledgers.\<close>

definition ledgers_change ::
    "string option \<Rightarrow> ledger_view option \<Rightarrow> string option \<Rightarrow> ledger_view option \<Rightarrow> finance_db \<Rightarrow> finance_db \<Rightarrow> bool" where
  "ledgers_change expenseGone expenseCome entryGone entryCome db db' \<longleftrightarrow>
     expense_views db' = expense_views db - {v. lv_id v \<in> set_option expenseGone} \<union> set_option expenseCome
     \<and> entry_views db' = entry_views db - {v. lv_id v \<in> set_option entryGone} \<union> set_option entryCome
     \<and> distinct (map er_id (db_expenses db')) \<and> distinct (map en_id (db_entries db')) \<and> keeps_other_rows db db'"

lemma ledgers_changeI:
  assumes "expenses_change eg ec db db1" "entries_change ng nc db1 db'"
  shows "ledgers_change eg ec ng nc db db'"
proof -
  have 1: "db1 = db\<lparr>db_expenses := db_expenses db1\<rparr>" using assms(1) by (simp add: expenses_change_def)
  have 2: "db' = db1\<lparr>db_entries := db_entries db'\<rparr>" using assms(2) by (simp add: entries_change_def)
  have e: "db_entries db1 = db_entries db" by (subst 1) simp
  have x: "db_expenses db' = db_expenses db1" by (subst 2) simp
  have "db' = db\<lparr>db_expenses := db_expenses db1, db_entries := db_entries db'\<rparr>" by (subst 2, subst 1) simp
  then show ?thesis
    using assms e x
    by (simp add: ledgers_change_def expenses_change_def entries_change_def expense_views_def entry_views_def keeps_other_rows_def)
qed

lemma ledgers_changeI2:
  assumes "entries_change ng nc db db1" "expenses_change eg ec db1 db'"
  shows "ledgers_change eg ec ng nc db db'"
proof -
  have 1: "db1 = db\<lparr>db_entries := db_entries db1\<rparr>" using assms(1) by (simp add: entries_change_def)
  have 2: "db' = db1\<lparr>db_expenses := db_expenses db'\<rparr>" using assms(2) by (simp add: expenses_change_def)
  have e: "db_expenses db1 = db_expenses db" by (subst 1) simp
  have x: "db_entries db' = db_entries db1" by (subst 2) simp
  have "db' = db\<lparr>db_expenses := db_expenses db', db_entries := db_entries db1\<rparr>" by (subst 2, subst 1) simp
  then show ?thesis
    using assms e x
    by (simp add: ledgers_change_def expenses_change_def entries_change_def expense_views_def entry_views_def keeps_other_rows_def)
qed

definition bought_id :: "asset_tx \<Rightarrow> string option" where
  "bought_id r = (if as_type r = BUY then as_expenseId r else None)"

definition sold_id :: "asset_tx \<Rightarrow> string option" where
  "sold_id r = (if as_type r = SELL then as_entryId r else None)"

definition purchase_view :: "asset_tx \<Rightarrow> ledger_view option" where
  "purchase_view r = (if as_type r = BUY then Some (purchase_of r) else None)"

definition sale_view :: "asset_tx \<Rightarrow> ledger_view option" where
  "sale_view r = (if as_type r = SELL then Some (sale_of r) else None)"

lemma truthyE: "truthy x \<Longrightarrow> (\<And>i. x = Some i \<Longrightarrow> i \<noteq> [] \<Longrightarrow> P) \<Longrightarrow> P"
  by (cases x) (auto simp: truthy_def)

lemma truthy_simps [simp]: "\<not> truthy None" "truthy (Some i) \<longleftrightarrow> i \<noteq> []"
  by (simp_all add: truthy_def)

lemma relink_effect:
  assumes ids: "distinct (map er_id (db_expenses db))" "distinct (map en_id (db_entries db))"
    and t: "proper_links t" "as_type t = BUY \<Longrightarrow> purchase_of t \<in> expense_views db" "as_type t = SELL \<Longrightarrow> sale_of t \<in> entry_views db"
    and fresh: "newId (length (db_expenses db)) \<notin> er_id ` set (db_expenses db)" "newId (length (db_entries db)) \<notin> en_id ` set (db_entries db)"
      "\<And>i. newId i \<noteq> []"
    and cash: "toMoney D (av_cash v) = av_cash v"
    and run: "relink D newId now (as_userId t) t input v db = Inr (db', ei, ni)"
  defines "r \<equiv> edited_asset_tx now input v ei ni t"
  shows "proper_links r \<and> ledgers_change (bought_id t) (purchase_view r) (sold_id t) (sale_view r) db db'
    \<and> (as_type r = BUY \<longrightarrow> ei = (if as_type t = BUY then as_expenseId t else Some (newId (length (db_expenses db)))))
    \<and> (as_type r = SELL \<longrightarrow> ni = (if as_type t = SELL then as_entryId t else Some (newId (length (db_entries db)))))"
proof -
  have r: "as_type r = ai_type input" "as_expenseId r = ei" "as_entryId r = ni" "as_userId r = as_userId t" "as_asset r = as_asset t"
    "as_cashAmountBrl r = av_cash v" "as_date r = av_date v" "as_note r = ai_note input"
    by (simp_all add: r_def edited_asset_tx_def)
  note views = r proper_links_def bought_id_def sold_id_def purchase_view_def sale_view_def
  note same = no_expenses_change [OF ids(1)] no_entries_change [OF ids(2)]
  have tables: "db_expenses (delete_entry u i db) = db_expenses db" "db_entries (delete_expense u i db) = db_entries db" for u i
    by (simp_all add: delete_entry_def delete_expense_def)
  note sell = new_sale_change [OF _ _ _ cash, where r = r] and buy = new_purchase_change [OF _ _ _ cash, where r = r]
  show ?thesis
  proof (cases "as_type t")
    case BUY
    then obtain i where i: "as_expenseId t = Some i" "i \<noteq> []" "as_entryId t = None"
      using t(1) by (auto simp: proper_links_def elim: truthyE)
    note gone = delete_expense_change [OF ids(1) t(2) [OF BUY] i(1)]
    show ?thesis
    proof (cases "ai_type input")
      case b: BUY
      with run i obtain db2 where u: "update_expense i (rewrite_expense now (as_asset t) (av_cash v) (av_date v) (ai_note input)) db = Inr db2"
        "db' = db2" "ei = Some i" "ni = None"
        by (auto simp: relink_def Let_def cash res_bind_eq_Inr)
      have "expenses_change (Some i) (Some (purchase_of r)) db db2"
        by (rule update_expense_change [OF ids(1) t(2) [OF BUY] i(1) u(1)]) (simp_all add: r u)
      then have "ledgers_change (Some i) (Some (purchase_of r)) None None db db2" by (rule ledgers_changeI2 [OF same(2)])
      then show ?thesis using BUY b i u by (simp add: views)
    next
      case SELL
      obtain db2 j where n: "new_sale newId now (as_userId t) (as_asset t) v D (delete_expense (as_userId t) i db) = (db2, j)"
        by fastforce
      with run SELL i have u: "db' = db2" "ei = None" "ni = Some j" by (auto simp: relink_def Let_def)
      have "entries_change None (Some (sale_of r)) (delete_expense (as_userId t) i db) db2" "j = newId (length (db_entries db))"
        using sell [OF n] fresh n ids(2) r u by (auto simp: tables new_sale_def Let_def)
      with gone fresh(3) show ?thesis using BUY SELL i u by (auto simp: views intro: ledgers_changeI)
    next
      case MANUAL_ADJUSTMENT
      with run i have u: "db' = delete_expense (as_userId t) i db" "ei = None" "ni = None" by (auto simp: relink_def Let_def)
      then show ?thesis
        using BUY MANUAL_ADJUSTMENT i ledgers_changeI2 [OF same(2) gone] by (simp add: views)
    qed
  next
    case SELL
    then obtain i where i: "as_entryId t = Some i" "i \<noteq> []" "as_expenseId t = None"
      using t(1) by (auto simp: proper_links_def elim: truthyE)
    note gone = delete_entry_change [OF ids(2) t(3) [OF SELL] i(1)]
    show ?thesis
    proof (cases "ai_type input")
      case BUY
      obtain db2 j where n: "new_purchase newId now (as_userId t) (as_asset t) v D (ai_note input) (delete_entry (as_userId t) i db) = (db2, j)"
        by fastforce
      with run BUY i have u: "db' = db2" "ei = Some j" "ni = None" by (auto simp: relink_def Let_def)
      have "expenses_change None (Some (purchase_of r)) (delete_entry (as_userId t) i db) db2" "j = newId (length (db_expenses db))"
        using buy [OF n] fresh n ids(1) r u by (auto simp: tables new_purchase_def Let_def)
      with gone fresh(3) show ?thesis using BUY SELL i u by (auto simp: views intro: ledgers_changeI2)
    next
      case s: SELL
      with run i obtain db2 where u: "update_entry i (rewrite_entry now (as_asset t) (av_cash v) (av_date v)) db = Inr db2"
        "db' = db2" "ni = Some i" "ei = None"
        by (auto simp: relink_def Let_def cash res_bind_eq_Inr)
      have "entries_change (Some i) (Some (sale_of r)) db db2"
        by (rule update_entry_change [OF ids(2) t(3) [OF SELL] i(1) u(1)]) (simp_all add: r u)
      then show ?thesis using SELL s i u same by (auto simp: views intro: ledgers_changeI)
    next
      case MANUAL_ADJUSTMENT
      with run i have u: "db' = delete_entry (as_userId t) i db" "ei = None" "ni = None" by (auto simp: relink_def Let_def)
      then show ?thesis using SELL MANUAL_ADJUSTMENT i ledgers_changeI [OF same(1) gone] by (simp add: views)
    qed
  next
    case m: MANUAL_ADJUSTMENT
    then have i: "as_entryId t = None" "as_expenseId t = None" using t(1) by (auto simp: proper_links_def)
    show ?thesis
    proof (cases "ai_type input")
      case BUY
      obtain db2 j where n: "new_purchase newId now (as_userId t) (as_asset t) v D (ai_note input) db = (db2, j)" by fastforce
      with run BUY i have u: "db' = db2" "ei = Some j" "ni = None" by (auto simp: relink_def Let_def)
      have "expenses_change None (Some (purchase_of r)) db db2" "j = newId (length (db_expenses db))"
        using buy [OF n] fresh n ids(1) r u by (auto simp: new_purchase_def Let_def)
      with same fresh(3) show ?thesis using BUY m i u by (auto simp: views intro: ledgers_changeI2)
    next
      case SELL
      obtain db2 j where n: "new_sale newId now (as_userId t) (as_asset t) v D db = (db2, j)" by fastforce
      with run SELL i have u: "db' = db2" "ei = None" "ni = Some j" by (auto simp: relink_def Let_def)
      have "entries_change None (Some (sale_of r)) db db2" "j = newId (length (db_entries db))"
        using sell [OF n] fresh n ids(2) r u by (auto simp: new_sale_def Let_def)
      with same fresh(3) show ?thesis using SELL m i u by (auto simp: views intro: ledgers_changeI)
    next
      case MANUAL_ADJUSTMENT
      with run i have u: "db' = db" "ei = None" "ni = None" by (auto simp: relink_def Let_def)
      then show ?thesis using MANUAL_ADJUSTMENT m i ledgers_changeI [OF same] by (simp add: views)
    qed
  qed
qed

end
