(* ===== verification/Asset_System.thy ===== *)
theory Asset_System
  imports Asset_Effects
begin

text \<open>
  The asset service as a transition system on the tables: the invariant of its rows, its steps on
  parsed requests and the states they reach. The other services may do anything that leaves the
  rows of the asset table and of origin \<open>asset\<close> as they are (\<open>keeps_asset_rows\<close>).
\<close>

section \<open>What the parser accepts\<close>

definition stored_tx :: "decimal_lib \<Rightarrow> asset_tx \<Rightarrow> bool" where
  "stored_tx D r \<longleftrightarrow> stored_units (accounting_of r) \<and> as_quantity r \<noteq> 0 \<and> on_grid (quantity_places (as_asset r)) (as_quantity r)
     \<and> cents (as_cashAmountBrl r) \<and> 0 \<le> as_cashAmountBrl r
     \<and> (as_type r \<noteq> MANUAL_ADJUSTMENT \<longrightarrow> 0 < as_cashAmountBrl r \<and> as_cashAmountBrl r \<le> MAX_MONEY_AMOUNT)
     \<and> on_grid 8 (as_feeAmountBrl r) \<and> 0 \<le> as_feeAmountBrl r \<and> as_feeAmountBrl r < 10 ^ 10
     \<and> (case as_feePercent r of Some p \<Rightarrow> on_grid 8 p \<and> 0 \<le> p \<and> p < 10 ^ 4
          \<and> (as_feeAmountBrl r = 0 \<and> 0 < as_cashAmountBrl r \<longrightarrow> percent_fee D (as_cashAmountBrl r) p = 0)
        | None \<Rightarrow> True)
     \<and> (as_type r \<noteq> MANUAL_ADJUSTMENT \<longrightarrow> as_costBasisKnown r) \<and> (as_costBasisKnown r \<longrightarrow> 0 < as_cashAmountBrl r)"

lemma quantity_places_le: "quantity_places a \<le> 12"
  by (simp add: quantity_places_def split: asset.split)

lemma parsed_quantity:
  assumes "parseQuantity v a neg = Inr q"
  shows "on_grid (quantity_places a) q" "on_grid 12 q" "q \<noteq> 0" "neg \<or> 0 < q" "\<bar>q\<bar> < 10 ^ (30 - quantity_places a)"
proof -
  from assms have p: "parseDecimalValue v ''Quantidade'' 30 (quantity_places a) neg = Inr q" "q \<noteq> 0"
    by (auto simp: parseQuantity_def res_bind_eq_Inr)
  with parseDecimalValue_sound [OF p(1)] show "on_grid (quantity_places a) q" "q \<noteq> 0" "neg \<or> 0 < q"
    "\<bar>q\<bar> < 10 ^ (30 - quantity_places a)"
    by auto
  then show "on_grid 12 q" using quantity_places_le by (blast intro: on_grid_mono)
qed

text \<open>A fee computed from the percentage is the rounded product, as \<open>toFixed\<close> is read back exactly.\<close>

lemma percent_fee_read:
  assumes "decimal_arith D" "0 \<le> cash" "0 \<le> p"
  shows "parseDecimalValue (JString (toFixed 8 (percent_fee D cash p))) ''Taxa'' 18 8 False = Inr x \<Longrightarrow> x = percent_fee D cash p"
proof -
  assume r: "parseDecimalValue (JString (toFixed 8 (percent_fee D cash p))) ''Taxa'' 18 8 False = Inr x"
  have "0 \<le> dec_div D (dec_mul D cash p) 100"
    using assms by (intro decimal_arith.div_nonneg decimal_arith.mul_nonneg) simp_all
  then have "0 \<le> percent_fee D cash p"
    using half_up_places_mono [of 0 "dec_div D (dec_mul D cash p) 100" 8] at_places_fixed [of 8 0 half_up_int]
    by (simp add: percent_fee_def decimal_arith.places [OF assms(1)] round_places_def)
  moreover have "on_grid 8 (percent_fee D cash p)"
    by (simp add: percent_fee_def decimal_arith.places [OF assms(1)] round_places_def)
  ultimately show ?thesis using toFixed_value [OF _ _ _ r] by simp
qed

lemma parsed_fee:
  assumes "decimal_arith D" "parseFee D cash percent v = Inr fee" "0 \<le> cash" "\<And>p. percent = Some p \<Longrightarrow> 0 \<le> p"
  shows "on_grid 8 fee \<and> 0 \<le> fee \<and> fee < 10 ^ 10
    \<and> (\<forall>p. percent = Some p \<and> fee = 0 \<and> 0 < cash \<longrightarrow> percent_fee D cash p = 0)"
proof -
  have field: "on_grid 8 x \<and> 0 \<le> x \<and> x < 10 ^ 10" if "parseDecimalValue w ''Taxa'' 18 8 False = Inr x" for w x
    using parseDecimalValue_sound [OF that] by auto
  have "percent_fee D cash p = 0" if "percent = Some p" "fee = 0" "0 < cash" for p
  proof -
    have "parseDecimalValue (JString (toFixed 8 (percent_fee D cash p))) ''Taxa'' 18 8 False = Inr 0"
      using assms(2) that by (auto simp: parseFee_def res_bind_eq_Inr split: if_splits)
    with percent_fee_read [OF assms(1,3) assms(4)] that(1) show ?thesis by metis
  qed
  moreover have "on_grid 8 fee \<and> 0 \<le> fee \<and> fee < 10 ^ 10"
    using assms(2) by (auto simp: parseFee_def res_bind_eq_Inr split: if_splits option.splits dest!: field)
  ultimately show ?thesis by blast
qed

lemma parsed_values:
  assumes "decimal_arith D" "parseAssetTransactionValues D sp dateParse now a input = Inr v"
  shows "stored_tx D (edited_asset_tx now input v ei ni (r\<lparr>as_asset := a\<rparr>))" "toMoney D (av_cash v) = av_cash v"
proof -
  let ?manual = "ai_type input = MANUAL_ADJUSTMENT"
  from assms(2) obtain q c date where p: "parseQuantity (ai_quantity input) a ?manual = Inr q"
    "parseDecimalValue (ai_cashAmountBrl input) ''Valor em BRL'' 18 8 False = Inr c"
    "if empty_field (ai_feePercent input) then av_feePercent v = None
     else \<exists>p. parseDecimalValue (ai_feePercent input) ''Percentual de taxa'' 12 8 False = Inr p \<and> av_feePercent v = Some p"
    "parseFee D (toMoney D c) (av_feePercent v) (ai_feeAmountBrl input) = Inr (av_fee v)"
    "?manual \<or> 0 < toMoney D c \<and> toMoney D c \<le> MAX_MONEY_AMOUNT"
    "av_quantity v = q" "av_cash v = toMoney D c" "av_date v = date"
    "av_costBasisKnown v = (if ?manual then ai_costBasisKnown input = Some True \<and> toMoney D c > 0 else True)"
    by (auto simp: parseAssetTransactionValues_def Let_def res_bind_eq_Inr split: if_splits)
  have "0 \<le> c" using parseDecimalValue_sound [OF p(2)] by simp
  then have "0 \<le> toMoney D c" by (rule decimal_arith.toMoney_nonneg [OF assms(1)])
  moreover have "cents (toMoney D c)" by (rule decimal_arith.toMoney_cents [OF assms(1)])
  moreover have percent: "on_grid 8 x \<and> 0 \<le> x \<and> x < 10 ^ 4" if "av_feePercent v = Some x" for x
    using p(3) that by (auto split: if_splits dest!: parseDecimalValue_sound)
  ultimately show "stored_tx D (edited_asset_tx now input v ei ni (r\<lparr>as_asset := a\<rparr>))"
    using parsed_quantity [OF p(1)] parsed_fee [OF assms(1) p(4)] percent p(5-9)
    by (auto simp: stored_tx_def edited_asset_tx_def stored_units_def accounting_of_def split: option.split)
  show "toMoney D (av_cash v) = av_cash v" by (simp add: p(7) decimal_arith.toMoney_id [OF assms(1)] \<open>cents (toMoney D c)\<close>)
qed

section \<open>The timeline of rows\<close>

definition valid_timeline :: "decimal_lib \<Rightarrow> string \<Rightarrow> asset \<Rightarrow> asset_tx list \<Rightarrow> bool" where
  "valid_timeline D u a rows \<longleftrightarrow> isAssetTimelineValid D (map accounting_of (asset_rows u a rows))"

lemma timeline_ignores_fees:
  "timeline_loop D b (map (act_feeAmountBrl_update f) ts) = timeline_loop D b ts"
  by (induction ts arbitrary: b) (simp_all split: transaction_type.split)

lemma sort_ignores_fees:
  "js_sort compareTransactions (map (act_feeAmountBrl_update f) ts) = map (act_feeAmountBrl_update f) (js_sort compareTransactions ts)"
proof -
  have c: "compareTransactions (act_feeAmountBrl_update f x) (act_feeAmountBrl_update f y) = compareTransactions x y" for x y
    by (simp add: compareTransactions_def)
  have "js_insert compareTransactions (act_feeAmountBrl_update f x) (map (act_feeAmountBrl_update f) ys)
      = map (act_feeAmountBrl_update f) (js_insert compareTransactions x ys)" for x ys
    by (induction ys) (simp_all add: c)
  then show ?thesis by (induction ts) (simp_all add: js_sort_def)
qed

lemma compare_equal_id: "compareTransactions s t \<le> 0 \<Longrightarrow> compareTransactions t s \<le> 0 \<Longrightarrow> act_id s = Some i \<Longrightarrow> act_id t = Some j \<Longrightarrow> i = j"
  by (auto simp: compareTransactions_def Let_def split: if_splits)

text \<open>The order of the rows does not matter, as their ids differ.\<close>

lemma timeline_perm:
  assumes "mset ts = mset us" "distinct (map act_id ts)" "\<forall>t \<in> set ts. act_id t \<noteq> None"
  shows "isAssetTimelineValid D ts = isAssetTimelineValid D us"
proof -
  have "s = t" if st: "s \<in> set ts" "t \<in> set ts" "compareTransactions s t \<le> 0" "compareTransactions t s \<le> 0" for s t
  proof -
    obtain i j where i: "act_id s = Some i" "act_id t = Some j" using assms(3) st(1,2) by blast
    with compare_equal_id [OF st(3,4)] have "act_id s = act_id t" by simp
    with st(1,2) assms(2) show ?thesis by (metis distinct_map inj_onD)
  qed
  then have "js_sort compareTransactions ts = js_sort compareTransactions us"
    by (intro transaction_order.sort_unique assms(1)) blast
  then show ?thesis by (simp add: isAssetTimelineValid_def)
qed

lemma accounting_id [simp]: "act_id (accounting_of r) = Some (as_id r)"
  by (simp add: accounting_of_def)

lemma accounting_ids: "distinct (map act_id (map accounting_of rows)) = distinct (map as_id rows)"
  by (simp add: distinct_map inj_on_def)

lemma asset_rows_simps [simp]:
  "asset_rows u a [] = []"
  "asset_rows u a (rs @ ss) = asset_rows u a rs @ asset_rows u a ss"
  "set (asset_rows u a rs) = {r \<in> set rs. as_userId r = u \<and> as_asset r = a}"
  by (auto simp: asset_rows_def)

section \<open>Links\<close>

text \<open>The rows of origin \<open>asset\<close> are the image of the purchases and of the sales, one to one.\<close>

definition linked :: "asset_tx set \<Rightarrow> ledger_view set \<Rightarrow> ledger_view set \<Rightarrow> bool" where
  "linked rows expenses entries \<longleftrightarrow>
     expenses = purchase_of ` {r \<in> rows. as_type r = BUY} \<and> entries = sale_of ` {r \<in> rows. as_type r = SELL}
     \<and> inj_on as_expenseId {r \<in> rows. as_type r = BUY} \<and> inj_on as_entryId {r \<in> rows. as_type r = SELL}
     \<and> (\<forall>r \<in> rows. proper_links r)"

lemma purchase_id: "proper_links r \<Longrightarrow> as_type r = BUY \<Longrightarrow> as_expenseId r = Some (lv_id (purchase_of r))"
  by (auto simp: proper_links_def purchase_of_def elim: truthyE)

lemma sale_id: "proper_links r \<Longrightarrow> as_type r = SELL \<Longrightarrow> as_entryId r = Some (lv_id (sale_of r))"
  by (auto simp: proper_links_def sale_of_def elim: truthyE)

lemma linked_remove:
  assumes "linked R E S" "t \<in> R"
  shows "linked (R - {t}) (E - {v. lv_id v \<in> set_option (bought_id t)}) (S - {v. lv_id v \<in> set_option (sold_id t)})"
proof -
  have l: "E = purchase_of ` {r \<in> R. as_type r = BUY}" "S = sale_of ` {r \<in> R. as_type r = SELL}"
    "inj_on as_expenseId {r \<in> R. as_type r = BUY}" "inj_on as_entryId {r \<in> R. as_type r = SELL}" "\<forall>r \<in> R. proper_links r"
    using assms(1) by (simp_all add: linked_def)
  have "lv_id (purchase_of r) \<notin> set_option (bought_id t)" if r: "r \<in> R - {t}" "as_type r = BUY" for r
  proof
    assume "lv_id (purchase_of r) \<in> set_option (bought_id t)"
    then have "as_type t = BUY" "as_expenseId t = as_expenseId r"
      using purchase_id [OF _ r(2)] l(5) r(1) by (auto simp: bought_id_def split: if_splits)
    with l(3) r assms(2) show False by (auto dest: inj_onD)
  qed
  moreover have "lv_id (purchase_of t) \<in> set_option (bought_id t)" if "as_type t = BUY"
    using purchase_id [OF _ that] l(5) assms(2) that by (simp add: bought_id_def)
  ultimately have E: "E - {v. lv_id v \<in> set_option (bought_id t)} = purchase_of ` {r \<in> R - {t}. as_type r = BUY}"
    unfolding l(1) by blast
  have "lv_id (sale_of r) \<notin> set_option (sold_id t)" if r: "r \<in> R - {t}" "as_type r = SELL" for r
  proof
    assume "lv_id (sale_of r) \<in> set_option (sold_id t)"
    then have "as_type t = SELL" "as_entryId t = as_entryId r"
      using sale_id [OF _ r(2)] l(5) r(1) by (auto simp: sold_id_def split: if_splits)
    with l(4) r assms(2) show False by (auto dest: inj_onD)
  qed
  moreover have "lv_id (sale_of t) \<in> set_option (sold_id t)" if "as_type t = SELL"
    using sale_id [OF _ that] l(5) assms(2) that by (simp add: sold_id_def)
  ultimately have "S - {v. lv_id v \<in> set_option (sold_id t)} = sale_of ` {r \<in> R - {t}. as_type r = SELL}"
    unfolding l(2) by blast
  with E l(3-5) show ?thesis unfolding linked_def by (auto intro: inj_on_subset)
qed

lemma linked_add:
  assumes "linked R E S" "proper_links r"
    and "as_type r = BUY \<Longrightarrow> as_expenseId r \<notin> as_expenseId ` {x \<in> R. as_type x = BUY}"
    and "as_type r = SELL \<Longrightarrow> as_entryId r \<notin> as_entryId ` {x \<in> R. as_type x = SELL}"
  shows "linked (insert r R) (E \<union> set_option (purchase_view r)) (S \<union> set_option (sale_view r))"
proof -
  have sets: "{x \<in> insert r R. as_type x = k} = (if as_type r = k then insert r {x \<in> R. as_type x = k} else {x \<in> R. as_type x = k})" for k
    by auto
  show ?thesis
    using assms unfolding linked_def sets
    by (auto simp: purchase_view_def sale_view_def inj_on_insert)
qed

lemma linked_ids:
  assumes "linked R E S" "r \<in> R" "E = expense_views db" "S = entry_views db"
  shows "as_type r = BUY \<Longrightarrow> \<exists>i \<in> er_id ` set (db_expenses db). as_expenseId r = Some i"
    "as_type r = SELL \<Longrightarrow> \<exists>i \<in> en_id ` set (db_entries db). as_entryId r = Some i"
proof -
  have l: "proper_links r" "as_type r = BUY \<Longrightarrow> purchase_of r \<in> E" "as_type r = SELL \<Longrightarrow> sale_of r \<in> S"
    using assms(1,2) by (auto simp: linked_def)
  show "as_type r = BUY \<Longrightarrow> \<exists>i \<in> er_id ` set (db_expenses db). as_expenseId r = Some i"
  proof -
    assume b: "as_type r = BUY"
    with l(2) assms(3) obtain e where "e \<in> set (db_expenses db)" "purchase_of r = expense_view e" by (auto simp: expense_views_def)
    with purchase_id [OF l(1) b] show ?thesis by (auto simp: expense_view_def)
  qed
  show "as_type r = SELL \<Longrightarrow> \<exists>i \<in> en_id ` set (db_entries db). as_entryId r = Some i"
  proof -
    assume b: "as_type r = SELL"
    with l(3) assms(4) obtain e where "e \<in> set (db_entries db)" "sale_of r = entry_view e" by (auto simp: entry_views_def)
    with sale_id [OF l(1) b] show ?thesis by (auto simp: entry_view_def)
  qed
qed

section \<open>The invariant\<close>

definition sound_assets :: "decimal_lib \<Rightarrow> asset_db \<Rightarrow> bool" where
  "sound_assets D db \<longleftrightarrow> distinct (map as_id (w_assets db)) \<and> (\<forall>r \<in> set (w_assets db). stored_tx D r)
     \<and> linked (set (w_assets db)) (expense_views (w_finance db)) (entry_views (w_finance db))
     \<and> distinct (map er_id (db_expenses (w_finance db))) \<and> distinct (map en_id (db_entries (w_finance db)))
     \<and> (\<forall>u a. valid_timeline D u a (w_assets db))"

lemma sound_assetsD:
  assumes "sound_assets D db"
  shows "distinct (map as_id (w_assets db))" "\<And>r. r \<in> set (w_assets db) \<Longrightarrow> stored_tx D r"
    "linked (set (w_assets db)) (expense_views (w_finance db)) (entry_views (w_finance db))"
    "distinct (map er_id (db_expenses (w_finance db)))" "distinct (map en_id (db_entries (w_finance db)))"
    "\<And>u a. valid_timeline D u a (w_assets db)"
  using assms by (simp_all add: sound_assets_def)

lemma own_asset_txD:
  assumes "own_asset_tx u i rows = Some t"
  shows "t \<in> set rows" "as_id t = i" "as_userId t = u"
  using assms by (auto simp: own_asset_tx_def find_Some_iff)

section \<open>The operations keep it\<close>

lemma valid_ignores_fees: "isAssetTimelineValid D (map (act_feeAmountBrl_update f) ts) = isAssetTimelineValid D ts"
  by (simp add: isAssetTimelineValid_def sort_ignores_fees timeline_ignores_fees)

lemma others_rows: "as_userId r = as_userId t \<Longrightarrow> as_asset r = as_asset t \<Longrightarrow> (u, a) \<noteq> (as_userId t, as_asset t)
    \<Longrightarrow> asset_rows u a (xs @ r # ys) = asset_rows u a (xs @ ys)"
  by (auto simp: asset_rows_def)

text \<open>A row with a given id, and the rest of the table.\<close>

lemma table_split:
  assumes "distinct (map as_id rows)" "t \<in> set rows"
  obtains xs ys where "rows = xs @ t # ys" "\<forall>r \<in> set xs \<union> set ys. as_id r \<noteq> as_id t"
    "map (\<lambda>r. if as_id r = as_id t then x else r) rows = xs @ x # ys" "filter (\<lambda>r. as_id r \<noteq> as_id t) rows = xs @ ys"
proof -
  from assms(2) obtain xs ys where s: "rows = xs @ t # ys" by (meson split_list)
  have "as_id t \<notin> as_id ` set xs" "as_id t \<notin> as_id ` set ys" using assms(1) by (auto simp: s)
  then have n: "\<forall>r \<in> set xs \<union> set ys. as_id r \<noteq> as_id t" by (metis UnE imageI)
  then have "map (\<lambda>r. if as_id r = as_id t then x else r) xs = xs" "map (\<lambda>r. if as_id r = as_id t then x else r) ys = ys"
    "filter (\<lambda>r. as_id r \<noteq> as_id t) xs = xs" "filter (\<lambda>r. as_id r \<noteq> as_id t) ys = ys"
    by (auto intro: map_idI)
  with s n show thesis by (intro that [of xs ys]) simp_all
qed

text \<open>The check of an edit sees the timeline as it will be.\<close>

lemma edited_timeline:
  assumes "distinct (map as_id rows)" "t \<in> set rows"
    and keep: "as_id r = as_id t" "as_userId r = as_userId t" "as_asset r = as_asset t"
    and c: "act_feeAmountBrl_update (\<lambda>_. None) (accounting_of r) = c"
  shows "isAssetTimelineValid D (map accounting_of (filter (\<lambda>x. as_id x \<noteq> as_id t) (asset_rows (as_userId t) (as_asset t) rows)) @ [c])
    = valid_timeline D (as_userId t) (as_asset t) (map (\<lambda>x. if as_id x = as_id t then r else x) rows)"
proof -
  obtain xs ys where rows: "rows = xs @ t # ys" "\<forall>x \<in> set xs \<union> set ys. as_id x \<noteq> as_id t"
    "map (\<lambda>x. if as_id x = as_id t then r else x) rows = xs @ r # ys" "filter (\<lambda>x. as_id x \<noteq> as_id t) rows = xs @ ys"
    by (rule table_split [OF assms(1,2)])
  let ?rem = "asset_rows (as_userId t) (as_asset t) (xs @ ys)"
  let ?drop = "act_feeAmountBrl_update (\<lambda>_. None)"
  have rem: "filter (\<lambda>x. as_id x \<noteq> as_id t) (asset_rows (as_userId t) (as_asset t) rows) = ?rem"
    by (simp add: asset_rows_def filter_filter conj_commute flip: rows(4))
  have same: "map ?drop (map accounting_of ?rem @ [c]) = map ?drop (map accounting_of (?rem @ [r]))"
    using c by (auto simp: comp_def)
  have perm: "mset (map accounting_of (?rem @ [r])) = mset (map accounting_of (asset_rows (as_userId t) (as_asset t) (xs @ r # ys)))"
    using keep by (simp add: asset_rows_def)
  have ids: "distinct (map act_id (map accounting_of (?rem @ [r])))"
  proof -
    have "distinct (map as_id ((xs @ ys) @ [r]))" using assms(1) keep(1) unfolding rows(1) by auto
    then have "distinct (map as_id (asset_rows (as_userId t) (as_asset t) ((xs @ ys) @ [r])))"
      unfolding asset_rows_def by (rule distinct_filter_map)
    moreover have "asset_rows (as_userId t) (as_asset t) ((xs @ ys) @ [r]) = ?rem @ [r]" using keep by (simp add: asset_rows_def)
    ultimately show ?thesis by (simp only: accounting_ids)
  qed
  have "isAssetTimelineValid D (map accounting_of ?rem @ [c]) = isAssetTimelineValid D (map accounting_of (?rem @ [r]))"
    using valid_ignores_fees same by metis
  also have "\<dots> = isAssetTimelineValid D (map accounting_of (asset_rows (as_userId t) (as_asset t) (xs @ r # ys)))"
    by (rule timeline_perm [OF perm ids]) auto
  finally show ?thesis by (simp add: rem valid_timeline_def rows(3) del: asset_rows_simps)
qed

lemma asset_create_effect:
  assumes "createAssetTransaction D sp dateParse newId now u a input db = Inr (db', r)"
  obtains v fin ei ni where "parseAssetTransactionValues D sp dateParse now a input = Inr v"
    "link_transaction D newId now u a input v (w_finance db) = (fin, ei, ni)"
    "r = created_asset_tx (newId (length (w_assets db))) now u a input v ei ni"
    "isAssetTimelineValid D (map accounting_of (asset_rows u a (w_assets db @ [r])))"
    "db' = db\<lparr>w_finance := fin, w_assets := w_assets db @ [r]\<rparr>"
proof -
  from assms obtain v where v: "parseAssetTransactionValues D sp dateParse now a input = Inr v"
    by (auto simp: createAssetTransaction_def res_bind_eq_Inr)
  obtain fin ei ni where l: "link_transaction D newId now u a input v (w_finance db) = (fin, ei, ni)"
    by (metis prod_cases3)
  from assms show thesis
    by (intro that [OF v l]) (auto simp: createAssetTransaction_def v l Let_def assertTransactionTimelineValid_def simp del: asset_rows_simps)
qed

lemma asset_update_effect:
  assumes "updateAssetTransactionUnderUserLock D sp dateParse newId now u i resolve db = Inr (db', r)"
  obtains t v fin ei ni where "own_asset_tx u i (w_assets db) = Some t"
    "parseAssetTransactionValues D sp dateParse now (as_asset t) (resolve t) = Inr v"
    "isAssetTimelineValid D (map accounting_of (filter (\<lambda>x. as_id x \<noteq> as_id t) (asset_rows u (as_asset t) (w_assets db)))
       @ [changed_transaction t (resolve t) v])"
    "relink D newId now u t (resolve t) v (w_finance db) = Inr (fin, ei, ni)"
    "r = edited_asset_tx now (resolve t) v ei ni t"
    "db' = db\<lparr>w_finance := fin, w_assets := map (\<lambda>x. if as_id x = as_id t then r else x) (w_assets db)\<rparr>"
proof -
  from assms obtain t where t: "own_asset_tx u i (w_assets db) = Some t"
    by (auto simp: updateAssetTransactionUnderUserLock_def split: option.splits)
  from assms obtain v where v: "parseAssetTransactionValues D sp dateParse now (as_asset t) (resolve t) = Inr v"
    by (auto simp: updateAssetTransactionUnderUserLock_def t res_bind_eq_Inr Let_def)
  note defs = updateAssetTransactionUnderUserLock_def t v Let_def assertTransactionTimelineValid_def
  from assms obtain fin ei ni where l: "relink D newId now u t (resolve t) v (w_finance db) = Inr (fin, ei, ni)"
    by (cases "relink D newId now u t (resolve t) v (w_finance db)") (auto simp: defs)
  from assms show thesis by (intro that [OF t v _ l]) (auto simp: defs l)
qed

lemma create_keeps:
  assumes "decimal_arith D" "sound_assets D db"
    and fresh: "newId (length (w_assets db)) \<notin> as_id ` set (w_assets db)"
      "newId (length (db_expenses (w_finance db))) \<notin> er_id ` set (db_expenses (w_finance db))"
      "newId (length (db_entries (w_finance db))) \<notin> en_id ` set (db_entries (w_finance db))" "\<And>i. newId i \<noteq> []"
    and run: "createAssetTransaction D sp dateParse newId now u a input db = Inr (db', r)"
  shows "sound_assets D db' \<and> keeps_other_rows (w_finance db) (w_finance db') \<and> w_assets db' = w_assets db @ [r]"
proof -
  note s = sound_assetsD [OF assms(2)]
  let ?fin = "w_finance db"
  obtain v fin ei ni where v: "parseAssetTransactionValues D sp dateParse now a input = Inr v"
    and fin: "link_transaction D newId now u a input v ?fin = (fin, ei, ni)"
    and r: "r = created_asset_tx (newId (length (w_assets db))) now u a input v ei ni"
    and ok: "isAssetTimelineValid D (map accounting_of (asset_rows u a (w_assets db @ [r])))"
    and db': "db' = db\<lparr>w_finance := fin, w_assets := w_assets db @ [r]\<rparr>"
    by (rule asset_create_effect [OF run])
  note pv = parsed_values [OF assms(1) v]
  let ?t = "r\<lparr>as_type := MANUAL_ADJUSTMENT, as_expenseId := None, as_entryId := None\<rparr>"
  have edit: "r = edited_asset_tx now input v ei ni ?t" by (simp add: r created_asset_tx_def edited_asset_tx_def)
  have relink: "relink D newId now (as_userId ?t) ?t input v ?fin = Inr (fin, ei, ni)"
    using fin by (simp add: relink_def link_transaction_def r created_asset_tx_def Let_def split: transaction_type.splits prod.splits)
  have change: "proper_links r \<and> ledgers_change None (purchase_view r) None (sale_view r) ?fin fin
    \<and> (as_type r = BUY \<longrightarrow> ei = Some (newId (length (db_expenses ?fin)))) \<and> (as_type r = SELL \<longrightarrow> ni = Some (newId (length (db_entries ?fin))))"
    using relink_effect [OF s(4,5) _ _ _ fresh(2,3,4) pv(2) relink] unfolding edit [symmetric]
    by (simp add: proper_links_def bought_id_def sold_id_def)
  have new: "as_type r = BUY \<Longrightarrow> as_expenseId r \<notin> as_expenseId ` {x \<in> set (w_assets db). as_type x = BUY}"
    "as_type r = SELL \<Longrightarrow> as_entryId r \<notin> as_entryId ` {x \<in> set (w_assets db). as_type x = SELL}"
    using change fresh(2,3) linked_ids [OF s(3) _ refl refl] by (force simp: r created_asset_tx_def)+
  have links: "linked (set (w_assets db')) (expense_views fin) (entry_views fin)"
    using linked_add [OF s(3) _ new] change by (simp add: db' ledgers_change_def)
  have "stored_tx D r" using pv(1) [of ei ni ?t] edit by (simp add: r created_asset_tx_def edited_asset_tx_def)
  moreover have "valid_timeline D u' a' (w_assets db')" for u' a'
  proof (cases "(u', a') = (u, a)")
    case True
    then show ?thesis using ok by (simp add: valid_timeline_def db')
  next
    case False
    then have "asset_rows u' a' (w_assets db') = asset_rows u' a' (w_assets db)"
      by (auto simp: db' asset_rows_def r created_asset_tx_def)
    with s(6) show ?thesis by (simp add: valid_timeline_def)
  qed
  moreover have "as_id r = newId (length (w_assets db))" by (simp add: r created_asset_tx_def)
  ultimately show ?thesis
    using s links change fresh(1) by (auto simp: sound_assets_def db' ledgers_change_def)
qed

lemma update_keeps:
  assumes "decimal_arith D" "sound_assets D db"
    and fresh: "newId (length (db_expenses (w_finance db))) \<notin> er_id ` set (db_expenses (w_finance db))"
      "newId (length (db_entries (w_finance db))) \<notin> en_id ` set (db_entries (w_finance db))" "\<And>i. newId i \<noteq> []"
    and run: "updateAssetTransactionUnderUserLock D sp dateParse newId now u i resolve db = Inr (db', r)"
  shows "sound_assets D db' \<and> keeps_other_rows (w_finance db) (w_finance db')"
proof -
  note s = sound_assetsD [OF assms(2)]
  obtain t v fin ei ni where t: "own_asset_tx u i (w_assets db) = Some t"
    and v: "parseAssetTransactionValues D sp dateParse now (as_asset t) (resolve t) = Inr v"
    and ok: "isAssetTimelineValid D (map accounting_of (filter (\<lambda>x. as_id x \<noteq> as_id t) (asset_rows u (as_asset t) (w_assets db)))
       @ [changed_transaction t (resolve t) v])"
    and rl: "relink D newId now u t (resolve t) v (w_finance db) = Inr (fin, ei, ni)"
    and r: "r = edited_asset_tx now (resolve t) v ei ni t"
    and db': "db' = db\<lparr>w_finance := fin, w_assets := map (\<lambda>x. if as_id x = as_id t then r else x) (w_assets db)\<rparr>"
    by (rule asset_update_effect [OF run])
  note own = own_asset_txD [OF t]
  note pv = parsed_values [OF assms(1) v]
  have keep: "as_id r = as_id t" "as_userId r = as_userId t" "as_asset r = as_asset t" by (simp_all add: r edited_asset_tx_def)
  have "stored_tx D r" using pv(1) [of ei ni t] by (simp add: r)
  have tl: "proper_links t" "as_type t = BUY \<Longrightarrow> purchase_of t \<in> expense_views (w_finance db)" "as_type t = SELL \<Longrightarrow> sale_of t \<in> entry_views (w_finance db)"
    using s(3) own(1) by (auto simp: linked_def)
  have change: "proper_links r" "ledgers_change (bought_id t) (purchase_view r) (sold_id t) (sale_view r) (w_finance db) fin"
    "as_type r = BUY \<longrightarrow> ei = (if as_type t = BUY then as_expenseId t else Some (newId (length (db_expenses (w_finance db)))))"
    "as_type r = SELL \<longrightarrow> ni = (if as_type t = SELL then as_entryId t else Some (newId (length (db_entries (w_finance db)))))"
    using relink_effect [OF s(4,5) tl fresh pv(2) rl [folded own(3)]] by (simp_all add: r)
  obtain xs ys where rows: "w_assets db = xs @ t # ys" "\<forall>x \<in> set xs \<union> set ys. as_id x \<noteq> as_id t"
    "map (\<lambda>x. if as_id x = as_id t then r else x) (w_assets db) = xs @ r # ys" "filter (\<lambda>x. as_id x \<noteq> as_id t) (w_assets db) = xs @ ys"
    by (rule table_split [OF s(1) own(1)])
  have rest: "set (w_assets db) - {t} = set (xs @ ys)" using s(1) by (auto simp: rows(1))
  note removed = linked_remove [OF s(3) own(1), unfolded rest]
  have new: "as_type r = BUY \<Longrightarrow> as_expenseId r \<notin> as_expenseId ` {x \<in> set (xs @ ys). as_type x = BUY}"
    "as_type r = SELL \<Longrightarrow> as_entryId r \<notin> as_entryId ` {x \<in> set (xs @ ys). as_type x = SELL}"
  proof -
    have old: "x \<in> set (w_assets db) \<and> x \<noteq> t" if "x \<in> set (xs @ ys)" for x using that rest by blast
    have ids: "as_expenseId r = ei" "as_entryId r = ni" by (simp_all add: r edited_asset_tx_def)
    note l = linked_ids [OF s(3) _ refl refl]
    show "as_type r = BUY \<Longrightarrow> as_expenseId r \<notin> as_expenseId ` {x \<in> set (xs @ ys). as_type x = BUY}"
    proof
      assume b: "as_type r = BUY" "as_expenseId r \<in> as_expenseId ` {x \<in> set (xs @ ys). as_type x = BUY}"
      then obtain x where x: "x \<in> set (xs @ ys)" "as_type x = BUY" "as_expenseId x = ei" by (auto simp: ids)
      show False
      proof (cases "as_type t = BUY")
        case True
        with x b(1) change(3) s(3) old [OF x(1)] own(1) show False by (auto simp: linked_def dest: inj_onD)
      next
        case False
        with l(1) [of x] x b(1) change(3) old [OF x(1)] fresh(1) show False by auto
      qed
    qed
    show "as_type r = SELL \<Longrightarrow> as_entryId r \<notin> as_entryId ` {x \<in> set (xs @ ys). as_type x = SELL}"
    proof
      assume b: "as_type r = SELL" "as_entryId r \<in> as_entryId ` {x \<in> set (xs @ ys). as_type x = SELL}"
      then obtain x where x: "x \<in> set (xs @ ys)" "as_type x = SELL" "as_entryId x = ni" by (auto simp: ids)
      show False
      proof (cases "as_type t = SELL")
        case True
        with x b(1) change(4) s(3) old [OF x(1)] own(1) show False by (auto simp: linked_def dest: inj_onD)
      next
        case False
        with l(2) [of x] x b(1) change(4) old [OF x(1)] fresh(2) show False by auto
      qed
    qed
  qed
  have links: "linked (set (w_assets db')) (expense_views fin) (entry_views fin)"
    using linked_add [OF removed change(1) new] change(2) by (simp add: db' rows(3) ledgers_change_def insert_commute)
  have timeline: "valid_timeline D u' a' (w_assets db')" for u' a'
  proof (cases "(u', a') = (as_userId t, as_asset t)")
    case True
    have "act_feeAmountBrl_update (\<lambda>_. None) (accounting_of r) = changed_transaction t (resolve t) v"
      by (simp add: r edited_asset_tx_def accounting_of_def changed_transaction_def)
    from edited_timeline [OF s(1) own(1) keep this] ok own(3) True show ?thesis by (simp add: db')
  next
    case False
    then have "asset_rows u' a' (w_assets db') = asset_rows u' a' (w_assets db)"
      using others_rows [OF keep(2,3) False, of xs ys] others_rows [OF refl refl False, of xs ys] by (simp add: db' rows(3) flip: rows(1))
    with s(6) show ?thesis by (simp add: valid_timeline_def)
  qed
  have a: "w_assets db' = xs @ r # ys" using rows(3) by (simp add: db')
  have "distinct (map as_id (w_assets db'))" using s(1) keep(1) unfolding a rows(1) by simp
  moreover have "\<forall>x \<in> set (w_assets db'). stored_tx D x" using s(2) \<open>stored_tx D r\<close> unfolding a rows(1) by auto
  moreover have "w_finance db' = fin" by (simp add: db')
  ultimately show ?thesis
    using links timeline change(2) unfolding sound_assets_def ledgers_change_def by metis
qed

lemma delete_keeps:
  assumes "sound_assets D db" and run: "deleteAssetTransaction D u i db = Inr db'"
  shows "sound_assets D db' \<and> keeps_other_rows (w_finance db) (w_finance db')"
proof -
  note s = sound_assetsD [OF assms(1)]
  let ?fin = "w_finance db"
  obtain t where t: "own_asset_tx u i (w_assets db) = Some t"
    and ok: "isAssetTimelineValid D (map accounting_of (filter (\<lambda>r. as_id r \<noteq> as_id t) (asset_rows u (as_asset t) (w_assets db))))"
    and db': "db' = db\<lparr>w_finance := (let fin1 = (if truthy (as_expenseId t) then delete_expense u (the (as_expenseId t)) ?fin else ?fin) in
        if truthy (as_entryId t) then delete_entry u (the (as_entryId t)) fin1 else fin1),
      w_assets := filter (\<lambda>r. as_id r \<noteq> as_id t) (w_assets db)\<rparr>"
    using run by (auto simp: deleteAssetTransaction_def Let_def assertTransactionTimelineValid_def split: option.splits)
  note own = own_asset_txD [OF t]
  obtain xs ys where rows: "w_assets db = xs @ t # ys" "\<forall>x \<in> set xs \<union> set ys. as_id x \<noteq> as_id t"
    "map (\<lambda>x. if as_id x = as_id t then t else x) (w_assets db) = xs @ t # ys" "filter (\<lambda>x. as_id x \<noteq> as_id t) (w_assets db) = xs @ ys"
    by (rule table_split [OF s(1) own(1)])
  have rest: "set (w_assets db) - {t} = set (xs @ ys)" using s(1) by (auto simp: rows(1))
  have tl: "proper_links t" "as_type t = BUY \<Longrightarrow> purchase_of t \<in> expense_views ?fin" "as_type t = SELL \<Longrightarrow> sale_of t \<in> entry_views ?fin"
    using s(3) own(1) by (auto simp: linked_def)
  note same = no_expenses_change [OF s(4)] no_entries_change [OF s(5)]
  have change: "ledgers_change (bought_id t) None (sold_id t) None ?fin (w_finance db')"
  proof (cases "as_type t")
    case BUY
    with tl(1) obtain j where j: "as_expenseId t = Some j" "j \<noteq> []" "as_entryId t = None"
      by (auto simp: proper_links_def elim: truthyE)
    from ledgers_changeI2 [OF same(2) delete_expense_change [OF s(4) tl(2) [OF BUY] j(1)]] BUY j own(3) show ?thesis
      by (simp add: db' bought_id_def sold_id_def)
  next
    case SELL
    with tl(1) obtain j where j: "as_entryId t = Some j" "j \<noteq> []" "as_expenseId t = None"
      by (auto simp: proper_links_def elim: truthyE)
    from ledgers_changeI [OF same(1) delete_entry_change [OF s(5) tl(3) [OF SELL] j(1)]] SELL j own(3) show ?thesis
      by (simp add: db' bought_id_def sold_id_def)
  next
    case MANUAL_ADJUSTMENT
    with tl(1) ledgers_changeI [OF same] show ?thesis by (simp add: db' bought_id_def sold_id_def proper_links_def)
  qed
  have assets: "w_assets db' = xs @ ys" by (simp add: db' rows(4))
  have links: "linked (set (w_assets db')) (expense_views (w_finance db')) (entry_views (w_finance db'))"
    using linked_remove [OF s(3) own(1), unfolded rest] change by (simp add: assets ledgers_change_def)
  have "valid_timeline D u' a' (w_assets db')" for u' a'
  proof (cases "(u', a') = (as_userId t, as_asset t)")
    case True
    have "filter (\<lambda>x. as_id x \<noteq> as_id t) (asset_rows (as_userId t) (as_asset t) (w_assets db)) = asset_rows (as_userId t) (as_asset t) (xs @ ys)"
      by (simp add: asset_rows_def filter_filter conj_commute flip: rows(4))
    with ok own(3) True show ?thesis by (simp add: valid_timeline_def assets)
  next
    case False
    then have "asset_rows u' a' (w_assets db') = asset_rows u' a' (w_assets db)"
      using others_rows [OF refl refl False, of xs ys] by (simp add: assets rows(1) del: asset_rows_simps)
    with s(6) show ?thesis by (simp add: valid_timeline_def)
  qed
  moreover have "distinct (map as_id (w_assets db'))" using s(1) by (auto simp: assets rows(1))
  moreover have "\<forall>x \<in> set (w_assets db'). stored_tx D x" using s(2) by (auto simp: assets rows(1))
  ultimately show ?thesis using links change by (auto simp: sound_assets_def ledgers_change_def)
qed

section \<open>Steps\<close>

text \<open>Generated ids are new in their tables.\<close>

definition fresh_ids :: "(nat \<Rightarrow> string) \<Rightarrow> asset_db \<Rightarrow> bool" where
  "fresh_ids newId db \<longleftrightarrow> newId (length (w_assets db)) \<notin> as_id ` set (w_assets db)
     \<and> newId (length (db_expenses (w_finance db))) \<notin> er_id ` set (db_expenses (w_finance db))
     \<and> newId (length (db_entries (w_finance db))) \<notin> en_id ` set (db_entries (w_finance db)) \<and> (\<forall>i. newId i \<noteq> [])"

inductive asset_step ::
    "decimal_lib \<Rightarrow> tz_offset \<Rightarrow> (string \<Rightarrow> instant option) \<Rightarrow> asset_db \<Rightarrow> asset_db \<Rightarrow> bool" for D sp dateParse where
  create_tx: "parseCreateAssetTransaction body = Inr input \<Longrightarrow> fresh_ids newId db
    \<Longrightarrow> createAssetTransaction D sp dateParse newId now userId a input db = Inr (db', r) \<Longrightarrow> asset_step D sp dateParse db db'"
| patch_tx: "parseAssetTransactionPatch body = Inr patch \<Longrightarrow> fresh_ids newId db
    \<Longrightarrow> patchTransaction D sp dateParse newId now userId i patch db = Inr (db', r) \<Longrightarrow> asset_step D sp dateParse db db'"
| remove_tx: "removeTransaction D userId i db = Inr db' \<Longrightarrow> asset_step D sp dateParse db db'"

text \<open>What the other services owe.\<close>

definition keeps_asset_rows :: "finance_db \<Rightarrow> finance_db \<Rightarrow> bool" where
  "keeps_asset_rows db db' \<longleftrightarrow> filter asset_expense (db_expenses db') = filter asset_expense (db_expenses db)
     \<and> filter asset_entry (db_entries db') = filter asset_entry (db_entries db)
     \<and> distinct (map er_id (db_expenses db')) \<and> distinct (map en_id (db_entries db'))"

inductive asset_reachable ::
    "decimal_lib \<Rightarrow> tz_offset \<Rightarrow> (string \<Rightarrow> instant option) \<Rightarrow> asset_db \<Rightarrow> bool" for D sp dateParse where
  start: "w_assets db = [] \<Longrightarrow> db_expenses (w_finance db) = [] \<Longrightarrow> db_entries (w_finance db) = [] \<Longrightarrow> asset_reachable D sp dateParse db"
| step: "asset_reachable D sp dateParse db \<Longrightarrow> asset_step D sp dateParse db db' \<Longrightarrow> asset_reachable D sp dateParse db'"
| others: "asset_reachable D sp dateParse db \<Longrightarrow> keeps_asset_rows (w_finance db) fin
    \<Longrightarrow> asset_reachable D sp dateParse (db\<lparr>w_finance := fin\<rparr>)"

lemma step_keeps_assets:
  assumes "decimal_arith D" "asset_step D sp dateParse db db'" "sound_assets D db"
  shows "sound_assets D db' \<and> keeps_other_rows (w_finance db) (w_finance db')"
  using assms(2)
proof cases
  case (create_tx body input newId now userId a r)
  have f: "newId (length (w_assets db)) \<notin> as_id ` set (w_assets db)"
    "newId (length (db_expenses (w_finance db))) \<notin> er_id ` set (db_expenses (w_finance db))"
    "newId (length (db_entries (w_finance db))) \<notin> en_id ` set (db_entries (w_finance db))" "newId n \<noteq> []" for n
    using create_tx(2) by (simp_all add: fresh_ids_def)
  show ?thesis using create_keeps [OF assms(1,3) f create_tx(3)] by blast
next
  case (patch_tx body patch newId now userId i r)
  from patch_tx(3) have "updateAssetTransactionUnderUserLock D sp dateParse newId now userId i (mergeAssetTransactionPatch patch) db = Inr (db', r)"
    by (auto simp: patchTransaction_def res_bind_eq_Inr)
  moreover have "newId (length (db_expenses (w_finance db))) \<notin> er_id ` set (db_expenses (w_finance db))"
    "newId (length (db_entries (w_finance db))) \<notin> en_id ` set (db_entries (w_finance db))" "newId n \<noteq> []" for n
    using patch_tx(2) by (simp_all add: fresh_ids_def)
  ultimately show ?thesis by (intro update_keeps [OF assms(1,3)])
next
  case (remove_tx userId i)
  then show ?thesis using delete_keeps [OF assms(3)] by (auto simp: removeTransaction_def res_bind_eq_Inr)
qed

lemma views_of_filter:
  "expense_views db = expense_view ` set (filter asset_expense (db_expenses db))"
  "entry_views db = entry_view ` set (filter asset_entry (db_entries db))"
  by (simp_all add: expense_views_def entry_views_def)

lemma reachable_assets:
  assumes "decimal_arith D" "asset_reachable D sp dateParse db"
  shows "sound_assets D db"
  using assms(2)
proof (induction rule: asset_reachable.induct)
  case (start db)
  then show ?case
    by (simp add: sound_assets_def linked_def expense_views_def entry_views_def valid_timeline_def isAssetTimelineValid_def js_sort_def)
next
  case (step db db')
  then show ?case using step_keeps_assets [OF assms(1)] by blast
next
  case (others db fin)
  then show ?case by (simp add: sound_assets_def keeps_asset_rows_def views_of_filter)
qed

section \<open>Properties\<close>

text \<open>The transactions of an asset of a user, as the accounting reads them.\<close>

definition holdings :: "string \<Rightarrow> asset \<Rightarrow> asset_db \<Rightarrow> accounting_transaction list" where
  "holdings u a db = map accounting_of (asset_rows u a (w_assets db))"

lemma holdings_exact:
  assumes "decimal_arith D" "asset_reachable D sp dateParse db" "moved_units (holdings u a db) < 10 ^ 8"
  shows "exact_units (holdings u a db)" "isAssetTimelineValid D (holdings u a db)"
proof -
  note s = sound_assetsD [OF reachable_assets [OF assms(1,2)]]
  have "stored_units (accounting_of r)" if "r \<in> set (w_assets db)" for r
    using s(2) [OF that] by (simp add: stored_tx_def)
  with assms(3) show "exact_units (holdings u a db)" by (simp add: exact_units_def holdings_def)
  show "isAssetTimelineValid D (holdings u a db)" using s(6) by (simp add: valid_timeline_def holdings_def)
qed

text \<open>C11. Whatever requests created, edited and deleted transactions, in whatever order and with whatever
  dates in the past, no user ever holds a negative quantity of an asset at any date: the purchases and
  adjustments up to a date cover the sales up to it.\<close>

theorem positions_are_never_negative:
  assumes "decimal_arith D" "asset_reachable D sp dateParse db" "moved_units (holdings u a db) < 10 ^ 8"
  shows "0 \<le> position (filter (\<lambda>t. act_date t \<le> d) (holdings u a db))"
  using decimal_arith.valid_position [OF assms(1) holdings_exact [OF assms]] .

text \<open>C12. The accounting of a position agrees with the ledger of its transactions: in every reachable
  state the quantity it reports is the sum of what was bought, sold and adjusted, exactly; neither
  bucket is negative; units of unknown cost are reported as an incomplete result, and no cost is left
  on an empty bucket.\<close>

theorem accounting_is_the_position:
  assumes "decimal_arith D" "asset_reachable D sp dateParse db" "moved_units (holdings u a db) < 10 ^ 8"
  shows "acc_quantity (calculateAssetAccounting D a (holdings u a db)) = position (holdings u a db)
    \<and> 0 \<le> acc_knownQuantity (calculateAssetAccounting D a (holdings u a db))
    \<and> 0 \<le> acc_unknownQuantity (calculateAssetAccounting D a (holdings u a db))
    \<and> (acc_pnlComplete (calculateAssetAccounting D a (holdings u a db))
       \<longrightarrow> acc_knownQuantity (calculateAssetAccounting D a (holdings u a db)) = position (holdings u a db))
    \<and> (acc_knownQuantity (calculateAssetAccounting D a (holdings u a db)) = 0
       \<longrightarrow> acc_investedBrl (calculateAssetAccounting D a (holdings u a db)) = 0)"
proof -
  have "\<forall>t \<in> set (holdings u a db). act_asset t = a" by (auto simp: holdings_def accounting_of_def)
  then have b: "books_hold (position (holdings u a db)) (books_of D a (holdings u a db))"
    by (rule decimal_arith.books_of_position [OF assms(1) holdings_exact [OF assms]])
  have "\<bar>position (holdings u a db)\<bar> \<le> moved_units (holdings u a db)" by (rule position_moved)
  with assms(3) b have "dec_plus D (bk_knownQty (books_of D a (holdings u a db))) (bk_unknownQty (books_of D a (holdings u a db)))
      = position (holdings u a db)"
    by (subst decimal_arith.units_plus [OF assms(1)]) (auto simp: books_hold_def)
  with b show ?thesis by (auto simp: calculateAssetAccounting_def Let_def books_hold_def)
qed

text \<open>C10. The ledgers mirror the assets, to the cent: in every reachable state each purchase has exactly one
  expense, and each sale exactly one income entry, of its user, amount and day, paid in cash and neither
  archived nor voided; no adjustment has one; and there is no other row of origin \<open>asset\<close>.\<close>

theorem ledgers_mirror_assets:
  assumes "decimal_arith D" "asset_reachable D sp dateParse db"
  shows "expense_views (w_finance db) = purchase_of ` {r \<in> set (w_assets db). as_type r = BUY}
    \<and> entry_views (w_finance db) = sale_of ` {r \<in> set (w_assets db). as_type r = SELL}
    \<and> inj_on as_expenseId {r \<in> set (w_assets db). as_type r = BUY}
    \<and> inj_on as_entryId {r \<in> set (w_assets db). as_type r = SELL}
    \<and> (\<forall>r \<in> set (w_assets db). as_type r = MANUAL_ADJUSTMENT \<longrightarrow> as_expenseId r = None \<and> as_entryId r = None)"
  using sound_assetsD(3) [OF reachable_assets [OF assms]] by (auto simp: linked_def proper_links_def)

end
