(* ===== verification/Asset_Patches.thy ===== *)
theory Asset_Patches
  imports Asset_System
begin

text \<open>
  Editing an asset transaction: what a patch leaves out comes from the stored row as text, and the texts
  are read back as the stored numbers and day, so a patch without fields changes nothing. The
  exception are numbers that \<open>toString\<close> prints with an exponent.
\<close>

section \<open>Dates\<close>

lemma key_shape:
  assumes "ok_day n"
  shows "length (key n) = 10" "list_all (\<lambda>i. is_digit (key n ! i)) [0, 1, 2, 3, 5, 6, 8, 9]" "key n ! 4 = CHR ''-''" "key n ! 7 = CHR ''-''"
proof -
  let ?s = "key n"
  have "match_day_key ?s \<noteq> None" using parseDayKey_key [OF assms] by (auto simp: parseDayKey_def split: option.splits)
  then have m: "length ?s = 10" "list_all is_digit (take 4 ?s)" "?s ! 4 = CHR ''-''" "list_all is_digit (take 2 (drop 5 ?s))"
    "?s ! 7 = CHR ''-''" "list_all is_digit (drop 8 ?s)"
    by (simp_all add: match_day_key_def split: if_splits)
  then show "length ?s = 10" "?s ! 4 = CHR ''-''" "?s ! 7 = CHR ''-''" by simp_all
  have d: "is_digit (?s ! i)" if "i < 4" for i
    using m(1,2) that by (auto simp: list_all_length dest: spec [of _ i])
  have e: "is_digit (?s ! (5 + i))" if "i < 2" for i
    using m(1,4) that by (auto simp: list_all_length dest: spec [of _ i])
  have f: "is_digit (?s ! (8 + i))" if "i < 2" for i
    using m(1,6) that by (auto simp: list_all_length dest: spec [of _ i])
  show "list_all (\<lambda>i. is_digit (?s ! i)) [0, 1, 2, 3, 5, 6, 8, 9]"
    using d [of 0] d [of 1] d [of 2] d [of 3] e [of 0] e [of 1] f [of 0] f [of 1] by simp
qed

lemma iso_of_noon:
  assumes "ok_day n"
  shows "toISOString (noon n) = key n @ ''T12:00:00.000Z''"
proof -
  have "0 \<le> getUTCFullYear (noon n)" "getUTCFullYear (noon n) \<le> 9999"
    using assms by (auto simp: getUTCFullYear_def ok_day_iff_year)
  moreover have "noon n mod ms_per_day = 43200000" by simp
  moreover have "pad 12 2 = ''12''" "pad 0 2 = ''00''" "pad 0 3 = ''000''" by code_simp+
  ultimately show ?thesis
    by (simp add: toISOString_def iso_text_def Let_def dayKeyOfDate_day)
qed

text \<open>\<open>Date.parse\<close> reads what \<open>toISOString\<close> prints.\<close>

definition reads_iso_days :: "(string \<Rightarrow> instant option) \<Rightarrow> bool" where
  "reads_iso_days dateParse \<longleftrightarrow> (\<forall>n. ok_day n \<longrightarrow> dateParse (key n @ ''T12:00:00.000Z'') = Some (noon n))"

lemma stored_date_read:
  assumes "reads_iso_days dateParse" "ok_day n" "ok_day (local_day sp now)" "n \<le> local_day sp now"
  shows "parseAssetDate sp dateParse now (JString (toISOString (noon n))) = Inr (noon n)"
proof -
  let ?t = "key n @ ''T12:00:00.000Z''"
  note shape = key_shape [OF assms(2)]
  have digit: "is_digit (hd (key n))" using shape(1,2) by (cases "key n") auto
  have "\<not> is_space (CHR ''Z'')" by code_simp
  then have trim: "trim ?t = ?t" using digit shape(1) by (intro trim_id) (cases "key n"; auto simp: digit_not_space)+
  have long: "\<not> isValidDayKey (JString ?t)"
    using shape(1) by (simp add: isValidDayKey_def parseDayKey_unknown_def parseDayKey_def match_day_key_def)
  have prefix_ok: "starts_with_date_T ?t" using shape by (simp add: starts_with_date_T_def nth_append)
  have valid: "isValidDayKey (JString (key n))"
    using parseDayKey_key [OF assms(2)] by (simp add: isValidDayKey_def parseDayKey_unknown_def)
  have today: "todayKeyInSaoPaulo sp now = key (local_day sp now)"
    using dayKeyInSaoPaulo_key [of now sp] assms(3) by (simp add: todayKeyInSaoPaulo_def local_day_def)
  have "\<not> key (local_day sp now) < key n" using key_less [OF assms(3,2)] assms(4) by simp
  then show ?thesis
    using assms(1,2) long prefix_ok valid shape(1)
    by (simp add: parseAssetDate_def field_text_def js_nullish_def iso_of_noon [OF assms(2)] trim reads_iso_days_def Let_def today
        dayKeyToDate_noon)
qed

lemma iso_instant_noon:
  assumes "ok_day n"
  shows "iso_instant (key n @ ''T12:00:00.000Z'') = Some (noon n)"
proof -
  let ?s = "key n @ ''T12:00:00.000Z''"
  have len: "length (key n) = 10" by (rule key_shape [OF assms])
  have p: "parseDayKey (key n) = Some (civil_of_day n)" by (rule parseDayKey_key [OF assms])
  have c: "civil_of_day n = Civil (digits_val (take 4 (key n))) (digits_val (take 2 (drop 5 (key n))) - 1) (digits_val (drop 8 (key n)))"
    "0 \<le> digits_val (take 2 (drop 5 (key n))) - 1" "digits_val (take 2 (drop 5 (key n))) - 1 \<le> 11"
    using p by (auto simp: parseDayKey_def match_day_key_def Let_def split: if_splits option.splits)
  have f: "take 4 (drop 0 ?s) = take 4 (key n)" "take 2 (drop 5 ?s) = take 2 (drop 5 (key n))" "take 2 (drop 8 ?s) = drop 8 (key n)"
    "take 2 (drop 11 ?s) = ''12''" "take 2 (drop 14 ?s) = ''00''" "take 2 (drop 17 ?s) = ''00''" "take 3 (drop 20 ?s) = ''000''"
    using len by simp_all
  have v: "digits_val ''12'' = 12" "digits_val ''00'' = 0" "digits_val ''000'' = 0" by code_simp+
  have "0 \<le> getUTCFullYear (noon n)" "getUTCFullYear (noon n) \<le> 9999"
    using assms by (auto simp: getUTCFullYear_def ok_day_iff_year)
  then have "iso_text (noon n) = ?s" using iso_of_noon [OF assms] by (simp add: toISOString_def Let_def)
  moreover have "days_of_civil (civil_of_day n) = n" by (rule days_of_civil_of_day)
  ultimately show ?thesis using c unfolding iso_instant_def Let_def f v by simp
qed

lemma reads_iso_instant: "reads_iso_days iso_instant"
  by (simp add: reads_iso_days_def iso_instant_noon)

section \<open>Patches without fields\<close>

definition empty_patch :: asset_patch where
  "empty_patch = \<lparr>ap_type = None, ap_quantity = JUndefined, ap_cashAmountBrl = JUndefined, ap_feeAmountBrl = JUndefined,
     ap_feePercent = JUndefined, ap_costBasisKnown = None, ap_date = JUndefined, ap_note = None\<rparr>"

lemma empty_patch_parsed: "parseAssetTransactionPatch [] = Inr empty_patch"
  by (simp add: parseAssetTransactionPatch_def empty_patch_def js_field_def parse_kind_def parseBoolean_def js_nullish_def)

text \<open>Rows whose numbers fit their columns and print without an exponent.\<close>

definition printable :: "asset_tx \<Rightarrow> bool" where
  "printable r \<longleftrightarrow> plainly_printed (as_quantity r) \<and> \<bar>as_quantity r\<bar> < 10 ^ 18 \<and> as_cashAmountBrl r < 10 ^ 10
     \<and> plainly_printed (as_feeAmountBrl r) \<and> (\<forall>p. as_feePercent r = Some p \<longrightarrow> plainly_printed p)"

lemma cents_plain: "cents x \<Longrightarrow> plainly_printed x"
proof -
  assume "cents x"
  then obtain m where m: "x = of_int m / 100" by (auto elim: on_gridE)
  show ?thesis
  proof (cases "m = 0")
    case False
    then have "1 \<le> \<bar>m\<bar>" by simp
    then have "(1::rat) \<le> of_int \<bar>m\<bar>" using of_int_le_iff [of 1 "\<bar>m\<bar>", where 'a = rat] by simp
    then show ?thesis by (simp add: plainly_printed_def m)
  qed (simp add: plainly_printed_def m)
qed

lemma parsed_not_empty: "parseDecimalValue v field p s neg = Inr x \<Longrightarrow> \<not> empty_field v"
proof
  assume p: "parseDecimalValue v field p s neg = Inr x" and "empty_field v"
  then have "field_text v = []" by (auto simp: empty_field_def field_text_def js_nullish_def trim_def)
  with p show False by (simp add: parseDecimalValue_def has_minus_def is_plain_decimal_def)
qed

lemma merged_values:
  assumes "decimal_arith D" "stored_tx D r" "printable r" "reads_iso_days dateParse"
    and day: "as_date r = noon n" "ok_day n" "ok_day (local_day sp now)" "n \<le> local_day sp now"
  shows "parseAssetTransactionValues D sp dateParse now (as_asset r) (mergeAssetTransactionPatch empty_patch r) =
    Inr \<lparr>av_quantity = as_quantity r, av_cash = as_cashAmountBrl r, av_feePercent = as_feePercent r, av_fee = as_feeAmountBrl r,
         av_date = as_date r, av_costBasisKnown = as_costBasisKnown r\<rparr>"
proof -
  let ?i = "mergeAssetTransactionPatch empty_patch r"
  have i: "ai_type ?i = as_type r" "ai_quantity ?i = JString (number_text (as_quantity r))"
    "ai_cashAmountBrl ?i = JString (number_text (as_cashAmountBrl r))"
    "ai_feeAmountBrl ?i = JString (number_text (as_feeAmountBrl r))"
    "ai_feePercent ?i = (case as_feePercent r of Some p \<Rightarrow> JString (number_text p) | None \<Rightarrow> JNull)"
    "ai_costBasisKnown ?i = Some (as_costBasisKnown r)" "ai_date ?i = JString (toISOString (as_date r))"
    by (simp_all add: mergeAssetTransactionPatch_def empty_patch_def given_def decimal_js_text_def Let_def split: option.split)
  have s: "stored_units (accounting_of r)" "as_quantity r \<noteq> 0" "on_grid (quantity_places (as_asset r)) (as_quantity r)"
    "cents (as_cashAmountBrl r)" "0 \<le> as_cashAmountBrl r"
    "as_type r \<noteq> MANUAL_ADJUSTMENT \<longrightarrow> 0 < as_cashAmountBrl r \<and> as_cashAmountBrl r \<le> MAX_MONEY_AMOUNT"
    "on_grid 8 (as_feeAmountBrl r)" "0 \<le> as_feeAmountBrl r" "as_feeAmountBrl r < 10 ^ 10"
    "as_type r \<noteq> MANUAL_ADJUSTMENT \<longrightarrow> as_costBasisKnown r" "as_costBasisKnown r \<longrightarrow> 0 < as_cashAmountBrl r"
    and sp: "\<And>p. as_feePercent r = Some p \<Longrightarrow> on_grid 8 p \<and> 0 \<le> p \<and> p < 10 ^ 4
          \<and> (as_feeAmountBrl r = 0 \<and> 0 < as_cashAmountBrl r \<longrightarrow> percent_fee D (as_cashAmountBrl r) p = 0)"
    using assms(2) by (auto simp: stored_tx_def)
  have pr: "plainly_printed (as_quantity r)" "\<bar>as_quantity r\<bar> < 10 ^ 18" "as_cashAmountBrl r < 10 ^ 10"
    "plainly_printed (as_feeAmountBrl r)" "\<And>p. as_feePercent r = Some p \<Longrightarrow> plainly_printed p"
    using assms(3) by (simp_all add: printable_def)
  have "(10::rat) ^ 18 \<le> 10 ^ (30 - quantity_places (as_asset r))" using quantity_places_le [of "as_asset r"] by (intro power_increasing) simp_all
  with pr(2) have "\<bar>as_quantity r\<bar> < 10 ^ (30 - quantity_places (as_asset r))" by linarith
  moreover have "\<bar>as_quantity r\<bar> < 10 ^ 21" using pr(2) by simp
  moreover have "quantity_places (as_asset r) < 30" "quantity_places (as_asset r) \<le> 25" using quantity_places_le [of "as_asset r"] by simp_all
  moreover have "as_type r = MANUAL_ADJUSTMENT \<or> 0 \<le> as_quantity r" using s(1) by (auto simp: stored_units_def accounting_of_def)
  ultimately have quantity: "parseQuantity (ai_quantity ?i) (as_asset r) (as_type r = MANUAL_ADJUSTMENT) = Inr (as_quantity r)"
    using number_text_read [OF s(3) pr(1)] s(2) by (simp add: parseQuantity_def i)
  have cash: "parseDecimalValue (ai_cashAmountBrl ?i) ''Valor em BRL'' 18 8 False = Inr (as_cashAmountBrl r)"
    unfolding i using s(4,5) pr(3) by (intro number_text_read on_grid_mono [OF s(4)] cents_plain) simp_all
  have money: "toMoney D (as_cashAmountBrl r) = as_cashAmountBrl r" using s(4) by (rule decimal_arith.toMoney_id [OF assms(1)])
  have percent: "(if empty_field (ai_feePercent ?i) then Inr None
      else res_bind (parseDecimalValue (ai_feePercent ?i) ''Percentual de taxa'' 12 8 False) (\<lambda>p. Inr (Some p))) = Inr (as_feePercent r)"
  proof (cases "as_feePercent r")
    case None
    then show ?thesis by (simp add: i empty_field_def js_nullish_def)
  next
    case (Some p)
    have "parseDecimalValue (ai_feePercent ?i) ''Percentual de taxa'' 12 8 False = Inr p"
      unfolding i Some option.case using sp [OF Some] pr(5) [OF Some] by (intro number_text_read) simp_all
    with parsed_not_empty [OF this] Some show ?thesis by simp
  qed
  have fee0: "parseDecimalValue (ai_feeAmountBrl ?i) ''Taxa'' 18 8 False = Inr (as_feeAmountBrl r)"
    unfolding i using s(7-9) pr(4) by (intro number_text_read) simp_all
  have zero: "parseDecimalValue (JString (toFixed 8 0)) ''Taxa'' 18 8 False = Inr 0" by (rule toFixed_read) simp_all
  have fee: "parseFee D (as_cashAmountBrl r) (as_feePercent r) (ai_feeAmountBrl ?i) = Inr (as_feeAmountBrl r)"
    using fee0 parsed_not_empty [OF fee0] sp zero by (auto simp: parseFee_def split: option.split)
  have date: "parseAssetDate sp dateParse now (ai_date ?i) = Inr (as_date r)"
    unfolding i day(1) by (rule stored_date_read [OF assms(4) day(2-4)])
  have limit: "as_type r \<noteq> MANUAL_ADJUSTMENT \<Longrightarrow> \<not> as_cashAmountBrl r \<le> 0 \<and> \<not> MAX_MONEY_AMOUNT < as_cashAmountBrl r" using s(6) by auto
  have known: "(if as_type r = MANUAL_ADJUSTMENT then Some (as_costBasisKnown r) = Some True \<and> as_cashAmountBrl r > 0 else True) = as_costBasisKnown r"
    using s(10,11) by auto
  have checks: "\<not> (as_type r \<noteq> MANUAL_ADJUSTMENT \<and> as_cashAmountBrl r \<le> 0)" "\<not> (as_type r \<noteq> MANUAL_ADJUSTMENT \<and> MAX_MONEY_AMOUNT < as_cashAmountBrl r)"
    using limit by blast+
  show ?thesis
    unfolding parseAssetTransactionValues_def Let_def i(1) quantity res_bind_Inr cash money percent fee date i(6) known
    by (simp add: res_when_def checks del: not_less not_le)
qed

section \<open>Properties\<close>

lemma same_links:
  assumes "distinct (map er_id (db_expenses db))" "distinct (map en_id (db_entries db))" "proper_links t"
    and "as_type t = BUY \<Longrightarrow> purchase_of t \<in> expense_views db" "as_type t = SELL \<Longrightarrow> sale_of t \<in> entry_views db"
    and same: "ai_type input = as_type t" "ai_note input = as_note t" "av_cash v = as_cashAmountBrl t" "av_date v = as_date t"
      "toMoney D (av_cash v) = av_cash v"
  shows "\<exists>fin. relink D newId now (as_userId t) t input v db = Inr (fin, as_expenseId t, as_entryId t)
    \<and> expense_views fin = expense_views db \<and> entry_views fin = entry_views db \<and> keeps_other_rows db fin"
proof (cases "as_type t")
  case BUY
  then obtain i where i: "as_expenseId t = Some i" "i \<noteq> []" "as_entryId t = None"
    using assms(3) by (auto simp: proper_links_def elim: truthyE)
  let ?f = "rewrite_expense now (as_asset t) (av_cash v) (av_date v) (ai_note input)"
  obtain e where e: "e \<in> set (db_expenses db)" "er_id e = i"
    by (rule purchase_row [OF assms(1) assms(4) [OF BUY] i(1)])
  then obtain fin where u: "update_expense i ?f db = Inr fin" by (auto simp: update_expense_def res_when_def)
  have c: "expenses_change (Some i) (Some (purchase_of t)) db fin"
    by (rule update_expense_change [OF assms(1) assms(4) [OF BUY] i(1) u]) (simp_all add: same i)
  have l: "ledgers_change (Some i) (Some (purchase_of t)) None None db fin"
    by (rule ledgers_changeI2 [OF no_entries_change [OF assms(2)] c])
  have "v' = purchase_of t" if v': "v' \<in> expense_views db" "lv_id v' = i" for v'
  proof -
    from v'(1) obtain e' where e': "e' \<in> set (db_expenses db)" "v' = expense_view e'" by (auto simp: expense_views_def)
    from assms(4) [OF BUY] obtain e2 where e2: "e2 \<in> set (db_expenses db)" "purchase_of t = expense_view e2" by (auto simp: expense_views_def)
    have "lv_id (purchase_of t) = i" by (simp add: purchase_of_def i)
    with e' e2 v'(2) have "er_id e' = er_id e2" by (simp add: expense_view_def)
    with e'(1) e2(1) assms(1) have "e' = e2" by (metis distinct_map inj_onD)
    with e' e2 show ?thesis by simp
  qed
  then have "expense_views fin = expense_views db" "entry_views fin = entry_views db" "keeps_other_rows db fin"
    using l assms(4) [OF BUY] by (auto simp: ledgers_change_def)
  moreover have "relink D newId now (as_userId t) t input v db = Inr (fin, as_expenseId t, as_entryId t)"
    using u BUY i by (simp add: relink_def same same(5) [unfolded same] Let_def)
  ultimately show ?thesis by blast
next
  case SELL
  then obtain i where i: "as_entryId t = Some i" "i \<noteq> []" "as_expenseId t = None"
    using assms(3) by (auto simp: proper_links_def elim: truthyE)
  let ?f = "rewrite_entry now (as_asset t) (av_cash v) (av_date v)"
  obtain e where e: "e \<in> set (db_entries db)" "en_id e = i"
    by (rule sale_row [OF assms(2) assms(5) [OF SELL] i(1)])
  then obtain fin where u: "update_entry i ?f db = Inr fin" by (auto simp: update_entry_def res_when_def)
  have c: "entries_change (Some i) (Some (sale_of t)) db fin"
    by (rule update_entry_change [OF assms(2) assms(5) [OF SELL] i(1) u]) (simp_all add: same i)
  have l: "ledgers_change None None (Some i) (Some (sale_of t)) db fin"
    by (rule ledgers_changeI [OF no_expenses_change [OF assms(1)] c])
  have "v' = sale_of t" if v': "v' \<in> entry_views db" "lv_id v' = i" for v'
  proof -
    from v'(1) obtain e' where e': "e' \<in> set (db_entries db)" "v' = entry_view e'" by (auto simp: entry_views_def)
    from assms(5) [OF SELL] obtain e2 where e2: "e2 \<in> set (db_entries db)" "sale_of t = entry_view e2" by (auto simp: entry_views_def)
    have "lv_id (sale_of t) = i" by (simp add: sale_of_def i)
    with e' e2 v'(2) have "en_id e' = en_id e2" by (simp add: entry_view_def)
    with e'(1) e2(1) assms(2) have "e' = e2" by (metis distinct_map inj_onD)
    with e' e2 show ?thesis by simp
  qed
  then have "expense_views fin = expense_views db" "entry_views fin = entry_views db" "keeps_other_rows db fin"
    using l assms(5) [OF SELL] by (auto simp: ledgers_change_def)
  moreover have "relink D newId now (as_userId t) t input v db = Inr (fin, as_expenseId t, as_entryId t)"
    using u SELL i by (simp add: relink_def same same(5) [unfolded same] Let_def)
  ultimately show ?thesis by blast
next
  case MANUAL_ADJUSTMENT
  with assms(3) have "as_expenseId t = None" "as_entryId t = None" by (simp_all add: proper_links_def)
  with MANUAL_ADJUSTMENT same show ?thesis by (simp add: relink_def Let_def keeps_other_rows_def)
qed

lemma touched_timeline: "valid_timeline D u a (map (\<lambda>x. if as_id x = i then x\<lparr>as_updatedAt := now\<rparr> else x) rows) = valid_timeline D u a rows"
proof -
  have "map accounting_of (asset_rows u a (map (\<lambda>x. if as_id x = i then x\<lparr>as_updatedAt := now\<rparr> else x) rows)) = map accounting_of (asset_rows u a rows)"
    by (induction rows) (auto simp: asset_rows_def accounting_of_def)
  then show ?thesis by (simp add: valid_timeline_def)
qed

text \<open>C30. A patch without fields changes nothing but the time of the last update: quantity, amount, fee,
  percentage and day go through their text forms and the parser and come back as they were, the fee is not
  computed anew, the timeline check passes again and the linked row of the ledger is written as it was.\<close>

theorem empty_patch_changes_nothing:
  assumes "decimal_arith D" "asset_reachable D sp dateParse db" "reads_iso_days dateParse"
    and r: "own_asset_tx u i (w_assets db) = Some r" "printable r"
    and day: "as_date r = noon n" "ok_day n" "ok_day (local_day sp now)" "n \<le> local_day sp now"
  shows "\<exists>fin. patchTransaction D sp dateParse newId now u i empty_patch db
      = Inr (db\<lparr>w_finance := fin, w_assets := map (\<lambda>x. if as_id x = i then x\<lparr>as_updatedAt := now\<rparr> else x) (w_assets db)\<rparr>,
             r\<lparr>as_updatedAt := now\<rparr>)
    \<and> expense_views fin = expense_views (w_finance db) \<and> entry_views fin = entry_views (w_finance db)
    \<and> keeps_other_rows (w_finance db) fin"
proof -
  note s = sound_assetsD [OF reachable_assets [OF assms(1,2)]]
  note own = own_asset_txD [OF r(1)]
  let ?input = "mergeAssetTransactionPatch empty_patch r"
  define v where "v = \<lparr>av_quantity = as_quantity r, av_cash = as_cashAmountBrl r, av_feePercent = as_feePercent r, av_fee = as_feeAmountBrl r,
         av_date = as_date r, av_costBasisKnown = as_costBasisKnown r\<rparr>"
  have v: "parseAssetTransactionValues D sp dateParse now (as_asset r) ?input = Inr v"
    unfolding v_def by (rule merged_values [OF assms(1) s(2) [OF own(1)] r(2) assms(3) day])
  have i: "ai_type ?input = as_type r" "ai_note ?input = as_note r"
    by (simp_all add: mergeAssetTransactionPatch_def empty_patch_def Let_def)
  have tl: "proper_links r" "as_type r = BUY \<Longrightarrow> purchase_of r \<in> expense_views (w_finance db)" "as_type r = SELL \<Longrightarrow> sale_of r \<in> entry_views (w_finance db)"
    using s(3) own(1) by (auto simp: linked_def)
  obtain fin where fin: "relink D newId now (as_userId r) r ?input v (w_finance db) = Inr (fin, as_expenseId r, as_entryId r)"
    "expense_views fin = expense_views (w_finance db)" "entry_views fin = entry_views (w_finance db)" "keeps_other_rows (w_finance db) fin"
    using same_links [OF s(4,5) tl, of ?input v D newId now] i parsed_values(2) [OF assms(1) v] by (auto simp: v_def)
  have edited: "edited_asset_tx now ?input v (as_expenseId r) (as_entryId r) r = r\<lparr>as_updatedAt := now\<rparr>"
    by (simp add: edited_asset_tx_def v_def i)
  have only: "x = r" if "x \<in> set (w_assets db)" "as_id x = as_id r" for x
    using that own(1) s(1) by (metis distinct_map inj_onD)
  have rows: "map (\<lambda>x. if as_id x = as_id r then r\<lparr>as_updatedAt := now\<rparr> else x) (w_assets db)
      = map (\<lambda>x. if as_id x = i then x\<lparr>as_updatedAt := now\<rparr> else x) (w_assets db)"
    using only own(2) by (intro map_cong) auto
  have "act_feeAmountBrl_update (\<lambda>_. None) (accounting_of (r\<lparr>as_updatedAt := now\<rparr>)) = changed_transaction r ?input v"
    by (simp add: accounting_of_def changed_transaction_def v_def i)
  from edited_timeline [OF s(1) own(1) _ _ _ this, of D] s(6)
  have "isAssetTimelineValid D (map accounting_of (filter (\<lambda>x. as_id x \<noteq> as_id r) (asset_rows u (as_asset r) (w_assets db))) @ [changed_transaction r ?input v])"
    by (simp add: rows touched_timeline own(3))
  then have "updateAssetTransactionUnderUserLock D sp dateParse newId now u i (mergeAssetTransactionPatch empty_patch) db
      = Inr (db\<lparr>w_finance := fin, w_assets := map (\<lambda>x. if as_id x = i then x\<lparr>as_updatedAt := now\<rparr> else x) (w_assets db)\<rparr>, r\<lparr>as_updatedAt := now\<rparr>)"
    using fin(1) by (simp add: updateAssetTransactionUnderUserLock_def r(1) v Let_def assertTransactionTimelineValid_def own(3) edited rows cong: if_cong)
  then have "patchTransaction D sp dateParse newId now u i empty_patch db
      = Inr (db\<lparr>w_finance := fin, w_assets := map (\<lambda>x. if as_id x = i then x\<lparr>as_updatedAt := now\<rparr> else x) (w_assets db)\<rparr>, r\<lparr>as_updatedAt := now\<rparr>)"
    by (simp add: patchTransaction_def findOwnedTransaction_def r(1))
  with fin(2-4) show ?thesis by blast
qed

text \<open>An exponent is no plain decimal.\<close>

lemma plain_chars: "is_plain_decimal s \<Longrightarrow> CHR ''e'' \<notin> set s"
proof -
  assume "is_plain_decimal s"
  then obtain w f where s: "list_all is_digit w" "list_all is_digit f" "s = plain_text w f" by (auto elim: plain_decimal_cases)
  moreover have "\<not> is_digit (CHR ''e'')" by code_simp
  ultimately show "CHR ''e'' \<notin> set s" by (auto simp: plain_text_def list_all_iff)
qed

lemma trim_keeps: "c \<in> set s \<Longrightarrow> \<not> is_space c \<Longrightarrow> c \<in> set (trim s)"
proof -
  have keep: "c \<in> set t \<Longrightarrow> \<not> is_space c \<Longrightarrow> c \<in> set (dropWhile is_space t)" for t
    by (induction t) auto
  show "c \<in> set s \<Longrightarrow> \<not> is_space c \<Longrightarrow> c \<in> set (trim s)"
    using keep [of "rev (dropWhile is_space s)"] keep [of s] by (simp add: trim_def)
qed

lemma exponent_refused:
  assumes "CHR ''e'' \<in> set s"
  shows "parseDecimalValue (JString s) field p sc neg = Inl (AssetValidationError (field @ '' invalido''))"
proof -
  let ?raw = "field_text (JString s)"
  have "\<not> is_space (CHR ''e'')" by code_simp
  then have e: "CHR ''e'' \<in> set ?raw" using trim_keeps [OF assms] by (simp add: field_text_def js_nullish_def)
  then have "CHR ''e'' \<in> set (if has_minus ?raw then tl ?raw else ?raw)"
    by (cases ?raw) (auto simp: has_minus_def)
  with e have "\<not> is_plain_decimal (if neg then if has_minus ?raw then tl ?raw else ?raw else ?raw)"
    using plain_chars by metis
  then show ?thesis by (simp add: parseDecimalValue_def Let_def)
qed

lemma dust_text:
  assumes "on_grid 12 x" "x \<noteq> 0" "\<bar>x\<bar> < 1 / 10 ^ 6"
  shows "CHR ''e'' \<in> set (number_text x)"
proof -
  obtain m where m: "x = of_int m / 10 ^ 12" using assms(1) by (rule on_gridE)
  with assms(2) have "1 \<le> \<bar>m\<bar>" by auto
  then have "(1::rat) \<le> of_int \<bar>m\<bar>" using of_int_le_iff [of 1 "\<bar>m\<bar>", where 'a = rat] by simp
  then have "1 \<le> \<bar>x\<bar> * 10 ^ 12" by (simp add: m)
  moreover have "(12::nat) \<in> set [7..<325]" by simp
  ultimately have "find (\<lambda>e. 1 \<le> \<bar>x\<bar> * 10 ^ e) [7..<325] \<noteq> None" unfolding find_None_iff by blast
  then obtain e where "find (\<lambda>e. 1 \<le> \<bar>x\<bar> * 10 ^ e) [7..<325] = Some e" by blast
  then show ?thesis using assms(2,3) by (simp add: number_text_def Let_def del: upt_rec_numeral)
qed

text \<open>C31. A holding below one millionth of a unit can be bought and stored, but not edited: every patch that
  does not replace the quantity is refused, whatever it changes, because the stored quantity is written
  with an exponent (\<open>5e-7\<close>), which the parser of quantities does not accept.\<close>

theorem dust_cannot_be_patched:
  assumes "decimal_arith D" "asset_reachable D sp dateParse db" "own_asset_tx u i (w_assets db) = Some r"
    and "\<bar>as_quantity r\<bar> < 1 / 10 ^ 6" "ap_quantity patch = JUndefined"
  shows "patchTransaction D sp dateParse newId now u i patch db = Inl (AssetValidationError ''Quantidade invalido'')"
proof -
  have "stored_tx D r" using sound_assetsD(2) [OF reachable_assets [OF assms(1,2)]] own_asset_txD(1) [OF assms(3)] by blast
  then have "on_grid 12 (as_quantity r)" "as_quantity r \<noteq> 0"
    by (simp_all add: stored_tx_def stored_units_def accounting_of_def)
  then have "CHR ''e'' \<in> set (number_text (as_quantity r))" using assms(4) by (rule dust_text)
  then have "parseAssetTransactionValues D sp dateParse now (as_asset r) (mergeAssetTransactionPatch patch r)
      = Inl (AssetValidationError ''Quantidade invalido'')"
    by (simp add: parseAssetTransactionValues_def parseQuantity_def mergeAssetTransactionPatch_def given_def assms(5)
        decimal_js_text_def exponent_refused Let_def)
  then show ?thesis
    by (simp add: patchTransaction_def findOwnedTransaction_def updateAssetTransactionUnderUserLock_def assms(3) Let_def)
qed

section \<open>An example\<close>

text \<open>Ana buys half a bitcoin and, later, fifty satoshi; then sells a fifth of a bitcoin.\<close>

definition ana_now :: instant where
  "ana_now = noon 20500"

definition ana_day :: instant where
  "ana_day = noon 20458"

definition empty_assets :: asset_db where
  "empty_assets = \<lparr>w_finance = empty_db, w_assets = []\<rparr>"

definition btc_body :: "string \<Rightarrow> string \<Rightarrow> string \<Rightarrow> (string \<times> js) list" where
  "btc_body kind quantity cash = [(''type'', JString kind), (''quantity'', JString quantity), (''cashAmountBrl'', JString cash),
     (''date'', JString ''2026-01-05'')]"

definition btc_input :: "transaction_type \<Rightarrow> string \<Rightarrow> string \<Rightarrow> asset_input" where
  "btc_input kind quantity cash = \<lparr>ai_type = kind, ai_quantity = JString quantity, ai_cashAmountBrl = JString cash,
     ai_feeAmountBrl = JUndefined, ai_feePercent = JUndefined, ai_costBasisKnown = None, ai_date = JString ''2026-01-05'', ai_note = None\<rparr>"

definition btc_values :: "rat \<Rightarrow> rat \<Rightarrow> asset_values" where
  "btc_values q c = \<lparr>av_quantity = q, av_cash = c, av_feePercent = None, av_fee = 0, av_date = ana_day, av_costBasisKnown = True\<rparr>"

lemma btc_body_parsed:
  "parseCreateAssetTransaction (btc_body ''BUY'' q c) = Inr (btc_input BUY q c)"
  "parseCreateAssetTransaction (btc_body ''SELL'' q c) = Inr (btc_input SELL q c)"
  by (simp_all add: parseCreateAssetTransaction_def btc_body_def btc_input_def js_field_def parse_kind_def parseBoolean_def
      parseOptionalNote_def js_nullish_def)

lemma btc_date: "parseAssetDate sao_paulo_standard iso_instant ana_now (JString ''2026-01-05'') = Inr ana_day"
  by code_simp

lemma btc_parsed:
  assumes "parseQuantity (JString q) BTC False = Inr x" "parseDecimalValue (JString c) ''Valor em BRL'' 18 8 False = Inr y"
    and "cents y" "0 < y" "y \<le> MAX_MONEY_AMOUNT" "kind = BUY \<or> kind = SELL"
  shows "parseAssetTransactionValues decimal_js sao_paulo_standard iso_instant ana_now BTC (btc_input kind q c) = Inr (btc_values x y)"
proof -
  have "empty_field JUndefined" by (simp add: empty_field_def js_nullish_def)
  moreover have "toMoney decimal_js y = y" using assms(3) by (rule js_decimal.toMoney_id)
  ultimately show ?thesis
    using assms btc_date by (auto simp: parseAssetTransactionValues_def btc_input_def btc_values_def Let_def parseFee_def)
qed

definition half_tx :: asset_tx where
  "half_tx = created_asset_tx ''0'' ana_now ''ana'' BTC (btc_input BUY ''0.5'' ''1500.00'') (btc_values (1 / 2) 1500) (Some ''0'') None"

definition dust_tx :: asset_tx where
  "dust_tx = created_asset_tx ''1'' ana_now ''ana'' BTC (btc_input BUY ''0.0000005'' ''0.25'') (btc_values (1 / 2000000) (1 / 4)) (Some ''1'') None"

definition sold_tx :: asset_tx where
  "sold_tx = created_asset_tx ''2'' ana_now ''ana'' BTC (btc_input SELL ''0.2'' ''800'') (btc_values (1 / 5) 800) None (Some ''0'')"

definition half_db :: asset_db where
  "half_db = \<lparr>w_finance = empty_db\<lparr>db_expenses := [asset_expense_row ''0'' ana_now ''ana'' BTC 1500 ana_day None]\<rparr>,
     w_assets = [half_tx]\<rparr>"

definition dust_db :: asset_db where
  "dust_db = \<lparr>w_finance = empty_db\<lparr>db_expenses := [asset_expense_row ''0'' ana_now ''ana'' BTC 1500 ana_day None,
       asset_expense_row ''1'' ana_now ''ana'' BTC (1 / 4) ana_day None]\<rparr>,
     w_assets = [half_tx, dust_tx]\<rparr>"

definition sold_db :: asset_db where
  "sold_db = \<lparr>w_finance = (w_finance dust_db)\<lparr>db_entries := [asset_entry_row ''0'' ana_now ''ana'' BTC 800 ana_day]\<rparr>,
     w_assets = [half_tx, dust_tx, sold_tx]\<rparr>"

lemma btc_tx_fields:
  "as_id half_tx = ''0''" "as_id dust_tx = ''1''" "as_id sold_tx = ''2''"
  "as_userId half_tx = ''ana''" "as_userId dust_tx = ''ana''" "as_userId sold_tx = ''ana''"
  "as_asset half_tx = BTC" "as_asset dust_tx = BTC" "as_asset sold_tx = BTC"
  "as_type half_tx = BUY" "as_type dust_tx = BUY" "as_type sold_tx = SELL"
  "as_quantity half_tx = 1 / 2" "as_quantity dust_tx = 1 / 2000000" "as_quantity sold_tx = 1 / 5"
  "as_cashAmountBrl half_tx = 1500" "as_cashAmountBrl dust_tx = 1 / 4" "as_cashAmountBrl sold_tx = 800"
  "as_date half_tx = ana_day" "as_date dust_tx = ana_day" "as_date sold_tx = ana_day"
  "as_createdAt half_tx = ana_now" "as_createdAt dust_tx = ana_now" "as_createdAt sold_tx = ana_now"
  "as_expenseId half_tx = Some ''0''" "as_expenseId dust_tx = Some ''1''" "as_feePercent half_tx = None" "as_feeAmountBrl half_tx = 0"
  by (simp_all add: half_tx_def dust_tx_def sold_tx_def created_asset_tx_def btc_input_def btc_values_def)

lemma btc_accounting:
  "act_type (accounting_of r) = as_type r" "act_quantity (accounting_of r) = as_quantity r" "act_date (accounting_of r) = as_date r"
  by (simp_all add: accounting_of_def)

lemma btc_timelines:
  "isAssetTimelineValid decimal_js (map accounting_of [half_tx])"
  "isAssetTimelineValid decimal_js (map accounting_of [half_tx, dust_tx])"
  "isAssetTimelineValid decimal_js (map accounting_of [half_tx, dust_tx, sold_tx])"
proof -
  have grid: "on_grid 12 (1 / 2 :: rat)" "on_grid 12 (1 / 2000000 :: rat)" "on_grid 12 (1 / 5 :: rat)" by code_simp+
  have o: "js_sort compareTransactions (map accounting_of rs) = map accounting_of rs" if "rs = take n [half_tx, dust_tx, sold_tx]" for rs n
    unfolding that
    by (rule transaction_order.sort_sorted_id)
      (simp add: take_map [symmetric] sorted_wrt_take compareTransactions_def accounting_of_def btc_tx_fields)
  have ex: "exact_units (map accounting_of rs)" if "set rs \<subseteq> {half_tx, dust_tx, sold_tx}" "length rs \<le> 3" for rs
  proof -
    have "stored_units (accounting_of r) \<and> \<bar>as_quantity r\<bar> \<le> 1" if "r \<in> {half_tx, dust_tx, sold_tx}" for r
      using that grid by (auto simp: stored_units_def btc_accounting btc_tx_fields)
    moreover have "moved_units (map accounting_of rs) \<le> of_nat (length rs)" if "\<forall>r \<in> set rs. \<bar>as_quantity r\<bar> \<le> 1"
      using that by (induction rs) (auto simp: btc_accounting)
    ultimately show ?thesis using that by (fastforce simp: exact_units_def)
  qed
  show "isAssetTimelineValid decimal_js (map accounting_of [half_tx])"
    "isAssetTimelineValid decimal_js (map accounting_of [half_tx, dust_tx])"
    "isAssetTimelineValid decimal_js (map accounting_of [half_tx, dust_tx, sold_tx])"
    using js_decimal.valid_iff [OF ex [of "[half_tx]"]] js_decimal.valid_iff [OF ex [of "[half_tx, dust_tx]"]]
      js_decimal.valid_iff [OF ex [of "[half_tx, dust_tx, sold_tx]"]] o [of "[half_tx]" 1] o [of "[half_tx, dust_tx]" 2]
      o [of "[half_tx, dust_tx, sold_tx]" 3]
    by (simp_all add: all_le_Suc signed_quantity_def btc_accounting btc_tx_fields)
qed

lemma btc_quantities:
  "parseQuantity (JString ''0.5'') BTC False = Inr 0.5" "parseQuantity (JString ''0.0000005'') BTC False = Inr (1 / 2000000)"
  "parseQuantity (JString ''0.2'') BTC False = Inr 0.2"
  by code_simp+

lemma btc_amounts:
  "parseDecimalValue (JString ''1500.00'') ''Valor em BRL'' 18 8 False = Inr 1500" "parseDecimalValue (JString ''0.25'') ''Valor em BRL'' 18 8 False = Inr (1 / 4)"
  "parseDecimalValue (JString ''800'') ''Valor em BRL'' 18 8 False = Inr 800"
  by code_simp+

lemma btc_cents: "cents 1500" "cents (1 / 4)" "cents 800"
  by code_simp+

lemma btc_ids: "nat_digits 0 = ''0''" "nat_digits (Suc 0) = ''1''" "nat_digits 2 = ''2''" "nat_digits n \<noteq> []"
  using nat_digits_props [of n] by (simp_all add: nat_digits_small) code_simp+

abbreviation ana_creates :: "asset_input \<Rightarrow> asset_db \<Rightarrow> (asset_db \<times> asset_tx) res" where
  "ana_creates \<equiv> createAssetTransaction decimal_js sao_paulo_standard iso_instant nat_digits ana_now ''ana'' BTC"

lemma btc_local_today: "local_day sao_paulo_standard ana_now = 20500"
  by code_simp

lemma btc_created:
  "ana_creates (btc_input BUY ''0.5'' ''1500.00'') empty_assets = Inr (half_db, half_tx)"
  "ana_creates (btc_input BUY ''0.0000005'' ''0.25'') half_db = Inr (dust_db, dust_tx)"
  "ana_creates (btc_input SELL ''0.2'' ''800'') dust_db = Inr (sold_db, sold_tx)"
proof -
  have kind: "ai_type (btc_input k q c) = k" "ai_note (btc_input k q c) = None" for k q c by (simp_all add: btc_input_def)
  have val: "av_cash (btc_values q c) = c" "av_date (btc_values q c) = ana_day" for q c by (simp_all add: btc_values_def)
  note money = btc_cents [THEN js_decimal.toMoney_id]
  note defs = createAssetTransaction_def link_transaction_def new_purchase_def new_sale_def kind val money Let_def
    assertTransactionTimelineValid_def btc_ids asset_rows_def btc_tx_fields empty_assets_def empty_db_def
  have v: "parseAssetTransactionValues decimal_js sao_paulo_standard iso_instant ana_now BTC (btc_input BUY ''0.5'' ''1500.00'') = Inr (btc_values (1 / 2) 1500)"
    "parseAssetTransactionValues decimal_js sao_paulo_standard iso_instant ana_now BTC (btc_input BUY ''0.0000005'' ''0.25'') = Inr (btc_values (1 / 2000000) (1 / 4))"
    "parseAssetTransactionValues decimal_js sao_paulo_standard iso_instant ana_now BTC (btc_input SELL ''0.2'' ''800'') = Inr (btc_values (1 / 5) 800)"
    using btc_parsed [OF btc_quantities(1) btc_amounts(1) btc_cents(1)] btc_parsed [OF btc_quantities(2) btc_amounts(2) btc_cents(2)]
      btc_parsed [OF btc_quantities(3) btc_amounts(3) btc_cents(3)]
    by (simp_all add: MAX_MONEY_AMOUNT_def)
  show "ana_creates (btc_input BUY ''0.5'' ''1500.00'') empty_assets = Inr (half_db, half_tx)"
    using btc_timelines(1) by (simp add: defs v half_db_def half_tx_def [symmetric])
  show "ana_creates (btc_input BUY ''0.0000005'' ''0.25'') half_db = Inr (dust_db, dust_tx)"
    using btc_timelines(2) by (simp add: defs v half_db_def dust_db_def dust_tx_def [symmetric])
  show "ana_creates (btc_input SELL ''0.2'' ''800'') dust_db = Inr (sold_db, sold_tx)"
    using btc_timelines(3) by (simp add: defs v dust_db_def sold_db_def sold_tx_def [symmetric] numeral_2_eq_2 [symmetric] del: One_nat_def)
qed

abbreviation ana_reaches :: "asset_db \<Rightarrow> bool" where
  "ana_reaches \<equiv> asset_reachable decimal_js sao_paulo_standard iso_instant"

lemma btc_reachable: "ana_reaches half_db" "ana_reaches dust_db" "ana_reaches sold_db"
proof -
  have "ana_reaches empty_assets" by (rule asset_reachable.start) (simp_all add: empty_assets_def empty_db_def)
  moreover have "fresh_ids nat_digits empty_assets" "fresh_ids nat_digits half_db" "fresh_ids nat_digits dust_db"
    by (simp_all add: fresh_ids_def empty_assets_def empty_db_def half_db_def dust_db_def btc_ids btc_tx_fields asset_expense_row_def numeral_2_eq_2 [symmetric] del: One_nat_def)
  ultimately show 1: "ana_reaches half_db"
    using asset_reachable.step [OF _ asset_step.create_tx [OF btc_body_parsed(1) _ btc_created(1)]] by blast
  show 2: "ana_reaches dust_db"
    using asset_reachable.step [OF 1 asset_step.create_tx [OF btc_body_parsed(1) _ btc_created(2)]] \<open>fresh_ids nat_digits half_db\<close> by blast
  show "ana_reaches sold_db"
    using asset_reachable.step [OF 2 asset_step.create_tx [OF btc_body_parsed(2) _ btc_created(3)]] \<open>fresh_ids nat_digits dust_db\<close> by blast
qed

lemma btc_holdings: "holdings ''ana'' BTC sold_db = map accounting_of [half_tx, dust_tx, sold_tx]"
  by (simp add: holdings_def sold_db_def asset_rows_def btc_tx_fields)

lemma btc_moved: "moved_units (holdings ''ana'' BTC sold_db) < 10 ^ 8"
  by (simp add: btc_holdings btc_accounting btc_tx_fields)

theorem positions_are_never_negative_witness:
  "0 \<le> position (filter (\<lambda>t. act_date t \<le> ana_day) (holdings ''ana'' BTC sold_db))
    \<and> position (holdings ''ana'' BTC sold_db) = 0.3000005"
  using positions_are_never_negative [OF js_decimal.decimal_arith_axioms btc_reachable(3) btc_moved, of "ana_day"]
  by (simp add: btc_holdings signed_quantity_def btc_accounting btc_tx_fields)

theorem accounting_is_the_position_witness:
  "acc_quantity (calculateAssetAccounting decimal_js BTC (holdings ''ana'' BTC sold_db)) = 0.3000005"
proof -
  have "position (holdings ''ana'' BTC sold_db) = 0.3000005"
    by (simp add: btc_holdings signed_quantity_def btc_accounting btc_tx_fields)
  with accounting_is_the_position [OF js_decimal.decimal_arith_axioms btc_reachable(3) btc_moved] show ?thesis by simp
qed

theorem ledgers_mirror_assets_witness:
  "expense_views (w_finance sold_db) = {purchase_of half_tx, purchase_of dust_tx} \<and> entry_views (w_finance sold_db) = {sale_of sold_tx}"
proof -
  have "{r \<in> set (w_assets sold_db). as_type r = BUY} = {half_tx, dust_tx}" "{r \<in> set (w_assets sold_db). as_type r = SELL} = {sold_tx}"
    by (auto simp: sold_db_def btc_tx_fields)
  with ledgers_mirror_assets [OF js_decimal.decimal_arith_axioms btc_reachable(3)] show ?thesis by simp
qed

theorem empty_patch_changes_nothing_witness:
  "\<exists>fin. patchTransaction decimal_js sao_paulo_standard iso_instant nat_digits ana_now ''ana'' ''0'' empty_patch half_db
      = Inr (half_db\<lparr>w_finance := fin, w_assets := [half_tx\<lparr>as_updatedAt := ana_now\<rparr>]\<rparr>, half_tx\<lparr>as_updatedAt := ana_now\<rparr>)"
proof -
  have own: "own_asset_tx ''ana'' ''0'' (w_assets half_db) = Some half_tx" by (simp add: own_asset_tx_def half_db_def btc_tx_fields)
  have "plainly_printed 0.5" "plainly_printed 0" by (simp_all add: plainly_printed_def)
  then have "printable half_tx" by (simp add: printable_def btc_tx_fields)
  moreover note btc_local_today
  moreover have "ok_day 20458" "ok_day 20500" by (simp_all add: ok_day_def)
  moreover have "as_date half_tx = noon 20458" unfolding btc_tx_fields ana_day_def ..
  ultimately show ?thesis
    using empty_patch_changes_nothing [OF js_decimal.decimal_arith_axioms btc_reachable(1) reads_iso_instant own, of 20458 ana_now nat_digits]
    by (auto simp: half_db_def btc_tx_fields)
qed

theorem dust_cannot_be_patched_witness:
  "patchTransaction decimal_js sao_paulo_standard iso_instant nat_digits ana_now ''ana'' ''1'' empty_patch dust_db
    = Inl (AssetValidationError ''Quantidade invalido'')"
proof (rule dust_cannot_be_patched [OF js_decimal.decimal_arith_axioms btc_reachable(2)])
  show "own_asset_tx ''ana'' ''1'' (w_assets dust_db) = Some dust_tx" by (simp add: own_asset_tx_def dust_db_def btc_tx_fields)
  show "\<bar>as_quantity dust_tx\<bar> < 1 / 10 ^ 6" by (simp add: btc_tx_fields)
  show "ap_quantity empty_patch = JUndefined" by (simp add: empty_patch_def)
qed

end
