(* ===== verification/Market_Series.thy ===== *)
theory Market_Series
  imports Piggy_Interest JS_Sort
begin

text \<open>
  \<open>backend/src/lib/market/series.ts\<close>: checks, freshness and lookups of daily market series, which
  feed the patrimony timeline and the caches of quotes and rates. A point's value is the rational
  its text denotes. A \<open>Map\<close> that is read in the order of insertion is a list of pairs.
\<close>

section \<open>Ranges\<close>

definition MarketDataError :: "string \<Rightarrow> error" where
  "MarketDataError message = DomainError ''MARKET_DATA'' message"

definition daysBetween :: "instant \<Rightarrow> instant \<Rightarrow> int" where
  "daysBetween from to = max 1 (\<lceil>of_int (to - from) / (of_int ms_per_day :: rat)\<rceil> + 1)"

definition validateHistoryRange :: "tz_offset \<Rightarrow> instant \<Rightarrow> string \<Rightarrow> string \<Rightarrow> (instant \<times> instant) res" where
  "validateHistoryRange sp now fromInput toInput =
     (if parseDayKey fromInput = None \<or> parseDayKey toInput = None then Inl (MarketDataError ''Data invalida'')
      else if fromInput > toInput then Inl (MarketDataError ''Periodo invalido'')
      else if toInput > todayKeyInSaoPaulo sp now then Inl (MarketDataError ''Data futura nao permitida'')
      else
        res_bind (diffDays toInput fromInput) (\<lambda>d.
        res_when (d + 1 > MAX_HISTORY_RANGE_DAYS) (MarketDataError ''O periodo maximo e de 10 anos e 10 dias'')
        (res_bind (dayKeyToDate fromInput Midnight) (\<lambda>from.
         res_bind (dayKeyToDate toInput Midnight) (\<lambda>to.
         Inr (from, to))))))"

section \<open>Completed days\<close>

definition lastCompletedDayKey :: "tz_offset \<Rightarrow> instant \<Rightarrow> day_key res" where
  "lastCompletedDayKey sp now = addDaysToKey (todayKeyInSaoPaulo sp now) (-1)"

text \<open>The loop steps back over a weekend, as in \<open>Piggy_Interest\<close>; three steps are enough.\<close>

definition lastWeekdayOnOrBefore :: "day_key \<Rightarrow> day_key res" where
  "lastWeekdayOnOrBefore k = skip_weekend 3 k"

definition completedPointsOnly :: "tz_offset \<Rightarrow> instant \<Rightarrow> market_point list \<Rightarrow> market_point list res" where
  "completedPointsOnly sp now points =
     res_bind (lastCompletedDayKey sp now) (\<lambda>lastDone. Inr (filter (\<lambda>p. mp_date p \<le> lastDone) points))"

definition isFreshHistory ::
    "tz_offset \<Rightarrow> instant \<Rightarrow> market_point list \<Rightarrow> day_key \<Rightarrow> day_key \<Rightarrow> bool \<Rightarrow> bool res" where
  "isFreshHistory sp now points fromKey toKey businessDaysOnly =
     res_bind (lastCompletedDayKey sp now) (\<lambda>lastDone.
     res_bind (if businessDaysOnly then lastWeekdayOnOrBefore (if toKey < lastDone then toKey else lastDone)
               else Inr (if toKey < lastDone then toKey else lastDone)) (\<lambda>expected.
     if expected < fromKey then Inr True
     else if points = [] then Inr False
     else if mp_date (last points) \<ge> expected then
       res_bind (addDaysToKey fromKey 4) (\<lambda>latestStart. Inr (mp_date (hd points) \<le> latestStart))
     else Inr False))"

section \<open>De-duplication\<close>

text \<open>\<open>Map.set\<close>: a new key goes to the end, a known one keeps its place.\<close>

fun map_set :: "'k \<Rightarrow> 'v \<Rightarrow> ('k \<times> 'v) list \<Rightarrow> ('k \<times> 'v) list" where
  "map_set k v [] = [(k, v)]"
| "map_set k v ((j, w) # m) = (if j = k then (k, v) # m else (j, w) # map_set k v m)"

definition by_day :: "market_point list \<Rightarrow> (day_key \<times> rat) list" where
  "by_day points = foldl (\<lambda>m p. map_set (mp_date p) (mp_value p) m) [] points"

definition compare_points :: "market_point \<Rightarrow> market_point \<Rightarrow> int" where
  "compare_points a b = localeCompare (mp_date a) (mp_date b)"

definition dedupePoints :: "market_point list \<Rightarrow> market_point list" where
  "dedupePoints points = js_sort compare_points (map (\<lambda>(d, v). \<lparr>mp_date = d, mp_value = v\<rparr>) (by_day points))"

section \<open>Lookups\<close>

fun on_or_before :: "(day_key \<times> 'v) list \<Rightarrow> day_key \<Rightarrow> 'v option \<Rightarrow> 'v option" where
  "on_or_before [] day found = found"
| "on_or_before ((k, v) # m) day found = (if k > day then found else on_or_before m day (Some v))"

definition valueOnOrBefore :: "(day_key \<times> 'v) list \<Rightarrow> day_key \<Rightarrow> 'v option" where
  "valueOnOrBefore byDay day =
     (case map_of byDay day of Some exact \<Rightarrow> Some exact | None \<Rightarrow> on_or_before byDay day None)"

text \<open>\<open>createPointCursor\<close>: \<open>pc_next\<close> is the source's \<open>index + 1\<close>, the number of points passed.\<close>

record point_cursor =
  pc_points :: "market_point list"
  pc_next :: nat

definition createPointCursor :: "market_point list \<Rightarrow> point_cursor" where
  "createPointCursor points = \<lparr>pc_points = points, pc_next = 0\<rparr>"

function advance_cursor :: "market_point list \<Rightarrow> day_key \<Rightarrow> nat \<Rightarrow> nat" where
  "advance_cursor points day i =
     (if i < length points \<and> mp_date (points ! i) \<le> day then advance_cursor points day (Suc i) else i)"
  by pat_completeness auto
termination by (relation "measure (\<lambda>(points, day, i). length points - i)") auto

declare advance_cursor.simps [simp del]

definition point_at :: "day_key \<Rightarrow> point_cursor \<Rightarrow> point_cursor \<times> market_point option" where
  "point_at day c =
     (let i = advance_cursor (pc_points c) day (pc_next c) in
      (c\<lparr>pc_next := i\<rparr>, if i > 0 then Some (pc_points c ! (i - 1)) else None))"

section \<open>What the lookups find\<close>

definition sorted_points :: "market_point list \<Rightarrow> bool" where
  "sorted_points ps \<longleftrightarrow> sorted_wrt (\<lambda>p q. mp_date p \<le> mp_date q) ps"

text \<open>The reference: the last point whose day is not after the day asked for.\<close>

definition last_point :: "market_point list \<Rightarrow> day_key \<Rightarrow> market_point option" where
  "last_point ps day =
     (let earlier = filter (\<lambda>p. mp_date p \<le> day) ps in if earlier = [] then None else Some (last earlier))"

definition passed :: "('a \<Rightarrow> day_key) \<Rightarrow> 'a list \<Rightarrow> day_key \<Rightarrow> nat" where
  "passed f xs day = length (takeWhile (\<lambda>x. f x \<le> day) xs)"

lemma passed_mono: "day \<le> day' \<Longrightarrow> passed f xs day \<le> passed f xs day'"
  unfolding passed_def by (induction xs) auto

lemma passed_nth: "i < passed f xs day \<Longrightarrow> i < length xs \<and> f (xs ! i) \<le> day"
proof -
  assume "i < passed f xs day"
  then have i: "i < length (takeWhile (\<lambda>x. f x \<le> day) xs)" by (simp add: passed_def)
  then have "f (takeWhile (\<lambda>x. f x \<le> day) xs ! i) \<le> day" using nth_mem set_takeWhileD by metis
  with i show ?thesis using length_takeWhile_le [of "\<lambda>x. f x \<le> day" xs] by (simp add: takeWhile_nth)
qed

lemma not_passed: "\<not> (passed f xs day < length xs \<and> f (xs ! passed f xs day) \<le> day)"
  using nth_length_takeWhile [of "\<lambda>x. f x \<le> day" xs] by (auto simp: passed_def)

lemma advance_to_passed:
  "i \<le> passed mp_date ps day \<Longrightarrow> advance_cursor ps day i = passed mp_date ps day"
proof (induction ps day i rule: advance_cursor.induct)
  case (1 ps day i)
  show ?case
  proof (cases "i < passed mp_date ps day")
    case True
    with passed_nth [OF True] 1 show ?thesis by (subst advance_cursor.simps) simp
  next
    case False
    with 1(2) have i: "i = passed mp_date ps day" by simp
    with not_passed [of mp_date ps day] have "advance_cursor ps day i = i" by (subst advance_cursor.simps) meson
    with i show ?thesis by simp
  qed
qed

lemma last_point_passed:
  assumes "sorted_points ps"
  shows "last_point ps day = (if passed mp_date ps day > 0 then Some (ps ! (passed mp_date ps day - 1)) else None)"
proof -
  have f: "filter (\<lambda>p. mp_date p \<le> day) ps = takeWhile (\<lambda>p. mp_date p \<le> day) ps"
    using assms by (intro sorted_prefix) (simp add: sorted_points_def)
  have "last (takeWhile (\<lambda>p. mp_date p \<le> day) ps) = ps ! (passed mp_date ps day - 1)"
    if "takeWhile (\<lambda>p. mp_date p \<le> day) ps \<noteq> []"
    using that by (simp add: last_conv_nth passed_def takeWhile_nth)
  then show ?thesis by (simp add: last_point_def f passed_def)
qed

text \<open>A cursor that was last read at an earlier day finds the reference's point.\<close>

lemma point_at_finds:
  assumes "sorted_points (pc_points c)" "pc_next c \<le> passed mp_date (pc_points c) day"
  shows "point_at day c = (c\<lparr>pc_next := passed mp_date (pc_points c) day\<rparr>, last_point (pc_points c) day)"
  using assms by (simp add: point_at_def advance_to_passed last_point_passed Let_def)

lemma last_point_mono: "last_point ps day \<noteq> None \<Longrightarrow> day \<le> day' \<Longrightarrow> last_point ps day' \<noteq> None"
  by (force simp: last_point_def Let_def filter_empty_conv split: if_splits)

section \<open>De-duplicated series\<close>

interpretation point_order: comparator compare_points
  by unfold_locales (auto simp: compare_points_def)

lemma keys_map_set: "set (map fst (map_set k v m)) = insert k (set (map fst m))"
  by (induction k v m rule: map_set.induct) auto

lemma distinct_map_set: "distinct (map fst m) \<Longrightarrow> distinct (map fst (map_set k v m))"
proof (induction k v m rule: map_set.induct)
  case (2 k v j w m)
  then show ?case using keys_map_set [of k v m] by auto
qed simp

lemma map_of_map_set: "map_of (map_set k v m) = (map_of m)(k \<mapsto> v)"
  by (induction k v m rule: map_set.induct) (auto simp: fun_eq_iff)

lemma by_day_snoc: "by_day (ps @ [p]) = map_set (mp_date p) (mp_value p) (by_day ps)"
  by (simp add: by_day_def)

lemma by_day_distinct: "distinct (map fst (by_day ps))"
  by (induction ps rule: rev_induct) (simp_all add: by_day_snoc distinct_map_set, simp add: by_day_def)

lemma map_of_by_day: "map_of (by_day ps) = map_of (rev (map (\<lambda>p. (mp_date p, mp_value p)) ps))"
  by (induction ps rule: rev_induct) (simp_all add: by_day_snoc map_of_map_set, simp add: by_day_def)

text \<open>
  A de-duplicated series has each day once, in ascending order, with the value given last.
\<close>

lemma dedupe_sorted: "sorted_points (dedupePoints ps)"
  using point_order.sort_sorted [of "map (\<lambda>(d, v). \<lparr>mp_date = d, mp_value = v\<rparr>) (by_day ps)"]
  by (simp add: sorted_points_def dedupePoints_def compare_points_def)

lemma mset_dedupe: "mset (map mp_date (dedupePoints ps)) = mset (map fst (by_day ps))"
proof -
  have "mset (map mp_date (dedupePoints ps)) = image_mset mp_date (mset (dedupePoints ps))" by simp
  also have "\<dots> = mset (map mp_date (map (\<lambda>(d, v). \<lparr>mp_date = d, mp_value = v\<rparr>) (by_day ps)))"
    by (simp only: dedupePoints_def mset_js_sort mset_map)
  also have "map mp_date (map (\<lambda>(d, v). \<lparr>mp_date = d, mp_value = v\<rparr>) (by_day ps)) = map fst (by_day ps)"
    by (simp add: comp_def case_prod_beta)
  finally show ?thesis .
qed

lemma dedupe_distinct: "distinct (map mp_date (dedupePoints ps))"
  using by_day_distinct [of ps] mset_dedupe [of ps] by (metis mset_eq_imp_distinct_iff)

lemma dedupe_values:
  "\<lparr>mp_date = d, mp_value = v\<rparr> \<in> set (dedupePoints ps)
    \<longleftrightarrow> map_of (rev (map (\<lambda>p. (mp_date p, mp_value p)) ps)) d = Some v"
proof -
  have "\<lparr>mp_date = d, mp_value = v\<rparr> \<in> set (dedupePoints ps) \<longleftrightarrow> (d, v) \<in> set (by_day ps)"
    by (auto simp: dedupePoints_def)
  also have "\<dots> \<longleftrightarrow> map_of (by_day ps) d = Some v" by (simp add: by_day_distinct)
  finally show ?thesis by (simp add: map_of_by_day)
qed

end
