(* ===== verification/Patrimony_Calc.thy ===== *)
theory Patrimony_Calc
  imports Market_Series Asset_Ledger Expenses
begin

text \<open>
  \<open>backend/src/lib/patrimony-calc.ts\<close>: the cash flows of a user's ledgers and the daily timeline of
  the net worth. The code hands the rows of the database to functions over structural types; here
  they are the rows themselves. Values of points and totals are rationals, which \<open>plainDecimal\<close>
  prints without loss.
\<close>

section \<open>Dates\<close>

definition PatrimonyError :: "string \<Rightarrow> error" where
  "PatrimonyError message = DomainError ''PATRIMONY'' message"

definition parseHistoryDate :: "string \<Rightarrow> instant res" where
  "parseHistoryDate v =
     res_bind (parseCivilDate (JString v) Noon) (\<lambda>date.
     case date of None \<Rightarrow> Inl (PatrimonyError ''Data invalida'') | Some d \<Rightarrow> Inr d)"

definition calculationStart :: "instant \<Rightarrow> instant \<Rightarrow> instant" where
  "calculationStart base today =
     (let earliest = today - (MAX_HISTORY_RANGE_DAYS - 1) * 86400000 in
      if base < earliest then earliest else base)"

definition patrimonyToday :: "tz_offset \<Rightarrow> instant \<Rightarrow> instant res" where
  "patrimonyToday sp now = todayInSaoPaulo sp now"

section \<open>Cash flows\<close>

record cash_flow =
  cf_date :: day_key
  cf_amount :: rat
  cf_external :: bool

definition in_period :: "day_key \<Rightarrow> day_key \<Rightarrow> day_key \<Rightarrow> bool" where
  "in_period baseKey toKey when \<longleftrightarrow> when > baseKey \<and> when \<le> toKey"

text \<open>A flow of an amount on a day, if it is one of the period.\<close>

definition flow_of :: "day_key \<Rightarrow> day_key \<Rightarrow> rat \<Rightarrow> rat \<Rightarrow> day_key \<Rightarrow> bool \<Rightarrow> cash_flow list" where
  "flow_of baseKey toKey amount moved when external =
     (if amount > 0 \<and> in_period baseKey toKey when
      then [\<lparr>cf_date = when, cf_amount = moved, cf_external = external\<rparr>] else [])"

definition cash_part :: "decimal_lib \<Rightarrow> expense_row \<Rightarrow> rat" where
  "cash_part D x = splitShareFor D (x\<lparr>be_splits := map billable_of_snapshot (er_splits x)\<rparr>) TCash"

definition expense_flows ::
    "decimal_lib \<Rightarrow> tz_offset \<Rightarrow> day_key \<Rightarrow> day_key \<Rightarrow> string list \<Rightarrow> expense_row \<Rightarrow> cash_flow list" where
  "expense_flows D sp baseKey toKey internalIds x =
     (let external = er_id x \<notin> set internalIds in
      if er_systemOrigin x \<noteq> ''manual'' then
        (if be_archivedAt x \<noteq> None then []
         else
           (let amount = cash_part D x;
                when = dayKeyInSaoPaulo sp (case be_occurredAt x of Some d \<Rightarrow> d | None \<Rightarrow> be_createdAt x) in
            flow_of baseKey toKey amount (- amount) when False))
      else concat (map (\<lambda>p. flow_of baseKey toKey (ep_amount p) (- ep_amount p)
                              (dayKeyInSaoPaulo sp (ep_paidAt p)) external) (er_payments x)))"

definition entry_flows ::
    "tz_offset \<Rightarrow> day_key \<Rightarrow> day_key \<Rightarrow> string list \<Rightarrow> entry_row \<Rightarrow> cash_flow list" where
  "entry_flows sp baseKey toKey internalIds n =
     (let external = en_id n \<notin> set internalIds in
      if en_systemOrigin n \<noteq> ''manual'' then
        (if en_archivedAt n \<noteq> None then []
         else flow_of baseKey toKey (en_amount n) (en_amount n)
                (dayKeyInSaoPaulo sp (case en_date n of Some d \<Rightarrow> d | None \<Rightarrow> en_createdAt n)) False)
      else concat (map (\<lambda>r. flow_of baseKey toKey (rc_amount r) (rc_amount r)
                              (dayKeyInSaoPaulo sp (rc_receivedAt r)) external) (en_receipts n)))"

definition buildCashFlows ::
    "decimal_lib \<Rightarrow> tz_offset \<Rightarrow> instant \<Rightarrow> instant \<Rightarrow> expense_row list \<Rightarrow> entry_row list
     \<Rightarrow> string list \<Rightarrow> string list \<Rightarrow> cash_flow list" where
  "buildCashFlows D sp baseDate to expenses entries internalExpenseIds internalEntryIds =
     (let baseKey = dayKeyInSaoPaulo sp baseDate; toKey = dayKeyInSaoPaulo sp to in
      concat (map (expense_flows D sp baseKey toKey internalExpenseIds) expenses)
      @ concat (map (entry_flows sp baseKey toKey internalEntryIds) entries))"

section \<open>Running totals\<close>

record running_total =
  rt_items :: "(day_key \<times> rat) list"
  rt_index :: nat
  rt_sum :: rat

definition createRunningTotal :: "(day_key \<times> rat) list \<Rightarrow> running_total" where
  "createRunningTotal items =
     \<lparr>rt_items = js_sort (\<lambda>a b. localeCompare (fst a) (fst b)) items, rt_index = 0, rt_sum = 0\<rparr>"

function advance_total :: "decimal_lib \<Rightarrow> (day_key \<times> rat) list \<Rightarrow> day_key \<Rightarrow> nat \<Rightarrow> rat \<Rightarrow> nat \<times> rat" where
  "advance_total D items day i s =
     (if i < length items \<and> fst (items ! i) \<le> day
      then advance_total D items day (Suc i) (dec_plus D s (snd (items ! i)))
      else (i, s))"
  by pat_completeness auto
termination by (relation "measure (\<lambda>(D, items, day, i, s). length items - i)") auto

declare advance_total.simps [simp del]

definition total_at :: "decimal_lib \<Rightarrow> day_key \<Rightarrow> running_total \<Rightarrow> running_total \<times> rat" where
  "total_at D day rt =
     (let (i, s) = advance_total D (rt_items rt) day (rt_index rt) (rt_sum rt) in
      (rt\<lparr>rt_index := i, rt_sum := s\<rparr>, s))"

definition percentDiff :: "decimal_lib \<Rightarrow> rat \<Rightarrow> rat \<Rightarrow> rat option" where
  "percentDiff D v reference =
     (if reference = 0 then None
      else Some (dec_mul D (dec_div D (dec_minus D v reference) \<bar>reference\<bar>) 100))"

definition withTodayPoint :: "market_point list \<Rightarrow> day_key \<Rightarrow> rat \<Rightarrow> market_point list" where
  "withTodayPoint points todayKey v =
     js_sort compare_points (filter (\<lambda>p. mp_date p \<noteq> todayKey) points @ [\<lparr>mp_date = todayKey, mp_value = v\<rparr>])"

section \<open>The timeline\<close>

record patrimony_row =
  pr_date :: day_key
  pr_patrimonyBrl :: rat
  pr_cashBrl :: rat
  pr_piggyBrl :: rat
  pr_btcBrl :: rat
  pr_usdBrl :: rat
  pr_cdiBrl :: rat
  pr_ipcaBrl :: rat

record patrimony_args =
  pa_storedBaseKey :: day_key
  pa_calculationBaseKey :: day_key
  pa_fromKey :: day_key
  pa_toKey :: day_key
  pa_openingCash :: rat
  pa_flows :: "cash_flow list"
  pa_piggyTransactions :: "piggy_tx list"
  pa_assetTransactions :: "asset_tx list"
  pa_btcPoints :: "market_point list"
  pa_usdPoints :: "market_point list"
  pa_cdiPoints :: "market_point list"
  pa_ipcaPoints :: "market_point list"

definition flows_by_day :: "cash_flow list \<Rightarrow> (day_key \<Rightarrow> cash_flow list option)" where
  "flows_by_day flows =
     foldl (\<lambda>m f. m(cf_date f \<mapsto> (case m (cf_date f) of None \<Rightarrow> [] | Some fs \<Rightarrow> fs) @ [f])) Map.empty flows"

definition value_map :: "market_point list \<Rightarrow> (day_key \<Rightarrow> rat option)" where
  "value_map points = foldl (\<lambda>m p. m(mp_date p \<mapsto> mp_value p)) Map.empty points"

definition piggy_steps :: "tz_offset \<Rightarrow> piggy_tx list \<Rightarrow> (day_key \<times> rat) list" where
  "piggy_steps sp ts = map (\<lambda>t. (dayKeyInSaoPaulo sp (it_date t), signedAmount (le_type t) (le_amount t))) ts"

definition quantity_steps :: "tz_offset \<Rightarrow> asset \<Rightarrow> asset_tx list \<Rightarrow> (day_key \<times> rat) list" where
  "quantity_steps sp a ts =
     map (\<lambda>t. (dayKeyInSaoPaulo sp (as_date t), if as_type t = SELL then - as_quantity t else as_quantity t))
       (filter (\<lambda>t. as_asset t = a) ts)"

text \<open>The mutable variables of the loop, and what its closures hold.\<close>

record timeline =
  tl_cash :: rat
  tl_cdi :: rat
  tl_ipca :: rat
  tl_lastIpca :: "rat option"
  tl_piggy :: running_total
  tl_btcQuantity :: running_total
  tl_usdQuantity :: running_total
  tl_btcPrice :: point_cursor
  tl_usdPrice :: point_cursor

text \<open>The flows and rates of a day after the base day.\<close>

definition day_flows :: "decimal_lib \<Rightarrow> cash_flow list \<Rightarrow> rat \<Rightarrow> rat \<times> rat" where
  "day_flows D flows cash =
     foldl (\<lambda>(c, e) f. (dec_plus D c (cf_amount f), if cf_external f then dec_plus D e (cf_amount f) else e))
       (cash, 0) flows"

definition advance_day ::
    "decimal_lib \<Rightarrow> (day_key \<Rightarrow> cash_flow list option) \<Rightarrow> (day_key \<Rightarrow> rat option) \<Rightarrow> (day_key \<Rightarrow> rat option)
     \<Rightarrow> day_key \<Rightarrow> timeline \<Rightarrow> timeline" where
  "advance_day D flowsByDay cdiMap ipcaMap k st =
     (let (cash, externalFlow) = day_flows D (case flowsByDay k of None \<Rightarrow> [] | Some fs \<Rightarrow> fs) (tl_cash st);
          ipca = (case (ipcaMap k, tl_lastIpca st) of
                    (Some new, Some previous) \<Rightarrow> dec_div D (dec_mul D (tl_ipca st) new) previous
                  | _ \<Rightarrow> tl_ipca st);
          lastIpca = (case ipcaMap k of None \<Rightarrow> tl_lastIpca st | Some new \<Rightarrow> Some new);
          cdi = dec_plus D (tl_cdi st) externalFlow in
      st\<lparr>tl_cash := cash, tl_ipca := dec_plus D ipca externalFlow, tl_lastIpca := lastIpca,
         tl_cdi := (case cdiMap k of None \<Rightarrow> cdi | Some rate \<Rightarrow> dec_mul D cdi (dec_plus D 1 (dec_div D rate 100)))\<rparr>)"

definition row_of_day :: "decimal_lib \<Rightarrow> day_key \<Rightarrow> timeline \<Rightarrow> (timeline \<times> patrimony_row) res" where
  "row_of_day D k st =
     (let (btcPrice, btcQuote) = point_at k (tl_btcPrice st);
          (usdPrice, usdQuote) = point_at k (tl_usdPrice st) in
      case (btcQuote, usdQuote) of
        (Some b, Some u) \<Rightarrow>
          (let (piggy, piggyBalance) = total_at D k (tl_piggy st);
               (btcQuantity, btcUnits) = total_at D k (tl_btcQuantity st);
               (usdQuantity, usdUnits) = total_at D k (tl_usdQuantity st);
               btc = dec_mul D btcUnits (mp_value b);
               usd = dec_mul D usdUnits (mp_value u) in
           Inr (st\<lparr>tl_piggy := piggy, tl_btcQuantity := btcQuantity, tl_usdQuantity := usdQuantity,
                   tl_btcPrice := btcPrice, tl_usdPrice := usdPrice\<rparr>,
                \<lparr>pr_date = k, pr_patrimonyBrl = dec_plus D (dec_plus D (dec_plus D (tl_cash st) piggyBalance) btc) usd,
                 pr_cashBrl = tl_cash st, pr_piggyBrl = piggyBalance, pr_btcBrl = btc, pr_usdBrl = usd,
                 pr_cdiBrl = tl_cdi st, pr_ipcaBrl = tl_ipca st\<rparr>))
      | _ \<Rightarrow> Inl (PatrimonyError (''Cotacao historica ausente em '' @ k)))"

text \<open>The loop over the days; the first argument bounds the number of days.\<close>

fun timeline_days ::
    "nat \<Rightarrow> decimal_lib \<Rightarrow> patrimony_args \<Rightarrow> (day_key \<Rightarrow> cash_flow list option) \<Rightarrow> (day_key \<Rightarrow> rat option) \<Rightarrow> (day_key \<Rightarrow> rat option)
     \<Rightarrow> day_key \<Rightarrow> timeline \<Rightarrow> patrimony_row list res" where
  "timeline_days i D args flowsByDay cdiMap ipcaMap k st =
     (if k \<le> pa_toKey args then
        (case i of
           0 \<Rightarrow> Inl (PlainError ''out of fuel'')
         | Suc i' \<Rightarrow>
             (let st1 = (if k \<noteq> pa_calculationBaseKey args then advance_day D flowsByDay cdiMap ipcaMap k st else st) in
              res_bind (if k \<ge> pa_fromKey args then res_bind (row_of_day D k st1) (\<lambda>(st2, row). Inr (st2, [row]))
                        else Inr (st1, [])) (\<lambda>(st2, row).
              res_bind (addDaysToKey k 1) (\<lambda>k'.
              res_bind (timeline_days i' D args flowsByDay cdiMap ipcaMap k' st2) (\<lambda>rows.
              Inr (row @ rows))))))
      else Inr [])"

declare timeline_days.simps [simp del]

definition start_timeline :: "decimal_lib \<Rightarrow> tz_offset \<Rightarrow> patrimony_args \<Rightarrow> timeline res" where
  "start_timeline D sp args =
     (let baseKey = pa_calculationBaseKey args;
          (btcPrice, baseBtc) = point_at baseKey (createPointCursor (pa_btcPoints args));
          (usdPrice, baseUsd) = point_at baseKey (createPointCursor (pa_usdPoints args)) in
      case (baseBtc, baseUsd) of
        (Some b, Some u) \<Rightarrow>
          (let cash = foldl (\<lambda>c f. if cf_date f > pa_storedBaseKey args \<and> cf_date f \<le> baseKey then dec_plus D c (cf_amount f) else c)
                        (pa_openingCash args) (pa_flows args);
               (piggy, piggyBalance) = total_at D baseKey (createRunningTotal (piggy_steps sp (pa_piggyTransactions args)));
               (btcQuantity, btcUnits) = total_at D baseKey (createRunningTotal (quantity_steps sp BTC (pa_assetTransactions args)));
               (usdQuantity, usdUnits) = total_at D baseKey (createRunningTotal (quantity_steps sp USD (pa_assetTransactions args)));
               baseReal = dec_plus D (dec_plus D (dec_plus D cash piggyBalance) (dec_mul D btcUnits (mp_value b))) (dec_mul D usdUnits (mp_value u));
               (ipcaCursor, found) = point_at baseKey (createPointCursor (pa_ipcaPoints args)) in
           Inr \<lparr>tl_cash = cash, tl_cdi = baseReal, tl_ipca = baseReal, tl_lastIpca = map_option mp_value found,
                tl_piggy = piggy, tl_btcQuantity = btcQuantity, tl_usdQuantity = usdQuantity,
                tl_btcPrice = btcPrice, tl_usdPrice = usdPrice\<rparr>)
      | _ \<Rightarrow> Inl (PatrimonyError ''Historico de cotacao insuficiente para a data-base''))"

text \<open>The days from \<open>key\<close> to \<open>toKey\<close> are at most as many as their numbers are apart.\<close>

definition days_left :: "day_key \<Rightarrow> day_key \<Rightarrow> nat" where
  "days_left k toKey = (case diffDays toKey k of Inl e \<Rightarrow> 0 | Inr d \<Rightarrow> nat (d + 1))"

definition buildPatrimonyRows :: "decimal_lib \<Rightarrow> tz_offset \<Rightarrow> patrimony_args \<Rightarrow> patrimony_row list res" where
  "buildPatrimonyRows D sp args =
     res_bind (start_timeline D sp args) (\<lambda>st.
     timeline_days (days_left (pa_calculationBaseKey args) (pa_toKey args)) D args
       (flows_by_day (pa_flows args)) (value_map (pa_cdiPoints args)) (value_map (pa_ipcaPoints args))
       (pa_calculationBaseKey args) st)"

end
