(* ===== verification/Patrimony_Rows.thy ===== *)
theory Patrimony_Rows
  imports Patrimony_Calc
begin

text \<open>
  The rows of the timeline against their meaning. The code walks the days once with moving pointers
  and running totals; the reference below says of a single day, without any state, what its row is:
  every balance is the sum of the ledger up to that day, every price the last one known.
\<close>

section \<open>Running totals\<close>

text \<open>Sums of steps on one grid that stay within the precision of the decimal library.\<close>

definition exact_steps :: "nat \<Rightarrow> (day_key \<times> rat) list \<Rightarrow> bool" where
  "exact_steps g items \<longleftrightarrow> (\<forall>x \<in> set items. on_grid g (snd x)) \<and> (\<Sum>x \<leftarrow> items. \<bar>snd x\<bar>) * 10 ^ g < 10 ^ 20"

definition steps_until :: "day_key \<Rightarrow> (day_key \<times> rat) list \<Rightarrow> rat" where
  "steps_until day items = (\<Sum>x \<leftarrow> filter (\<lambda>x. fst x \<le> day) items. snd x)"

definition reads_total :: "decimal_lib \<Rightarrow> (day_key \<times> rat) list \<Rightarrow> day_key \<Rightarrow> running_total \<Rightarrow> bool" where
  "reads_total D items day rt \<longleftrightarrow>
     rt_items rt = rt_items (createRunningTotal items) \<and> rt_index rt \<le> passed fst (rt_items rt) day
     \<and> rt_sum rt = foldl (dec_plus D) 0 (map snd (take (rt_index rt) (rt_items rt)))"

lemma reads_total_start: "reads_total D items day (createRunningTotal items)"
  by (simp add: reads_total_def createRunningTotal_def)

lemma reads_total_later: "reads_total D items day rt \<Longrightarrow> day \<le> day' \<Longrightarrow> reads_total D items day' rt"
  using passed_mono [of day day' fst "rt_items rt"] by (auto simp: reads_total_def)

lemma advance_total_passed:
  assumes "i \<le> passed fst items day" "s = foldl (dec_plus D) 0 (map snd (take i items))"
  shows "advance_total D items day i s
    = (passed fst items day, foldl (dec_plus D) 0 (map snd (take (passed fst items day) items)))"
  using assms
proof (induction D items day i s rule: advance_total.induct)
  case (1 D items day i s)
  show ?case
  proof (cases "i < passed fst items day")
    case True
    note p = passed_nth [OF True]
    then have "dec_plus D s (snd (items ! i)) = foldl (dec_plus D) 0 (map snd (take (Suc i) items))"
      using 1(3) by (simp add: take_Suc_conv_app_nth)
    with True p 1(1) show ?thesis by (subst advance_total.simps) simp
  next
    case False
    with 1(2) have i: "i = passed fst items day" by simp
    with not_passed [of fst items day] have "advance_total D items day i s = (i, s)"
      by (subst advance_total.simps) meson
    with i 1(3) show ?thesis by simp
  qed
qed

interpretation day_order: comparator "\<lambda>a b. localeCompare (fst a) (fst b)"
  by unfold_locales auto

lemma sum_list_perm: "mset xs = mset ys \<Longrightarrow> (\<Sum>x \<leftarrow> xs. f x) = (\<Sum>x \<leftarrow> ys. f x)" for f :: "'a \<Rightarrow> rat"
  by (simp add: sum_mset_sum_list [symmetric])

lemma sum_abs_filter: "(\<Sum>x \<leftarrow> filter P xs. \<bar>f x\<bar>) \<le> (\<Sum>x \<leftarrow> xs. \<bar>f x\<bar>)" for f :: "'a \<Rightarrow> rat"
  by (induction xs) auto

lemma sum_abs_filters:
  fixes f :: "'a \<Rightarrow> rat"
  assumes "\<And>x. \<not> (P x \<and> Q x)"
  shows "(\<Sum>x \<leftarrow> filter P xs. \<bar>f x\<bar>) + (\<Sum>x \<leftarrow> filter Q xs. \<bar>f x\<bar>) \<le> (\<Sum>x \<leftarrow> xs. \<bar>f x\<bar>)"
  using assms by (induction xs) (auto simp: algebra_simps)

lemma abs_sum_list: "\<bar>\<Sum>x \<leftarrow> xs. f x\<bar> \<le> (\<Sum>x \<leftarrow> xs. \<bar>f x\<bar>)" for f :: "'a \<Rightarrow> rat"
  by (induction xs) (auto intro: order_trans [OF abs_triangle_ineq])

context decimal_arith
begin

lemma total_at_sum:
  assumes "reads_total D items day rt" "exact_steps g items"
  shows "reads_total D items day (fst (total_at D day rt)) \<and> snd (total_at D day rt) = steps_until day items"
proof -
  let ?xs = "rt_items (createRunningTotal items)"
  have xs: "mset ?xs = mset items" "sorted_wrt (\<lambda>x y. fst x \<le> fst y) ?xs"
    using day_order.sort_sorted [of items] by (simp_all add: createRunningTotal_def)
  have r: "rt_items rt = ?xs" "rt_index rt \<le> passed fst ?xs day"
    "rt_sum rt = foldl (dec_plus D) 0 (map snd (take (rt_index rt) ?xs))"
    using assms(1) by (auto simp: reads_total_def)
  let ?s = "foldl (dec_plus D) 0 (map snd (take (passed fst ?xs day) ?xs))"
  have t: "total_at D day rt = (rt\<lparr>rt_index := passed fst ?xs day, rt_sum := ?s\<rparr>, ?s)"
    using advance_total_passed [OF r(2,3)] by (simp add: total_at_def r(1))
  have f: "take (passed fst ?xs day) ?xs = filter (\<lambda>x. fst x \<le> day) ?xs"
    using sorted_prefix [OF xs(2)] by (simp add: passed_def takeWhile_prefix [symmetric])
  have g: "\<forall>x \<in> set ?xs. on_grid g (snd x)" using assms(2) mset_eq_setD [OF xs(1)] by (auto simp: exact_steps_def)
  have "(\<Sum>x \<leftarrow> filter (\<lambda>x. fst x \<le> day) ?xs. \<bar>snd x\<bar>) \<le> (\<Sum>x \<leftarrow> items. \<bar>snd x\<bar>)"
    using sum_abs_filter [of snd "\<lambda>x. fst x \<le> day" ?xs] sum_list_perm [OF xs(1), of "\<lambda>x. \<bar>snd x\<bar>"] by simp
  then have "(\<Sum>x \<leftarrow> filter (\<lambda>x. fst x \<le> day) ?xs. \<bar>snd x\<bar>) * 10 ^ g \<le> (\<Sum>x \<leftarrow> items. \<bar>snd x\<bar>) * 10 ^ g"
    by (rule mult_right_mono) simp
  then have "(\<Sum>x \<leftarrow> filter (\<lambda>x. fst x \<le> day) ?xs. \<bar>snd x\<bar>) * 10 ^ g < 10 ^ 20"
    using assms(2) unfolding exact_steps_def by (blast intro: le_less_trans)
  then have "?s = 0 + sum_list (map snd (filter (\<lambda>x. fst x \<le> day) ?xs))"
    unfolding f using g by (intro foldl_plus_exact [of _ g]) (auto simp: comp_def)
  also have "\<dots> = steps_until day items"
    using sum_list_perm [of "filter (\<lambda>x. fst x \<le> day) ?xs" "filter (\<lambda>x. fst x \<le> day) items" snd] xs(1)
    by (simp add: steps_until_def)
  finally have "?s = steps_until day items" .
  then show ?thesis by (simp add: t reads_total_def r(1) del: foldl_map)
qed

end

section \<open>The maps of the loop\<close>

lemma flows_by_day_eq:
  "(case flows_by_day fs k of None \<Rightarrow> [] | Some l \<Rightarrow> l) = filter (\<lambda>f. cf_date f = k) fs"
proof (induction fs rule: rev_induct)
  case (snoc f fs)
  then show ?case by (auto simp: flows_by_day_def)
qed (simp add: flows_by_day_def)

lemma value_map_eq: "value_map ps k = map_of (rev (map (\<lambda>p. (mp_date p, mp_value p)) ps)) k"
  by (induction ps rule: rev_induct) (auto simp: value_map_def)

lemma day_flows_eq:
  "day_flows D fs cash = (foldl (dec_plus D) cash (map cf_amount fs),
     foldl (dec_plus D) 0 (map cf_amount (filter cf_external fs)))"
proof -
  have "foldl (\<lambda>(c, e) f. (dec_plus D c (cf_amount f), if cf_external f then dec_plus D e (cf_amount f) else e)) (a, b) fs
    = (foldl (dec_plus D) a (map cf_amount fs), foldl (dec_plus D) b (map cf_amount (filter cf_external fs)))" for a b
    by (induction fs arbitrary: a b) auto
  then show ?thesis by (simp add: day_flows_def)
qed

lemma foldl_if: "foldl (\<lambda>c x. if P x then g c x else c) a xs = foldl g a (filter P xs)"
  by (induction xs arbitrary: a) auto

section \<open>The reference\<close>

text \<open>The flows after the stored base day and up to a day.\<close>

definition cash_on :: "patrimony_args \<Rightarrow> day_key \<Rightarrow> rat" where
  "cash_on args k =
     pa_openingCash args + (\<Sum>f \<leftarrow> filter (\<lambda>f. pa_storedBaseKey args < cf_date f \<and> cf_date f \<le> k) (pa_flows args). cf_amount f)"

definition piggy_on :: "tz_offset \<Rightarrow> patrimony_args \<Rightarrow> day_key \<Rightarrow> rat" where
  "piggy_on sp args k = steps_until k (piggy_steps sp (pa_piggyTransactions args))"

definition units_on :: "tz_offset \<Rightarrow> patrimony_args \<Rightarrow> asset \<Rightarrow> day_key \<Rightarrow> rat" where
  "units_on sp args a k = steps_until k (quantity_steps sp a (pa_assetTransactions args))"

definition asset_points :: "patrimony_args \<Rightarrow> asset \<Rightarrow> market_point list" where
  "asset_points args a = (case a of BTC \<Rightarrow> pa_btcPoints args | USD \<Rightarrow> pa_usdPoints args)"

definition worth_on :: "decimal_lib \<Rightarrow> tz_offset \<Rightarrow> patrimony_args \<Rightarrow> asset \<Rightarrow> day_key \<Rightarrow> rat" where
  "worth_on D sp args a k = dec_mul D (units_on sp args a k) (mp_value (the (last_point (asset_points args a) k)))"

definition patrimony_on :: "decimal_lib \<Rightarrow> tz_offset \<Rightarrow> patrimony_args \<Rightarrow> day_key \<Rightarrow> rat" where
  "patrimony_on D sp args k =
     dec_plus D (dec_plus D (cash_on args k + piggy_on sp args k) (worth_on D sp args BTC k)) (worth_on D sp args USD k)"

text \<open>
  The benchmarks: the patrimony of the base day, to which the external flows of each later day are
  added, grown by the rates of the CDI or by the steps of the IPCA index.
\<close>

definition external_flow :: "decimal_lib \<Rightarrow> patrimony_args \<Rightarrow> day_key \<Rightarrow> rat" where
  "external_flow D args k =
     foldl (dec_plus D) 0 (map cf_amount (filter (\<lambda>f. cf_date f = k \<and> cf_external f) (pa_flows args)))"

definition rate_of_day :: "market_point list \<Rightarrow> day_key \<Rightarrow> rat option" where
  "rate_of_day ps k = map_of (rev (map (\<lambda>p. (mp_date p, mp_value p)) ps)) k"

definition cdi_growth :: "decimal_lib \<Rightarrow> patrimony_args \<Rightarrow> rat \<Rightarrow> day_key \<Rightarrow> rat" where
  "cdi_growth D args b k =
     (let b' = dec_plus D b (external_flow D args k) in
      case rate_of_day (pa_cdiPoints args) k of
        None \<Rightarrow> b'
      | Some rate \<Rightarrow> dec_mul D b' (dec_plus D 1 (dec_div D rate 100)))"

definition ipca_growth :: "decimal_lib \<Rightarrow> patrimony_args \<Rightarrow> rat \<times> rat option \<Rightarrow> day_key \<Rightarrow> rat \<times> rat option" where
  "ipca_growth D args b k =
     (case rate_of_day (pa_ipcaPoints args) k of
        None \<Rightarrow> (dec_plus D (fst b) (external_flow D args k), snd b)
      | Some index \<Rightarrow>
          (dec_plus D (case snd b of None \<Rightarrow> fst b | Some previous \<Rightarrow> dec_div D (dec_mul D (fst b) index) previous)
             (external_flow D args k), Some index))"

definition cdi_on :: "decimal_lib \<Rightarrow> tz_offset \<Rightarrow> patrimony_args \<Rightarrow> int \<Rightarrow> int \<Rightarrow> rat" where
  "cdi_on D sp args base n = foldl (cdi_growth D args) (patrimony_on D sp args (key base)) (map key [base + 1..n])"

definition ipca_on :: "decimal_lib \<Rightarrow> tz_offset \<Rightarrow> patrimony_args \<Rightarrow> int \<Rightarrow> int \<Rightarrow> rat \<times> rat option" where
  "ipca_on D sp args base n =
     foldl (ipca_growth D args)
       (patrimony_on D sp args (key base), map_option mp_value (last_point (pa_ipcaPoints args) (key base)))
       (map key [base + 1..n])"

definition reference_row :: "decimal_lib \<Rightarrow> tz_offset \<Rightarrow> patrimony_args \<Rightarrow> int \<Rightarrow> int \<Rightarrow> patrimony_row" where
  "reference_row D sp args base n =
     \<lparr>pr_date = key n, pr_patrimonyBrl = patrimony_on D sp args (key n), pr_cashBrl = cash_on args (key n),
      pr_piggyBrl = piggy_on sp args (key n), pr_btcBrl = worth_on D sp args BTC (key n),
      pr_usdBrl = worth_on D sp args USD (key n), pr_cdiBrl = cdi_on D sp args base n,
      pr_ipcaBrl = fst (ipca_on D sp args base n)\<rparr>"

end
