(* ===== verification/Patrimony_Timeline.thy ===== *)
theory Patrimony_Timeline
  imports Patrimony_Rows
begin

text \<open>
  The walk over the days computes the reference rows. \<open>sound_inputs\<close> collects what the caller
  guarantees: real days, whole cents, quantities of at most twelve decimals, sorted series, and
  magnitudes within the 20 digits of the decimal library.
\<close>

section \<open>What the caller guarantees\<close>

definition sound_inputs :: "tz_offset \<Rightarrow> patrimony_args \<Rightarrow> int \<Rightarrow> int \<Rightarrow> int \<Rightarrow> bool" where
  "sound_inputs sp args base from to \<longleftrightarrow>
     pa_calculationBaseKey args = key base \<and> pa_fromKey args = key from \<and> pa_toKey args = key to
     \<and> ok_day base \<and> ok_day from \<and> ok_day to \<and> ok_day (to + 1) \<and> pa_storedBaseKey args \<le> key base
     \<and> (\<forall>f \<in> set (pa_flows args). \<exists>m. ok_day m \<and> cf_date f = key m)
     \<and> cents (pa_openingCash args) \<and> (\<forall>f \<in> set (pa_flows args). cents (cf_amount f))
     \<and> \<bar>pa_openingCash args\<bar> + (\<Sum>f \<leftarrow> pa_flows args. \<bar>cf_amount f\<bar>)
         + (\<Sum>x \<leftarrow> piggy_steps sp (pa_piggyTransactions args). \<bar>snd x\<bar>) < 10 ^ 18
     \<and> exact_steps 2 (piggy_steps sp (pa_piggyTransactions args))
     \<and> (\<forall>a. exact_steps 12 (quantity_steps sp a (pa_assetTransactions args)))
     \<and> (\<forall>a. sorted_points (asset_points args a)) \<and> sorted_points (pa_ipcaPoints args)"

lemma sound_inputsD:
  assumes "sound_inputs sp args base from to"
  shows "pa_calculationBaseKey args = key base" "pa_fromKey args = key from" "pa_toKey args = key to"
    "ok_day base" "ok_day from" "ok_day to" "ok_day (to + 1)" "pa_storedBaseKey args \<le> key base"
    "\<And>f. f \<in> set (pa_flows args) \<Longrightarrow> \<exists>m. ok_day m \<and> cf_date f = key m"
    "cents (pa_openingCash args)" "\<And>f. f \<in> set (pa_flows args) \<Longrightarrow> cents (cf_amount f)"
    "\<bar>pa_openingCash args\<bar> + (\<Sum>f \<leftarrow> pa_flows args. \<bar>cf_amount f\<bar>)
         + (\<Sum>x \<leftarrow> piggy_steps sp (pa_piggyTransactions args). \<bar>snd x\<bar>) < 10 ^ 18"
    "exact_steps 2 (piggy_steps sp (pa_piggyTransactions args))"
    "exact_steps 12 (quantity_steps sp a (pa_assetTransactions args))"
    "sorted_points (asset_points args a)" "sorted_points (pa_ipcaPoints args)"
  using assms by (auto simp: sound_inputs_def)

lemma days_between_ok: "ok_day a \<Longrightarrow> ok_day b \<Longrightarrow> a \<le> n \<Longrightarrow> n \<le> b \<Longrightarrow> ok_day n"
  by (simp add: ok_day_def)

text \<open>Both assets have a price on or before the base day.\<close>

definition priced :: "patrimony_args \<Rightarrow> int \<Rightarrow> bool" where
  "priced args base \<longleftrightarrow> (\<forall>a. last_point (asset_points args a) (key base) \<noteq> None)"

definition on_course ::
    "decimal_lib \<Rightarrow> tz_offset \<Rightarrow> patrimony_args \<Rightarrow> int \<Rightarrow> int \<Rightarrow> day_key \<Rightarrow> timeline \<Rightarrow> bool" where
  "on_course D sp args base n k st \<longleftrightarrow>
     tl_cash st = cash_on args (key n) \<and> tl_cdi st = cdi_on D sp args base n
     \<and> (tl_ipca st, tl_lastIpca st) = ipca_on D sp args base n
     \<and> reads_total D (piggy_steps sp (pa_piggyTransactions args)) k (tl_piggy st)
     \<and> reads_total D (quantity_steps sp BTC (pa_assetTransactions args)) k (tl_btcQuantity st)
     \<and> reads_total D (quantity_steps sp USD (pa_assetTransactions args)) k (tl_usdQuantity st)
     \<and> pc_points (tl_btcPrice st) = asset_points args BTC \<and> pc_next (tl_btcPrice st) \<le> passed mp_date (asset_points args BTC) k
     \<and> pc_points (tl_usdPrice st) = asset_points args USD \<and> pc_next (tl_usdPrice st) \<le> passed mp_date (asset_points args USD) k"

lemma on_course_later: "on_course D sp args base n k st \<Longrightarrow> k \<le> k' \<Longrightarrow> on_course D sp args base n k' st"
  unfolding on_course_def using reads_total_later passed_mono [of k k' mp_date] order_trans by (metis (no_types, lifting))

section \<open>One day\<close>

lemma flow_days:
  assumes "sound_inputs sp args base from to" "f \<in> set (pa_flows args)" "ok_day n" "ok_day (n - 1)"
  shows "cf_date f \<le> key n \<longleftrightarrow> cf_date f \<le> key (n - 1) \<or> cf_date f = key n" "cf_date f = key n \<Longrightarrow> \<not> cf_date f \<le> key (n - 1)"
proof -
  obtain m where m: "ok_day m" "cf_date f = key m" using sound_inputsD(9) [OF assms(1,2)] by blast
  show "cf_date f \<le> key n \<longleftrightarrow> cf_date f \<le> key (n - 1) \<or> cf_date f = key n"
    using m assms(3,4) by (auto simp: key_le key_eq)
  show "cf_date f = key n \<Longrightarrow> \<not> cf_date f \<le> key (n - 1)"
    using m assms(3,4) by (auto simp: key_le key_eq)
qed

lemma sum_filter_or:
  fixes g :: "'a \<Rightarrow> rat"
  assumes "\<And>x. x \<in> set xs \<Longrightarrow> \<not> (P x \<and> Q x)"
  shows "(\<Sum>x \<leftarrow> filter (\<lambda>x. P x \<or> Q x) xs. g x) = (\<Sum>x \<leftarrow> filter P xs. g x) + (\<Sum>x \<leftarrow> filter Q xs. g x)"
  using assms by (induction xs) auto

lemma upto_last: "lo \<le> hi \<Longrightarrow> [lo..hi] = [lo..hi - 1] @ [hi]" for lo hi :: int
  by (rule upto_rec2)

context decimal_arith
begin

text \<open>Adding the flows of a day to the cash of the day before is exact.\<close>

lemma cash_next_day:
  assumes inp: "sound_inputs sp args base from to" and n: "ok_day n" "ok_day (n - 1)" "base < n"
  shows "foldl (dec_plus D) (cash_on args (key (n - 1))) (map cf_amount (filter (\<lambda>f. cf_date f = key n) (pa_flows args)))
    = cash_on args (key n)"
proof -
  note inp' = sound_inputsD [OF inp]
  let ?P = "\<lambda>f. pa_storedBaseKey args < cf_date f \<and> cf_date f \<le> key (n - 1)"
  let ?Q = "\<lambda>f. cf_date f = key n"
  let ?fs = "pa_flows args"
  have base: "key base < key n" using n inp'(4) by (simp add: key_less key_le)
  have "filter (\<lambda>f. pa_storedBaseKey args < cf_date f \<and> cf_date f \<le> key n) ?fs = filter (\<lambda>f. ?P f \<or> ?Q f) ?fs"
    using flow_days(1) [OF inp _ n(1,2)] base inp'(8) by (intro filter_cong) auto
  moreover have d: "\<not> (?P f \<and> ?Q f)" if "f \<in> set ?fs" for f using flow_days(2) [OF inp that n(1,2)] by auto
  ultimately have next_day: "cash_on args (key n) = cash_on args (key (n - 1)) + (\<Sum>f \<leftarrow> filter ?Q ?fs. cf_amount f)"
    using sum_filter_or [of ?fs ?P ?Q cf_amount] by (simp add: cash_on_def)
  have split: "(\<Sum>f \<leftarrow> filter (\<lambda>f. ?P f \<and> \<not> ?Q f) ?fs. \<bar>cf_amount f\<bar>) + (\<Sum>f \<leftarrow> filter ?Q ?fs. \<bar>cf_amount f\<bar>)
      \<le> (\<Sum>f \<leftarrow> ?fs. \<bar>cf_amount f\<bar>)"
    by (rule sum_abs_filters) auto
  have P: "filter (\<lambda>f. ?P f \<and> \<not> ?Q f) ?fs = filter ?P ?fs" using d by (intro filter_cong) auto
  have "\<bar>cash_on args (key (n - 1))\<bar> \<le> \<bar>pa_openingCash args\<bar> + (\<Sum>f \<leftarrow> filter ?P ?fs. \<bar>cf_amount f\<bar>)"
    unfolding cash_on_def by (rule order_trans [OF abs_triangle_ineq]) (intro add_left_mono abs_sum_list)
  moreover have "0 \<le> (\<Sum>x \<leftarrow> piggy_steps sp (pa_piggyTransactions args). \<bar>snd x\<bar>)" by (rule sum_list_nonneg) auto
  ultimately have "\<bar>cash_on args (key (n - 1))\<bar> + (\<Sum>f \<leftarrow> filter ?Q ?fs. \<bar>cf_amount f\<bar>) < 10 ^ 18"
    using split [unfolded P] inp'(12) by linarith
  then have bound: "(\<bar>cash_on args (key (n - 1))\<bar> + sum_list (map abs (map cf_amount (filter ?Q ?fs)))) * 10 ^ 2 < 10 ^ 20"
    by (simp add: comp_def)
  have c: "cents (cash_on args (key (n - 1)))"
    unfolding cash_on_def using inp'(10,11) by (auto intro!: on_grid_plus on_grid_sum_list)
  have "foldl (dec_plus D) (cash_on args (key (n - 1))) (map cf_amount (filter ?Q ?fs))
      = cash_on args (key (n - 1)) + sum_list (map cf_amount (filter ?Q ?fs))"
    using inp'(11) by (intro foldl_plus_exact [OF _ c bound]) auto
  with next_day show ?thesis by simp
qed

lemma advance_day_course:
  assumes inp: "sound_inputs sp args base from to" and n: "ok_day n" "ok_day (n - 1)" "base < n"
    and st: "on_course D sp args base (n - 1) k st"
  shows "on_course D sp args base n k
    (advance_day D (flows_by_day (pa_flows args)) (value_map (pa_cdiPoints args)) (value_map (pa_ipcaPoints args)) (key n) st)"
proof -
  have up: "[base + 1..n] = [base + 1..n - 1] @ [n]" using n(3) by (intro upto_last) simp
  have ext: "foldl (dec_plus D) 0 (map cf_amount (filter (\<lambda>f. cf_date f = key n \<and> cf_external f) (pa_flows args)))
      = external_flow D args (key n)"
    by (simp only: external_flow_def)
  have cdi: "cdi_on D sp args base n = cdi_growth D args (cdi_on D sp args base (n - 1)) (key n)"
    by (simp add: cdi_on_def up)
  have ipca: "ipca_on D sp args base n = ipca_growth D args (ipca_on D sp args base (n - 1)) (key n)"
    by (simp add: ipca_on_def up)
  obtain b l where i: "ipca_on D sp args base (n - 1) = (b, l)" by (cases "ipca_on D sp args base (n - 1)")
  show ?thesis
    using st cash_next_day [OF inp n]
    by (simp add: on_course_def advance_day_def flows_by_day_eq day_flows_eq ext cdi ipca i cdi_growth_def ipca_growth_def
        value_map_eq rate_of_day_def Let_def split: option.split)
qed

lemma liquid_exact:
  assumes inp: "sound_inputs sp args base from to"
  shows "dec_plus D (cash_on args k) (piggy_on sp args k) = cash_on args k + piggy_on sp args k"
proof -
  note inp' = sound_inputsD [OF inp]
  let ?fs = "pa_flows args" and ?ps = "piggy_steps sp (pa_piggyTransactions args)"
  have "\<bar>cash_on args k\<bar> \<le> \<bar>pa_openingCash args\<bar> + (\<Sum>f \<leftarrow> ?fs. \<bar>cf_amount f\<bar>)"
    unfolding cash_on_def
    by (rule order_trans [OF abs_triangle_ineq]) (intro add_left_mono order_trans [OF abs_sum_list sum_abs_filter])
  moreover have "\<bar>piggy_on sp args k\<bar> \<le> (\<Sum>x \<leftarrow> ?ps. \<bar>snd x\<bar>)"
    unfolding piggy_on_def steps_until_def by (rule order_trans [OF abs_sum_list sum_abs_filter])
  moreover have "cents (cash_on args k)" unfolding cash_on_def using inp'(10,11) by (auto intro!: on_grid_plus on_grid_sum_list)
  moreover have "cents (piggy_on sp args k)"
    unfolding piggy_on_def steps_until_def using inp'(13) by (auto simp: exact_steps_def intro!: on_grid_sum_list)
  ultimately show ?thesis
    using inp'(12) by (intro plus_cents) (auto intro: le_less_trans [OF abs_triangle_ineq])
qed

lemma row_of_day_course:
  assumes inp: "sound_inputs sp args base from to" and p: "priced args base" and n: "ok_day n" "base \<le> n"
    and st: "on_course D sp args base n (key n) st"
  shows "\<exists>st'. row_of_day D (key n) st = Inr (st', reference_row D sp args base n) \<and> on_course D sp args base n (key n) st'"
proof -
  note inp' = sound_inputsD [OF inp]
  note course = st [unfolded on_course_def]
  have "key base \<le> key n" using n inp'(4) by (simp add: key_less key_le)
  then have some: "last_point (asset_points args a) (key n) \<noteq> None" for a
    using p last_point_mono [OF _ \<open>key base \<le> key n\<close>] unfolding priced_def by blast
  obtain b u where bu: "last_point (asset_points args BTC) (key n) = Some b" "last_point (asset_points args USD) (key n) = Some u"
    using some [of BTC] some [of USD] by auto
  have price: "point_at (key n) (tl_btcPrice st) = ((tl_btcPrice st)\<lparr>pc_next := passed mp_date (asset_points args BTC) (key n)\<rparr>, Some b)"
    "point_at (key n) (tl_usdPrice st) = ((tl_usdPrice st)\<lparr>pc_next := passed mp_date (asset_points args USD) (key n)\<rparr>, Some u)"
    using course point_at_finds [of "tl_btcPrice st" "key n"] point_at_finds [of "tl_usdPrice st" "key n"] inp'(15) bu by simp_all
  obtain pg x bq y uq z where tot: "total_at D (key n) (tl_piggy st) = (pg, x)"
    "total_at D (key n) (tl_btcQuantity st) = (bq, y)" "total_at D (key n) (tl_usdQuantity st) = (uq, z)"
    by (meson surj_pair)
  have sums: "reads_total D (piggy_steps sp (pa_piggyTransactions args)) (key n) pg" "x = piggy_on sp args (key n)"
    "reads_total D (quantity_steps sp BTC (pa_assetTransactions args)) (key n) bq" "y = units_on sp args BTC (key n)"
    "reads_total D (quantity_steps sp USD (pa_assetTransactions args)) (key n) uq" "z = units_on sp args USD (key n)"
    using total_at_sum [of _ "key n" "tl_piggy st" 2] total_at_sum [of _ "key n" "tl_btcQuantity st" 12]
      total_at_sum [of _ "key n" "tl_usdQuantity st" 12] inp'(13,14) course tot
    by (auto simp: piggy_on_def units_on_def)
  let ?k = "key n"
  note liquid = liquid_exact [OF inp, of ?k]
  have "row_of_day D ?k st = Inr (st\<lparr>tl_piggy := pg, tl_btcQuantity := bq, tl_usdQuantity := uq,
      tl_btcPrice := (tl_btcPrice st)\<lparr>pc_next := passed mp_date (asset_points args BTC) ?k\<rparr>,
      tl_usdPrice := (tl_usdPrice st)\<lparr>pc_next := passed mp_date (asset_points args USD) ?k\<rparr>\<rparr>, reference_row D sp args base n)"
    using course by (simp add: row_of_day_def liquid price tot reference_row_def patrimony_on_def worth_on_def sums(2,4,6) bu)
      (metis fst_conv)
  moreover have "on_course D sp args base n ?k (st\<lparr>tl_piggy := pg, tl_btcQuantity := bq, tl_usdQuantity := uq,
      tl_btcPrice := (tl_btcPrice st)\<lparr>pc_next := passed mp_date (asset_points args BTC) ?k\<rparr>,
      tl_usdPrice := (tl_usdPrice st)\<lparr>pc_next := passed mp_date (asset_points args USD) ?k\<rparr>\<rparr>)"
    using course sums(1,3,5) by (simp add: on_course_def)
  ultimately show ?thesis by blast
qed

end

section \<open>The whole walk\<close>

lemma priced_both:
  "priced args base \<longleftrightarrow> last_point (pa_btcPoints args) (key base) \<noteq> None \<and> last_point (pa_usdPoints args) (key base) \<noteq> None"
proof -
  have "(\<forall>a. P a) \<longleftrightarrow> P BTC \<and> P USD" for P by (metis asset.exhaust)
  then show ?thesis by (simp add: priced_def asset_points_def)
qed

context decimal_arith
begin

lemma timeline_days_rows:
  assumes inp: "sound_inputs sp args base from to" and p: "priced args base"
    and n: "base \<le> n" "n \<le> to + 1" "nat (to + 1 - n) \<le> i"
    and st: "on_course D sp args base (max base (n - 1)) (key n) st"
  shows "timeline_days i D args (flows_by_day (pa_flows args)) (value_map (pa_cdiPoints args)) (value_map (pa_ipcaPoints args)) (key n) st
    = Inr (map (reference_row D sp args base) [max n from..to])"
  using n st
proof (induction i arbitrary: n st)
  case 0
  then have "n = to + 1" by simp
  moreover have "\<not> key (to + 1) \<le> key to" using sound_inputsD(6,7) [OF inp] by (simp add: key_le)
  ultimately show ?case using sound_inputsD(3) [OF inp] by (subst timeline_days.simps) simp
next
  case (Suc i)
  note inp' = sound_inputsD [OF inp]
  show ?case
  proof (cases "n = to + 1")
    case True
    moreover have "\<not> key (to + 1) \<le> key to" using inp'(6,7) by (simp add: key_le)
    ultimately show ?thesis using inp'(3) by (subst timeline_days.simps) simp
  next
    case False
    with Suc.prems have n: "n \<le> to" by simp
    then have ok: "ok_day n" "ok_day (n + 1)" using inp'(4,7) Suc.prems(1) days_between_ok [of base "to + 1"] by simp_all
    let ?F = "flows_by_day (pa_flows args)" and ?C = "value_map (pa_cdiPoints args)" and ?I = "value_map (pa_ipcaPoints args)"
    let ?st = "if key n \<noteq> pa_calculationBaseKey args then advance_day D ?F ?C ?I (key n) st else st"
    have course: "on_course D sp args base n (key n) ?st"
    proof (cases "n = base")
      case True
      then show ?thesis using Suc.prems(4) inp'(1) by simp
    next
      case False
      with Suc.prems(1) have "base < n" by simp
      moreover from this have "ok_day (n - 1)" using ok(1) inp'(4) days_between_ok [of base n] by simp
      moreover have "max base (n - 1) = n - 1" using \<open>base < n\<close> by simp
      moreover have "key n \<noteq> pa_calculationBaseKey args" using False ok(1) inp'(1,4) by (simp add: key_eq)
      ultimately show ?thesis using advance_day_course [OF inp ok(1)] Suc.prems(4) by simp
    qed
    have step: "\<exists>st'. (if pa_fromKey args \<le> key n then res_bind (row_of_day D (key n) ?st) (\<lambda>(st2, row). Inr (st2, [row])) else Inr (?st, []))
        = Inr (st', if from \<le> n then [reference_row D sp args base n] else []) \<and> on_course D sp args base n (key n) st'"
    proof (cases "from \<le> n")
      case True
      then show ?thesis
        using row_of_day_course [OF inp p ok(1) Suc.prems(1) course] inp'(2,5) ok(1) by (auto simp: key_le simp del: if_split)
    next
      case False
      then show ?thesis using course inp'(2,5) ok(1) by (simp add: key_le)
    qed
    then obtain st' where st': "(if pa_fromKey args \<le> key n then res_bind (row_of_day D (key n) ?st) (\<lambda>(st2, row). Inr (st2, [row])) else Inr (?st, []))
        = Inr (st', if from \<le> n then [reference_row D sp args base n] else [])" "on_course D sp args base n (key n) st'"
      by blast
    have "key n \<le> key (n + 1)" using ok by (simp add: key_le)
    then have course': "on_course D sp args base (max base (n + 1 - 1)) (key (n + 1)) st'"
      using on_course_later [OF st'(2)] Suc.prems(1) by (simp add: max_def)
    have rows: "timeline_days i D args ?F ?C ?I (key (n + 1)) st' = Inr (map (reference_row D sp args base) [max (n + 1) from..to])"
      using Suc.prems n by (intro Suc.IH [OF _ _ _ course']) simp_all
    have "[max n from..to] = (if from \<le> n then [n] else []) @ [max (n + 1) from..to]"
      using n by (simp add: max_def upto_split)
    moreover have "key n \<le> pa_toKey args" using n ok(1) inp'(3,6) by (simp add: key_le)
    ultimately show ?thesis
      using st'(1) rows addDaysToKey_key [OF ok(1), of 1] by (subst timeline_days.simps) (simp add: Let_def)
  qed
qed

lemma start_on_course:
  assumes inp: "sound_inputs sp args base from to"
  shows "if priced args base then \<exists>st. start_timeline D sp args = Inr st \<and> on_course D sp args base base (key base) st
    else start_timeline D sp args = Inl (PatrimonyError ''Historico de cotacao insuficiente para a data-base'')"
proof -
  note inp' = sound_inputsD [OF inp]
  let ?k = "key base"
  have pt: "point_at ?k (createPointCursor ps) = (\<lparr>pc_points = ps, pc_next = passed mp_date ps ?k\<rparr>, last_point ps ?k)" if "sorted_points ps" for ps
    using point_at_finds [of "createPointCursor ps" ?k] that by (simp add: createPointCursor_def)
  have pts: "sorted_points (pa_btcPoints args)" "sorted_points (pa_usdPoints args)"
    using inp'(15) [of BTC] inp'(15) [of USD] by (simp_all add: asset_points_def)
  have tot: "reads_total D items ?k (fst (total_at D ?k (createRunningTotal items))) \<and> snd (total_at D ?k (createRunningTotal items)) = steps_until ?k items"
    if "exact_steps g items" for g items
    by (rule total_at_sum [OF reads_total_start that])
  have cash: "foldl (\<lambda>c f. if cf_date f > pa_storedBaseKey args \<and> cf_date f \<le> ?k then dec_plus D c (cf_amount f) else c)
      (pa_openingCash args) (pa_flows args) = cash_on args ?k"
  proof -
    let ?fs = "filter (\<lambda>f. pa_storedBaseKey args < cf_date f \<and> cf_date f \<le> ?k) (pa_flows args)"
    have "0 \<le> (\<Sum>x \<leftarrow> piggy_steps sp (pa_piggyTransactions args). \<bar>snd x\<bar>)" by (rule sum_list_nonneg) auto
    then have "\<bar>pa_openingCash args\<bar> + (\<Sum>f \<leftarrow> ?fs. \<bar>cf_amount f\<bar>) < 10 ^ 18"
      using inp'(12) sum_abs_filter [of cf_amount "\<lambda>f. pa_storedBaseKey args < cf_date f \<and> cf_date f \<le> ?k" "pa_flows args"] by linarith
    then have "(\<bar>pa_openingCash args\<bar> + sum_list (map abs (map cf_amount ?fs))) * 10 ^ 2 < 10 ^ 20" by (simp add: comp_def)
    then have "foldl (dec_plus D) (pa_openingCash args) (map cf_amount ?fs) = cash_on args ?k"
      unfolding cash_on_def using inp'(10,11) by (intro foldl_plus_exact [of _ 2]) auto
    then show ?thesis by (simp add: foldl_if foldl_map)
  qed
  show ?thesis
  proof (cases "priced args base")
    case False
    then have "last_point (pa_btcPoints args) ?k = None \<or> last_point (pa_usdPoints args) ?k = None"
      by (auto simp: priced_both)
    with False show ?thesis
      by (cases "last_point (pa_btcPoints args) ?k") (auto simp: start_timeline_def inp'(1) pt [OF pts(1)] pt [OF pts(2)] Let_def)
  next
    case True
    then obtain b u where bu: "last_point (pa_btcPoints args) ?k = Some b" "last_point (pa_usdPoints args) ?k = Some u"
      by (auto simp: priced_both)
    obtain pg x bq y uq z where tots: "total_at D ?k (createRunningTotal (piggy_steps sp (pa_piggyTransactions args))) = (pg, x)"
      "total_at D ?k (createRunningTotal (quantity_steps sp BTC (pa_assetTransactions args))) = (bq, y)"
      "total_at D ?k (createRunningTotal (quantity_steps sp USD (pa_assetTransactions args))) = (uq, z)"
      by (meson surj_pair)
    then have sums: "reads_total D (piggy_steps sp (pa_piggyTransactions args)) ?k pg" "x = piggy_on sp args ?k"
      "reads_total D (quantity_steps sp BTC (pa_assetTransactions args)) ?k bq" "y = units_on sp args BTC ?k"
      "reads_total D (quantity_steps sp USD (pa_assetTransactions args)) ?k uq" "z = units_on sp args USD ?k"
      using tot [OF inp'(13)] tot [OF inp'(14) [of BTC]] tot [OF inp'(14) [of USD]] by (auto simp: piggy_on_def units_on_def)
    have real: "dec_plus D (dec_plus D (dec_plus D (cash_on args ?k) x) (dec_mul D y (mp_value b))) (dec_mul D z (mp_value u))
        = patrimony_on D sp args ?k"
      by (simp add: sums liquid_exact [OF inp] patrimony_on_def worth_on_def asset_points_def bu)
    have "start_timeline D sp args = Inr \<lparr>tl_cash = cash_on args ?k, tl_cdi = patrimony_on D sp args ?k, tl_ipca = patrimony_on D sp args ?k,
        tl_lastIpca = map_option mp_value (last_point (pa_ipcaPoints args) ?k), tl_piggy = pg, tl_btcQuantity = bq, tl_usdQuantity = uq,
        tl_btcPrice = \<lparr>pc_points = pa_btcPoints args, pc_next = passed mp_date (pa_btcPoints args) ?k\<rparr>,
        tl_usdPrice = \<lparr>pc_points = pa_usdPoints args, pc_next = passed mp_date (pa_usdPoints args) ?k\<rparr>\<rparr>"
      by (simp add: start_timeline_def inp'(1) pt pts inp'(16) bu tots cash real Let_def)
    with True show ?thesis using sums by (simp add: on_course_def cdi_on_def ipca_on_def asset_points_def)
  qed
qed

end

section \<open>The rows\<close>

lemma timeline_rows:
  assumes "decimal_arith D" "sound_inputs sp args base from to"
  shows "buildPatrimonyRows D sp args =
    (if priced args base then Inr (map (reference_row D sp args base) [max base from..to])
     else Inl (PatrimonyError ''Historico de cotacao insuficiente para a data-base''))"
proof (cases "priced args base")
  case False
  with decimal_arith.start_on_course [OF assms] show ?thesis by (simp add: buildPatrimonyRows_def)
next
  case True
  note inp = sound_inputsD [OF assms(2)]
  obtain st where st: "start_timeline D sp args = Inr st" "on_course D sp args base base (key base) st"
    using decimal_arith.start_on_course [OF assms] True by auto
  have left: "days_left (key base) (key to) = nat (to + 1 - base)"
    using diffDays_key [OF inp(6,4)] by (simp add: days_left_def add.commute)
  show ?thesis
  proof (cases "base \<le> to + 1")
    case le: True
    have "max base (base - 1) = base" by simp
    then show ?thesis
      using decimal_arith.timeline_days_rows [OF assms True order_refl le order_refl, of st] st True
      by (simp add: buildPatrimonyRows_def inp(1,3) left)
  next
    case False
    then have "\<not> key base \<le> key to" using inp(4,6) by (simp add: key_le)
    with st True False show ?thesis by (simp add: buildPatrimonyRows_def inp(1,3) timeline_days.simps)
  qed
qed

section \<open>Properties\<close>

text \<open>C13. The timeline of the net worth says what the ledgers say. Although the code walks the days once
  with moving pointers and running totals, it returns exactly one row for every day of the period, in
  order, and each row is that of the reference, which looks at one day alone: the cash is the opening
  cash and the flows up to the day, the piggy banks and the units of an asset are the sums of their
  movements up to the day, and the prices the last ones known. It fails only when an asset has no price
  on or before the base day; once the base day is priced no later day lacks a price.\<close>

theorem timeline_is_ledger_sums:
  assumes "decimal_arith D" "sound_inputs sp args base from to"
  shows "buildPatrimonyRows D sp args =
    (if priced args base then Inr (map (reference_row D sp args base) [max base from..to])
     else Inl (PatrimonyError ''Historico de cotacao insuficiente para a data-base''))"
  using assms by (rule timeline_rows)

end
