(* ===== verification/Http_Errors.thy ===== *)
theory Http_Errors
  imports Prelude
begin

text \<open>
  \<open>backend/src/http/errors.ts\<close>: the answer to an error. The classes of the code are the constructors
  of \<open>error\<close>; a domain error is known by its code, and a coded one carries its code as its message.
  The errors of the database client and of the body parser are not values of the model.
\<close>

type_synonym http_error = "nat \<times> string"

definition PIGGY_ERROR_RESPONSES :: "(string \<times> http_error) list" where
  "PIGGY_ERROR_RESPONSES =
     [(''NOT_FOUND'', (404, ''Cofre nao encontrado'')),
      (''ARCHIVED'', (400, ''Cofre arquivado'')),
      (''ALREADY_COMPLETE'', (400, ''Meta ja atingida'')),
      (''INSUFFICIENT_BALANCE'', (400, ''Saldo insuficiente no cofre'')),
      (''INVALID_TARGET_DATE'', (400, ''Data de conclusao invalida'')),
      (''PAST_TARGET_DATE'', (400, ''Data de conclusao invalida''))]"

definition INTERNAL_ERROR_MESSAGE :: string where
  "INTERNAL_ERROR_MESSAGE = ''Internal server error''"

fun resolveKnownError :: "error \<Rightarrow> http_error option" where
  "resolveKnownError (BadRequest m) = Some (400, m)"
| "resolveKnownError (NotFound m) = Some (404, m)"
| "resolveKnownError (Conflict m) = Some (409, m)"
| "resolveKnownError (ServiceUnavailable m) = Some (503, m)"
| "resolveKnownError (DomainError code m) =
     (if code = m then map_of PIGGY_ERROR_RESPONSES code
      else if code = ''MARKET_DATA'' then Some (503, m)
      else if code = ''EXTERNAL_JSON_TOO_LARGE'' then Some (503, ''Provedor de dados indisponivel'')
      else Some (400, m))"
| "resolveKnownError (RangeError m) = None"
| "resolveKnownError (PlainError m) = None"

definition resolveHttpError :: "error \<Rightarrow> http_error" where
  "resolveHttpError e = (case resolveKnownError e of None \<Rightarrow> (500, INTERNAL_ERROR_MESSAGE) | Some r \<Rightarrow> r)"

definition orUnavailable :: "string \<Rightarrow> 'a res \<Rightarrow> 'a res" where
  "orUnavailable message r =
     (case r of
        Inl e \<Rightarrow> if resolveKnownError e = None then Inl (ServiceUnavailable message) else Inl e
      | Inr x \<Rightarrow> Inr x)"

lemma orUnavailable_Inr [simp]: "orUnavailable message r = Inr x \<longleftrightarrow> r = Inr x"
  by (auto simp: orUnavailable_def split: sum.splits)

text \<open>No service behind it answers with an internal error.\<close>

lemma orUnavailable_known: "orUnavailable message r = Inl e \<Longrightarrow> resolveKnownError e \<noteq> None"
  by (auto simp: orUnavailable_def split: sum.splits if_splits)

end
