(* ===== verification/Patrimony.thy ===== *)
theory Patrimony
  imports Patrimony_Timeline Piggy_Runs Http_Errors
begin

text \<open>
  \<open>backend/src/lib/patrimony.ts\<close>, \<open>patrimony-snapshot.ts\<close> and \<open>services/patrimony.ts\<close>: the
  settings of the net worth, the consistent snapshot of a user's rows, and the history computed from
  it. The market layer is the parameter \<open>market\<close>; \<open>newDecimal\<close> is the constructor of the decimal
  library on a text, \<open>None\<close> where it throws or the number is not finite.
\<close>

section \<open>Tables and market data\<close>

record patrimony_settings =
  ps_userId :: string
  ps_baseDate :: instant
  ps_openingCashBrl :: rat

record patrimony_db = asset_db +
  w_settings :: "patrimony_settings list"

record market_quote =
  mq_provider :: string
  mq_stale :: bool
  mq_value :: rat
  mq_asOf :: string

record market =
  mk_assetHistory :: "asset \<Rightarrow> day_key \<Rightarrow> day_key \<Rightarrow> int \<Rightarrow> market_series res"
  mk_cdiHistory :: "day_key \<Rightarrow> day_key \<Rightarrow> market_series res"
  mk_ipcaHistory :: "day_key \<Rightarrow> day_key \<Rightarrow> int \<Rightarrow> market_series res"
  mk_quote :: "asset \<Rightarrow> market_quote res"

section \<open>The snapshot\<close>

record patrimony_snapshot =
  sn_settings :: patrimony_settings
  sn_expenses :: "expense_row list"
  sn_entries :: "entry_row list"
  sn_assetTransactions :: "asset_tx list"
  sn_piggyTransactions :: "piggy_tx list"

definition settings_of :: "string \<Rightarrow> 'a patrimony_db_scheme \<Rightarrow> patrimony_settings option" where
  "settings_of userId db = find (\<lambda>s. ps_userId s = userId) (w_settings db)"

definition readPatrimonySnapshot :: "string \<Rightarrow> patrimony_db \<Rightarrow> patrimony_snapshot res" where
  "readPatrimonySnapshot userId db =
     (case settings_of userId db of
        None \<Rightarrow> Inl (PatrimonyError ''Patrimonio ainda nao configurado'')
      | Some settings \<Rightarrow> Inr
          \<lparr>sn_settings = settings,
           sn_expenses = filter (\<lambda>e. er_userId e = userId \<and> er_voidedAt e = None) (db_expenses (w_finance db)),
           sn_entries = filter (\<lambda>n. en_userId n = userId) (db_entries (w_finance db)),
           sn_assetTransactions = sort_key (\<lambda>t. (as_date t, as_createdAt t)) (filter (\<lambda>t. as_userId t = userId) (w_assets db)),
           sn_piggyTransactions = sort_key (\<lambda>t. (it_date t, pt_createdAt t)) (filter (\<lambda>t. pt_userId t = userId) (db_piggyTx (w_finance db)))\<rparr>)"

section \<open>The history\<close>

definition PRICE_LOOKBACK_DAYS :: int where
  "PRICE_LOOKBACK_DAYS = 10"

definition IPCA_LOOKBACK_DAYS :: int where
  "IPCA_LOOKBACK_DAYS = 60"

text \<open>Noon of the day of the stored base date.\<close>

definition base_noon :: "patrimony_settings \<Rightarrow> instant" where
  "base_noon settings =
     (let d = ps_baseDate settings in date_UTC (getUTCFullYear d) (getUTCMonth d) (getUTCDate d) 12)"

text \<open>The base of the calculation and the first and last day shown, or why there is none.\<close>

definition requested_period ::
    "tz_offset \<Rightarrow> instant \<Rightarrow> patrimony_settings \<Rightarrow> string option \<Rightarrow> string option \<Rightarrow> (instant \<times> instant \<times> instant \<times> instant) res" where
  "requested_period sp now settings fromInput toInput =
     res_bind (patrimonyToday sp now) (\<lambda>today.
     let base = base_noon settings in
     res_bind (if truthy fromInput then parseHistoryDate (the fromInput) else Inr base) (\<lambda>requestedFrom.
     res_bind (if truthy toInput then parseHistoryDate (the toInput) else Inr today) (\<lambda>requestedTo.
     res_when (requestedFrom > today \<or> requestedTo > today) (PatrimonyError ''Data futura nao permitida'')
     (let calculationBase = calculationStart base today;
          from = (if requestedFrom < calculationBase then calculationBase else requestedFrom);
          to = (if requestedTo > today then today else requestedTo) in
      res_when (from > to) (PatrimonyError ''Periodo invalido'')
        (Inr (calculationBase, from, to, today))))))"

text \<open>The expenses and entries that belong to a transfer between the user's own accounts.\<close>

definition given_ids :: "string option list \<Rightarrow> string list" where
  "given_ids ids = map the (filter truthy ids)"

definition internal_expense_ids :: "patrimony_snapshot \<Rightarrow> string list" where
  "internal_expense_ids s = given_ids (map as_expenseId (sn_assetTransactions s) @ map pt_expenseId (sn_piggyTransactions s))"

definition internal_entry_ids :: "patrimony_snapshot \<Rightarrow> string list" where
  "internal_entry_ids s = given_ids (map as_entryId (sn_assetTransactions s) @ map pt_entryId (sn_piggyTransactions s))"

definition snapshot_flows :: "decimal_lib \<Rightarrow> tz_offset \<Rightarrow> patrimony_snapshot \<Rightarrow> instant \<Rightarrow> cash_flow list" where
  "snapshot_flows D sp s to =
     buildCashFlows D sp (base_noon (sn_settings s)) to (sn_expenses s) (sn_entries s) (internal_expense_ids s) (internal_entry_ids s)"

definition history_args ::
    "decimal_lib \<Rightarrow> tz_offset \<Rightarrow> patrimony_snapshot \<Rightarrow> instant \<Rightarrow> instant \<Rightarrow> instant
     \<Rightarrow> market_point list \<Rightarrow> market_point list \<Rightarrow> market_point list \<Rightarrow> market_point list \<Rightarrow> patrimony_args" where
  "history_args D sp s calculationBase from to btcPoints usdPoints cdiPoints ipcaPoints =
     \<lparr>pa_storedBaseKey = dayKeyInSaoPaulo sp (base_noon (sn_settings s)),
      pa_calculationBaseKey = dayKeyInSaoPaulo sp calculationBase,
      pa_fromKey = dayKeyInSaoPaulo sp from, pa_toKey = dayKeyInSaoPaulo sp to,
      pa_openingCash = ps_openingCashBrl (sn_settings s), pa_flows = snapshot_flows D sp s to,
      pa_piggyTransactions = sn_piggyTransactions s, pa_assetTransactions = sn_assetTransactions s,
      pa_btcPoints = btcPoints, pa_usdPoints = usdPoints, pa_cdiPoints = cdiPoints, pa_ipcaPoints = ipcaPoints\<rparr>"

record patrimony_summary =
  su_latest :: patrimony_row
  su_versusCdiBrl :: rat
  su_versusCdiPercent :: "rat option"
  su_versusIpcaBrl :: rat
  su_versusIpcaPercent :: "rat option"

record stale_flags =
  sf_btc :: bool
  sf_usd :: bool
  sf_cdi :: bool
  sf_ipca :: bool

record patrimony_history =
  ph_baseDate :: day_key
  ph_openingCashBrl :: rat
  ph_summary :: patrimony_summary
  ph_stale :: stale_flags
  ph_history :: "patrimony_row list"

definition summary_of :: "decimal_lib \<Rightarrow> patrimony_row \<Rightarrow> patrimony_summary" where
  "summary_of D latest =
     (let real = pr_patrimonyBrl latest; cdi = pr_cdiBrl latest; ipca = pr_ipcaBrl latest in
      \<lparr>su_latest = latest, su_versusCdiBrl = dec_minus D real cdi, su_versusCdiPercent = percentDiff D real cdi,
       su_versusIpcaBrl = dec_minus D real ipca, su_versusIpcaPercent = percentDiff D real ipca\<rparr>)"

text \<open>The points of an asset, with today's quote when the period ends today.\<close>

definition quoted_points :: "bool \<Rightarrow> day_key \<Rightarrow> market_series \<Rightarrow> market_quote \<Rightarrow> market_point list" where
  "quoted_points includeToday todayKey series quote =
     (if includeToday then withTodayPoint (ms_points series) todayKey (mq_value quote) else ms_points series)"

definition getPatrimonyHistory ::
    "decimal_lib \<Rightarrow> tz_offset \<Rightarrow> market \<Rightarrow> instant \<Rightarrow> string \<Rightarrow> string option \<Rightarrow> string option \<Rightarrow> patrimony_db
     \<Rightarrow> patrimony_history res" where
  "getPatrimonyHistory D sp market now userId fromInput toInput db =
     res_bind (readPatrimonySnapshot userId db) (\<lambda>s.
     res_bind (requested_period sp now (sn_settings s) fromInput toInput) (\<lambda>(calculationBase, from, to, today).
     let calculationBaseKey = dayKeyInSaoPaulo sp calculationBase; toKey = dayKeyInSaoPaulo sp to;
         todayKey = dayKeyInSaoPaulo sp today in
     res_bind (mk_assetHistory market BTC calculationBaseKey toKey PRICE_LOOKBACK_DAYS) (\<lambda>btcSeries.
     res_bind (mk_assetHistory market USD calculationBaseKey toKey PRICE_LOOKBACK_DAYS) (\<lambda>usdSeries.
     res_bind (mk_cdiHistory market calculationBaseKey toKey) (\<lambda>cdiSeries.
     res_bind (mk_ipcaHistory market calculationBaseKey toKey IPCA_LOOKBACK_DAYS) (\<lambda>ipcaSeries.
     res_bind (mk_quote market BTC) (\<lambda>btcQuote.
     res_bind (mk_quote market USD) (\<lambda>usdQuote.
     let includeToday = (toKey = todayKey) in
     res_bind (buildPatrimonyRows D sp (history_args D sp s calculationBase from to
                 (quoted_points includeToday todayKey btcSeries btcQuote)
                 (quoted_points includeToday todayKey usdSeries usdQuote)
                 (ms_points cdiSeries) (ms_points ipcaSeries))) (\<lambda>rows.
     if rows = [] then Inl (PatrimonyError ''Sem historico patrimonial'')
     else Inr \<lparr>ph_baseDate = dayKeyInSaoPaulo sp (base_noon (sn_settings s)),
               ph_openingCashBrl = ps_openingCashBrl (sn_settings s), ph_summary = summary_of D (last rows),
               ph_stale = \<lparr>sf_btc = (ms_stale btcSeries \<or> mq_stale btcQuote), sf_usd = (ms_stale usdSeries \<or> mq_stale usdQuote),
                           sf_cdi = ms_stale cdiSeries, sf_ipca = ms_stale ipcaSeries\<rparr>,
               ph_history = rows\<rparr>)))))))))"

section \<open>The settings\<close>

definition savePatrimonySettings ::
    "decimal_lib \<Rightarrow> tz_offset \<Rightarrow> (string \<Rightarrow> rat option) \<Rightarrow> instant \<Rightarrow> string \<Rightarrow> js \<Rightarrow> js \<Rightarrow> patrimony_db
     \<Rightarrow> (patrimony_db \<times> patrimony_settings) res" where
  "savePatrimonySettings D sp newDecimal now userId baseDateInput openingCashInput db =
     (let given = (\<lambda>v. if js_nullish v then [] else js_to_string v) in
      res_bind (parseHistoryDate (given baseDateInput)) (\<lambda>baseDate.
      res_bind (patrimonyToday sp now) (\<lambda>today.
      res_when (baseDate > today) (PatrimonyError ''Data-base futura nao e permitida'')
      (case newDecimal (given openingCashInput) of
         None \<Rightarrow> Inl (PatrimonyError ''Saldo inicial invalido'')
       | Some x \<Rightarrow>
           (let settings = \<lparr>ps_userId = userId, ps_baseDate = baseDate, ps_openingCashBrl = toMoney D x\<rparr> in
            Inr (db\<lparr>w_settings := (if settings_of userId db = None then w_settings db @ [settings]
                                   else map (\<lambda>s. if ps_userId s = userId then settings else s) (w_settings db))\<rparr>, settings))))))"

section \<open>services/patrimony.ts\<close>

definition unavailable_message :: string where
  "unavailable_message = ''Dados patrimoniais indisponiveis e sem cache suficiente''"

text \<open>The settings as sent: the civil day of the base and the opening cash.\<close>

definition serializePatrimonySettings :: "patrimony_settings \<Rightarrow> string \<times> rat" where
  "serializePatrimonySettings settings = (take 10 (toISOString (ps_baseDate settings)), ps_openingCashBrl settings)"

definition readPatrimonySettings :: "string \<Rightarrow> patrimony_db \<Rightarrow> (string \<times> rat) option" where
  "readPatrimonySettings userId db = map_option serializePatrimonySettings (settings_of userId db)"

definition writePatrimonySettings ::
    "decimal_lib \<Rightarrow> tz_offset \<Rightarrow> (string \<Rightarrow> rat option) \<Rightarrow> instant \<Rightarrow> string \<Rightarrow> js \<Rightarrow> js \<Rightarrow> patrimony_db
     \<Rightarrow> (patrimony_db \<times> string \<times> rat) res" where
  "writePatrimonySettings D sp newDecimal now userId baseDate openingCashBrl db =
     res_bind (savePatrimonySettings D sp newDecimal now userId baseDate openingCashBrl db) (\<lambda>(db', settings).
     Inr (db', serializePatrimonySettings settings))"

definition patrimonySummary ::
    "decimal_lib \<Rightarrow> tz_offset \<Rightarrow> market \<Rightarrow> instant \<Rightarrow> string \<Rightarrow> patrimony_db \<Rightarrow> (day_key \<times> rat \<times> patrimony_summary \<times> stale_flags) res" where
  "patrimonySummary D sp market now userId db =
     orUnavailable unavailable_message
       (res_bind (getPatrimonyHistory D sp market now userId None None db) (\<lambda>h.
        Inr (ph_baseDate h, ph_openingCashBrl h, ph_summary h, ph_stale h)))"

definition patrimonyHistory ::
    "decimal_lib \<Rightarrow> tz_offset \<Rightarrow> market \<Rightarrow> instant \<Rightarrow> string \<Rightarrow> string option \<Rightarrow> string option \<Rightarrow> patrimony_db \<Rightarrow> patrimony_history res" where
  "patrimonyHistory D sp market now userId from to db =
     orUnavailable unavailable_message (getPatrimonyHistory D sp market now userId from to db)"

end
