(* ===== verification/Net_Worth_Examples.thy ===== *)
theory Net_Worth_Examples
  imports Application Asset_Patches Patrimony
begin

text \<open>Ana's purchase of half a bitcoin as a run of the application, and the timeline of her net worth.\<close>

section \<open>The purchase\<close>



section \<open>Three days of it\<close>

definition btc_prices :: "market_point list" where
  "btc_prices = [\<lparr>mp_date = ''2026-01-02'', mp_value = 3000\<rparr>, \<lparr>mp_date = ''2026-01-06'', mp_value = 4000\<rparr>]"

definition usd_prices :: "market_point list" where
  "usd_prices = [\<lparr>mp_date = ''2026-01-02'', mp_value = 5\<rparr>]"

definition purchase_flow :: cash_flow where
  "purchase_flow = \<lparr>cf_date = ''2026-01-05'', cf_amount = - 1500, cf_external = False\<rparr>"

definition three_days :: patrimony_args where
  "three_days = \<lparr>pa_storedBaseKey = ''2026-01-04'', pa_calculationBaseKey = ''2026-01-04'', pa_fromKey = ''2026-01-04'',
     pa_toKey = ''2026-01-06'', pa_openingCash = 2000, pa_flows = [purchase_flow], pa_piggyTransactions = [],
     pa_assetTransactions = [half_tx], pa_btcPoints = btc_prices, pa_usdPoints = usd_prices, pa_cdiPoints = [],
     pa_ipcaPoints = []\<rparr>"

lemma three_keys: "key 20457 = ''2026-01-04''" "key 20458 = ''2026-01-05''" "key 20459 = ''2026-01-06''"
  by code_simp+

lemma three_ok: "ok_day 20457" "ok_day 20458" "ok_day 20459" "ok_day (20459 + 1)"
  by (simp_all add: ok_day_def)

lemma half_day: "dayKeyInSaoPaulo sao_paulo_standard ana_day = ''2026-01-05''"
  using standard.local_noon [OF three_ok(2)] by (simp add: ana_day_def three_keys)

lemma three_steps:
  "piggy_steps sao_paulo_standard (pa_piggyTransactions three_days) = []"
  "quantity_steps sao_paulo_standard a (pa_assetTransactions three_days) = (if a = BTC then [(''2026-01-05'', 1 / 2)] else [])"
  by (simp_all add: three_days_def piggy_steps_def quantity_steps_def btc_tx_fields half_day)

lemma three_sound: "sound_inputs sao_paulo_standard three_days 20457 20457 20459"
proof -
  have day: "\<exists>m. ok_day m \<and> cf_date purchase_flow = key m"
    by (rule exI [of _ 20458]) (simp only: purchase_flow_def cash_flow.simps three_ok three_keys simp_thms)
  have grid: "cents (2000 :: rat)" "cents (- 1500 :: rat)" "on_grid 12 (1 / 2 :: rat)" by code_simp+
  have series: "sorted_points (asset_points three_days a)" for a
    by (cases a) (simp_all add: asset_points_def three_days_def btc_prices_def usd_prices_def sorted_points_def)
  have keys: "pa_storedBaseKey three_days = key 20457" "pa_calculationBaseKey three_days = key 20457"
    "pa_fromKey three_days = key 20457" "pa_toKey three_days = key 20459"
    by (simp_all only: three_days_def three_keys patrimony_args.simps)
  have rest: "pa_flows three_days = [purchase_flow]" "pa_openingCash three_days = 2000" "pa_ipcaPoints three_days = []"
    by (simp_all only: three_days_def patrimony_args.simps)
  have flow: "cf_amount purchase_flow = - 1500" by (simp add: purchase_flow_def)
  show ?thesis
    unfolding sound_inputs_def keys rest three_steps exact_steps_def
  proof (intro conjI allI ballI)
    show "on_grid 12 (snd x)" if "x \<in> set (if a = BTC then [(''2026-01-05'', 1 / 2)] else [])" for a and x :: "day_key \<times> rat"
      using that grid(3) by (auto split: if_splits)
    show "\<exists>m. ok_day m \<and> cf_date f = key m" "cents (cf_amount f)" if "f \<in> set [purchase_flow]" for f
      using that day grid(2) flow by (simp_all only: list.set insert_iff empty_iff simp_thms)
  qed (use three_ok grid(1) series in \<open>simp_all add: flow sorted_points_def [of "[]"]\<close>)
qed

lemma three_prices:
  "last_point btc_prices ''2026-01-04'' = Some \<lparr>mp_date = ''2026-01-02'', mp_value = 3000\<rparr>"
  "last_point btc_prices ''2026-01-05'' = Some \<lparr>mp_date = ''2026-01-02'', mp_value = 3000\<rparr>"
  "last_point btc_prices ''2026-01-06'' = Some \<lparr>mp_date = ''2026-01-06'', mp_value = 4000\<rparr>"
  "last_point usd_prices ''2026-01-04'' = Some \<lparr>mp_date = ''2026-01-02'', mp_value = 5\<rparr>"
  "last_point usd_prices ''2026-01-05'' = Some \<lparr>mp_date = ''2026-01-02'', mp_value = 5\<rparr>"
  "last_point usd_prices ''2026-01-06'' = Some \<lparr>mp_date = ''2026-01-02'', mp_value = 5\<rparr>"
  by code_simp+

lemma three_points: "asset_points three_days BTC = btc_prices" "asset_points three_days USD = usd_prices"
  by (simp_all add: asset_points_def three_days_def)

lemma three_exact:
  "dec_mul decimal_js (1 / 2) 3000 = 1500" "dec_mul decimal_js (1 / 2) 4000 = 2000" "dec_mul decimal_js 0 x = 0"
  "dec_plus decimal_js 2000 0 = 2000" "dec_plus decimal_js 500 1500 = 2000" "dec_plus decimal_js 500 2000 = 2500"
  "dec_plus decimal_js 2500 0 = 2500"
proof -
  have "cents 1500" "cents 2000" "cents 2500" by code_simp+
  then show "dec_mul decimal_js (1 / 2) 3000 = 1500" "dec_mul decimal_js (1 / 2) 4000 = 2000" "dec_mul decimal_js 0 x = 0"
    "dec_plus decimal_js 2000 0 = 2000" "dec_plus decimal_js 500 1500 = 2000" "dec_plus decimal_js 500 2000 = 2500"
    "dec_plus decimal_js 2500 0 = 2500"
    by (simp_all add: js_decimal.mul_exact js_decimal.plus_exact cents_fits20)
qed

lemma three_cash: "cash_on three_days ''2026-01-04'' = 2000" "cash_on three_days ''2026-01-05'' = 500" "cash_on three_days ''2026-01-06'' = 500"
  by code_simp+

theorem timeline_is_ledger_sums_witness:
  "\<exists>rows. buildPatrimonyRows decimal_js sao_paulo_standard three_days = Inr rows
     \<and> map pr_date rows = [''2026-01-04'', ''2026-01-05'', ''2026-01-06''] \<and> map pr_cashBrl rows = [2000, 500, 500]
     \<and> map pr_btcBrl rows = [0, 1500, 2000] \<and> map pr_patrimonyBrl rows = [2000, 2000, 2500]"
proof -
  have p: "priced three_days 20457"
    by (simp add: priced_def three_keys asset_points_def three_days_def btc_prices_def usd_prices_def last_point_def split: asset.splits)
  have days: "[20457..20459 :: int] = [20457, 20458, 20459]" by (simp add: upto.simps)
  note rows = timeline_is_ledger_sums [OF js_decimal.decimal_arith_axioms three_sound] p
  have w: "worth_on decimal_js sao_paulo_standard three_days BTC ''2026-01-04'' = 0"
    "worth_on decimal_js sao_paulo_standard three_days BTC ''2026-01-05'' = 1500"
    "worth_on decimal_js sao_paulo_standard three_days BTC ''2026-01-06'' = 2000"
    "k \<in> {''2026-01-04'', ''2026-01-05'', ''2026-01-06''} \<Longrightarrow> worth_on decimal_js sao_paulo_standard three_days USD k = 0" for k
    using three_prices three_exact by (auto simp: worth_on_def units_on_def three_steps steps_until_def three_points)
  have "piggy_on sao_paulo_standard three_days k = 0" for k by (simp add: piggy_on_def three_steps steps_until_def)
  then show ?thesis
    using rows by (auto simp: days reference_row_def three_keys patrimony_on_def three_cash w three_exact)
qed

end
