(* ===== verification/Spec2Isabelle.thy ===== *)
theory Spec2Isabelle
  imports Expense_Witnesses Net_Worth_Examples
begin

text \<open>
  A verification development for the backend of the finance application.
\<close>

end
